(* ===== verification/Prelude.thy ===== *)
theory Prelude
  imports Main "HOL-Library.Word" "HOL-Library.AList" "HOL-Library.List_Lexorder"
    "HOL-Library.Char_ord"
begin

text \<open>
  What every component of the development shares: the exceptions of the Python code as values,
  the result type that carries them, Python's indexing, shifts, bit counts and dictionaries, and
  the lemmas on 32-bit masking that the arithmetic of the transfer language rests on.

  Python integers are unbounded, so they are \<open>int\<close>; the operators \<open>&\<close>, \<open>|\<close>, \<open>^\<close>, \<open>~\<close>,
  \<open><<\<close> and \<open>>>\<close> are the bit operations of \<open>int\<close>, which read a negative number as an infinite
  two's complement, as Python does. A dictionary is an association list in insertion order
  with distinct keys: \<open>map_of\<close> looks a key up and \<open>AList.update\<close> stores a value.
\<close>

unbundle bit_operations_syntax

section \<open>Exceptions and results\<close>

datatype py_error =
    Semantic_fault
  | Memory_fault
  | Index_error
  | Key_error
  | Value_error
  | Type_error
  | Recursion_error
  | Plan_error string
  | Input_error string
  | Action_error

type_synonym 'a res = "py_error + 'a"

abbreviation Ok :: "'a \<Rightarrow> 'a res" where
  "Ok \<equiv> Inr"

abbreviation Raise :: "py_error \<Rightarrow> 'a res" where
  "Raise \<equiv> Inl"

fun bind :: "'a res \<Rightarrow> ('a \<Rightarrow> 'b res) \<Rightarrow> 'b res" where
  "bind (Inl e) f = Inl e"
| "bind (Inr x) f = f x"

fun is_ok :: "'a res \<Rightarrow> bool" where
  "is_ok (Inr _) = True"
| "is_ok (Inl _) = False"

named_theorems res_simps

lemma bind_eq_Ok [res_simps]: "bind m f = Inr y \<longleftrightarrow> (\<exists>x. m = Inr x \<and> f x = Inr y)"
  by (cases m) auto

lemma bind_eq_Raise: "bind m f = Inl e \<longleftrightarrow> m = Inl e \<or> (\<exists>x. m = Inr x \<and> f x = Inl e)"
  by (cases m) auto

lemma bind_OkE: "bind m f = Inr y \<Longrightarrow> (\<And>x. m = Inr x \<Longrightarrow> f x = Inr y \<Longrightarrow> thesis) \<Longrightarrow> thesis"
  by (auto simp: bind_eq_Ok)

lemma bind_split:
  "P (bind m f) \<longleftrightarrow> (\<forall>e. m = Inl e \<longrightarrow> P (Inl e)) \<and> (\<forall>x. m = Inr x \<longrightarrow> P (f x))"
  by (cases m) auto

lemma is_ok_iff [res_simps]: "is_ok m \<longleftrightarrow> (\<exists>x. m = Inr x)"
  by (cases m) auto

text \<open>A comprehension \<open>[f(x) for x in xs]\<close> whose element may raise: the first error wins.\<close>

fun mapM :: "('a \<Rightarrow> 'b res) \<Rightarrow> 'a list \<Rightarrow> 'b list res" where
  "mapM f [] = Inr []"
| "mapM f (x # xs) = bind (f x) (\<lambda>y. bind (mapM f xs) (\<lambda>ys. Inr (y # ys)))"

lemma mapM_Ok_iff [res_simps]: "mapM f xs = Inr ys \<longleftrightarrow> list_all2 (\<lambda>x y. f x = Inr y) xs ys"
proof (induction xs arbitrary: ys)
  case Nil
  show ?case by auto
next
  case (Cons x xs)
  then show ?case
    by (cases "f x"; cases "mapM f xs"; cases ys) (auto simp: bind_eq_Ok)
qed

lemma mapM_length: "mapM f xs = Inr ys \<Longrightarrow> length ys = length xs"
  by (simp add: mapM_Ok_iff list_all2_lengthD)

lemma mapM_all: "mapM f xs = Inr ys \<Longrightarrow> (\<And>x y. f x = Inr y \<Longrightarrow> P y) \<Longrightarrow> y \<in> set ys \<Longrightarrow> P y"
  by (auto simp: mapM_Ok_iff in_set_conv_nth list_all2_conv_all_nth)

lemma mapM_origin: "mapM f xs = Inr ys \<Longrightarrow> y \<in> set ys \<Longrightarrow> \<exists>x\<in>set xs. f x = Inr y"
  by (induction xs arbitrary: ys) (auto elim!: bind_OkE)

lemma mapM_all_Ok: "(\<And>x. x \<in> set xs \<Longrightarrow> f x = Inr (g x)) \<Longrightarrow> mapM f xs = Inr (map g xs)"
  by (induction xs) auto

fun foldM :: "('s \<Rightarrow> 'a \<Rightarrow> 's res) \<Rightarrow> 's \<Rightarrow> 'a list \<Rightarrow> 's res" where
  "foldM f s [] = Inr s"
| "foldM f s (x # xs) = bind (f s x) (\<lambda>s'. foldM f s' xs)"

lemma foldM_invariant:
  "foldM f s xs = Inr s' \<Longrightarrow> P s \<Longrightarrow> (\<And>s x s'. x \<in> set xs \<Longrightarrow> P s \<Longrightarrow> f s x = Inr s' \<Longrightarrow> P s') \<Longrightarrow> P s'"
proof (induction xs arbitrary: s)
  case (Cons x xs)
  then show ?case by (auto elim!: bind_OkE)
qed simp

text \<open>A dictionary comprehension: a repeated key keeps its place and takes the last value.\<close>

definition dict_of :: "('k \<times> 'v) list \<Rightarrow> ('k \<times> 'v) list" where
  "dict_of ps = foldl (\<lambda>d p. AList.update (fst p) (snd p) d) [] ps"

fun filterM :: "('a \<Rightarrow> bool res) \<Rightarrow> 'a list \<Rightarrow> 'a list res" where
  "filterM f [] = Inr []"
| "filterM f (x # xs) = bind (f x) (\<lambda>b. bind (filterM f xs) (\<lambda>ys. Inr (if b then x # ys else ys)))"

lemma filterM_subset: "filterM f xs = Inr ys \<Longrightarrow> y \<in> set ys \<Longrightarrow> y \<in> set xs \<and> f y = Inr True"
  by (induction xs arbitrary: ys) (auto elim!: bind_OkE split: if_split_asm)

section \<open>Indexing, shifts and bit counts\<close>

text \<open>A sequence index: negative indices count from the end, anything else out of range raises.\<close>

definition py_position :: "nat \<Rightarrow> int \<Rightarrow> nat option" where
  "py_position len i =
     (if i \<ge> 0 then (if nat i < len then Some (nat i) else None)
      else if nat (- i) \<le> len then Some (len - nat (- i)) else None)"

definition py_index :: "'a list \<Rightarrow> int \<Rightarrow> 'a res" where
  "py_index seq i = (case py_position (length seq) i of None \<Rightarrow> Inl Index_error | Some k \<Rightarrow> Inr (seq ! k))"

lemma py_index_unfold:
  "py_index seq i = (let k = if i < 0 then int (length seq) + i else i
     in if 0 \<le> k \<and> k < int (length seq) then Inr (seq ! nat k) else Inl Index_error)"
proof (cases "i < 0")
  case True
  then have "nat (- i) \<le> length seq \<longleftrightarrow> 0 \<le> int (length seq) + i"
    "length seq - nat (- i) = nat (int (length seq) + i)" by linarith+
  with True show ?thesis by (simp add: py_index_def py_position_def)
next
  case False
  then show ?thesis by (simp add: py_index_def py_position_def nat_less_iff)
qed

lemma py_index_nonneg: "0 \<le> i \<Longrightarrow> i < int (length xs) \<Longrightarrow> py_index xs i = Inr (xs ! nat i)"
  by (simp add: py_index_unfold Let_def)

lemma py_index_0 [simp]: "py_index (x # xs) 0 = Inr x"
  by (simp add: py_index_unfold Let_def)

lemma py_index_1 [simp]: "py_index (x # y # xs) 1 = Inr y"
  by (simp add: py_index_unfold Let_def)

lemma py_index_pos [simp]: "0 < i \<Longrightarrow> py_index (x # xs) i = py_index xs (i - 1)"
proof -
  assume "0 < i"
  then have "nat i = Suc (nat (i - 1))" by simp
  with \<open>0 < i\<close> show ?thesis by (auto simp: py_index_unfold Let_def)
qed

lemma py_index_Nil [simp]: "py_index [] i = Inl Index_error"
  by (simp add: py_index_unfold Let_def)

lemma py_index_m1 [simp]: "xs \<noteq> [] \<Longrightarrow> py_index xs (- 1) = Inr (last xs)"
  by (cases xs rule: rev_cases) (auto simp: py_index_unfold Let_def)

lemma py_index_m1_Nil: "py_index [] (- 1) = Inl Index_error"
  by simp

lemma py_index_in_set: "py_index xs i = Inr x \<Longrightarrow> x \<in> set xs"
  by (auto simp: py_index_unfold Let_def split: if_splits)

text \<open>The shift operators raise \<open>ValueError\<close> on a negative count.\<close>

definition py_shr :: "int \<Rightarrow> int \<Rightarrow> int res" where
  "py_shr a n = (if n < 0 then Inl Value_error else Inr (drop_bit (nat n) a))"

definition py_shl :: "int \<Rightarrow> int \<Rightarrow> int res" where
  "py_shl a n = (if n < 0 then Inl Value_error else Inr (push_bit (nat n) a))"

text \<open>\<open>int.bit_length\<close> and \<open>int.bit_count\<close> read the absolute value.\<close>

fun bit_length_nat :: "nat \<Rightarrow> nat" where
  "bit_length_nat n = (if n = 0 then 0 else Suc (bit_length_nat (n div 2)))"

fun bit_count_nat :: "nat \<Rightarrow> nat" where
  "bit_count_nat n = (if n = 0 then 0 else n mod 2 + bit_count_nat (n div 2))"

declare bit_length_nat.simps [simp del] bit_count_nat.simps [simp del]

definition bit_length :: "int \<Rightarrow> int" where
  "bit_length v = int (bit_length_nat (nat \<bar>v\<bar>))"

definition bit_count :: "int \<Rightarrow> int" where
  "bit_count v = int (bit_count_nat (nat \<bar>v\<bar>))"

lemma bit_length_nat_bounds: "0 < n \<Longrightarrow> 2 ^ (bit_length_nat n - 1) \<le> n \<and> n < 2 ^ bit_length_nat n"
proof (induction n rule: bit_length_nat.induct)
  case (1 n)
  show ?case
  proof (cases "n div 2 = 0")
    case True
    with 1(2) have "n = 1" by (simp add: div_eq_0_iff)
    then show ?thesis by (simp add: bit_length_nat.simps)
  next
    case False
    define m where "m = bit_length_nat (n div 2)"
    from False 1 have IH: "2 ^ (m - 1) \<le> n div 2" "n div 2 < 2 ^ m"
      by (auto simp: m_def)
    from False have "0 < m"
      by (auto simp: m_def bit_length_nat.simps[of "n div 2"])
    then have "2 ^ m = 2 * (2::nat) ^ (m - 1)"
      by (cases m) auto
    moreover have "bit_length_nat n = Suc m"
      using 1(2) by (simp add: bit_length_nat.simps[of n] m_def)
    ultimately show ?thesis using IH by auto
  qed
qed

lemma bit_length_bounds: "0 < v \<Longrightarrow> 2 ^ nat (bit_length v - 1) \<le> v \<and> v < 2 ^ nat (bit_length v)"
proof -
  assume v: "0 < v"
  then obtain n where n: "v = int n" "0 < n"
    by (metis nonneg_int_cases order_less_le of_nat_0_less_iff)
  have "0 < bit_length_nat n" using n by (simp add: bit_length_nat.simps[of n])
  then have "nat (int (bit_length_nat n) - 1) = bit_length_nat n - 1" by simp
  moreover have "int (2 ^ (bit_length_nat n - 1)) \<le> int n \<and> int n < int (2 ^ bit_length_nat n)"
    using bit_length_nat_bounds[OF n(2)] by (simp only: of_nat_le_iff of_nat_less_iff)
  ultimately show ?thesis by (simp add: bit_length_def n)
qed

section \<open>Masks\<close>

named_theorems mask_simps

lemma and_mask32 [mask_simps]: "(x::int) AND 0xFFFFFFFF = take_bit 32 x"
  by (simp add: take_bit_eq_mask mask_eq_exp_minus_1)

lemma and_mask16 [mask_simps]: "(x::int) AND 0xFFFF = take_bit 16 x"
  by (simp add: take_bit_eq_mask mask_eq_exp_minus_1)

lemma and_mask8 [mask_simps]: "(x::int) AND 0xFF = take_bit 8 x"
  by (simp add: take_bit_eq_mask mask_eq_exp_minus_1)

lemma and_mask5 [mask_simps]: "(x::int) AND 31 = take_bit 5 x"
  by (simp add: take_bit_eq_mask mask_eq_exp_minus_1)

lemma and_mask1 [mask_simps]: "(x::int) AND 1 = x mod 2"
  by (simp add: and_one_eq)

lemma take_bit_int_range: "0 \<le> take_bit n (x::int) \<and> take_bit n x < 2 ^ n"
  by (simp add: take_bit_int_eq_self_iff[symmetric])

lemma take_bit_lt: "take_bit n (x::int) < 2 ^ n"
  by (simp add: take_bit_int_eq_self_iff[symmetric])

lemma take_bit32_lt [simp]: "take_bit 32 (x::int) < 4294967296"
  using take_bit_lt[of 32 x] by simp

lemma take_bit8_lt [simp]: "take_bit 8 (x::int) < 256"
  using take_bit_lt[of 8 x] by simp

section \<open>Text\<close>

text \<open>\<open>str.strip\<close> and \<open>str.lower\<close> on code points below 256.\<close>

definition is_space :: "char \<Rightarrow> bool" where
  "is_space c = ((of_char c :: nat) \<in> {9, 10, 11, 12, 13, 28, 29, 30, 31, 32, 133, 160})"

definition strip :: "string \<Rightarrow> string" where
  "strip s = rev (dropWhile is_space (rev (dropWhile is_space s)))"

definition lower_char :: "char \<Rightarrow> char" where
  "lower_char c = (let n = of_char c :: nat in
     if (65 \<le> n \<and> n \<le> 90) \<or> (192 \<le> n \<and> n \<le> 222 \<and> n \<noteq> 215) then char_of (n + 32) else c)"

definition py_lower :: "string \<Rightarrow> string" where
  "py_lower s = map lower_char s"

lemma lower_char_idem [simp]: "lower_char (lower_char c) = lower_char c"
proof -
  have "(of_char (lower_char c) :: nat) \<notin> {65..90} \<union> ({192..222} - {215})"
    by (auto simp: lower_char_def Let_def)
  then show ?thesis
    by (auto simp: lower_char_def[of "lower_char c"] Let_def)
qed

lemma py_lower_idem [simp]: "py_lower (py_lower s) = py_lower s"
  by (simp add: py_lower_def)

lemma py_lower_Nil_iff [simp]: "py_lower s = [] \<longleftrightarrow> s = []"
  by (simp add: py_lower_def)

text \<open>\<open>text.split()\<close>: the maximal runs of characters that are not whitespace.\<close>

fun split_words :: "string \<Rightarrow> string \<Rightarrow> string list" where
  "split_words acc [] = (if acc = [] then [] else [rev acc])"
| "split_words acc (c # cs) =
     (if is_space c then (if acc = [] then split_words [] cs else rev acc # split_words [] cs)
      else split_words (c # acc) cs)"

lemma split_words_blank: "\<forall>c\<in>set s. is_space c \<Longrightarrow> split_words [] s = []"
  by (induction s) auto

end
