(* ===== verification/Json_Value.thy ===== *)
theory Json_Value
  imports Prelude
begin

text \<open>
  JSON documents as the Python code sees them after \<open>json.loads\<close>, the field validators of
  \<open>transfer/values.py\<close> and the canonical serialisation \<open>_canonical\<close>
  (\<open>json.dumps(value, sort_keys=True, separators=(",", ":"), ensure_ascii=True)\<close>) that every
  content digest of the program is taken of.

  The artifacts hold no floating-point numbers (their reader rejects them), so a number is an
  \<open>int\<close>. An object is its list of members in insertion order; \<open>json_wf\<close> says that its keys are
  distinct, as those of a dictionary are. A character is a code point below 256. A predicate
  \<open>isinstance(x, int)\<close> holds of the booleans in Python, which is why the validators test for
  \<open>bool\<close> first; in the model \<open>JBool\<close> and \<open>JInt\<close> are different constructors.
\<close>

datatype json =
    JNull
  | JBool bool
  | JInt int
  | JStr string
  | JList "json list"
  | JObj "(string \<times> json) list"

type_synonym members = "(string \<times> json) list"

text \<open>\<open>mapping.get(key)\<close> on an object's members; a missing key reads as \<open>None\<close>.\<close>

definition jget :: "members \<Rightarrow> string \<Rightarrow> json" where
  "jget ms k = (case map_of ms k of None \<Rightarrow> JNull | Some v \<Rightarrow> v)"

definition jget_default :: "members \<Rightarrow> string \<Rightarrow> json \<Rightarrow> json" where
  "jget_default ms k d = (case map_of ms k of None \<Rightarrow> d | Some v \<Rightarrow> v)"

definition jhas :: "members \<Rightarrow> string \<Rightarrow> bool" where
  "jhas ms k = (map_of ms k \<noteq> None)"

fun json_wf :: "json \<Rightarrow> bool" where
  "json_wf (JList xs) = list_all json_wf xs"
| "json_wf (JObj ms) = (distinct (map fst ms) \<and> list_all (\<lambda>kv. json_wf (snd kv)) ms)"
| "json_wf _ = True"

section \<open>Field validators (\<open>transfer/values.py\<close>)\<close>

definition malformed :: "'a res" where
  "malformed = Raise (Plan_error ''unsupported_transfer'')"

fun object_field :: "json \<Rightarrow> members res" where
  "object_field (JObj ms) = Ok ms"
| "object_field _ = malformed"

fun list_field :: "json \<Rightarrow> json list res" where
  "list_field (JList xs) = Ok xs"
| "list_field _ = malformed"

fun optional_list :: "json \<Rightarrow> json list" where
  "optional_list (JList xs) = xs"
| "optional_list _ = []"

fun string_field :: "json \<Rightarrow> string res" where
  "string_field (JStr s) = (if s = [] then malformed else Ok s)"
| "string_field _ = malformed"

abbreviation hex_digits :: string where
  "hex_digits \<equiv> ''0123456789abcdef''"

definition sha256_field :: "json \<Rightarrow> string res" where
  "sha256_field v = bind (string_field v) (\<lambda>text.
     if length text \<noteq> 64 \<or> (\<exists>c\<in>set text. c \<notin> set hex_digits) then malformed else Ok text)"

fun hex_value :: "char \<Rightarrow> nat" where
  "hex_value c = (if CHR ''0'' \<le> c \<and> c \<le> CHR ''9'' then of_char c - 48 else of_char c - 87)"

fun from_hex :: "string \<Rightarrow> int list" where
  "from_hex (a # b # rest) = int (16 * hex_value a + hex_value b) # from_hex rest"
| "from_hex _ = []"

text \<open>Digits are checked first, so \<open>bytes.fromhex\<close> never fails after the check.\<close>

definition hex_bytes :: "json \<Rightarrow> int list res" where
  "hex_bytes v = bind (string_field v) (\<lambda>text.
     if length text mod 2 \<noteq> 0 \<or> (\<exists>c\<in>set text. c \<notin> set hex_digits) then malformed
     else Ok (from_hex text))"

fun u32_field :: "json \<Rightarrow> int res" where
  "u32_field (JInt n) = (if 0 \<le> n \<and> n < 2 ^ 32 then Ok n else malformed)"
| "u32_field _ = malformed"

fun u32_wrapping :: "json \<Rightarrow> int res" where
  "u32_wrapping (JInt n) = Ok (n AND 0xFFFFFFFF)"
| "u32_wrapping _ = malformed"

fun nonnegative :: "json \<Rightarrow> int res" where
  "nonnegative (JInt n) = (if n < 0 then malformed else Ok n)"
| "nonnegative _ = malformed"

definition width_field :: "json \<Rightarrow> int res" where
  "width_field v = bind (nonnegative v) (\<lambda>r. if r \<in> {1, 2, 4} then Ok r else malformed)"

definition width_bits_field :: "json \<Rightarrow> int res" where
  "width_bits_field v = bind (nonnegative v) (\<lambda>r. if r \<in> {8, 16, 32} then Ok r else malformed)"

definition x87_slot :: "json \<Rightarrow> int res" where
  "x87_slot v = bind (nonnegative v) (\<lambda>r. if r \<ge> 8 then malformed else Ok r)"

text \<open>An expected arity is a number or an inclusive range.\<close>

datatype arity = Exact int | Between int int

fun arity_ok :: "int \<Rightarrow> arity \<Rightarrow> bool" where
  "arity_ok actual (Exact n) = (actual = n)"
| "arity_ok actual (Between lo hi) = (lo \<le> actual \<and> actual \<le> hi)"

text \<open>\<open>text.encode("utf-8")\<close>: a code point below 128 is one byte, the others here are two.\<close>

definition utf8_bytes :: "string \<Rightarrow> int list" where
  "utf8_bytes text = concat (map (\<lambda>c. let n = of_char c :: int in
     if n < 128 then [n] else [0xC0 OR drop_bit 6 n, 0x80 OR (n AND 0x3F)]) text)"

text \<open>FNV-1a over the UTF-8 bytes of a label: the slot of an undefined value.\<close>

definition stable_slot :: "string \<Rightarrow> int" where
  "stable_slot value =
     foldl (\<lambda>result byte. ((result XOR byte) * 16777619) AND 0xFFFFFFFF) 2166136261 (utf8_bytes value)"

lemma stable_slot_range: "0 \<le> stable_slot s \<and> stable_slot s < 2 ^ 32"
  unfolding stable_slot_def
  by (cases "utf8_bytes s" rule: rev_cases) (simp_all add: mask_simps)

section \<open>Canonical serialisation\<close>

fun nat_digits :: "nat \<Rightarrow> string" where
  "nat_digits n = (if n < 10 then [char_of (48 + n)] else nat_digits (n div 10) @ [char_of (48 + n mod 10)])"

declare nat_digits.simps [simp del]

lemma nat_digits_single [simp]: "n < 10 \<Longrightarrow> nat_digits n = [char_of (48 + n)]"
  by (subst nat_digits.simps) simp

definition int_text :: "int \<Rightarrow> string" where
  "int_text n = (if n < 0 then CHR ''-'' # nat_digits (nat (- n)) else nat_digits (nat n))"

definition hex_char :: "nat \<Rightarrow> char" where
  "hex_char n = (if n < 10 then char_of (48 + n) else char_of (87 + n))"

text \<open>
  The escapes of \<open>json.encoder\<close> with \<open>ensure_ascii\<close>: the quote, the backslash, the five short
  escapes, and \<open>\uXXXX\<close> for every other character outside space to tilde.
\<close>

definition escape_char :: "char \<Rightarrow> string" where
  "escape_char c =
     (let n = of_char c :: nat in
      if n = 34 then [char_of (92::nat), char_of (34::nat)]
      else if n = 92 then [char_of (92::nat), char_of (92::nat)]
      else if n = 10 then [char_of (92::nat), CHR ''n'']
      else if n = 13 then [char_of (92::nat), CHR ''r'']
      else if n = 9 then [char_of (92::nat), CHR ''t'']
      else if n = 12 then [char_of (92::nat), CHR ''f'']
      else if n = 8 then [char_of (92::nat), CHR ''b'']
      else if 32 \<le> n \<and> n \<le> 126 then [c]
      else [char_of (92::nat), CHR ''u'', CHR ''0'', CHR ''0'', hex_char (n div 16), hex_char (n mod 16)])"

definition quote_text :: "string \<Rightarrow> string" where
  "quote_text s = char_of (34::nat) # concat (map escape_char s) @ [char_of (34::nat)]"

fun join :: "string \<Rightarrow> string list \<Rightarrow> string" where
  "join sep [] = []"
| "join sep [x] = x"
| "join sep (x # y # xs) = x @ sep @ join sep (y # xs)"

text \<open>\<open>sort_keys=True\<close>, applied to every object of the document.\<close>

fun sort_keys :: "json \<Rightarrow> json" where
  "sort_keys (JList xs) = JList (map sort_keys xs)"
| "sort_keys (JObj ms) = JObj (sort_key fst (map (\<lambda>kv. (fst kv, sort_keys (snd kv))) ms))"
| "sort_keys v = v"

fun json_text :: "json \<Rightarrow> string" where
  "json_text JNull = ''null''"
| "json_text (JBool b) = (if b then ''true'' else ''false'')"
| "json_text (JInt n) = int_text n"
| "json_text (JStr s) = quote_text s"
| "json_text (JList xs) = ''['' @ join '','' (map json_text xs) @ '']''"
| "json_text (JObj ms) =
     ''{'' @ join '','' (map (\<lambda>kv. quote_text (fst kv) @ '':'' @ json_text (snd kv)) ms) @ ''}''"

definition canonical_json :: "json \<Rightarrow> string" where
  "canonical_json v = json_text (sort_keys v)"

text \<open>
  Python's \<open>==\<close> on documents: \<open>True == 1\<close>, \<open>False == 0\<close>, and dictionaries are compared without
  regard to the order of their keys. Two documents are equal when their normal forms are.
\<close>

fun py_norm :: "json \<Rightarrow> json" where
  "py_norm (JBool b) = JInt (of_bool b)"
| "py_norm (JList xs) = JList (map py_norm xs)"
| "py_norm (JObj ms) = JObj (sort_key fst (map (\<lambda>kv. (fst kv, py_norm (snd kv))) ms))"
| "py_norm v = v"

definition py_eq :: "json \<Rightarrow> json \<Rightarrow> bool" where
  "py_eq a b \<longleftrightarrow> py_norm a = py_norm b"

lemma py_eq_refl [simp]: "py_eq v v"
  by (simp add: py_eq_def)

lemma py_eq_str [simp]: "py_eq v (JStr s) \<longleftrightarrow> v = JStr s"
  by (cases v) (auto simp: py_eq_def)

lemma py_eq_str_left [simp]: "py_eq (JStr s) v \<longleftrightarrow> v = JStr s"
  by (cases v) (auto simp: py_eq_def)

lemma py_eq_null [simp]: "py_eq v JNull \<longleftrightarrow> v = JNull"
  by (cases v) (auto simp: py_eq_def)

lemma py_eq_int: "py_eq v (JInt n) \<longleftrightarrow> v = JInt n \<or> v = JBool True \<and> n = 1 \<or> v = JBool False \<and> n = 0"
  by (cases v) (auto simp: py_eq_def)

text \<open>The truth value of a document, as in \<open>x or default\<close>.\<close>

fun py_truthy :: "json \<Rightarrow> bool" where
  "py_truthy JNull = False"
| "py_truthy (JBool b) = b"
| "py_truthy (JInt n) = (n \<noteq> 0)"
| "py_truthy (JStr s) = (s \<noteq> [])"
| "py_truthy (JList xs) = (xs \<noteq> [])"
| "py_truthy (JObj ms) = (ms \<noteq> [])"

text \<open>Two documents with the same canonical text are interchangeable for every consumer.\<close>

definition same_expression :: "json \<Rightarrow> json \<Rightarrow> bool" where
  "same_expression first second = (canonical_json first = canonical_json second)"

section \<open>Documents as dictionaries\<close>

text \<open>\<open>row["key"]\<close> raises where \<open>row.get("key")\<close> reads \<open>None\<close>; only an object has keys.\<close>

definition jitem :: "members \<Rightarrow> string \<Rightarrow> json res" where
  "jitem ms k = (case map_of ms k of None \<Rightarrow> Raise Key_error | Some v \<Rightarrow> Ok v)"

definition has_fields :: "members \<Rightarrow> string list \<Rightarrow> bool" where
  "has_fields ms expected \<longleftrightarrow> set (map fst ms) = set expected"

definition item_of :: "json \<Rightarrow> string \<Rightarrow> json res" where
  "item_of v k = (case v of JObj ms \<Rightarrow> jitem ms k | _ \<Rightarrow> Raise Type_error)"

definition member_of :: "json \<Rightarrow> string \<Rightarrow> json" where
  "member_of v k = (case v of JObj ms \<Rightarrow> jget ms k | _ \<Rightarrow> JNull)"

definition opt_str :: "string option \<Rightarrow> json" where
  "opt_str v = (case v of None \<Rightarrow> JNull | Some s \<Rightarrow> JStr s)"

definition opt_int :: "int option \<Rightarrow> json" where
  "opt_int v = (case v of None \<Rightarrow> JNull | Some n \<Rightarrow> JInt n)"

text \<open>
  \<open>value in {...}\<close>: a list or a dictionary is not hashable, so the test raises. Numbers and booleans
  are compared with \<open>==\<close>.
\<close>

definition hash_in :: "json \<Rightarrow> json list \<Rightarrow> bool res" where
  "hash_in v xs = (case v of JList _ \<Rightarrow> Raise Type_error | JObj _ \<Rightarrow> Raise Type_error
     | _ \<Rightarrow> Ok (\<exists>x\<in>set xs. py_eq v x))"

lemma hash_in_JStr [simp]: "hash_in (JStr s) xs = Inr (JStr s \<in> set xs)"
  by (auto simp: hash_in_def)

text \<open>\<open>str(value)\<close>: a string is itself, anything else its \<open>repr\<close>.\<close>

definition repr_char :: "char \<Rightarrow> char \<Rightarrow> string" where
  "repr_char q c =
     (let n = of_char c :: nat in
      if c = q \<or> n = 92 then [char_of (92::nat), c]
      else if n = 9 then [char_of (92::nat), CHR ''t'']
      else if n = 10 then [char_of (92::nat), CHR ''n'']
      else if n = 13 then [char_of (92::nat), CHR ''r'']
      else if n < 32 \<or> (127 \<le> n \<and> n \<le> 160) \<or> n = 173
      then [char_of (92::nat), CHR ''x'', hex_char (n div 16), hex_char (n mod 16)] else [c])"

definition repr_text :: "string \<Rightarrow> string" where
  "repr_text s =
     (let q = (if char_of (39::nat) \<in> set s \<and> char_of (34::nat) \<notin> set s then char_of (34::nat) else char_of (39::nat))
      in q # concat (map (repr_char q) s) @ [q])"

fun py_repr :: "json \<Rightarrow> string" where
  "py_repr JNull = ''None''"
| "py_repr (JBool b) = (if b then ''True'' else ''False'')"
| "py_repr (JInt n) = int_text n"
| "py_repr (JStr s) = repr_text s"
| "py_repr (JList xs) = ''['' @ join '', '' (map py_repr xs) @ '']''"
| "py_repr (JObj ms) = ''{'' @ join '', '' (map (\<lambda>kv. repr_text (fst kv) @ '': '' @ py_repr (snd kv)) ms) @ ''}''"

definition py_str :: "json \<Rightarrow> string" where
  "py_str v = (case v of JStr s \<Rightarrow> s | _ \<Rightarrow> py_repr v)"

lemma py_str_JStr [simp]: "py_str (JStr s) = s"
  by (simp add: py_str_def)

text \<open>The digest of a document: the SHA-256, a parameter, of its canonical text.\<close>

definition json_digest :: "(string \<Rightarrow> string) \<Rightarrow> json \<Rightarrow> string" where
  "json_digest sha v = sha (canonical_json v)"

end
