(* ===== verification/Transfer_X87.thy ===== *)
theory Transfer_X87
  imports Json_Value
begin

text \<open>
  Typed x87 operations (\<open>transfer/x87.py\<close>): the canonical byte-free form of one x87 instruction, its
  extraction from decoded bytes and from a machine-IR micro operation, its strict reader, and the
  accounting of the memory events an operation owns.

  The decoder is the capstone package: a parameter that lists the decoded instructions. The SHA-256
  of a text is the parameter \<open>sha\<close>. \<open>ToolkitInputError\<close> is \<open>input_error\<close>.
\<close>

section \<open>Tables\<close>

definition input_error :: "'a res" where
  "input_error = Raise (Input_error ''toolkit_input'')"

definition x87_operation_format :: string where
  "x87_operation_format = ''spaghetti-extractor-typed-native-x87-operation-v1''"

definition x87_memory_write_mnemonics :: "string list" where
  "x87_memory_write_mnemonics =
     [''fbstp'', ''fist'', ''fistp'', ''fnsave'', ''fnstcw'', ''fnstenv'', ''fnstsw'',
      ''fsave'', ''fst'', ''fstcw'', ''fstenv'', ''fstp'', ''fstsw'']"

definition x87_gprs :: "string list" where
  "x87_gprs = [''eax'', ''ebx'', ''ecx'', ''edx'', ''esi'', ''edi'', ''ebp'', ''esp'']"

definition x87_no_operand_mnemonics :: "string list" where
  "x87_no_operand_mnemonics =
     [''f2xm1'', ''fabs'', ''fchs'', ''fclex'', ''fnclex'', ''fcos'', ''fdecstp'',
      ''fincstp'', ''finit'', ''fninit'', ''fld1'', ''fldl2e'', ''fldl2t'', ''fldlg2'',
      ''fldln2'', ''fldpi'', ''fldz'', ''fnop'', ''fpatan'', ''fprem'', ''fprem1'',
      ''fptan'', ''frndint'', ''fscale'', ''fsin'', ''fsincos'', ''fsqrt'', ''ftst'',
      ''fucompp'', ''fxam'', ''fxtract'', ''fyl2x'', ''fyl2xp1'', ''wait'']"

definition x87_stack_mnemonics :: "string list" where
  "x87_stack_mnemonics =
     [''fadd'', ''faddp'', ''fcom'', ''fcomp'', ''fcomi'', ''fcomip'', ''fcompi'', ''fdiv'',
      ''fdivp'', ''fdivr'', ''fdivrp'', ''fcmovb'', ''fcmovbe'', ''fcmove'', ''fcmovnb'',
      ''fcmovnbe'', ''fcmovne'', ''fcmovnu'', ''fcmovu'', ''ffree'', ''ffreep'', ''fld'',
      ''fmul'', ''fmulp'', ''fst'', ''fstp'', ''fsub'', ''fsubp'', ''fsubr'', ''fsubrp'',
      ''fucom'', ''fucomp'', ''fucomi'', ''fucomip'', ''fucompi'', ''fxch'']"

definition x87_ax_mnemonics :: "string list" where
  "x87_ax_mnemonics = [''fnstsw'', ''fstsw'']"

definition x87_memory_widths :: "(string \<times> int list) list" where
  "x87_memory_widths =
     map (\<lambda>m. (m, [4, 8]))
       [''fadd'', ''fcom'', ''fcomp'', ''fdiv'', ''fdivr'', ''fmul'', ''fst'', ''fsub'', ''fsubr'']
     @ map (\<lambda>m. (m, [2, 4]))
       [''fiadd'', ''ficom'', ''ficomp'', ''fidiv'', ''fidivr'', ''fimul'', ''fist'', ''fisub'', ''fisubr'']
     @ [(''fild'', [2, 4, 8]), (''fistp'', [2, 4, 8]), (''fbld'', [10]), (''fbstp'', [10]),
        (''fldcw'', [2]), (''fnstcw'', [2]), (''fstcw'', [2]), (''fnstsw'', [2]), (''fstsw'', [2]),
        (''fldenv'', [14, 28]), (''fnstenv'', [14, 28]), (''fstenv'', [14, 28]),
        (''frstor'', [94, 108]), (''fnsave'', [94, 108]), (''fsave'', [94, 108]),
        (''fld'', [4, 8, 10]), (''fstp'', [4, 8, 10])]"

section \<open>Operands and operations\<close>

record x87_operand =
  xo_kind :: string
  xo_width :: int
  xo_registers :: "int list"
  xo_base :: "string option"
  xo_index :: "string option"
  xo_scale :: int
  xo_displacement :: int
  xo_image_rva :: "int option"

text \<open>An operand of the given kind with the defaults of the dataclass.\<close>

definition mk_operand :: "string \<Rightarrow> int \<Rightarrow> int list \<Rightarrow> x87_operand" where
  "mk_operand k w rs =
     \<lparr>xo_kind = k, xo_width = w, xo_registers = rs, xo_base = None, xo_index = None, xo_scale = 1,
      xo_displacement = 0, xo_image_rva = None\<rparr>"

definition x87_address_payload :: "x87_operand \<Rightarrow> json" where
  "x87_address_payload r = JObj
     [(''base'', opt_str (xo_base r)), (''index'', opt_str (xo_index r)), (''scale'', JInt (xo_scale r)),
      (''displacement'', JInt (xo_displacement r)), (''image_rva'', opt_int (xo_image_rva r))]"

definition x87_operand_payload :: "x87_operand \<Rightarrow> json" where
  "x87_operand_payload r = JObj
     ([(''kind'', JStr (xo_kind r))]
      @ (if xo_width r \<noteq> 0 then [(''width'', JInt (xo_width r))] else [])
      @ (if xo_registers r \<noteq> [] then [(''stack_registers'', JList (map JInt (xo_registers r)))] else [])
      @ (if xo_kind r = ''memory'' then [(''address'', x87_address_payload r)] else []))"

record x87_operation =
  xi_mnemonic :: string
  xi_operand :: x87_operand
  xi_source_size :: int
  xi_identity :: string

definition x87_semantic_payload :: "string \<Rightarrow> x87_operand \<Rightarrow> members" where
  "x87_semantic_payload m r =
     [(''format'', JStr x87_operation_format), (''mnemonic'', JStr m), (''operand'', x87_operand_payload r)]"

definition x87_operation_payload :: "x87_operation \<Rightarrow> members" where
  "x87_operation_payload x =
     x87_semantic_payload (xi_mnemonic x) (xi_operand x)
     @ [(''identity'', JStr (xi_identity x)), (''source_size'', JInt (xi_source_size x))]"

definition mk_operation :: "(string \<Rightarrow> string) \<Rightarrow> string \<Rightarrow> x87_operand \<Rightarrow> int \<Rightarrow> x87_operation" where
  "mk_operation sha m r sz =
     \<lparr>xi_mnemonic = m, xi_operand = r, xi_source_size = sz,
      xi_identity = sha (canonical_json (JObj (x87_semantic_payload m r)))\<rparr>"

section \<open>Operand forms\<close>

text \<open>\<open>re.fullmatch("st\\(([0-7])\\)", name)\<close>: one of eight names.\<close>

definition stack_register_table :: "(string \<times> int) list" where
  "stack_register_table =
     [(''st(0)'', 0), (''st(1)'', 1), (''st(2)'', 2), (''st(3)'', 3),
      (''st(4)'', 4), (''st(5)'', 5), (''st(6)'', 6), (''st(7)'', 7)]"

definition stack_register :: "string \<Rightarrow> int res" where
  "stack_register name =
     (case map_of stack_register_table name of None \<Rightarrow> input_error | Some k \<Rightarrow> Ok k)"

definition register_operand :: "string \<Rightarrow> string list \<Rightarrow> x87_operand res" where
  "register_operand m names =
     (if names = [''ax''] then
        (if m \<notin> set x87_ax_mnemonics then input_error else Ok (mk_operand ''ax'' 2 []))
      else bind (mapM stack_register names) (\<lambda>rs.
        if m \<notin> set x87_stack_mnemonics \<or> length rs \<notin> {1, 2} then input_error
        else Ok (mk_operand ''stack'' 10 rs)))"

definition normalized_x87_memory_width :: "string \<Rightarrow> int \<Rightarrow> int" where
  "normalized_x87_memory_width m w =
     (if m \<in> {''frstor'', ''fnsave'', ''fsave''}
      then (if w = 2 then 94 else if w = 4 then 108 else w) else w)"

definition gpr_or_none :: "string option \<Rightarrow> bool" where
  "gpr_or_none r = (case r of None \<Rightarrow> True | Some n \<Rightarrow> n \<in> set x87_gprs)"

definition memory_operand ::
  "string \<Rightarrow> int \<Rightarrow> string option \<Rightarrow> string option \<Rightarrow> string option \<Rightarrow> int \<Rightarrow> int \<Rightarrow> int \<Rightarrow> x87_operand res"
  where
  "memory_operand m w segment base index scale disp image_base =
     (let w = normalized_x87_memory_width m w in
      if w \<notin> set (case map_of x87_memory_widths m of None \<Rightarrow> [] | Some ws \<Rightarrow> ws) then input_error
      else if segment \<noteq> None \<and> segment \<noteq> Some [] then input_error
      else if \<not> gpr_or_none base \<or> \<not> gpr_or_none index then input_error
      else if scale \<notin> {1, 2, 4, 8} \<or> (index = None \<and> scale \<noteq> 1) then input_error
      else if image_base \<le> disp \<and> disp \<le> image_base + 0xFFFFFFFF then
        Ok \<lparr>xo_kind = ''memory'', xo_width = w, xo_registers = [], xo_base = base, xo_index = index,
            xo_scale = scale, xo_displacement = 0, xo_image_rva = Some (disp - image_base)\<rparr>
      else if base = None \<and> index = None then input_error
      else Ok \<lparr>xo_kind = ''memory'', xo_width = w, xo_registers = [], xo_base = base, xo_index = index,
               xo_scale = scale, xo_displacement = disp, xo_image_rva = None\<rparr>)"

fun optional_lower :: "json \<Rightarrow> string option res" where
  "optional_lower JNull = Ok None"
| "optional_lower (JStr s) = Ok (Some (py_lower s))"
| "optional_lower _ = input_error"

section \<open>Extraction from bytes\<close>

text \<open>\<open>isa/x87_encoding.py\<close>: the x87 opcode space, after any legacy prefixes.\<close>

definition legacy_prefix_bytes :: "int list" where
  "legacy_prefix_bytes = [0x26, 0x2E, 0x36, 0x3E, 0x64, 0x65, 0x66, 0x67, 0xF0, 0xF2, 0xF3]"

definition is_x87_instruction_encoding :: "int list \<Rightarrow> bool" where
  "is_x87_instruction_encoding encoded =
     (encoded \<noteq> [] \<and> length encoded \<le> 15
      \<and> (case dropWhile (\<lambda>b. b \<in> set legacy_prefix_bytes) encoded of
           [] \<Rightarrow> False
         | opcode # _ \<Rightarrow> opcode = 0x9B \<or> (0xD8 \<le> opcode \<and> opcode \<le> 0xDF)))"

text \<open>What the decoder reports of an instruction; register names as it spells them.\<close>

datatype decoded_operand =
    Decoded_register string
  | Decoded_memory int "string option" "string option" "string option" int int
  | Decoded_other

record decoded_instruction =
  di_size :: int
  di_mnemonic :: string
  di_op_str :: string
  di_operands :: "decoded_operand list"

fun decoded_register_name :: "decoded_operand \<Rightarrow> string option" where
  "decoded_register_name (Decoded_register n) = Some n"
| "decoded_register_name _ = None"

definition decoded_operand_form :: "string \<Rightarrow> decoded_operand list \<Rightarrow> int \<Rightarrow> x87_operand res" where
  "decoded_operand_form m operands image_base =
     (if operands = [] then
        (if m \<notin> set x87_no_operand_mnemonics then input_error else Ok (mk_operand ''none'' 0 []))
      else if \<forall>item\<in>set operands. decoded_register_name item \<noteq> None then
        register_operand m (map (py_lower \<circ> the \<circ> decoded_register_name) operands)
      else case operands of
        [Decoded_memory sz segment base index scale disp] \<Rightarrow>
          memory_operand m sz (map_option py_lower segment) (map_option py_lower base)
            (map_option py_lower index) scale disp image_base
      | _ \<Rightarrow> input_error)"

definition guidance_agrees :: "(string \<Rightarrow> string) \<Rightarrow> json \<Rightarrow> string \<Rightarrow> bool" where
  "guidance_agrees f v observed =
     (case v of JNull \<Rightarrow> True | JStr s \<Rightarrow> f s = observed | _ \<Rightarrow> False)"

definition extract_typed_x87_operation ::
  "(string \<Rightarrow> string) \<Rightarrow> (int list \<Rightarrow> int \<Rightarrow> decoded_instruction list) \<Rightarrow> int list \<Rightarrow> members \<Rightarrow> int
   \<Rightarrow> x87_operation res" where
  "extract_typed_x87_operation sha decoder encoded instr image_base =
     (case take 2 (decoder encoded image_base) of
        [d] \<Rightarrow>
          if di_size d \<noteq> int (length encoded) then input_error
          else if \<not> is_x87_instruction_encoding encoded then input_error
          else let m = py_lower (di_mnemonic d) in
            if \<not> guidance_agrees py_lower (jget instr ''mnemonic'') m then input_error
            else if \<not> guidance_agrees (py_lower \<circ> strip) (jget instr ''op_str'')
                        (py_lower (strip (di_op_str d))) then input_error
            else bind (decoded_operand_form m (di_operands d) image_base) (\<lambda>r.
              Ok (mk_operation sha m r (int (length encoded))))
      | _ \<Rightarrow> input_error)"

section \<open>Micro operations\<close>

text \<open>
  \<open>str(item.get("name") or "").lower()\<close>: the text of a value that is not a string is never the name
  of a register, so it is left empty here.
\<close>

definition name_text :: "json \<Rightarrow> string" where
  "name_text v = (case v of JStr s \<Rightarrow> py_lower s | _ \<Rightarrow> [])"

definition micro_memory_operand :: "string \<Rightarrow> members \<Rightarrow> int \<Rightarrow> x87_operand res" where
  "micro_memory_operand m raw image_base =
     (case (jget raw ''width_bits'', jget raw ''scale'', jget raw ''displacement'') of
        (JInt bits, JInt scale, JInt disp) \<Rightarrow>
          if bits mod 8 \<noteq> 0 then input_error
          else bind (optional_lower (jget raw ''segment'')) (\<lambda>segment.
               bind (optional_lower (jget raw ''base'')) (\<lambda>base.
               bind (optional_lower (jget raw ''index'')) (\<lambda>index.
               memory_operand m (bits div 8) segment base index scale disp image_base)))
      | _ \<Rightarrow> input_error)"

definition micro_operand :: "string \<Rightarrow> json list \<Rightarrow> int \<Rightarrow> x87_operand res" where
  "micro_operand m operands image_base =
     (if operands = [] then
        (if m \<notin> set x87_no_operand_mnemonics then input_error else Ok (mk_operand ''none'' 0 []))
      else if \<forall>item\<in>set operands. member_of item ''kind'' = JStr ''register'' then
        register_operand m (map (\<lambda>item. name_text (member_of item ''name'')) operands)
      else case operands of
        [JObj raw] \<Rightarrow>
          if jget raw ''kind'' = JStr ''memory'' then micro_memory_operand m raw image_base else input_error
      | _ \<Rightarrow> input_error)"

definition typed_x87_operation_from_micro_op ::
  "(string \<Rightarrow> string) \<Rightarrow> members \<Rightarrow> int \<Rightarrow> x87_operation res" where
  "typed_x87_operation_from_micro_op sha mop image_base =
     (if jget mop ''format'' \<noteq> JStr ''spaghetti-extractor-x87-micro-op-v1'' then input_error
      else case (jget mop ''mnemonic'', jget mop ''operands'', jget mop ''size'') of
        (JStr m, JList operands, JInt sz) \<Rightarrow>
          if m = [] \<or> sz \<le> 0 then input_error
          else bind (micro_operand (py_lower m) operands image_base) (\<lambda>r.
            Ok (mk_operation sha (py_lower m) r sz))
      | _ \<Rightarrow> input_error)"

section \<open>The strict reader\<close>

definition register_index :: "json \<Rightarrow> bool" where
  "register_index v = (case v of JInt n \<Rightarrow> 0 \<le> n \<and> n \<le> 7 | _ \<Rightarrow> False)"

text \<open>\<open>f"st({register})"\<close>.\<close>

definition stack_name :: "json \<Rightarrow> string" where
  "stack_name v = (case v of JInt n \<Rightarrow> ''st('' @ int_text n @ '')'' | _ \<Rightarrow> [])"

definition stored_image_rva :: "json \<Rightarrow> int option res" where
  "stored_image_rva v =
     (case v of JNull \<Rightarrow> Ok None
      | JInt n \<Rightarrow> if 0 \<le> n \<and> n \<le> 0xFFFFFFFF then Ok (Some n) else input_error
      | _ \<Rightarrow> input_error)"

definition stored_memory_operand :: "string \<Rightarrow> members \<Rightarrow> int \<Rightarrow> x87_operand res" where
  "stored_memory_operand m raw image_base =
     (case (jget raw ''width'', jget raw ''address'') of
        (JInt w, JObj address) \<Rightarrow>
          if w \<le> 0 then input_error
          else bind (optional_lower (jget address ''base'')) (\<lambda>base.
               bind (optional_lower (jget address ''index'')) (\<lambda>index.
               case (jget address ''scale'', jget address ''displacement'') of
                 (JInt scale, JInt disp) \<Rightarrow>
                   bind (stored_image_rva (jget address ''image_rva'')) (\<lambda>image_rva.
                   case image_rva of
                     None \<Rightarrow> memory_operand m w None base index scale disp image_base
                   | Some rva \<Rightarrow> if disp \<noteq> 0 then input_error
                       else memory_operand m w None base index scale (image_base + rva) image_base)
               | _ \<Rightarrow> input_error))
      | _ \<Rightarrow> input_error)"

definition stored_operand :: "string \<Rightarrow> members \<Rightarrow> int \<Rightarrow> x87_operand res" where
  "stored_operand m raw image_base =
     (case jget raw ''kind'' of
        JStr k \<Rightarrow>
          if k = ''none'' then Ok (mk_operand ''none'' 0 [])
          else if k = ''ax'' then register_operand m [''ax'']
          else if k = ''stack'' then
            (case jget raw ''stack_registers'' of
               JList rs \<Rightarrow> if rs = [] \<or> \<not> list_all register_index rs then input_error
                          else register_operand m (map stack_name rs)
             | _ \<Rightarrow> input_error)
          else if k = ''memory'' then stored_memory_operand m raw image_base
          else input_error
      | _ \<Rightarrow> input_error)"

definition typed_x87_operation_from_payload ::
  "(string \<Rightarrow> string) \<Rightarrow> members \<Rightarrow> int \<Rightarrow> x87_operation res" where
  "typed_x87_operation_from_payload sha ms image_base =
     (if jget ms ''format'' \<noteq> JStr x87_operation_format then input_error
      else case (jget ms ''mnemonic'', jget ms ''source_size'', jget ms ''operand'') of
        (JStr m, JInt sz, JObj raw) \<Rightarrow>
          if m = [] \<or> m \<noteq> py_lower m \<or> sz \<le> 0 then input_error
          else bind (stored_operand m raw image_base) (\<lambda>r.
            let x = mk_operation sha m r sz in
            if \<not> py_eq (JObj ms) (JObj (x87_operation_payload x)) then input_error else Ok x)
      | _ \<Rightarrow> input_error)"

section \<open>Memory events\<close>

definition typed_x87_operation_writes_memory :: "x87_operation \<Rightarrow> bool" where
  "typed_x87_operation_writes_memory x \<longleftrightarrow>
     xo_kind (xi_operand x) = ''memory'' \<and> xi_mnemonic x \<in> set x87_memory_write_mnemonics"

text \<open>\<open>effects.get(key) or []\<close>, which must then be a list.\<close>

definition event_list :: "members \<Rightarrow> string \<Rightarrow> json list res" where
  "event_list effects k =
     (let v = jget effects k in
      if \<not> py_truthy v then Ok [] else case v of JList xs \<Rightarrow> Ok xs | _ \<Rightarrow> input_error)"

definition ordered_event_agrees :: "json \<Rightarrow> json \<Rightarrow> bool" where
  "ordered_event_agrees mem ordered =
     (case (mem, ordered) of
        (JObj m, JObj e) \<Rightarrow> jget e ''family'' = JStr ''memory''
          \<and> list_all (\<lambda>field. py_eq (jget e field) (jget m field)) [''kind'', ''width'', ''address'']
      | _ \<Rightarrow> False)"

definition event_width :: "string \<Rightarrow> json \<Rightarrow> int res" where
  "event_width expected_kind mem =
     (case member_of mem ''width'' of
        JInt w \<Rightarrow> if member_of mem ''kind'' \<noteq> JStr expected_kind \<or> w \<le> 0 then input_error else Ok w
      | _ \<Rightarrow> input_error)"

definition typed_x87_covered_memory_event_count :: "x87_operation \<Rightarrow> members \<Rightarrow> int res" where
  "typed_x87_covered_memory_event_count x effects =
     bind (event_list effects ''memory_events'') (\<lambda>mems.
     bind (event_list effects ''ordered_events'') (\<lambda>ordered.
       if length mems \<noteq> length ordered then input_error
       else if \<not> list_all2 ordered_event_agrees mems ordered then input_error
       else if xo_kind (xi_operand x) \<noteq> ''memory'' then
         (if mems \<noteq> [] then input_error else Ok 0)
       else if mems = [] then input_error
       else bind (mapM (event_width (if typed_x87_operation_writes_memory x then ''write'' else ''read'')) mems)
         (\<lambda>ws. if sum_list ws > xo_width (xi_operand x) then input_error else Ok (int (length mems)))))"

section \<open>The written form is read back\<close>

lemma stack_names:
  "stack_name (JInt 0) = ''st(0)''" "stack_name (JInt 1) = ''st(1)''" "stack_name (JInt 2) = ''st(2)''"
  "stack_name (JInt 3) = ''st(3)''" "stack_name (JInt 4) = ''st(4)''" "stack_name (JInt 5) = ''st(5)''"
  "stack_name (JInt 6) = ''st(6)''" "stack_name (JInt 7) = ''st(7)''"
  by code_simp+

lemma stack_register_Ok:
  "stack_register name = Inr k \<longleftrightarrow> 0 \<le> k \<and> k \<le> 7 \<and> name = stack_name (JInt k)"
proof
  assume "stack_register name = Inr k"
  then have "(name, k) \<in> set stack_register_table"
    by (auto simp: stack_register_def input_error_def dest: map_of_SomeD split: option.splits)
  then show "0 \<le> k \<and> k \<le> 7 \<and> name = stack_name (JInt k)"
    by (auto simp: stack_register_table_def stack_names)
next
  assume k: "0 \<le> k \<and> k \<le> 7 \<and> name = stack_name (JInt k)"
  then have "k \<in> {0, 1, 2, 3, 4, 5, 6, 7}" by auto
  then show "stack_register name = Inr k"
    using k by (auto simp: stack_names stack_register_def stack_register_table_def)
qed

lemma stack_register_names:
  "mapM stack_register names = Inr rs \<Longrightarrow> map stack_name (map JInt rs) = names \<and> list_all register_index (map JInt rs)"
proof (induction names arbitrary: rs)
  case (Cons name names)
  then obtain k ks where k: "stack_register name = Inr k" "mapM stack_register names = Inr ks" "rs = k # ks"
    by (cases "stack_register name"; cases "mapM stack_register names") auto
  with Cons.IH[of ks] show ?case
    by (simp add: stack_register_Ok register_index_def)
qed simp

lemma register_operand_members:
  assumes "register_operand m names = Inr r"
  obtains raw where "x87_operand_payload r = JObj raw" "stored_operand m raw ib = Inr r"
proof (cases "names = [''ax'']")
  case True
  with assms that show ?thesis
    by (auto simp: register_operand_def input_error_def x87_operand_payload_def mk_operand_def stored_operand_def
        jget_def split: if_splits)
next
  case False
  with assms obtain rs where rs: "mapM stack_register names = Inr rs" "r = mk_operand ''stack'' 10 rs"
    "rs \<noteq> []"
    by (fastforce simp: register_operand_def input_error_def bind_eq_Ok split: if_splits)
  with assms that stack_register_names[OF rs(1)] show ?thesis
    by (auto simp: x87_operand_payload_def mk_operand_def stored_operand_def jget_def)
qed

lemma gpr_lower [simp]: "gpr_or_none r \<Longrightarrow> map_option py_lower r = r"
  by (auto simp: gpr_or_none_def x87_gprs_def py_lower_def lower_char_def split: option.splits)

lemma optional_lower_opt_str: "optional_lower (opt_str r) = Inr (map_option py_lower r)"
  by (cases r) (simp_all add: opt_str_def)

lemma memory_width_pos:
  "w \<in> set (case map_of x87_memory_widths m of None \<Rightarrow> [] | Some ws \<Rightarrow> ws) \<Longrightarrow> 0 < w"
  by (auto simp: x87_memory_widths_def split: option.splits if_splits)

lemma normalized_width_idem [simp]:
  "normalized_x87_memory_width m (normalized_x87_memory_width m w) = normalized_x87_memory_width m w"
  by (simp add: normalized_x87_memory_width_def)

lemma memory_operandE:
  assumes "memory_operand m w seg base index scale disp ib = Inr r"
  obtains w' where "w' = normalized_x87_memory_width m w"
    "w' \<in> set (case map_of x87_memory_widths m of None \<Rightarrow> [] | Some ws \<Rightarrow> ws)"
    "gpr_or_none base" "gpr_or_none index" "scale \<in> {1, 2, 4, 8}" "index \<noteq> None \<or> scale = 1"
    "r = \<lparr>xo_kind = ''memory'', xo_width = w', xo_registers = [], xo_base = base, xo_index = index,
         xo_scale = scale, xo_displacement = (if ib \<le> disp \<and> disp \<le> ib + 0xFFFFFFFF then 0 else disp),
         xo_image_rva = (if ib \<le> disp \<and> disp \<le> ib + 0xFFFFFFFF then Some (disp - ib) else None)\<rparr>"
    "base \<noteq> None \<or> index \<noteq> None \<or> ib \<le> disp \<and> disp \<le> ib + 0xFFFFFFFF"
proof (rule that[of "normalized_x87_memory_width m w"])
  let ?w = "normalized_x87_memory_width m w"
  note d = assms[unfolded memory_operand_def Let_def input_error_def]
  show "?w \<in> set (case map_of x87_memory_widths m of None \<Rightarrow> [] | Some ws \<Rightarrow> ws)"
    "gpr_or_none base" "gpr_or_none index" "scale \<in> {1, 2, 4, 8}" "index \<noteq> None \<or> scale = 1"
    "base \<noteq> None \<or> index \<noteq> None \<or> ib \<le> disp \<and> disp \<le> ib + 0xFFFFFFFF"
    using d by (blast | meson Inl_Inr_False)+
  show "r = \<lparr>xo_kind = ''memory'', xo_width = ?w, xo_registers = [], xo_base = base, xo_index = index,
         xo_scale = scale, xo_displacement = (if ib \<le> disp \<and> disp \<le> ib + 0xFFFFFFFF then 0 else disp),
         xo_image_rva = (if ib \<le> disp \<and> disp \<le> ib + 0xFFFFFFFF then Some (disp - ib) else None)\<rparr>"
    using d by (cases "ib \<le> disp \<and> disp \<le> ib + 0xFFFFFFFF") (auto split: if_split_asm)
qed simp

lemma memory_operand_again:
  assumes "memory_operand m w seg base index scale disp ib = Inr r"
  shows "memory_operand m (xo_width r) None (xo_base r) (xo_index r) (xo_scale r)
      (case xo_image_rva r of None \<Rightarrow> xo_displacement r | Some v \<Rightarrow> ib + v) ib = Inr r"
  using assms
proof (cases rule: memory_operandE)
  case (1 w')
  have norm: "normalized_x87_memory_width m w' = w'" using 1(1) by simp
  have w: "\<not> w' \<notin> set (case map_of x87_memory_widths m of None \<Rightarrow> [] | Some ws \<Rightarrow> ws)"
    using 1(2) by simp
  show ?thesis
    using 1(3-6,8) unfolding memory_operand_def 1(7) Let_def
    by (simp only: norm w simp_thms if_False if_True x87_operand.select_convs) (auto simp: norm)
qed

lemma memory_operand_facts:
  assumes "memory_operand m w seg base index scale disp ib = Inr r"
  shows "xo_kind r = ''memory''" "0 < xo_width r" "xo_registers r = []"
    and "gpr_or_none (xo_base r)" "gpr_or_none (xo_index r)"
    and "xo_image_rva r = Some v \<Longrightarrow> 0 \<le> v \<and> v \<le> 0xFFFFFFFF \<and> xo_displacement r = 0"
    and "m \<noteq> []"
proof -
  from assms obtain w' where w: "w' \<in> set (case map_of x87_memory_widths m of None \<Rightarrow> [] | Some ws \<Rightarrow> ws)"
    and r: "xo_kind r = ''memory''" "xo_width r = w'" "xo_registers r = []"
      "gpr_or_none (xo_base r)" "gpr_or_none (xo_index r)"
      "xo_image_rva r = (if ib \<le> disp \<and> disp \<le> ib + 0xFFFFFFFF then Some (disp - ib) else None)"
      "xo_displacement r = (if ib \<le> disp \<and> disp \<le> ib + 0xFFFFFFFF then 0 else disp)"
    by (elim memory_operandE) simp
  from r memory_width_pos[OF w] show "xo_kind r = ''memory''" "0 < xo_width r" "xo_registers r = []"
    "gpr_or_none (xo_base r)" "gpr_or_none (xo_index r)"
    "xo_image_rva r = Some v \<Longrightarrow> 0 \<le> v \<and> v \<le> 0xFFFFFFFF \<and> xo_displacement r = 0"
    by (simp_all split: if_split_asm)
  show "m \<noteq> []" using w by (auto simp: x87_memory_widths_def)
qed

lemma memory_operand_members:
  assumes "memory_operand m w seg base index scale disp ib = Inr r"
  obtains raw where "x87_operand_payload r = JObj raw" "stored_operand m raw ib = Inr r"
proof -
  note again = memory_operand_again[OF assms] memory_operand_facts[OF assms]
  let ?addr = "[(''base'', opt_str (xo_base r)), (''index'', opt_str (xo_index r)),
    (''scale'', JInt (xo_scale r)), (''displacement'', JInt (xo_displacement r)),
    (''image_rva'', opt_int (xo_image_rva r))]"
  let ?raw = "[(''kind'', JStr ''memory''), (''width'', JInt (xo_width r)), (''address'', JObj ?addr)]"
  have "stored_memory_operand m ?raw ib = Inr r"
    using again(1,3,5,6) again(7)[of "the (xo_image_rva r)"]
    by (cases "xo_image_rva r")
      (simp_all add: stored_memory_operand_def jget_def optional_lower_opt_str stored_image_rva_def opt_int_def)
  then show ?thesis
    using again(2-4)
    by (intro that[of ?raw])
      (simp_all add: x87_operand_payload_def x87_address_payload_def stored_operand_def jget_def)
qed

text \<open>The operand forms that either extraction produces.\<close>

lemma register_operand_mnemonic: "register_operand m names = Inr r \<Longrightarrow> m \<noteq> []"
  by (auto simp: register_operand_def input_error_def x87_ax_mnemonics_def x87_stack_mnemonics_def bind_eq_Ok
      split: if_splits)

lemma none_operand_members:
  obtains raw where "x87_operand_payload (mk_operand ''none'' 0 []) = JObj raw"
    "stored_operand m raw ib = Inr (mk_operand ''none'' 0 [])"
  by (rule that[of "[(''kind'', JStr ''none'')]"])
    (simp_all add: x87_operand_payload_def mk_operand_def stored_operand_def jget_def)

definition canonical_operand :: "string \<Rightarrow> x87_operand \<Rightarrow> int \<Rightarrow> bool" where
  "canonical_operand m r ib \<longleftrightarrow> m \<noteq> []
     \<and> (\<exists>raw. x87_operand_payload r = JObj raw \<and> stored_operand m raw ib = Inr r)"

lemma canonical_register: "register_operand m names = Inr r \<Longrightarrow> canonical_operand m r ib"
  using register_operand_members[of m names r ib] register_operand_mnemonic[of m names r]
  by (auto simp: canonical_operand_def)

lemma canonical_memory:
  "memory_operand m w seg base index scale disp ib = Inr r \<Longrightarrow> canonical_operand m r ib"
  using memory_operand_members[of m w seg base index scale disp ib r] memory_operand_facts(7)
  by (fastforce simp: canonical_operand_def)

lemma canonical_none: "m \<noteq> [] \<Longrightarrow> canonical_operand m (mk_operand ''none'' 0 []) ib"
  using none_operand_members[of m ib] by (auto simp: canonical_operand_def)

lemma no_operand_mnemonic: "m \<in> set x87_no_operand_mnemonics \<Longrightarrow> m \<noteq> []"
  by (auto simp: x87_no_operand_mnemonics_def)

lemma canonical_decoded: "decoded_operand_form m operands ib = Inr r \<Longrightarrow> canonical_operand m r ib"
  by (auto simp: decoded_operand_form_def input_error_def dest: canonical_register canonical_memory no_operand_mnemonic
      intro: canonical_none split: if_split_asm list.splits decoded_operand.splits)

lemma canonical_micro: "micro_operand m operands ib = Inr r \<Longrightarrow> canonical_operand m r ib"
  by (auto simp: micro_operand_def micro_memory_operand_def input_error_def bind_eq_Ok
      dest: canonical_register canonical_memory no_operand_mnemonic
      intro: canonical_none split: if_split_asm list.splits json.splits prod.splits)

lemma stored_operation:
  assumes "canonical_operand (py_lower m) r ib" "0 < sz"
  shows "typed_x87_operation_from_payload sha (x87_operation_payload (mk_operation sha (py_lower m) r sz)) ib
    = Inr (mk_operation sha (py_lower m) r sz)"
  using assms
  by (auto simp: canonical_operand_def typed_x87_operation_from_payload_def x87_operation_payload_def
      x87_semantic_payload_def mk_operation_def jget_def Let_def)

lemma encoding_nonempty: "is_x87_instruction_encoding encoded \<Longrightarrow> 0 < int (length encoded)"
  by (simp add: is_x87_instruction_encoding_def)

lemma extracted_operation:
  assumes "extract_typed_x87_operation sha decoder encoded instr ib = Inr x"
  shows "\<exists>m r sz. x = mk_operation sha (py_lower m) r sz \<and> 0 < sz \<and> canonical_operand (py_lower m) r ib"
  using assms
  by (auto simp: extract_typed_x87_operation_def input_error_def Let_def
      elim!: bind_OkE dest: canonical_decoded encoding_nonempty split: list.splits if_split_asm)

lemma micro_operation:
  assumes "typed_x87_operation_from_micro_op sha mop ib = Inr x"
  shows "\<exists>m r sz. x = mk_operation sha (py_lower m) r sz \<and> 0 < sz \<and> canonical_operand (py_lower m) r ib"
  using assms
  by (auto simp: typed_x87_operation_from_micro_op_def input_error_def not_le
      elim!: bind_OkE dest!: canonical_micro split: json.splits if_split_asm prod.splits)

lemma x87_operation_stored:
  assumes "extract_typed_x87_operation sha decoder encoded instr ib = Inr x
      \<or> typed_x87_operation_from_micro_op sha mop ib = Inr x"
  shows "typed_x87_operation_from_payload sha (x87_operation_payload x) ib = Inr x"
  using assms by (auto dest!: extracted_operation micro_operation simp: stored_operation)

text \<open>The reader's answer is what a further reading of its own payload gives.\<close>

lemma stored_memory_form:
  assumes "stored_memory_operand m raw ib = Inr r"
  shows "canonical_operand m r ib"
  using assms
  by (auto simp: stored_memory_operand_def input_error_def elim!: bind_OkE
      split: if_split_asm json.split_asm option.split_asm prod.split_asm) (erule canonical_memory)+

lemma stored_operand_form:
  assumes "stored_operand m raw ib = Inr r" "m \<noteq> []"
  shows "canonical_operand m r ib"
  using assms
  by (auto simp: stored_operand_def input_error_def dest: canonical_register
      intro: canonical_none stored_memory_form split: if_split_asm json.split_asm)

lemma stored_operationE:
  assumes "typed_x87_operation_from_payload sha ms ib = Inr x"
  shows "\<exists>m r sz. x = mk_operation sha (py_lower m) r sz \<and> 0 < sz \<and> canonical_operand (py_lower m) r ib
    \<and> py_eq (JObj ms) (JObj (x87_operation_payload x))"
proof -
  obtain m sz raw r where d: "m \<noteq> []" "m = py_lower m" "0 < sz" "stored_operand m raw ib = Inr r"
    "x = mk_operation sha m r sz" "py_eq (JObj ms) (JObj (x87_operation_payload x))"
    using assms
    by (auto simp: typed_x87_operation_from_payload_def input_error_def Let_def not_le
        elim!: bind_OkE split: json.split_asm if_split_asm prod.split_asm)
  with stored_operand_form[OF d(4,1)] show ?thesis by metis
qed

lemma stored_again:
  "typed_x87_operation_from_payload sha ms ib = Inr x
   \<Longrightarrow> typed_x87_operation_from_payload sha (x87_operation_payload x) ib = Inr x"
  by (auto dest!: stored_operationE simp: stored_operation)

section \<open>Owned memory events\<close>

lemma event_width_Ok: "event_width k mem = Inr w \<Longrightarrow> member_of mem ''kind'' = JStr k \<and> member_of mem ''width'' = JInt w \<and> 0 < w"
  by (auto simp: event_width_def input_error_def split: json.splits if_split_asm)

lemma covered_events:
  assumes "typed_x87_covered_memory_event_count x effects = Inr n"
  shows "\<exists>mems ordered. event_list effects ''memory_events'' = Inr mems \<and> event_list effects ''ordered_events'' = Inr ordered
    \<and> list_all2 ordered_event_agrees mems ordered \<and> n = int (length mems)
    \<and> (xo_kind (xi_operand x) \<noteq> ''memory'' \<longrightarrow> mems = [])
    \<and> (xo_kind (xi_operand x) = ''memory'' \<longrightarrow> 0 < n
        \<and> (\<exists>ws. list_all2 (\<lambda>mem w. member_of mem ''width'' = JInt w \<and> 0 < w
              \<and> member_of mem ''kind'' = JStr (if typed_x87_operation_writes_memory x then ''write'' else ''read'')) mems ws
            \<and> sum_list ws \<le> xo_width (xi_operand x)))"
proof -
  obtain mems ordered where ev: "event_list effects ''memory_events'' = Inr mems"
    "event_list effects ''ordered_events'' = Inr ordered" "list_all2 ordered_event_agrees mems ordered"
    using assms by (auto simp: typed_x87_covered_memory_event_count_def input_error_def bind_eq_Ok split: if_split_asm)
  note d = assms[unfolded typed_x87_covered_memory_event_count_def, unfolded ev bind.simps]
  let ?k = "if typed_x87_operation_writes_memory x then ''write'' else ''read''"
  show ?thesis
  proof (cases "xo_kind (xi_operand x) = ''memory''")
    case False
    with d ev show ?thesis by (auto simp: input_error_def split: if_split_asm)
  next
    case True
    with d obtain ws where ws: "mapM (event_width ?k) mems = Inr ws" "sum_list ws \<le> xo_width (xi_operand x)"
      "n = int (length mems)" "mems \<noteq> []"
      by (simp add: input_error_def bind_eq_Ok list_all2_lengthD[OF ev(3)] ev(3) split: if_split_asm)
        (auto split: if_split_asm)
    have "list_all2 (\<lambda>mem w. member_of mem ''width'' = JInt w \<and> 0 < w \<and> member_of mem ''kind'' = JStr ?k) mems ws"
      by (rule list_all2_mono[OF ws(1)[unfolded mapM_Ok_iff]]) (auto dest: event_width_Ok)
    with True ws ev show ?thesis by auto
  qed
qed

end
