(* ===== verification/Transfer_Model.thy ===== *)
theory Transfer_Model
  imports Transfer_X87
begin

text \<open>
  The renderer-neutral executable transfer model of \<open>transfer/model.py\<close>: nodes of the
  single-assignment expression graph, the ordered actions over them, call sites and the transfer
  of one machine-code unit.

  An operation name of the source is a string out of the closed registry of
  \<open>transfer/operations.py\<close>. It is a constructor here (\<open>Word Op_sub32\<close> is \<open>"sub32"\<close>,
  see \<open>op_name\<close>), one datatype per table of the registry; \<open>Op_other s\<close> is a string \<open>s\<close> outside
  the registry, which the code must refuse.
\<close>

section \<open>Registers and flags\<close>

datatype reg = EAX | EBX | ECX | EDX | ESI | EDI | EBP | ESP

datatype flag = CF | ZF | SF | OVF | PF | DF

definition registers_table :: "reg list" where
  "registers_table = [EAX, EBX, ECX, EDX, ESI, EDI, EBP, ESP]"

definition flags_table :: "flag list" where
  "flags_table = [CF, ZF, SF, OVF, PF, DF]"

definition af_flag_index :: int where
  "af_flag_index = int (length flags_table)"

text \<open>The overflow flag \<open>of\<close> is \<open>OVF\<close>: the two-letter name is an infix of the code generator's target.\<close>

section \<open>Operation names\<close>

datatype (plugins only: code size) predicate_op =
    Op_true | Op_false | Op_flag | Op_undefined_flag | Op_call_flag | Op_ult32 | Op_eq
    | Op_eq_bool | Op_xor_bool | Op_not | Op_and_bool | Op_or_bool | Op_parity | Op_add_overflow
    | Op_sub_overflow | Op_imul_overflow | Op_mul_carry | Op_udiv_valid32 | Op_sbb_borrow
    | Op_sbb_overflow | Op_adc_carry | Op_adc_overflow | Op_shift_cf | Op_shift_of
    | Op_fpu_pending_exception

datatype (plugins only: code size) word_op =
    Op_const | Op_reg | Op_fs_base | Op_undefined_bv | Op_call_response | Op_load | Op_sub32
    | Op_add32 | Op_mul32 | Op_xor32 | Op_and32 | Op_or32 | Op_not32 | Op_neg32 | Op_shl32
    | Op_lshr32 | Op_sar | Op_sign_extend | Op_ite | Op_msb | Op_bool_to_bit | Op_imul_low32
    | Op_mul_low32 | Op_imul_high32 | Op_mul_high32 | Op_udiv_quot32 | Op_udiv_rem32
    | Op_bsr_index | Op_tzcnt | Op_fpu_control | Op_fpu_control_init | Op_fpu_status
    | Op_fpu_status_init | Op_fpu_tag | Op_fpu_last_opcode | Op_fpu_instruction_pointer
    | Op_fpu_code_selector | Op_fpu_data_pointer | Op_fpu_data_selector | Op_fpu_control_load
    | Op_fpu_control_word | Op_fpu_status_word

datatype (plugins only: code size) effect_op =
    Op_eval_word | Op_memory_write | Op_divide_if | Op_access_violation_if | Op_call
    | Op_rep_movsd | Op_rep_movs | Op_rep_stosd | Op_rep_stos | Op_rep_scas | Op_set_reg
    | Op_set_flag | Op_sync_eflags | Op_typed_x87 | Op_atomic_compare_exchange
    | Op_atomic_exchange

datatype (plugins only: code size) terminator_op =
    Op_outcome_fallthrough | Op_outcome_jump | Op_outcome_branch | Op_outcome_return
    | Op_outcome_indirect | Op_outcome_nonlocal | Op_outcome_external

datatype (plugins only: code size) opname =
    Pred predicate_op
  | Word word_op
  | Eff effect_op
  | Term terminator_op
  | Op_other string

primrec predicate_name :: "predicate_op \<Rightarrow> string" where
  "predicate_name Op_true = ''true''"
| "predicate_name Op_false = ''false''"
| "predicate_name Op_flag = ''flag''"
| "predicate_name Op_undefined_flag = ''undefined_flag''"
| "predicate_name Op_call_flag = ''call_flag''"
| "predicate_name Op_ult32 = ''ult32''"
| "predicate_name Op_eq = ''eq''"
| "predicate_name Op_eq_bool = ''eq_bool''"
| "predicate_name Op_xor_bool = ''xor_bool''"
| "predicate_name Op_not = ''not''"
| "predicate_name Op_and_bool = ''and_bool''"
| "predicate_name Op_or_bool = ''or_bool''"
| "predicate_name Op_parity = ''parity''"
| "predicate_name Op_add_overflow = ''add_overflow''"
| "predicate_name Op_sub_overflow = ''sub_overflow''"
| "predicate_name Op_imul_overflow = ''imul_overflow''"
| "predicate_name Op_mul_carry = ''mul_carry''"
| "predicate_name Op_udiv_valid32 = ''udiv_valid32''"
| "predicate_name Op_sbb_borrow = ''sbb_borrow''"
| "predicate_name Op_sbb_overflow = ''sbb_overflow''"
| "predicate_name Op_adc_carry = ''adc_carry''"
| "predicate_name Op_adc_overflow = ''adc_overflow''"
| "predicate_name Op_shift_cf = ''shift_cf''"
| "predicate_name Op_shift_of = ''shift_of''"
| "predicate_name Op_fpu_pending_exception = ''fpu_pending_exception''"

primrec word_name :: "word_op \<Rightarrow> string" where
  "word_name Op_const = ''const''"
| "word_name Op_reg = ''reg''"
| "word_name Op_fs_base = ''fs_base''"
| "word_name Op_undefined_bv = ''undefined_bv''"
| "word_name Op_call_response = ''call_response''"
| "word_name Op_load = ''load''"
| "word_name Op_sub32 = ''sub32''"
| "word_name Op_add32 = ''add32''"
| "word_name Op_mul32 = ''mul32''"
| "word_name Op_xor32 = ''xor32''"
| "word_name Op_and32 = ''and32''"
| "word_name Op_or32 = ''or32''"
| "word_name Op_not32 = ''not32''"
| "word_name Op_neg32 = ''neg32''"
| "word_name Op_shl32 = ''shl32''"
| "word_name Op_lshr32 = ''lshr32''"
| "word_name Op_sar = ''sar''"
| "word_name Op_sign_extend = ''sign_extend''"
| "word_name Op_ite = ''ite''"
| "word_name Op_msb = ''msb''"
| "word_name Op_bool_to_bit = ''bool_to_bit''"
| "word_name Op_imul_low32 = ''imul_low32''"
| "word_name Op_mul_low32 = ''mul_low32''"
| "word_name Op_imul_high32 = ''imul_high32''"
| "word_name Op_mul_high32 = ''mul_high32''"
| "word_name Op_udiv_quot32 = ''udiv_quot32''"
| "word_name Op_udiv_rem32 = ''udiv_rem32''"
| "word_name Op_bsr_index = ''bsr_index''"
| "word_name Op_tzcnt = ''tzcnt''"
| "word_name Op_fpu_control = ''fpu_control''"
| "word_name Op_fpu_control_init = ''fpu_control_init''"
| "word_name Op_fpu_status = ''fpu_status''"
| "word_name Op_fpu_status_init = ''fpu_status_init''"
| "word_name Op_fpu_tag = ''fpu_tag''"
| "word_name Op_fpu_last_opcode = ''fpu_last_opcode''"
| "word_name Op_fpu_instruction_pointer = ''fpu_instruction_pointer''"
| "word_name Op_fpu_code_selector = ''fpu_code_selector''"
| "word_name Op_fpu_data_pointer = ''fpu_data_pointer''"
| "word_name Op_fpu_data_selector = ''fpu_data_selector''"
| "word_name Op_fpu_control_load = ''fpu_control_load''"
| "word_name Op_fpu_control_word = ''fpu_control_word''"
| "word_name Op_fpu_status_word = ''fpu_status_word''"

primrec effect_name :: "effect_op \<Rightarrow> string" where
  "effect_name Op_eval_word = ''eval_word''"
| "effect_name Op_memory_write = ''memory_write''"
| "effect_name Op_divide_if = ''divide_if''"
| "effect_name Op_access_violation_if = ''access_violation_if''"
| "effect_name Op_call = ''call''"
| "effect_name Op_rep_movsd = ''rep_movsd''"
| "effect_name Op_rep_movs = ''rep_movs''"
| "effect_name Op_rep_stosd = ''rep_stosd''"
| "effect_name Op_rep_stos = ''rep_stos''"
| "effect_name Op_rep_scas = ''rep_scas''"
| "effect_name Op_set_reg = ''set_reg''"
| "effect_name Op_set_flag = ''set_flag''"
| "effect_name Op_sync_eflags = ''sync_eflags''"
| "effect_name Op_typed_x87 = ''typed_x87''"
| "effect_name Op_atomic_compare_exchange = ''atomic_compare_exchange''"
| "effect_name Op_atomic_exchange = ''atomic_exchange''"

primrec terminator_name :: "terminator_op \<Rightarrow> string" where
  "terminator_name Op_outcome_fallthrough = ''outcome_fallthrough''"
| "terminator_name Op_outcome_jump = ''outcome_jump''"
| "terminator_name Op_outcome_branch = ''outcome_branch''"
| "terminator_name Op_outcome_return = ''outcome_return''"
| "terminator_name Op_outcome_indirect = ''outcome_indirect''"
| "terminator_name Op_outcome_nonlocal = ''outcome_nonlocal''"
| "terminator_name Op_outcome_external = ''outcome_external''"

primrec op_name :: "opname \<Rightarrow> string" where
  "op_name (Pred p) = predicate_name p"
| "op_name (Word w) = word_name w"
| "op_name (Eff e) = effect_name e"
| "op_name (Term t) = terminator_name t"
| "op_name (Op_other s) = s"

section \<open>Nodes, actions, calls and transfers\<close>

record node =
  node_op :: opname
  node_args :: "int list"
  node_aux :: int
  node_immediate :: int
  node_identity :: "string option"

record action =
  act_op :: opname
  act_args :: "int list"
  act_aux :: int

record call =
  call_kind :: string
  instruction_rva :: int
  call_index :: int
  target_node :: "int option"
  call_target_rva :: int
  return_rva :: int
  dll :: "string option"
  symbol :: "string option"
  ordinal :: "int option"
  register_nodes :: "int list"
  flag_nodes :: "int list"
  argument_nodes :: "int list"
  stack_inputs :: "(int \<times> int \<times> int) list"
  native_exception_operations :: "string list"

record exception_occurrence =
  fault_index :: int
  fault_sha256 :: string
  occurrence_kind :: string
  effect_index :: int
  eo_operation :: string
  call_id :: "int option"
  call_event_index :: "int option"

record x87_program =
  xp_contract_sha256 :: string
  xp_image_base :: int
  xp_rva_start :: int
  xp_rva_end :: int
  xp_operation :: x87_operation
  xp_checked_decoder :: string
  xp_checked_executor :: string

record transfer =
  identity :: string
  contract_sha256 :: string
  instruction_bytes_sha256 :: string
  rva_start :: int
  nodes :: "node list"
  x87_nodes :: "node list"
  actions :: "action list"
  calls :: "call list"
  x87_operations :: "x87_program list"
  exception_occurrences :: "exception_occurrence list"

text \<open>Builders with the defaults of the dataclass fields.\<close>

definition mk_node :: "opname \<Rightarrow> int list \<Rightarrow> int \<Rightarrow> int \<Rightarrow> node" where
  "mk_node oper args aux imm =
     \<lparr>node_op = oper, node_args = args, node_aux = aux, node_immediate = imm, node_identity = None\<rparr>"

definition mk_action :: "opname \<Rightarrow> int list \<Rightarrow> int \<Rightarrow> action" where
  "mk_action oper args aux = \<lparr>act_op = oper, act_args = args, act_aux = aux\<rparr>"

end
