(* ===== verification/Transfer_Arith.thy ===== *)
theory Transfer_Arith
  imports Transfer_Model
begin

text \<open>
  The arithmetic of the host evaluator (\<open>transfer/evaluator.py\<close>, the functions below
  \<open>_eval_node\<close>), on Python's unbounded integers with the masks the code writes, and what these
  functions compute: two's-complement reading, sign extension, arithmetic shift, the overflow,
  carry and borrow flags, and the 64-by-32-bit division.
\<close>

section \<open>The helpers\<close>

definition u32 :: "int \<Rightarrow> int" where
  "u32 v = v AND 0xFFFFFFFF"

definition s32 :: "int \<Rightarrow> int" where
  "s32 v = (let value = u32 v in if value AND 0x80000000 \<noteq> 0 then value - 0x100000000 else value)"

definition fold_words :: "int list \<Rightarrow> int \<Rightarrow> (int \<Rightarrow> int \<Rightarrow> int) \<Rightarrow> int" where
  "fold_words values start fn = foldl (\<lambda>result value. u32 (fn result value)) start values"

definition width_mask :: "int \<Rightarrow> int" where
  "width_mask width = (if width = 32 then 0xFFFFFFFF else push_bit (nat width) 1 - 1)"

definition sign_extend :: "int \<Rightarrow> int \<Rightarrow> int res" where
  "sign_extend value width =
     (if \<not> (0 < width \<and> width \<le> 32) then Raise Semantic_fault
      else let mask = width_mask width; value = value AND mask
           in Ok (u32 (value OR (if value AND push_bit (nat (width - 1)) 1 \<noteq> 0 then NOT mask else 0))))"

definition sar_word :: "int \<Rightarrow> int \<Rightarrow> int \<Rightarrow> int res" where
  "sar_word value count width =
     bind (if width = 32 then Ok (s32 value) else bind (sign_extend value width) (\<lambda>v. Ok (s32 v)))
       (\<lambda>base. Ok (u32 (drop_bit (nat (count AND 31)) base)))"

fun overflow_flag :: "int list \<Rightarrow> bool \<Rightarrow> int res" where
  "overflow_flag [width, left, right, result] subtract =
     (if \<not> (0 < width \<and> width \<le> 32) then Raise Semantic_fault
      else let sign = push_bit (nat (width - 1)) 1 in
        Ok (of_bool ((if subtract then left XOR right else NOT (left XOR right))
                       AND (left XOR result) AND sign \<noteq> 0)))"
| "overflow_flag _ subtract = Raise Value_error"

fun udiv_words :: "int list \<Rightarrow> (int \<times> int \<times> int) res" where
  "udiv_words [high, low, divisor] =
     (if divisor = 0 \<or> high \<ge> divisor then Ok (0, 0, 0)
      else let dividend = push_bit 32 high OR low
           in Ok (u32 (dividend div divisor), u32 (dividend mod divisor), 1))"
| "udiv_words _ = Raise Value_error"

fun sbb_flag :: "int list \<Rightarrow> bool \<Rightarrow> int res" where
  "sbb_flag [width, left, right, borrow, result] overflow =
     (if \<not> (0 < width \<and> width \<le> 32) \<or> borrow > 1 then Raise Semantic_fault
      else let mask = width_mask width in
        if (left - right - borrow) AND mask \<noteq> result AND mask then Raise Semantic_fault
        else if overflow then overflow_flag [width, left, u32 (right + borrow), result] True
        else Ok (of_bool (left AND mask < (right AND mask) + borrow)))"
| "sbb_flag _ overflow = Raise Value_error"

fun adc_flag :: "int list \<Rightarrow> bool \<Rightarrow> int res" where
  "adc_flag [width, left, right, carry, result] overflow =
     (if \<not> (0 < width \<and> width \<le> 32) \<or> carry > 1 then Raise Semantic_fault
      else let mask = width_mask width; total = (left AND mask) + (right AND mask) + carry in
        if total AND mask \<noteq> result AND mask then Raise Semantic_fault
        else if overflow then overflow_flag [width, left, right, result] False
        else Ok (drop_bit (nat width) total AND 1))"
| "adc_flag _ overflow = Raise Value_error"

text \<open>
  \<open>_shift\<close> receives the operation's values as a list: \<open>[value, count]\<close> for the carry and
  \<open>[value, count, result]\<close> for the overflow flag. It indexes them as the source does, which
  raises \<open>IndexError\<close> where the list is shorter than the index.
\<close>

definition shift_flag :: "bool \<Rightarrow> int \<Rightarrow> int list \<Rightarrow> int res" where
  "shift_flag carry aux values =
     bind (py_index values 1) (\<lambda>v1.
       let kind = drop_bit 8 aux; width = aux AND 0xFF; count = v1 AND 31 in
       if \<not> (0 < width \<and> width \<le> 32) then Raise Semantic_fault
       else if count = 0 then bind (py_index values 2) (\<lambda>v2. Ok (v2 AND 1))
       else if carry then
         bind (py_index values 0) (\<lambda>v0.
           if kind = 0 then
             Ok (if count \<le> width then drop_bit (nat (width - count)) v0 AND 1 else 0)
           else
             Ok (if count \<le> width then drop_bit (nat (count - 1)) v0 AND 1
                 else if kind = 2 then drop_bit (nat (width - 1)) v0 AND 1 else 0))
       else if count \<noteq> 1 then Ok 0
       else if kind = 0 then
         bind (py_index values 2) (\<lambda>v2. bind (py_index values 3) (\<lambda>v3.
           Ok ((drop_bit (nat (width - 1)) v2 XOR v3) AND 1)))
       else if kind = 1 then
         bind (py_index values 0) (\<lambda>v0. Ok (drop_bit (nat (width - 1)) v0 AND 1))
       else Ok 0)"

section \<open>Masks and two's complement\<close>

lemma u32_take_bit [mask_simps]: "u32 v = take_bit 32 v"
  by (simp add: u32_def mask_simps)

lemma u32_mod: "u32 v = v mod 2 ^ 32"
  by (simp add: u32_take_bit take_bit_eq_mod)

lemma u32_range [simp]: "0 \<le> u32 v" "u32 v < 2 ^ 32"
  by (simp_all add: u32_take_bit)

lemma u32_lt [simp]: "u32 v < 4294967296"
  by (simp add: u32_take_bit)

lemma u32_id: "0 \<le> v \<Longrightarrow> v < 2 ^ 32 \<Longrightarrow> u32 v = v"
  by (simp add: u32_take_bit take_bit_int_eq_self)

lemma u32_idem [simp]: "u32 (u32 v) = u32 v"
  by (simp add: u32_take_bit)

lemma width_mask_eq: "0 < w \<Longrightarrow> width_mask w = mask (nat w)"
  by (auto simp: width_mask_def mask_eq_exp_minus_1 push_bit_eq_mult)

lemma and_width_mask: "0 < w \<Longrightarrow> v AND width_mask w = take_bit (nat w) v"
  by (simp add: width_mask_eq take_bit_eq_mask)

lemma and_sign_bit: "v AND push_bit n 1 \<noteq> 0 \<longleftrightarrow> bit (v::int) n"
proof -
  have "v AND push_bit n 1 = (if bit v n then push_bit n 1 else 0)"
    by (rule bit_eqI) (auto simp: bit_simps split: if_splits)
  then show ?thesis by simp
qed

lemma and_exp_eq_0 [simp]: "(v::int) AND 2 ^ n = 0 \<longleftrightarrow> \<not> bit v n"
  using and_sign_bit[of v n] by auto

lemma and_and_exp_eq_0 [simp]: "(u::int) AND v AND 2 ^ n = 0 \<longleftrightarrow> \<not> (bit u n \<and> bit v n)"
  using and_exp_eq_0[of "u AND v" n] by (simp add: and.assoc bit_simps)

lemma bit_top:
  assumes "0 \<le> (v::int)" "v < 2 ^ Suc n"
  shows "bit v n \<longleftrightarrow> 2 ^ n \<le> v"
proof (cases "2 ^ n \<le> v")
  case True
  then have "v div 2 ^ n = 1"
    using assms by (intro int_div_pos_eq[where r = "v - 2 ^ n"]) auto
  with True show ?thesis by (simp add: bit_iff_odd)
next
  case False
  then have "v div 2 ^ n = 0" using assms(1) by (simp add: div_pos_pos_trivial)
  with False show ?thesis by (simp add: bit_iff_odd)
qed

text \<open>The signed reading of the low \<open>w\<close> bits.\<close>

definition signed_value :: "nat \<Rightarrow> int \<Rightarrow> int" where
  "signed_value w v = signed_take_bit (w - 1) v"

lemma signed_value_eq:
  assumes "0 \<le> v" "v < 2 ^ w" "0 < w"
  shows "signed_value w v = (if 2 ^ (w - 1) \<le> v then v - 2 ^ w else v)"
proof -
  from assms(3) obtain n where w: "w = Suc n" by (cases w) auto
  have "signed_take_bit n v = take_bit (Suc n) v - 2 ^ Suc n * of_bool (bit v n)"
    by (rule signed_take_bit_eq_take_bit_minus)
  then show ?thesis
    using assms bit_top[of v n] by (simp add: signed_value_def w take_bit_int_eq_self)
qed

lemma signed_value_bit: "signed_value (Suc n) v = take_bit (Suc n) v - 2 ^ Suc n * of_bool (bit v n)"
  unfolding signed_value_def by (simp only: diff_Suc_1 signed_take_bit_eq_take_bit_minus)

lemma s32_signed: "s32 v = signed_value 32 v"
proof -
  have p: "(0x80000000::int) = push_bit 31 1" by (simp add: push_bit_eq_mult)
  have "u32 v AND 0x80000000 \<noteq> 0 \<longleftrightarrow> bit v 31"
    unfolding p and_sign_bit by (simp add: u32_take_bit bit_simps)
  moreover have "signed_value 32 v = take_bit 32 v - 2 ^ 32 * of_bool (bit v 31)"
    using signed_value_bit[of 31 v] by simp
  ultimately show ?thesis by (simp add: s32_def Let_def u32_take_bit)
qed

lemma s32_range: "- (2 ^ 31) \<le> s32 v" "s32 v < 2 ^ 31"
  using signed_take_bit_int_greater_eq_minus_exp[of 31 v] signed_take_bit_int_less_exp[of 31 v]
  by (simp_all add: s32_signed signed_value_def)


lemma s32_u32: "- (2 ^ 31) \<le> v \<Longrightarrow> v < 2 ^ 31 \<Longrightarrow> s32 (u32 v) = v"
proof -
  assume v: "- (2 ^ 31) \<le> v" "v < 2 ^ 31"
  have "s32 (u32 v) = signed_take_bit 31 v"
    by (simp add: s32_signed signed_value_def u32_take_bit signed_take_bit_take_bit)
  also have "\<dots> = v" using v by (simp add: signed_take_bit_int_eq_self)
  finally show ?thesis .
qed

lemma signed_value_range:
  assumes "0 < w" shows "- (2 ^ (w - 1)) \<le> signed_value w v" "signed_value w v < 2 ^ (w - 1)"
  by (simp_all add: signed_value_def signed_take_bit_int_greater_eq_minus_exp signed_take_bit_int_less_exp)

section \<open>Sign extension and arithmetic shift\<close>

lemma sign_extend_signed:
  assumes "0 < w" "w \<le> 32"
  shows "sign_extend v w = Ok (u32 (signed_value (nat w) v))"
proof -
  define n where "n = nat (w - 1)"
  have nw: "nat w = Suc n" using assms by (simp add: n_def)
  have mask: "width_mask w = mask (Suc n)" using assms by (simp add: width_mask_eq nw)
  have top: "bit (v AND mask (Suc n)) n = bit v n"
    by (simp add: bit_simps)
  have "(v AND mask (Suc n)) OR (if bit v n then NOT (mask (Suc n)) else 0) = signed_value (Suc n) v"
    unfolding signed_value_def
    by (rule bit_eqI) (auto simp: bit_simps less_Suc_eq min_def)
  then show ?thesis
    using assms top by (simp add: sign_extend_def Let_def nw mask flip: n_def split: if_splits)
qed

lemma sign_extend_bad: "\<not> (0 < w \<and> w \<le> 32) \<Longrightarrow> sign_extend v w = Raise Semantic_fault"
  by (simp add: sign_extend_def)

lemma sar_word_signed:
  assumes "0 < w" "w \<le> 32"
  shows "sar_word v c w = Ok (u32 (drop_bit (nat (c AND 31)) (signed_value (nat w) v)))"
proof (cases "w = 32")
  case True
  then show ?thesis by (simp add: sar_word_def s32_signed)
next
  case False
  have "(2::int) ^ (nat w - 1) \<le> 2 ^ 31" using assms by (intro power_increasing) auto
  then have "s32 (u32 (signed_value (nat w) v)) = signed_value (nat w) v"
    using signed_value_range[of "nat w" v] assms by (intro s32_u32) auto
  with False assms show ?thesis by (simp add: sar_word_def sign_extend_signed)
qed

section \<open>Overflow, carry and borrow\<close>

lemma overflow_flag_bits:
  assumes "0 < w" "w \<le> 32"
  shows "overflow_flag [w, l, r, x] sub =
    Ok (of_bool ((bit l (nat w - 1) = bit r (nat w - 1)) \<noteq> sub \<and> bit l (nat w - 1) \<noteq> bit x (nat w - 1)))"
proof -
  have n: "nat (w - 1) = nat w - 1" using assms by simp
  show ?thesis using assms
    by (cases sub) (auto simp: Let_def n bit_simps)
qed

lemma add_overflow_signed:
  assumes w: "0 < w" "w \<le> 32"
    and l: "0 \<le> l" "l < 2 ^ nat w" and r: "0 \<le> r" "r < 2 ^ nat w"
    and c: "c = 0 \<or> c = (1::int)" and x: "x = (l + r + c) mod 2 ^ nat w"
  shows "overflow_flag [w, l, r, x] False =
    Ok (of_bool (signed_value (nat w) l + signed_value (nat w) r + c \<notin> {- (2 ^ (nat w - 1)) ..< 2 ^ (nat w - 1)}))"
proof -
  obtain n where n: "nat w = Suc n" using w by (cases "nat w") auto
  define h where "h = (2::int) ^ n"
  have hw: "(2::int) ^ nat w = 2 * h" and hpos: "0 < h" by (simp_all add: n h_def)
  have xr: "0 \<le> x" "x < 2 ^ nat w" by (simp_all add: x)
  have x': "x = l + r + c \<or> x = l + r + c - 2 * h"
  proof (cases "l + r + c < 2 * h")
    case True
    then show ?thesis using l r c hw by (auto simp: x mod_pos_pos_trivial)
  next
    case False
    then have "(l + r + c - 2 * h) mod (2 * h) = l + r + c - 2 * h"
      using l r c hw by (intro mod_pos_pos_trivial) auto
    then show ?thesis by (simp add: x hw)
  qed
  have b: "bit v n \<longleftrightarrow> h \<le> v" if "0 \<le> v" "v < 2 ^ nat w" for v
    using bit_top[of v n] that by (simp add: n h_def)
  have sv: "signed_value (nat w) v = (if h \<le> v then v - 2 * h else v)" if "0 \<le> v" "v < 2 ^ nat w" for v
    using signed_value_eq[of v "nat w"] that by (simp add: n h_def)
  have "overflow_flag [w, l, r, x] False =
      Ok (of_bool ((h \<le> l) = (h \<le> r) \<and> (h \<le> l) \<noteq> (h \<le> x)))"
    using overflow_flag_bits[OF w] b[OF l] b[OF r] b[OF xr] by (simp add: n)
  also have "((h \<le> l) = (h \<le> r) \<and> (h \<le> l) \<noteq> (h \<le> x)) \<longleftrightarrow>
      signed_value (nat w) l + signed_value (nat w) r + c \<notin> {- h ..< h}"
    using sv[OF l] sv[OF r] l r c xr x' hw by auto
  finally show ?thesis by (simp add: n h_def)
qed

lemma sub_overflow_signed:
  assumes w: "0 < w" "w \<le> 32"
    and l: "0 \<le> l" "l < 2 ^ nat w" and r: "0 \<le> r" "r < 2 ^ nat w"
    and c: "c = 0 \<or> c = (1::int)" and x: "x = (l - r - c) mod 2 ^ nat w"
  shows "overflow_flag [w, l, r, x] True =
    Ok (of_bool (signed_value (nat w) l - signed_value (nat w) r - c \<notin> {- (2 ^ (nat w - 1)) ..< 2 ^ (nat w - 1)}))"
proof -
  obtain n where n: "nat w = Suc n" using w by (cases "nat w") auto
  define h where "h = (2::int) ^ n"
  have hw: "(2::int) ^ nat w = 2 * h" and hpos: "0 < h" by (simp_all add: n h_def)
  have xr: "0 \<le> x" "x < 2 ^ nat w" by (simp_all add: x)
  have x': "x = l - r - c \<or> x = l - r - c + 2 * h"
  proof (cases "0 \<le> l - r - c")
    case True
    then show ?thesis using l r c hw by (auto simp: x mod_pos_pos_trivial)
  next
    case False
    then have "(l - r - c + 2 * h) mod (2 * h) = l - r - c + 2 * h"
      using l r c hw by (intro mod_pos_pos_trivial) auto
    then show ?thesis by (simp add: x hw)
  qed
  have b: "bit v n \<longleftrightarrow> h \<le> v" if "0 \<le> v" "v < 2 ^ nat w" for v
    using bit_top[of v n] that by (simp add: n h_def)
  have sv: "signed_value (nat w) v = (if h \<le> v then v - 2 * h else v)" if "0 \<le> v" "v < 2 ^ nat w" for v
    using signed_value_eq[of v "nat w"] that by (simp add: n h_def)
  have "overflow_flag [w, l, r, x] True =
      Ok (of_bool ((h \<le> l) \<noteq> (h \<le> r) \<and> (h \<le> l) \<noteq> (h \<le> x)))"
    using overflow_flag_bits[OF w] b[OF l] b[OF r] b[OF xr] by (simp add: n)
  also have "((h \<le> l) \<noteq> (h \<le> r) \<and> (h \<le> l) \<noteq> (h \<le> x)) \<longleftrightarrow>
      signed_value (nat w) l - signed_value (nat w) r - c \<notin> {- h ..< h}"
    using sv[OF l] sv[OF r] l r c xr x' hw by auto
  finally show ?thesis by (simp add: n h_def)
qed

lemma adc_flag_spec:
  assumes w: "0 < w" "w \<le> 32"
    and l: "0 \<le> l" "l < 2 ^ nat w" and r: "0 \<le> r" "r < 2 ^ nat w" and c: "c = 0 \<or> c = (1::int)"
  defines "x \<equiv> (l + r + c) mod 2 ^ nat w"
  shows "adc_flag [w, l, r, c, x] False = Ok (of_bool (2 ^ nat w \<le> l + r + c))"
    and "adc_flag [w, l, r, c, x] True = Ok (of_bool
      (signed_value (nat w) l + signed_value (nat w) r + c \<notin> {- (2 ^ (nat w - 1)) ..< 2 ^ (nat w - 1)}))"
proof -
  have tl: "l AND width_mask w = l" "r AND width_mask w = r"
    using w l r by (simp_all add: and_width_mask take_bit_int_eq_self)
  have tx: "(l + r + c) AND width_mask w = x AND width_mask w"
    using w by (simp add: x_def and_width_mask take_bit_eq_mod)
  have "drop_bit (nat w) (l + r + c) AND 1 = of_bool (2 ^ nat w \<le> l + r + c)"
  proof (cases "2 ^ nat w \<le> l + r + c")
    case True
    then have "(l + r + c) div 2 ^ nat w = 1"
      using l r c by (intro int_div_pos_eq[where r = "l + r + c - 2 ^ nat w"]) auto
    with True show ?thesis by (simp add: drop_bit_eq_div)
  next
    case False
    then have "(l + r + c) div 2 ^ nat w = 0"
      using l r c by (intro div_pos_pos_trivial) auto
    with False show ?thesis by (simp add: drop_bit_eq_div)
  qed
  then show "adc_flag [w, l, r, c, x] False = Ok (of_bool (2 ^ nat w \<le> l + r + c))"
    using w c tl tx by (auto simp: Let_def)
  show "adc_flag [w, l, r, c, x] True = Ok (of_bool
      (signed_value (nat w) l + signed_value (nat w) r + c \<notin> {- (2 ^ (nat w - 1)) ..< 2 ^ (nat w - 1)}))"
    using w c tl tx add_overflow_signed[OF w l r c x_def[THEN meta_eq_to_obj_eq]]
    by (auto simp: Let_def simp del: overflow_flag.simps)
qed

end
