(* ===== verification/Runtime_Helpers.thy ===== *)
theory Runtime_Helpers
  imports Transfer_Arith
begin

text \<open>
  The C helpers that \<open>transfer/runtime_helpers.py\<close> emits into every generated program, and the two
  checked add-with-carry helpers of \<open>transfer/behavioral_c_render.py\<close>, on machine words: \<open>uint32_t\<close>
  is \<open>32 word\<close>, \<open>uint64_t\<close> is \<open>64 word\<close>, an arithmetic shift of \<open>int32_t\<close> is \<open>signed_drop_bit\<close>.
  A shift by 32 or more, which C leaves undefined, gives 0 here; the helpers are compared on
  widths 1 to 32 only.

  The same operations are computed by the host evaluator (\<open>Transfer_Arith\<close>), the differential
  oracle of the generated code. The theory \<open>Runtime_Agreement\<close> says
  for each helper whether the two agree.
\<close>

type_synonym u32w = "32 word"
type_synonym u64w = "64 word"

section \<open>The helpers\<close>

definition spx_mask :: "u32w \<Rightarrow> u32w" where
  "spx_mask width = (if width \<ge> 32 then 0xffffffff else push_bit (unat width) 1 - 1)"

definition spx_sign_extend :: "u32w \<Rightarrow> u32w \<Rightarrow> u32w" where
  "spx_sign_extend width v =
     (let sign = push_bit (unat (width - 1)) 1; value = v AND spx_mask width
      in (value XOR sign) - sign)"

definition spx_sar :: "u32w \<Rightarrow> u32w \<Rightarrow> u32w \<Rightarrow> u32w" where
  "spx_sar width v amount =
     signed_drop_bit (unat (amount AND 31)) (spx_sign_extend width v) AND spx_mask width"

definition spx_msb :: "u32w \<Rightarrow> u32w \<Rightarrow> u32w" where
  "spx_msb width v = drop_bit (unat (width - 1)) v AND 1"

definition spx_parity :: "u32w \<Rightarrow> u32w" where
  "spx_parity v =
     (let value = (v XOR drop_bit 4 v) AND 0xf
      in drop_bit (unat value) 0x9669 AND 1)"

definition spx_add_overflow :: "u32w \<Rightarrow> u32w \<Rightarrow> u32w \<Rightarrow> u32w \<Rightarrow> u32w" where
  "spx_add_overflow width left right result =
     drop_bit (unat (width - 1)) (NOT (left XOR right) AND (left XOR result)) AND 1"

definition spx_sub_overflow :: "u32w \<Rightarrow> u32w \<Rightarrow> u32w \<Rightarrow> u32w \<Rightarrow> u32w" where
  "spx_sub_overflow width left right result =
     drop_bit (unat (width - 1)) ((left XOR right) AND (left XOR result)) AND 1"

definition spx_imul_high :: "u32w \<Rightarrow> u32w \<Rightarrow> u32w" where
  "spx_imul_high left right = ucast (signed_drop_bit 32 (scast left * scast right :: u64w))"

definition spx_mul_high :: "u32w \<Rightarrow> u32w \<Rightarrow> u32w" where
  "spx_mul_high left right = ucast (drop_bit 32 (ucast left * ucast right :: u64w))"

text \<open>
  The shift-and-subtract division of \<open>spx_udiv_pair\<close>: one step takes the next bit of \<open>low\<close> into
  the 64-bit remainder; 32 steps are made.
\<close>

fun spx_udiv_step :: "u32w \<Rightarrow> u64w \<times> u32w \<times> u32w \<Rightarrow> u64w \<times> u32w \<times> u32w" where
  "spx_udiv_step divisor (rest, low, quot) =
     (let rest = push_bit 1 rest OR (ucast (drop_bit 31 low AND 1));
          low = push_bit 1 low;
          quot = push_bit 1 quot
      in if rest \<ge> ucast divisor then (rest - ucast divisor, low, quot OR 1)
         else (rest, low, quot))"

definition spx_udiv_pair :: "u32w \<Rightarrow> u32w \<Rightarrow> u32w \<Rightarrow> u32w \<times> u32w" where
  "spx_udiv_pair high low divisor =
     (if divisor = 0 \<or> high \<ge> divisor then (0, 0)
      else let (rest, low', quot) = (spx_udiv_step divisor ^^ 32) (ucast high, low, 0)
           in (quot, ucast rest))"

definition spx_udiv_quot :: "u32w \<Rightarrow> u32w \<Rightarrow> u32w \<Rightarrow> u32w" where
  "spx_udiv_quot high low divisor = fst (spx_udiv_pair high low divisor)"

definition spx_udiv_rem :: "u32w \<Rightarrow> u32w \<Rightarrow> u32w \<Rightarrow> u32w" where
  "spx_udiv_rem high low divisor = snd (spx_udiv_pair high low divisor)"

definition spx_udiv_valid :: "u32w \<Rightarrow> u32w \<Rightarrow> u32w \<Rightarrow> u32w" where
  "spx_udiv_valid high low divisor = (if divisor \<noteq> 0 \<and> high < divisor then 1 else 0)"

lemma unat_drop_bit_1: "unat (drop_bit 1 (v::'a::len word)) = unat v div 2"
  by (subst unat_drop_bit_eq) (simp add: drop_bit_eq_div)

lemma drop_bit_1_less: "(v::u32w) \<noteq> 0 \<Longrightarrow> unat (drop_bit 1 v) < unat v"
  unfolding unat_drop_bit_1 by (intro div_less_dividend) (auto simp: unat_gt_0)

text \<open>\<open>while (value >>= 1U) ++index\<close>: the shifted value decides whether the loop goes on.\<close>

function spx_bsr_loop :: "u32w \<Rightarrow> u32w \<Rightarrow> u32w" where
  "spx_bsr_loop v index =
     (let v' = drop_bit 1 v in if v' = 0 then index else spx_bsr_loop v' (index + 1))"
  by pat_completeness auto

termination spx_bsr_loop
proof (relation "measure (\<lambda>(v, i). unat v)")
  fix v i and v' :: u32w
  assume "v' = drop_bit 1 v" "v' \<noteq> 0"
  then have "v \<noteq> 0" by auto
  with \<open>v' = drop_bit 1 v\<close> show "((v', i + 1), v, i) \<in> measure (\<lambda>(v, i). unat v)"
    using drop_bit_1_less[of v] by simp
qed simp

text \<open>\<open>while ((value & 1U) == 0U) { value >>= 1U; ++count; }\<close>, entered with a non-zero value
  (the test of \<open>spx_tzcnt\<close> before the loop); on zero, where the loop would not end, the model stops.\<close>

function spx_tzcnt_loop :: "u32w \<Rightarrow> u32w \<Rightarrow> u32w" where
  "spx_tzcnt_loop v count =
     (if v = 0 \<or> v AND 1 \<noteq> 0 then count else spx_tzcnt_loop (drop_bit 1 v) (count + 1))"
  by pat_completeness auto

termination spx_tzcnt_loop
  by (relation "measure (\<lambda>(v, i). unat v)") (auto dest!: drop_bit_1_less)

declare spx_bsr_loop.simps [simp del] spx_tzcnt_loop.simps [simp del]

definition spx_bsr :: "u32w \<Rightarrow> u32w" where
  "spx_bsr v = spx_bsr_loop v 0"

definition spx_tzcnt :: "u32w \<Rightarrow> u32w" where
  "spx_tzcnt v = (if v = 0 then 32 else spx_tzcnt_loop v 0)"

definition spx_shift_cf :: "u32w \<Rightarrow> u32w \<Rightarrow> u32w \<Rightarrow> u32w \<Rightarrow> u32w" where
  "spx_shift_cf kind width v c =
     (let count = c AND 31; value = v AND spx_mask width in
      if count = 0 \<or> count > width then 0
      else if kind = 0 then drop_bit (unat (width - count)) value AND 1
      else drop_bit (unat (count - 1)) value AND 1)"

definition spx_shift_of :: "u32w \<Rightarrow> u32w \<Rightarrow> u32w \<Rightarrow> u32w \<Rightarrow> u32w \<Rightarrow> u32w" where
  "spx_shift_of kind width v c result =
     (let count = c AND 31 in
      if count \<noteq> 1 then 0
      else if kind = 0 then spx_msb width result XOR spx_shift_cf kind width v count
      else if kind = 1 then spx_msb width v
      else 0)"

definition spx_sbb_borrow :: "u32w \<Rightarrow> u32w \<Rightarrow> u32w \<Rightarrow> u32w \<Rightarrow> u32w \<Rightarrow> u32w" where
  "spx_sbb_borrow width left right carry result =
     (let mask = spx_mask width;
          subtrahend = ucast (right AND mask) + ucast (carry AND 1) :: u64w
      in if ucast (left AND mask) < subtrahend then 1 else 0)"

definition spx_sbb_overflow :: "u32w \<Rightarrow> u32w \<Rightarrow> u32w \<Rightarrow> u32w \<Rightarrow> u32w \<Rightarrow> u32w" where
  "spx_sbb_overflow width left right carry result =
     (let mask = spx_mask width in
      drop_bit (unat (width - 1))
        (((left AND mask) XOR (right AND mask)) AND ((left AND mask) XOR (result AND mask))) AND 1)"

text \<open>The checked helpers return the value and the semantic-fault flag they may set.\<close>

definition spx_adc_carry_checked :: "u32w \<Rightarrow> u32w \<Rightarrow> u32w \<Rightarrow> u32w \<Rightarrow> u32w \<Rightarrow> u32w \<times> bool" where
  "spx_adc_carry_checked width left right carry result =
     (if width = 0 \<or> width > 32 \<or> carry > 1 then (0, True)
      else let mask = (if width = 32 then 0xffffffff else push_bit (unat width) 1 - 1) :: u64w;
               total = (ucast left AND mask) + (ucast right AND mask) + ucast carry
           in if (ucast total AND ucast mask :: u32w) \<noteq> result AND ucast mask then (0, True)
              else (ucast (drop_bit (unat width) total AND 1), False))"

definition spx_adc_overflow_checked :: "u32w \<Rightarrow> u32w \<Rightarrow> u32w \<Rightarrow> u32w \<Rightarrow> u32w \<Rightarrow> u32w \<times> bool" where
  "spx_adc_overflow_checked width l r carry x =
     (if width = 0 \<or> width > 32 \<or> carry > 1 then (0, True)
      else let mask = (if width = 32 then 0xffffffff else push_bit (unat width) 1 - 1);
               left = l AND mask; right = r AND mask; result = x AND mask;
               total = ucast left + ucast right + ucast carry :: u64w
           in if ucast total AND mask \<noteq> result then (0, True)
              else let sign = push_bit (unat (width - 1)) 1
                   in (if NOT (left XOR right) AND (left XOR result) AND sign \<noteq> 0 then 1 else 0, False))"

end
