(* ===== verification/Runtime_Agreement.thy ===== *)
theory Runtime_Agreement
  imports Runtime_Helpers
begin

text \<open>
  Whether the C helpers of the generated programs and the host evaluator, which vetoes a program
  by comparing observations with it, compute the same function. They agree on sign extension,
  the add and subtract overflow flags, both high products, the 64-by-32-bit division, parity, the
  bit scans and the borrow with its checks. \<open>sar\<close> agrees on the operand's width, and above it exactly
  when the operand is not negative or has 32 bits; the subtract-with-borrow overflow differs exactly
  when the borrow is one and the subtrahend is the largest signed number; the shift flags differ on
  inputs shown at the end.
\<close>

section \<open>Bits and widths\<close>

lemma shift_and_1: "drop_bit n v AND 1 = of_bool (bit (v :: 'a::len word) n)"
  by (simp add: and_one_eq mod2_eq_if bit_iff_odd_drop_bit)

lemma int_shift_and_1: "drop_bit n v AND 1 = of_bool (bit (v :: int) n)"
  by (simp add: and_one_eq mod2_eq_if bit_iff_odd_drop_bit)

lemma bit_uint32: "bit (uint (v::u32w)) n \<longleftrightarrow> bit v n"
  by (auto simp: bit_uint_iff dest: bit_imp_le_length)

abbreviation width_word :: "nat \<Rightarrow> u32w" where
  "width_word n \<equiv> word_of_nat n"

lemma unat_width: "n \<le> 32 \<Longrightarrow> unat (width_word n) = n"
  by (simp add: unat_of_nat)

lemma unat_width_minus_1: "0 < n \<Longrightarrow> n \<le> 32 \<Longrightarrow> unat (width_word n - 1) = n - 1"
proof -
  assume n: "0 < n" "n \<le> 32"
  then have "width_word n \<noteq> 0" using unat_width[of n] by (metis unat_0 less_not_refl)
  then show ?thesis using n by (simp add: unat_minus_one unat_width)
qed

lemma spx_mask_width: "0 < n \<Longrightarrow> n \<le> 32 \<Longrightarrow> spx_mask (width_word n) = mask n"
proof -
  assume n: "0 < n" "n \<le> 32"
  show ?thesis
  proof (cases "n = 32")
    case True
    then show ?thesis by (simp add: spx_mask_def mask_eq_exp_minus_1)
  next
    case False
    with n have "\<not> width_word n \<ge> 32" by (simp add: word_le_nat_alt unat_width)
    then show ?thesis using n by (simp add: spx_mask_def unat_width mask_eq_exp_minus_1 push_bit_eq_mult)
  qed
qed

section \<open>Overflow of addition and subtraction\<close>

lemma spx_add_overflow_bits:
  "0 < n \<Longrightarrow> n \<le> 32 \<Longrightarrow> spx_add_overflow (width_word n) l r x =
     of_bool (bit l (n - 1) = bit r (n - 1) \<and> bit l (n - 1) \<noteq> bit x (n - 1))"
  unfolding spx_add_overflow_def unat_width_minus_1 shift_and_1
  by (auto simp: bit_simps)

lemma spx_sub_overflow_bits:
  "0 < n \<Longrightarrow> n \<le> 32 \<Longrightarrow> spx_sub_overflow (width_word n) l r x =
     of_bool (bit l (n - 1) \<noteq> bit r (n - 1) \<and> bit l (n - 1) \<noteq> bit x (n - 1))"
  unfolding spx_sub_overflow_def unat_width_minus_1 shift_and_1
  by (auto simp: bit_simps)

lemma add_overflow_agrees:
  assumes "0 < n" "n \<le> 32"
  shows "overflow_flag [int n, uint l, uint r, uint x] False
    = Ok (uint (spx_add_overflow (width_word n) l r x))"
  using assms overflow_flag_bits[of "int n" "uint l" "uint r" "uint x" False]
  by (auto simp: spx_add_overflow_bits bit_uint32 simp del: overflow_flag.simps)

lemma sub_overflow_agrees:
  assumes "0 < n" "n \<le> 32"
  shows "overflow_flag [int n, uint l, uint r, uint x] True
    = Ok (uint (spx_sub_overflow (width_word n) l r x))"
  using assms overflow_flag_bits[of "int n" "uint l" "uint r" "uint x" True]
  by (auto simp: spx_sub_overflow_bits bit_uint32 simp del: overflow_flag.simps)

section \<open>Sign extension and shifts\<close>

lemma signed_take_bit_word:
  "signed_take_bit m (v::u32w) = (if bit v m then take_bit m v - 2 ^ m else take_bit m v)"
proof -
  have "take_bit m v OR NOT (mask m) = take_bit m v + NOT (mask m)"
    by (rule disjunctive_add_eq_or[symmetric]) (rule bit_eqI, auto simp: bit_simps bit_0)
  then show ?thesis by (simp add: signed_take_bit_def minus_exp_eq_not_mask[symmetric])
qed

lemma spx_sign_extend_signed:
  assumes "0 < n" "n \<le> 32"
  shows "spx_sign_extend (width_word n) v = signed_take_bit (n - 1) v"
proof -
  from assms obtain m where n: "n = Suc m" by (cases n) auto
  have s: "spx_sign_extend (width_word n) v = (take_bit (Suc m) v XOR 2 ^ m) - 2 ^ m"
    using assms by (simp add: spx_sign_extend_def Let_def spx_mask_width unat_width_minus_1 n
        take_bit_eq_mask push_bit_eq_mult del: of_nat_Suc)
  have m: "m < 32" using assms n by simp
  show ?thesis
  proof (cases "bit v m")
    case True
    have "take_bit (Suc m) v XOR 2 ^ m = take_bit m v"
      by (rule bit_eqI) (use True m in \<open>auto simp: bit_simps less_Suc_eq\<close>)
    moreover have "signed_take_bit m v = take_bit m v - 2 ^ m"
      using signed_take_bit_word[of m v] True by simp
    ultimately show ?thesis unfolding s by (simp add: n)
  next
    case False
    have x: "take_bit (Suc m) v XOR 2 ^ m = take_bit m v OR 2 ^ m"
      by (rule bit_eqI) (use False m in \<open>auto simp: bit_simps less_Suc_eq\<close>)
    have "take_bit m v OR 2 ^ m = take_bit m v + 2 ^ m"
      by (rule disjunctive_add_eq_or[symmetric]) (rule bit_eqI, auto simp: bit_simps bit_0)
    moreover have "signed_take_bit m v = take_bit m v"
      using signed_take_bit_word[of m v] False by simp
    ultimately show ?thesis unfolding s by (simp add: n x)
  qed
qed

lemma uint_signed_take_bit: "m < 32 \<Longrightarrow> uint (signed_take_bit m (v::u32w)) = u32 (signed_take_bit m (uint v))"
  by (rule bit_eqI) (auto simp: u32_take_bit bit_simps min_def)

lemma sint_signed_take_bit: "m < 32 \<Longrightarrow> sint (signed_take_bit m (v::u32w)) = signed_take_bit m (uint v)"
  by (rule bit_eqI) (auto simp: bit_simps min_def)

lemma uint_take_bit_sint: "n \<le> 32 \<Longrightarrow> uint (take_bit n (v::u32w)) = take_bit n (sint v)"
  using uint_sint[of v] by (simp add: unsigned_take_bit_eq min_absorb1)

lemma sign_extend_agrees:
  assumes "0 < n" "n \<le> 32"
  shows "sign_extend (uint v) (int n) = Ok (uint (spx_sign_extend (width_word n) v))"
  using assms
  by (simp add: sign_extend_signed spx_sign_extend_signed signed_value_def uint_signed_take_bit)

lemma uint_and_31: "nat (uint c AND 31) = unat ((c::u32w) AND 31)"
  by (simp add: unat_eq_nat_uint uint_and)

lemma sar_agrees_on_width:
  assumes "0 < n" "n \<le> 32"
  shows "\<exists>e. sar_word (uint v) (uint c) (int n) = Ok e
    \<and> uint (spx_sar (width_word n) v c) = take_bit n e"
proof -
  define k where "k = unat (c AND 31)"
  define X where "X = signed_take_bit (n - 1) v"
  have sX: "sint X = signed_value n (uint v)"
    using assms by (simp add: X_def sint_signed_take_bit signed_value_def)
  have "uint (spx_sar (width_word n) v c) = uint (take_bit n (signed_drop_bit k X))"
    using assms by (simp add: spx_sar_def spx_sign_extend_signed spx_mask_width k_def X_def take_bit_eq_mask)
  also have "\<dots> = take_bit n (sint (signed_drop_bit k X))"
    using assms by (simp add: uint_take_bit_sint)
  also have "\<dots> = take_bit n (u32 (drop_bit k (signed_value n (uint v))))"
    using assms by (simp add: sint_signed_drop_bit_eq sX u32_take_bit min_def)
  finally show ?thesis
    using assms by (simp add: sar_word_signed uint_and_31 flip: k_def)
qed

text \<open>The evaluator keeps the sign above the width, the helper masks it away.\<close>

lemma sar_helper_exact:
  assumes n: "0 < n" "n \<le> 32" and k: "k = unat (c AND 31)"
  shows "uint (spx_sar (width_word n) v c) = u32 (drop_bit k (signed_value n (uint v)))
    \<longleftrightarrow> n = 32 \<or> 0 \<le> signed_value n (uint v)"
proof -
  define z where "z = drop_bit k (signed_value n (uint v))"
  have s: "uint (spx_sar (width_word n) v c) = take_bit n (u32 z)"
    using sar_agrees_on_width[OF n, of v c] n by (auto simp: sar_word_signed uint_and_31 z_def k)
  show ?thesis
  proof (cases "0 \<le> signed_value n (uint v)")
    case True
    have "0 \<le> z" "z < 2 ^ n"
    proof -
      show "0 \<le> z" using True by (simp add: z_def)
      have "z \<le> signed_value n (uint v)" 
      using zdiv_mono2[OF True, of 1 "2 ^ k"] by (simp add: z_def drop_bit_eq_div)
      also have "\<dots> < 2 ^ n" using signed_value_range(2)[OF n(1), of "uint v"] power_increasing[of "n - 1" n "2::int"] by linarith
      finally show "z < 2 ^ n" .
    qed
    moreover have "(2::int) ^ n \<le> 2 ^ 32" using n by (intro power_increasing) simp_all
    ultimately have "take_bit n (u32 z) = u32 z"
      using n by (simp add: u32_take_bit min_def take_bit_int_eq_self)
    then show ?thesis using True s by (simp add: z_def)
  next
    case False
    then have "bit z n"
      using n by (auto simp: z_def signed_value_def bit_simps min_def)
    have "take_bit n (u32 z) \<noteq> u32 z" if "n \<noteq> 32"
    proof
      assume "take_bit n (u32 z) = u32 z"
      then have "bit (take_bit n (u32 z)) n = bit (u32 z) n" by (rule arg_cong)
      with \<open>bit z n\<close> that n show False by (simp add: u32_take_bit bit_simps)
    qed
    moreover have "take_bit 32 (u32 z) = u32 z" by (simp add: u32_take_bit)
    ultimately show ?thesis using False s by (auto simp: z_def)
  qed
qed

section \<open>High products\<close>

lemma uint_mult_bound: "uint (l::u32w) * uint (r::u32w) < 2 ^ 64"
proof -
  have "uint l * uint r < 2 ^ 32 * 2 ^ 32"
    using uint_bounded[of l] uint_bounded[of r] by (intro mult_strict_mono') auto
  then show ?thesis by simp
qed

lemma mul_high_agrees:
  "uint (spx_mul_high l r) = drop_bit 32 (uint l * uint r) AND 0xFFFFFFFF"
proof -
  have t: "take_bit 64 (uint l * uint r) = uint l * uint r"
    using uint_mult_bound[of l r] by (simp add: take_bit_int_eq_self)
  have "uint (ucast l * ucast r :: u64w) = uint l * uint r"
    using t by (simp add: uint_word_ariths uint_up_ucast is_up take_bit_eq_mod)
  then show ?thesis
    unfolding spx_mul_high_def mask_simps
    by (simp add: unsigned_ucast_eq unsigned_drop_bit_eq t)
qed

lemma sint_mult_bound:
  "- (2 ^ 63) \<le> sint (l::u32w) * sint (r::u32w)" "sint l * sint r < 2 ^ 63"
proof -
  have l: "\<bar>sint l\<bar> \<le> 2 ^ 31" and r: "\<bar>sint r\<bar> \<le> 2 ^ 31"
    using sint_greater_eq[of l] sint_less[of l] sint_greater_eq[of r] sint_less[of r] by auto
  have "\<bar>sint l * sint r\<bar> \<le> 2 ^ 31 * 2 ^ 31"
    unfolding abs_mult by (intro mult_mono l r) auto
  then show "- (2 ^ 63) \<le> sint l * sint r" "sint l * sint r < 2 ^ 63" by auto
qed

lemma s32_sint: "s32 (uint (v::u32w)) = sint v"
  by (simp add: s32_signed signed_value_def sint_uint)

lemma imul_high_agrees:
  "uint (spx_imul_high l r) = drop_bit 32 (s32 (uint l) * s32 (uint r)) AND 0xFFFFFFFF"
proof -
  have t: "signed_take_bit 63 (sint l * sint r) = sint l * sint r"
    using sint_mult_bound[of l r] by (simp add: signed_take_bit_int_eq_self)
  have m: "signed_take_bit 63 (sint v) = sint v" for v :: u32w
    using sint_greater_eq[of v] sint_less[of v] by (intro signed_take_bit_int_eq_self) auto
  have "sint (scast l * scast r :: u64w) = sint l * sint r"
    using t m by (simp add: sint_word_ariths(3) signed_scast_eq)
  then have "sint (signed_drop_bit 32 (scast l * scast r :: u64w)) = drop_bit 32 (sint l * sint r)"
    by (simp add: sint_signed_drop_bit_eq)
  moreover have "uint (ucast w :: u32w) = take_bit 32 (sint w)" for w :: u64w
    using uint_sint[of w] by (simp add: unsigned_ucast_eq)
  ultimately show ?thesis
    unfolding spx_imul_high_def mask_simps by (simp add: s32_sint)
qed

section \<open>Division\<close>

lemma push_bit_or_1: "push_bit 1 v OR 1 = push_bit 1 v + (1 :: 'a::len word)"
  by (simp add: or_one_eq push_bit_eq_mult)

text \<open>One step on the values: the remainder takes the next dividend bit and is reduced.\<close>

lemma spx_udiv_step_value:
  assumes rest: "uint rest < uint d" and step: "spx_udiv_step d (rest, low, quot) = (rest', low', quot')"
  defines "r \<equiv> 2 * uint rest + of_bool (bit low 31)"
  shows "uint rest' = r mod uint d" "low' = push_bit 1 low"
    "uint quot' = (2 * uint quot + r div uint d) mod 2 ^ 32"
proof -
  define R where "R = push_bit 1 rest OR (ucast (drop_bit 31 low AND 1) :: u64w)"
  have d: "uint d < 2 ^ 32" using uint_bounded[of d] by simp
  have b: "(ucast (drop_bit 31 low AND 1) :: u64w) = of_bool (bit low 31)"
    by (simp add: shift_and_1)
  have "R = push_bit 1 rest + of_bool (bit low 31)"
    unfolding R_def b by (cases "bit low 31") (simp_all only: of_bool_eq push_bit_or_1, simp)
  then have "R = 2 * rest + of_bool (bit low 31)" by (simp add: push_bit_eq_mult)
  moreover have "2 * uint rest + of_bool (bit low 31) < 2 ^ 64" using rest d by simp
  ultimately have uR: "uint R = r"
    using rest d by (auto simp: r_def uint_word_ariths mod_pos_pos_trivial)
  have ud: "uint (ucast d :: u64w) = uint d" by (simp add: uint_up_ucast is_up)
  have pos: "0 < uint d" using rest uint_nonnegative[of rest] by linarith
  have cmp: "R \<ge> ucast d \<longleftrightarrow> r \<ge> uint d" by (simp add: word_le_def uR ud)
  have r2: "0 \<le> r" "r < 2 * uint d" using rest by (auto simp: r_def)
  show "low' = push_bit 1 low"
    using step by (auto simp: Let_def split: if_splits)
  have *: "uint rest' = r mod uint d \<and> uint quot' = (2 * uint quot + r div uint d) mod 2 ^ 32"
  proof (cases "r \<ge> uint d")
    case True
    then have "rest' = R - ucast d" "quot' = push_bit 1 quot OR 1"
      using step cmp by (auto simp: Let_def R_def)
    moreover note push_bit_or_1[of quot]
    moreover have "r div uint d = 1" "r mod uint d = r - uint d"
      using True r2 by (auto intro: int_div_pos_eq[where r = "r - uint d"] int_mod_pos_eq[where q = 1])
    ultimately show ?thesis
      using True r2 uint_bounded[of d] d
      by (auto simp: push_bit_eq_mult uint_word_ariths uR ud mod_simps mod_pos_pos_trivial mult.commute)
  next
    case False
    then have "rest' = R" "quot' = push_bit 1 quot"
      using step cmp by (auto simp: Let_def R_def)
    then show ?thesis using False r2 by (simp add: uR push_bit_eq_mult uint_word_ariths mult.commute)
  qed
  then show "uint rest' = r mod uint d" "uint quot' = (2 * uint quot + r div uint d) mod 2 ^ 32"
    by auto
qed

lemma mod_double_add: "(2 * (x mod m) + y) mod m = (2 * x + y) mod (m::int)"
  by (metis mod_add_left_eq mod_mult_right_eq)

lemma spx_udiv_steps:
  fixes h l d :: u32w
  assumes "uint h < uint d" "k \<le> 32"
  defines "D \<equiv> uint h * 2 ^ 32 + uint l"
  shows "\<exists>rest quot. (spx_udiv_step d ^^ k) (ucast h, l, 0) = (rest, push_bit k l, quot)
    \<and> uint rest = D div 2 ^ (32 - k) mod uint d \<and> uint quot = D div 2 ^ (32 - k) div uint d mod 2 ^ 32"
  using assms(2)
proof (induction k)
  case 0
  have "D div 2 ^ 32 = uint h"
    using uint_bounded[of l] by (simp add: D_def)
  then show ?case using assms(1) by (simp add: uint_up_ucast is_up mod_pos_pos_trivial div_pos_pos_trivial)
next
  case (Suc k)
  then obtain rest quot where IH: "(spx_udiv_step d ^^ k) (ucast h, l, 0) = (rest, push_bit k l, quot)"
    "uint rest = D div 2 ^ (32 - k) mod uint d" "uint quot = D div 2 ^ (32 - k) div uint d mod 2 ^ 32"
    by auto
  obtain rest' low' quot' where step: "spx_udiv_step d (rest, push_bit k l, quot) = (rest', low', quot')"
    by (cases "spx_udiv_step d (rest, push_bit k l, quot)") auto
  have pos: "0 < uint d" using assms(1) uint_nonnegative[of h] by linarith
  then have "uint rest < uint d" using IH by simp
  note st = spx_udiv_step_value[OF this step]
  define E where "E = D div 2 ^ (32 - k)"
  have exp: "32 - k = Suc (31 - k)" using Suc by simp
  have bit: "bit (push_bit k l) 31 = bit D (31 - k)"
  proof -
    have "bit (push_bit k l) 31 = bit (uint l) (31 - k)" using Suc by (simp add: bit_simps)
    also have "\<dots> = bit (take_bit 32 D) (31 - k)"
      using uint_bounded[of l] by (simp add: D_def take_bit_eq_mod mod_pos_pos_trivial)
    finally show ?thesis by (simp add: bit_simps less_eq_Suc_le)
  qed
  have E': "D div 2 ^ (31 - k) = 2 * E + of_bool (bit D (31 - k))"
    unfolding E_def exp bit_iff_odd power_Suc2 zdiv_zmult2_eq[of 2]
    by (simp add: zdiv_zmult2_eq)
  define r where "r = 2 * uint rest + of_bool (bit D (31 - k))"
  obtain q m where E: "E = uint d * q + m" "E div uint d = q" "E mod uint d = m"
    using mult_div_mod_eq[of "uint d" E] by metis
  have split: "D div 2 ^ (31 - k) = uint d * (2 * (E div uint d)) + r"
    unfolding E' r_def IH(2) E_def[symmetric] E(2,3) by (simp add: E(1) algebra_simps)
  have "uint rest' = D div 2 ^ (31 - k) mod uint d"
    using st(1) unfolding split by (simp add: bit r_def)
  moreover have "uint quot' = (D div 2 ^ (31 - k)) div uint d mod 2 ^ 32"
    using st(3) pos unfolding split
    by (simp add: bit flip: r_def E_def) (simp add: IH(3) mod_double_add flip: E_def)
  ultimately show ?case using IH(1) step st(2) by (simp add: funpow_swap1)
qed

lemma udiv_agrees:
  "udiv_words [uint h, uint l, uint d] = Ok (uint (spx_udiv_quot h l d), uint (spx_udiv_rem h l d),
     uint (spx_udiv_valid h l d))"
proof (cases "d = 0 \<or> h \<ge> d")
  case True
  then show ?thesis
    by (auto simp: spx_udiv_quot_def spx_udiv_rem_def spx_udiv_pair_def spx_udiv_valid_def
        word_le_def word_less_def uint_0_iff)
next
  case False
  define D where "D = uint h * 2 ^ 32 + uint l"
  have h: "uint h < uint d" using False by (simp add: word_le_def)
  obtain rest quot where st: "(spx_udiv_step d ^^ 32) (ucast h, l, 0) = (rest, push_bit 32 l, quot)"
    "uint rest = D mod uint d" "uint quot = D div uint d mod 2 ^ 32"
    using spx_udiv_steps[OF h, of 32 l] by (auto simp: D_def)
  have "push_bit 32 (uint h) OR uint l = push_bit 32 (uint h) + uint l"
    by (rule disjunctive_add_eq_or[symmetric])
      (rule bit_eqI, auto simp: bit_simps dest: bit_imp_le_length)
  then have D: "push_bit 32 (uint h) OR uint l = D" by (simp add: D_def push_bit_eq_mult)
  have d: "0 < uint d" "uint d < 2 ^ 32" using h uint_nonnegative[of h] uint_bounded[of d] by (linarith, simp)
  then have "D mod uint d < 2 ^ 32" using pos_mod_bound[of "uint d" D] by linarith
  then have "uint (ucast rest :: u32w) = D mod uint d"
    using d st(2) by (simp add: unsigned_ucast_eq take_bit_int_eq_self)
  then show ?thesis
    using False st d D h \<open>D mod uint d < 2 ^ 32\<close>
    by (simp add: spx_udiv_quot_def spx_udiv_rem_def spx_udiv_pair_def spx_udiv_valid_def u32_mod
        word_le_def word_less_def mod_pos_pos_trivial)
qed

section \<open>Bit scans and parity\<close>

lemma bit_length_nat_step: "n div 2 \<noteq> 0 \<Longrightarrow> bit_length_nat n = Suc (bit_length_nat (n div 2)) \<and> bit_length_nat (n div 2) \<noteq> 0"
  by (subst bit_length_nat.simps, subst (3) bit_length_nat.simps) auto

lemma bit_length_nat_small: "n div 2 = 0 \<Longrightarrow> bit_length_nat n - 1 = 0"
  by (subst bit_length_nat.simps) (simp add: bit_length_nat.simps[of 0])

lemma spx_bsr_loop_value: "spx_bsr_loop v i = i + word_of_nat (bit_length_nat (unat v) - 1)"
proof (induction v i rule: spx_bsr_loop.induct)
  case (1 v i)
  have z: "drop_bit 1 v = 0 \<longleftrightarrow> unat v div 2 = 0"
    using unat_drop_bit_1[of v] by (metis unat_eq_0)
  show ?case
  proof (cases "drop_bit 1 v = 0")
    case True
    then have "bit_length_nat (unat v) - Suc 0 = 0" using z bit_length_nat_small[of "unat v"] by simp
    with True show ?thesis by (subst spx_bsr_loop.simps) simp
  next
    case False
    with z have n: "unat v div 2 \<noteq> 0" by blast
    obtain k where k: "bit_length_nat (unat v div 2) = Suc k"
      using bit_length_nat_step[OF n] by (cases "bit_length_nat (unat v div 2)") auto
    show ?thesis
      using 1[OF refl False] False bit_length_nat_step[OF n]
      by (subst spx_bsr_loop.simps) (simp add: unat_drop_bit_1[simplified] k)
  qed
qed

lemma bit_length_uint_bound: "bit_length_nat (unat (v::u32w)) \<le> 32"
proof (cases "unat v = 0")
  case False
  have v: "unat v < 2 ^ 32" by (rule order_less_le_trans, rule unsigned_less) simp
  have "2 ^ (bit_length_nat (unat v) - 1) \<le> unat v"
    using False bit_length_nat_bounds[of "unat v"] by blast
  from nat_power_less_imp_less[OF _ le_less_trans[OF this v]] show ?thesis by simp
qed (simp add: bit_length_nat.simps[of 0])

lemma bsr_agrees: "uint (spx_bsr v) = (if uint v = 0 then 0 else bit_length (uint v) - 1)"
proof -
  have "uint (spx_bsr v) = int (bit_length_nat (unat v) - 1)"
    using bit_length_uint_bound[of v]
    by (simp add: spx_bsr_def spx_bsr_loop_value unsigned_of_nat take_bit_nat_eq_self)
  moreover have "bit_length_nat (unat v) \<noteq> 0" if "v \<noteq> 0"
    using that by (subst bit_length_nat.simps) (simp add: unat_eq_0)
  ultimately show ?thesis
    by (auto simp: bit_length_def unat_eq_nat_uint[symmetric] uint_0_iff bit_length_nat.simps[of 0])
qed

definition lowest_bit :: "int \<Rightarrow> int" where
  "lowest_bit v = bit_length (v AND - v) - 1"

lemma and_minus_odd: "odd (v::int) \<Longrightarrow> v AND - v = 1"
proof -
  assume o: "odd v"
  then obtain y where y: "v = 2 * y + 1" by (elim oddE)
  have "(- v) div 2 = NOT y" unfolding y not_int_def by presburger
  then show ?thesis using o y by (subst and_int_rec) simp
qed

lemma and_minus_even: "(2 * y) AND - (2 * y) = 2 * (y AND - (y::int))"
proof -
  have "(- (2 * y)) div 2 = - y" by presburger
  then show ?thesis by (subst and_int_rec) simp
qed

lemma lowest_bit_odd: "odd v \<Longrightarrow> lowest_bit v = 0"
  by (simp add: lowest_bit_def and_minus_odd bit_length_def bit_length_nat.simps)

lemma and_minus_pos: "0 < (y::int) \<Longrightarrow> 0 < y AND - y"
proof (induction "nat y" arbitrary: y rule: less_induct)
  case less
  show ?case
  proof (cases "odd y")
    case True
    then show ?thesis by (simp add: and_minus_odd)
  next
    case False
    then obtain z where "y = 2 * z" by blast
    with less show ?thesis using and_minus_even[of z] by simp
  qed
qed

lemma bit_length_double: "0 < y \<Longrightarrow> bit_length (2 * y) = bit_length y + 1"
  using bit_length_nat_step[of "nat (2 * y)"] by (simp add: bit_length_def nat_mult_distrib)

lemma lowest_bit_even: "0 < y \<Longrightarrow> lowest_bit (2 * y) = lowest_bit y + 1"
  using bit_length_double[OF and_minus_pos] by (simp add: lowest_bit_def and_minus_even)

lemma lowest_bit_bound: "0 < v \<Longrightarrow> v < 2 ^ n \<Longrightarrow> 0 \<le> lowest_bit v \<and> lowest_bit v < int n"
proof (induction n arbitrary: v)
  case (Suc n)
  show ?case
  proof (cases "odd v")
    case False
    then obtain z where "v = 2 * z" by blast
    with Suc show ?thesis by (auto simp: lowest_bit_even)
  qed (simp add: lowest_bit_odd)
qed simp

lemma uint_drop_bit_1: "uint (drop_bit 1 (v::u32w)) = uint v div 2"
  by (subst unsigned_drop_bit_eq)
    (use uint_bounded[of v] in \<open>simp add: drop_bit_eq_div take_bit_int_eq_self\<close>)

lemma even_uint32: "even (uint (v::u32w)) \<longleftrightarrow> even v"
  using bit_uint32[of v 0] by (simp add: bit_0)

lemma spx_tzcnt_loop_value:
  "v \<noteq> 0 \<Longrightarrow> spx_tzcnt_loop v i = i + word_of_int (lowest_bit (uint v))"
proof (induction v i rule: spx_tzcnt_loop.induct)
  case (1 v i)
  show ?case
  proof (cases "odd v")
    case True
    then show ?thesis
      by (subst spx_tzcnt_loop.simps) (simp add: and_one_eq lowest_bit_odd even_uint32 odd_iff_mod_2_eq_one)
  next
    case False
    have u: "uint v = 2 * uint (drop_bit 1 v)"
      unfolding uint_drop_bit_1 using False by (simp add: even_uint32)
    have nz: "drop_bit 1 v \<noteq> 0"
      using u 1(2) by (metis mult_zero_right uint_0_iff unsigned_0)
    then have "0 < uint (drop_bit 1 v)"
      by (simp add: order_less_le uint_0_iff[symmetric] del: drop_bit_Suc)
    then have "lowest_bit (uint v) = lowest_bit (uint (drop_bit 1 v)) + 1"
      unfolding u by (rule lowest_bit_even)
    then show ?thesis
      using 1(1)[OF _ nz] 1(2) False
      by (subst spx_tzcnt_loop.simps) (simp add: and_one_eq even_iff_mod_2_eq_zero)
  qed
qed

lemma tzcnt_agrees: "uint (spx_tzcnt v) = (if uint v = 0 then 32 else lowest_bit (uint v))"
proof (cases "v = 0")
  case False
  then have "0 < uint v" by (metis uint_0_iff uint_nonnegative order_less_le)
  then have "0 \<le> lowest_bit (uint v)" "lowest_bit (uint v) < 32"
    using lowest_bit_bound[of "uint v" 32] uint_bounded[of v] by auto
  then show ?thesis
    using False by (simp add: spx_tzcnt_def spx_tzcnt_loop_value unsigned_of_int uint_0_iff take_bit_int_eq_self)
qed (simp add: spx_tzcnt_def)

lemma bit_count_nat_sum: "m < 2 ^ k \<Longrightarrow> bit_count_nat m = (\<Sum>i<k. of_bool (bit m i))"
proof (induction k arbitrary: m)
  case 0
  then show ?case by (simp add: bit_count_nat.simps[of 0])
next
  case (Suc k)
  then have "m div 2 < 2 ^ k" by simp
  then have "bit_count_nat m = m mod 2 + (\<Sum>i<k. of_bool (bit (m div 2) i))"
    using Suc.IH by (subst bit_count_nat.simps) (auto simp: bit_count_nat.simps[of 0])
  then show ?case
    by (simp add: sum.lessThan_Suc_shift bit_Suc bit_0 mod2_eq_if del: sum.lessThan_Suc)
qed

lemma nibble_table: "n < 16 \<Longrightarrow> bit (0x9669 :: u32w) n \<longleftrightarrow> even (bit_count_nat n)"
proof -
  have "\<forall>n\<in>set [0..<16]. bit (0x9669 :: u32w) n \<longleftrightarrow> even (bit_count_nat n)"
    by (simp add: upt_rec bit_count_nat.simps)
  then show "n < 16 \<Longrightarrow> ?thesis" by auto
qed

lemma parity_pairs:
  "even (of_bool (a \<noteq> e) + of_bool (b \<noteq> f) + of_bool (c \<noteq> g) + of_bool (d \<noteq> h) :: nat) \<longleftrightarrow>
   even (of_bool a + of_bool b + of_bool c + of_bool d + of_bool e + of_bool f + of_bool g + of_bool h :: nat)"
  by (cases a; cases b; cases c; cases d; simp)

lemma parity_agrees:
  "uint (spx_parity v) = of_bool (bit_count (uint v AND 0xFF) mod 2 = 0)"
proof -
  define w where "w = (v XOR drop_bit 4 v) AND 0xf"
  have w: "w = take_bit 4 (v XOR drop_bit 4 v)"
    by (simp add: w_def take_bit_eq_mask mask_eq_exp_minus_1)
  have "take_bit 4 m < 16" for m :: nat using take_bit_nat_less_exp[of 4 m] by simp
  then have w16: "unat w < 16" unfolding w unsigned_take_bit_eq .
  have bw: "bit (unat w) i \<longleftrightarrow> i < 4 \<and> bit v i \<noteq> bit v (4 + i)" for i
    by (auto simp: w bit_simps)
  have sum4: "(\<Sum>i<4. f i) = f 0 + f 1 + f 2 + f 3" for f :: "nat \<Rightarrow> nat"
    by (simp add: eval_nat_numeral)
  have sum8: "(\<Sum>i<8. f i) = f 0 + f 1 + f 2 + f 3 + f 4 + f 5 + f 6 + f 7" for f :: "nat \<Rightarrow> nat"
    by (simp add: eval_nat_numeral)
  have "nat (take_bit 8 (uint v)) < 2 ^ 8" by (simp add: nat_less_iff)
  moreover have "bit (nat (take_bit 8 (uint v))) i \<longleftrightarrow> i < 8 \<and> bit v i" for i
    by (auto simp: bit_nat_iff bit_simps)
  moreover have "unat w < 2 ^ 4" using w16 by simp
  ultimately have e: "bit_count_nat (unat w) = (\<Sum>i<4. of_bool (i < 4 \<and> bit v i \<noteq> bit v (4 + i)))"
    "bit_count_nat (nat (take_bit 8 (uint v))) = (\<Sum>i<8. of_bool (i < 8 \<and> bit v i))"
    using bit_count_nat_sum[of "unat w" 4] bit_count_nat_sum[of "nat (take_bit 8 (uint v))" 8]
    by (simp_all only: bw)
  have "even (bit_count_nat (unat w)) \<longleftrightarrow> even (bit_count_nat (nat (take_bit 8 (uint v))))"
    using parity_pairs[of "bit v 0" "bit v 4" "bit v 1" "bit v 5" "bit v 2" "bit v 6" "bit v 3" "bit v 7"]
    unfolding e sum4 sum8 by simp
  then show ?thesis
    using nibble_table[OF w16]
    by (auto simp: spx_parity_def Let_def shift_and_1 bit_count_def mask_simps even_iff_mod_2_eq_zero[symmetric]
        simp flip: w_def)
qed

section \<open>Shift flags, borrow and carry\<close>

lemma uint_and_mask: "0 < n \<Longrightarrow> n \<le> 32 \<Longrightarrow> uint (v AND spx_mask (width_word n)) = take_bit n (uint v)"
  by (simp add: spx_mask_width take_bit_eq_mask[symmetric] unsigned_take_bit_eq)

lemma shift_cf_agrees:
  assumes n: "0 < n" "n \<le> 32" and k: "0 < unat (c AND 31)" "unat (c AND 31) \<le> n" and kind: "kind \<le> 2"
  shows "shift_flag True (256 * int kind + int n) [uint v, uint c]
    = Ok (uint (spx_shift_cf (word_of_nat kind) (width_word n) v c))"
proof -
  define k where "k = unat (c AND 31)"
  have kk: "0 < k" "k \<le> n" using k by (simp_all add: k_def)
  have uc: "uint c AND 31 = int k" by (simp add: k_def uint_and flip: uint_nat)
  have nz: "c AND 31 \<noteq> 0" using k(1) by auto
  have le: "c AND 31 \<le> width_word n" using kk n by (simp add: word_le_nat_alt unat_width flip: k_def)
  have s: "unat (width_word n - (c AND 31)) = n - k"
    using le n by (simp add: unat_sub unat_width flip: k_def)
  have s1: "unat ((c AND 31) - 1) = k - 1"
    using nz by (simp add: unat_minus_one flip: k_def)
  have k0: "word_of_nat kind = (0::u32w) \<longleftrightarrow> kind = 0"
    using kind by (auto simp: le_Suc_eq numeral_2_eq_2)
  have b: "uint (drop_bit m (v AND spx_mask (width_word n)) AND 1) = drop_bit m (uint v) AND 1" if "m < n" for m
    using that n unfolding shift_and_1 int_shift_and_1
    by (simp add: spx_mask_width bit_simps bit_uint32)
  define aux where "aux = 256 * int kind + int n"
  have aux: "drop_bit 8 aux = int kind" "aux AND 0xFF = int n"
    using n by (simp_all add: aux_def drop_bit_eq_div mask_simps take_bit_eq_mod)
  have "shift_flag True aux [uint v, uint c]
      = Ok (drop_bit (if kind = 0 then n - k else k - 1) (uint v) AND 1)"
    using kk n by (simp add: shift_flag_def Let_def aux uc nat_diff_distrib)
  moreover have "spx_shift_cf (word_of_nat kind) (width_word n) v c
      = drop_bit (if kind = 0 then n - k else k - 1) (v AND spx_mask (width_word n)) AND 1"
    using nz le by (simp only: spx_shift_cf_def Let_def k0 s s1 not_less[symmetric] if_False simp_thms if_distrib)
      auto
  ultimately show ?thesis
    using b[of "if kind = 0 then n - k else k - 1"] kk by (simp only: aux_def) auto
qed

lemma sbb_borrow_agrees:
  assumes "sbb_flag [int n, uint l, uint r, uint b, uint x] False = Ok y"
  shows "y = uint (spx_sbb_borrow (width_word n) l r b x)"
proof -
  have n: "0 < n" "n \<le> 32" and b: "uint b \<le> 1"
    and y: "y = of_bool (take_bit n (uint l) < take_bit n (uint r) + uint b)"
    using assms by (auto simp: Let_def and_width_mask split: if_splits)
  have "uint b = 0 \<or> uint b = 1" using b uint_nonnegative[of b] by linarith
  then have "b = 0 \<or> b = 1" by (auto simp: word_uint_eq_iff)
  then have "uint (b AND 1) = uint b" by auto
  moreover have "(2::int) ^ n \<le> 4294967296" using n power_increasing[of n 32 "2::int"] by simp
  then have "take_bit n (uint r) + uint b < 18446744073709551616"
    using b take_bit_lt[of n "uint r"] by linarith
  ultimately show ?thesis
    by (simp add: y spx_sbb_borrow_def word_less_def uint_word_ariths uint_up_ucast is_up uint_and_mask n
        mod_pos_pos_trivial)
qed

text \<open>The evaluator's checks of the borrow and of the result, and its value where they pass.\<close>

lemma sbb_borrow_complete:
  assumes n: "0 < n" "n \<le> 32"
  shows "sbb_flag [int n, uint l, uint r, uint b, uint x] False =
    (if uint b \<le> 1 \<and> take_bit n (uint l - uint r - uint b) = take_bit n (uint x)
     then Ok (uint (spx_sbb_borrow (width_word n) l r b x)) else Raise Semantic_fault)"
proof (cases "uint b \<le> 1 \<and> take_bit n (uint l - uint r - uint b) = take_bit n (uint x)")
  case True
  define y :: int where "y = of_bool (take_bit n (uint l) < take_bit n (uint r) + uint b)"
  have "sbb_flag [int n, uint l, uint r, uint b, uint x] False = Ok y"
    using n True by (simp add: Let_def and_width_mask y_def)
  with sbb_borrow_agrees[OF this] True show ?thesis by simp
next
  case False
  then show ?thesis using n by (simp add: Let_def and_width_mask)
qed

definition checked :: "u32w \<times> bool \<Rightarrow> int res" where
  "checked p = (if snd p then Raise Semantic_fault else Ok (uint (fst p)))"

lemma width_word_32: "n \<le> 32 \<Longrightarrow> width_word n = 32 \<longleftrightarrow> n = 32"
  by (metis unat_width le_refl of_nat_numeral)

lemma adc_total:
  assumes n: "0 < n" "n \<le> 32" and c: "uint (c::u32w) \<le> 1"
  shows "uint ((ucast l AND mask n) + (ucast r AND mask n) + ucast c :: u64w)
    = take_bit n (uint (l::u32w)) + take_bit n (uint (r::u32w)) + uint c"
proof -
  have p: "(2::int) ^ n \<le> 4294967296" using n power_increasing[of n 32 "2::int"] by simp
  have u: "uint (ucast v AND mask n :: u64w) = take_bit n (uint v)" for v :: u32w
    using n by (simp add: take_bit_eq_mask[symmetric] unsigned_take_bit_eq uint_up_ucast is_up)
  have "take_bit n (uint l) < 2 ^ n" "take_bit n (uint r) < 2 ^ n" by (simp_all add: take_bit_lt)
  with p c have "take_bit n (uint l) + take_bit n (uint r) + uint c < 18446744073709551616" by linarith
  then show ?thesis
    by (simp add: uint_word_ariths u uint_up_ucast is_up mod_simps mod_pos_pos_trivial)
qed

lemma adc_mask: "0 < n \<Longrightarrow> n \<le> 32 \<Longrightarrow>
    (if width_word n = 32 then 0xffffffff else push_bit (unat (width_word n)) 1 - 1) = (mask n :: u64w)"
  by (auto simp: width_word_32 unat_width mask_eq_exp_minus_1 push_bit_eq_mult)

lemma masked_eq: "n \<le> 32 \<Longrightarrow> (ucast u AND ucast (mask n :: u64w) :: u32w) = x AND ucast (mask n :: u64w)
    \<longleftrightarrow> take_bit n (uint (u::u64w)) = take_bit n (uint x)"
proof -
  assume n: "n \<le> 32"
  have m: "(ucast (mask n :: u64w) :: u32w) = mask n"
    by (rule bit_eqI) (use n in \<open>auto simp: bit_simps\<close>)
  have "uint (ucast u AND mask n :: u32w) = take_bit n (uint u)"
    using n by (simp add: take_bit_eq_mask[symmetric] unsigned_take_bit_eq unsigned_ucast_eq)
  moreover have "uint (x AND mask n) = take_bit n (uint x)"
    using n by (simp add: take_bit_eq_mask[symmetric] unsigned_take_bit_eq)
  ultimately show ?thesis unfolding m word_uint_eq_iff by simp
qed

lemma width_cases:
  obtains "w = 0 \<or> w > 32" "\<not> (0 < uint w \<and> uint w \<le> 32)"
  | n where "w = width_word n" "uint w = int n" "0 < n" "n \<le> 32"
proof (cases "w = 0 \<or> w > 32")
  case False
  show thesis
    by (rule that(2)[of "unat w"]) (use False in \<open>auto simp: unat_gt_0 word_less_nat_alt\<close>)
qed (rule that(1), auto simp: word_less_def uint_0_iff)

lemma adc_carry_agrees:
  "adc_flag [uint w, uint l, uint r, uint c, uint x] False = checked (spx_adc_carry_checked w l r c x)"
proof (cases w rule: width_cases)
  case 1
  then show ?thesis by (auto simp: spx_adc_carry_checked_def checked_def)
next
  case (2 n)
  show ?thesis
  proof (cases "uint c \<le> 1")
    case False
    then show ?thesis by (simp add: spx_adc_carry_checked_def checked_def word_less_def)
  next
    case True
    then have c: "\<not> c > 1" by (simp add: word_less_def)
    have w: "\<not> (w = 0 \<or> w > 32)" using 2 by (auto simp: word_less_def)
    have b: "uint (ucast (drop_bit n (u :: u64w) AND 1) :: u32w) = drop_bit n (uint u) AND 1" for u
      unfolding shift_and_1 int_shift_and_1 by (simp add: bit_uint_iff) (auto dest: bit_imp_le_length)
    show ?thesis
      using 2 True c w adc_total[OF 2(3,4) True, of l r] b
      unfolding spx_adc_carry_checked_def Let_def 2(1) adc_mask[OF 2(3,4)]
      by (simp add: masked_eq checked_def Let_def and_width_mask unat_width)
  qed
qed

section \<open>Where the two differ\<close>

text \<open>
  The overflow of a subtraction with borrow: the C helper is exact; the evaluator adds the borrow
  to the subtrahend before it compares signs, which is wrong when the addition changes the sign.
\<close>

lemma spx_sbb_overflow_bits:
  "0 < n \<Longrightarrow> n \<le> 32 \<Longrightarrow> spx_sbb_overflow (width_word n) l r b x = spx_sub_overflow (width_word n) l r x"
  unfolding spx_sbb_overflow_def spx_sub_overflow_def Let_def unat_width_minus_1 shift_and_1 spx_mask_width
  by (auto simp: bit_simps)

lemma spx_sbb_overflow_exact:
  assumes n: "0 < n" "n \<le> 32" and b: "uint b \<le> 1"
    and x: "take_bit n (uint x) = (uint l - uint r - uint b) mod 2 ^ n"
  shows "uint (spx_sbb_overflow (width_word n) l r b x) = of_bool
    (signed_value n (uint l) - signed_value n (uint r) - uint b \<notin> {- (2 ^ (n - 1)) ..< 2 ^ (n - 1)})"
proof -
  have sv: "signed_value n (take_bit n v) = signed_value n v" for v
    using n by (cases n) (simp_all add: signed_value_def signed_take_bit_take_bit)
  have x': "take_bit n (uint x) = (take_bit n (uint l) - take_bit n (uint r) - uint b) mod 2 ^ n"
    unfolding x take_bit_eq_mod[of n "uint l"] take_bit_eq_mod[of n "uint r"]
    by (metis mod_diff_eq mod_diff_left_eq)
  have "uint b = 0 \<or> uint b = 1" using b uint_nonnegative[of b] by linarith
  then have *: "overflow_flag [int n, take_bit n (uint l), take_bit n (uint r), take_bit n (uint x)] True = Ok (of_bool
    (signed_value n (uint l) - signed_value n (uint r) - uint b \<notin> {- (2 ^ (n - 1)) ..< 2 ^ (n - 1)}))"
    using sub_overflow_signed[of "int n" "take_bit n (uint l)" "take_bit n (uint r)" "uint b" "take_bit n (uint x)"] n
    by (simp add: take_bit_lt sv x' del: overflow_flag.simps)
  have "overflow_flag [int n, take_bit n (uint l), take_bit n (uint r), take_bit n (uint x)] True
      = overflow_flag [int n, uint l, uint r, uint x] True"
    using overflow_flag_bits[of "int n" _ _ _ True] n by (simp add: bit_simps del: overflow_flag.simps)
  then show ?thesis
    using * sub_overflow_agrees[OF n, of l r x] by (simp only: spx_sbb_overflow_bits[OF n]) simp
qed

text \<open>The evaluator's answer is the opposite of the exact one for one subtrahend and borrow.\<close>

lemma sbb_overflow_value:
  assumes n: "0 < n" "n \<le> 32" and l: "0 \<le> l" "l < 2 ^ n" and r: "0 \<le> r" "r < 2 ^ n" and b: "b = 0 \<or> b = 1"
  shows "sbb_flag [int n, l, r, b, (l - r - b) mod 2 ^ n] True = Ok (of_bool
    ((signed_value n l - signed_value n r - b \<notin> {- (2 ^ (n - 1)) ..< 2 ^ (n - 1)}) \<noteq> (b = 1 \<and> r = 2 ^ (n - 1) - 1)))"
proof -
  obtain m where m: "n = Suc m" using n by (cases n) auto
  define h :: int where "h = 2 ^ m"
  define x where "x = (l - r - b) mod 2 ^ n"
  have h: "0 < h" "2 ^ n = 2 * h" by (simp_all add: h_def m)
  define d where "d = l - r - b"
  have d: "- (2 * h) \<le> d" "d < 2 * h" using l r b h by (auto simp: d_def)
  have x: "0 \<le> x" "x < 2 * h" "x = (if 0 \<le> d then d else d + 2 * h)"
    using d h mod_pos_pos_trivial[of d "2 * h"] mod_pos_pos_trivial[of "d + 2 * h" "2 * h"]
    by (auto simp: x_def d_def)
  define w where "w = int n"
  have w: "0 < w" "w \<le> 32" "nat w - 1 = m" "nat w = n" using n by (simp_all add: w_def m)
  have u: "bit (u32 v) m = bit v m" for v using n by (simp add: u32_take_bit bit_simps m)
  have top: "bit v m \<longleftrightarrow> h \<le> v" if "0 \<le> v" "v < 2 * h" for v
    using bit_top[of v m] that by (simp add: h_def)
  have "sbb_flag [int n, l, r, b, x] True = overflow_flag [int n, l, u32 (r + b), x] True"
    using n b by (auto simp: Let_def and_width_mask x_def take_bit_eq_mod simp del: overflow_flag.simps)
  also have "\<dots> = Ok (of_bool (bit l m \<noteq> bit (r + b) m \<and> bit l m \<noteq> bit x m))"
    using overflow_flag_bits[OF w(1,2), of l "u32 (r + b)" x True] unfolding w(3) u by (simp add: w_def del: overflow_flag.simps)
  finally have 1: "sbb_flag [int n, l, r, b, x] True = Ok (of_bool (bit l m \<noteq> bit (r + b) m \<and> bit l m \<noteq> bit x m))" .
  have xw: "x = (l - r - b) mod 2 ^ nat w" and lw: "l < 2 ^ nat w" and rw: "r < 2 ^ nat w"
    using l r by (simp_all only: x_def w(4))
  have ok: "Ok (of_bool p) = Ok (of_bool q :: int) \<Longrightarrow> p = q" for p q by (cases p; cases q; simp)
  have 2: "(signed_value n l - signed_value n r - b \<notin> {- (2 ^ (n - 1)) ..< 2 ^ (n - 1)})
      = (bit l m \<noteq> bit r m \<and> bit l m \<noteq> bit x m)"
    using trans[OF sub_overflow_signed[OF w(1,2) l(1) lw r(1) rw b xw, symmetric]
      overflow_flag_bits[OF w(1,2), of l r x True]] unfolding w(4)
    by (intro ok) (simp add: m)
  have "(bit l m \<noteq> bit (r + b) m \<and> bit l m \<noteq> bit x m) =
      ((bit l m \<noteq> bit r m \<and> bit l m \<noteq> bit x m) \<noteq> (b = 1 \<and> r = h - 1))"
  proof (cases "b = 0 \<or> r = 2 * h - 1")
    case True
    have "bit (2 * h) m = False" by (simp add: h_def bit_iff_odd)
    moreover have "x = l" if "b = 1" "r = 2 * h - 1" using x that l h by (auto simp: d_def)
    ultimately show ?thesis using True h b by auto
  next
    case False
    then have "bit (r + b) m \<longleftrightarrow> h \<le> r + 1" "b = 1" using top[of "r + b"] r b h by auto
    moreover have "x = (if 0 \<le> l - r - 1 then l - r - 1 else l - r - 1 + 2 * h)" using x(3) False b by (simp add: d_def)
    moreover have "bit l m \<longleftrightarrow> h \<le> l" "bit r m \<longleftrightarrow> h \<le> r" "bit x m \<longleftrightarrow> h \<le> x"
      using top[of l] top[of r] top[of x] l r h x(1,2) by auto
    moreover have "h \<le> r + 1 \<longleftrightarrow> h \<le> r" if "r \<noteq> h - 1" using that by linarith
    moreover have "\<not> h \<le> r" "h \<le> r + 1" "h \<le> x \<longleftrightarrow> \<not> h \<le> l" if "r = h - 1"
      using that calculation(2,3) l h by (simp_all split: if_split_asm)
    ultimately show ?thesis by (cases "r = h - 1") blast+
  qed
  then show ?thesis using 1 unfolding 2 x_def[symmetric] by (simp add: h_def m)
qed

text \<open>A shift by zero keeps the carry: the helper returns 0 and the evaluator reads an operand
  that the two-operand carry node does not have.\<close>

lemma shift_cf_zero_count_raises:
  assumes "0 < n" "n \<le> 32" "c AND 31 = 0"
  shows "shift_flag True (256 * int kind + int n) [v, c] = Raise Index_error"
proof -
  define aux where "aux = 256 * int kind + int n"
  have "aux AND 0xFF = int n"
    using assms by (simp add: aux_def mask_simps take_bit_eq_mod)
  then show ?thesis using assms by (simp add: shift_flag_def aux_def[symmetric] Let_def)
qed

lemma shift_of_left_raises:
  assumes "0 < n" "n \<le> 32" "c AND 31 = 1"
  shows "shift_flag False (int n) [v, c, result] = Raise Index_error"
proof -
  have "int n AND 0xFF = int n" "drop_bit 8 (int n) = 0"
    using assms by (simp_all add: mask_simps take_bit_eq_mod drop_bit_eq_div)
  then show ?thesis using assms by (simp add: shift_flag_def Let_def)
qed

lemma sar_diverges:
  "sar_word 0x80 1 8 = Ok 0xFFFFFFC0" "uint (spx_sar 8 0x80 1) = 0xC0"
  by code_simp+

lemma shift_cf_beyond_width_diverges:
  "shift_flag True (2 * 256 + 8) [0x80, 9] = Ok 1" "spx_shift_cf 2 8 0x80 9 = 0"
  by code_simp+

end
