(* ===== verification/Transfer_Operations.thy ===== *)
theory Transfer_Operations
  imports Transfer_Model "HOL-Library.Product_Lexorder"
begin

text \<open>
  The typed operation registry of \<open>transfer/operations.py\<close>: the tables of expressions, effects
  and terminators with their arities, the checks \<open>expression_operation_v2\<close> and
  \<open>action_operation_v2\<close> that a transfer plan passes, the native exceptions of effects and call
  sites, and the selection of runtime providers. Dictionaries built by the module are
  association lists in the order of the source.
\<close>

section \<open>Registry rows\<close>

record native_exception =
  ne_code :: int
  flags_mask :: int
  flags_value :: int
  parameter_count :: int
  continuable :: bool
  access_violation :: "(int \<times> int) option"

definition native_exception_payload :: "native_exception \<Rightarrow> json" where
  "native_exception_payload e = JObj
     [(''code'', JInt (ne_code e)), (''flags_mask'', JInt (flags_mask e)),
      (''flags_value'', JInt (flags_value e)), (''parameter_count'', JInt (parameter_count e)),
      (''continuable'', JBool (continuable e)),
      (''access_violation'',
        case access_violation e of None \<Rightarrow> JNull
        | Some (op_par, addr_par) \<Rightarrow>
            JObj [(''operation_parameter'', JInt op_par), (''address_parameter'', JInt addr_par)])]"

record core_operation =
  co_name :: opname
  category :: string
  result_sort :: "string option"
  width_bits :: "int option"
  minimum_arity :: int
  maximum_arity :: int
  co_exception :: "native_exception option"

definition validate_arity :: "core_operation \<Rightarrow> int \<Rightarrow> unit res" where
  "validate_arity row n =
     (if minimum_arity row \<le> n \<and> n \<le> maximum_arity row then Ok ()
      else Raise (Plan_error ''malformed_transfer_operation''))"

record provider_rule =
  provider :: string
  layer :: string
  always :: bool
  expression_operations :: "opname list"
  effect_operations :: "opname list"
  terminator_operations :: "opname list"
  features :: "string list"

definition provider_payload :: "provider_rule \<Rightarrow> json" where
  "provider_payload r = JObj
     [(''provider'', JStr (provider r)), (''layer'', JStr (layer r)), (''always'', JBool (always r)),
      (''expression_operations'', JList (map (JStr \<circ> op_name) (expression_operations r))),
      (''effect_operations'', JList (map (JStr \<circ> op_name) (effect_operations r))),
      (''terminator_operations'', JList (map (JStr \<circ> op_name) (terminator_operations r))),
      (''features'', JList (map JStr (features r)))]"

definition spec_row ::
  "opname \<Rightarrow> string \<Rightarrow> string option \<Rightarrow> int option \<Rightarrow> arity \<Rightarrow> native_exception option \<Rightarrow> core_operation"
  where
  "spec_row name cat rsort width ar ne =
     (case ar of Exact n \<Rightarrow>
        \<lparr>co_name = name, category = cat, result_sort = rsort, width_bits = width,
         minimum_arity = n, maximum_arity = n, co_exception = ne\<rparr>
      | Between lo hi \<Rightarrow>
        \<lparr>co_name = name, category = cat, result_sort = rsort, width_bits = width,
         minimum_arity = lo, maximum_arity = hi, co_exception = ne\<rparr>)"

section \<open>The tables\<close>

definition predicates_table :: "(opname \<times> arity) list" where
  "predicates_table =
    [(Pred Op_true, Exact 0), (Pred Op_false, Exact 0), (Pred Op_flag, Exact 0),
     (Pred Op_undefined_flag, Between 0 1), (Pred Op_call_flag, Exact 0),
     (Pred Op_ult32, Exact 2), (Pred Op_eq, Exact 2), (Pred Op_eq_bool, Exact 2),
     (Pred Op_xor_bool, Exact 2), (Pred Op_not, Exact 1), (Pred Op_and_bool, Between 1 5),
     (Pred Op_or_bool, Between 1 5), (Pred Op_parity, Exact 2),
     (Pred Op_add_overflow, Exact 4), (Pred Op_sub_overflow, Exact 4),
     (Pred Op_imul_overflow, Exact 5), (Pred Op_mul_carry, Exact 4),
     (Pred Op_udiv_valid32, Exact 3), (Pred Op_sbb_borrow, Exact 5),
     (Pred Op_sbb_overflow, Exact 5), (Pred Op_adc_carry, Exact 5),
     (Pred Op_adc_overflow, Exact 5), (Pred Op_shift_cf, Exact 2), (Pred Op_shift_of, Exact 3),
     (Pred Op_fpu_pending_exception, Exact 0)]"

definition words_table :: "(opname \<times> arity) list" where
  "words_table =
    [(Word Op_const, Exact 0), (Word Op_reg, Exact 0), (Word Op_fs_base, Exact 0),
     (Word Op_undefined_bv, Between 0 1), (Word Op_call_response, Exact 0),
     (Word Op_load, Exact 1), (Word Op_sub32, Exact 2), (Word Op_add32, Between 2 4),
     (Word Op_mul32, Between 2 4), (Word Op_xor32, Between 2 4), (Word Op_and32, Between 2 4),
     (Word Op_or32, Between 2 4), (Word Op_not32, Exact 1), (Word Op_neg32, Exact 1),
     (Word Op_shl32, Exact 2), (Word Op_lshr32, Exact 2), (Word Op_sar, Exact 3),
     (Word Op_sign_extend, Exact 2), (Word Op_ite, Exact 3), (Word Op_msb, Between 1 2),
     (Word Op_bool_to_bit, Exact 1), (Word Op_imul_low32, Exact 2),
     (Word Op_mul_low32, Exact 2), (Word Op_imul_high32, Exact 2),
     (Word Op_mul_high32, Exact 2), (Word Op_udiv_quot32, Exact 3),
     (Word Op_udiv_rem32, Exact 3), (Word Op_bsr_index, Exact 2), (Word Op_tzcnt, Exact 2),
     (Word Op_fpu_control, Exact 0), (Word Op_fpu_control_init, Exact 0),
     (Word Op_fpu_status, Exact 0), (Word Op_fpu_status_init, Exact 0),
     (Word Op_fpu_tag, Exact 0), (Word Op_fpu_last_opcode, Exact 0),
     (Word Op_fpu_instruction_pointer, Exact 0), (Word Op_fpu_code_selector, Exact 0),
     (Word Op_fpu_data_pointer, Exact 0), (Word Op_fpu_data_selector, Exact 0),
     (Word Op_fpu_control_load, Exact 1), (Word Op_fpu_control_word, Exact 1),
     (Word Op_fpu_status_word, Exact 1)]"

definition effects_table :: "(opname \<times> arity) list" where
  "effects_table =
    [(Eff Op_eval_word, Exact 1), (Eff Op_memory_write, Exact 2), (Eff Op_divide_if, Exact 1),
     (Eff Op_access_violation_if, Exact 3), (Eff Op_call, Exact 1),
     (Eff Op_rep_movsd, Exact 4), (Eff Op_rep_movs, Exact 4), (Eff Op_rep_stosd, Exact 4),
     (Eff Op_rep_stos, Exact 4), (Eff Op_rep_scas, Exact 4), (Eff Op_set_reg, Exact 1),
     (Eff Op_set_flag, Exact 1), (Eff Op_sync_eflags, Exact 0), (Eff Op_typed_x87, Exact 1),
     (Eff Op_atomic_compare_exchange, Exact 4), (Eff Op_atomic_exchange, Exact 3)]"

definition terminators_table :: "(opname \<times> arity) list" where
  "terminators_table =
    [(Term Op_outcome_fallthrough, Exact 1), (Term Op_outcome_jump, Exact 1),
     (Term Op_outcome_branch, Exact 3), (Term Op_outcome_return, Exact 1),
     (Term Op_outcome_indirect, Exact 1), (Term Op_outcome_nonlocal, Exact 2),
     (Term Op_outcome_external, Exact 0)]"

text \<open>The operation a name of the source denotes; every other name is \<open>Op_other\<close>.\<close>

definition registry_operations :: "opname list" where
  "registry_operations =
     map fst (predicates_table @ words_table @ effects_table @ terminators_table)"

definition op_of_name :: "string \<Rightarrow> opname" where
  "op_of_name name =
     (case find (\<lambda>oper. op_name oper = name) registry_operations of None \<Rightarrow> Op_other name | Some oper \<Rightarrow> oper)"

definition expression_operations_v2 :: "(opname \<times> core_operation) list" where
  "expression_operations_v2 =
     map (\<lambda>(name, ar). (name, spec_row name ''expression'' (Some ''predicate'') (Some 1) ar None))
       predicates_table
     @ map (\<lambda>(name, ar). (name, spec_row name ''expression'' (Some ''bitvector'') (Some 32) ar None))
       words_table"

definition native_effect_exception_v2 :: "opname \<Rightarrow> native_exception option" where
  "native_effect_exception_v2 name =
     (if name = Eff Op_divide_if then
        Some \<lparr>ne_code = 0xC0000094, flags_mask = 1, flags_value = 0, parameter_count = 0,
              continuable = True, access_violation = None\<rparr>
      else if name = Eff Op_access_violation_if then
        Some \<lparr>ne_code = 0xC0000005, flags_mask = 1, flags_value = 0, parameter_count = 2,
              continuable = True, access_violation = Some (0, 1)\<rparr>
      else None)"

definition effect_operations_v2 :: "(opname \<times> core_operation) list" where
  "effect_operations_v2 =
     map (\<lambda>(name, ar).
       (name, spec_row name ''effect'' None None ar (native_effect_exception_v2 name))) effects_table"

definition native_exception_effects_v2 :: "string list" where
  "native_exception_effects_v2 =
     map (op_name \<circ> fst) (filter (\<lambda>(name, row). co_exception row \<noteq> None) effect_operations_v2)"

definition terminator_operations_v2 :: "(opname \<times> core_operation) list" where
  "terminator_operations_v2 =
     map (\<lambda>(name, ar). (name, spec_row name ''terminator'' None None ar None)) terminators_table"

section \<open>Checks\<close>

definition expression_operation_v2 :: "node \<Rightarrow> core_operation res" where
  "expression_operation_v2 nd =
     (case map_of expression_operations_v2 (node_op nd) of
        None \<Rightarrow> Raise (Plan_error ''unsupported_transfer_operation'')
      | Some row \<Rightarrow> bind (validate_arity row (int (length (node_args nd)))) (\<lambda>_.
          if node_op nd = Word Op_load \<and> node_aux nd \<notin> {1, 2, 4}
          then Raise (Plan_error ''malformed_transfer_width'') else Ok row))"

definition action_operation_v2 :: "action \<Rightarrow> bool \<Rightarrow> core_operation res" where
  "action_operation_v2 a is_terminator =
     (case map_of (if is_terminator then terminator_operations_v2 else effect_operations_v2) (act_op a) of
        None \<Rightarrow> Raise (Plan_error ''unsupported_transfer_operation'')
      | Some row \<Rightarrow> bind (validate_arity row (int (length (act_args a)))) (\<lambda>_.
          if act_op a \<in> {Eff Op_memory_write, Eff Op_rep_movs, Eff Op_rep_stos, Eff Op_rep_scas,
                         Eff Op_atomic_compare_exchange, Eff Op_atomic_exchange}
             \<and> act_aux a \<notin> {1, 2, 4}
          then Raise (Plan_error ''malformed_transfer_width'') else Ok row))"

text \<open>The registry's canonical payload, sorted by category and name.\<close>

definition operation_row_payload :: "core_operation \<Rightarrow> json" where
  "operation_row_payload row = JObj
     [(''name'', JStr (op_name (co_name row))), (''category'', JStr (category row)),
      (''result_sort'', case result_sort row of None \<Rightarrow> JNull | Some s \<Rightarrow> JStr s),
      (''width_bits'', case width_bits row of None \<Rightarrow> JNull | Some n \<Rightarrow> JInt n),
      (''minimum_arity'', JInt (minimum_arity row)), (''maximum_arity'', JInt (maximum_arity row)),
      (''native_exception'',
        case co_exception row of None \<Rightarrow> JNull | Some e \<Rightarrow> native_exception_payload e)]"

definition operation_registry_payload_v2 :: "json list" where
  "operation_registry_payload_v2 =
     map operation_row_payload
       (sort_key (\<lambda>row. (category row, op_name (co_name row)))
         (map snd (expression_operations_v2 @ effect_operations_v2 @ terminator_operations_v2)))"

section \<open>Runtime providers\<close>

definition mk_rule ::
  "string \<Rightarrow> string \<Rightarrow> bool \<Rightarrow> opname list \<Rightarrow> opname list \<Rightarrow> opname list \<Rightarrow> string list \<Rightarrow> provider_rule"
  where
  "mk_rule p l alw es fs ts feats =
     \<lparr>provider = p, layer = l, always = alw, expression_operations = es,
      effect_operations = fs, terminator_operations = ts, features = feats\<rparr>"

definition runtime_provider_rules_v2 :: "provider_rule list" where
  "runtime_provider_rules_v2 =
    [mk_rule ''checked_memory'' ''transfer_plan'' True
         []
         [] [] [],
     mk_rule ''checked_outcomes'' ''transfer_plan'' True
         []
         [] [] [],
     mk_rule ''checked_calls'' ''transfer_plan'' False
         []
         [Eff Op_call] [] [''calls''],
     mk_rule ''typed_x87'' ''transfer_plan'' False
         []
         [Eff Op_typed_x87] [] [],
     mk_rule ''checked_atomics'' ''transfer_plan'' False
         []
         [Eff Op_atomic_compare_exchange, Eff Op_atomic_exchange] [] [],
     mk_rule ''memory.read'' ''behavioral_c'' False
         [Word Op_load]
         [Eff Op_memory_write, Eff Op_rep_movsd, Eff Op_rep_movs, Eff Op_rep_stosd,
          Eff Op_rep_stos, Eff Op_rep_scas] [] [],
     mk_rule ''memory.write'' ''behavioral_c'' False
         []
         [Eff Op_memory_write, Eff Op_rep_movsd, Eff Op_rep_movs, Eff Op_rep_stosd,
          Eff Op_rep_stos, Eff Op_rep_scas] [] [],
     mk_rule ''call.dispatch'' ''behavioral_c'' False
         []
         [Eff Op_call] [] [''calls''],
     mk_rule ''atomic.rmw'' ''behavioral_c'' False
         []
         [Eff Op_atomic_compare_exchange, Eff Op_atomic_exchange] [] [],
     mk_rule ''x87.typed_exact'' ''behavioral_c'' False
         []
         [Eff Op_typed_x87] [] [],
     mk_rule ''definedness.choice'' ''behavioral_c'' False
         [Word Op_undefined_bv, Pred Op_undefined_flag]
         [] [] [],
     mk_rule ''code_target.resolve'' ''behavioral_c'' False
         []
         [] [Term Op_outcome_indirect] [],
     mk_rule ''outcome.nonlocal'' ''behavioral_c'' False
         []
         [] [Term Op_outcome_nonlocal] [],
     mk_rule ''exception.access_violation'' ''behavioral_c'' False
         []
         [Eff Op_access_violation_if] [] []]"

definition runtime_provider_catalog_payload_v2 :: "json list" where
  "runtime_provider_catalog_payload_v2 =
     map provider_payload
       (sort_key (\<lambda>row. (layer row, provider row)) runtime_provider_rules_v2)"

text \<open>
  One transfer triggers a rule by an expression, an effect, its last action or a feature. The
  action operations include the terminator, as in the source.
\<close>

definition transfer_features :: "transfer \<Rightarrow> string list" where
  "transfer_features t =
     (if calls t \<noteq> [] then [''calls''] else [])
     @ (if x87_operations t \<noteq> [] then [''x87_intrinsics''] else [])"

definition rule_triggered :: "provider_rule \<Rightarrow> transfer \<Rightarrow> bool" where
  "rule_triggered rule t =
     ((\<exists>nd\<in>set (nodes t). node_op nd \<in> set (expression_operations rule))
      \<or> (\<exists>a\<in>set (actions t). act_op a \<in> set (effect_operations rule))
      \<or> (actions t \<noteq> [] \<and> act_op (last (actions t)) \<in> set (terminator_operations rule))
      \<or> (\<exists>f\<in>set (transfer_features t). f \<in> set (features rule)))"

definition runtime_provider_requirements_v2 :: "transfer list \<Rightarrow> string \<Rightarrow> string list res" where
  "runtime_provider_requirements_v2 transfers lay =
     (let rules = filter (\<lambda>row. layer row = lay) runtime_provider_rules_v2
      in if rules = [] then Raise (Plan_error ''unsupported_runtime_provider_layer'')
         else Ok (sort (remdups (map provider
                (filter (\<lambda>row. always row \<or> (\<exists>t\<in>set transfers. rule_triggered row t)) rules)))))"

section \<open>Native exceptions of a call site\<close>

definition call_native_exception_fault_payload_v3 ::
  "string \<Rightarrow> json \<Rightarrow> json \<Rightarrow> json \<Rightarrow> json \<Rightarrow> json res" where
  "call_native_exception_fault_payload_v3 kind event_index rva oper exception_index =
     (let bad = Raise (Plan_error ''call_exception_occurrence_invalid'');
          check = (\<lambda>v. case v of JInt n \<Rightarrow> 0 \<le> n | _ \<Rightarrow> False)
      in if kind \<notin> {''external_call'', ''indirect_call''} then bad
         else if (case oper of JStr s \<Rightarrow> s = [] | _ \<Rightarrow> True) then bad
         else if \<not> check event_index \<or> \<not> check rva \<or> \<not> check exception_index then bad
         else Ok (JObj
           [(''kind'', JStr ''call_native_exception''),
            (''condition'', JObj [(''op'', JStr ''true'')]),
            (''instruction_rva'', rva), (''call_kind'', JStr kind),
            (''event_index'', event_index), (''operation'', oper),
            (''exception_index'', exception_index)]))"

fun nonempty_strings :: "json list \<Rightarrow> string list" where
  "nonempty_strings [] = []"
| "nonempty_strings (JStr s # xs) = (if s = [] then nonempty_strings xs else s # nonempty_strings xs)"
| "nonempty_strings (_ # xs) = nonempty_strings xs"

text \<open>
  The operations authorised at a call site: a sorted list of distinct names of effects with
  native-exception metadata, and only on external or indirect calls. \<open>strict_list\<close> refuses a
  value that is not a list, which is otherwise read as the empty list.
\<close>

definition native_exception_operations_for_call_v2 :: "members \<Rightarrow> bool \<Rightarrow> string list res" where
  "native_exception_operations_for_call_v2 site strict_list =
     (let value = (if jhas site ''native_exception_operations''
                   then jget site ''native_exception_operations'' else JList [])
      in bind (case value of JList xs \<Rightarrow> Ok xs
               | _ \<Rightarrow> if strict_list then malformed else Ok []) (\<lambda>raw.
         let ops = nonempty_strings raw in
         if length ops \<noteq> length raw then malformed
         else if ops \<noteq> sort (remdups ops)
           then Raise (Plan_error ''malformed_external_call_exception_inventory'')
         else if \<exists>name\<in>set ops. name \<notin> set native_exception_effects_v2
           then Raise (Plan_error ''unsupported_external_call_exception'')
         else if ops \<noteq> [] \<and> jget site ''kind'' \<notin> {JStr ''external_call'', JStr ''indirect_call''}
           then Raise (Plan_error ''malformed_external_call_exception_inventory'')
         else Ok ops))"

end
