(* ===== verification/Transfer_Plan.thy ===== *)
theory Transfer_Plan
  imports Transfer_Operations
begin

text \<open>
  The serialized form of transfers (\<open>transfer/plan.py\<close>): \<open>_transfer_payload\<close> writes a transfer as a
  document, \<open>_transfer_from_payload\<close> reads and validates one, with the node, action, call, exception
  and x87 rows they are made of, and \<open>_direct_edges\<close> derives the control edges. Every \<open>raise\<close> is an
  error value that carries the code of the exception. The SHA-256 of a text is the parameter \<open>sha\<close>.

  \<open>row["key"]\<close> on a dictionary is \<open>jitem\<close>; the identifiers are compared with Python's \<open>==\<close>, so
  \<open>true\<close> is accepted for the index 1.
\<close>

section \<open>Shared readers\<close>

definition malformed_plan :: "'a res" where
  "malformed_plan = Raise (Plan_error ''malformed_executable_transfer_plan'')"

definition malformed_reference :: "'a res" where
  "malformed_reference = Raise (Plan_error ''malformed_transfer_node_reference'')"

definition malformed_occurrence :: "'a res" where
  "malformed_occurrence = Raise (Plan_error ''malformed_exception_occurrence_inventory'')"

definition indexed :: "(int \<Rightarrow> 'a \<Rightarrow> 'b res) \<Rightarrow> 'a list \<Rightarrow> 'b list res" where
  "indexed f xs = mapM (\<lambda>(i, x). f (int i) x) (enumerate 0 xs)"

definition int_tuple :: "json \<Rightarrow> int list res" where
  "int_tuple v = bind (list_field v) (mapM nonnegative)"

fun stack_triple :: "int list \<Rightarrow> (int \<times> int \<times> int) res" where
  "stack_triple [offset, width, value_node] =
     (if width \<in> {1, 2, 4} then Ok (offset, width, value_node)
      else Raise (Plan_error ''malformed_transfer_width''))"
| "stack_triple _ = Raise (Plan_error ''malformed_transfer_width'')"

definition stack_input :: "json \<Rightarrow> (int \<times> int \<times> int) res" where
  "stack_input v = bind (int_tuple v) stack_triple"

definition parameters :: "json \<Rightarrow> string list \<Rightarrow> members res" where
  "parameters v expected =
     bind (object_field v) (\<lambda>ms. if has_fields ms expected then Ok ms else malformed_plan)"

definition optional_field :: "(json \<Rightarrow> 'a res) \<Rightarrow> json \<Rightarrow> 'a option res" where
  "optional_field f v = (if v = JNull then Ok None else bind (f v) (\<lambda>x. Ok (Some x)))"

definition optional_string :: "json \<Rightarrow> string option res" where
  "optional_string v = optional_field string_field v"

section \<open>Nodes\<close>

definition node_payload :: "int \<Rightarrow> node \<Rightarrow> json res" where
  "node_payload index row =
     bind (expression_operation_v2 row) (\<lambda>spec. Ok (JObj
       [(''id'', JInt index), (''op'', JStr (op_name (node_op row))),
        (''operands'', JList (map JInt (node_args row))),
        (''result_sort'', opt_str (result_sort spec)), (''width_bits'', opt_int (width_bits spec)),
        (''parameters'', JObj [(''aux'', JInt (node_aux row)), (''immediate'', JInt (node_immediate row)),
           (''identity'', opt_str (node_identity row))])]))"

definition read_node :: "members \<Rightarrow> node res" where
  "read_node v =
     bind (parameters (jget v ''parameters'') [''aux'', ''immediate'', ''identity'']) (\<lambda>ps.
     bind (string_field (jget v ''op'')) (\<lambda>name.
     bind (int_tuple (jget v ''operands'')) (\<lambda>args.
     bind (nonnegative (jget ps ''aux'')) (\<lambda>aux.
     bind (nonnegative (jget ps ''immediate'')) (\<lambda>imm.
     bind (optional_string (jget ps ''identity'')) (\<lambda>ident.
       Ok \<lparr>node_op = op_of_name name, node_args = args, node_aux = aux, node_immediate = imm,
           node_identity = ident\<rparr>))))))"

definition is_undefined_node :: "node \<Rightarrow> bool" where
  "is_undefined_node nd \<longleftrightarrow> node_op nd = Word Op_undefined_bv \<or> node_op nd = Pred Op_undefined_flag"

definition node_from_payload :: "int \<Rightarrow> json \<Rightarrow> node res" where
  "node_from_payload index raw =
     bind (object_field raw) (\<lambda>v.
       if \<not> has_fields v [''id'', ''op'', ''operands'', ''result_sort'', ''width_bits'', ''parameters'']
          \<or> \<not> py_eq (jget v ''id'') (JInt index) then malformed_plan
       else bind (read_node v) (\<lambda>nd.
         bind (expression_operation_v2 nd) (\<lambda>spec.
         if \<not> py_eq (jget v ''result_sort'') (opt_str (result_sort spec))
            \<or> \<not> py_eq (jget v ''width_bits'') (opt_int (width_bits spec))
         then Raise (Plan_error ''malformed_transfer_type'')
         else if is_undefined_node nd \<noteq> (node_identity nd \<noteq> None)
         then Raise (Plan_error ''malformed_transfer_undefined_identity'')
         else if \<exists>operand\<in>set (node_args nd). operand \<ge> index then malformed_reference
         else Ok nd)))"

section \<open>Actions\<close>

definition action_payload :: "int \<Rightarrow> action \<Rightarrow> json res" where
  "action_payload index row =
     bind (action_operation_v2 row False) (\<lambda>_. Ok (JObj
       [(''id'', JInt index), (''op'', JStr (op_name (act_op row))),
        (''operands'', JList (map JInt (act_args row))), (''parameters'', JObj [(''aux'', JInt (act_aux row))])]))"

definition terminator_payload :: "action \<Rightarrow> json res" where
  "terminator_payload row =
     bind (action_operation_v2 row True) (\<lambda>_. Ok (JObj
       [(''op'', JStr (op_name (act_op row))), (''operands'', JList (map JInt (act_args row))),
        (''parameters'', JObj [(''aux'', JInt (act_aux row))])]))"

definition read_action :: "members \<Rightarrow> action res" where
  "read_action v =
     bind (parameters (jget v ''parameters'') [''aux'']) (\<lambda>ps.
     bind (string_field (jget v ''op'')) (\<lambda>name.
     bind (int_tuple (jget v ''operands'')) (\<lambda>args.
     bind (nonnegative (jget ps ''aux'')) (\<lambda>aux.
       Ok \<lparr>act_op = op_of_name name, act_args = args, act_aux = aux\<rparr>))))"

text \<open>The operands of a terminator that name expressions; the others are addresses.\<close>

definition outcome_references :: "action \<Rightarrow> int list" where
  "outcome_references a =
     (if act_op a = Term Op_outcome_branch then take 1 (act_args a)
      else if act_op a \<in> {Term Op_outcome_return, Term Op_outcome_indirect, Term Op_outcome_nonlocal}
      then act_args a else [])"

definition terminator_from_payload :: "int \<Rightarrow> json \<Rightarrow> action res" where
  "terminator_from_payload expression_count raw =
     bind (object_field raw) (\<lambda>v.
       if \<not> has_fields v [''op'', ''operands'', ''parameters''] then malformed_plan
       else bind (read_action v) (\<lambda>a.
         bind (action_operation_v2 a True) (\<lambda>_.
         if \<exists>reference\<in>set (outcome_references a). reference \<ge> expression_count then malformed_reference
         else Ok a)))"

definition effect_from_payload :: "int \<Rightarrow> int \<Rightarrow> int \<Rightarrow> int \<Rightarrow> json \<Rightarrow> action res" where
  "effect_from_payload expression_count call_count x87_count index raw =
     bind (object_field raw) (\<lambda>v.
       if \<not> has_fields v [''id'', ''op'', ''operands'', ''parameters'']
          \<or> \<not> py_eq (jget v ''id'') (JInt index) then malformed_plan
       else bind (read_action v) (\<lambda>a.
         bind (action_operation_v2 a False) (\<lambda>_.
         if act_op a = Eff Op_call then
           bind (py_index (act_args a) 0) (\<lambda>k.
             if k \<ge> call_count then Raise (Plan_error ''malformed_transfer_call_reference'') else Ok a)
         else if act_op a = Eff Op_typed_x87 then
           bind (py_index (act_args a) 0) (\<lambda>k.
             if k \<ge> x87_count then Raise (Plan_error ''malformed_transfer_x87_reference'') else Ok a)
         else if \<exists>reference\<in>set (act_args a). reference \<ge> expression_count then malformed_reference
         else Ok a)))"

section \<open>Call sites\<close>

definition stack_input_payload :: "int \<times> int \<times> int \<Rightarrow> json" where
  "stack_input_payload = (\<lambda>(offset, width, value_node). JList [JInt offset, JInt width, JInt value_node])"

definition call_fields :: "string list" where
  "call_fields =
     [''id'', ''kind'', ''instruction_rva'', ''event_index'', ''target_node'', ''target_rva'',
      ''return_rva'', ''dll'', ''symbol'', ''ordinal'', ''register_nodes'', ''flag_nodes'',
      ''argument_nodes'', ''stack_inputs'']"

definition call_payload :: "int \<Rightarrow> call \<Rightarrow> json" where
  "call_payload index row = JObj
     ([(''id'', JInt index), (''kind'', JStr (call_kind row)),
       (''instruction_rva'', JInt (instruction_rva row)), (''event_index'', JInt (call_index row)),
       (''target_node'', opt_int (target_node row)), (''target_rva'', JInt (call_target_rva row)),
       (''return_rva'', JInt (return_rva row)), (''dll'', opt_str (dll row)),
       (''symbol'', opt_str (symbol row)), (''ordinal'', opt_int (ordinal row)),
       (''register_nodes'', JList (map JInt (register_nodes row))),
       (''flag_nodes'', JList (map JInt (flag_nodes row))),
       (''argument_nodes'', JList (map JInt (argument_nodes row))),
       (''stack_inputs'', JList (map stack_input_payload (stack_inputs row)))]
      @ (if native_exception_operations row \<noteq> []
         then [(''native_exception_operations'', JList (map JStr (native_exception_operations row)))] else []))"

definition call_node_references :: "call \<Rightarrow> int list" where
  "call_node_references c =
     (case target_node c of None \<Rightarrow> [] | Some n \<Rightarrow> [n]) @ register_nodes c @ flag_nodes c @ argument_nodes c
     @ map (\<lambda>(_, _, n). n) (stack_inputs c)"

definition call_from_payload :: "int \<Rightarrow> int \<Rightarrow> json \<Rightarrow> call res" where
  "call_from_payload expression_count index raw =
     bind (object_field raw) (\<lambda>v.
       if \<not> set call_fields \<subseteq> set (map fst v)
          \<or> \<not> set (map fst v) \<subseteq> set call_fields \<union> {''native_exception_operations''}
          \<or> \<not> py_eq (jget v ''id'') (JInt index) then malformed_plan
       else
         bind (optional_field nonnegative (jget v ''target_node'')) (\<lambda>target.
         bind (int_tuple (jget v ''register_nodes'')) (\<lambda>regs.
         bind (int_tuple (jget v ''flag_nodes'')) (\<lambda>flgs.
         if length regs \<noteq> length registers_table \<or> length flgs \<noteq> length flags_table
         then Raise (Plan_error ''malformed_transfer_call_frame'')
         else
         bind (int_tuple (jget v ''argument_nodes'')) (\<lambda>args.
         bind (bind (list_field (jget v ''stack_inputs'')) (mapM stack_input)) (\<lambda>stack.
         if \<exists>reference\<in>set ((case target of None \<Rightarrow> [] | Some n \<Rightarrow> [n]) @ regs @ flgs @ args
                             @ map (\<lambda>(_, _, n). n) stack). reference \<ge> expression_count
         then malformed_reference
         else
         bind (string_field (jget v ''kind'')) (\<lambda>k.
         bind (native_exception_operations_for_call_v2 v True) (\<lambda>native_ops.
         bind (u32_field (jget v ''instruction_rva'')) (\<lambda>rva.
         bind (nonnegative (jget v ''event_index'')) (\<lambda>event.
         bind (u32_field (jget v ''target_rva'')) (\<lambda>target_addr.
         bind (u32_field (jget v ''return_rva'')) (\<lambda>ret.
         bind (optional_string (jget v ''dll'')) (\<lambda>d.
         bind (optional_string (jget v ''symbol'')) (\<lambda>sym.
         bind (optional_field nonnegative (jget v ''ordinal'')) (\<lambda>ord.
           Ok \<lparr>call_kind = k, instruction_rva = rva, call_index = event, target_node = target,
               call_target_rva = target_addr, return_rva = ret, dll = d, symbol = sym, ordinal = ord,
               register_nodes = regs, flag_nodes = flgs, argument_nodes = args, stack_inputs = stack,
               native_exception_operations = native_ops\<rparr>)))))))))))))))"

section \<open>x87 intrinsics\<close>

definition x87_payload :: "int \<Rightarrow> x87_program \<Rightarrow> json" where
  "x87_payload index row = JObj
     [(''id'', JInt index), (''contract_sha256'', JStr (xp_contract_sha256 row)),
      (''image_base'', JInt (xp_image_base row)), (''rva_start'', JInt (xp_rva_start row)),
      (''rva_end'', JInt (xp_rva_end row)), (''operation'', JObj (x87_operation_payload (xp_operation row))),
      (''checked_decoder'', JStr (xp_checked_decoder row)),
      (''checked_executor'', JStr (xp_checked_executor row))]"

definition x87_from_payload :: "(string \<Rightarrow> string) \<Rightarrow> int \<Rightarrow> json \<Rightarrow> x87_program res" where
  "x87_from_payload sha index raw =
     bind (object_field raw) (\<lambda>v.
       if \<not> has_fields v [''id'', ''contract_sha256'', ''image_base'', ''rva_start'', ''rva_end'',
                          ''operation'', ''checked_decoder'', ''checked_executor'']
          \<or> \<not> py_eq (jget v ''id'') (JInt index) then malformed_plan
       else
         bind (u32_field (jget v ''image_base'')) (\<lambda>base.
         bind (object_field (jget v ''operation'')) (\<lambda>opms.
         bind (typed_x87_operation_from_payload sha opms base) (\<lambda>oper.
         bind (u32_field (jget v ''rva_start'')) (\<lambda>rva.
         bind (u32_field (jget v ''rva_end'')) (\<lambda>rva_end.
         if rva_end \<le> rva then malformed_plan
         else
         bind (sha256_field (jget v ''contract_sha256'')) (\<lambda>contract.
         bind (string_field (jget v ''checked_decoder'')) (\<lambda>dec.
         bind (string_field (jget v ''checked_executor'')) (\<lambda>exec.
           Ok \<lparr>xp_contract_sha256 = contract, xp_image_base = base, xp_rva_start = rva, xp_rva_end = rva_end,
               xp_operation = oper, xp_checked_decoder = dec, xp_checked_executor = exec\<rparr>)))))))))"

section \<open>Exception occurrences\<close>

definition occurrence_payload :: "exception_occurrence \<Rightarrow> json" where
  "occurrence_payload row = JObj
     [(''fault_index'', JInt (fault_index row)), (''fault_sha256'', JStr (fault_sha256 row)),
      (''occurrence_kind'', JStr (occurrence_kind row)), (''effect_index'', JInt (effect_index row)),
      (''operation'', JStr (eo_operation row)), (''call_id'', opt_int (call_id row)),
      (''call_event_index'', opt_int (call_event_index row))]"

definition occurrence_valid :: "action \<Rightarrow> call list \<Rightarrow> int \<Rightarrow> exception_occurrence \<Rightarrow> bool" where
  "occurrence_valid eff cs index row =
     (if occurrence_kind row = ''effect'' then
        call_id row = None \<and> call_event_index row = None \<and> op_name (act_op eff) = eo_operation row
        \<and> eo_operation row \<in> set native_exception_effects_v2 \<and> act_aux eff = index
      else if occurrence_kind row = ''call'' then
        (case (call_id row, call_event_index row) of
           (Some k, Some event) \<Rightarrow>
             0 \<le> k \<and> k < int (length cs) \<and> act_op eff = Eff Op_call \<and> act_args eff = [k]
             \<and> call_index (cs ! nat k) = event
             \<and> eo_operation row \<in> set (native_exception_operations (cs ! nat k))
         | _ \<Rightarrow> False)
      else False)"

definition occurrence_from_payload ::
  "action list \<Rightarrow> call list \<Rightarrow> int \<Rightarrow> json \<Rightarrow> exception_occurrence res" where
  "occurrence_from_payload effs cs index raw =
     bind (object_field raw) (\<lambda>v.
       if \<not> has_fields v [''fault_index'', ''fault_sha256'', ''occurrence_kind'', ''effect_index'',
                          ''operation'', ''call_id'', ''call_event_index'']
          \<or> \<not> py_eq (jget v ''fault_index'') (JInt index) then malformed_occurrence
       else
         bind (string_field (jget v ''occurrence_kind'')) (\<lambda>k.
         bind (nonnegative (jget v ''effect_index'')) (\<lambda>eff_index.
         bind (string_field (jget v ''operation'')) (\<lambda>oper.
         bind (optional_field nonnegative (jget v ''call_id'')) (\<lambda>cid.
         bind (optional_field nonnegative (jget v ''call_event_index'')) (\<lambda>event.
         if eff_index \<ge> int (length effs) then malformed_occurrence
         else let row = \<lparr>fault_index = index, fault_sha256 = [], occurrence_kind = k,
                         effect_index = eff_index, eo_operation = oper, call_id = cid,
                         call_event_index = event\<rparr> in
         if \<not> occurrence_valid (effs ! nat eff_index) cs index row then malformed_occurrence
         else bind (sha256_field (jget v ''fault_sha256'')) (\<lambda>digest.
           Ok (row\<lparr>fault_sha256 := digest\<rparr>))))))))"

definition expected_occurrences :: "action list \<Rightarrow> call list \<Rightarrow> nat" where
  "expected_occurrences effs cs =
     length (filter (\<lambda>a. op_name (act_op a) \<in> set native_exception_effects_v2) effs)
     + sum_list (map (\<lambda>c. length (native_exception_operations c)) cs)"

section \<open>Transfers\<close>

definition source_fields :: "string list" where
  "source_fields =
     [''rva_start'', ''rva_end'', ''unit_ir_sha256'', ''contract_sha256'', ''instruction_bytes_sha256'']"

definition source_payload :: "transfer \<Rightarrow> members \<Rightarrow> members res" where
  "source_payload row binding =
     bind (jitem binding ''rva_end'') (\<lambda>rva_end.
     bind (jitem binding ''unit_ir_sha256'') (\<lambda>unit_ir.
     bind (mapM (\<lambda>k. bind (jitem binding k) (\<lambda>v. Ok (k, v))) source_fields) (\<lambda>expected.
       let source = [(''rva_start'', JInt (rva_start row)), (''rva_end'', rva_end),
                     (''unit_ir_sha256'', unit_ir), (''contract_sha256'', JStr (contract_sha256 row)),
                     (''instruction_bytes_sha256'', JStr (instruction_bytes_sha256 row))]
       in if py_eq (JObj source) (JObj expected) then Ok source
          else Raise (Plan_error ''transfer_source_binding_mismatch''))))"

definition transfer_payload :: "transfer \<Rightarrow> members \<Rightarrow> members res" where
  "transfer_payload row binding =
     (if actions row = [] then Raise (Plan_error ''missing_transfer_terminator'')
      else if x87_nodes row \<noteq> [] then Raise (Plan_error ''legacy_x87_expression_unavailable'')
      else bind (source_payload row binding) (\<lambda>source.
           bind (indexed node_payload (nodes row)) (\<lambda>expressions.
           bind (indexed action_payload (butlast (actions row))) (\<lambda>effs.
           bind (indexed (\<lambda>i c. Ok (call_payload i c)) (calls row)) (\<lambda>cs.
           bind (indexed (\<lambda>i x. Ok (x87_payload i x)) (x87_operations row)) (\<lambda>xs.
           bind (terminator_payload (last (actions row))) (\<lambda>term.
             Ok [(''identity'', JStr (identity row)), (''source'', JObj source),
                 (''expressions'', JList expressions), (''effects'', JList effs), (''calls'', JList cs),
                 (''exception_occurrences'', JList (map occurrence_payload (exception_occurrences row))),
                 (''x87_intrinsics'', JList xs), (''terminator'', term)])))))))"

definition read_source :: "members \<Rightarrow> int res" where
  "read_source source =
     (if \<not> has_fields source source_fields then malformed_plan
      else bind (u32_field (jget source ''rva_start'')) (\<lambda>rva.
           bind (u32_field (jget source ''rva_end'')) (\<lambda>rva_end.
           bind (sha256_field (jget source ''unit_ir_sha256'')) (\<lambda>_.
             if rva_end \<le> rva then malformed_plan else Ok rva))))"

definition read_rows :: "(int \<Rightarrow> json \<Rightarrow> 'a res) \<Rightarrow> json \<Rightarrow> 'a list res" where
  "read_rows f v = bind (list_field v) (indexed f)"

definition transfer_from_payload :: "(string \<Rightarrow> string) \<Rightarrow> members \<Rightarrow> transfer res" where
  "transfer_from_payload sha row =
     (if \<not> has_fields row [''identity'', ''source'', ''expressions'', ''effects'', ''calls'',
                           ''exception_occurrences'', ''x87_intrinsics'', ''terminator''] then malformed_plan
      else
        bind (object_field (jget row ''source'')) (\<lambda>source.
        bind (read_source source) (\<lambda>rva.
        bind (read_rows node_from_payload (jget row ''expressions'')) (\<lambda>expressions.
        bind (read_rows (call_from_payload (int (length expressions))) (jget row ''calls'')) (\<lambda>cs.
        bind (read_rows (x87_from_payload sha) (jget row ''x87_intrinsics'')) (\<lambda>xs.
        bind (read_rows (effect_from_payload (int (length expressions)) (int (length cs)) (int (length xs)))
                (jget row ''effects'')) (\<lambda>effs.
        bind (terminator_from_payload (int (length expressions)) (jget row ''terminator'')) (\<lambda>term.
        bind (read_rows (occurrence_from_payload effs cs) (jget row ''exception_occurrences'')) (\<lambda>occs.
        if length occs \<noteq> expected_occurrences effs cs then malformed_occurrence
        else
        bind (string_field (jget row ''identity'')) (\<lambda>ident.
        bind (sha256_field (jget source ''contract_sha256'')) (\<lambda>contract.
        bind (sha256_field (jget source ''instruction_bytes_sha256'')) (\<lambda>digest.
          Ok \<lparr>identity = ident, contract_sha256 = contract, instruction_bytes_sha256 = digest,
              rva_start = rva, nodes = expressions, x87_nodes = [], actions = effs @ [term], calls = cs,
              x87_operations = xs, exception_occurrences = occs\<rparr>))))))))))))"

section \<open>Control edges\<close>

text \<open>An edge is its source address, its kind and its target; the list is sorted by that triple.\<close>

type_synonym edge = "int \<times> string \<times> int"

definition outcome_targets :: "action \<Rightarrow> int list" where
  "outcome_targets a =
     (if act_op a \<in> {Term Op_outcome_fallthrough, Term Op_outcome_jump} then take 1 (act_args a)
      else if act_op a = Term Op_outcome_branch then take 2 (drop 1 (act_args a)) else [])"

definition transfer_edges :: "transfer \<Rightarrow> edge list" where
  "transfer_edges t =
     (if actions t = [] then []
      else map (\<lambda>target. (rva_start t, ''control'', target)) (outcome_targets (last (actions t))))
     @ map (\<lambda>c. (rva_start t, ''internal_call'', call_target_rva c))
         (filter (\<lambda>c. call_kind c = ''internal_call'') (calls t))"

definition direct_edges :: "transfer list \<Rightarrow> edge list" where
  "direct_edges transfers = sort (concat (map transfer_edges transfers))"

definition edge_payload :: "edge \<Rightarrow> json" where
  "edge_payload = (\<lambda>(source, k, target). JObj
     [(''kind'', JStr k), (''source_rva'', JInt source), (''target_rva'', JInt target)])"

definition runtime_providers :: "transfer list \<Rightarrow> string list res" where
  "runtime_providers transfers = runtime_provider_requirements_v2 transfers ''transfer_plan''"

end
