(* ===== verification/Transfer_State.thy ===== *)
theory Transfer_State
  imports Transfer_Arith
begin

text \<open>
  The machine state of the host evaluator (\<open>EvaluatorStateV1\<close>), its byte memory
  (\<open>EvaluatorMemoryV1\<close>) and the readers of both from a test case's JSON.

  The two register dictionaries always hold exactly the keys of \<open>_REGS\<close> and \<open>_FLAGS\<close>, so they
  are functions on \<open>reg\<close> and \<open>flag\<close>. Memory is a dictionary from 32-bit addresses to bytes: an
  address that is absent is unmapped, and reading or writing it is a memory fault.
\<close>

section \<open>State\<close>

record evalstate =
  registers :: "reg \<Rightarrow> int"
  flags :: "flag \<Rightarrow> int"
  eflags :: int
  fs_base :: int
  original_rva :: int

definition initial_state :: evalstate where
  "initial_state = \<lparr>registers = (\<lambda>_. 0), flags = (\<lambda>_. 0), eflags = 0, fs_base = 0, original_rva = 0\<rparr>"

definition set_register :: "reg \<Rightarrow> int \<Rightarrow> evalstate \<Rightarrow> evalstate" where
  "set_register r v s = s\<lparr>registers := (registers s)(r := v)\<rparr>"

definition reg_at :: "int \<Rightarrow> reg res" where
  "reg_at i = py_index registers_table i"

definition get_flag :: "evalstate \<Rightarrow> int \<Rightarrow> int res" where
  "get_flag s index =
     (if index = 6 then Ok (drop_bit 4 (eflags s) AND 1)
      else bind (py_index flags_table index) (\<lambda>f. Ok (flags s f)))"

definition set_flag :: "evalstate \<Rightarrow> int \<Rightarrow> int \<Rightarrow> evalstate res" where
  "set_flag s index v =
     (if index = 6 then
        Ok (s\<lparr>eflags := (eflags s AND NOT (push_bit 4 1)) OR push_bit 4 (v AND 1)\<rparr>)
      else bind (py_index flags_table index) (\<lambda>f. Ok (s\<lparr>flags := (flags s)(f := v AND 1)\<rparr>)))"

definition eflags_bits :: "(flag \<times> nat) list" where
  "eflags_bits = [(CF, 0), (PF, 2), (ZF, 6), (SF, 7), (DF, 10), (OVF, 11)]"

definition sync_eflags :: "evalstate \<Rightarrow> evalstate" where
  "sync_eflags s = foldl (\<lambda>s (name, b).
     s\<lparr>eflags := (eflags s AND NOT (push_bit b 1)) OR push_bit b (flags s name)\<rparr>) s eflags_bits"

section \<open>Memory\<close>

type_synonym memory = "(int \<times> int) list"

definition access_width :: "int \<Rightarrow> bool" where
  "access_width w \<longleftrightarrow> w \<in> {1, 2, 4}"

lemma access_width_simps [simp]: "access_width 1" "access_width 2" "access_width 4"
  by (simp_all add: access_width_def)

definition addresses :: "int \<Rightarrow> int \<Rightarrow> int list" where
  "addresses a width = map (\<lambda>i. u32 (a + int i)) [0..<nat width]"

definition memory_read :: "memory \<Rightarrow> int \<Rightarrow> int \<Rightarrow> int res" where
  "memory_read m a width =
     (if \<not> access_width width then Raise Semantic_fault
      else bind (mapM (\<lambda>offset. case map_of m (u32 (a + int offset)) of
                   None \<Rightarrow> Raise Memory_fault
                 | Some byte \<Rightarrow> Ok (push_bit (8 * offset) byte)) [0..<nat width])
             (\<lambda>parts. Ok (u32 (sum_list parts))))"

definition memory_write :: "memory \<Rightarrow> int \<Rightarrow> int \<Rightarrow> int \<Rightarrow> memory res" where
  "memory_write m a width v =
     (if \<not> access_width width then Raise Semantic_fault
      else if \<exists>item\<in>set (addresses a width). map_of m item = None then Raise Memory_fault
      else Ok (foldl (\<lambda>m (offset, item). AList.update item (drop_bit (8 * offset) v AND 0xFF) m) m
                (enumerate 0 (addresses a width))))"

definition memory_payload :: "memory \<Rightarrow> (int \<times> int) list" where
  "memory_payload m = sort_key fst m"

section \<open>Reading a case\<close>

text \<open>
  \<open>int(text)\<close>: surrounding white space, a sign, and digits with single underscores between them;
  more than 4300 digits are refused.
\<close>

definition is_digit :: "char \<Rightarrow> bool" where
  "is_digit c = (CHR ''0'' \<le> c \<and> c \<le> CHR ''9'')"

fun digits_text :: "string \<Rightarrow> string option" where
  "digits_text [] = None"
| "digits_text [c] = (if is_digit c then Some [c] else None)"
| "digits_text (c # d # cs) =
     (if \<not> is_digit c then None
      else map_option ((#) c) (digits_text (if d = CHR ''_'' then cs else d # cs)))"

definition int_of_text :: "string \<Rightarrow> int res" where
  "int_of_text s =
     (let t = strip s;
          sign = (if t \<noteq> [] \<and> hd t = CHR ''-'' then - 1 else 1);
          u = (if t \<noteq> [] \<and> hd t \<in> {CHR ''-'', CHR ''+''} then tl t else t)
      in case digits_text u of
           None \<Rightarrow> Raise Value_error
         | Some ds \<Rightarrow> if length ds > 4300 then Raise Value_error
             else Ok (sign * foldl (\<lambda>n c. 10 * n + (int (of_char c) - 48)) 0 ds))"

fun py_int :: "json \<Rightarrow> int res" where
  "py_int (JInt n) = Ok n"
| "py_int (JBool b) = Ok (if b then 1 else 0)"
| "py_int (JStr s) = int_of_text s"
| "py_int _ = Raise Type_error"

primrec reg_name :: "reg \<Rightarrow> string" where
  "reg_name EAX = ''eax''" | "reg_name EBX = ''ebx''" | "reg_name ECX = ''ecx''"
| "reg_name EDX = ''edx''" | "reg_name ESI = ''esi''" | "reg_name EDI = ''edi''"
| "reg_name EBP = ''ebp''" | "reg_name ESP = ''esp''"

primrec flag_name :: "flag \<Rightarrow> string" where
  "flag_name CF = ''cf''" | "flag_name ZF = ''zf''" | "flag_name SF = ''sf''"
| "flag_name OVF = ''of''" | "flag_name PF = ''pf''" | "flag_name DF = ''df''"

text \<open>The dictionary comprehension over \<open>_REGS\<close> or \<open>_FLAGS\<close> of an optional member.\<close>

definition int_fields :: "('a \<Rightarrow> string) \<Rightarrow> 'a list \<Rightarrow> (int \<Rightarrow> int) \<Rightarrow> members \<Rightarrow> ('a \<times> int) list res" where
  "int_fields nm table f ms = mapM (\<lambda>k. bind (py_int (jget_default ms (nm k) (JInt 0))) (\<lambda>v. Ok (k, f v))) table"

definition lookup_0 :: "('a \<times> int) list \<Rightarrow> 'a \<Rightarrow> int" where
  "lookup_0 al k = (case map_of al k of None \<Rightarrow> 0 | Some v \<Rightarrow> v)"

definition state_from_payload :: "members \<Rightarrow> evalstate res" where
  "state_from_payload payload =
     (case (jget_default payload ''registers'' (JObj []), jget_default payload ''flags'' (JObj [])) of
        (JObj rs, fs) \<Rightarrow>
          if \<exists>k\<in>set (map fst rs). k \<notin> set (map reg_name registers_table)
          then Raise (Plan_error ''evaluator register state is malformed'')
          else (case fs of
            JObj fl \<Rightarrow>
              if \<exists>k\<in>set (map fst fl). k \<notin> set (map flag_name flags_table)
              then Raise (Plan_error ''evaluator flag state is malformed'')
              else bind (int_fields reg_name registers_table u32 rs) (\<lambda>regs.
                   bind (int_fields flag_name flags_table (\<lambda>v. v AND 1) fl) (\<lambda>flgs.
                   bind (py_int (jget_default payload ''eflags'' (JInt 0))) (\<lambda>ef.
                   bind (py_int (jget_default payload ''fs_base'' (JInt 0))) (\<lambda>fs.
                   bind (py_int (jget_default payload ''original_rva'' (JInt 0))) (\<lambda>rva.
                     Ok \<lparr>registers = lookup_0 regs, flags = lookup_0 flgs, eflags = u32 ef,
                         fs_base = u32 fs, original_rva = u32 rva\<rparr>)))))
          | _ \<Rightarrow> Raise (Plan_error ''evaluator flag state is malformed''))
      | _ \<Rightarrow> Raise (Plan_error ''evaluator register state is malformed''))"

definition state_payload :: "evalstate \<Rightarrow> members" where
  "state_payload s =
     [(''registers'', JObj (map (\<lambda>r. (reg_name r, JInt (registers s r))) registers_table)),
      (''flags'', JObj (map (\<lambda>f. (flag_name f, JInt (flags s f))) flags_table)),
      (''eflags'', JInt (eflags s)), (''fs_base'', JInt (fs_base s)),
      (''original_rva'', JInt (original_rva s))]"

text \<open>\<open>bytes.fromhex\<close> skips ASCII white space between the bytes and reads both letter cases.\<close>

definition nibble :: "char \<Rightarrow> nat option" where
  "nibble c = (let n = of_char c :: nat in
     if 48 \<le> n \<and> n \<le> 57 then Some (n - 48)
     else if 97 \<le> n \<and> n \<le> 102 then Some (n - 87)
     else if 65 \<le> n \<and> n \<le> 70 then Some (n - 55) else None)"

fun py_fromhex :: "string \<Rightarrow> int list option" where
  "py_fromhex [] = Some []"
| "py_fromhex (c # cs) =
     (if (of_char c :: nat) \<in> {9, 10, 11, 12, 13, 32} then py_fromhex cs
      else case cs of
        [] \<Rightarrow> None
      | d # ds \<Rightarrow> (case (nibble c, nibble d) of
          (Some h, Some l) \<Rightarrow> map_option ((#) (int (16 * h + l))) (py_fromhex ds)
        | _ \<Rightarrow> None))"

definition malformed_segment :: "nat \<Rightarrow> 'a res" where
  "malformed_segment index =
     Raise (Plan_error (''evaluator memory segment '' @ int_text (int index) @ '' is malformed''))"

fun add_bytes :: "int \<Rightarrow> int list \<Rightarrow> memory \<Rightarrow> memory res" where
  "add_bytes a [] m = Ok m"
| "add_bytes a (b # bs) m =
     (if map_of m (u32 a) \<noteq> None then Raise (Plan_error ''evaluator memory segments overlap'')
      else add_bytes (a + 1) bs (AList.update (u32 a) b m))"

fun add_segments :: "nat \<Rightarrow> json list \<Rightarrow> memory \<Rightarrow> memory res" where
  "add_segments index [] m = Ok m"
| "add_segments index (JObj item # rest) m =
     (case (jget item ''address'', jget item ''bytes_hex'') of
        (JInt a, JStr text) \<Rightarrow>
          if length text mod 2 \<noteq> 0 then malformed_segment index
          else (case py_fromhex text of
                  None \<Rightarrow> malformed_segment index
                | Some bs \<Rightarrow> bind (add_bytes a bs m) (add_segments (Suc index) rest))
      | _ \<Rightarrow> malformed_segment index)"
| "add_segments index (_ # rest) m = malformed_segment index"

fun memory_from_payload :: "json \<Rightarrow> memory res" where
  "memory_from_payload JNull = Ok []"
| "memory_from_payload (JList segments) = add_segments 0 segments []"
| "memory_from_payload _ = Raise (Plan_error ''evaluator memory is not a segment list'')"

end
