(* ===== verification/Compiler_Words.thy ===== *)
theory Compiler_Words
  imports Transfer_Plan Transfer_State
begin

text \<open>
  The transfer compiler (\<open>_TransferCompiler\<close> of \<open>transfer/compiler.py\<close>), its state and the compilation
  of word expressions. The mutable object is the record \<open>cstate\<close>; a method is a computation \<open>comp\<close>
  that takes the state and returns a value with the next state, or an error. An exception ends the
  compilation of the transfer and the object is dropped, so an error carries no state.

  The two dictionaries of x87 values and the list \<open>x87_nodes\<close> stay empty, since \<open>x87\<close> always raises;
  they have no field here. \<open>word_compile_depth\<close> is zero exactly in calls from outside \<open>_word_node\<close>:
  \<open>word\<close> is the outer call and \<open>word_index\<close> the nested one.
\<close>

section \<open>State and computations\<close>

record cstate =
  cn_nodes :: "node list"
  cn_actions :: "action list"
  cn_calls :: "call list"
  cn_x87 :: "x87_program list"
  cn_memo :: "(string \<times> int) list"
  cn_deps :: "(string \<times> string list) list"
  cn_available :: "int list"
  cn_external :: "int list"
  cn_scheduled :: "int list"
  cn_atomic_ids :: "string list"
  cn_memory_count :: int
  cn_local :: bool
  cn_outcome :: "action option"
  cn_next_fault :: int

definition initial_cstate :: cstate where
  "initial_cstate =
     \<lparr>cn_nodes = [], cn_actions = [], cn_calls = [], cn_x87 = [], cn_memo = [], cn_deps = [],
      cn_available = [], cn_external = [], cn_scheduled = [], cn_atomic_ids = [], cn_memory_count = 0,
      cn_local = False, cn_outcome = None, cn_next_fault = 0\<rparr>"

text \<open>
  What a compilation is given: the semantic row, the SHA-256 of a text, the instruction decoder that
  the x87 extraction calls, and the depth of recursion the interpreter allows.
\<close>

record compiler =
  cp_row :: members
  cp_sha :: "string \<Rightarrow> string"
  cp_decoder :: "int list \<Rightarrow> int \<Rightarrow> decoded_instruction list"
  cp_depth :: nat

type_synonym 'a comp = "cstate \<Rightarrow> ('a \<times> cstate) res"

definition creturn :: "'a \<Rightarrow> 'a comp" where
  "creturn x = (\<lambda>s. Ok (x, s))"

definition cbind :: "'a comp \<Rightarrow> ('a \<Rightarrow> 'b comp) \<Rightarrow> 'b comp" where
  "cbind m f = (\<lambda>s. bind (m s) (\<lambda>(x, s'). f x s'))"

definition clift :: "'a res \<Rightarrow> 'a comp" where
  "clift r = (\<lambda>s. bind r (\<lambda>x. Ok (x, s)))"

definition reads :: "(cstate \<Rightarrow> 'a) \<Rightarrow> 'a comp" where
  "reads f = (\<lambda>s. Ok (f s, s))"

definition modify :: "(cstate \<Rightarrow> cstate) \<Rightarrow> unit comp" where
  "modify f = (\<lambda>s. Ok ((), f s))"

definition refuse :: "string \<Rightarrow> 'a comp" where
  "refuse code = (\<lambda>s. Raise (Plan_error code))"

definition check :: "bool \<Rightarrow> string \<Rightarrow> unit comp" where
  "check ok code = (if ok then creturn () else refuse code)"

fun mapC :: "('a \<Rightarrow> 'b comp) \<Rightarrow> 'a list \<Rightarrow> 'b list comp" where
  "mapC f [] = creturn []"
| "mapC f (x # xs) = cbind (f x) (\<lambda>y. cbind (mapC f xs) (\<lambda>ys. creturn (y # ys)))"

definition emit :: "action \<Rightarrow> unit comp" where
  "emit a = modify (\<lambda>s. s\<lparr>cn_actions := cn_actions s @ [a]\<rparr>)"

section \<open>Names of registers and flags\<close>

definition index_of :: "string list \<Rightarrow> string \<Rightarrow> int res" where
  "index_of names name =
     (case map_of (zip names (map int [0..<length names])) name of None \<Rightarrow> malformed | Some i \<Rightarrow> Ok i)"

definition register_names :: "string list" where
  "register_names = map reg_name registers_table"

definition flag_names :: "string list" where
  "flag_names = map flag_name flags_table"

definition register_slot :: "string \<Rightarrow> int res" where
  "register_slot name = index_of register_names name"

definition flag_slot :: "string \<Rightarrow> int res" where
  "flag_slot name = (if name = ''af'' then Ok af_flag_index else index_of flag_names name)"

section \<open>The node of an expression\<close>

text \<open>\<open>expected\<close>: the operations that take words and nothing else, with their arities.\<close>

definition semantic_arity :: "(string \<times> arity) list" where
  "semantic_arity =
     [(''sub32'', Exact 2), (''ult32'', Exact 2), (''eq'', Exact 2), (''xor_bool'', Exact 2), (''eq_bool'', Exact 2),
      (''add32'', Between 2 4), (''mul32'', Between 2 4), (''xor32'', Between 2 4), (''and32'', Between 2 4),
      (''or32'', Between 2 4), (''not32'', Exact 1), (''neg32'', Exact 1), (''shl32'', Exact 2), (''lshr32'', Exact 2),
      (''sar'', Exact 3), (''sign_extend'', Exact 2), (''ite'', Exact 3), (''msb'', Between 1 2), (''not'', Exact 1),
      (''and_bool'', Between 1 5), (''or_bool'', Between 1 5), (''parity'', Exact 2), (''bool_to_bit'', Exact 1),
      (''add_overflow'', Exact 4), (''sub_overflow'', Exact 4), (''imul_low32'', Exact 2), (''mul_low32'', Exact 2),
      (''imul_high32'', Exact 2), (''mul_high32'', Exact 2), (''imul_overflow'', Exact 5), (''mul_carry'', Exact 4),
      (''udiv_quot32'', Exact 3), (''udiv_rem32'', Exact 3), (''udiv_valid32'', Exact 3), (''bsr_index'', Exact 2),
      (''tzcnt'', Exact 2), (''sbb_borrow'', Exact 5), (''sbb_overflow'', Exact 5), (''adc_carry'', Exact 5),
      (''adc_overflow'', Exact 5)]"

definition shift_kinds :: "(string \<times> int) list" where
  "shift_kinds = [(''shl'', 0), (''sal'', 0), (''shld'', 0), (''shr'', 1), (''shrd'', 1), (''sar'', 2)]"

text \<open>\<open>str(expr.get("id") or expr.get("reason") or "undefined")\<close>.\<close>

definition undefined_label :: "members \<Rightarrow> string" where
  "undefined_label ms =
     (if py_truthy (jget ms ''id'') then py_str (jget ms ''id'')
      else if py_truthy (jget ms ''reason'') then py_str (jget ms ''reason'') else ''undefined'')"

text \<open>
  The fields of a node other than its operands, and the subexpressions that are its operands. Every
  method below checks its own fields first and compiles the operands last, in order; the arity of the
  ordinary operations is checked after that, by \<open>operand_arity\<close>.
\<close>

type_synonym shape = "node \<times> json list"

definition shift_shape :: "string \<Rightarrow> members \<Rightarrow> shape res" where
  "shift_shape op ms =
     bind (list_field (jget ms ''args'')) (\<lambda>args.
       if length args \<noteq> (if op = ''shift_cf'' then 4 else 5) then malformed
       else bind (hash_in (args ! 0) (map (JStr \<circ> fst) shift_kinds)) (\<lambda>known.
         if \<not> known then malformed
         else bind (width_bits_field (args ! 1)) (\<lambda>w.
           let k = (case map_of shift_kinds (py_str (args ! 0)) of None \<Rightarrow> 0 | Some k \<Rightarrow> k)
           in Ok (mk_node (op_of_name op) [] ((k * 256) OR w) 0, drop 2 args))))"

definition call_value_shape :: "int list \<Rightarrow> string \<Rightarrow> members \<Rightarrow> shape res" where
  "call_value_shape available op ms =
     bind (nonnegative (jget ms ''call_index'')) (\<lambda>k.
       if k \<notin> set available then malformed
       else bind (string_field (jget ms (if op = ''call_response'' then ''register'' else ''flag''))) (\<lambda>field.
            bind (if op = ''call_response'' then register_slot field else flag_slot field) (\<lambda>i.
              Ok (mk_node (op_of_name op) [] i k, []))))"

text \<open>\<open>x87\<close> refuses every value, after checking that it is an object.\<close>

definition x87_value :: "json \<Rightarrow> 'a res" where
  "x87_value raw = bind (object_field raw) (\<lambda>_. Raise (Plan_error ''x87_checked_export_unavailable''))"

definition fpu_zero_inputs :: "string list" where
  "fpu_zero_inputs =
     [''fpu_control'', ''fpu_control_init'', ''fpu_status'', ''fpu_status_init'', ''fpu_pending_exception'',
      ''fpu_last_opcode'', ''fpu_instruction_pointer'', ''fpu_code_selector'', ''fpu_data_pointer'',
      ''fpu_data_selector'']"

definition x87_word_shape :: "int \<Rightarrow> string \<Rightarrow> members \<Rightarrow> shape res" where
  "x87_word_shape sample op ms =
     bind (list_field (jget ms ''args'')) (\<lambda>args.
       if op \<in> set fpu_zero_inputs \<and> args = [] then Ok (mk_node (op_of_name op) [] 0 sample, [])
       else if op = ''fpu_tag'' \<and> length args = 1
       then bind (x87_slot (args ! 0)) (\<lambda>slot. Ok (mk_node (op_of_name op) [] slot sample, []))
       else if op \<in> {''fpu_control_load'', ''fpu_control_word'', ''fpu_status_word''} \<and> length args = 1
       then Ok (mk_node (op_of_name op) [] 0 0, args)
       else if op \<in> {''fpu_bits_lo32'', ''fpu_bits_hi32'', ''fpu_fxam''} \<and> length args = 1 then x87_value (args ! 0)
       else if op \<in> {''fpu_cmp_cf'', ''fpu_cmp_pf'', ''fpu_cmp_zf''} \<and> length args = 2 then x87_value (args ! 0)
       else if op = ''fpu_int32'' \<and> length args = 2 then x87_value (args ! 0)
       else malformed)"

definition undefined_shape :: "string \<Rightarrow> members \<Rightarrow> shape" where
  "undefined_shape op ms =
     (let label = undefined_label ms; v = jget ms ''defined_value''
      in ((mk_node (op_of_name op) [] 0 (stable_slot label))\<lparr>node_identity := Some label\<rparr>, if v = JNull then [] else [v]))"

definition node_shape :: "bool \<Rightarrow> int list \<Rightarrow> string \<Rightarrow> members \<Rightarrow> shape res" where
  "node_shape loc available op ms =
     (let sample = of_bool loc in
      if op = ''const'' then bind (u32_wrapping (jget ms ''value'')) (\<lambda>n. Ok (mk_node (op_of_name op) [] 0 n, []))
      else if op = ''reg'' then
        bind (string_field (jget ms ''name'')) (\<lambda>name. bind (register_slot name) (\<lambda>i.
          Ok (mk_node (op_of_name op) [] i sample, [])))
      else if op = ''flag'' then
        bind (string_field (jget ms ''name'')) (\<lambda>name. bind (flag_slot name) (\<lambda>i.
          Ok (mk_node (op_of_name op) [] i sample, [])))
      else if op = ''fs_base'' then Ok (mk_node (op_of_name op) [] 0 sample, [])
      else if op \<in> {''true'', ''false''} then Ok (mk_node (op_of_name op) [] 0 0, [])
      else if op \<in> {''undefined_bv'', ''undefined_flag''} then Ok (undefined_shape op ms)
      else if op \<in> {''call_response'', ''call_flag''} then call_value_shape available op ms
      else if op = ''load'' then
        bind (width_field (jget ms ''width'')) (\<lambda>w. Ok (mk_node (op_of_name op) [] w 0, [jget ms ''address'']))
      else if take 4 op = ''fpu_'' then x87_word_shape sample op ms
      else if op \<in> {''shift_cf'', ''shift_of''} then shift_shape op ms
      else case map_of semantic_arity op of
          None \<Rightarrow> malformed
        | Some _ \<Rightarrow> bind (list_field (jget ms ''args'')) (\<lambda>args. Ok (mk_node (op_of_name op) [] 0 0, args)))"

definition operand_arity :: "string \<Rightarrow> nat \<Rightarrow> unit res" where
  "operand_arity op n =
     (case map_of semantic_arity op of None \<Rightarrow> Ok ()
      | Some ar \<Rightarrow> if arity_ok (int n) ar then Ok () else malformed)"

section \<open>The memo table\<close>

text \<open>The loads an expression observes, by their canonical text.\<close>

fun memory_dependency_keys :: "json \<Rightarrow> string list" where
  "memory_dependency_keys (JObj ms) =
     (if jget ms ''op'' = JStr ''load'' then [canonical_json (JObj ms)]
      else concat (map (\<lambda>kv. memory_dependency_keys (snd kv)) ms))"
| "memory_dependency_keys (JList xs) = concat (map memory_dependency_keys xs)"
| "memory_dependency_keys _ = []"

text \<open>\<open>index = len(self.nodes)\<close>, and the three stores that make the node known under its key.\<close>

definition add_node :: "string \<Rightarrow> string list \<Rightarrow> node \<Rightarrow> int comp" where
  "add_node key deps nd =
     cbind (reads (\<lambda>s. int (length (cn_nodes s)))) (\<lambda>index.
     cbind (modify (\<lambda>s. s\<lparr>cn_nodes := cn_nodes s @ [nd], cn_memo := AList.update key index (cn_memo s),
         cn_deps := AList.update key deps (cn_deps s)\<rparr>)) (\<lambda>_. creturn index))"

text \<open>A raw boolean or number stands for its constant.\<close>

definition word_expression :: "json \<Rightarrow> members res" where
  "word_expression raw =
     (case raw of
        JBool b \<Rightarrow> Ok [(''op'', JStr (if b then ''true'' else ''false''))]
      | JInt n \<Rightarrow> Ok [(''op'', JStr ''const''), (''value'', JInt n), (''width'', JInt 32)]
      | _ \<Rightarrow> object_field raw)"

primrec word_index :: "nat \<Rightarrow> json \<Rightarrow> int comp" where
  "word_index 0 raw = clift (Raise Recursion_error)"
| "word_index (Suc depth) raw =
     cbind (clift (word_expression raw)) (\<lambda>ms.
     let key = canonical_json (JObj ms) in
     cbind (reads (\<lambda>s. map_of (cn_memo s) key)) (\<lambda>hit.
       case hit of
         Some index \<Rightarrow> creturn index
       | None \<Rightarrow>
           cbind (clift (string_field (jget ms ''op''))) (\<lambda>op.
           cbind (reads (\<lambda>s. node_shape (cn_local s) (cn_available s) op ms)) (\<lambda>shape.
           cbind (clift shape) (\<lambda>(nd, operands).
           cbind (mapC (word_index depth) operands) (\<lambda>refs.
           cbind (clift (operand_arity op (length refs))) (\<lambda>_.
             add_node key (memory_dependency_keys (JObj ms)) (nd\<lparr>node_args := refs\<rparr>))))))))"

text \<open>The outer call schedules the evaluation of a word that was not evaluated before.\<close>

definition schedule :: "int \<Rightarrow> unit comp" where
  "schedule index =
     cbind (reads (\<lambda>s. index \<in> set (cn_scheduled s))) (\<lambda>known.
       if known then creturn ()
       else cbind (emit (mk_action (Eff Op_eval_word) [index] 0)) (\<lambda>_.
            modify (\<lambda>s. s\<lparr>cn_scheduled := index # cn_scheduled s\<rparr>)))"

definition word :: "compiler \<Rightarrow> json \<Rightarrow> int comp" where
  "word c raw =
     cbind (word_index (cp_depth c) raw) (\<lambda>index. cbind (schedule index) (\<lambda>_. creturn index))"

section \<open>Memory reads\<close>

definition invalidate_memory_observation :: "string \<Rightarrow> unit comp" where
  "invalidate_memory_observation load_key =
     modify (\<lambda>s. let stale = map fst (filter (\<lambda>kd. load_key \<in> set (snd kd)) (cn_deps s)) in
       s\<lparr>cn_memo := filter (\<lambda>kv. fst kv \<notin> set stale) (cn_memo s),
         cn_deps := filter (\<lambda>kd. fst kd \<notin> set stale) (cn_deps s)\<rparr>)"

text \<open>An architectural read: what was computed from an earlier read of the same expression is forgotten.\<close>

definition ordered_memory_read :: "compiler \<Rightarrow> json \<Rightarrow> int \<Rightarrow> int comp" where
  "ordered_memory_read c raw_address width =
     cbind (word c raw_address) (\<lambda>address.
     let key = canonical_json (JObj [(''op'', JStr ''load''), (''width'', JInt width), (''address'', raw_address)]) in
     cbind (invalidate_memory_observation key) (\<lambda>_.
     cbind (add_node key [key] (mk_node (Word Op_load) [address] width 0)) (\<lambda>index.
     cbind (emit (mk_action (Eff Op_eval_word) [index] 0)) (\<lambda>_.
     cbind (modify (\<lambda>s. s\<lparr>cn_scheduled := index # cn_scheduled s\<rparr>)) (\<lambda>_. creturn index)))))"

definition reset_instruction_expression_cache :: "unit comp" where
  "reset_instruction_expression_cache = modify (\<lambda>s. s\<lparr>cn_memo := [], cn_deps := []\<rparr>)"

end
