(* ===== verification/Transfer_Compiler.thy ===== *)
theory Transfer_Compiler
  imports Compiler_Words
begin

text \<open>
  The lowering of events, updates and outcomes in \<open>transfer/compiler.py\<close>, with the call boundaries of
  \<open>transfer/call_boundaries.py\<close> and the atomic actions of \<open>transfer/atomics.py\<close>: one definition per
  method, each event branch one definition.
\<close>

section \<open>Memory and fault events\<close>

definition memory_event :: "compiler \<Rightarrow> members \<Rightarrow> unit comp" where
  "memory_event c event =
     cbind (clift (width_field (jget event ''width''))) (\<lambda>w.
       if jget event ''kind'' = JStr ''read''
       then cbind (ordered_memory_read c (jget event ''address'') w) (\<lambda>_. creturn ())
       else if jget event ''kind'' = JStr ''write'' then
         cbind (word c (jget event ''address'')) (\<lambda>address.
         cbind (word c (jget event ''value'')) (\<lambda>v.
           emit (mk_action (Eff Op_memory_write) [address, v] w)))
       else clift malformed)"

definition emit_fault :: "effect_op \<Rightarrow> int list \<Rightarrow> unit comp" where
  "emit_fault oper args =
     cbind (reads cn_next_fault) (\<lambda>k.
     cbind (emit (mk_action (Eff oper) args k)) (\<lambda>_.
       modify (\<lambda>s. s\<lparr>cn_next_fault := cn_next_fault s + 1\<rparr>)))"

definition fault_event :: "compiler \<Rightarrow> members \<Rightarrow> unit comp" where
  "fault_event c event =
     (if jget event ''kind'' = JStr ''divide_error'' then
        cbind (word c (jget event ''condition'')) (\<lambda>cond. emit_fault Op_divide_if [cond])
      else if jget event ''kind'' = JStr ''access_violation'' then
        cbind (word c (jget event ''condition'')) (\<lambda>cond.
        cbind (word c (jget event ''operation'')) (\<lambda>oper.
        cbind (word c (jget event ''address'')) (\<lambda>address.
          emit_fault Op_access_violation_if [cond, oper, address])))
      else clift malformed)"

section \<open>String instructions\<close>

definition words_of :: "compiler \<Rightarrow> members \<Rightarrow> string list \<Rightarrow> int list comp" where
  "words_of c event keys = mapC (\<lambda>k. word c (jget event k)) keys"

definition checked_string_event :: "members \<Rightarrow> int \<Rightarrow> string \<Rightarrow> string \<Rightarrow> int comp" where
  "checked_string_event event event_index k model =
     (let code = ''malformed_'' @ k @ ''_event'' in
      cbind (clift (u32_field (jget event ''instruction_rva''))) (\<lambda>_.
      cbind (check (jget event ''effect_model'' = JStr model) code) (\<lambda>_.
      cbind (check (py_eq (jget event ''address_size'') (JInt 32)) code) (\<lambda>_.
      cbind (check (jget event ''restart_semantics'' = JStr ''element_committed_v1'') code) (\<lambda>_.
      cbind (clift (nonnegative (jget event ''index''))) (\<lambda>i.
      cbind (check (i = event_index) code) (\<lambda>_.
        case width_field (jget event ''element_width'') of Inr w \<Rightarrow> creturn w | Inl _ \<Rightarrow> refuse code)))))))"

definition rep_scas_owned_registers :: "string list" where
  "rep_scas_owned_registers = [''edi'', ''ecx'']"

definition rep_scas_owned_flags :: "string list" where
  "rep_scas_owned_flags = [''cf'', ''pf'', ''af'', ''zf'', ''sf'', ''of'']"

definition owned_outputs_declared :: "members \<Rightarrow> bool" where
  "owned_outputs_declared event \<longleftrightarrow>
     jget event ''owned_register_outputs'' = JList (map JStr rep_scas_owned_registers)
     \<and> jget event ''owned_flag_outputs'' = JList (map JStr rep_scas_owned_flags)"

definition scan_models :: "(string \<times> string) list" where
  "scan_models =
     [(''repeat_condition'', ''while_not_equal_v1''), (''comparison_model'', ''subtraction_flags_v1''),
      (''segment_model'', ''flat_es_zero_v1''), (''fault_model'', ''read_before_commit_v1'')]"

text \<open>Every error of the shared check is reported under the code of the scan.\<close>

definition checked_rep_scas_event :: "members \<Rightarrow> int \<Rightarrow> unit comp" where
  "checked_rep_scas_event event event_index =
     (\<lambda>s. case checked_string_event event event_index ''rep_scas'' ''symbolic_string_scan_v1'' s of
        Inl (Plan_error _) \<Rightarrow> Raise (Plan_error ''malformed_rep_scas_event'')
      | Inl e \<Rightarrow> Raise e
      | Inr (w, s') \<Rightarrow>
          check (w = 1 \<and> list_all (\<lambda>(k, v). jget event k = JStr v) scan_models \<and> owned_outputs_declared event
            \<and> \<not> jhas event ''source'' \<and> \<not> jhas event ''value'') ''malformed_rep_scas_event'' s')"

definition string_copy_fields :: "string list" where
  "string_copy_fields = [''source'', ''destination'', ''count'', ''direction_flag'']"

definition string_fill_fields :: "string list" where
  "string_fill_fields = [''destination'', ''value'', ''count'', ''direction_flag'']"

definition emit_words :: "compiler \<Rightarrow> members \<Rightarrow> effect_op \<Rightarrow> string list \<Rightarrow> int \<Rightarrow> unit comp" where
  "emit_words c event oper keys aux =
     cbind (words_of c event keys) (\<lambda>args. emit (mk_action (Eff oper) args aux))"

definition string_event :: "compiler \<Rightarrow> string \<Rightarrow> members \<Rightarrow> int \<Rightarrow> unit comp" where
  "string_event c k event event_index =
     (if k = ''rep_movsd'' then emit_words c event Op_rep_movsd string_copy_fields 0
      else if k = ''rep_movs'' then
        cbind (checked_string_event event event_index k ''symbolic_string_copy_v2'') (\<lambda>w.
        cbind (check (\<not> jhas event ''value'') ''malformed_rep_movs_event'') (\<lambda>_.
          emit_words c event Op_rep_movs string_copy_fields w))
      else if k = ''rep_scas'' then
        cbind (checked_rep_scas_event event event_index) (\<lambda>_.
          emit_words c event Op_rep_scas [''accumulator'', ''destination'', ''count'', ''direction_flag''] 1)
      else if k = ''rep_stosd'' then
        cbind (clift (u32_field (jget event ''instruction_rva''))) (\<lambda>_.
        cbind (check (jget event ''effect_model'' = JStr ''symbolic_string_fill_v1'') ''malformed_rep_stosd_event'') (\<lambda>_.
        cbind (clift (nonnegative (jget event ''index''))) (\<lambda>i.
        cbind (check (i = event_index \<and> \<not> jhas event ''source'') ''malformed_rep_stosd_event'') (\<lambda>_.
          emit_words c event Op_rep_stosd string_fill_fields 0))))
      else
        cbind (checked_string_event event event_index k ''symbolic_string_fill_v2'') (\<lambda>w.
        cbind (check (\<not> jhas event ''source'') ''malformed_rep_stos_event'') (\<lambda>_.
          emit_words c event Op_rep_stos string_fill_fields w)))"

definition string_kinds :: "string list" where
  "string_kinds = [''rep_movsd'', ''rep_movs'', ''rep_scas'', ''rep_stosd'', ''rep_stos'']"

section \<open>Calls\<close>

definition call_kinds :: "string list" where
  "call_kinds = [''external_call'', ''internal_call'', ''indirect_call'']"

definition optional_text :: "json \<Rightarrow> string option" where
  "optional_text v = (case v of JStr s \<Rightarrow> Some s | _ \<Rightarrow> None)"

definition compile_stack_input :: "compiler \<Rightarrow> json \<Rightarrow> (int \<times> int \<times> int) comp" where
  "compile_stack_input c raw =
     cbind (clift (object_field raw)) (\<lambda>item.
     cbind (clift (nonnegative (jget item ''offset''))) (\<lambda>offset.
     cbind (clift (width_field (jget item ''width''))) (\<lambda>w.
     cbind (word c (jget item ''value'')) (\<lambda>v. creturn (offset, w, v)))))"

text \<open>The call is recorded, its action names it, and its response becomes available.\<close>

definition append_call :: "call \<Rightarrow> unit comp" where
  "append_call cl =
     cbind (reads (\<lambda>s. int (length (cn_calls s)))) (\<lambda>index.
     cbind (modify (\<lambda>s. s\<lparr>cn_calls := cn_calls s @ [cl]\<rparr>)) (\<lambda>_.
     cbind (emit (mk_action (Eff Op_call) [index] 0)) (\<lambda>_.
       modify (\<lambda>s. s\<lparr>cn_available := call_index cl # cn_available s\<rparr>))))"

definition call_event :: "compiler \<Rightarrow> string \<Rightarrow> members \<Rightarrow> int \<Rightarrow> unit comp" where
  "call_event c k event event_index =
     cbind (clift (object_field (jget event ''register_inputs''))) (\<lambda>regs.
     cbind (clift (object_field (jget event ''flag_inputs''))) (\<lambda>flgs.
     cbind (words_of c regs register_names) (\<lambda>register_nodes.
     cbind (words_of c flgs flag_names) (\<lambda>flag_nodes.
     cbind (mapC (word c) (optional_list (jget event ''arguments''))) (\<lambda>argument_nodes.
     cbind (mapC (compile_stack_input c) (optional_list (jget event ''stack_inputs''))) (\<lambda>stack.
     cbind (if k = ''indirect_call'' then cbind (word c (jget event ''target'')) (\<lambda>n. creturn (Some n))
            else creturn None) (\<lambda>target.
     cbind (clift (optional_field nonnegative (jget event ''ordinal''))) (\<lambda>ord.
     cbind (clift (u32_field (jget event ''instruction_rva''))) (\<lambda>rva.
     cbind (clift (u32_wrapping (let t = jget event ''target_rva'' in if py_truthy t then t else JInt 0))) (\<lambda>target_rva.
     cbind (clift (u32_field (jget event ''return_rva''))) (\<lambda>ret.
     cbind (clift (native_exception_operations_for_call_v2 event False)) (\<lambda>native_ops.
       append_call \<lparr>call_kind = k, instruction_rva = rva, call_index = event_index, target_node = target,
           call_target_rva = target_rva, return_rva = ret, dll = optional_text (jget event ''dll''),
           symbol = optional_text (jget event ''symbol''), ordinal = ord, register_nodes = register_nodes,
           flag_nodes = flag_nodes, argument_nodes = argument_nodes, stack_inputs = stack,
           native_exception_operations = native_ops\<rparr>))))))))))))"

definition consume_external :: "int \<Rightarrow> unit comp" where
  "consume_external event_index =
     cbind (reads (\<lambda>s. event_index \<in> set (cn_external s))) (\<lambda>seen.
     cbind (check (\<not> seen) ''external_event_coverage_mismatch'') (\<lambda>_.
       modify (\<lambda>s. s\<lparr>cn_external := event_index # cn_external s\<rparr>)))"

definition external_event :: "compiler \<Rightarrow> members \<Rightarrow> int \<Rightarrow> unit comp" where
  "external_event c event event_index =
     cbind (consume_external event_index) (\<lambda>_.
     cbind (clift (string_field (jget event ''kind''))) (\<lambda>k.
       if k \<in> set string_kinds then string_event c k event event_index
       else if k \<in> set call_kinds then call_event c k event event_index
       else clift malformed))"

text \<open>
  A stack slot of the transfer's inventory, sampled from the current \<open>esp\<close> at the call.
\<close>

definition instruction_local_stack_input :: "json \<Rightarrow> json res" where
  "instruction_local_stack_input raw =
     bind (object_field raw) (\<lambda>item.
     bind (nonnegative (jget item ''offset'')) (\<lambda>offset.
     bind (width_field (jget item ''width'')) (\<lambda>w.
       Ok (JObj [(''offset'', JInt offset), (''width'', JInt w),
         (''value'', JObj [(''op'', JStr ''load''), (''width'', JInt w),
           (''address'', JObj [(''op'', JStr ''add32''), (''args'', JList
              [JObj [(''op'', JStr ''reg''), (''name'', JStr ''esp''), (''width'', JInt 32)],
               JObj [(''op'', JStr ''const''), (''value'', JInt offset), (''width'', JInt 32)]])])])]))))"

definition call_identity_fields :: "string list" where
  "call_identity_fields = [''kind'', ''dll'', ''symbol'', ''ordinal'', ''target_rva'', ''return_rva'']"

text \<open>The arguments and stack slots of a call: its own, or those of the transfer's inventory.\<close>

definition merge_call_inventory :: "members \<Rightarrow> members \<Rightarrow> members res" where
  "merge_call_inventory event aggregate =
     (let args = optional_list (jget event ''arguments''); stack = optional_list (jget event ''stack_inputs'') in
      bind (if stack \<noteq> [] then Ok stack
            else mapM instruction_local_stack_input (optional_list (jget aggregate ''stack_inputs''))) (\<lambda>selected.
        Ok (AList.update ''stack_inputs'' (JList selected) (AList.update ''arguments''
          (JList (if args \<noteq> [] then args else optional_list (jget aggregate ''arguments''))) event))))"

definition bind_instruction_call_boundary :: "members \<Rightarrow> members \<Rightarrow> nat \<Rightarrow> members res" where
  "bind_instruction_call_boundary row event event_index =
     bind (hash_in (jget event ''kind'') (map JStr call_kinds)) (\<lambda>is_call.
       let aggregates = optional_list (jget row ''external_events'') in
       if \<not> is_call \<or> length aggregates \<le> event_index then Ok event
       else bind (object_field (aggregates ! event_index)) (\<lambda>aggregate.
         if \<not> list_all (\<lambda>f. py_eq (jget event f) (jget aggregate f)) call_identity_fields
         then Raise (Plan_error ''instruction_call_boundary_mismatch'')
         else merge_call_inventory event aggregate))"

section \<open>Outcomes\<close>

definition compile_outcome :: "compiler \<Rightarrow> members \<Rightarrow> action comp" where
  "compile_outcome c outcome =
     cbind (clift (string_field (jget outcome ''kind''))) (\<lambda>k.
       if k = ''fallthrough'' then
         cbind (clift (u32_field (jget outcome ''target_rva''))) (\<lambda>t. creturn (mk_action (Term Op_outcome_fallthrough) [t] 0))
       else if k = ''jump'' then
         cbind (clift (u32_field (jget outcome ''target_rva''))) (\<lambda>t. creturn (mk_action (Term Op_outcome_jump) [t] 0))
       else if k = ''branch'' then
         cbind (word c (jget outcome ''condition'')) (\<lambda>cond.
         cbind (clift (u32_field (jget outcome ''true_target_rva''))) (\<lambda>t.
         cbind (clift (u32_field (jget outcome ''false_target_rva''))) (\<lambda>f.
           creturn (mk_action (Term Op_outcome_branch) [cond, t, f] 0))))
       else if k = ''return'' then
         cbind (word c (jget outcome ''value'')) (\<lambda>v. creturn (mk_action (Term Op_outcome_return) [v] 0))
       else if k = ''indirect_jump'' then
         cbind (word c (jget outcome ''target'')) (\<lambda>t. creturn (mk_action (Term Op_outcome_indirect) [t] 0))
       else if k = ''nonlocal'' then
         cbind (word c (jget outcome ''target'')) (\<lambda>t.
         cbind (word c (jget outcome ''value'')) (\<lambda>v. creturn (mk_action (Term Op_outcome_nonlocal) [t, v] 0)))
       else if k = ''external_jump'' then creturn (mk_action (Term Op_outcome_external) [] 0)
       else clift malformed)"

section \<open>Register and flag updates\<close>

definition register_update :: "compiler \<Rightarrow> string list \<Rightarrow> json \<Rightarrow> action list comp" where
  "register_update c owned raw =
     cbind (clift (object_field raw)) (\<lambda>upd.
     cbind (clift (string_field (jget upd ''register''))) (\<lambda>name.
       if name \<in> set owned then creturn []
       else cbind (clift (register_slot name)) (\<lambda>i.
            cbind (word c (jget upd ''value'')) (\<lambda>v. creturn [mk_action (Eff Op_set_reg) [v] i]))))"

definition flag_update :: "compiler \<Rightarrow> string list \<Rightarrow> json \<Rightarrow> action list comp" where
  "flag_update c owned raw =
     cbind (clift (object_field raw)) (\<lambda>upd.
     cbind (clift (string_field (jget upd ''flag''))) (\<lambda>name.
       if name \<in> set owned then creturn []
       else cbind (clift (flag_slot name)) (\<lambda>i.
            cbind (word c (jget upd ''value'')) (\<lambda>v. creturn [mk_action (Eff Op_set_flag) [v] i]))))"

text \<open>The closure \<open>compile_updates\<close>: all values are evaluated here, the assignments come later.\<close>

definition compile_updates ::
  "compiler \<Rightarrow> string list \<times> string list \<Rightarrow> json list \<Rightarrow> json list \<Rightarrow> action list comp" where
  "compile_updates c owned regs flgs =
     cbind (mapC (register_update c (fst owned)) regs) (\<lambda>rs.
     cbind (mapC (flag_update c (snd owned)) flgs) (\<lambda>fs. creturn (concat rs @ concat fs)))"

definition rep_scas_event :: "json \<Rightarrow> bool" where
  "rep_scas_event raw \<longleftrightarrow> member_of raw ''kind'' = JStr ''rep_scas''"

definition rep_scas_owned_outputs :: "json list \<Rightarrow> (string list \<times> string list) res" where
  "rep_scas_owned_outputs ordered =
     (let scans = filter rep_scas_event ordered in
      if \<exists>raw\<in>set scans. case raw of JObj ms \<Rightarrow> \<not> owned_outputs_declared ms | _ \<Rightarrow> False
      then Raise (Plan_error ''malformed_rep_scas_event'')
      else if scans = [] then Ok ([], []) else Ok (rep_scas_owned_registers, rep_scas_owned_flags))"

section \<open>Atomic actions\<close>

definition atomic_matches :: "json list \<Rightarrow> int \<Rightarrow> members list" where
  "atomic_matches acts rva =
     [ms. JObj ms \<leftarrow> acts, jget ms ''kind'' = JStr ''rmw'' \<and> py_eq (jget ms ''instruction_rva'') (JInt rva)]"

definition atomic_action_for_rva :: "compiler \<Rightarrow> int option \<Rightarrow> members option comp" where
  "atomic_action_for_rva c rva =
     (case rva of None \<Rightarrow> creturn None | Some r \<Rightarrow>
      if jget (cp_row c) ''memory_actions'' = JNull then creturn None
      else cbind (clift (object_field (jget (cp_row c) ''memory_actions''))) (\<lambda>graph.
           cbind (clift (list_field (jget graph ''actions''))) (\<lambda>acts.
             case atomic_matches acts r of
               [] \<Rightarrow> creturn None
             | [act] \<Rightarrow>
                 (case jget act ''id'' of
                    JStr ident \<Rightarrow>
                      cbind (reads (\<lambda>s. ident \<in> set (cn_atomic_ids s))) (\<lambda>seen.
                      cbind (check (\<not> seen) ''malformed_memory_action_graph'') (\<lambda>_.
                      cbind (modify (\<lambda>s. s\<lparr>cn_atomic_ids := ident # cn_atomic_ids s\<rparr>)) (\<lambda>_. creturn (Some act))))
                  | _ \<Rightarrow> refuse ''malformed_memory_action_graph'')
             | _ \<Rightarrow> refuse ''malformed_memory_action_graph'')))"

text \<open>Exactly one read and one write belong to the instruction.\<close>

definition one_read_one_write :: "json list \<Rightarrow> bool" where
  "one_read_one_write ordered =
     (sort [py_str (jget ms ''kind''). JObj ms \<leftarrow> ordered, jget ms ''family'' = JStr ''memory'']
        = [''read'', ''write''])"

text \<open>
  The value an atomic action observes: its node must be new, and its evaluation is taken back, because
  the action itself materialises it.
\<close>

definition observed_value :: "compiler \<Rightarrow> json \<Rightarrow> int comp" where
  "observed_value c observed =
     cbind (reads (\<lambda>s. length (cn_actions s))) (\<lambda>count.
     cbind (word c observed) (\<lambda>index.
     cbind (reads cn_actions) (\<lambda>acts.
     cbind (check (length acts = count + 1 \<and> last acts = mk_action (Eff Op_eval_word) [index] 0)
        ''atomic_observation_order_violation'') (\<lambda>_.
     cbind (modify (\<lambda>s. s\<lparr>cn_actions := butlast (cn_actions s)\<rparr>)) (\<lambda>_. creturn index)))))"

definition compile_atomic_action :: "compiler \<Rightarrow> members \<Rightarrow> json list \<Rightarrow> unit comp" where
  "compile_atomic_action c act ordered =
     cbind (clift (hash_in (jget act ''operation'') [JStr ''compare_exchange'', JStr ''exchange''])) (\<lambda>known.
     cbind (check known ''unsupported_atomic_rmw_lowering'') (\<lambda>_.
     cbind (check (one_read_one_write ordered) ''malformed_memory_action_graph'') (\<lambda>_.
     cbind (clift (width_field (jget act ''width_bytes''))) (\<lambda>w.
     cbind (clift (object_field (jget act ''transition''))) (\<lambda>transition.
     let observed = jget transition ''observed''; compares = (jget act ''operation'' = JStr ''compare_exchange'') in
     cbind (if compares then cbind (clift (object_field (jget act ''compare''))) (\<lambda>cmp.
              creturn (jget cmp ''expected'', jget cmp ''desired''))
            else creturn (JNull, jget transition ''written'')) (\<lambda>(expected, desired).
     cbind (check (\<not> (desired = JNull \<or> observed = JNull \<or> compares \<and> expected = JNull)) ''malformed_memory_action_graph'') (\<lambda>_.
     cbind (word c (jget act ''address'')) (\<lambda>address_node.
     cbind (if compares then cbind (word c expected) (\<lambda>n. creturn [n]) else creturn []) (\<lambda>expected_nodes.
     cbind (word c desired) (\<lambda>desired_node.
     cbind (observed_value c observed) (\<lambda>observed_node.
       emit (mk_action (Eff (if compares then Op_atomic_compare_exchange else Op_atomic_exchange))
         (address_node # expected_nodes @ [desired_node, observed_node]) w))))))))))))"

section \<open>The effects of one instruction\<close>

text \<open>One ordered event; \<open>external_index\<close> counts the external events.\<close>

definition ordered_event :: "compiler \<Rightarrow> bool \<Rightarrow> nat \<Rightarrow> json \<Rightarrow> nat comp" where
  "ordered_event c atomic external_index raw =
     cbind (clift (object_field raw)) (\<lambda>event.
       if jget event ''family'' = JStr ''memory'' then
         cbind (modify (\<lambda>s. s\<lparr>cn_memory_count := cn_memory_count s + 1\<rparr>)) (\<lambda>_.
         cbind (if atomic then creturn () else memory_event c event) (\<lambda>_. creturn external_index))
       else if jget event ''family'' = JStr ''fault'' then
         cbind (fault_event c event) (\<lambda>_. creturn external_index)
       else if jget event ''family'' = JStr ''external'' then
         cbind (clift (bind_instruction_call_boundary (cp_row c) event external_index)) (\<lambda>bound.
         cbind (external_event c bound (int external_index)) (\<lambda>_. creturn (external_index + 1)))
       else clift malformed)"

fun ordered_events :: "compiler \<Rightarrow> bool \<Rightarrow> nat \<Rightarrow> json list \<Rightarrow> unit comp" where
  "ordered_events c atomic k [] = creturn ()"
| "ordered_events c atomic k (raw # rest) =
     cbind (ordered_event c atomic k raw) (\<lambda>k'. ordered_events c atomic k' rest)"

text \<open>\<open>any(...)\<close> stops at the first call; an event kind that is not hashable raises.\<close>

fun has_call_event :: "json list \<Rightarrow> bool res" where
  "has_call_event [] = Ok False"
| "has_call_event (raw # rest) =
     (if member_of raw ''family'' = JStr ''external'' then
        bind (hash_in (member_of raw ''kind'') (map JStr call_kinds)) (\<lambda>b. if b then Ok True else has_call_event rest)
      else has_call_event rest)"

text \<open>
  Updates are evaluated before the events, except after a call, whose response they may read; they are
  assigned after the events.
\<close>

definition compile_instruction_effects :: "compiler \<Rightarrow> members \<Rightarrow> int option \<Rightarrow> unit comp" where
  "compile_instruction_effects c effects rva =
     (let ordered = optional_list (jget effects ''ordered_events'');
          regs = optional_list (jget effects ''register_writes'');
          flgs = optional_list (jget effects ''defined_flag_writes'') @ optional_list (jget effects ''undefined_flag_writes'') in
      cbind (clift (rep_scas_owned_outputs ordered)) (\<lambda>owned.
      cbind (clift (has_call_event ordered)) (\<lambda>calls_out.
      cbind (atomic_action_for_rva c rva) (\<lambda>atomic.
      cbind (case atomic of None \<Rightarrow> creturn () | Some act \<Rightarrow> compile_atomic_action c act ordered) (\<lambda>_.
      cbind (if calls_out then creturn [] else compile_updates c owned regs flgs) (\<lambda>early.
      cbind (reads (\<lambda>s. length (cn_external s))) (\<lambda>external_index.
      cbind (ordered_events c (atomic \<noteq> None) external_index ordered) (\<lambda>_.
      cbind (if calls_out then compile_updates c owned regs flgs else creturn []) (\<lambda>late.
      cbind (mapC emit (early @ late)) (\<lambda>_.
        emit (mk_action (Eff Op_sync_eflags) [] 0)))))))))))"

definition compile_symbolic_transfer :: "compiler \<Rightarrow> unit comp" where
  "compile_symbolic_transfer c =
     cbind (clift (list_field (jget (cp_row c) ''ordered_events''))) (\<lambda>ordered.
     cbind (clift (rep_scas_owned_outputs ordered)) (\<lambda>owned.
     cbind (reads (\<lambda>s. length (cn_external s))) (\<lambda>external_index.
     cbind (ordered_events c False external_index ordered) (\<lambda>_.
     cbind (clift (list_field (jget (cp_row c) ''register_writes''))) (\<lambda>regs.
     cbind (mapC (register_update c (fst owned)) regs) (\<lambda>rs.
     cbind (clift (list_field (jget (cp_row c) ''flag_writes''))) (\<lambda>flgs.
     cbind (mapC (flag_update c (snd owned)) flgs) (\<lambda>fs.
     cbind (mapC emit (concat rs @ concat fs)) (\<lambda>_.
       emit (mk_action (Eff Op_sync_eflags) [] 0))))))))))"

end
