(* ===== verification/Compiler_Schedules.thy ===== *)
theory Compiler_Schedules
  imports Transfer_Compiler
begin

text \<open>
  The paths of \<open>transfer/compiler.py\<close> that go instruction by instruction: the schedule of a machine-IR
  unit (\<open>_compile_machine_ir_transfer\<close>) with the typed x87 operations it carries. A loop over records
  that looks at the next record is a recursion on the list of records.
\<close>

section \<open>Shared pieces\<close>

definition x87_replay_model :: string where
  "x87_replay_model = ''native_exact_x87_command_replay_obligation_v1''"

definition x87_checked_decoder :: string where
  "x87_checked_decoder = ''SpaghettiExtractor.ISA.Formal.decodeInstructionExact''"

definition x87_checked_executor :: string where
  "x87_checked_executor = ''SpaghettiExtractor.ISA.Formal.executeInstruction''"

definition ordinary_checked_decoder :: string where
  "ordinary_checked_decoder = ''SpaghettiExtractor.ISA.Formal.decodeInstructionExact''"

definition ordinary_checked_executor :: string where
  "ordinary_checked_executor = ''SpaghettiExtractor.ISA.Formal.executeInstruction''"

definition instruction_effect_schedule_format :: string where
  "instruction_effect_schedule_format = ''spaghetti-extractor-static-instruction-effects-v1''"

text \<open>\<open>except ToolkitInputError as exc: raise TransferPlanError(..., code=code)\<close>.\<close>

definition input_error_as :: "string \<Rightarrow> 'a res \<Rightarrow> 'a res" where
  "input_error_as code r =
     (case r of Inl (Input_error _) \<Rightarrow> Raise (Plan_error code) | Inl (Plan_error _) \<Rightarrow> Raise (Plan_error code) | _ \<Rightarrow> r)"

text \<open>Words are sampled from the current instruction while \<open>instruction_local\<close> is set.\<close>

definition with_local :: "'a comp \<Rightarrow> 'a comp" where
  "with_local m =
     cbind (modify (\<lambda>s. s\<lparr>cn_local := True\<rparr>)) (\<lambda>_. cbind m (\<lambda>x.
     cbind (modify (\<lambda>s. s\<lparr>cn_local := False\<rparr>)) (\<lambda>_. creturn x)))"

definition append_x87 :: "x87_program \<Rightarrow> unit comp" where
  "append_x87 p =
     cbind (reads (\<lambda>s. int (length (cn_x87 s)))) (\<lambda>index.
     cbind (modify (\<lambda>s. s\<lparr>cn_x87 := cn_x87 s @ [p]\<rparr>)) (\<lambda>_.
       emit (mk_action (Eff Op_typed_x87) [index] 0)))"

definition scheduled_outcome_fields :: "string \<Rightarrow> string list" where
  "scheduled_outcome_fields k =
     (if k = ''fallthrough'' \<or> k = ''jump'' then [''target_rva'']
      else if k = ''branch'' then [''true_target_rva'', ''false_target_rva''] else [])"

definition validate_scheduled_outcome :: "members \<Rightarrow> members \<Rightarrow> unit res" where
  "validate_scheduled_outcome row control =
     bind (object_field (jget row ''outcome'')) (\<lambda>aggregate.
       if py_eq (jget control ''kind'') (jget aggregate ''kind'')
          \<and> list_all (\<lambda>f. py_eq (jget control f) (jget aggregate f))
              (scheduled_outcome_fields (py_str (jget control ''kind'')))
       then Ok () else Raise (Plan_error ''malformed_x87_instruction_effect_schedule''))"

definition cover_typed_x87_memory_events :: "members \<Rightarrow> x87_operation \<Rightarrow> unit comp" where
  "cover_typed_x87_memory_events effects oper =
     cbind (clift (input_error_as ''typed_x87_memory_event_mismatch''
       (typed_x87_covered_memory_event_count oper effects))) (\<lambda>n.
       modify (\<lambda>s. s\<lparr>cn_memory_count := cn_memory_count s + n\<rparr>))"

section \<open>Typed x87 operations of a machine-IR unit\<close>

definition unit_span :: "members \<Rightarrow> (int \<times> int) res" where
  "unit_span row =
     bind (object_field (jget row ''original'')) (\<lambda>original.
     bind (u32_field (jget original ''rva_start'')) (\<lambda>a.
     bind (u32_field (jget original ''rva_end'')) (\<lambda>b. Ok (a, b))))"

definition micro_op_bound :: "members \<Rightarrow> string \<Rightarrow> members \<Rightarrow> bool" where
  "micro_op_bound row ident micro \<longleftrightarrow>
     jget micro ''unit_id'' = JStr ident
     \<and> py_eq (jget micro ''transfer_instruction_sha256'') (jget row ''instruction_bytes_sha256'')
     \<and> jget micro ''checked_decoder'' = JStr x87_checked_decoder
     \<and> jget micro ''checked_executor'' = JStr x87_checked_executor
     \<and> jget micro ''physical_state_effect'' = JStr ''defined_by_checked_typed_x87_executor''"

definition append_machine_ir_x87_operation :: "compiler \<Rightarrow> members \<Rightarrow> x87_operation comp" where
  "append_machine_ir_x87_operation c micro =
     (let row = cp_row c in
      cbind (clift (object_field (jget row ''fpu_state''))) (\<lambda>fpu.
      cbind (clift (object_field (jget fpu ''typed_replay''))) (\<lambda>typed_replay.
      cbind (clift (string_field (jget row ''id''))) (\<lambda>ident.
      cbind (check (micro_op_bound row ident micro) ''malformed_typed_x87_operation'') (\<lambda>_.
      cbind (clift (sha256_field (jget micro ''instruction_sha256''))) (\<lambda>_.
      cbind (clift (u32_field (jget typed_replay ''image_base''))) (\<lambda>image_base.
      cbind (clift (input_error_as ''unsupported_typed_x87_operation''
        (typed_x87_operation_from_micro_op (cp_sha c) micro image_base))) (\<lambda>oper.
      cbind (clift (u32_field (jget micro ''rva_start''))) (\<lambda>start.
      cbind (clift (u32_field (jget micro ''rva_end''))) (\<lambda>stop.
      cbind (clift (unit_span row)) (\<lambda>(original_start, original_end).
      cbind (check (start < stop \<and> xi_source_size oper = stop - start \<and> original_start \<le> start \<and> stop \<le> original_end)
        ''malformed_typed_x87_operation'') (\<lambda>_.
      cbind (clift (sha256_field (jget row ''contract_sha256''))) (\<lambda>contract.
      cbind (append_x87 \<lparr>xp_contract_sha256 = contract, xp_image_base = image_base, xp_rva_start = start,
        xp_rva_end = stop, xp_operation = oper, xp_checked_decoder = x87_checked_decoder,
        xp_checked_executor = x87_checked_executor\<rparr>) (\<lambda>_.
      cbind reset_instruction_expression_cache (\<lambda>_. creturn oper)))))))))))))))"

section \<open>A unit without a schedule\<close>

abbreviation bad_schedule :: string where
  "bad_schedule \<equiv> ''malformed_machine_ir_instruction_schedule''"

definition rmw_action :: "json \<Rightarrow> bool" where
  "rmw_action raw \<longleftrightarrow> (case raw of JObj ms \<Rightarrow> jget ms ''kind'' = JStr ''rmw'' | _ \<Rightarrow> False)"

definition needs_atomic_schedule :: "members \<Rightarrow> bool" where
  "needs_atomic_schedule row \<longleftrightarrow>
     (\<exists>raw\<in>set (optional_list (member_of (jget row ''memory_actions'') ''actions'')). rmw_action raw)"

text \<open>The micro operations cover the unit without gaps; the result is the end of the last one.\<close>

fun unscheduled_micro_ops :: "compiler \<Rightarrow> int \<Rightarrow> json list \<Rightarrow> int comp" where
  "unscheduled_micro_ops c cursor [] = creturn cursor"
| "unscheduled_micro_ops c cursor (raw # rest) =
     cbind (clift (object_field raw)) (\<lambda>micro.
     cbind (clift (u32_field (jget micro ''rva_start''))) (\<lambda>start.
     cbind (clift (u32_field (jget micro ''rva_end''))) (\<lambda>stop.
     cbind (check (start = cursor \<and> start < stop) bad_schedule) (\<lambda>_.
     cbind (append_machine_ir_x87_operation c micro) (\<lambda>_. unscheduled_micro_ops c stop rest)))))"

definition compile_unscheduled :: "compiler \<Rightarrow> json list \<Rightarrow> int \<Rightarrow> int \<Rightarrow> unit comp" where
  "compile_unscheduled c micro_ops original_start original_end =
     cbind (check (\<not> needs_atomic_schedule (cp_row c)) ''atomic_instruction_schedule_missing'') (\<lambda>_.
       if micro_ops = [] then compile_symbolic_transfer c
       else cbind (unscheduled_micro_ops c original_start micro_ops) (\<lambda>cursor.
            check (cursor = original_end) bad_schedule))"

section \<open>A scheduled unit\<close>

definition schedule_header_ok :: "members \<Rightarrow> int \<Rightarrow> int \<Rightarrow> bool" where
  "schedule_header_ok sched original_start original_end \<longleftrightarrow>
     jget sched ''format'' = JStr instruction_effect_schedule_format
     \<and> jget sched ''status'' = JStr ''complete'' \<and> jget sched ''proof_authority'' = JBool False
     \<and> jget sched ''blockers'' = JList [] \<and> jget sched ''ordering'' = JStr ''strict_contiguous_rva_order''
     \<and> py_eq (jget_default sched ''rva_start'' (JInt original_start)) (JInt original_start)
     \<and> py_eq (jget_default sched ''rva_end'' (JInt original_end)) (JInt original_end)"

text \<open>\<open>micro_by_rva\<close>: the micro operations by their start; two at one address are refused.\<close>

definition micro_op_entry :: "(int \<times> members) list \<Rightarrow> json \<Rightarrow> (int \<times> members) list res" where
  "micro_op_entry table raw =
     bind (object_field raw) (\<lambda>micro.
     bind (u32_field (jget micro ''rva_start'')) (\<lambda>rva.
       if rva \<in> fst ` set table then Raise (Plan_error bad_schedule) else Ok (table @ [(rva, micro)])))"

definition unproved_proposal :: "members \<Rightarrow> bool" where
  "unproved_proposal classification \<longleftrightarrow>
     jget classification ''status'' = JStr ''proposal_requires_lean_exact_byte_replay''
     \<and> jget classification ''proof_authority'' = JBool False"

definition names_checker :: "members \<Rightarrow> string \<Rightarrow> string \<Rightarrow> bool" where
  "names_checker ms decoder executor \<longleftrightarrow>
     jget ms ''checked_decoder'' = JStr decoder \<and> jget ms ''checked_executor'' = JStr executor"

text \<open>
  The control of a record: its own, or the fall through to the next record, or the outcome of the unit.
\<close>

definition record_control :: "members \<Rightarrow> members \<Rightarrow> json list \<Rightarrow> json" where
  "record_control row effects later =
     (if jget effects ''control'' \<noteq> JNull then jget effects ''control''
      else case later of
          JObj nxt # _ \<Rightarrow> JObj [(''kind'', JStr ''fallthrough''), (''target_rva'', jget nxt ''rva_start'')]
        | _ \<Rightarrow> jget row ''outcome'')"

definition falls_to :: "members \<Rightarrow> json \<Rightarrow> bool" where
  "falls_to control rva \<longleftrightarrow> jget control ''kind'' = JStr ''fallthrough'' \<and> py_eq (jget control ''target_rva'') rva"

definition check_record_control :: "members \<Rightarrow> members \<Rightarrow> json list \<Rightarrow> unit res" where
  "check_record_control row control later =
     (case later of
        [] \<Rightarrow> validate_scheduled_outcome row control
      | raw # _ \<Rightarrow> bind (object_field raw) (\<lambda>nxt.
          if falls_to control (jget nxt ''rva_start'') then Ok () else Raise (Plan_error bad_schedule)))"

definition set_outcome :: "compiler \<Rightarrow> members \<Rightarrow> unit comp" where
  "set_outcome c control =
     cbind (compile_outcome c control) (\<lambda>a. modify (\<lambda>s. s\<lparr>cn_outcome := Some a\<rparr>))"

definition x87_record :: "compiler \<Rightarrow> (int \<times> members) list \<Rightarrow> int \<Rightarrow> int \<Rightarrow> members \<Rightarrow> members \<Rightarrow> unit comp" where
  "x87_record c table rva rva_end classification effects =
     (case map_of table rva of
        None \<Rightarrow> refuse bad_schedule
      | Some micro \<Rightarrow>
          cbind (check (py_eq (jget micro ''rva_end'') (JInt rva_end)
            \<and> names_checker classification x87_checked_decoder x87_checked_executor) bad_schedule) (\<lambda>_.
          cbind (append_machine_ir_x87_operation c micro) (\<lambda>oper. cover_typed_x87_memory_events effects oper)))"

definition ordinary_record :: "compiler \<Rightarrow> int option \<Rightarrow> members \<Rightarrow> members \<Rightarrow> bool \<Rightarrow> unit comp" where
  "ordinary_record c rva effects control final =
     cbind reset_instruction_expression_cache (\<lambda>_.
     with_local (cbind (compile_instruction_effects c effects rva) (\<lambda>_.
       if final then set_outcome c control else creturn ())))"

text \<open>A terminal control that follows an x87 instruction reads the current state as well.\<close>

definition terminal_control :: "compiler \<Rightarrow> members \<Rightarrow> bool \<Rightarrow> unit comp" where
  "terminal_control c control final =
     cbind (reads cn_outcome) (\<lambda>known.
       if final \<and> known = None then with_local (set_outcome c control) else creturn ())"

text \<open>
  The x87 instructions seen and the ordinary ones counted so far, with the cursor. A record is
  processed in one step; its class decides which of the two counts grows.
\<close>

type_synonym progress = "int \<times> int list \<times> int"

definition schedule_record ::
  "compiler \<Rightarrow> (int \<times> members) list \<Rightarrow> progress \<Rightarrow> json \<Rightarrow> json list \<Rightarrow> progress comp" where
  "schedule_record c table progress raw later =
     (let (cursor, used, ordinary) = progress in
      cbind (clift (object_field raw)) (\<lambda>rec.
      cbind (clift (u32_field (jget rec ''rva_start''))) (\<lambda>rva.
      cbind (clift (u32_field (jget rec ''rva_end''))) (\<lambda>rva_end.
      cbind (check (rva = cursor \<and> rva < rva_end) bad_schedule) (\<lambda>_.
      cbind (clift (object_field (jget rec ''classification''))) (\<lambda>classification.
      cbind (check (unproved_proposal classification) bad_schedule) (\<lambda>_.
      cbind (clift (object_field (let e = jget rec ''effects'' in if py_truthy e then e else JObj []))) (\<lambda>effects.
      cbind (clift (object_field (record_control (cp_row c) effects later))) (\<lambda>control.
      cbind (clift (check_record_control (cp_row c) control later)) (\<lambda>_.
      cbind (if jget rec ''instruction_class'' = JStr ''x87_singleton_checked_replay'' then
               cbind (x87_record c table rva rva_end classification effects) (\<lambda>_. creturn (rva # used, ordinary))
             else if jget rec ''instruction_class'' = JStr ''ordinary_symbolic_instruction'' then
               cbind (check (names_checker classification ordinary_checked_decoder ordinary_checked_executor)
                 bad_schedule) (\<lambda>_.
               cbind (ordinary_record c (Some rva) effects control (later = [])) (\<lambda>_. creturn (used, ordinary + 1)))
             else refuse bad_schedule) (\<lambda>(used', ordinary').
      cbind (terminal_control c control (later = [])) (\<lambda>_. creturn (rva_end, used', ordinary')))))))))))))"

fun schedule_records ::
  "compiler \<Rightarrow> (int \<times> members) list \<Rightarrow> progress \<Rightarrow> json list \<Rightarrow> progress comp" where
  "schedule_records c table progress [] = creturn progress"
| "schedule_records c table progress (raw # later) =
     cbind (schedule_record c table progress raw later) (\<lambda>p. schedule_records c table p later)"

definition compile_scheduled :: "compiler \<Rightarrow> json list \<Rightarrow> json \<Rightarrow> int \<Rightarrow> int \<Rightarrow> unit comp" where
  "compile_scheduled c micro_ops raw_schedule original_start original_end =
     cbind (clift (object_field raw_schedule)) (\<lambda>sched.
     cbind (check (schedule_header_ok sched original_start original_end) bad_schedule) (\<lambda>_.
     cbind (clift (list_field (jget sched ''records''))) (\<lambda>records.
     cbind (clift (object_field (jget sched ''counts''))) (\<lambda>counts.
     cbind (check (py_eq (jget counts ''instructions'') (JInt (int (length records)))
       \<and> py_eq (jget counts ''blockers'') (JInt 0)) bad_schedule) (\<lambda>_.
     cbind (clift (foldM micro_op_entry [] micro_ops)) (\<lambda>table.
     cbind (schedule_records c table (original_start, [], 0) records) (\<lambda>(cursor, used, ordinary).
     cbind (check (set used = fst ` set table) bad_schedule) (\<lambda>_.
       check (cursor = original_end \<and> py_eq (jget counts ''x87_singletons'') (JInt (int (length used)))
         \<and> py_eq (jget counts ''ordinary_instructions'') (JInt ordinary)) bad_schedule))))))))"

definition compile_machine_ir_transfer :: "compiler \<Rightarrow> json list \<Rightarrow> unit comp" where
  "compile_machine_ir_transfer c micro_ops =
     cbind (clift (unit_span (cp_row c))) (\<lambda>(original_start, original_end).
       if jget (cp_row c) ''instruction_effect_schedule'' = JNull
       then compile_unscheduled c micro_ops original_start original_end
       else compile_scheduled c micro_ops (jget (cp_row c) ''instruction_effect_schedule'') original_start original_end)"

end
