(* ===== verification/Finite_Control.thy ===== *)
theory Finite_Control
  imports Transfer_Plan
begin

text \<open>
  Finite control routes (\<open>transfer/finite_control.py\<close>): a checked jump table. An inventory lists, for
  a transfer that ends in an indirect jump through a table of 32-bit addresses, the selector values,
  the table entries and their targets. \<open>_finite_control_transfer_binding\<close> recognises the table load in
  the compiled expression graph, \<open>_validate_finite_control_routes\<close> checks an inventory against it.

  The nested function \<open>tree\<close> recurses over the expression graph; its parameter \<open>depth\<close> is the
  recursion limit. The SHA-256 of a text is the parameter \<open>sha\<close>; bytes are the text of their values.
\<close>

definition bad_routes :: "'a res" where
  "bad_routes = Raise (Plan_error ''malformed_finite_control_routes'')"

definition stale_plan :: "'a res" where
  "stale_plan = Raise (Plan_error ''stale_executable_transfer_plan'')"

section \<open>The table load of a transfer\<close>

primrec expression_tree :: "nat \<Rightarrow> node list \<Rightarrow> int \<Rightarrow> json res" where
  "expression_tree 0 nds i = Raise Recursion_error"
| "expression_tree (Suc depth) nds i =
     bind (py_index nds i) (\<lambda>nd.
     bind (mapM (expression_tree depth nds) (node_args nd)) (\<lambda>args.
       Ok (JObj [(''op'', JStr (op_name (node_op nd))), (''args'', JList args), (''aux'', JInt (node_aux nd)),
                 (''immediate'', JInt (node_immediate nd)), (''identity'', opt_str (node_identity nd))])))"

definition tree_digest :: "(string \<Rightarrow> string) \<Rightarrow> nat \<Rightarrow> node list \<Rightarrow> int \<Rightarrow> string res" where
  "tree_digest sha depth nds i = bind (expression_tree depth nds i) (\<lambda>t. Ok (json_digest sha t))"

definition both_orders :: "int list \<Rightarrow> (int \<times> int) list" where
  "both_orders args = [(args ! 0, args ! 1), (args ! 1, args ! 0)]"

definition u8_index_loads :: "(string \<Rightarrow> string) \<Rightarrow> nat \<Rightarrow> node list \<Rightarrow> int \<Rightarrow> (int \<times> string) list res" where
  "u8_index_loads sha depth nds i =
     bind (py_index nds i) (\<lambda>nd.
       if node_op nd = Word Op_load \<and> node_aux nd = 1 \<and> length (node_args nd) = 1 then
         bind (py_index nds (hd (node_args nd))) (\<lambda>address.
           if node_op address = Word Op_add32 \<and> length (node_args address) = 2 then
             bind (mapM (\<lambda>(c, source). bind (py_index nds c) (\<lambda>constant.
               if node_op constant = Word Op_const
               then bind (tree_digest sha depth nds source) (\<lambda>d. Ok [(node_immediate constant, d)])
               else Ok [])) (both_orders (node_args address))) (\<lambda>found. Ok (concat found))
           else Ok [])
       else Ok [])"

text \<open>The index nodes that \<open>scaled\<close> multiplies by four.\<close>

definition scaled_indices :: "node list \<Rightarrow> node \<Rightarrow> int list res" where
  "scaled_indices nds scaled =
     (if node_op scaled = Word Op_shl32 \<and> length (node_args scaled) = 2 then
        bind (py_index nds (node_args scaled ! 1)) (\<lambda>shift.
          Ok (if node_op shift = Word Op_const \<and> node_immediate shift = 2 then [node_args scaled ! 0] else []))
      else if node_op scaled \<noteq> Word Op_mul32 \<or> length (node_args scaled) \<noteq> 2 then Ok []
      else bind (mapM (\<lambda>(i, s). bind (py_index nds s) (\<lambda>scale.
             Ok (if node_op scale = Word Op_const \<and> node_immediate scale = 4 then [i] else [])))
             (both_orders (node_args scaled))) (\<lambda>found. Ok (concat found)))"

definition table_candidates :: "node list \<Rightarrow> node \<Rightarrow> (int \<times> int) list res" where
  "table_candidates nds address =
     bind (mapM (\<lambda>(c, s). bind (py_index nds c) (\<lambda>constant. bind (py_index nds s) (\<lambda>scaled.
        if node_op constant \<noteq> Word Op_const then Ok []
        else bind (scaled_indices nds scaled) (\<lambda>is. Ok (map (Pair (node_immediate constant)) is)))))
        (both_orders (node_args address))) (\<lambda>found. Ok (concat found))"

record control_binding =
  cb_table_address :: int
  cb_outcome_sha256 :: string
  cb_index_sha256 :: string
  cb_u8_loads :: "(int \<times> string) list"

definition table_load :: "transfer \<Rightarrow> (int \<times> int) option res" where
  "table_load t =
     (if actions t = [] \<or> act_op (last (actions t)) \<noteq> Term Op_outcome_indirect
         \<or> length (act_args (last (actions t))) \<noteq> 1 then Ok None
      else bind (py_index (nodes t) (hd (act_args (last (actions t))))) (\<lambda>root.
        if node_op root \<noteq> Word Op_load \<or> node_aux root \<noteq> 4 \<or> length (node_args root) \<noteq> 1 then Ok None
        else bind (py_index (nodes t) (hd (node_args root))) (\<lambda>address.
          if node_op address \<noteq> Word Op_add32 \<or> length (node_args address) \<noteq> 2 then Ok None
          else bind (table_candidates (nodes t) address) (\<lambda>cands.
            case cands of [c] \<Rightarrow> Ok (Some c) | _ \<Rightarrow> Ok None))))"

definition finite_control_transfer_binding ::
  "(string \<Rightarrow> string) \<Rightarrow> nat \<Rightarrow> transfer \<Rightarrow> control_binding option res" where
  "finite_control_transfer_binding sha depth t =
     bind (table_load t) (\<lambda>load. case load of None \<Rightarrow> Ok None | Some (table_address, index_node) \<Rightarrow>
     bind (mapM (u8_index_loads sha depth (nodes t)) (map int [0..<length (nodes t)])) (\<lambda>loads.
     bind (tree_digest sha depth (nodes t) (hd (act_args (last (actions t))))) (\<lambda>outcome.
     bind (tree_digest sha depth (nodes t) index_node) (\<lambda>index.
       Ok (Some \<lparr>cb_table_address = table_address, cb_outcome_sha256 = outcome, cb_index_sha256 = index,
                 cb_u8_loads = sort (remdups (concat loads))\<rparr>)))))"

section \<open>Reading an inventory\<close>

record route =
  rt_selector :: int
  rt_entry_address :: int
  rt_entry_rva :: int
  rt_bytes :: "int list"
  rt_target_rva :: int
  rt_target_address :: int

definition is_byte :: "json \<Rightarrow> bool" where
  "is_byte v = (case v of JInt n \<Rightarrow> 0 \<le> n \<and> n \<le> 0xFF | _ \<Rightarrow> False)"

definition byte_of :: "json \<Rightarrow> int" where
  "byte_of v = (case v of JInt n \<Rightarrow> n | _ \<Rightarrow> 0)"

definition byte_text :: "int list \<Rightarrow> string" where
  "byte_text bs = map (\<lambda>b. char_of (nat b)) bs"

definition le_value :: "int list \<Rightarrow> int" where
  "le_value bs = foldr (\<lambda>b v. b + 256 * v) bs 0"

definition le_bytes :: "int \<Rightarrow> int list" where
  "le_bytes n = map (\<lambda>k. drop_bit (8 * k) n AND 0xFF) [0..<4]"

definition read_route :: "json \<Rightarrow> route res" where
  "read_route raw =
     bind (object_field raw) (\<lambda>r.
       if \<not> has_fields r [''selector_value'', ''entry_address'', ''entry_rva'', ''bytes_le'', ''target_rva'', ''target_address'']
       then bad_routes
       else bind (list_field (jget r ''bytes_le'')) (\<lambda>bs.
         if length bs \<noteq> 4 \<or> \<not> list_all is_byte bs then bad_routes
         else bind (u32_field (jget r ''selector_value'')) (\<lambda>sel.
              bind (u32_field (jget r ''entry_address'')) (\<lambda>entry.
              bind (u32_field (jget r ''entry_rva'')) (\<lambda>entry_rva.
              bind (u32_field (jget r ''target_rva'')) (\<lambda>target_rva.
              bind (u32_field (jget r ''target_address'')) (\<lambda>target.
                Ok \<lparr>rt_selector = sel, rt_entry_address = entry, rt_entry_rva = entry_rva,
                    rt_bytes = map byte_of bs, rt_target_rva = target_rva, rt_target_address = target\<rparr>)))))))"

definition route_payload :: "route \<Rightarrow> json" where
  "route_payload r = JObj
     [(''selector_value'', JInt (rt_selector r)), (''entry_address'', JInt (rt_entry_address r)),
      (''entry_rva'', JInt (rt_entry_rva r)), (''bytes_le'', JList (map JInt (rt_bytes r))),
      (''target_rva'', JInt (rt_target_rva r)), (''target_address'', JInt (rt_target_address r))]"

record control_row =
  cr_unit_id :: string
  cr_source_rva :: int
  cr_source_sha256 :: string
  cr_outcome_sha256 :: string
  cr_index_sha256 :: string
  cr_domain_sha256 :: string
  cr_provenance :: members
  cr_pe_sha256 :: string
  cr_image_base :: int
  cr_image_size :: int
  cr_table_address :: int
  cr_table_start :: int
  cr_table_end :: int
  cr_table_bytes_sha256 :: string
  cr_table_inventory_sha256 :: string
  cr_routes :: "route list"

definition control_fields :: "string list" where
  "control_fields =
     [''unit_id'', ''source_rva'', ''source_unit_ir_sha256'', ''outcome_expression_sha256'',
      ''index_expression_sha256'', ''selector_domain_sha256'', ''index_provenance'', ''pe_sha256'',
      ''image_base'', ''image_size'', ''table'', ''routes'', ''route_inventory_sha256'']"

text \<open>The table of a row: its address, its range and the two digests.\<close>

definition read_table :: "members \<Rightarrow> (int \<times> int \<times> int \<times> string \<times> string) res" where
  "read_table table =
     (if \<not> has_fields table [''address'', ''rva_start'', ''rva_end'', ''entry_width'', ''bytes_sha256'', ''inventory_sha256'']
      then bad_routes
      else bind (u32_field (jget table ''address'')) (\<lambda>address.
           bind (u32_field (jget table ''rva_start'')) (\<lambda>start.
           bind (u32_field (jget table ''rva_end'')) (\<lambda>stop.
           if \<not> py_eq (jget table ''entry_width'') (JInt 4) \<or> stop \<le> start then bad_routes
           else bind (sha256_field (jget table ''bytes_sha256'')) (\<lambda>bytes_sha.
                bind (sha256_field (jget table ''inventory_sha256'')) (\<lambda>inventory_sha.
                  Ok (address, start, stop, bytes_sha, inventory_sha)))))))"

definition read_control_row :: "string option \<Rightarrow> members \<Rightarrow> control_row res" where
  "read_control_row pe row =
     (if \<not> has_fields row control_fields then bad_routes
      else
        bind (string_field (jget row ''unit_id'')) (\<lambda>unit_id.
        bind (u32_field (jget row ''source_rva'')) (\<lambda>source_rva.
        bind (sha256_field (jget row ''source_unit_ir_sha256'')) (\<lambda>source_sha.
        bind (sha256_field (jget row ''outcome_expression_sha256'')) (\<lambda>outcome_sha.
        bind (sha256_field (jget row ''index_expression_sha256'')) (\<lambda>index_sha.
        bind (sha256_field (jget row ''selector_domain_sha256'')) (\<lambda>domain_sha.
        bind (object_field (jget row ''index_provenance'')) (\<lambda>provenance.
        bind (sha256_field (jget row ''pe_sha256'')) (\<lambda>pe_sha.
        bind (u32_field (jget row ''image_base'')) (\<lambda>base.
        bind (nonnegative (jget row ''image_size'')) (\<lambda>sz.
        if sz \<le> 0 \<or> base + sz > 0x100000000 \<or> (pe \<noteq> None \<and> pe \<noteq> Some pe_sha) then bad_routes
        else
        bind (object_field (jget row ''table'')) (\<lambda>table.
        bind (read_table table) (\<lambda>(address, start, stop, bytes_sha, inventory_sha).
        bind (list_field (jget row ''routes'')) (\<lambda>raws.
        bind (mapM read_route raws) (\<lambda>routes.
          Ok \<lparr>cr_unit_id = unit_id, cr_source_rva = source_rva, cr_source_sha256 = source_sha,
              cr_outcome_sha256 = outcome_sha, cr_index_sha256 = index_sha, cr_domain_sha256 = domain_sha,
              cr_provenance = provenance, cr_pe_sha256 = pe_sha, cr_image_base = base, cr_image_size = sz,
              cr_table_address = address, cr_table_start = start, cr_table_end = stop,
              cr_table_bytes_sha256 = bytes_sha, cr_table_inventory_sha256 = inventory_sha,
              cr_routes = routes\<rparr>)))))))))))))))"

section \<open>Checking an inventory\<close>

definition routes_ordered :: "route list \<Rightarrow> bool" where
  "routes_ordered rs \<longleftrightarrow> rs \<noteq> []
     \<and> rs = sort_key (\<lambda>r. (rt_selector r, rt_entry_address r, rt_target_rva r, rt_target_address r)) rs
     \<and> distinct (map rt_selector rs)"

definition route_bound :: "control_row \<Rightarrow> route \<Rightarrow> bool" where
  "route_bound row r \<longleftrightarrow>
     rt_entry_address r = (cr_table_address row + rt_selector r * 4) AND 0xFFFFFFFF
     \<and> rt_entry_address r = cr_image_base row + rt_entry_rva r
     \<and> rt_target_address r = cr_image_base row + rt_target_rva r
     \<and> rt_entry_rva r + 4 \<le> cr_image_size row \<and> rt_target_rva r < cr_image_size row
     \<and> le_value (rt_bytes r) = rt_target_address r"

definition table_bound :: "(string \<Rightarrow> string) \<Rightarrow> control_row \<Rightarrow> bool" where
  "table_bound sha row \<longleftrightarrow>
     cr_table_start row = Min (set (map rt_entry_rva (cr_routes row)))
     \<and> cr_table_end row = Max (set (map rt_entry_rva (cr_routes row))) + 4
     \<and> cr_table_bytes_sha256 row = sha (byte_text (concat (map rt_bytes (sort_key rt_entry_rva (cr_routes row)))))
     \<and> cr_table_inventory_sha256 row
        = sha (byte_text (concat (map (\<lambda>r. le_bytes (rt_selector r) @ rt_bytes r) (cr_routes row))))"

definition remap_fields :: "string list" where
  "remap_fields =
     [''kind'', ''source_expression_sha256'', ''source_upper_exclusive'', ''address'', ''rva_start'',
      ''rva_end'', ''bytes_sha256'', ''bytes_le'', ''possible_values'']"

definition check_remap ::
  "(string \<Rightarrow> string) \<Rightarrow> control_row \<Rightarrow> control_binding option \<Rightarrow> members \<Rightarrow> unit res" where
  "check_remap sha row binding p =
     bind (sha256_field (jget p ''source_expression_sha256'')) (\<lambda>source_sha.
     bind (nonnegative (jget p ''source_upper_exclusive'')) (\<lambda>upper.
     bind (u32_field (jget p ''address'')) (\<lambda>address.
     bind (u32_field (jget p ''rva_start'')) (\<lambda>start.
     bind (u32_field (jget p ''rva_end'')) (\<lambda>stop.
     bind (list_field (jget p ''bytes_le'')) (\<lambda>bs.
     bind (bind (list_field (jget p ''possible_values'')) (mapM u32_field)) (\<lambda>possible.
     let matching = (case binding of None \<Rightarrow> []
           | Some b \<Rightarrow> filter (\<lambda>l. l = (address, source_sha)) (cb_u8_loads b)) in
     if upper \<le> 0 \<or> int (length bs) \<noteq> upper \<or> \<not> list_all is_byte bs
        \<or> possible \<noteq> sort (remdups (map byte_of bs)) \<or> possible \<noteq> map rt_selector (cr_routes row)
        \<or> address \<noteq> cr_image_base row + start \<or> stop \<noteq> start + upper \<or> stop > cr_image_size row
        \<or> jget p ''bytes_sha256'' \<noteq> JStr (sha (byte_text (map byte_of bs))) \<or> length matching \<noteq> 1
     then bad_routes else Ok ())))))))"

definition check_provenance ::
  "(string \<Rightarrow> string) \<Rightarrow> control_row \<Rightarrow> control_binding option \<Rightarrow> unit res" where
  "check_provenance sha row binding =
     (let p = cr_provenance row; k = jget p ''kind'' in
      if k = JStr ''direct_index'' then (if has_fields p [''kind''] then Ok () else bad_routes)
      else if k = JStr ''immutable_u8_remap'' then
        (if \<not> has_fields p remap_fields then bad_routes else check_remap sha row binding p)
      else bad_routes)"

definition control_core :: "control_row \<Rightarrow> json" where
  "control_core row = JObj
     [(''unit_id'', JStr (cr_unit_id row)), (''source_rva'', JInt (cr_source_rva row)),
      (''source_unit_ir_sha256'', JStr (cr_source_sha256 row)),
      (''outcome_expression_sha256'', JStr (cr_outcome_sha256 row)),
      (''index_expression_sha256'', JStr (cr_index_sha256 row)),
      (''selector_domain_sha256'', JStr (cr_domain_sha256 row)),
      (''index_provenance'', JObj (cr_provenance row)), (''pe_sha256'', JStr (cr_pe_sha256 row)),
      (''image_base'', JInt (cr_image_base row)), (''image_size'', JInt (cr_image_size row)),
      (''table'', JObj
         [(''address'', JInt (cr_table_address row)), (''rva_start'', JInt (cr_table_start row)),
          (''rva_end'', JInt (cr_table_end row)), (''entry_width'', JInt 4),
          (''bytes_sha256'', JStr (cr_table_bytes_sha256 row)),
          (''inventory_sha256'', JStr (cr_table_inventory_sha256 row))]),
      (''routes'', JList (map route_payload (cr_routes row)))]"

definition authority_bound ::
  "(string \<times> transfer) list \<Rightarrow> (string \<times> members) list \<Rightarrow> control_row \<Rightarrow> control_binding option \<Rightarrow> bool" where
  "authority_bound transfers inventory row binding \<longleftrightarrow>
     (case (map_of transfers (cr_unit_id row), binding, map_of inventory (cr_unit_id row)) of
        (Some t, Some b, Some u) \<Rightarrow>
          rva_start t = cr_source_rva row \<and> cb_table_address b = cr_table_address row
          \<and> cb_outcome_sha256 b = cr_outcome_sha256 row \<and> cb_index_sha256 b = cr_index_sha256 row
          \<and> jget u ''unit_ir_sha256'' = JStr (cr_source_sha256 row)
          \<and> (\<forall>r\<in>set (cr_routes row). rt_target_rva r \<in> rva_start ` snd ` set transfers)
      | _ \<Rightarrow> False)"

definition check_control_row ::
  "(string \<Rightarrow> string) \<Rightarrow> nat \<Rightarrow> (string \<times> transfer) list \<Rightarrow> (string \<times> members) list \<Rightarrow> string option \<Rightarrow> json
   \<Rightarrow> (int \<times> string) res" where
  "check_control_row sha depth transfers inventory pe raw =
     bind (object_field raw) (\<lambda>ms.
     bind (read_control_row pe ms) (\<lambda>row.
     if \<not> routes_ordered (cr_routes row) \<or> \<not> list_all (route_bound row) (cr_routes row)
        \<or> \<not> table_bound sha row then bad_routes
     else
       bind (case map_of transfers (cr_unit_id row) of None \<Rightarrow> Ok None
             | Some t \<Rightarrow> finite_control_transfer_binding sha depth t) (\<lambda>binding.
       bind (check_provenance sha row binding) (\<lambda>_.
       if \<not> authority_bound transfers inventory row binding then bad_routes
       else if jget ms ''route_inventory_sha256'' \<noteq> JStr (json_digest sha (control_core row)) then stale_plan
       else Ok (cr_source_rva row, cr_unit_id row)))))"

definition validate_finite_control_routes ::
  "(string \<Rightarrow> string) \<Rightarrow> nat \<Rightarrow> json list \<Rightarrow> (string \<times> transfer) list \<Rightarrow> (string \<times> members) list \<Rightarrow> string option
   \<Rightarrow> unit res" where
  "validate_finite_control_routes sha depth rows transfers inventory pe =
     bind (mapM (check_control_row sha depth transfers inventory pe) rows) (\<lambda>keys.
       if keys \<noteq> sort (remdups keys) then bad_routes else Ok ())"

end
