(* ===== verification/Compiler_Replay.thy ===== *)
theory Compiler_Replay
  imports Compiler_Schedules Finite_Control
begin

text \<open>
  The native x87 replay obligation of \<open>transfer/compiler.py\<close> (\<open>_compile_x87_replay\<close> and
  \<open>_compile_instruction_effect_schedule\<close>), the exception occurrences and \<open>compile\<close> itself, with the
  helpers of \<open>transfer/values.py\<close> they use.
\<close>

section \<open>Typed x87 programs and candidates\<close>

definition typed_x87_program ::
  "compiler \<Rightarrow> string \<Rightarrow> int \<Rightarrow> int \<Rightarrow> int \<Rightarrow> int list \<Rightarrow> members \<Rightarrow> x87_program res" where
  "typed_x87_program c contract image_base start stop encoded instr =
     bind (input_error_as ''unsupported_typed_x87_operation''
       (extract_typed_x87_operation (cp_sha c) (cp_decoder c) encoded instr image_base)) (\<lambda>oper.
       if xi_source_size oper \<noteq> stop - start then Raise (Plan_error ''malformed_typed_x87_operation'')
       else Ok \<lparr>xp_contract_sha256 = contract, xp_image_base = image_base, xp_rva_start = start,
         xp_rva_end = stop, xp_operation = oper, xp_checked_decoder = x87_checked_decoder,
         xp_checked_executor = x87_checked_executor\<rparr>)"

definition x87_singleton_candidate :: "int list \<Rightarrow> members \<Rightarrow> bool" where
  "x87_singleton_candidate encoded instr =
     (case jget instr ''mnemonic'' of
        JStr raw \<Rightarrow>
          (let m = py_lower raw in
           if m = ''wait'' then encoded = [0x9B]
           else take 1 m = ''f'' \<and> (\<exists>b\<in>set (take 4 encoded). 0xD8 \<le> b \<and> b \<le> 0xDF))
      | _ \<Rightarrow> False)"

definition to_hex :: "int list \<Rightarrow> string" where
  "to_hex bs = concat (map (\<lambda>b. [hex_char (nat b div 16), hex_char (nat b mod 16)]) bs)"

definition sha256_bytes :: "compiler \<Rightarrow> int list \<Rightarrow> string" where
  "sha256_bytes c bs = cp_sha c (byte_text bs)"

section \<open>The replay obligation\<close>

definition x87_replay_format :: string where
  "x87_replay_format = ''spaghetti-extractor-native-exact-x87-command-replay-obligation-v1''"

definition x87_physical_fields :: "string list" where
  "x87_physical_fields =
     [''stack'', ''tags'', ''control'', ''status'', ''pending_exception'', ''last_opcode'',
      ''instruction_pointer'', ''code_selector'', ''data_pointer'', ''data_selector'']"

abbreviation bad_replay :: string where
  "bad_replay \<equiv> ''malformed_x87_replay''"

definition require :: "bool \<Rightarrow> string \<Rightarrow> unit res" where
  "require ok code = (if ok then Ok () else Raise (Plan_error code))"

definition missing_fields_ok :: "json \<Rightarrow> bool" where
  "missing_fields_ok v =
     (case v of JList xs \<Rightarrow> xs \<noteq> [] \<and> distinct xs \<and> set xs \<subseteq> JStr ` set x87_physical_fields | _ \<Rightarrow> False)"

definition obligation_ok :: "members \<Rightarrow> bool" where
  "obligation_ok fpu \<longleftrightarrow>
     jget fpu ''status'' = JStr ''required''
     \<and> jget fpu ''authoritative_state_type'' = JStr ''SpaghettiExtractor.ISA.X87.PhysicalState''
     \<and> jget fpu ''required_fields'' = JList (map JStr x87_physical_fields)
     \<and> missing_fields_ok (jget fpu ''missing_or_invalid_fields'')
     \<and> list_all (\<lambda>f. f = ''status'' \<or> \<not> jhas fpu f) x87_physical_fields"

definition replay_declared :: "members \<Rightarrow> bool" where
  "replay_declared replay \<longleftrightarrow>
     jget replay ''format'' = JStr x87_replay_format \<and> names_checker replay x87_checked_decoder x87_checked_executor
     \<and> jget replay ''architecture'' = JStr ''x86'' \<and> py_eq (jget replay ''bitness'') (JInt 32)"

text \<open>The span of the unit, which the replay repeats.\<close>

definition replay_span :: "members \<Rightarrow> members \<Rightarrow> (int \<times> int) res" where
  "replay_span row replay =
     bind (object_field (jget row ''original'')) (\<lambda>original.
     bind (unit_span row) (\<lambda>(a, b).
     bind (require (a < b) bad_replay) (\<lambda>_.
     bind (require (jget original ''size'' = JNull \<or> py_eq (jget original ''size'') (JInt (b - a))) bad_replay) (\<lambda>_.
     bind (require (py_eq (jget replay ''rva_start'') (JInt a) \<and> py_eq (jget replay ''rva_end'') (JInt b)) bad_replay) (\<lambda>_.
       Ok (a, b))))))"

text \<open>The exact bytes of the span and their digest, which is also the digest of the transfer.\<close>

definition replay_bytes :: "compiler \<Rightarrow> members \<Rightarrow> int \<Rightarrow> (int list \<times> string) res" where
  "replay_bytes c replay len =
     bind (hex_bytes (jget replay ''bytes'')) (\<lambda>encoded.
     bind (require (int (length encoded) = len) bad_replay) (\<lambda>_.
     bind (sha256_field (jget replay ''bytes_sha256'')) (\<lambda>digest.
     bind (require (sha256_bytes c encoded = digest) bad_replay) (\<lambda>_.
     bind (sha256_field (jget (cp_row c) ''instruction_bytes_sha256'')) (\<lambda>transfer_digest.
     bind (require (digest = transfer_digest) bad_replay) (\<lambda>_. Ok (encoded, transfer_digest)))))))"

text \<open>An instruction of the replay: its start, its end, its bytes and the outer instruction.\<close>

type_synonym replayed = "int \<times> int \<times> int list \<times> members"

definition replay_instruction :: "int \<Rightarrow> json \<Rightarrow> json \<Rightarrow> replayed res" where
  "replay_instruction expected_rva replay_raw outer_raw =
     bind (object_field replay_raw) (\<lambda>inner.
     bind (object_field outer_raw) (\<lambda>outer.
     bind (u32_field (jget inner ''rva'')) (\<lambda>rva.
     bind (nonnegative (jget inner ''size'')) (\<lambda>sz.
     bind (hex_bytes (jget inner ''bytes'')) (\<lambda>bs.
     bind (require (sz \<noteq> 0 \<and> sz = int (length bs) \<and> rva = expected_rva) bad_replay) (\<lambda>_.
     bind (require (py_eq (jget outer ''rva'') (JInt rva) \<and> py_eq (jget outer ''size'') (JInt sz)
       \<and> jget outer ''bytes'' = JStr (to_hex bs)) bad_replay) (\<lambda>_.
       Ok (rva, rva + sz, bs, outer))))))))"

fun replay_instructions :: "int \<Rightarrow> (json \<times> json) list \<Rightarrow> replayed list res" where
  "replay_instructions expected_rva [] = Ok []"
| "replay_instructions expected_rva ((inner, outer) # rest) =
     bind (replay_instruction expected_rva inner outer) (\<lambda>r.
     bind (replay_instructions (fst (snd r)) rest) (\<lambda>rs. Ok (r # rs)))"

definition replay_inventory :: "members \<Rightarrow> members \<Rightarrow> int \<Rightarrow> int \<Rightarrow> int list \<Rightarrow> replayed list res" where
  "replay_inventory row replay start stop encoded =
     (case (jget replay ''instructions'', jget row ''instructions'') of
        (JList inner, JList outer) \<Rightarrow>
          bind (require (inner \<noteq> [] \<and> length outer = length inner) bad_replay) (\<lambda>_.
          bind (replay_instructions start (zip inner outer)) (\<lambda>rs.
          bind (require (fst (snd (last rs)) = stop \<and> concat (map (\<lambda>(_, _, bs, _). bs) rs) = encoded) bad_replay)
            (\<lambda>_. Ok rs)))
      | _ \<Rightarrow> Raise (Plan_error bad_replay))"

section \<open>The schedule of a replay\<close>

abbreviation bad_effects :: string where
  "bad_effects \<equiv> ''malformed_x87_instruction_effect_schedule''"

text \<open>A document that carries the digest of its other members.\<close>

definition digest_of_rest :: "(string \<Rightarrow> string) \<Rightarrow> members \<Rightarrow> string \<Rightarrow> unit res" where
  "digest_of_rest sha ms key =
     bind (sha256_field (jget ms key)) (\<lambda>digest.
       require (json_digest sha (JObj (filter (\<lambda>kv. fst kv \<noteq> key) ms)) = digest) bad_effects)"

definition replay_schedule_header :: "compiler \<Rightarrow> members \<Rightarrow> members \<Rightarrow> string \<Rightarrow> unit res" where
  "replay_schedule_header c original sched transfer_digest =
     bind (require (jget sched ''format'' = JStr instruction_effect_schedule_format
         \<and> jget sched ''status'' = JStr ''complete'' \<and> jget sched ''proof_authority'' = JBool False) bad_effects) (\<lambda>_.
     bind (require (jget sched ''ordering'' = JStr ''strict_contiguous_rva_order''
         \<and> py_eq (jget_default sched ''rva_start'' (jget original ''rva_start'')) (jget original ''rva_start'')
         \<and> py_eq (jget_default sched ''rva_end'' (jget original ''rva_end'')) (jget original ''rva_end'')) bad_effects) (\<lambda>_.
     bind (require (jget sched ''transfer_bytes_sha256'' = JStr transfer_digest) bad_effects) (\<lambda>_.
     bind (require (py_eq (jget (cp_row c) ''instruction_effect_schedule'') (JObj sched)) bad_effects) (\<lambda>_.
     bind (digest_of_rest (cp_sha c) sched ''schedule_sha256'') (\<lambda>_.
       require (jget sched ''blockers'' = JList []) bad_effects)))))"

definition record_binds_instruction :: "compiler \<Rightarrow> members \<Rightarrow> nat \<Rightarrow> replayed \<Rightarrow> string \<Rightarrow> unit res" where
  "record_binds_instruction c rec index r transfer_digest =
     (let (start, stop, bs, outer) = r in
      bind (require (py_eq (jget rec ''index'') (JInt (int index)) \<and> py_eq (jget rec ''rva_start'') (JInt start)
        \<and> py_eq (jget rec ''rva_end'') (JInt stop)) bad_effects) (\<lambda>_.
      bind (hex_bytes (jget rec ''bytes'')) (\<lambda>recorded.
        require (recorded = bs \<and> jget rec ''bytes_sha256'' = JStr (sha256_bytes c bs)
          \<and> jget rec ''transfer_bytes_sha256'' = JStr transfer_digest) bad_effects)))"

definition replay_effects :: "members \<Rightarrow> members res" where
  "replay_effects rec =
     (if jget rec ''effects'' = JNull \<and> jget rec ''instruction_class'' = JStr ''x87_singleton_checked_replay''
      then Ok [] else object_field (jget rec ''effects''))"

definition replay_control :: "members \<Rightarrow> members \<Rightarrow> replayed list \<Rightarrow> members res" where
  "replay_control row effects later =
     (if jget effects ''control'' \<noteq> JNull then object_field (jget effects ''control'')
      else case later of
          (next_rva, _) # _ \<Rightarrow> Ok [(''kind'', JStr ''fallthrough''), (''target_rva'', JInt next_rva)]
        | [] \<Rightarrow> object_field (jget row ''outcome''))"

definition check_replay_control :: "members \<Rightarrow> members \<Rightarrow> replayed list \<Rightarrow> unit res" where
  "check_replay_control row control later =
     (case later of
        [] \<Rightarrow> validate_scheduled_outcome row control
      | (next_rva, _) # _ \<Rightarrow> require (falls_to control (JInt next_rva)) bad_effects)"

definition singleton_binds :: "compiler \<Rightarrow> members \<Rightarrow> replayed \<Rightarrow> bool" where
  "singleton_binds c singleton r \<longleftrightarrow>
     (let (start, stop, bs, outer) = r in
      py_eq (jget singleton ''rva_start'') (JInt start) \<and> py_eq (jget singleton ''rva_end'') (JInt stop)
      \<and> jget singleton ''bytes'' = JStr (to_hex bs) \<and> jget singleton ''bytes_sha256'' = JStr (sha256_bytes c bs)
      \<and> names_checker singleton x87_checked_decoder x87_checked_executor
      \<and> jget singleton ''physical_state_effect'' = JStr ''produced_by_checked_executor_not_inferred_by_exporter'')"

definition append_replayed :: "compiler \<Rightarrow> string \<Rightarrow> int \<Rightarrow> replayed \<Rightarrow> x87_operation comp" where
  "append_replayed c contract image_base r =
     (let (start, stop, bs, outer) = r in
      cbind (clift (typed_x87_program c contract image_base start stop bs outer)) (\<lambda>p.
      cbind (append_x87 p) (\<lambda>_. creturn (xp_operation p))))"

definition replayed_x87_record ::
  "compiler \<Rightarrow> string \<Rightarrow> int \<Rightarrow> members \<Rightarrow> members \<Rightarrow> members \<Rightarrow> members \<Rightarrow> replayed \<Rightarrow> bool \<Rightarrow> unit comp" where
  "replayed_x87_record c contract image_base rec classification effects control r final =
     cbind (check (names_checker classification x87_checked_decoder x87_checked_executor) bad_effects) (\<lambda>_.
     cbind (clift (object_field (jget rec ''x87_singleton_replay''))) (\<lambda>singleton.
     cbind (check (singleton_binds c singleton r) bad_effects) (\<lambda>_.
     cbind (append_replayed c contract image_base r) (\<lambda>oper.
     cbind (cover_typed_x87_memory_events effects oper) (\<lambda>_.
     cbind reset_instruction_expression_cache (\<lambda>_.
       if \<not> final then creturn ()
       else cbind (clift (hash_in (jget control ''kind'') [JStr ''fallthrough'', JStr ''jump''])) (\<lambda>static.
            cbind (check static ''x87_checked_export_unavailable'') (\<lambda>_. set_outcome c control))))))))"

definition replayed_ordinary_record ::
  "compiler \<Rightarrow> members \<Rightarrow> members \<Rightarrow> members \<Rightarrow> members \<Rightarrow> bool \<Rightarrow> unit comp" where
  "replayed_ordinary_record c rec classification effects control final =
     cbind (check (names_checker classification ordinary_checked_decoder ordinary_checked_executor
       \<and> \<not> jhas rec ''x87_singleton_replay'') bad_effects) (\<lambda>_.
       ordinary_record c None effects control final)"

text \<open>One record: the counts of x87 and of ordinary instructions after it.\<close>

definition replay_record ::
  "compiler \<Rightarrow> string \<Rightarrow> string \<Rightarrow> int \<Rightarrow> nat \<Rightarrow> int \<times> int \<Rightarrow> json \<times> replayed \<Rightarrow> replayed list \<Rightarrow> (int \<times> int) comp" where
  "replay_record c transfer_digest contract image_base index counted pair later =
     (let (raw, r) = pair; (x87s, ordinary) = counted; final = (later = []) in
      cbind (clift (object_field raw)) (\<lambda>rec.
      cbind (clift (digest_of_rest (cp_sha c) rec ''record_sha256'')) (\<lambda>_.
      cbind (clift (record_binds_instruction c rec index r transfer_digest)) (\<lambda>_.
      cbind (clift (object_field (jget rec ''classification''))) (\<lambda>classification.
      cbind (check (unproved_proposal classification) bad_effects) (\<lambda>_.
      cbind (clift (replay_effects rec)) (\<lambda>effects.
      cbind (clift (replay_control (cp_row c) effects later)) (\<lambda>control.
      cbind (clift (check_replay_control (cp_row c) control later)) (\<lambda>_.
        if jget rec ''instruction_class'' = JStr ''x87_singleton_checked_replay'' then
          cbind (replayed_x87_record c contract image_base rec classification effects control r final) (\<lambda>_.
            creturn (x87s + 1, ordinary))
        else if jget rec ''instruction_class'' = JStr ''ordinary_symbolic_instruction'' then
          cbind (replayed_ordinary_record c rec classification effects control final) (\<lambda>_.
            creturn (x87s, ordinary + 1))
        else refuse bad_effects)))))))))"

fun replay_records ::
  "compiler \<Rightarrow> string \<Rightarrow> string \<Rightarrow> int \<Rightarrow> nat \<Rightarrow> int \<times> int \<Rightarrow> (json \<times> replayed) list \<Rightarrow> (int \<times> int) comp" where
  "replay_records c transfer_digest contract image_base index counted [] = creturn counted"
| "replay_records c transfer_digest contract image_base index counted (pair # later) =
     cbind (replay_record c transfer_digest contract image_base index counted pair (map snd later)) (\<lambda>counted'.
       replay_records c transfer_digest contract image_base (Suc index) counted' later)"

definition compile_instruction_effect_schedule ::
  "compiler \<Rightarrow> members \<Rightarrow> members \<Rightarrow> replayed list \<Rightarrow> string \<Rightarrow> unit comp" where
  "compile_instruction_effect_schedule c replay sched instrs transfer_digest =
     cbind (clift (object_field (jget (cp_row c) ''original''))) (\<lambda>original.
     cbind (clift (replay_schedule_header c original sched transfer_digest)) (\<lambda>_.
     cbind (clift (list_field (jget sched ''records''))) (\<lambda>records.
     cbind (check (length records = length instrs) bad_effects) (\<lambda>_.
     cbind (clift (object_field (jget sched ''counts''))) (\<lambda>counts.
     cbind (check (py_eq (jget counts ''instructions'') (JInt (int (length records)))
       \<and> py_eq (jget counts ''blockers'') (JInt 0)) bad_effects) (\<lambda>_.
     cbind (clift (sha256_field (jget (cp_row c) ''contract_sha256''))) (\<lambda>contract.
     cbind (clift (u32_field (jget replay ''image_base''))) (\<lambda>image_base.
     cbind (replay_records c transfer_digest contract image_base 0 (0, 0) (zip records instrs)) (\<lambda>(x87s, ordinary).
     cbind (check (py_eq (jget counts ''x87_singletons'') (JInt x87s)
       \<and> py_eq (jget counts ''ordinary_instructions'') (JInt ordinary)) bad_effects) (\<lambda>_.
     cbind (reads cn_outcome) (\<lambda>final.
       check (records \<noteq> [] \<and> final \<noteq> None) bad_effects)))))))))))"

text \<open>The result tells whether a schedule was compiled.\<close>

definition compile_x87_replay :: "compiler \<Rightarrow> members \<Rightarrow> bool comp" where
  "compile_x87_replay c fpu =
     cbind (check (obligation_ok fpu) bad_replay) (\<lambda>_.
     cbind (clift (object_field (jget fpu ''replay''))) (\<lambda>replay.
     cbind (check (replay_declared replay) bad_replay) (\<lambda>_.
     cbind (clift (replay_span (cp_row c) replay)) (\<lambda>(start, stop).
     cbind (clift (replay_bytes c replay (stop - start))) (\<lambda>(encoded, transfer_digest).
     cbind (clift (replay_inventory (cp_row c) replay start stop encoded)) (\<lambda>instrs.
       if jget replay ''instruction_effect_schedule'' \<noteq> JNull then
         cbind (clift (object_field (jget replay ''instruction_effect_schedule''))) (\<lambda>sched.
         cbind (compile_instruction_effect_schedule c replay sched instrs transfer_digest) (\<lambda>_. creturn True))
       else
         cbind (check (list_all (\<lambda>(_, _, bs, outer). x87_singleton_candidate bs outer) instrs)
           ''x87_replay_interleaving_unavailable'') (\<lambda>_.
         cbind (clift (sha256_field (jget (cp_row c) ''contract_sha256''))) (\<lambda>contract.
         cbind (clift (u32_field (jget replay ''image_base''))) (\<lambda>image_base.
         cbind (mapC (append_replayed c contract image_base) instrs) (\<lambda>_. creturn False))))))))))"

definition check_x87_replay_outcome :: "members \<Rightarrow> unit comp" where
  "check_x87_replay_outcome outcome =
     cbind (reads (\<lambda>s. py_index (cn_x87 s) (- 1))) (\<lambda>final.
     cbind (clift final) (\<lambda>p.
       check (falls_to outcome (JInt (xp_rva_end p))) ''unsupported_x87_replay_outcome''))"

end
