(* ===== verification/Plan_Atomic.thy ===== *)
theory Plan_Atomic
  imports Finite_Control
begin

text \<open>
  The authority of atomic effects in \<open>transfer/plan.py\<close>: \<open>_atomic_effect_authority\<close> binds every
  atomic effect of the compiled transfers to the read-modify-write action of the machine IR it was
  lowered from, \<open>_validate_atomic_effect_authority\<close> checks such a list against the transfers.
\<close>

abbreviation atomic_effects :: "opname set" where
  "atomic_effects \<equiv> {Eff Op_atomic_compare_exchange, Eff Op_atomic_exchange}"

definition bad_authority :: "'a res" where
  "bad_authority = Raise (Plan_error ''malformed_atomic_effect_authority'')"

definition atomic_mismatch :: "'a res" where
  "atomic_mismatch = Raise (Plan_error ''atomic_action_coverage_mismatch'')"

text \<open>The effect an operation of the machine IR is lowered to.\<close>

definition lowered_operation :: "string \<Rightarrow> opname option" where
  "lowered_operation name =
     (if name = ''compare_exchange'' then Some (Eff Op_atomic_compare_exchange)
      else if name = ''exchange'' then Some (Eff Op_atomic_exchange) else None)"

definition transfer_atomics :: "transfer \<Rightarrow> (nat \<times> action) list" where
  "transfer_atomics t = filter (\<lambda>p. act_op (snd p) \<in> atomic_effects) (enumerate 0 (butlast (actions t)))"

section \<open>Validation\<close>

definition authority_fields :: "string list" where
  "authority_fields =
     [''unit_id'', ''effect_index'', ''action_id'', ''profile_id'', ''instruction_rva'',
      ''source_memory_event_indices'', ''operation'', ''width_bytes'', ''authority_sha256'']"

record atomic_row =
  ar_key :: "string \<times> int"
  ar_action_id :: string
  ar_indices :: "int list"
  ar_operation :: string
  ar_width :: int

definition drop_member :: "string \<Rightarrow> members \<Rightarrow> members" where
  "drop_member k ms = filter (\<lambda>kv. fst kv \<noteq> k) ms"

definition read_authority_row :: "(string \<Rightarrow> string) \<Rightarrow> json \<Rightarrow> atomic_row res" where
  "read_authority_row sha raw =
     bind (object_field raw) (\<lambda>row.
       if \<not> has_fields row authority_fields then bad_authority
       else if jget row ''authority_sha256'' \<noteq> JStr (json_digest sha (JObj (drop_member ''authority_sha256'' row))) then stale_plan
       else
         bind (string_field (jget row ''unit_id'')) (\<lambda>unit_id.
         bind (nonnegative (jget row ''effect_index'')) (\<lambda>eff_index.
         bind (string_field (jget row ''action_id'')) (\<lambda>action_id.
         bind (string_field (jget row ''profile_id'')) (\<lambda>_.
         bind (u32_field (jget row ''instruction_rva'')) (\<lambda>_.
         bind (int_tuple (jget row ''source_memory_event_indices'')) (\<lambda>indices.
         bind (string_field (jget row ''operation'')) (\<lambda>operation.
         bind (nonnegative (jget row ''width_bytes'')) (\<lambda>w.
           Ok \<lparr>ar_key = (unit_id, eff_index), ar_action_id = action_id, ar_indices = indices,
               ar_operation = operation, ar_width = w\<rparr>)))))))))"

definition expected_atomics :: "(string \<times> transfer) list \<Rightarrow> ((string \<times> int) \<times> action) list" where
  "expected_atomics transfers =
     concat (map (\<lambda>(unit_id, t). map (\<lambda>(i, a). ((unit_id, int i), a)) (transfer_atomics t)) transfers)"

text \<open>A row must follow the previous one, name a new action and agree with its effect.\<close>

definition check_authority_row ::
  "(string \<Rightarrow> string) \<Rightarrow> ((string \<times> int) \<times> action) list \<Rightarrow> atomic_row list \<Rightarrow> json \<Rightarrow> atomic_row list res" where
  "check_authority_row sha expected seen raw =
     bind (read_authority_row sha raw) (\<lambda>row.
       if (seen \<noteq> [] \<and> ar_key row \<le> ar_key (last seen))
          \<or> ar_key row \<in> ar_key ` set seen \<or> ar_action_id row \<in> ar_action_id ` set seen
          \<or> ar_indices row \<noteq> sort (remdups (ar_indices row))
          \<or> (case map_of expected (ar_key row) of None \<Rightarrow> True
             | Some eff \<Rightarrow> Some (act_op eff) \<noteq> lowered_operation (ar_operation row) \<or> act_aux eff \<noteq> ar_width row)
       then bad_authority else Ok (seen @ [row]))"

definition validate_atomic_effect_authority ::
  "(string \<Rightarrow> string) \<Rightarrow> json list \<Rightarrow> (string \<times> transfer) list \<Rightarrow> unit res" where
  "validate_atomic_effect_authority sha rows transfers =
     (let expected = expected_atomics transfers in
      bind (foldM (check_authority_row sha expected) [] rows) (\<lambda>seen.
        if set (map ar_key seen) \<noteq> set (map fst expected) then bad_authority else Ok ()))"

section \<open>Construction\<close>

definition rmw_rows :: "json list \<Rightarrow> members list" where
  "rmw_rows xs = [ms. JObj ms \<leftarrow> xs, jget ms ''kind'' = JStr ''rmw'']"

text \<open>The actions with their sort keys, which are computed before the list is sorted.\<close>

definition sorted_actions :: "json list \<Rightarrow> members list res" where
  "sorted_actions xs =
     bind (mapM (\<lambda>ms. bind (u32_field (jget ms ''instruction_rva'')) (\<lambda>rva.
                      bind (string_field (jget ms ''id'')) (\<lambda>ident. Ok ((rva, ident), ms)))) (rmw_rows xs)) (\<lambda>keyed.
       Ok (map snd (sort_key fst keyed)))"

definition authority_row ::
  "(string \<Rightarrow> string) \<Rightarrow> string \<Rightarrow> string \<Rightarrow> members \<times> nat \<times> action \<Rightarrow> ((string \<times> int) \<times> json) res" where
  "authority_row sha unit_id profile_id p =
     (let (action, i, eff) = p in
      bind (string_field (jget action ''operation'')) (\<lambda>operation.
      bind (nonnegative (jget action ''width_bytes'')) (\<lambda>w.
      if lowered_operation operation \<noteq> Some (act_op eff) \<or> w \<noteq> act_aux eff then atomic_mismatch
      else
        bind (int_tuple (jget action ''source_memory_event_indices'')) (\<lambda>indices.
        if \<not> distinct indices then Raise (Plan_error ''malformed_memory_action_graph'')
        else
          bind (string_field (jget action ''id'')) (\<lambda>action_id.
          bind (u32_field (jget action ''instruction_rva'')) (\<lambda>rva.
          let core = [(''unit_id'', JStr unit_id), (''effect_index'', JInt (int i)), (''action_id'', JStr action_id),
                      (''profile_id'', JStr profile_id), (''instruction_rva'', JInt rva),
                      (''source_memory_event_indices'', JList (map JInt indices)),
                      (''operation'', JStr operation), (''width_bytes'', JInt w)]
          in Ok ((unit_id, int i), JObj (core @ [(''authority_sha256'', JStr (json_digest sha (JObj core)))]))))))))"

definition unit_authority ::
  "(string \<Rightarrow> string) \<Rightarrow> (string \<times> transfer) list \<Rightarrow> members \<Rightarrow> ((string \<times> int) \<times> json) list res" where
  "unit_authority sha transfers semantic =
     bind (string_field (jget semantic ''id'')) (\<lambda>unit_id.
     case map_of transfers unit_id of
       None \<Rightarrow> Ok []
     | Some t \<Rightarrow>
         bind (object_field (jget semantic ''memory_actions'')) (\<lambda>graph.
         bind (string_field (jget graph ''profile_id'')) (\<lambda>profile_id.
         bind (bind (list_field (jget graph ''actions'')) sorted_actions) (\<lambda>acts.
         let effs = transfer_atomics t in
         if length acts \<noteq> length effs then atomic_mismatch
         else mapM (authority_row sha unit_id profile_id) (zip acts effs)))))"

definition atomic_effect_authority ::
  "(string \<Rightarrow> string) \<Rightarrow> members list \<Rightarrow> (string \<times> transfer) list \<Rightarrow> json list res" where
  "atomic_effect_authority sha semantic_rows transfers =
     bind (mapM (unit_authority sha transfers) semantic_rows) (\<lambda>found.
     let rows = map snd (sort_key fst (concat found)) in
     bind (validate_atomic_effect_authority sha rows transfers) (\<lambda>_. Ok rows))"

section \<open>What validation establishes\<close>

text \<open>
  The rows are those of the atomic effects of the transfers, one each and in their order, with the
  operation and the width of the effect, and no two rows name the same action.
\<close>

definition authority_of :: "((string \<times> int) \<times> action) list \<Rightarrow> atomic_row list \<Rightarrow> bool" where
  "authority_of expected seen \<longleftrightarrow>
     sorted (map ar_key seen) \<and> distinct (map ar_key seen) \<and> distinct (map ar_action_id seen)
     \<and> (\<forall>r\<in>set seen. \<exists>eff. map_of expected (ar_key r) = Some eff
           \<and> lowered_operation (ar_operation r) = Some (act_op eff) \<and> act_aux eff = ar_width r)"

lemma check_authority_rowE:
  assumes "check_authority_row sha expected seen raw = Inr seen'"
  obtains row eff where "read_authority_row sha raw = Inr row" "seen' = seen @ [row]"
    "seen = [] \<or> ar_key (last seen) < ar_key row" "ar_action_id row \<notin> ar_action_id ` set seen"
    "map_of expected (ar_key row) = Some eff" "lowered_operation (ar_operation row) = Some (act_op eff)"
    "act_aux eff = ar_width row"
proof -
  obtain row where r: "read_authority_row sha raw = Inr row" and c: "(if (seen \<noteq> [] \<and> ar_key row \<le> ar_key (last seen))
          \<or> ar_key row \<in> ar_key ` set seen \<or> ar_action_id row \<in> ar_action_id ` set seen
          \<or> ar_indices row \<noteq> sort (remdups (ar_indices row))
          \<or> (case map_of expected (ar_key row) of None \<Rightarrow> True
             | Some eff \<Rightarrow> Some (act_op eff) \<noteq> lowered_operation (ar_operation row) \<or> act_aux eff \<noteq> ar_width row)
       then bad_authority else Ok (seen @ [row])) = Inr seen'"
    using assms unfolding check_authority_row_def by (rule bind_OkE)
  from c show ?thesis
    by (auto simp: bad_authority_def not_le split: if_split_asm option.split_asm intro!: that[OF r])
qed

lemma check_authority_row_keeps:
  assumes "check_authority_row sha expected seen raw = Inr seen'" "authority_of expected seen"
  shows "authority_of expected seen'"
proof -
  obtain row where r: "seen' = seen @ [row]" "seen = [] \<or> ar_key (last seen) < ar_key row"
    "ar_action_id row \<notin> ar_action_id ` set seen"
    "\<exists>eff. map_of expected (ar_key row) = Some eff \<and> lowered_operation (ar_operation row) = Some (act_op eff)
        \<and> act_aux eff = ar_width row"
    by (rule check_authority_rowE[OF assms(1)]) blast
  have below: "ar_key x < ar_key row" if "x \<in> set seen" for x
  proof -
    have "ar_key x \<le> ar_key (last seen)"
      using that assms(2) by (cases seen rule: rev_cases) (auto simp: authority_of_def sorted_append)
    with r(2) that show ?thesis by auto
  qed
  then have "ar_key row \<notin> ar_key ` set seen" by force
  with below show ?thesis
    using r(1,3,4) assms(2) by (auto simp: authority_of_def sorted_append dest: less_imp_le)
qed

lemma foldM_rows:
  assumes "foldM (check_authority_row sha expected) seen rows = Inr seen'"
  shows "\<exists>new. seen' = seen @ new \<and> mapM (read_authority_row sha) rows = Inr new"
  using assms
proof (induction rows arbitrary: seen)
  case (Cons raw rows)
  then obtain s1 where s1: "check_authority_row sha expected seen raw = Inr s1" "foldM (check_authority_row sha expected) s1 rows = Inr seen'"
    by (auto elim!: bind_OkE)
  obtain row where r: "read_authority_row sha raw = Inr row"
    "foldM (check_authority_row sha expected) (seen @ [row]) rows = Inr seen'"
    by (rule check_authority_rowE[OF s1(1)]) (use s1(2) in blast)
  from Cons.IH[OF r(2)] r(1) show ?case by auto
qed simp

end
