(* ===== verification/Transfer_Eval.thy ===== *)
theory Transfer_Eval
  imports Transfer_State
begin

text \<open>
  The host evaluator of \<open>transfer/evaluator.py\<close>: one expression node, the memoised evaluation of
  the expression graph, the actions of a transfer one at a time, the string instructions, and the
  loop that follows a case from transfer to transfer.

  \<open>Semantic_fault\<close> and \<open>Memory_fault\<close> are the two exceptions the code catches; every other error
  value is a Python exception that leaves the evaluator. State and memory are mutated in place, so
  a step that faults returns them as far as it got. The call handler is a parameter: it is the
  caller's environment, not code of the evaluator.
\<close>

section \<open>Expression nodes\<close>

record env =
  env_nodes :: "node list"
  env_initial :: evalstate
  env_current :: evalstate
  env_call :: evalstate
  env_memory :: memory
  env_undefined :: "(int \<times> int) list"

definition selected_state :: "env \<Rightarrow> node \<Rightarrow> evalstate" where
  "selected_state e n = (if node_immediate n \<noteq> 0 then env_current e else env_initial e)"

definition arg2 :: "int list \<Rightarrow> (int \<Rightarrow> int \<Rightarrow> int res) \<Rightarrow> int res" where
  "arg2 vs f = bind (py_index vs 0) (\<lambda>a. bind (py_index vs 1) (\<lambda>b. f a b))"

definition undefined_value :: "env \<Rightarrow> node \<Rightarrow> int list \<Rightarrow> int" where
  "undefined_value e n vs =
     (case map_of (env_undefined e) (node_immediate n) of
        Some v \<Rightarrow> v | None \<Rightarrow> (case vs of v # _ \<Rightarrow> v | [] \<Rightarrow> 0))"

primrec eval_predicate :: "predicate_op \<Rightarrow> env \<Rightarrow> node \<Rightarrow> int list \<Rightarrow> int res" where
  "eval_predicate Op_flag e n vs = get_flag (selected_state e n) (node_aux n)"
| "eval_predicate Op_true e n vs = Ok 1"
| "eval_predicate Op_false e n vs = Ok 0"
| "eval_predicate Op_undefined_flag e n vs = Ok (undefined_value e n vs)"
| "eval_predicate Op_call_flag e n vs = get_flag (env_call e) (node_aux n)"
| "eval_predicate Op_ult32 e n vs = arg2 vs (\<lambda>a b. Ok (of_bool (a < b)))"
| "eval_predicate Op_eq e n vs = arg2 vs (\<lambda>a b. Ok (of_bool (a = b)))"
| "eval_predicate Op_eq_bool e n vs = arg2 vs (\<lambda>a b. Ok (of_bool (a = b)))"
| "eval_predicate Op_xor_bool e n vs = arg2 vs (\<lambda>a b. Ok (of_bool ((a \<noteq> 0) \<noteq> (b \<noteq> 0))))"
| "eval_predicate Op_not e n vs = bind (py_index vs 0) (\<lambda>a. Ok (of_bool (a = 0)))"
| "eval_predicate Op_and_bool e n vs = Ok (of_bool (\<forall>v\<in>set vs. v \<noteq> 0))"
| "eval_predicate Op_or_bool e n vs = Ok (of_bool (\<exists>v\<in>set vs. v \<noteq> 0))"
| "eval_predicate Op_parity e n vs =
     bind (py_index vs 1) (\<lambda>b. Ok (of_bool (bit_count (b AND 0xFF) mod 2 = 0)))"
| "eval_predicate Op_add_overflow e n vs = overflow_flag vs False"
| "eval_predicate Op_sub_overflow e n vs = overflow_flag vs True"
| "eval_predicate Op_imul_overflow e n vs =
     bind (py_index vs 4) (\<lambda>h. bind (py_index vs 3) (\<lambda>l.
       Ok (of_bool (h \<noteq> (if s32 l < 0 then 0xFFFFFFFF else 0)))))"
| "eval_predicate Op_mul_carry e n vs = bind (py_index vs 3) (\<lambda>h. Ok (of_bool (h \<noteq> 0)))"
| "eval_predicate Op_udiv_valid32 e n vs = bind (udiv_words vs) (\<lambda>(q, r, v). Ok v)"
| "eval_predicate Op_sbb_borrow e n vs = sbb_flag vs False"
| "eval_predicate Op_sbb_overflow e n vs = sbb_flag vs True"
| "eval_predicate Op_adc_carry e n vs = adc_flag vs False"
| "eval_predicate Op_adc_overflow e n vs = adc_flag vs True"
| "eval_predicate Op_shift_cf e n vs = shift_flag True (node_aux n) vs"
| "eval_predicate Op_shift_of e n vs = shift_flag False (node_aux n) vs"
| "eval_predicate Op_fpu_pending_exception e n vs = Raise Semantic_fault"

primrec eval_word_op :: "word_op \<Rightarrow> env \<Rightarrow> node \<Rightarrow> int list \<Rightarrow> int res" where
  "eval_word_op Op_const e n vs = Ok (node_immediate n)"
| "eval_word_op Op_reg e n vs =
     bind (reg_at (node_aux n)) (\<lambda>r. Ok (registers (selected_state e n) r))"
| "eval_word_op Op_fs_base e n vs = Ok (fs_base (selected_state e n))"
| "eval_word_op Op_undefined_bv e n vs = Ok (undefined_value e n vs)"
| "eval_word_op Op_call_response e n vs =
     bind (reg_at (node_aux n)) (\<lambda>r. Ok (registers (env_call e) r))"
| "eval_word_op Op_load e n vs =
     bind (py_index vs 0) (\<lambda>a. memory_read (env_memory e) a (node_aux n))"
| "eval_word_op Op_sub32 e n vs = arg2 vs (\<lambda>a b. Ok (a - b))"
| "eval_word_op Op_add32 e n vs = Ok (sum_list vs)"
| "eval_word_op Op_mul32 e n vs = Ok (fold_words vs 1 (*))"
| "eval_word_op Op_xor32 e n vs = Ok (fold_words vs 0 (XOR))"
| "eval_word_op Op_and32 e n vs = Ok (fold_words vs 0xFFFFFFFF (AND))"
| "eval_word_op Op_or32 e n vs = Ok (fold_words vs 0 (OR))"
| "eval_word_op Op_not32 e n vs = bind (py_index vs 0) (\<lambda>a. Ok (NOT a))"
| "eval_word_op Op_neg32 e n vs = bind (py_index vs 0) (\<lambda>a. Ok (- a))"
| "eval_word_op Op_shl32 e n vs = arg2 vs (\<lambda>a b. py_shl a (b AND 31))"
| "eval_word_op Op_lshr32 e n vs = arg2 vs (\<lambda>a b. py_shr a (b AND 31))"
| "eval_word_op Op_sar e n vs =
     bind (py_index vs 1) (\<lambda>v. bind (py_index vs 2) (\<lambda>c. bind (py_index vs 0) (\<lambda>w. sar_word v c w)))"
| "eval_word_op Op_sign_extend e n vs =
     bind (py_index vs 1) (\<lambda>v. bind (py_index vs 0) (\<lambda>w. sign_extend v w))"
| "eval_word_op Op_ite e n vs =
     bind (py_index vs 0) (\<lambda>c. if c \<noteq> 0 then py_index vs 1 else py_index vs 2)"
| "eval_word_op Op_msb e n vs =
     bind (py_index vs (- 1)) (\<lambda>v.
       bind (if length vs = 2 then py_index vs 0 else Ok 32) (\<lambda>w.
         bind (py_shr v (w - 1)) (\<lambda>b. Ok (b AND 1))))"
| "eval_word_op Op_bool_to_bit e n vs = bind (py_index vs 0) (\<lambda>a. Ok (of_bool (a \<noteq> 0)))"
| "eval_word_op Op_imul_low32 e n vs = arg2 vs (\<lambda>a b. Ok (a * b))"
| "eval_word_op Op_mul_low32 e n vs = arg2 vs (\<lambda>a b. Ok (a * b))"
| "eval_word_op Op_imul_high32 e n vs = arg2 vs (\<lambda>a b. Ok (drop_bit 32 (s32 a * s32 b) AND 0xFFFFFFFF))"
| "eval_word_op Op_mul_high32 e n vs = arg2 vs (\<lambda>a b. Ok (drop_bit 32 (a * b) AND 0xFFFFFFFF))"
| "eval_word_op Op_udiv_quot32 e n vs = bind (udiv_words vs) (\<lambda>(q, r, v). Ok q)"
| "eval_word_op Op_udiv_rem32 e n vs = bind (udiv_words vs) (\<lambda>(q, r, v). Ok r)"
| "eval_word_op Op_bsr_index e n vs =
     bind (py_index vs (- 1)) (\<lambda>v. Ok (if v = 0 then 0 else bit_length v - 1))"
| "eval_word_op Op_tzcnt e n vs =
     bind (py_index vs (- 1)) (\<lambda>v. Ok (if v = 0 then 32 else bit_length (v AND - v) - 1))"
| "eval_word_op Op_fpu_control_init e n vs = Ok 0x037F"
| "eval_word_op Op_fpu_status_init e n vs = Ok 0"
| "eval_word_op Op_fpu_control_load e n vs = bind (py_index vs 0) (\<lambda>a. Ok (a AND 0xFFFF))"
| "eval_word_op Op_fpu_control_word e n vs = bind (py_index vs 0) (\<lambda>a. Ok (a AND 0xFFFF))"
| "eval_word_op Op_fpu_status_word e n vs = bind (py_index vs 0) (\<lambda>a. Ok (a AND 0xFFFF))"
| "eval_word_op Op_fpu_control e n vs = Raise Semantic_fault"
| "eval_word_op Op_fpu_status e n vs = Raise Semantic_fault"
| "eval_word_op Op_fpu_tag e n vs = Raise Semantic_fault"
| "eval_word_op Op_fpu_last_opcode e n vs = Raise Semantic_fault"
| "eval_word_op Op_fpu_instruction_pointer e n vs = Raise Semantic_fault"
| "eval_word_op Op_fpu_code_selector e n vs = Raise Semantic_fault"
| "eval_word_op Op_fpu_data_pointer e n vs = Raise Semantic_fault"
| "eval_word_op Op_fpu_data_selector e n vs = Raise Semantic_fault"

text \<open>
  \<open>_eval_node\<close> after its operands are evaluated. A name outside the registry that begins with
  \<open>udiv_\<close> reaches the dictionary of the three division results and misses it.
\<close>

definition eval_node :: "env \<Rightarrow> node \<Rightarrow> int list \<Rightarrow> int res" where
  "eval_node e n vs =
     (case node_op n of
        Pred p \<Rightarrow> eval_predicate p e n vs
      | Word w \<Rightarrow> eval_word_op w e n vs
      | Op_other s \<Rightarrow>
          if take 5 s = ''udiv_'' then bind (udiv_words vs) (\<lambda>_. Raise Key_error)
          else Raise Semantic_fault
      | _ \<Rightarrow> Raise Semantic_fault)"

section \<open>The memoised graph\<close>

type_synonym words = "(int \<times> int) list"

fun thread :: "(int \<Rightarrow> words \<Rightarrow> (int \<times> words) res) \<Rightarrow> int list \<Rightarrow> words \<Rightarrow> (int list \<times> words) res" where
  "thread f [] ws = Ok ([], ws)"
| "thread f (i # is) ws =
     bind (f i ws) (\<lambda>(v, ws). bind (thread f is ws) (\<lambda>(vs, ws). Ok (v # vs, ws)))"

text \<open>
  The closure \<open>word\<close>. Its recursion is bounded by Python's recursion limit: \<open>depth\<close> nested
  evaluations are available, and \<open>RecursionError\<close> is raised beyond. A failed evaluation ends the
  transfer, so the memo table it leaves is not observed.
\<close>

primrec eval_word :: "nat \<Rightarrow> env \<Rightarrow> int \<Rightarrow> words \<Rightarrow> (int \<times> words) res" where
  "eval_word 0 e i ws = Raise Recursion_error"
| "eval_word (Suc depth) e i ws =
     (case map_of ws i of
        Some v \<Rightarrow> Ok (v, ws)
      | None \<Rightarrow>
          if i < 0 \<or> i \<ge> int (length (env_nodes e)) then Raise Semantic_fault
          else let n = env_nodes e ! nat i in
            bind (thread (eval_word depth e) (node_args n) ws) (\<lambda>(vs, ws).
              bind (eval_node e n vs) (\<lambda>v. Ok (u32 v, AList.update i (u32 v) ws))))"

definition cached :: "words \<Rightarrow> int \<Rightarrow> int res" where
  "cached ws i = (case map_of ws i of None \<Rightarrow> Raise Semantic_fault | Some v \<Rightarrow> Ok v)"

section \<open>Results and steps\<close>

record result =
  kind :: string
  target_rva :: int
  result_value :: int

definition mk_result :: "string \<Rightarrow> int \<Rightarrow> int \<Rightarrow> result" where
  "mk_result k target v = \<lparr>kind = k, target_rva = u32 target, result_value = u32 v\<rparr>"

record cfg =
  cfg_state :: evalstate
  cfg_memory :: memory
  cfg_words :: words
  cfg_call :: evalstate

text \<open>An action goes on, returns from the transfer, or raises.\<close>

datatype step = Next cfg | Return result cfg | Fault py_error cfg

definition catch :: "cfg \<Rightarrow> 'a res \<Rightarrow> ('a \<Rightarrow> step) \<Rightarrow> step" where
  "catch c m f = (case m of Inl e \<Rightarrow> Fault e c | Inr x \<Rightarrow> f x)"

section \<open>String instructions\<close>

text \<open>
  The loops run while \<open>count\<close> is not zero; a cached word is never negative, so the counter is a
  natural number. Registers are updated after every element, so a fault leaves them at it.
\<close>

type_synonym rep_result = "py_error option \<times> evalstate \<times> memory"

definition set_esi_edi_ecx :: "int \<Rightarrow> int \<Rightarrow> int \<Rightarrow> evalstate \<Rightarrow> evalstate" where
  "set_esi_edi_ecx src dst count s = set_register ECX count (set_register EDI dst (set_register ESI src s))"

fun move_loop :: "nat \<Rightarrow> int \<Rightarrow> int \<Rightarrow> int \<Rightarrow> int \<Rightarrow> evalstate \<Rightarrow> memory \<Rightarrow> rep_result" where
  "move_loop 0 src dst stp width s m = (None, s, m)"
| "move_loop (Suc count) src dst stp width s m =
     (case bind (memory_read m src width) (memory_write m dst width) of
        Inl e \<Rightarrow> (Some e, s, m)
      | Inr m' \<Rightarrow> (let src' = u32 (src + stp); dst' = u32 (dst + stp) in
          move_loop count src' dst' stp width (set_esi_edi_ecx src' dst' (int count) s) m'))"

fun store_loop :: "nat \<Rightarrow> int \<Rightarrow> int \<Rightarrow> int \<Rightarrow> int \<Rightarrow> evalstate \<Rightarrow> memory \<Rightarrow> rep_result" where
  "store_loop 0 dst v stp width s m = (None, s, m)"
| "store_loop (Suc count) dst v stp width s m =
     (case memory_write m dst width v of
        Inl e \<Rightarrow> (Some e, s, m)
      | Inr m' \<Rightarrow> (let dst' = u32 (dst + stp) in
          store_loop count dst' v stp width (set_register ECX (int count) (set_register EDI dst' s)) m'))"

text \<open>The flags of one comparison of \<open>repe/repne scas\<close>, written after the pointer and the count.\<close>

definition scan_flags :: "int \<Rightarrow> int \<Rightarrow> evalstate \<Rightarrow> evalstate res" where
  "scan_flags al item s =
     (let res = (al - item) AND 0xFF;
          s1 = s\<lparr>flags := (flags s)(CF := of_bool (al < item), ZF := of_bool (res = 0),
                 SF := drop_bit 7 res AND 1,
                 OVF := of_bool ((al XOR item) AND (al XOR res) AND 0x80 \<noteq> 0),
                 PF := of_bool (bit_count res mod 2 = 0))\<rparr>
      in bind (set_flag s1 6 (drop_bit 4 (al XOR item XOR res) AND 1)) (\<lambda>s2. Ok (sync_eflags s2)))"

fun scan_loop :: "nat \<Rightarrow> int \<Rightarrow> int \<Rightarrow> int \<Rightarrow> evalstate \<Rightarrow> memory \<Rightarrow> rep_result" where
  "scan_loop 0 al dst stp s m = (None, s, m)"
| "scan_loop (Suc count) al dst stp s m =
     (case memory_read m dst 1 of
        Inl e \<Rightarrow> (Some e, s, m)
      | Inr item \<Rightarrow> (let dst' = u32 (dst + stp);
                        s' = set_register ECX (int count) (set_register EDI dst' s)
                    in case scan_flags al item s' of
                         Inl e \<Rightarrow> (Some e, s', m)
                       | Inr s'' \<Rightarrow> if (al - item) AND 0xFF = 0 then (None, s'', m)
                                   else scan_loop count al dst' stp s'' m))"

definition direction_step :: "int \<Rightarrow> int \<Rightarrow> int" where
  "direction_step direction width = (if direction \<noteq> 0 then - width else width)"

text \<open>The starred argument list: a wrong number of operands is a \<open>TypeError\<close>.\<close>

fun repeat_move :: "evalstate \<Rightarrow> memory \<Rightarrow> int list \<Rightarrow> int \<Rightarrow> rep_result" where
  "repeat_move s m [src, dst, count, direction] width =
     (if \<not> access_width width then (Some Semantic_fault, s, m)
      else move_loop (nat count) src dst (direction_step direction width) width
             (set_esi_edi_ecx src dst count s) m)"
| "repeat_move s m _ width = (Some Type_error, s, m)"

fun repeat_store :: "evalstate \<Rightarrow> memory \<Rightarrow> int list \<Rightarrow> int \<Rightarrow> rep_result" where
  "repeat_store s m [dst, v, count, direction] width =
     (if \<not> access_width width then (Some Semantic_fault, s, m)
      else store_loop (nat count) dst v (direction_step direction width) width
             (set_register ECX count (set_register EDI dst s)) m)"
| "repeat_store s m _ width = (Some Type_error, s, m)"

fun repeat_scan :: "evalstate \<Rightarrow> memory \<Rightarrow> int list \<Rightarrow> rep_result" where
  "repeat_scan s m [accumulator, dst, count, direction] =
     scan_loop (nat count) (accumulator AND 0xFF) dst (direction_step direction 1)
       (set_register ECX count (set_register EDI dst s)) m"
| "repeat_scan s m _ = (Some Type_error, s, m)"

definition rep_step :: "cfg \<Rightarrow> rep_result \<Rightarrow> step" where
  "rep_step c r = (case r of (err, s, m) \<Rightarrow>
     let c' = c\<lparr>cfg_state := s, cfg_memory := m\<rparr>
     in case err of Some e \<Rightarrow> Fault e c' | None \<Rightarrow> Next c')"

section \<open>Actions\<close>

type_synonym call_handler = "call \<Rightarrow> evalstate \<Rightarrow> int list \<Rightarrow> (string \<times> evalstate) res"

record run_context =
  ctx_transfer :: transfer
  ctx_initial :: evalstate
  ctx_undefined :: "(int \<times> int) list"
  ctx_handler :: "call_handler option"
  ctx_depth :: nat

definition word_env :: "run_context \<Rightarrow> cfg \<Rightarrow> env" where
  "word_env x c =
     \<lparr>env_nodes = nodes (ctx_transfer x), env_initial = ctx_initial x, env_current = cfg_state c,
      env_call = cfg_call c, env_memory = cfg_memory c, env_undefined = ctx_undefined x\<rparr>"

text \<open>\<open>cached(action.args[k])\<close>\<close>

definition arg_value :: "cfg \<Rightarrow> action \<Rightarrow> int \<Rightarrow> int res" where
  "arg_value c a k = bind (py_index (act_args a) k) (cached (cfg_words c))"

definition return_value :: "run_context \<Rightarrow> string \<Rightarrow> result" where
  "return_value x k = mk_result k (rva_start (ctx_transfer x)) 0"

text \<open>The state a call receives: the registers and flags its nodes name.\<close>

definition call_state :: "cfg \<Rightarrow> call \<Rightarrow> evalstate res" where
  "call_state c cl =
     bind (mapM (\<lambda>(slot, r). bind (py_index (register_nodes cl) (int slot)) (\<lambda>i.
              bind (cached (cfg_words c) i) (\<lambda>v. Ok (r, v)))) (enumerate 0 registers_table)) (\<lambda>regs.
     bind (mapM (\<lambda>(slot, f). bind (py_index (flag_nodes cl) (int slot)) (\<lambda>i.
              bind (cached (cfg_words c) i) (\<lambda>v. Ok (f, v AND 1)))) (enumerate 0 flags_table)) (\<lambda>flgs.
     Ok ((cfg_state c)\<lparr>registers := lookup_0 regs, flags := lookup_0 flgs\<rparr>)))"

definition call_step :: "run_context \<Rightarrow> cfg \<Rightarrow> action \<Rightarrow> step" where
  "call_step x c a =
     catch c (bind (py_index (act_args a) 0) (py_index (calls (ctx_transfer x)))) (\<lambda>cl.
     catch c (call_state c cl) (\<lambda>cs.
     case ctx_handler x of
       None \<Rightarrow> Return (return_value x ''unimplemented'') c
     | Some handler \<Rightarrow>
         catch c (bind (mapM (cached (cfg_words c)) (argument_nodes cl)) (handler cl cs)) (\<lambda>(status, out).
           let s = (cfg_state c)\<lparr>registers := registers out, flags := flags out, eflags := eflags out,
                     fs_base := fs_base out, original_rva := original_rva out\<rparr>;
               c' = c\<lparr>cfg_state := s, cfg_call := out\<rparr>
           in if status = ''ok'' then Next c'
              else Return (mk_result (if status \<in> {''divide_error'', ''memory_fault'', ''external_fault''}
                                      then status else ''unimplemented'') (original_rva out) 0) c')))"

definition rep_args :: "cfg \<Rightarrow> action \<Rightarrow> int list res" where
  "rep_args c a = mapM (cached (cfg_words c)) (act_args a)"

definition exchange_step :: "cfg \<Rightarrow> action \<Rightarrow> bool \<Rightarrow> step" where
  "exchange_step c a compare =
     (let k = (if compare then 3 else 2); w = act_aux a in
      catch c (mapM (cached (cfg_words c)) (take (nat k) (act_args a))) (\<lambda>vs.
      if int (length vs) \<noteq> k then Fault Value_error c
      else let address = vs ! 0; desired = vs ! nat (k - 1) in
        catch c (memory_read (cfg_memory c) address w) (\<lambda>observed.
        catch c (if \<not> compare then memory_write (cfg_memory c) address w desired
                 else bind (py_shl 1 (8 * w)) (\<lambda>b.
                   if observed = vs ! 1 AND (b - 1) then memory_write (cfg_memory c) address w desired
                   else Ok (cfg_memory c))) (\<lambda>m.
          let c' = c\<lparr>cfg_memory := m\<rparr> in
          catch c' (py_index (act_args a) k) (\<lambda>i.
            Next (c'\<lparr>cfg_words := AList.update i observed (cfg_words c')\<rparr>))))))"

primrec effect_step :: "effect_op \<Rightarrow> run_context \<Rightarrow> cfg \<Rightarrow> action \<Rightarrow> step" where
  "effect_step Op_eval_word x c a =
     catch c (bind (py_index (act_args a) 0) (\<lambda>i. eval_word (ctx_depth x) (word_env x c) i (cfg_words c)))
       (\<lambda>(v, ws). Next (c\<lparr>cfg_words := ws\<rparr>))"
| "effect_step Op_typed_x87 x c a = Return (return_value x ''unimplemented'') c"
| "effect_step Op_memory_write x c a =
     catch c (bind (arg_value c a 0) (\<lambda>addr. bind (arg_value c a 1) (\<lambda>v.
                memory_write (cfg_memory c) addr (act_aux a) v)))
       (\<lambda>m. Next (c\<lparr>cfg_memory := m\<rparr>))"
| "effect_step Op_divide_if x c a =
     catch c (arg_value c a 0) (\<lambda>v. if v \<noteq> 0 then Return (mk_result ''divide_error'' 0 0) c else Next c)"
| "effect_step Op_access_violation_if x c a =
     catch c (arg_value c a 0) (\<lambda>v.
       if v = 0 then Next c
       else catch c (bind (arg_value c a 1) (\<lambda>_. arg_value c a 2)) (\<lambda>_.
         Return (return_value x ''memory_fault'') c))"
| "effect_step Op_call x c a = call_step x c a"
| "effect_step Op_rep_movsd x c a =
     catch c (rep_args c a) (\<lambda>vs. rep_step c (repeat_move (cfg_state c) (cfg_memory c) vs 4))"
| "effect_step Op_rep_movs x c a =
     catch c (rep_args c a) (\<lambda>vs. rep_step c (repeat_move (cfg_state c) (cfg_memory c) vs (act_aux a)))"
| "effect_step Op_rep_stosd x c a =
     catch c (rep_args c a) (\<lambda>vs. rep_step c (repeat_store (cfg_state c) (cfg_memory c) vs 4))"
| "effect_step Op_rep_stos x c a =
     catch c (rep_args c a) (\<lambda>vs. rep_step c (repeat_store (cfg_state c) (cfg_memory c) vs (act_aux a)))"
| "effect_step Op_rep_scas x c a =
     catch c (rep_args c a) (\<lambda>vs. rep_step c (repeat_scan (cfg_state c) (cfg_memory c) vs))"
| "effect_step Op_set_reg x c a =
     catch c (arg_value c a 0) (\<lambda>v. catch c (reg_at (act_aux a)) (\<lambda>r.
       Next (c\<lparr>cfg_state := set_register r v (cfg_state c)\<rparr>)))"
| "effect_step Op_set_flag x c a =
     catch c (arg_value c a 0) (\<lambda>v. catch c (set_flag (cfg_state c) (act_aux a) v) (\<lambda>s.
       Next (c\<lparr>cfg_state := s\<rparr>)))"
| "effect_step Op_sync_eflags x c a = Next (c\<lparr>cfg_state := sync_eflags (cfg_state c)\<rparr>)"
| "effect_step Op_atomic_compare_exchange x c a = exchange_step c a True"
| "effect_step Op_atomic_exchange x c a = exchange_step c a False"

primrec terminator_step :: "terminator_op \<Rightarrow> cfg \<Rightarrow> action \<Rightarrow> step" where
  "terminator_step Op_outcome_fallthrough c a =
     catch c (py_index (act_args a) 0) (\<lambda>t. Return (mk_result ''fallthrough'' t 0) c)"
| "terminator_step Op_outcome_jump c a =
     catch c (py_index (act_args a) 0) (\<lambda>t. Return (mk_result ''jump'' t 0) c)"
| "terminator_step Op_outcome_branch c a =
     catch c (bind (arg_value c a 0) (\<lambda>v. py_index (act_args a) (if v \<noteq> 0 then 1 else 2))) (\<lambda>t.
       Return (mk_result ''branch'' t 0) c)"
| "terminator_step Op_outcome_return c a =
     catch c (arg_value c a 0) (\<lambda>v. Return (mk_result ''return'' 0 v) c)"
| "terminator_step Op_outcome_indirect c a =
     catch c (arg_value c a 0) (\<lambda>v. Return (mk_result ''indirect_jump'' 0 v) c)"
| "terminator_step Op_outcome_nonlocal c a =
     catch c (bind (arg_value c a 0) (\<lambda>t. bind (arg_value c a 1) (\<lambda>v. Ok (t, v)))) (\<lambda>(t, v).
       Return (mk_result ''nonlocal'' t v) c)"
| "terminator_step Op_outcome_external c a = Return (mk_result ''external_jump'' 0 0) c"

text \<open>The dispatch of \<open>_evaluate_transfer\<close>; expression operations are no actions.\<close>

definition action_step :: "run_context \<Rightarrow> cfg \<Rightarrow> action \<Rightarrow> step" where
  "action_step x c a =
     (case act_op a of
        Eff eff \<Rightarrow> effect_step eff x c a
      | Term t \<Rightarrow> terminator_step t c a
      | Op_other s \<Rightarrow>
          if take 7 s = ''set_x87'' \<or> s = ''eval_x87'' then Return (return_value x ''unimplemented'') c
          else Fault Semantic_fault c
      | _ \<Rightarrow> Fault Semantic_fault c)"

section \<open>Transfers and cases\<close>

type_synonym outcome = "result \<times> evalstate \<times> memory"

fun run_actions :: "run_context \<Rightarrow> action list \<Rightarrow> cfg \<Rightarrow> outcome res" where
  "run_actions x [] c = Ok (return_value x ''unimplemented'', cfg_state c, cfg_memory c)"
| "run_actions x (a # as) c =
     (case action_step x c a of
        Next c' \<Rightarrow> run_actions x as c'
      | Return r c' \<Rightarrow> Ok (r, cfg_state c', cfg_memory c')
      | Fault Memory_fault c' \<Rightarrow> Ok (return_value x ''memory_fault'', cfg_state c', cfg_memory c')
      | Fault Semantic_fault c' \<Rightarrow> Ok (return_value x ''unimplemented'', cfg_state c', cfg_memory c')
      | Fault e c' \<Rightarrow> Raise e)"

definition evaluate_transfer ::
  "nat \<Rightarrow> transfer \<Rightarrow> evalstate \<Rightarrow> memory \<Rightarrow> (int \<times> int) list \<Rightarrow> call_handler option \<Rightarrow> outcome res" where
  "evaluate_transfer depth tr s m undef handler =
     run_actions
       \<lparr>ctx_transfer = tr, ctx_initial = s, ctx_undefined = undef, ctx_handler = handler, ctx_depth = depth\<rparr>
       (actions tr)
       \<lparr>cfg_state = s\<lparr>original_rva := rva_start tr\<rparr>, cfg_memory = m, cfg_words = [], cfg_call = s\<rparr>"

text \<open>\<open>{item.rva_start: item for item in transfers}\<close>: the last transfer of an address wins.\<close>

definition by_rva :: "transfer list \<Rightarrow> (int \<times> transfer) list" where
  "by_rva trs = foldl (\<lambda>m tr. AList.update (rva_start tr) tr m) [] trs"

record trace_entry =
  unit_id :: string
  entry_rva :: int
  entry_result :: result

record observation =
  obs_result :: result
  obs_state :: evalstate
  obs_memory :: "(int \<times> int) list"
  obs_trace :: "trace_entry list"

definition continues :: "result \<Rightarrow> bool" where
  "continues r \<longleftrightarrow> kind r \<in> {''fallthrough'', ''jump'', ''branch''}"

fun run_case :: "nat \<Rightarrow> (transfer \<Rightarrow> evalstate \<Rightarrow> memory \<Rightarrow> outcome res) \<Rightarrow> (int \<times> transfer) list
    \<Rightarrow> int \<Rightarrow> result \<Rightarrow> evalstate \<Rightarrow> memory \<Rightarrow> trace_entry list \<Rightarrow> observation res" where
  "run_case limit ev table current r s m trace =
     (let stop = Ok \<lparr>obs_result = r, obs_state = s, obs_memory = memory_payload m, obs_trace = trace\<rparr> in
      case limit of
        0 \<Rightarrow> stop
      | Suc k \<Rightarrow> (case map_of table current of
          None \<Rightarrow> stop
        | Some tr \<Rightarrow> bind (ev tr s m) (\<lambda>(r', s', m').
            let trace' = trace @ [\<lparr>unit_id = identity tr, entry_rva = current, entry_result = r'\<rparr>] in
            if continues r' then run_case k ev table (target_rva r') r' s' m' trace'
            else Ok \<lparr>obs_result = r', obs_state = s', obs_memory = memory_payload m', obs_trace = trace'\<rparr>)))"

declare run_case.simps [simp del]

text \<open>
  The body of \<open>evaluate_transfer_plan_case\<close>, given the transfers the plan loader returned. The
  digests and the case identifier of the observation are left out.
\<close>

definition undefined_values :: "members \<Rightarrow> (int \<times> int) list res" where
  "undefined_values ms =
     bind (mapM (\<lambda>(k, v). bind (int_of_text k) (\<lambda>i. bind (py_int v) (\<lambda>n. Ok (i, u32 n)))) ms) (\<lambda>al.
       Ok (foldl (\<lambda>m (i, n). AList.update i n m) [] al))"

definition case_format :: string where
  "case_format = ''spaghetti-extractor-transfer-evaluator-case-v1''"

definition evaluate_transfer_plan_case ::
  "nat \<Rightarrow> transfer list \<Rightarrow> members \<Rightarrow> call_handler option \<Rightarrow> observation res" where
  "evaluate_transfer_plan_case depth transfers cs handler =
     (if jget cs ''format'' \<noteq> JStr case_format
      then Raise (Plan_error ''transfer evaluator case has an unsupported format'')
      else case (jget cs ''entry_rva'', jget_default cs ''max_steps'' (JInt 1024)) of
        (JInt entry, JInt limit) \<Rightarrow>
          if \<not> (0 < limit \<and> limit \<le> 1000000)
          then Raise (Plan_error ''transfer evaluator case bounds are malformed'')
          else bind (case jget cs ''state'' of
                       JNull \<Rightarrow> state_from_payload []
                     | JObj ms \<Rightarrow> state_from_payload ms
                     | _ \<Rightarrow> Raise (Plan_error ''evaluator state is malformed'')) (\<lambda>s.
               bind (memory_from_payload (jget cs ''memory'')) (\<lambda>m.
               bind (case jget_default cs ''undefined_values'' (JObj []) of
                       JObj ms \<Rightarrow> undefined_values ms
                     | _ \<Rightarrow> Raise (Plan_error ''evaluator undefined-value map is malformed'')) (\<lambda>undef.
               run_case (nat limit) (\<lambda>tr s m. evaluate_transfer depth tr s m undef handler) (by_rva transfers)
                 (u32 entry) (mk_result ''unimplemented'' (u32 entry) 0) s m [])))
      | _ \<Rightarrow> Raise (Plan_error ''transfer evaluator case bounds are malformed''))"

section \<open>Generated cases and comparison\<close>

definition generated_state :: "int \<Rightarrow> evalstate" where
  "generated_state pat =
     \<lparr>registers = lookup_0 (map (\<lambda>(slot, r). (r, u32 (pat + int slot))) (enumerate 0 registers_table)),
      flags = lookup_0 (map (\<lambda>(slot, f). (f, drop_bit slot pat AND 1)) (enumerate 0 flags_table)),
      eflags = 2, fs_base = 0, original_rva = 0\<rparr>"

definition case_patterns :: "int list" where
  "case_patterns = [0, 0x55555555, 0xAAAAAAAA, 0xFFFFFFFF]"

fun hex_text :: "nat \<Rightarrow> string" where
  "hex_text n = (if n < 16 then [hex_char n] else hex_text (n div 16) @ [hex_char (n mod 16)])"

text \<open>\<open>rva-{rva:08x}-pattern-{index}\<close>: eight digits at least, padded with zeros.\<close>

definition generated_case_id :: "int \<Rightarrow> nat \<Rightarrow> string" where
  "generated_case_id rva index =
     (let digits = hex_text (nat rva)
      in ''rva-'' @ replicate (8 - length digits) (CHR 0x30) @ digits @ ''-pattern-'' @ nat_digits index)"

definition generated_differential_cases :: "int list \<Rightarrow> members list" where
  "generated_differential_cases entry_targets =
     concat (map (\<lambda>rva. map (\<lambda>(index, pat).
       [(''format'', JStr case_format), (''id'', JStr (generated_case_id rva index)), (''entry_rva'', JInt rva), (''max_steps'', JInt 64),
        (''state'', JObj [
           (''registers'', JObj (map (\<lambda>r. (reg_name r, JInt (registers (generated_state pat) r))) registers_table)),
           (''flags'', JObj (map (\<lambda>f. (flag_name f, JInt (flags (generated_state pat) f))) flags_table)),
           (''eflags'', JInt 2)]),
        (''memory'', JList []), (''undefined_values'', JObj [])]) (enumerate 0 case_patterns)) entry_targets)"

text \<open>Observations are compared field by field; a missing field reads as \<open>None\<close>.\<close>

definition mismatched_fields :: "members \<Rightarrow> members \<Rightarrow> string list" where
  "mismatched_fields expected observed =
     filter (\<lambda>name. jget expected name \<noteq> jget observed name)
       [''result'', ''state'', ''memory'', ''trace'']"

definition observations_differ :: "members \<Rightarrow> members \<Rightarrow> bool" where
  "observations_differ expected observed \<longleftrightarrow> mismatched_fields expected observed \<noteq> []"

end
