(* ===== verification/Byte_Store.thy ===== *)
theory Byte_Store
  imports Transfer_State
begin

text \<open>
  The contract of a little-endian byte store and its fulfilment by \<open>EvaluatorMemoryV1\<close>. The
  locale says what a client of the memory relies on: a store succeeds exactly where a load does,
  a load after a store of the same cell returns the stored bits, other cells keep their value and
  no address becomes mapped or unmapped. The lemmas proved from these laws alone (moving a cell,
  exchanging it and exchanging it back) are what the atomic operations and the string moves use.
\<close>

section \<open>The contract\<close>

locale byte_store =
  fixes rd :: "'m \<Rightarrow> int \<Rightarrow> int \<Rightarrow> int res"
    and wr :: "'m \<Rightarrow> int \<Rightarrow> int \<Rightarrow> int \<Rightarrow> 'm res"
    and valid :: "'m \<Rightarrow> bool"
    and cells :: "int \<Rightarrow> int \<Rightarrow> int set"
  assumes write_ok_iff: "valid m \<Longrightarrow> is_ok (wr m a w v) = is_ok (rd m a w)"
    and write_error: "valid m \<Longrightarrow> rd m a w = Inl e \<Longrightarrow> wr m a w v = Inl e"
    and write_valid: "valid m \<Longrightarrow> wr m a w v = Inr m' \<Longrightarrow> valid m'"
    and read_same: "valid m \<Longrightarrow> wr m a w v = Inr m' \<Longrightarrow> rd m' a w = Inr (take_bit (nat (8 * w)) v)"
    and read_other: "valid m \<Longrightarrow> wr m a w v = Inr m' \<Longrightarrow> cells a w \<inter> cells b u = {} \<Longrightarrow> rd m' b u = rd m b u"
    and mapped_kept: "valid m \<Longrightarrow> wr m a w v = Inr m' \<Longrightarrow> is_ok (rd m' b u) = is_ok (rd m b u)"
    and read_range: "valid m \<Longrightarrow> rd m a w = Inr v \<Longrightarrow> take_bit (nat (8 * w)) v = v"
begin

lemma write_after_read: "valid m \<Longrightarrow> rd m a w = Inr x \<Longrightarrow> \<exists>m'. wr m a w v = Inr m'"
  using write_ok_iff[of m a w v] by (simp add: is_ok_iff)

text \<open>One element of a string move.\<close>

lemma move_cell:
  assumes "valid m" "rd m src w = Inr x" "wr m dst w x = Inr m'"
  shows "rd m' dst w = Inr x"
  using read_same[OF assms(1,3)] read_range[OF assms(1,2)] by simp

lemma move_cell_source:
  assumes "valid m" "rd m src w = Inr x" "wr m dst w x = Inr m'" "cells dst w \<inter> cells src w = {}"
  shows "rd m' src w = Inr x"
  using read_other[OF assms(1,3,4)] assms(2) by simp

text \<open>Storing back what was read undoes an exchange.\<close>

lemma exchange_back:
  assumes m: "valid m" and old: "rd m a w = Inr x" and w1: "wr m a w v = Inr m1"
    and w2: "wr m1 a w x = Inr m2"
  shows "rd m2 a w = rd m a w"
  using read_same[OF write_valid[OF m w1] w2] read_range[OF m old] old by simp

lemma exchange_back_other:
  assumes m: "valid m" and w1: "wr m a w v = Inr m1" and w2: "wr m1 a w x = Inr m2"
    and disj: "cells a w \<inter> cells b u = {}"
  shows "rd m2 b u = rd m b u"
  using read_other[OF write_valid[OF m w1] w2 disj] read_other[OF m w1 disj] by simp

end

section \<open>Little-endian bytes\<close>

lemma take_bit_split: "take_bit (m + k) (v::int) = take_bit m v + push_bit m (take_bit k (drop_bit m v))"
proof -
  have "take_bit (m + k) v = take_bit m v OR push_bit m (take_bit k (drop_bit m v))"
    by (rule bit_eqI) (auto simp: bit_simps)
  also have "\<dots> = take_bit m v + push_bit m (take_bit k (drop_bit m v))"
    by (rule disjunctive_add_eq_or[symmetric]) (rule bit_eqI, auto simp: bit_simps)
  finally show ?thesis .
qed

lemma little_endian:
  "sum_list (map (\<lambda>i. push_bit (8 * i) (take_bit 8 (drop_bit (8 * i) (v::int)))) [0..<k]) = take_bit (8 * k) v"
proof (induction k)
  case (Suc k)
  then show ?case using take_bit_split[of "8 * k" 8 v] by (simp add: add.commute)
qed simp

lemma map_of_foldl_update:
  "distinct xs \<Longrightarrow>
   map_of (foldl (\<lambda>m (i, x). AList.update x (f i) m) m (enumerate n xs)) y =
     (case map_of (zip xs [n..<n + length xs]) y of Some i \<Rightarrow> Some (f i) | None \<Rightarrow> map_of m y)"
proof (induction xs arbitrary: n m)
  case (Cons x xs)
  have "[n..<n + length (x # xs)] = n # [Suc n..<Suc n + length xs]" by (simp add: upt_rec)
  then show ?case
    using Cons by (auto simp: update_conv' split: option.splits dest!: map_of_SomeD set_zip_leftD)
qed simp

definition wf_memory :: "memory \<Rightarrow> bool" where
  "wf_memory m \<longleftrightarrow> distinct (map fst m) \<and> (\<forall>(a, b)\<in>set m. 0 \<le> a \<and> a < 2 ^ 32 \<and> 0 \<le> b \<and> b < 256)"

definition memory_cells :: "int \<Rightarrow> int \<Rightarrow> int set" where
  "memory_cells a w = set (addresses a w)"

lemma length_addresses [simp]: "length (addresses a w) = nat w"
  by (simp add: addresses_def)

lemma nth_addresses: "i < nat w \<Longrightarrow> addresses a w ! i = u32 (a + int i)"
  by (simp add: addresses_def)

lemma u32_add_eq: "i < 4 \<Longrightarrow> j < 4 \<Longrightarrow> u32 (a + int i) = u32 (a + int j) \<Longrightarrow> i = j"
proof -
  assume "i < 4" "j < 4" and e: "u32 (a + int i) = u32 (a + int j)"
  from e have "(2::int) ^ 32 dvd int i - int j"
    by (simp add: u32_mod mod_eq_dvd_iff)
  moreover have "\<bar>int i - int j\<bar> < 2 ^ 32" using \<open>i < 4\<close> \<open>j < 4\<close> by auto
  ultimately have "int i - int j = 0" using zdvd_not_zless[of "\<bar>int i - int j\<bar>" "2 ^ 32"] by auto
  then show "i = j" by simp
qed

lemma access_width_le: "access_width w \<Longrightarrow> nat w \<le> 4 \<and> 0 < w"
  by (auto simp: access_width_def)

lemma distinct_addresses: "access_width w \<Longrightarrow> distinct (addresses a w)"
  using access_width_le[of w] by (auto simp: distinct_conv_nth nth_addresses dest!: u32_add_eq[rotated 2])

lemma mapM_lookup:
  "mapM (\<lambda>i. case h i of None \<Rightarrow> Inl e | Some b \<Rightarrow> Inr (g i b)) xs =
     (if \<exists>i\<in>set xs. h i = None then Inl e else Inr (map (\<lambda>i. g i (the (h i))) xs))"
  by (induction xs) (auto split: option.splits)

lemma bind_if: "bind (if c then Inl e else Inr x) f = (if c then Inl e else f x)"
  by simp

lemma memory_read_eq:
  "memory_read m a w =
     (if \<not> access_width w then Inl Semantic_fault
      else if \<exists>x\<in>memory_cells a w. map_of m x = None then Inl Memory_fault
      else Inr (u32 (sum_list (map (\<lambda>i. push_bit (8 * i) (the (map_of m (u32 (a + int i))))) [0..<nat w]))))"
proof -
  have eq: "(\<exists>x\<in>memory_cells a w. map_of m x = None) \<longleftrightarrow> (\<exists>i\<in>set [0..<nat w]. map_of m (u32 (a + int i)) = None)"
    by (auto simp: memory_cells_def addresses_def)
  show ?thesis unfolding memory_read_def mapM_lookup eq bind_if ..
qed

lemma memory_write_eq:
  "memory_write m a w v =
     (if \<not> access_width w then Inl Semantic_fault
      else if \<exists>x\<in>memory_cells a w. map_of m x = None then Inl Memory_fault
      else Inr (foldl (\<lambda>m (i, x). AList.update x (drop_bit (8 * i) v AND 0xFF) m) m (enumerate 0 (addresses a w))))"
  by (simp add: memory_write_def memory_cells_def)

lemma map_of_write:
  assumes "memory_write m a w v = Inr m'"
  shows "map_of m' x =
    (case map_of (zip (addresses a w) [0..<nat w]) x of
       Some i \<Rightarrow> Some (drop_bit (8 * i) v AND 0xFF) | None \<Rightarrow> map_of m x)"
  using assms distinct_addresses[of w a]
    map_of_foldl_update[of "addresses a w" "\<lambda>i. drop_bit (8 * i) v AND 0xFF" m 0 x]
  by (simp add: memory_write_eq split: if_splits)

lemma map_of_write_cell:
  assumes "memory_write m a w v = Inr m'" "i < nat w"
  shows "map_of m' (u32 (a + int i)) = Some (take_bit 8 (drop_bit (8 * i) v))"
proof -
  have w: "access_width w" using assms(1) by (simp add: memory_write_eq split: if_splits)
  have "map_of (zip (addresses a w) [0..<nat w]) (u32 (a + int i)) = Some i"
    using distinct_addresses[OF w, of a] assms(2)
    by (intro map_of_is_SomeI) (auto simp: set_zip nth_addresses intro!: exI[of _ i])
  then show ?thesis using map_of_write[OF assms(1)] by (simp add: mask_simps)
qed

lemma map_of_write_other:
  assumes "memory_write m a w v = Inr m'" "x \<notin> memory_cells a w"
  shows "map_of m' x = map_of m x"
proof -
  have "map_of (zip (addresses a w) [0..<nat w]) x = None"
    using assms(2) by (auto simp: map_of_eq_None_iff memory_cells_def dest: set_zip_leftD)
  then show ?thesis unfolding map_of_write[OF assms(1)] by (simp only: option.simps)
qed

lemma keys_foldl_update:
  "(\<And>x. x \<in> set xs \<Longrightarrow> map_of m x \<noteq> None) \<Longrightarrow>
   map fst (foldl (\<lambda>m (i, x). AList.update x (f i) m) m (enumerate n xs)) = map fst m"
proof (induction xs arbitrary: n m)
  case (Cons x xs)
  have "x \<in> fst ` set m" using Cons.prems[of x] by (auto simp: map_of_eq_None_iff)
  then have "map fst (AList.update x (f n) m) = map fst m" by (simp add: update_keys)
  moreover have "map_of (AList.update x (f n) m) y \<noteq> None" if "y \<in> set xs" for y
    using Cons.prems[of y] that by (simp add: update_conv')
  ultimately show ?case using Cons.IH[of "AList.update x (f n) m" "Suc n"] by simp
qed simp

lemma write_keys: "memory_write m a w v = Inr m' \<Longrightarrow> map fst m' = map fst m"
  by (auto simp: memory_write_eq memory_cells_def intro!: keys_foldl_update split: if_splits)

lemma map_of_keys: "map fst m' = map fst m \<Longrightarrow> map_of m' x = None \<longleftrightarrow> map_of m x = None"
  by (metis map_of_eq_None_iff set_map)

lemma wf_memory_map_of: "wf_memory m \<Longrightarrow> map_of m x = Some b \<Longrightarrow> 0 \<le> x \<and> x < 2 ^ 32 \<and> 0 \<le> b \<and> b < 256"
  unfolding wf_memory_def by (auto dest!: map_of_SomeD)

lemma wf_memoryI:
  assumes "distinct (map fst m)" "\<And>x b. map_of m x = Some b \<Longrightarrow> 0 \<le> x \<and> x < 2 ^ 32 \<and> 0 \<le> b \<and> b < 256"
  shows "wf_memory m"
  unfolding wf_memory_def using assms by fastforce

lemma write_wf: "wf_memory m \<Longrightarrow> memory_write m a w v = Inr m' \<Longrightarrow> wf_memory m'"
proof (rule wf_memoryI)
  assume m: "wf_memory m" and w: "memory_write m a w v = Inr m'"
  show "distinct (map fst m')" using m write_keys[OF w] by (simp add: wf_memory_def)
  fix x b assume x: "map_of m' x = Some b"
  with map_of_keys[OF write_keys[OF w], of x] obtain c where c: "map_of m x = Some c" by auto
  have "0 \<le> b \<and> b < 256"
    using x wf_memory_map_of[OF m c] c map_of_write[OF w, of x]
    by (auto simp: mask_simps split: option.splits)
  then show "0 \<le> x \<and> x < 2 ^ 32 \<and> 0 \<le> b \<and> b < 256" using wf_memory_map_of[OF m c] by simp
qed

lemma read_cong: "(\<And>x. x \<in> memory_cells a w \<Longrightarrow> map_of m' x = map_of m x) \<Longrightarrow> memory_read m' a w = memory_read m a w"
proof -
  assume h: "\<And>x. x \<in> memory_cells a w \<Longrightarrow> map_of m' x = map_of m x"
  have e: "map (\<lambda>i. push_bit (8 * i) (the (map_of m' (u32 (a + int i))))) [0..<nat w]
      = map (\<lambda>i. push_bit (8 * i) (the (map_of m (u32 (a + int i))))) [0..<nat w]"
    using h by (auto simp: memory_cells_def addresses_def)
  show ?thesis unfolding memory_read_eq e using h by auto
qed

lemma bytes_value: "(\<And>i. i < k \<Longrightarrow> 0 \<le> f i \<and> f i < 256) \<Longrightarrow>
    0 \<le> sum_list (map (\<lambda>i. push_bit (8 * i) (f i)) [0..<k]) \<and>
    sum_list (map (\<lambda>i. push_bit (8 * i) (f i)) [0..<k]) < (2::int) ^ (8 * k)"
proof (induction k)
  case (Suc k)
  have "push_bit (8 * k) (f k) \<le> 255 * 2 ^ (8 * k)"
    using Suc.prems[of k] unfolding push_bit_eq_mult by (intro mult_right_mono) auto
  moreover have "0 \<le> push_bit (8 * k) (f k)" using Suc.prems[of k] by (simp add: push_bit_eq_mult)
  moreover have "0 \<le> sum_list (map (\<lambda>i. push_bit (8 * i) (f i)) [0..<k])"
    "sum_list (map (\<lambda>i. push_bit (8 * i) (f i)) [0..<k]) < 2 ^ (8 * k)"
    using Suc by simp_all
  moreover have "(2::int) ^ (8 * Suc k) = 256 * 2 ^ (8 * k)" by (simp add: power_add)
  ultimately show ?case by (simp only: upt_Suc map_append sum_list_append) (simp del: push_bit_of_nat)
qed simp

lemma memory_read_range:
  assumes "wf_memory m" "memory_read m a w = Inr v"
  shows "0 \<le> v" "v < 2 ^ (8 * nat w)" "v < 2 ^ 32"
proof -
  define f where "f i = the (map_of m (u32 (a + int i)))" for i
  define S where "S = sum_list (map (\<lambda>i. push_bit (8 * i) (f i)) [0..<nat w])"
  have w: "access_width w" and v: "v = u32 S"
    and mapped: "\<And>i. i < nat w \<Longrightarrow> map_of m (u32 (a + int i)) \<noteq> None"
    using assms(2) unfolding memory_read_eq
    by (auto simp: memory_cells_def addresses_def S_def f_def split: if_splits)
  have "0 \<le> S \<and> S < 2 ^ (8 * nat w)"
    unfolding S_def
    by (rule bytes_value) (use mapped wf_memory_map_of[OF assms(1)] in \<open>force simp: f_def\<close>)
  moreover have "(2::int) ^ (8 * nat w) \<le> 2 ^ 32" using access_width_le[OF w] by (intro power_increasing) auto
  ultimately show "0 \<le> v" "v < 2 ^ (8 * nat w)" "v < 2 ^ 32" by (simp_all add: v u32_id)
qed

interpretation mem: byte_store memory_read memory_write wf_memory memory_cells
proof
  fix m m' :: memory and a b w u v e
  assume m: "wf_memory m"
  show "is_ok (memory_write m a w v) = is_ok (memory_read m a w)"
    by (auto simp: memory_read_eq memory_write_eq)
  show "memory_read m a w = Inl e \<Longrightarrow> memory_write m a w v = Inl e"
    by (simp add: memory_read_eq memory_write_eq split: if_splits)
  show "memory_read m a w = Inr v \<Longrightarrow> take_bit (nat (8 * w)) v = v"
    using memory_read_range[OF m, of a w v] by (simp add: nat_mult_distrib take_bit_int_eq_self)
  assume wr: "memory_write m a w v = Inr m'"
  show "wf_memory m'" by (rule write_wf[OF m wr])
  show "is_ok (memory_read m' b u) = is_ok (memory_read m b u)"
    using map_of_keys[OF write_keys[OF wr]] by (auto simp: memory_read_eq)
  show "memory_cells a w \<inter> memory_cells b u = {} \<Longrightarrow> memory_read m' b u = memory_read m b u"
    by (rule read_cong) (use map_of_write_other[OF wr] in blast)
  have w: "access_width w" and c: "\<forall>x\<in>memory_cells a w. map_of m x \<noteq> None"
    using wr by (auto simp: memory_write_eq split: if_splits)
  have L: "map (\<lambda>i. push_bit (8 * i) (the (map_of m' (u32 (a + int i))))) [0..<nat w]
      = map (\<lambda>i. push_bit (8 * i) (take_bit 8 (drop_bit (8 * i) v))) [0..<nat w]"
    using map_of_write_cell[OF wr] by simp
  have "u32 (take_bit (8 * nat w) v) = take_bit (nat (8 * w)) v"
    using w by (auto simp: access_width_def u32_take_bit)
  then show "memory_read m' a w = Inr (take_bit (nat (8 * w)) v)"
    unfolding memory_read_eq L little_endian using w c map_of_keys[OF write_keys[OF wr]] by auto
qed

end
