(* ===== verification/Eval_Invariant.thy ===== *)
theory Eval_Invariant
  imports Transfer_Eval Byte_Store
begin

text \<open>
  The invariant of the evaluator: registers, \<open>eflags\<close> and \<open>fs_base\<close> are 32-bit values, flags are
  bits, memory maps 32-bit addresses to bytes, every memoised word is a 32-bit value. Every action
  keeps it, on every branch and on faults, and no action maps or unmaps an address; so does a whole
  transfer and a whole case, provided the call handler keeps the state well formed.
\<close>

section \<open>32-bit values\<close>

definition in32 :: "int \<Rightarrow> bool" where
  "in32 v \<longleftrightarrow> 0 \<le> v \<and> v < 2 ^ 32"

lemma in32_u32 [simp]: "in32 (u32 v)"
  by (simp add: in32_def)

lemma in32_0 [simp]: "in32 0"
  by (simp add: in32_def)

lemma in32_and: "in32 x \<Longrightarrow> in32 (x AND y)"
  using AND_upper1[of x y] by (simp add: in32_def)

lemma in32_or: "in32 x \<Longrightarrow> in32 y \<Longrightarrow> in32 (x OR y)"
  using OR_upper[of x 32 y] by (simp add: in32_def)

lemma in32_push: "0 \<le> b \<Longrightarrow> b \<le> 1 \<Longrightarrow> n < 32 \<Longrightarrow> in32 (push_bit n b)"
proof -
  assume b: "0 \<le> b" "b \<le> 1" and n: "n < 32"
  have "b * 2 ^ n \<le> 1 * (2::int) ^ n" using b by (intro mult_right_mono) auto
  also have "(2::int) ^ n < 2 ^ 32" using n by (intro power_strict_increasing) auto
  finally show "in32 (push_bit n b)" using b by (simp add: in32_def push_bit_eq_mult)
qed

lemma bit_value: "0 \<le> v AND 1 \<and> v AND 1 \<le> (1::int)"
  by (simp add: mask_simps)

section \<open>The invariant\<close>

definition wf_state :: "evalstate \<Rightarrow> bool" where
  "wf_state s \<longleftrightarrow> (\<forall>r. in32 (registers s r)) \<and> (\<forall>f. flags s f = 0 \<or> flags s f = 1)
     \<and> in32 (eflags s) \<and> in32 (fs_base s)"

definition wf_words :: "words \<Rightarrow> bool" where
  "wf_words ws \<longleftrightarrow> (\<forall>i v. map_of ws i = Some v \<longrightarrow> in32 v)"

definition handler_ok :: "call_handler option \<Rightarrow> bool" where
  "handler_ok h \<longleftrightarrow> (\<forall>f cl s vs status out.
     h = Some f \<longrightarrow> wf_state s \<longrightarrow> f cl s vs = Inr (status, out) \<longrightarrow> wf_state out)"

definition same_cells :: "memory \<Rightarrow> memory \<Rightarrow> bool" where
  "same_cells m m' \<longleftrightarrow> map fst m' = map fst m"

definition wf_cfg :: "cfg \<Rightarrow> bool" where
  "wf_cfg c \<longleftrightarrow> wf_state (cfg_state c) \<and> wf_memory (cfg_memory c) \<and> wf_words (cfg_words c) \<and> wf_state (cfg_call c)"

fun step_cfg :: "step \<Rightarrow> cfg" where
  "step_cfg (Next c) = c"
| "step_cfg (Return r c) = c"
| "step_cfg (Fault e c) = c"

lemma same_cells_refl [simp]: "same_cells m m"
  by (simp add: same_cells_def)

lemma same_cells_trans: "same_cells m m' \<Longrightarrow> same_cells m' m'' \<Longrightarrow> same_cells m m''"
  by (simp add: same_cells_def)

lemma write_same_cells: "memory_write m a w v = Inr m' \<Longrightarrow> same_cells m m'"
  by (simp add: same_cells_def write_keys)

named_theorems wf_intros

lemma wf_set_register [wf_intros]: "wf_state s \<Longrightarrow> in32 v \<Longrightarrow> wf_state (set_register r v s)"
  by (simp add: wf_state_def set_register_def)

lemma wf_set_flag: "wf_state s \<Longrightarrow> set_flag s i v = Inr s' \<Longrightarrow> wf_state s'"
  using bit_value[of v]
  by (auto simp: wf_state_def set_flag_def res_simps mask_simps intro!: in32_or in32_and in32_push split: if_splits)

lemma wf_sync_eflags [wf_intros]: "wf_state s \<Longrightarrow> wf_state (sync_eflags s)"
proof -
  have step: "wf_state (s\<lparr>eflags := (eflags s AND NOT (push_bit b 1)) OR push_bit b (flags s f)\<rparr>)"
    if "wf_state s" "b < 32" for s f b
    using that unfolding wf_state_def
    by (auto intro!: in32_or in32_and in32_push) (metis in32_push[of "flags s f" b] zero_le_one order_refl order.trans)+
  assume "wf_state s"
  then show ?thesis unfolding sync_eflags_def eflags_bits_def by (simp only: foldl.simps prod.case) (intro step, simp_all)
qed

lemma wf_words_lookup: "wf_words ws \<Longrightarrow> cached ws i = Inr v \<Longrightarrow> in32 v"
  by (auto simp: wf_words_def cached_def split: option.splits)

lemma wf_words_update [wf_intros]: "wf_words ws \<Longrightarrow> in32 v \<Longrightarrow> wf_words (AList.update i v ws)"
  by (simp add: wf_words_def update_conv')

lemma wf_words_Nil [simp]: "wf_words []"
  by (simp add: wf_words_def)

lemma cached_list: "wf_words ws \<Longrightarrow> mapM (cached ws) is = Inr vs \<Longrightarrow> v \<in> set vs \<Longrightarrow> in32 v"
  by (auto simp: mapM_Ok_iff in_set_conv_nth list_all2_conv_all_nth dest: wf_words_lookup)

section \<open>Words\<close>

lemma wf_thread:
  assumes "\<And>i ws v ws'. wf_words ws \<Longrightarrow> f i ws = Inr (v, ws') \<Longrightarrow> wf_words ws' \<and> in32 v"
  shows "wf_words ws \<Longrightarrow> thread f is ws = Inr (vs, ws') \<Longrightarrow> wf_words ws' \<and> (\<forall>v\<in>set vs. in32 v)"
proof (induction "is" arbitrary: ws vs ws')
  case (Cons i "is")
  then obtain v ws1 vs1 where "f i ws = Inr (v, ws1)" "thread f is ws1 = Inr (vs1, ws')" "vs = v # vs1"
    by (auto simp: res_simps split: prod.splits)
  then show ?case using Cons.IH[of ws1] assms[OF Cons.prems(1)] by auto
qed simp

lemma wf_eval_word:
  "wf_words ws \<Longrightarrow> eval_word depth e i ws = Inr (v, ws') \<Longrightarrow> wf_words ws' \<and> in32 v"
proof (induction depth arbitrary: i ws v ws')
  case (Suc depth)
  show ?case
  proof (cases "map_of ws i")
    case None
    with Suc.prems(2) obtain vs ws1 x where
      "thread (eval_word depth e) (node_args (env_nodes e ! nat i)) ws = Inr (vs, ws1)"
      "v = u32 x" "ws' = AList.update i (u32 x) ws1"
      by (auto simp: res_simps Let_def split: if_splits prod.splits)
    then show ?thesis
      using wf_thread[of "eval_word depth e", OF Suc.IH Suc.prems(1)] by (auto intro: wf_intros)
  qed (use Suc.prems in \<open>auto simp: wf_words_def\<close>)
qed simp

section \<open>String instructions\<close>

definition rep_ok :: "memory \<Rightarrow> rep_result \<Rightarrow> bool" where
  "rep_ok m r \<longleftrightarrow> (case r of (_, s', m') \<Rightarrow> wf_state s' \<and> wf_memory m' \<and> same_cells m m')"

lemma rep_ok_trans: "same_cells m m' \<Longrightarrow> rep_ok m' r \<Longrightarrow> rep_ok m r"
  by (auto simp: rep_ok_def intro: same_cells_trans)

lemma wf_set_esi_edi_ecx [wf_intros]:
  "wf_state s \<Longrightarrow> in32 a \<Longrightarrow> in32 b \<Longrightarrow> in32 c \<Longrightarrow> wf_state (set_esi_edi_ecx a b c s)"
  by (simp add: set_esi_edi_ecx_def wf_intros)

lemma in32_count: "int (Suc k) < 2 ^ 32 \<Longrightarrow> in32 (int k)"
  by (simp add: in32_def)

lemma wf_move_loop:
  "wf_state s \<Longrightarrow> wf_memory m \<Longrightarrow> int k < 2 ^ 32 \<Longrightarrow> rep_ok m (move_loop k src dst stp w s m)"
proof (induction k arbitrary: src dst s m)
  case 0
  then show ?case by (simp add: rep_ok_def)
next
  case (Suc k)
  show ?case
  proof (cases "bind (memory_read m src w) (memory_write m dst w)")
    case (Inl e)
    then show ?thesis using Suc.prems by (simp add: rep_ok_def)
  next
    case (Inr m')
    then obtain v where "memory_write m dst w v = Inr m'" by (auto simp: res_simps)
    then have "wf_memory m'" "same_cells m m'"
      using Suc.prems write_wf write_same_cells by blast+
    then show ?thesis
      using Suc.prems by (auto simp: Inr Let_def intro!: rep_ok_trans[of m m'] Suc.IH wf_intros in32_count)
  qed
qed

lemma wf_store_loop:
  "wf_state s \<Longrightarrow> wf_memory m \<Longrightarrow> int k < 2 ^ 32 \<Longrightarrow> rep_ok m (store_loop k dst v stp w s m)"
proof (induction k arbitrary: dst s m)
  case 0
  then show ?case by (simp add: rep_ok_def)
next
  case (Suc k)
  show ?case
  proof (cases "memory_write m dst w v")
    case (Inl e)
    then show ?thesis using Suc.prems by (simp add: rep_ok_def)
  next
    case (Inr m')
    then have "wf_memory m'" "same_cells m m'"
      using Suc.prems write_wf write_same_cells by blast+
    then show ?thesis
      using Suc.prems by (auto simp: Inr Let_def intro!: rep_ok_trans[of m m'] Suc.IH wf_intros in32_count)
  qed
qed

lemma wf_scan_flags: "wf_state s \<Longrightarrow> scan_flags al item s = Inr s' \<Longrightarrow> wf_state s'"
proof -
  assume s: "wf_state s" and f: "scan_flags al item s = Inr s'"
  have b: "x AND 1 = 0 \<or> x AND 1 = 1" for x :: int by (auto simp: and_one_eq)
  define s1 where "s1 = s\<lparr>flags := (flags s)(CF := of_bool (al < item), ZF := of_bool ((al - item) AND 0xFF = 0),
                 SF := drop_bit 7 ((al - item) AND 0xFF) AND 1,
                 OVF := of_bool ((al XOR item) AND (al XOR ((al - item) AND 0xFF)) AND 0x80 \<noteq> 0),
                 PF := of_bool (bit_count ((al - item) AND 0xFF) mod 2 = 0))\<rparr>"
  have "wf_state s1" using s b by (auto simp: wf_state_def s1_def)
  then show ?thesis
    using f unfolding scan_flags_def Let_def s1_def[symmetric]
    by (auto simp: res_simps intro: wf_intros dest: wf_set_flag)
qed

lemma wf_scan_loop:
  "wf_state s \<Longrightarrow> wf_memory m \<Longrightarrow> int k < 2 ^ 32 \<Longrightarrow> rep_ok m (scan_loop k al dst stp s m)"
proof (induction k arbitrary: dst s)
  case 0
  then show ?case by (simp add: rep_ok_def)
next
  case (Suc k)
  define s' where "s' = set_register ECX (int k) (set_register EDI (u32 (dst + stp)) s)"
  have s': "wf_state s'" unfolding s'_def using Suc.prems by (intro wf_intros in32_count) auto
  then show ?case
    using Suc.prems Suc.IH wf_scan_flags[OF s']
    by (auto simp: Let_def rep_ok_def split: sum.splits simp flip: s'_def)
qed

lemma wf_repeat_move:
  assumes "wf_state s" "wf_memory m" "\<forall>v\<in>set vs. in32 v"
  shows "rep_ok m (repeat_move s m vs w)"
  using assms
  by (cases "(s, m, vs, w)" rule: repeat_move.cases)
    (auto simp: rep_ok_def[of m "(_, s, m)"] in32_def intro!: wf_move_loop wf_intros)

lemma wf_repeat_store:
  assumes "wf_state s" "wf_memory m" "\<forall>v\<in>set vs. in32 v"
  shows "rep_ok m (repeat_store s m vs w)"
  using assms
  by (cases "(s, m, vs, w)" rule: repeat_store.cases)
    (auto simp: rep_ok_def[of m "(_, s, m)"] in32_def intro!: wf_store_loop wf_intros)

lemma wf_repeat_scan:
  assumes "wf_state s" "wf_memory m" "\<forall>v\<in>set vs. in32 v"
  shows "rep_ok m (repeat_scan s m vs)"
  using assms
  by (cases "(s, m, vs)" rule: repeat_scan.cases)
    (auto simp: rep_ok_def[of m "(_, s, m)"] in32_def intro!: wf_scan_loop wf_intros)

section \<open>One action\<close>

text \<open>What an action may do to the configuration: keep the invariant and the mapped cells.\<close>

definition cfg_ok :: "cfg \<Rightarrow> cfg \<Rightarrow> bool" where
  "cfg_ok c c' \<longleftrightarrow> wf_cfg c' \<and> same_cells (cfg_memory c) (cfg_memory c')"

lemma cfg_ok_refl: "wf_cfg c \<Longrightarrow> cfg_ok c c"
  by (simp add: cfg_ok_def)

lemma catch_ok:
  "cfg_ok c c1 \<Longrightarrow> (\<And>x. m = Inr x \<Longrightarrow> cfg_ok c (step_cfg (f x))) \<Longrightarrow> cfg_ok c (step_cfg (catch c1 m f))"
  by (cases m) (auto simp: catch_def)

lemma if_ok:
  "(P \<Longrightarrow> cfg_ok c (step_cfg s)) \<Longrightarrow> (\<not> P \<Longrightarrow> cfg_ok c (step_cfg t)) \<Longrightarrow> cfg_ok c (step_cfg (if P then s else t))"
  by simp

lemma words_ok: "wf_cfg c \<Longrightarrow> wf_words ws \<Longrightarrow> cfg_ok c (c\<lparr>cfg_words := ws\<rparr>)"
  by (simp add: cfg_ok_def wf_cfg_def)

lemma memory_ok: "wf_cfg c \<Longrightarrow> memory_write (cfg_memory c) p w v = Inr m \<Longrightarrow> cfg_ok c (c\<lparr>cfg_memory := m\<rparr>)"
  using write_wf write_same_cells by (auto simp: cfg_ok_def wf_cfg_def)

lemma state_ok: "wf_cfg c \<Longrightarrow> wf_state s \<Longrightarrow> cfg_ok c (c\<lparr>cfg_state := s\<rparr>)"
  by (simp add: cfg_ok_def wf_cfg_def)

lemma rep_step_ok: "wf_cfg c \<Longrightarrow> rep_ok (cfg_memory c) r \<Longrightarrow> cfg_ok c (step_cfg (rep_step c r))"
  by (auto simp: rep_step_def rep_ok_def cfg_ok_def wf_cfg_def Let_def split: option.splits)

lemma rep_args_ok: "wf_cfg c \<Longrightarrow> rep_args c a = Inr vs \<Longrightarrow> \<forall>v\<in>set vs. in32 v"
  by (auto simp: rep_args_def wf_cfg_def dest: cached_list)

lemma arg_value_in32: "wf_cfg c \<Longrightarrow> arg_value c a k = Inr v \<Longrightarrow> in32 v"
  by (auto simp: arg_value_def res_simps wf_cfg_def dest: wf_words_lookup)

lemma lookup_0_P: "(\<And>k v. (k, v) \<in> set al \<Longrightarrow> P v) \<Longrightarrow> P 0 \<Longrightarrow> P (lookup_0 al k)"
  by (auto simp: lookup_0_def split: option.splits dest: map_of_SomeD)

lemma call_state_wf: "wf_cfg c \<Longrightarrow> call_state c cl = Inr s \<Longrightarrow> wf_state s"
proof -
  assume c: "wf_cfg c" and "call_state c cl = Inr s"
  then obtain regs flgs where
    r: "mapM (\<lambda>(slot, r). bind (py_index (register_nodes cl) (int slot)) (\<lambda>i.
              bind (cached (cfg_words c) i) (\<lambda>v. Ok (r, v)))) (enumerate 0 registers_table) = Inr regs"
    and f: "mapM (\<lambda>(slot, f). bind (py_index (flag_nodes cl) (int slot)) (\<lambda>i.
              bind (cached (cfg_words c) i) (\<lambda>v. Ok (f, v AND 1)))) (enumerate 0 flags_table) = Inr flgs"
    and s: "s = (cfg_state c)\<lparr>registers := lookup_0 regs, flags := lookup_0 flgs\<rparr>"
    unfolding call_state_def bind_eq_Ok by auto
  have "in32 (snd p)" if "p \<in> set regs" for p
    by (rule mapM_all[OF r _ that])
      (use c in \<open>auto simp: bind_eq_Ok wf_cfg_def dest: wf_words_lookup split: prod.splits\<close>)
  then have "in32 (lookup_0 regs k)" for k by (intro lookup_0_P[where P = in32]) auto
  moreover have "snd p = 0 \<or> snd p = 1" if "p \<in> set flgs" for p
    by (rule mapM_all[OF f _ that]) (auto simp: bind_eq_Ok and_one_eq split: prod.splits)
  then have "lookup_0 flgs k = 0 \<or> lookup_0 flgs k = 1" for k
    by (intro lookup_0_P[where P = "\<lambda>v. v = 0 \<or> v = 1"]) force+
  ultimately show ?thesis using c by (auto simp: s wf_state_def wf_cfg_def)
qed

lemma call_step_ok: "wf_cfg c \<Longrightarrow> handler_ok (ctx_handler x) \<Longrightarrow> cfg_ok c (step_cfg (call_step x c a))"
proof -
  assume c: "wf_cfg c" and h: "handler_ok (ctx_handler x)"
  have out: "wf_state out" if "ctx_handler x = Some f" "call_state c cl = Inr cs" "f cl cs vs = Inr (status, out)"
    for f cl cs vs status out
    using h call_state_wf[OF c that(2)] that unfolding handler_ok_def by blast
  have ret: "cfg_ok c (step_cfg (if P then Next c' else Return r c'))"
    if "wf_state out" "c' = c\<lparr>cfg_state := (cfg_state c)\<lparr>registers := registers out, flags := flags out,
      eflags := eflags out, fs_base := fs_base out, original_rva := original_rva out\<rparr>, cfg_call := out\<rparr>"
    for P r out c'
    using c that by (auto simp: cfg_ok_def wf_cfg_def wf_state_def)
  show ?thesis
    unfolding call_step_def Let_def
    apply (rule catch_ok[OF cfg_ok_refl[OF c]])
    apply (rule catch_ok[OF cfg_ok_refl[OF c]])
    apply (cases "ctx_handler x")
     apply (simp add: cfg_ok_refl c)
    apply (simp only: option.case)
    apply (rule catch_ok[OF cfg_ok_refl[OF c]])
    apply (clarsimp simp only: bind_eq_Ok split_paired_all prod.case)
    apply (rule ret[OF _ refl], erule (2) out)
    done
qed

lemma exchange_step_ok: "wf_cfg c \<Longrightarrow> cfg_ok c (step_cfg (exchange_step c a b))"
proof -
  assume c: "wf_cfg c"
  have next_ok: "cfg_ok c (step_cfg (catch (c\<lparr>cfg_memory := m\<rparr>) ix
      (\<lambda>i. Next (c\<lparr>cfg_memory := m, cfg_words := AList.update i v (cfg_words (c\<lparr>cfg_memory := m\<rparr>))\<rparr>))))"
    if "wf_memory m" "same_cells (cfg_memory c) m" "in32 v" for m v ix
    using c that by (cases ix) (auto simp: catch_def cfg_ok_def wf_cfg_def intro: wf_intros)
  have wr: "wf_memory m \<and> same_cells (cfg_memory c) m" if "memory_write (cfg_memory c) p w v = Inr m" for p w v m
    using that c write_wf write_same_cells by (auto simp: wf_cfg_def)
  show ?thesis
    unfolding exchange_step_def Let_def
    apply (rule catch_ok[OF cfg_ok_refl[OF c]])
    apply (rule if_ok, simp add: cfg_ok_refl c)
    apply (rule catch_ok[OF cfg_ok_refl[OF c]])
    apply (rule catch_ok[OF cfg_ok_refl[OF c]])
    apply (rule next_ok)
      apply (use c in \<open>auto simp: bind_eq_Ok wf_cfg_def in32_def dest: wr memory_read_range split: if_splits\<close>)
    done
qed

lemma effect_step_ok:
  assumes c: "wf_cfg c" and h: "handler_ok (ctx_handler x)"
  shows "cfg_ok c (step_cfg (effect_step oper x c a))"
proof -
  have c': "wf_state (cfg_state c)" "wf_memory (cfg_memory c)" "wf_words (cfg_words c)"
    using c by (simp_all add: wf_cfg_def)
  note rules = catch_ok cfg_ok_refl[OF c] if_ok state_ok[OF c] memory_ok[OF c] words_ok[OF c] rep_step_ok[OF c]
    wf_repeat_move wf_repeat_store wf_repeat_scan c' rep_args_ok[OF c]
  show ?thesis
  proof (cases oper)
    case Op_eval_word
    have "cfg_ok c (step_cfg (case p of (v, ws) \<Rightarrow> Next (c\<lparr>cfg_words := ws\<rparr>)))"
      if "eval_word (ctx_depth x) (word_env x c) i (cfg_words c) = Inr p" for i p
      using wf_eval_word[OF c'(3), of _ _ i "fst p" "snd p"] that
      by (cases p) (auto intro: words_ok[OF c])
    then show ?thesis using Op_eval_word by (auto simp: bind_eq_Ok intro!: catch_ok cfg_ok_refl[OF c])
  next
    case Op_memory_write
    then show ?thesis by (auto simp: bind_eq_Ok intro!: catch_ok cfg_ok_refl[OF c] dest: memory_ok[OF c])
  next
    case Op_set_reg
    then show ?thesis
      by (auto intro!: catch_ok cfg_ok_refl[OF c] state_ok[OF c] wf_intros c' arg_value_in32[OF c])
  next
    case Op_set_flag
    then show ?thesis
      by (auto intro!: catch_ok cfg_ok_refl[OF c] state_ok[OF c] wf_set_flag[OF c'(1)])
  next
    case Op_sync_eflags
    then show ?thesis by (auto intro!: state_ok[OF c] wf_intros c')
  qed (use c h in \<open>auto simp: call_step_ok exchange_step_ok intro!: rules\<close>)
qed

lemma terminator_step_ok: "wf_cfg c \<Longrightarrow> cfg_ok c (step_cfg (terminator_step oper c a))"
  by (cases oper) (auto simp: cfg_ok_refl split: prod.splits intro!: catch_ok)

lemma action_step_ok:
  "wf_cfg c \<Longrightarrow> handler_ok (ctx_handler x) \<Longrightarrow> cfg_ok c (step_cfg (action_step x c a))"
  by (auto simp: action_step_def cfg_ok_refl effect_step_ok terminator_step_ok split: opname.splits)

section \<open>Transfers and cases\<close>

definition outcome_ok :: "memory \<Rightarrow> outcome \<Rightarrow> bool" where
  "outcome_ok m r \<longleftrightarrow> (case r of (_, s', m') \<Rightarrow> wf_state s' \<and> wf_memory m' \<and> same_cells m m')"

lemma run_actions_ok:
  "wf_cfg c \<Longrightarrow> handler_ok (ctx_handler x) \<Longrightarrow> run_actions x as c = Inr r \<Longrightarrow> outcome_ok (cfg_memory c) r"
proof (induction "as" arbitrary: c)
  case Nil
  then show ?case by (auto simp: outcome_ok_def wf_cfg_def)
next
  case (Cons a "as")
  define st where "st = action_step x c a"
  have ok: "cfg_ok c (step_cfg st)" using action_step_ok Cons.prems st_def by blast
  show ?case
  proof (cases st)
    case (Next c')
    then show ?thesis
      using ok Cons.prems Cons.IH[of c']
      by (auto simp: cfg_ok_def outcome_ok_def st_def intro: same_cells_trans)
  next
    case (Return r' c')
    then show ?thesis using ok Cons.prems(3) by (auto simp: cfg_ok_def wf_cfg_def outcome_ok_def st_def)
  next
    case (Fault e c')
    then show ?thesis
      using ok Cons.prems(3) by (cases e) (auto simp: cfg_ok_def wf_cfg_def outcome_ok_def st_def)
  qed
qed

lemma evaluate_transfer_ok:
  assumes "wf_state s" "wf_memory m" "handler_ok h" "evaluate_transfer depth tr s m u h = Inr r"
  shows "outcome_ok m r"
  using run_actions_ok[OF _ _ assms(4)[unfolded evaluate_transfer_def]] assms
  by (simp add: wf_cfg_def wf_state_def)

definition obs_ok :: "memory \<Rightarrow> observation \<Rightarrow> bool" where
  "obs_ok m r \<longleftrightarrow> wf_state (obs_state r) \<and> wf_memory (obs_memory r) \<and> map fst (obs_memory r) = sort (map fst m)"

lemma memory_payload_ok: "wf_memory m \<Longrightarrow> wf_memory (memory_payload m) \<and> map fst (memory_payload m) = sort (map fst m)"
proof -
  assume m: "wf_memory m"
  have "distinct (map fst (sort_key fst m))"
    using m by (simp add: wf_memory_def distinct_map)
  moreover have "map fst (sort_key fst m) = sort (map fst m)"
    using m by (intro sorted_distinct_set_unique) (simp_all add: wf_memory_def distinct_map)
  ultimately show ?thesis using m by (auto simp: wf_memory_def memory_payload_def)
qed

lemma run_case_ok:
  assumes ev: "\<And>tr s m r. wf_state s \<Longrightarrow> wf_memory m \<Longrightarrow> ev tr s m = Inr r \<Longrightarrow> outcome_ok m r"
  shows "wf_state s \<Longrightarrow> wf_memory m \<Longrightarrow> run_case k ev tab cur r s m trc = Inr ob \<Longrightarrow> obs_ok m ob"
proof (induction k arbitrary: cur r s m trc)
  case 0
  then show ?case using memory_payload_ok[of m] by (subst (asm) run_case.simps) (auto simp: obs_ok_def)
next
  case (Suc k)
  show ?case
  proof (cases "map_of tab cur")
    case None
    then show ?thesis using Suc.prems memory_payload_ok[of m]
      by (subst (asm) run_case.simps) (auto simp: obs_ok_def)
  next
    case (Some tr)
    obtain r' s' m' where e: "ev tr s m = Inr (r', s', m')"
      using Suc.prems(3) Some by (subst (asm) run_case.simps) (auto simp: bind_eq_Ok)
    have ok: "wf_state s'" "wf_memory m'" "map fst m' = map fst m"
      using ev[OF Suc.prems(1,2) e] by (auto simp: outcome_ok_def same_cells_def)
    show ?thesis
      using Suc.prems(3) Suc.IH[OF ok(1,2)] memory_payload_ok[OF ok(2)] ok
      by (subst (asm) run_case.simps) (auto simp: Some e Let_def obs_ok_def split: if_splits)
  qed
qed

end
