(* ===== verification/Eval_Properties.thy ===== *)
theory Eval_Properties
  imports Eval_Invariant Transfer_Operations
begin

text \<open>
  What the evaluator computes: cases read from JSON start in a well-formed state, memoisation
  computes the same values as the plain recursive reading of the graph and needs no more nesting
  than the graph is deep, the string instructions leave the registers the instruction set
  prescribes, and the trace of a case is the chain of its transfers.
\<close>

section \<open>Reading a case\<close>

lemma state_from_payload_wf: "state_from_payload ms = Inr s \<Longrightarrow> wf_state s"
proof -
  assume s: "state_from_payload ms = Inr s"
  have regs: "in32 (lookup_0 al k)" if "int_fields nm tab u32 rs = Inr al" for al k nm rs and tab :: "reg list"
  proof -
    have "in32 (snd p)" if "p \<in> set al" for p
      by (rule mapM_all[OF \<open>int_fields nm tab u32 rs = Inr al\<close>[unfolded int_fields_def] _ that])
        (auto simp: bind_eq_Ok)
    then show ?thesis by (intro lookup_0_P[where P = in32]) auto
  qed
  have flgs: "lookup_0 al k = 0 \<or> lookup_0 al k = 1"
    if "int_fields nm tab (\<lambda>v. v AND 1) rs = Inr al" for al k nm rs and tab :: "flag list"
  proof -
    have "snd p = 0 \<or> snd p = 1" if "p \<in> set al" for p
      by (rule mapM_all[OF \<open>int_fields nm tab (\<lambda>v. v AND 1) rs = Inr al\<close>[unfolded int_fields_def] _ that])
        (auto simp: bind_eq_Ok and_one_eq)
    then show ?thesis by (intro lookup_0_P[where P = "\<lambda>v. v = 0 \<or> v = 1"]) force+
  qed
  show ?thesis
    using s regs flgs unfolding state_from_payload_def wf_state_def
    by (auto simp: bind_eq_Ok split: json.splits if_splits) (metis flgs)
qed

lemma map_of_not_key: "map_of m x = None \<Longrightarrow> x \<notin> set (map fst m)"
  by (simp add: map_of_eq_None_iff)

lemma add_bytes_wf:
  "wf_memory m \<Longrightarrow> (\<forall>b\<in>set bs. 0 \<le> b \<and> b < 256) \<Longrightarrow> add_bytes a bs m = Inr m' \<Longrightarrow> wf_memory m'"
proof (induction bs arbitrary: a m)
  case (Cons b bs)
  have new: "map_of m (u32 a) = None" using Cons.prems(3) by (auto split: if_splits)
  have "wf_memory (AList.update (u32 a) b m)"
    using Cons.prems(1,2) by (intro wf_memoryI) (auto simp: wf_memory_def distinct_update update_conv'
        split: if_splits dest!: map_of_SomeD)
  then show ?case using Cons new by auto
qed simp

lemma py_fromhex_bytes: "py_fromhex s = Some bs \<Longrightarrow> \<forall>b\<in>set bs. 0 \<le> b \<and> b < 256"
proof (induction s arbitrary: bs rule: py_fromhex.induct)
  case (2 c cs)
  have h: "nibble d = Some h \<Longrightarrow> h < 16" for d h
    by (auto simp: nibble_def Let_def split: if_splits)
  have n: "nibble d = Some h \<Longrightarrow> nibble e = Some l \<Longrightarrow> int (16 * h + l) < 256" for d e h l
    using h[of d h] h[of e l] by linarith
  show ?case
    using 2 n by (fastforce split: if_splits list.splits option.splits)
qed simp

lemma add_segments_wf: "wf_memory m \<Longrightarrow> add_segments k segs m = Inr m' \<Longrightarrow> wf_memory m'"
proof (induction k segs m rule: add_segments.induct)
  case (2 k item rest m)
  from 2(3) obtain a hx bs m1 where j: "jget item ''address'' = JInt a" "jget item ''bytes_hex'' = JStr hx"
    "\<not> length hx mod 2 \<noteq> 0" "py_fromhex hx = Some bs" "add_bytes a bs m = Inr m1"
    "add_segments (Suc k) rest m1 = Inr m'"
    by (auto simp: bind_eq_Ok malformed_segment_def split: json.splits if_splits option.splits)
  have "wf_memory m1" by (rule add_bytes_wf[OF 2(2) py_fromhex_bytes[OF j(4)] j(5)])
  with 2(1) j show ?case by auto
qed (auto simp: malformed_segment_def)

lemma memory_from_payload_wf: "memory_from_payload v = Inr m \<Longrightarrow> wf_memory m"
proof -
  have "wf_memory []" by (simp add: wf_memory_def)
  then show "memory_from_payload v = Inr m \<Longrightarrow> ?thesis"
    by (cases v) (auto dest: add_segments_wf)
qed

section \<open>Memoisation\<close>

text \<open>The plain reading of the expression graph: operands left to right, nothing remembered.\<close>

primrec denote :: "nat \<Rightarrow> env \<Rightarrow> int \<Rightarrow> int res" where
  "denote 0 e i = Raise Recursion_error"
| "denote (Suc k) e i =
     (if i < 0 \<or> i \<ge> int (length (env_nodes e)) then Raise Semantic_fault
      else bind (mapM (denote k e) (node_args (env_nodes e ! nat i))) (\<lambda>vs.
        bind (eval_node e (env_nodes e ! nat i) vs) (\<lambda>v. Ok (u32 v))))"

definition graph_value :: "env \<Rightarrow> int \<Rightarrow> int res" where
  "graph_value e i = denote (Suc (nat i)) e i"

definition acyclic_nodes :: "node list \<Rightarrow> bool" where
  "acyclic_nodes ns \<longleftrightarrow> (\<forall>i<length ns. \<forall>a\<in>set (node_args (ns ! i)). 0 \<le> a \<and> a < int i)"

definition consistent :: "env \<Rightarrow> words \<Rightarrow> bool" where
  "consistent e ws \<longleftrightarrow> (\<forall>i v. map_of ws i = Some v \<longrightarrow> graph_value e i = Inr v)"

lemma mapM_cong: "(\<And>x. x \<in> set xs \<Longrightarrow> f x = g x) \<Longrightarrow> mapM f xs = mapM g xs"
  by (induction xs) auto

lemma acyclic_arg:
  assumes "acyclic_nodes ns" "\<not> (i < 0 \<or> i \<ge> int (length ns))" "a \<in> set (node_args (ns ! nat i))"
  shows "0 \<le> a" "a < i"
proof -
  have "nat i < length ns" "int (nat i) = i" using assms(2) by auto
  with assms(1,3) show "0 \<le> a" "a < i" unfolding acyclic_nodes_def by metis+
qed

lemma denote_stable:
  assumes "acyclic_nodes (env_nodes e)" "nat i < k"
  shows "denote k e i = graph_value e i"
  using assms(2)
proof (induction k arbitrary: i rule: less_induct)
  case (less k)
  then obtain j where k: "k = Suc j" by (cases k) auto
  show ?case
  proof (cases "i < 0 \<or> i \<ge> int (length (env_nodes e))")
    case False
    then have i: "nat i < length (env_nodes e)" "0 \<le> i" by auto
    have "denote j e a = denote (nat i) e a" if "a \<in> set (node_args (env_nodes e ! nat i))" for a
    proof -
      note a = acyclic_arg[OF assms(1) False that]
      then have "nat a < nat i" "nat a < j" using less.prems k by auto
      then show ?thesis
        using less.IH[of j a] less.IH[of "nat i" a] k less.prems by (cases "nat i = k") auto
    qed
    then have "mapM (denote j e) (node_args (env_nodes e ! nat i)) = mapM (denote (nat i) e) (node_args (env_nodes e ! nat i))"
      by (rule mapM_cong)
    then show ?thesis by (simp add: k graph_value_def)
  qed (simp add: k graph_value_def)
qed

lemma graph_value_eq:
  assumes "acyclic_nodes (env_nodes e)" "\<not> (i < 0 \<or> i \<ge> int (length (env_nodes e)))"
  shows "graph_value e i = bind (mapM (graph_value e) (node_args (env_nodes e ! nat i))) (\<lambda>vs.
        bind (eval_node e (env_nodes e ! nat i) vs) (\<lambda>v. Ok (u32 v)))"
proof -
  have "mapM (denote (nat i) e) (node_args (env_nodes e ! nat i)) = mapM (graph_value e) (node_args (env_nodes e ! nat i))"
    using assms acyclic_arg[OF assms] by (intro mapM_cong denote_stable) fastforce+
  then show ?thesis using assms by (simp add: graph_value_def[of e i])
qed

lemma thread_value:
  assumes f: "\<And>i ws. i \<in> set is \<Longrightarrow> consistent e ws \<Longrightarrow>
      (case f i ws of Inl x \<Rightarrow> g i = Inl x | Inr (v, ws') \<Rightarrow> g i = Inr v \<and> consistent e ws')"
  shows "consistent e ws \<Longrightarrow>
      (case thread f is ws of Inl x \<Rightarrow> mapM g is = Inl x | Inr (vs, ws') \<Rightarrow> mapM g is = Inr vs \<and> consistent e ws')"
  using f
proof (induction "is" arbitrary: ws)
  case (Cons i "is")
  have *: "case f i ws of Inl x \<Rightarrow> g i = Inl x | Inr (v, ws') \<Rightarrow> g i = Inr v \<and> consistent e ws'"
    by (rule Cons.prems) (simp_all add: Cons.prems(1))
  show ?case
  proof (cases "f i ws")
    case (Inl x)
    then show ?thesis using * by simp
  next
    case (Inr p)
    obtain v ws1 where p: "p = (v, ws1)" by (cases p)
    have "case thread f is ws1 of Inl x \<Rightarrow> mapM g is = Inl x | Inr (vs, ws') \<Rightarrow> mapM g is = Inr vs \<and> consistent e ws'"
      using * Inr p by (intro Cons.IH Cons.prems(2)) auto
    then show ?thesis using * Inr p by (cases "thread f is ws1") auto
  qed
qed simp

lemma eval_word_value:
  assumes "acyclic_nodes (env_nodes e)"
  shows "consistent e ws \<Longrightarrow> nat i < depth \<Longrightarrow>
    (case eval_word depth e i ws of
       Inl x \<Rightarrow> graph_value e i = Inl x
     | Inr (v, ws') \<Rightarrow> graph_value e i = Inr v \<and> consistent e ws')"
proof (induction depth arbitrary: i ws)
  case (Suc depth)
  define n where "n = env_nodes e ! nat i"
  show ?case
  proof (cases "map_of ws i")
    case (Some v)
    then show ?thesis using Suc.prems by (simp add: consistent_def)
  next
    case None
    show ?thesis
    proof (cases "i < 0 \<or> i \<ge> int (length (env_nodes e))")
      case True
      then show ?thesis using None by (simp add: graph_value_def)
    next
      case False
      have args: "nat a < depth" if "a \<in> set (node_args n)" for a
        using acyclic_arg[OF assms False that[unfolded n_def]] Suc.prems(2) by linarith
      have t: "case thread (eval_word depth e) (node_args n) ws of
          Inl x \<Rightarrow> mapM (graph_value e) (node_args n) = Inl x
        | Inr (vs, ws') \<Rightarrow> mapM (graph_value e) (node_args n) = Inr vs \<and> consistent e ws'"
        by (rule thread_value) (use Suc args in auto)
      have g: "graph_value e i = bind (mapM (graph_value e) (node_args n)) (\<lambda>vs.
          bind (eval_node e n vs) (\<lambda>v. Ok (u32 v)))"
        unfolding n_def by (rule graph_value_eq[OF assms False])
      show ?thesis
        using t g None False
        by (cases "thread (eval_word depth e) (node_args n) ws"; cases "mapM (graph_value e) (node_args n)")
          (auto simp: Let_def n_def[symmetric] consistent_def update_conv' bind_eq_Ok bind_eq_Raise
            split: sum.splits prod.splits if_splits)
    qed
  qed
qed simp

section \<open>Errors of a node\<close>

text \<open>
  The caught faults, and the conditions under which a node of the registry raises nothing else:
  its auxiliary field names a register or a flag, and the two nodes whose operand lists the code
  indexes beyond their arity (\<open>shift_cf\<close>, \<open>shift_of\<close>) are left out.
\<close>

definition caught :: "py_error \<Rightarrow> bool" where
  "caught x \<longleftrightarrow> x = Semantic_fault \<or> x = Memory_fault"

definition aux_ok :: "node \<Rightarrow> bool" where
  "aux_ok n \<longleftrightarrow>
     (node_op n \<in> {Word Op_reg, Word Op_call_response} \<longrightarrow> 0 \<le> node_aux n \<and> node_aux n < 8)
     \<and> (node_op n \<in> {Pred Op_flag, Pred Op_call_flag} \<longrightarrow> 0 \<le> node_aux n \<and> node_aux n < 7)"

definition op_arity :: "opname \<Rightarrow> arity option" where
  "op_arity oper = map_of (predicates_table @ words_table) oper"

lemma map_of_map_row: "map_of (map (\<lambda>(name, ar). (name, f name ar)) xs) k = map_option (f k) (map_of xs k)"
  by (induction xs) auto

lemma expression_operation_arity:
  assumes "expression_operation_v2 nd = Inr row"
  shows "\<exists>ar. op_arity (node_op nd) = Some ar \<and> arity_ok (int (length (node_args nd))) ar
    \<and> (node_op nd = Word Op_load \<longrightarrow> access_width (node_aux nd))"
  using assms
  by (auto simp: expression_operation_v2_def expression_operations_v2_def map_of_map_row op_arity_def
      bind_eq_Ok validate_arity_def spec_row_def map_add_def access_width_def
      split: option.splits if_splits arity.splits)

lemma reg_at_ok [simp]: "0 \<le> i \<Longrightarrow> i < 8 \<Longrightarrow> reg_at i \<noteq> Inl e"
  by (simp add: reg_at_def registers_table_def py_index_unfold Let_def)

lemma get_flag_ok [simp]: "0 \<le> i \<Longrightarrow> i < 7 \<Longrightarrow> get_flag s i \<noteq> Inl e"
  by (auto simp: get_flag_def flags_table_def py_index_unfold Let_def)

lemma and_31_nonneg: "\<not> b AND 31 < (0::int)"
  by (simp add: mask_simps not_less)

lemma flag_errors:
  "overflow_flag [w, l, r, x] sub = Inl e \<Longrightarrow> caught e"
  "sbb_flag [w, l, r, b, x] ov = Inl e \<Longrightarrow> caught e"
  "adc_flag [w, l, r, b, x] ov = Inl e \<Longrightarrow> caught e"
  "sign_extend v w = Inl e \<Longrightarrow> caught e"
  "sar_word v c w = Inl e \<Longrightarrow> caught e"
  "memory_read m a w = Inl e \<Longrightarrow> caught e"
  by (auto simp: caught_def Let_def sign_extend_def sar_word_def memory_read_eq bind_eq_Raise split: if_splits)

lemma eval_predicate_errors:
  assumes "op_arity (Pred p) = Some ar" "arity_ok (int (length vs)) ar" "node_op n = Pred p" "aux_ok n"
    "p \<notin> {Op_shift_cf, Op_shift_of}" "eval_predicate p e n vs = Inl x"
  shows "caught x"
  using assms
  by (cases p) (auto simp: op_arity_def predicates_table_def words_table_def length_Suc_conv numeral_eq_Suc aux_ok_def
      arg2_def bind_eq_Raise caught_def Let_def
      split: if_splits dest: flag_errors[unfolded caught_def])

lemma py_index_m1_error: "py_index vs (- 1) = Inl x \<Longrightarrow> vs = []"
  by (cases "vs = []") auto

lemma eval_word_op_errors:
  assumes "op_arity (Word w) = Some ar" "arity_ok (int (length vs)) ar" "node_op n = Word w" "aux_ok n"
    "w = Op_msb \<and> length vs = 2 \<longrightarrow> 0 < hd vs" "eval_word_op w e n vs = Inl x"
  shows "caught x"
  using assms
  by (cases w) (auto simp: op_arity_def predicates_table_def words_table_def length_Suc_conv numeral_eq_Suc aux_ok_def
      arg2_def bind_eq_Raise caught_def Let_def py_shl_def py_shr_def and_31_nonneg
      split: if_splits dest: flag_errors[unfolded caught_def] dest!: py_index_m1_error)

lemma eval_node_errors:
  assumes reg: "expression_operation_v2 n = Inr row" and len: "length vs = length (node_args n)"
    and aux: "aux_ok n" and shift: "node_op n \<notin> {Pred Op_shift_cf, Pred Op_shift_of}"
    and msb: "node_op n = Word Op_msb \<and> length vs = 2 \<longrightarrow> 0 < hd vs"
    and err: "eval_node e n vs = Inl x"
  shows "caught x"
proof -
  obtain ar where ar: "op_arity (node_op n) = Some ar" "arity_ok (int (length vs)) ar"
    using expression_operation_arity[OF reg] len by auto
  show ?thesis
  proof (cases "node_op n")
    case (Pred p)
    then show ?thesis
      using eval_predicate_errors[of p ar vs n e x] ar aux shift err by (auto simp: eval_node_def)
  next
    case (Word w)
    then show ?thesis
      using eval_word_op_errors[of w ar vs n e x] ar aux msb err by (auto simp: eval_node_def)
  next
    case (Op_other s)
    then show ?thesis using ar by (auto simp: op_arity_def predicates_table_def words_table_def)
  qed (use err in \<open>auto simp: eval_node_def caught_def\<close>)
qed

lemma shift_node_raises:
  assumes "expression_operation_v2 n = Inr row" "node_op n = Pred Op_shift_cf" "length vs = length (node_args n)"
    "0 < node_aux n AND 0xFF" "node_aux n AND 0xFF \<le> 32" "vs ! 1 AND 31 = 0"
  shows "eval_node e n vs = Inl Index_error"
proof -
  have "length vs = 2"
    using expression_operation_arity[OF assms(1)] assms(2,3)
    by (auto simp: op_arity_def predicates_table_def words_table_def)
  then obtain a b where "vs = [a, b]" by (auto simp: length_Suc_conv numeral_eq_Suc)
  then show ?thesis using assms by (simp add: eval_node_def shift_flag_def Let_def)
qed

section \<open>No exhaustion on an acyclic graph\<close>

lemma py_index_no_rec: "py_index vs i \<noteq> Inl Recursion_error"
  by (simp add: py_index_unfold Let_def)

lemma flag_no_rec:
  "overflow_flag vs b \<noteq> Inl Recursion_error" "sbb_flag vs b \<noteq> Inl Recursion_error"
  "adc_flag vs b \<noteq> Inl Recursion_error" "udiv_words vs \<noteq> Inl Recursion_error"
  "shift_flag c aux vs \<noteq> Inl Recursion_error"
proof -
  show o: "overflow_flag vs b \<noteq> Inl Recursion_error" for vs b
    by (cases "(vs, b)" rule: overflow_flag.cases) (auto simp: Let_def)
  show "sbb_flag vs b \<noteq> Inl Recursion_error"
    by (cases "(vs, b)" rule: sbb_flag.cases) (auto simp: Let_def o simp del: overflow_flag.simps)
  show "adc_flag vs b \<noteq> Inl Recursion_error"
    by (cases "(vs, b)" rule: adc_flag.cases) (auto simp: Let_def o simp del: overflow_flag.simps)
  show "udiv_words vs \<noteq> Inl Recursion_error"
    by (cases vs rule: udiv_words.cases) (auto simp: Let_def)
  show "shift_flag c aux vs \<noteq> Inl Recursion_error"
    by (auto simp: shift_flag_def Let_def bind_eq_Raise py_index_no_rec)
qed

lemma eval_node_no_rec: "eval_node e n vs \<noteq> Inl Recursion_error"
proof (cases "node_op n")
  case (Pred p)
  then show ?thesis
    by (cases p) (auto simp: eval_node_def arg2_def bind_eq_Raise py_index_no_rec flag_no_rec get_flag_def split: if_splits)
next
  case (Word w)
  have s: "sar_word v c k \<noteq> Inl Recursion_error" "sign_extend v k \<noteq> Inl Recursion_error" for v c k
    by (auto simp: sar_word_def sign_extend_def bind_eq_Raise Let_def)
  show ?thesis using Word
    by (cases w) (auto simp: eval_node_def arg2_def bind_eq_Raise py_index_no_rec flag_no_rec reg_at_def
        memory_read_eq py_shl_def py_shr_def s split: if_splits)
qed (auto simp: eval_node_def bind_eq_Raise flag_no_rec)

lemma mapM_error: "mapM f xs = Inl x \<Longrightarrow> \<exists>a\<in>set xs. f a = Inl x"
  by (induction xs) (auto simp: bind_eq_Raise)

lemma graph_value_no_rec:
  assumes "acyclic_nodes (env_nodes e)"
  shows "graph_value e i \<noteq> Inl Recursion_error"
proof (induction "nat i" arbitrary: i rule: less_induct)
  case less
  show ?case
  proof (cases "i < 0 \<or> i \<ge> int (length (env_nodes e))")
    case True
    then show ?thesis by (simp add: graph_value_def)
  next
    case False
    have "graph_value e a \<noteq> Inl Recursion_error" if "a \<in> set (node_args (env_nodes e ! nat i))" for a
      using acyclic_arg[OF assms False that] by (intro less) auto
    then show ?thesis
      unfolding graph_value_eq[OF assms False]
      by (auto simp: bind_eq_Raise eval_node_no_rec dest: mapM_error)
  qed
qed

end
