(* ===== verification/Transfer_Definedness.thy ===== *)
theory Transfer_Definedness
  imports Eval_Properties "HOL-Library.Product_Lexorder"
begin

text \<open>
  The definedness analysis of \<open>transfer/definedness.py\<close>: which undefined values of a transfer can
  reach an effect, a call or the outcome. The analysis calls the others noninterfering; the main
  theorem justifies the word: the evaluator's result, final state and final memory do not depend
  on the value chosen for a slot that is not observed.

  Sets of slots are \<open>set\<close>s; a slot is its numeric value and its stable identity.
\<close>

type_synonym slot = "int \<times> string"

section \<open>The analysis of one transfer\<close>

definition undefined_op :: "opname \<Rightarrow> bool" where
  "undefined_op oper \<longleftrightarrow> oper = Word Op_undefined_bv \<or> oper = Pred Op_undefined_flag"

definition missing_identity :: "'a res" where
  "missing_identity = Raise (Plan_error ''malformed_transfer_undefined_identity'')"

definition node_dependency :: "slot set list \<Rightarrow> node \<Rightarrow> slot set res" where
  "node_dependency deps nd =
     bind (mapM (py_index deps) (node_args nd)) (\<lambda>ds.
       if undefined_op (node_op nd) then
         (case node_identity nd of
            None \<Rightarrow> missing_identity
          | Some ident \<Rightarrow> Ok (\<Union> (set ds) \<union> {(node_immediate nd, ident)}))
       else Ok (\<Union> (set ds)))"

fun dependencies :: "slot set list \<Rightarrow> node list \<Rightarrow> slot set list res" where
  "dependencies deps [] = Ok deps"
| "dependencies deps (nd # nds) = bind (node_dependency deps nd) (\<lambda>d. dependencies (deps @ [d]) nds)"

text \<open>The expressions of every undefined slot, in the order of their first occurrence.\<close>

definition add_occurrence :: "(slot \<times> nat list) list \<Rightarrow> nat \<times> node \<Rightarrow> (slot \<times> nat list) list" where
  "add_occurrence occ p =
     (case (undefined_op (node_op (snd p)), node_identity (snd p)) of
        (True, Some ident) \<Rightarrow>
          (let key = (node_immediate (snd p), ident);
               old = (case map_of occ key of Some l \<Rightarrow> l | None \<Rightarrow> [])
           in AList.update key (old @ [fst p]) occ)
      | _ \<Rightarrow> occ)"

definition occurrences :: "node list \<Rightarrow> (slot \<times> nat list) list" where
  "occurrences nds = foldl add_occurrence [] (enumerate 0 nds)"

definition effect_references :: "action \<Rightarrow> int list" where
  "effect_references a = (if act_op a \<in> {Eff Op_call, Eff Op_typed_x87} then [] else act_args a)"

definition terminator_references :: "action \<Rightarrow> int list" where
  "terminator_references a =
     (if act_op a = Term Op_outcome_branch then take 1 (act_args a)
      else if act_op a \<in> {Term Op_outcome_return, Term Op_outcome_indirect, Term Op_outcome_nonlocal}
      then act_args a else [])"

definition call_references :: "call \<Rightarrow> int list" where
  "call_references c =
     (case target_node c of None \<Rightarrow> [] | Some t \<Rightarrow> [t]) @ register_nodes c @ flag_nodes c @ argument_nodes c
     @ map (\<lambda>(off, w, nd). nd) (stack_inputs c)"

definition observed_references :: "transfer \<Rightarrow> int list res" where
  "observed_references t =
     (if actions t = [] then Raise Index_error
      else Ok (concat (map effect_references (butlast (actions t)))
               @ concat (map call_references (calls t))
               @ terminator_references (last (actions t))))"

record transfer_slots =
  ts_occurrences :: "(slot \<times> nat list) list"
  ts_observed :: "slot set"

definition analyze_transfer :: "transfer \<Rightarrow> transfer_slots res" where
  "analyze_transfer t =
     bind (dependencies [] (nodes t)) (\<lambda>deps.
     bind (observed_references t) (\<lambda>refs.
       if \<exists>r\<in>set refs. r \<ge> int (length deps)
       then Raise (Plan_error ''malformed_transfer_node_reference'')
       else bind (mapM (py_index deps) refs) (\<lambda>ds.
         Ok \<lparr>ts_occurrences = occurrences (nodes t), ts_observed = \<Union> (set ds)\<rparr>)))"

section \<open>The report over all transfers\<close>

record slot_occurrence =
  so_transfer :: string
  so_rva :: int
  so_expressions :: "nat list"
  so_observed :: bool

record slot_row =
  behavior_relevant :: bool
  slot_occurrences :: "slot_occurrence list"

definition add_row :: "transfer \<Rightarrow> slot set \<Rightarrow> (slot \<times> slot_row) list \<Rightarrow> slot \<times> nat list \<Rightarrow> (slot \<times> slot_row) list" where
  "add_row t observed rows p =
     (let row = (case map_of rows (fst p) of Some r \<Rightarrow> r | None \<Rightarrow> \<lparr>behavior_relevant = False, slot_occurrences = []\<rparr>);
          seen = (fst p \<in> observed)
      in AList.update (fst p)
           \<lparr>behavior_relevant = behavior_relevant row \<or> seen,
            slot_occurrences = slot_occurrences row
              @ [\<lparr>so_transfer = identity t, so_rva = rva_start t, so_expressions = snd p, so_observed = seen\<rparr>]\<rparr> rows)"

fun collect_slots :: "(slot \<times> slot_row) list \<Rightarrow> transfer list \<Rightarrow> (slot \<times> slot_row) list res" where
  "collect_slots rows [] = Ok rows"
| "collect_slots rows (t # ts) =
     bind (analyze_transfer t) (\<lambda>a.
       collect_slots (foldl (add_row t (ts_observed a)) rows (ts_occurrences a)) ts)"

record definedness_report =
  complete :: bool
  slot_rows :: "(slot \<times> slot_row) list"
  collisions :: "(int \<times> string list) list"
  undefined_nodes :: nat
  relevant_slots :: nat

definition slot_collisions :: "slot list \<Rightarrow> (int \<times> string list) list" where
  "slot_collisions keys =
     map (\<lambda>n. (n, sort (remdups (map snd (filter (\<lambda>k. fst k = n) keys)))))
       (filter (\<lambda>n. length (remdups (map snd (filter (\<lambda>k. fst k = n) keys))) \<noteq> 1)
         (sort (remdups (map fst keys))))"

definition analyze_transfer_definedness_v2 :: "transfer list \<Rightarrow> definedness_report res" where
  "analyze_transfer_definedness_v2 ts =
     bind (collect_slots [] ts) (\<lambda>slots.
       let rows = sort_key fst slots; coll = slot_collisions (map fst slots)
       in Ok \<lparr>complete = (coll = []), slot_rows = rows, collisions = coll,
              undefined_nodes = sum_list (map (\<lambda>(k, r). sum_list (map (length \<circ> so_expressions) (slot_occurrences r))) rows),
              relevant_slots = length (filter (\<lambda>(k, r). behavior_relevant r) rows)\<rparr>)"

section \<open>Dependencies cover what a node reads\<close>

definition dependency_closed :: "node list \<Rightarrow> slot set list \<Rightarrow> bool" where
  "dependency_closed nds deps \<longleftrightarrow> length deps = length nds \<and>
     (\<forall>i<length nds. (\<forall>a\<in>set (node_args (nds ! i)). 0 \<le> a \<longrightarrow> a < int i \<and> deps ! nat a \<subseteq> deps ! i)
        \<and> (undefined_op (node_op (nds ! i)) \<longrightarrow>
            (\<exists>ident. node_identity (nds ! i) = Some ident \<and> (node_immediate (nds ! i), ident) \<in> deps ! i)))"

lemma mapM_mem: "mapM f xs = Inr ys \<Longrightarrow> a \<in> set xs \<Longrightarrow> \<exists>y\<in>set ys. f a = Inr y"
  by (induction xs arbitrary: ys) (auto simp: bind_eq_Ok)

lemma node_dependency_spec:
  assumes "node_dependency deps nd = Inr d"
  shows "\<forall>a\<in>set (node_args nd). 0 \<le> a \<longrightarrow> a < int (length deps) \<and> deps ! nat a \<subseteq> d"
    "undefined_op (node_op nd) \<Longrightarrow> \<exists>ident. node_identity nd = Some ident \<and> (node_immediate nd, ident) \<in> d"
proof -
  obtain ds where ds: "mapM (py_index deps) (node_args nd) = Inr ds" "\<Union> (set ds) \<subseteq> d"
    using assms by (auto simp: node_dependency_def bind_eq_Ok missing_identity_def split: if_splits option.splits)
  show "\<forall>a\<in>set (node_args nd). 0 \<le> a \<longrightarrow> a < int (length deps) \<and> deps ! nat a \<subseteq> d"
  proof (intro ballI impI)
    fix a assume a: "a \<in> set (node_args nd)" "0 \<le> a"
    from mapM_mem[OF ds(1) a(1)] obtain x where "x \<in> set ds" "py_index deps a = Inr x" ..
    then show "a < int (length deps) \<and> deps ! nat a \<subseteq> d"
      using a ds(2) by (auto simp: py_index_unfold Let_def split: if_splits)
  qed
  show "undefined_op (node_op nd) \<Longrightarrow> \<exists>ident. node_identity nd = Some ident \<and> (node_immediate nd, ident) \<in> d"
    using assms by (auto simp: node_dependency_def bind_eq_Ok missing_identity_def split: option.splits)
qed

lemma dependencies_closed:
  "dependency_closed pre deps \<Longrightarrow> dependencies deps nds = Inr deps' \<Longrightarrow> dependency_closed (pre @ nds) deps'"
proof (induction nds arbitrary: pre deps)
  case (Cons nd nds)
  then obtain d where d: "node_dependency deps nd = Inr d" and rest: "dependencies (deps @ [d]) nds = Inr deps'"
    by (auto simp: bind_eq_Ok)
  have "dependency_closed (pre @ [nd]) (deps @ [d])"
    unfolding dependency_closed_def
  proof (intro conjI allI impI ballI)
    have len: "length deps = length pre" using Cons.prems(1) by (simp add: dependency_closed_def)
    show "length (deps @ [d]) = length (pre @ [nd])" by (simp add: len)
    fix i assume "i < length (pre @ [nd])"
    then have i: "i < length pre \<or> i = length pre" by auto
    show "\<exists>ident. node_identity ((pre @ [nd]) ! i) = Some ident \<and> (node_immediate ((pre @ [nd]) ! i), ident) \<in> (deps @ [d]) ! i"
      if "undefined_op (node_op ((pre @ [nd]) ! i))"
      using i that Cons.prems(1) node_dependency_spec(2)[OF d]
      by (auto simp: dependency_closed_def nth_append)
    fix a assume a: "a \<in> set (node_args ((pre @ [nd]) ! i))" "0 \<le> a"
    have "a < int i \<and> deps ! nat a \<subseteq> (deps @ [d]) ! i"
      using i a Cons.prems(1) node_dependency_spec(1)[OF d] len
      by (elim disjE) (simp_all add: dependency_closed_def nth_append)
    moreover from this have "nat a < length deps" using i a(2) len by auto
    ultimately show "a < int i" "(deps @ [d]) ! nat a \<subseteq> (deps @ [d]) ! i"
      by (auto simp: nth_append)
  qed
  from Cons.IH[OF this rest] show ?case by simp
qed simp


section \<open>Noninterference\<close>

text \<open>Two undefined-value maps that agree on the numeric values of a set of slots.\<close>

definition agree_on :: "slot set \<Rightarrow> (int \<times> int) list \<Rightarrow> (int \<times> int) list \<Rightarrow> bool" where
  "agree_on S u u' \<longleftrightarrow> (\<forall>(k, ident)\<in>S. map_of u k = map_of u' k)"

lemma agree_on_subset: "agree_on S u u' \<Longrightarrow> T \<subseteq> S \<Longrightarrow> agree_on T u u'"
  by (auto simp: agree_on_def)

lemma thread_cong: "(\<And>i ws. i \<in> set is \<Longrightarrow> f i ws = g i ws) \<Longrightarrow> thread f is ws = thread g is ws"
proof (induction "is" arbitrary: ws)
  case (Cons i "is")
  then show ?case by (auto intro!: arg_cong[where f = "bind _"] ext split: prod.splits)
qed simp

lemma eval_node_undefined:
  assumes "undefined_op (node_op n) \<longrightarrow> map_of u (node_immediate n) = map_of u' (node_immediate n)"
  shows "eval_node (e\<lparr>env_undefined := u\<rparr>) n vs = eval_node (e\<lparr>env_undefined := u'\<rparr>) n vs"
proof (cases "node_op n")
  case (Pred p)
  then show ?thesis using assms
    by (cases p) (auto simp: eval_node_def selected_state_def undefined_value_def undefined_op_def)
next
  case (Word w)
  then show ?thesis using assms
    by (cases w) (auto simp: eval_node_def selected_state_def undefined_value_def undefined_op_def)
qed (simp_all add: eval_node_def)

lemma eval_word_agrees:
  assumes closed: "dependency_closed (env_nodes e) deps"
  shows "(0 \<le> i \<and> i < int (length deps) \<Longrightarrow> agree_on (deps ! nat i) u u') \<Longrightarrow>
    eval_word depth (e\<lparr>env_undefined := u\<rparr>) i ws = eval_word depth (e\<lparr>env_undefined := u'\<rparr>) i ws"
proof (induction depth arbitrary: i ws)
  case (Suc depth)
  define n where "n = env_nodes e ! nat i"
  show ?case
  proof (cases "i < 0 \<or> i \<ge> int (length (env_nodes e))")
    case False
    then have i: "0 \<le> i" "nat i < length (env_nodes e)" "i < int (length deps)"
      using closed by (auto simp: dependency_closed_def)
    note agree = Suc.prems[OF conjI[OF i(1,3)]]
    have "eval_word depth (e\<lparr>env_undefined := u\<rparr>) a ws = eval_word depth (e\<lparr>env_undefined := u'\<rparr>) a ws"
      if a: "a \<in> set (node_args n)" for a ws
    proof (rule Suc.IH)
      assume "0 \<le> a \<and> a < int (length deps)"
      then have "deps ! nat a \<subseteq> deps ! nat i" using closed i a by (auto simp: dependency_closed_def n_def)
      then show "agree_on (deps ! nat a) u u'" using agree agree_on_subset by blast
    qed
    then have "thread (eval_word depth (e\<lparr>env_undefined := u\<rparr>)) (node_args n) ws
        = thread (eval_word depth (e\<lparr>env_undefined := u'\<rparr>)) (node_args n) ws"
      by (rule thread_cong)
    moreover have "undefined_op (node_op n) \<longrightarrow> map_of u (node_immediate n) = map_of u' (node_immediate n)"
      using closed i agree by (fastforce simp: dependency_closed_def n_def agree_on_def)
    note eval_node_undefined[OF this, of e]
    ultimately show ?thesis using False by (cases "map_of ws i") (simp_all add: n_def[symmetric])
  qed (simp split: option.splits)
qed simp

text \<open>Actions read the undefined values only through \<open>eval_word\<close>, on the expressions they name.\<close>

lemma return_value_undefined [simp]: "return_value (x\<lparr>ctx_undefined := u\<rparr>) k = return_value x k"
  by (simp add: return_value_def)

lemma effect_step_undefined:
  "oper \<noteq> Op_eval_word \<Longrightarrow> effect_step oper (x\<lparr>ctx_undefined := u\<rparr>) c a = effect_step oper (x\<lparr>ctx_undefined := u'\<rparr>) c a"
  by (cases oper) (simp_all add: call_step_def cong: option.case_cong if_cong)

lemma action_step_agrees:
  assumes closed: "dependency_closed (nodes (ctx_transfer x)) deps"
    and agree: "\<And>i. act_op a = Eff Op_eval_word \<Longrightarrow> i \<in> set (act_args a) \<Longrightarrow> 0 \<le> i \<Longrightarrow> i < int (length deps)
      \<Longrightarrow> agree_on (deps ! nat i) u u'"
  shows "action_step (x\<lparr>ctx_undefined := u\<rparr>) c a = action_step (x\<lparr>ctx_undefined := u'\<rparr>) c a"
proof (cases "act_op a = Eff Op_eval_word")
  case True
  have "bind (py_index (act_args a) 0) (\<lambda>i. eval_word (ctx_depth x) (word_env (x\<lparr>ctx_undefined := u\<rparr>) c) i (cfg_words c))
      = bind (py_index (act_args a) 0) (\<lambda>i. eval_word (ctx_depth x) (word_env (x\<lparr>ctx_undefined := u'\<rparr>) c) i (cfg_words c))"
  proof (cases "py_index (act_args a) 0")
    case (Inr i)
    have "eval_word (ctx_depth x) ((word_env x c)\<lparr>env_undefined := u\<rparr>) i (cfg_words c)
        = eval_word (ctx_depth x) ((word_env x c)\<lparr>env_undefined := u'\<rparr>) i (cfg_words c)"
      by (rule eval_word_agrees[where deps = deps])
        (use closed agree[OF True py_index_in_set[OF Inr]] in \<open>auto simp: word_env_def\<close>)
    then show ?thesis by (simp add: Inr word_env_def)
  qed simp
  then show ?thesis by (simp add: action_step_def True)
next
  case False
  then show ?thesis
    by (auto simp: action_step_def split: opname.splits intro: effect_step_undefined)
qed

lemma run_actions_agrees:
  assumes closed: "dependency_closed (nodes (ctx_transfer x)) deps"
    and agree: "\<And>a i. a \<in> set acts \<Longrightarrow> act_op a = Eff Op_eval_word \<Longrightarrow> i \<in> set (act_args a) \<Longrightarrow> 0 \<le> i
      \<Longrightarrow> i < int (length deps) \<Longrightarrow> agree_on (deps ! nat i) u u'"
  shows "run_actions (x\<lparr>ctx_undefined := u\<rparr>) acts c = run_actions (x\<lparr>ctx_undefined := u'\<rparr>) acts c"
  using agree
proof (induction acts arbitrary: c)
  case Nil
  then show ?case by simp
next
  case (Cons a acts)
  have "action_step (x\<lparr>ctx_undefined := u\<rparr>) c a = action_step (x\<lparr>ctx_undefined := u'\<rparr>) c a"
    by (rule action_step_agrees[OF closed]) (use Cons.prems in auto)
  moreover have "run_actions (x\<lparr>ctx_undefined := u\<rparr>) acts c' = run_actions (x\<lparr>ctx_undefined := u'\<rparr>) acts c'" for c'
    by (rule Cons.IH) (use Cons.prems in auto)
  ultimately show ?case
    by (simp split: step.splits py_error.splits)
qed

lemma observed_dependency:
  assumes "analyze_transfer t = Inr an" "a \<in> set (butlast (actions t))" "act_op a = Eff Op_eval_word"
    "i \<in> set (act_args a)" "dependencies [] (nodes t) = Inr deps" "0 \<le> i" "i < int (length deps)"
  shows "deps ! nat i \<subseteq> ts_observed an"
proof -
  obtain refs ds where refs: "observed_references t = Inr refs" "mapM (py_index deps) refs = Inr ds"
    "ts_observed an = \<Union> (set ds)"
    using assms(1,5) by (auto simp: analyze_transfer_def bind_eq_Ok split: if_splits)
  have "i \<in> set refs"
    using refs(1) assms(2,3,4) by (auto simp: observed_references_def effect_references_def split: if_splits)
  from mapM_mem[OF refs(2) this] obtain d where "d \<in> set ds" "py_index deps i = Inr d" ..
  then show ?thesis using refs(3) assms(6,7) by (auto simp: py_index_unfold Let_def)
qed

lemma evaluate_agrees:
  assumes an: "analyze_transfer t = Inr an" and last: "act_op (last (actions t)) = Term oper"
    and agree: "agree_on (ts_observed an) u u'"
  shows "evaluate_transfer depth t s m u h = evaluate_transfer depth t s m u' h"
proof -
  obtain deps where deps: "dependencies [] (nodes t) = Inr deps" and ne: "actions t \<noteq> []"
    using an by (auto simp: analyze_transfer_def observed_references_def bind_eq_Ok split: if_splits)
  have closed: "dependency_closed (nodes t) deps"
    using dependencies_closed[of "[]" "[]", OF _ deps] by (simp add: dependency_closed_def)
  have "agree_on (deps ! nat i) u u'"
    if "a \<in> set (actions t)" "act_op a = Eff Op_eval_word" "i \<in> set (act_args a)" "0 \<le> i" "i < int (length deps)" for a i
  proof -
    have "actions t = butlast (actions t) @ [last (actions t)]" using ne by simp
    then have "a \<in> set (butlast (actions t)) \<or> a = last (actions t)"
      using that(1) by (metis Un_iff empty_iff insert_iff list.set(1,2) set_append)
    then have "a \<in> set (butlast (actions t))" using that(2) last by auto
    from observed_dependency[OF an this that(2,3) deps that(4,5)] show ?thesis
      using agree agree_on_subset by blast
  qed
  from run_actions_agrees[where x = "\<lparr>ctx_transfer = t, ctx_initial = s, ctx_undefined = u, ctx_handler = h, ctx_depth = depth\<rparr>"
      and deps = deps and acts = "actions t", simplified, OF closed this]
  show ?thesis by (simp add: evaluate_transfer_def)
qed

section \<open>The report\<close>

definition node_slots :: "node list \<Rightarrow> slot set" where
  "node_slots nds = {(node_immediate nd, ident) | nd ident. nd \<in> set nds \<and> undefined_op (node_op nd) \<and> node_identity nd = Some ident}"

lemma node_dependency_slots:
  assumes "node_dependency deps nd = Inr d" "\<forall>e\<in>set deps. e \<subseteq> S"
  shows "d \<subseteq> S \<union> node_slots [nd]"
proof -
  obtain ds where ds: "mapM (py_index deps) (node_args nd) = Inr ds"
    "d = \<Union> (set ds) \<or> (undefined_op (node_op nd) \<and> (\<exists>ident. node_identity nd = Some ident \<and> d = \<Union> (set ds) \<union> {(node_immediate nd, ident)}))"
    using assms(1) by (auto simp: node_dependency_def bind_eq_Ok missing_identity_def split: if_splits option.splits)
  have "e \<subseteq> S" if "e \<in> set ds" for e
    by (rule mapM_all[OF ds(1) _ that]) (rule bspec[OF assms(2) py_index_in_set])
  then show ?thesis using ds(2) by (auto simp: node_slots_def)
qed

lemma dependencies_slots:
  "\<forall>e\<in>set deps. e \<subseteq> S \<Longrightarrow> dependencies deps nds = Inr deps' \<Longrightarrow> \<forall>e\<in>set deps'. e \<subseteq> S \<union> node_slots nds"
proof (induction nds arbitrary: deps S)
  case (Cons nd nds)
  then obtain d where d: "node_dependency deps nd = Inr d" and rest: "dependencies (deps @ [d]) nds = Inr deps'"
    by (auto simp: bind_eq_Ok)
  have "\<forall>e\<in>set (deps @ [d]). e \<subseteq> S \<union> node_slots [nd]"
    using Cons.prems(1) node_dependency_slots[OF d Cons.prems(1)] by auto
  from Cons.IH[OF this rest] show ?case by (fastforce simp: node_slots_def)
qed auto

lemma add_occurrence_keys: "k \<in> dom (map_of occ) \<Longrightarrow> k \<in> dom (map_of (add_occurrence occ p))"
  by (auto simp: add_occurrence_def Let_def update_conv' split: option.splits bool.splits)

lemma occurrences_keys: "node_slots nds \<subseteq> dom (map_of (occurrences nds))"
proof -
  have keep: "k \<in> dom (map_of occ) \<Longrightarrow> k \<in> dom (map_of (foldl add_occurrence occ ps))" for k occ ps
    by (induction ps arbitrary: occ) (simp_all only: foldl.simps add_occurrence_keys)
  have "node_slots (map snd ps) \<subseteq> dom (map_of (foldl add_occurrence occ ps))" for occ and ps :: "(nat \<times> node) list"
  proof (induction ps arbitrary: occ)
    case (Cons p ps)
    have "node_slots [snd p] \<subseteq> dom (map_of (add_occurrence occ p))"
      by (auto simp: node_slots_def add_occurrence_def Let_def update_conv')
    then have "node_slots [snd p] \<subseteq> dom (map_of (foldl add_occurrence occ (p # ps)))"
      using keep unfolding foldl.simps by blast
    moreover have "node_slots (map snd (p # ps)) = node_slots [snd p] \<union> node_slots (map snd ps)"
      by (auto simp: node_slots_def)
    ultimately show ?case using Cons.IH by auto
  qed (simp add: node_slots_def)
  from this[of "enumerate 0 nds"] show ?thesis by (simp add: occurrences_def)
qed

lemma observed_are_occurrences:
  assumes "analyze_transfer t = Inr an" shows "ts_observed an \<subseteq> fst ` set (ts_occurrences an)"
proof -
  obtain deps refs ds where d: "dependencies [] (nodes t) = Inr deps" "mapM (py_index deps) refs = Inr ds"
    "an = \<lparr>ts_occurrences = occurrences (nodes t), ts_observed = \<Union> (set ds)\<rparr>"
    using assms by (auto simp: analyze_transfer_def bind_eq_Ok split: if_splits)
  have sub: "\<forall>e\<in>set deps. e \<subseteq> node_slots (nodes t)" using dependencies_slots[OF _ d(1), of "{}"] by simp
  have "e \<subseteq> node_slots (nodes t)" if "e \<in> set ds" for e
    by (rule mapM_all[OF d(2) _ that]) (rule bspec[OF sub py_index_in_set])
  then have "ts_observed an \<subseteq> node_slots (nodes t)" by (simp add: d(3) UN_subset_iff Sup_le_iff)
  also have "\<dots> \<subseteq> fst ` set (ts_occurrences an)"
    using occurrences_keys[of "nodes t"] by (simp add: d(3) dom_map_of_conv_image_fst)
  finally show ?thesis .
qed

definition relevant_in :: "(slot \<times> slot_row) list \<Rightarrow> slot \<Rightarrow> bool" where
  "relevant_in rows k \<longleftrightarrow> (\<exists>r. map_of rows k = Some r \<and> behavior_relevant r)"

lemma add_row_relevant:
  "relevant_in rows k \<Longrightarrow> relevant_in (add_row t S rows p) k"
  "fst p \<in> S \<Longrightarrow> relevant_in (add_row t S rows p) (fst p)"
  by (auto simp: relevant_in_def add_row_def Let_def update_conv')

lemma add_rows_relevant:
  "relevant_in rows k \<or> (k \<in> S \<and> k \<in> fst ` set ps) \<Longrightarrow> relevant_in (foldl (add_row t S) rows ps) k"
proof (induction ps arbitrary: rows)
  case (Cons p ps)
  then have "relevant_in (add_row t S rows p) k \<or> (k \<in> S \<and> k \<in> fst ` set ps)"
    using add_row_relevant(1)[of rows k t S p] add_row_relevant(2)[of p S t rows] by auto
  from Cons.IH[OF this] show ?case by simp
qed simp

lemma collect_relevant:
  "collect_slots rows ts = Inr rows' \<Longrightarrow>
   relevant_in rows k \<or> (\<exists>t\<in>set ts. \<exists>an. analyze_transfer t = Inr an \<and> k \<in> ts_observed an) \<Longrightarrow> relevant_in rows' k"
proof (induction ts arbitrary: rows)
  case (Cons t ts)
  then obtain an where an: "analyze_transfer t = Inr an"
    and rest: "collect_slots (foldl (add_row t (ts_observed an)) rows (ts_occurrences an)) ts = Inr rows'"
    by (auto simp: bind_eq_Ok)
  have "relevant_in (foldl (add_row t (ts_observed an)) rows (ts_occurrences an)) k
      \<or> (\<exists>t\<in>set ts. \<exists>an. analyze_transfer t = Inr an \<and> k \<in> ts_observed an)"
    using Cons.prems(2) an observed_are_occurrences[OF an]
      add_rows_relevant[of rows k "ts_observed an" "ts_occurrences an" t] by fastforce
  from Cons.IH[OF rest this] show ?case .
qed simp

lemma collect_analyzes: "collect_slots rows ts = Inr rows' \<Longrightarrow> t \<in> set ts \<Longrightarrow> \<exists>an. analyze_transfer t = Inr an"
  by (induction ts arbitrary: rows) (auto simp: bind_eq_Ok)

lemma no_collision:
  assumes "slot_collisions keys = []" "(n, i) \<in> set keys" "(n, j) \<in> set keys" shows "i = j"
proof -
  have "length (remdups (map snd (filter (\<lambda>k. fst k = n) keys))) = 1"
    using assms(1,2) by (force simp: slot_collisions_def filter_empty_conv)
  then obtain x where "remdups (map snd (filter (\<lambda>k. fst k = n) keys)) = [x]" by (auto simp: length_Suc_conv)
  then have "set (map snd (filter (\<lambda>k. fst k = n) keys)) = {x}"
    by (metis set_remdups empty_set list.simps(15))
  moreover have "i \<in> set (map snd (filter (\<lambda>k. fst k = n) keys))" "j \<in> set (map snd (filter (\<lambda>k. fst k = n) keys))"
    using assms(2,3) by force+
  ultimately show ?thesis by auto
qed

lemma add_rows_distinct:
  "distinct (map fst rows) \<Longrightarrow> distinct (map fst (foldl (add_row t S) rows ps))"
  by (induction ps arbitrary: rows) (auto simp: add_row_def Let_def distinct_update)

lemma collect_distinct: "distinct (map fst rows) \<Longrightarrow> collect_slots rows ts = Inr rows' \<Longrightarrow> distinct (map fst rows')"
  by (induction ts arbitrary: rows) (auto simp: bind_eq_Ok, metis add_rows_distinct)

lemma slot_rows_distinct: "analyze_transfer_definedness_v2 ts = Inr r \<Longrightarrow> distinct (map fst (slot_rows r))"
  by (auto simp: analyze_transfer_definedness_v2_def bind_eq_Ok Let_def distinct_map
      dest: collect_distinct[rotated])

lemma report_noninterference:
  assumes rep: "analyze_transfer_definedness_v2 ts = Inr r" "complete r"
    and row: "((n, ident), row) \<in> set (slot_rows r)" "\<not> (\<exists>row'. ((n, ident), row') \<in> set (slot_rows r) \<and> behavior_relevant row')"
    and t: "t \<in> set ts" "act_op (last (actions t)) = Term oper"
    and u: "\<And>k. k \<noteq> n \<Longrightarrow> map_of u k = map_of u' k"
  shows "evaluate_transfer depth t s m u h = evaluate_transfer depth t s m u' h"
proof -
  obtain slots where slots: "collect_slots [] ts = Inr slots" "slot_collisions (map fst slots) = []"
    "slot_rows r = sort_key fst slots"
    using rep by (auto simp: analyze_transfer_definedness_v2_def bind_eq_Ok Let_def)
  obtain an where an: "analyze_transfer t = Inr an" using collect_analyzes[OF slots(1) t(1)] by blast
  have "n \<noteq> k" if obs: "(k, i) \<in> ts_observed an" for k i
  proof
    assume "n = k"
    have "relevant_in slots (n, i)"
      using collect_relevant[OF slots(1), of "(n, i)"] t(1) an obs \<open>n = k\<close> by blast
    then obtain row' where row': "((n, i), row') \<in> set slots" "behavior_relevant row'"
      by (auto simp: relevant_in_def dest: map_of_SomeD)
    have "i = ident"
      by (rule no_collision[OF slots(2)]) (use row' row(1) slots(3) in force)+
    then show False using row' row(2) slots(3) by auto
  qed
  then have "agree_on (ts_observed an) u u'" using u by (fastforce simp: agree_on_def)
  from evaluate_agrees[OF an t(2) this] show ?thesis .
qed

end
