(* ===== verification/Memory_Actions.thy ===== *)
theory Memory_Actions
  imports Json_Value "HOL-Library.Option_ord" "HOL-Library.Product_Lexorder" "HOL-Library.Multiset"
begin

text \<open>
  The memory-action graphs of \<open>machine_ir/memory_actions.py\<close>: from the sequential memory events of a
  unit and its decoded instructions, the read, write and atomic read-modify-write actions with their
  program order, the validation of such a graph and the signature by which two graphs are compared.

  An instruction, an event and an action are the members of a JSON object; \<open>copy.deepcopy\<close> is the
  identity. \<open>_copy_mapping\<close> goes through \<open>json.dumps(..., sort_keys=True)\<close>, so a copy has its keys
  sorted. \<open>MemoryActionError\<close> is \<open>Action_error\<close>. The SHA-256 of a text is the parameter \<open>sha\<close>.
\<close>

section \<open>Constants and receipts\<close>

definition action_graph_format :: string where
  "action_graph_format = ''spaghetti-extractor-machine-memory-action-graph-v1''"

definition signature_format :: string where
  "signature_format = ''spaghetti-extractor-concurrency-signature-v1''"

definition tso_profile :: string where
  "tso_profile = ''x86-pe32-user-wb-tso-v1''"

definition atomic_operations :: "(string \<times> string) list" where
  "atomic_operations =
     [(''adc'', ''add_with_carry''), (''add'', ''add''), (''and'', ''bitwise_and''),
      (''btc'', ''bit_test_complement''), (''btr'', ''bit_test_reset''), (''bts'', ''bit_test_set''),
      (''cmpxchg'', ''compare_exchange''), (''cmpxchg8b'', ''compare_exchange_double_word''),
      (''dec'', ''decrement''), (''inc'', ''increment''), (''neg'', ''negate''), (''not'', ''bitwise_not''),
      (''or'', ''bitwise_or''), (''sbb'', ''subtract_with_borrow''), (''sub'', ''subtract''),
      (''xadd'', ''exchange_add''), (''xchg'', ''exchange''), (''xor'', ''bitwise_xor'')]"

definition action_kinds :: "json list" where
  "action_kinds = map JStr [''read'', ''write'', ''rmw'', ''fence'']"

definition pe32_widths :: "json list" where
  "pe32_widths = map JInt [1, 2, 4, 8]"

definition memory_model_receipt :: "(string \<Rightarrow> string) \<Rightarrow> members" where
  "memory_model_receipt sha =
     (let core =
        [(''format'', JStr ''spaghetti-extractor-memory-model-receipt-v1''), (''profile_id'', JStr tso_profile),
         (''scope'', JObj
            [(''architecture'', JStr ''x86''), (''execution_mode'', JStr ''pe32-user''),
             (''memory_type'', JStr ''write_back''), (''memory_model'', JStr ''tso''),
             (''naturally_aligned_only'', JBool True), (''thread_lifecycle'', JStr ''external_frontier''),
             (''unsupported'', JList (map JStr
                [''device_or_mmio_memory'', ''non_write_back_memory'', ''split_lock'',
                 ''page_crossing_locked_access'', ''unaligned_atomic_access'']))]),
         (''archsem'', JObj
            [(''commit'', JStr ''dccdcdaeb1fb44d11a5e9ac0b0a9f4391620e453''),
             (''axiomatic_model'', JStr ''ArchSemX86/AxiomaticX86TSO.v''),
             (''integration'', JStr ''predecoded_event_bridge''),
             (''decoder'', JStr ''spaghetti-extractor-xed-validated-pe32'')]),
         (''differential_oracle'', JObj
            [(''implementation'', JStr ''herdtools7''), (''model'', JStr ''herd/models/x86tso-mixed.cat''),
             (''authority'', JBool False)])]
      in core @ [(''receipt_sha256'', JStr (json_digest sha (JObj core)))])"

section \<open>Reading an instruction\<close>

definition copy_mapping :: "json \<Rightarrow> members res" where
  "copy_mapping v = (case sort_keys v of JObj ms \<Rightarrow> Ok ms | _ \<Rightarrow> Raise Action_error)"

definition lock_text :: "json \<Rightarrow> bool" where
  "lock_text v = (case v of JStr s \<Rightarrow> py_lower (strip s) = ''lock'' | _ \<Rightarrow> False)"

definition prefix_listed :: "members \<Rightarrow> string \<Rightarrow> bool" where
  "prefix_listed instr key =
     (case jget instr key of JStr s \<Rightarrow> lock_text (JStr s) | JList xs \<Rightarrow> list_ex lock_text xs | _ \<Rightarrow> False)"

definition has_lock_prefix :: "members \<Rightarrow> bool" where
  "has_lock_prefix instr \<longleftrightarrow>
     (case jget instr ''mnemonic'' of JStr s \<Rightarrow> take 5 (py_lower (strip s)) = ''lock '' | _ \<Rightarrow> False)
     \<or> jget instr ''lock_prefix'' = JBool True
     \<or> prefix_listed instr ''prefix'' \<or> prefix_listed instr ''prefixes''
     \<or> member_of (jget instr ''attributes'') ''lock_prefix'' = JBool True"

definition base_mnemonic :: "members \<Rightarrow> string res" where
  "base_mnemonic instr =
     (case jget instr ''mnemonic'' of
        JStr s \<Rightarrow> let words = split_words [] (py_lower (strip s)) in
          if length words > 1 \<and> hd words = ''lock'' then Ok (words ! 1) else py_index words 0
      | _ \<Rightarrow> Ok [])"

definition memory_operands :: "members \<Rightarrow> members list" where
  "memory_operands instr =
     (case jget instr ''operands'' of
        JList xs \<Rightarrow> [ms. JObj ms \<leftarrow> xs, jget ms ''kind'' = JStr ''memory'']
      | _ \<Rightarrow> [])"

definition int_or_none :: "json \<Rightarrow> int option" where
  "int_or_none v = (case v of JInt n \<Rightarrow> Some n | _ \<Rightarrow> None)"

definition instruction_address :: "members \<Rightarrow> int option" where
  "instruction_address instr = int_or_none (jget_default instr ''rva_start'' (jget instr ''rva''))"

definition register_term :: "string \<Rightarrow> members" where
  "register_term name = [(''op'', JStr ''reg''), (''name'', JStr (py_lower name)), (''width'', JInt 32)]"

definition constant_term :: "json \<Rightarrow> members" where
  "constant_term v = [(''op'', JStr ''const''), (''value'', v), (''width'', JInt 32)]"

definition op_term :: "string \<Rightarrow> members \<Rightarrow> members \<Rightarrow> members" where
  "op_term oper a b = [(''op'', JStr oper), (''args'', JList [JObj a, JObj b])]"

text \<open>The segment, base and index contribute a term each; \<open>None\<close> is an unsupported address.\<close>

definition segment_terms :: "members \<Rightarrow> members list option res" where
  "segment_terms operand =
     (case jget operand ''segment'' of
        JStr s \<Rightarrow>
          if py_lower s \<in> {''fs'', ''gs''}
          then Ok (Some [[(''op'', JStr (py_lower s @ ''_base'')), (''width'', JInt 32)]])
          else if s \<in> {'''', ''cs'', ''ds'', ''es'', ''ss''} then Ok (Some []) else Ok None
      | v \<Rightarrow> bind (hash_in v (JNull # map JStr ['''', ''cs'', ''ds'', ''es'', ''ss''])) (\<lambda>known.
          Ok (if known then Some [] else None)))"

definition base_terms :: "members \<Rightarrow> members list" where
  "base_terms operand =
     (case jget operand ''base'' of JStr s \<Rightarrow> if s = [] then [] else [register_term s] | _ \<Rightarrow> [])"

definition index_terms :: "members \<Rightarrow> members list option res" where
  "index_terms operand =
     (case jget operand ''index'' of
        JStr s \<Rightarrow>
          if s = [] then Ok (Some [])
          else let scale = jget_default operand ''scale'' (JInt 1) in
            bind (hash_in scale (map JInt [1, 2, 4, 8])) (\<lambda>known.
              if \<not> known then Ok None
              else Ok (Some [if py_eq scale (JInt 1) then register_term s
                             else op_term ''mul32'' (register_term s) (constant_term scale)]))
      | _ \<Rightarrow> Ok (Some []))"

definition sum_terms :: "members list \<Rightarrow> members" where
  "sum_terms terms = foldl (op_term ''add32'') (hd terms) (tl terms)"

definition operand_address :: "members \<Rightarrow> members option res" where
  "operand_address operand =
     bind (segment_terms operand) (\<lambda>seg. case seg of None \<Rightarrow> Ok None | Some st \<Rightarrow>
     bind (index_terms operand) (\<lambda>ix. case ix of None \<Rightarrow> Ok None | Some it \<Rightarrow>
       (let terms = st @ base_terms operand @ it in
        case jget_default operand ''displacement'' (JInt 0) of
          JInt d \<Rightarrow> Ok (Some (sum_terms (if d \<noteq> 0 \<or> terms = []
                       then terms @ [constant_term (JInt (d AND 0xFFFFFFFF))] else terms)))
        | _ \<Rightarrow> Ok None)))"

definition operand_width :: "members \<Rightarrow> int option" where
  "operand_width operand =
     (case jget operand ''width_bits'' of
        JInt n \<Rightarrow> if n mod 8 = 0 then Some (n div 8) else None | _ \<Rightarrow> None)"

section \<open>Building a graph\<close>

definition issue :: "(string \<Rightarrow> string) \<Rightarrow> string \<Rightarrow> members \<Rightarrow> json" where
  "issue sha code details =
     (let core = [(''status'', JStr ''incomplete''), (''code'', JStr code)] @ details
      in JObj (core @ [(''id'', JStr (''memory-action-issue:'' @ take 20 (json_digest sha (JObj core))))]))"

definition action_identity :: "(string \<Rightarrow> string) \<Rightarrow> members \<Rightarrow> string" where
  "action_identity sha action = ''memory-action:'' @ take 20 (json_digest sha (JObj action))"

text \<open>The instruction of each event, when the ordered events list the same memory events.\<close>

definition projected_event :: "members \<Rightarrow> members" where
  "projected_event ms = filter (\<lambda>kv. fst kv \<notin> {''family'', ''instruction_rva''}) ms"

definition event_instruction_rvas :: "members list \<Rightarrow> json list \<Rightarrow> int option list" where
  "event_instruction_rvas events ordered_events =
     (let ordered = [ms. JObj ms \<leftarrow> ordered_events, jget ms ''family'' = JStr ''memory''] in
      if length ordered \<noteq> length events
         \<or> \<not> list_all2 (\<lambda>e ms. canonical_json (JObj (projected_event ms)) = canonical_json (JObj e)) events ordered
      then replicate (length events) None
      else map (\<lambda>ms. int_or_none (jget ms ''instruction_rva'')) ordered)"

definition constant_expression_value :: "members \<Rightarrow> int option" where
  "constant_expression_value e = (if jget e ''op'' = JStr ''const'' then int_or_none (jget e ''value'') else None)"

definition domain_proved :: "members \<Rightarrow> int \<Rightarrow> bool" where
  "domain_proved address width =
     (case constant_expression_value address of Some c \<Rightarrow> c mod width = 0 | None \<Rightarrow> False)"

definition atomic_domain :: "members \<Rightarrow> int \<Rightarrow> members" where
  "atomic_domain address width =
     (let aligned = domain_proved address width in
      [(''status'', JStr (if aligned then ''proved'' else ''requires_proof'')),
       (''requirement'', JStr ''naturally_aligned_write_back_non_mmio_non_page_crossing''),
       (''alignment_bytes'', JInt width), (''constant_address'', opt_int (constant_expression_value address)),
       (''page_crossing'', if aligned then JBool False else JStr ''unproved''),
       (''memory_type'', JStr (if aligned then ''write_back'' else ''unproved''))])"

text \<open>The expected and the desired value of a compare-and-exchange, from its written value.\<close>

definition same_text :: "json \<Rightarrow> json \<Rightarrow> bool" where
  "same_text a b \<longleftrightarrow> canonical_json a = canonical_json b"

definition compare_exchange_operands :: "json \<Rightarrow> json \<Rightarrow> (members \<times> members) option" where
  "compare_exchange_operands written observed =
     (if member_of written ''op'' \<noteq> JStr ''ite'' then None
      else case member_of written ''args'' of
        JList [condition, desired, failure] \<Rightarrow>
          if \<not> same_text failure observed \<or> member_of condition ''op'' \<noteq> JStr ''eq'' then None
          else (case member_of condition ''args'' of
            JList [a, b] \<Rightarrow>
              (case (if same_text a observed then Some b else if same_text b observed then Some a else None, desired) of
                 (Some (JObj expected), JObj d) \<Rightarrow> Some (expected, d)
               | _ \<Rightarrow> None)
          | _ \<Rightarrow> None)
      | _ \<Rightarrow> None)"

record build_state =
  bs_issues :: "json list"
  bs_claimed :: "nat list"
  bs_placed :: "(nat \<times> members) list"

definition add_issue :: "json \<Rightarrow> build_state \<Rightarrow> build_state" where
  "add_issue i s = s\<lparr>bs_issues := bs_issues s @ [i]\<rparr>"

definition is_candidate ::
  "members \<Rightarrow> int \<Rightarrow> int option \<Rightarrow> nat list \<Rightarrow> int option list \<Rightarrow> nat \<times> members \<Rightarrow> bool res" where
  "is_candidate address width rva claimed event_rvas p =
     (let (i, event) = p in
      if i \<in> set claimed \<or> \<not> py_eq (jget event ''width'') (JInt width) then Ok False
      else bind (hash_in (jget event ''kind'') (map JStr [''read'', ''write'', ''read_write''])) (\<lambda>known.
        Ok (known \<and> same_text (jget event ''address'') (JObj address)
            \<and> (rva = None \<or> event_rvas ! i = None \<or> event_rvas ! i = rva))))"

definition of_kinds :: "string list \<Rightarrow> (nat \<times> members) list \<Rightarrow> nat list" where
  "of_kinds ks ps = map fst (filter (\<lambda>p. jget (snd p) ''kind'' \<in> JStr ` set ks) ps)"

definition atomic_action ::
  "string \<Rightarrow> int option \<Rightarrow> members \<Rightarrow> int \<Rightarrow> json \<Rightarrow> nat list \<Rightarrow> members" where
  "atomic_action operation rva address width written constituent =
     [(''kind'', JStr ''rmw''), (''instruction_rva'', opt_int rva), (''address'', JObj address),
      (''width_bytes'', JInt width), (''operation'', JStr operation), (''atomicity'', JStr ''x86_locked''),
      (''ordering'', JStr ''tso_full_barrier''), (''scope'', JStr ''shared_or_unknown''),
      (''domain'', JObj (atomic_domain address width)),
      (''transition'', JObj
         [(''observed'', JObj [(''op'', JStr ''load''), (''address'', JObj address), (''width'', JInt width)]),
          (''written'', written), (''write_occurs'', JStr ''always'')]),
      (''source_memory_event_indices'', JList (map (JInt \<circ> int) constituent))]"

definition with_compare :: "members \<Rightarrow> members \<times> members \<Rightarrow> members" where
  "with_compare action p =
     action @ [(''compare'', JObj [(''expected'', JObj (fst p)), (''desired'', JObj (snd p)),
                                   (''success_observation'', JStr ''zf'')])]"

definition with_identity :: "(string \<Rightarrow> string) \<Rightarrow> members \<Rightarrow> members" where
  "with_identity sha action = action @ [(''id'', JStr (action_identity sha action))]"

text \<open>The action of an atomic instruction on a supported operand, whose concrete effects are one read and one write.\<close>

definition place_atomic ::
  "(string \<Rightarrow> string) \<Rightarrow> members list \<Rightarrow> members \<Rightarrow> string \<Rightarrow> int option \<Rightarrow> members \<Rightarrow> int \<Rightarrow> nat \<Rightarrow> nat
   \<Rightarrow> build_state \<Rightarrow> build_state" where
  "place_atomic sha events details operation rva address width r w s =
     (let constituent = sort (remdups [r, w]);
          s1 = s\<lparr>bs_claimed := bs_claimed s @ constituent\<rparr>;
          s2 = (if domain_proved address width then s1
                else add_issue (issue sha ''atomic_domain_unproved'' (details @
                  [(''requirement'', jget (atomic_domain address width) ''requirement'')])) s1);
          written = jget (events ! w) ''value'';
          action = atomic_action operation rva address width written constituent;
          place = (\<lambda>a. s2\<lparr>bs_placed := bs_placed s2 @ [(hd constituent, with_identity sha a)]\<rparr>)
      in if operation = ''compare_exchange'' then
           (case compare_exchange_operands written (member_of (jget action ''transition'') ''observed'') of
              None \<Rightarrow> add_issue (issue sha ''compare_exchange_transition_unproved'' details) s2
            | Some p \<Rightarrow> place (with_compare action p))
         else place action)"

definition atomic_operand_step ::
  "(string \<Rightarrow> string) \<Rightarrow> members list \<Rightarrow> int option list \<Rightarrow> build_state \<Rightarrow> nat \<Rightarrow> members \<Rightarrow> string \<Rightarrow> members
   \<Rightarrow> build_state res" where
  "atomic_operand_step sha events event_rvas s index instr operation operand =
     bind (operand_address operand) (\<lambda>address.
     let width = operand_width operand; rva = instruction_address instr;
         details = [(''instruction_index'', JInt (int index)), (''instruction_rva'', opt_int rva)] in
     case (address, width) of
       (Some addr, Some w) \<Rightarrow>
         if w \<notin> {1, 2, 4, 8}
         then Ok (add_issue (issue sha ''unsupported_atomic_target'' (details @ [(''width_bytes'', JInt w)])) s)
         else bind (filterM (is_candidate addr w rva (bs_claimed s) event_rvas) (enumerate 0 events)) (\<lambda>cands.
           case (of_kinds [''read'', ''read_write''] cands, of_kinds [''write'', ''read_write''] cands) of
             ([rd], [wr]) \<Rightarrow> Ok (place_atomic sha events details operation rva addr w rd wr s)
           | (reads, writes) \<Rightarrow> Ok (add_issue (issue sha ''ambiguous_atomic_concrete_effects'' (details @
               [(''candidate_reads'', JInt (int (length reads))), (''candidate_writes'', JInt (int (length writes)))])) s))
     | _ \<Rightarrow> Ok (add_issue (issue sha ''unsupported_atomic_target''
                  (details @ [(''width_bytes'', opt_int width)])) s))"

definition instruction_step ::
  "(string \<Rightarrow> string) \<Rightarrow> members list \<Rightarrow> int option list \<Rightarrow> build_state \<Rightarrow> nat \<times> members \<Rightarrow> build_state res" where
  "instruction_step sha events event_rvas s p =
     (let (index, instr) = p in
      bind (base_mnemonic instr) (\<lambda>m.
      if \<not> has_lock_prefix instr \<and> \<not> (m = ''xchg'' \<and> memory_operands instr \<noteq> []) then Ok s
      else case map_of atomic_operations m of
        None \<Rightarrow> Ok (add_issue (issue sha ''unsupported_atomic_operation''
                   [(''instruction_index'', JInt (int index)), (''mnemonic'', JStr m)]) s)
      | Some operation \<Rightarrow>
          (case memory_operands instr of
             [operand] \<Rightarrow> atomic_operand_step sha events event_rvas s index instr operation operand
           | operands \<Rightarrow> Ok (add_issue (issue sha ''ambiguous_atomic_target''
               [(''instruction_index'', JInt (int index)), (''memory_operands'', JInt (int (length operands)))]) s))))"

definition plain_action :: "members \<Rightarrow> int option \<Rightarrow> nat \<Rightarrow> members" where
  "plain_action event rva i =
     [(''kind'', jget event ''kind''), (''instruction_rva'', opt_int rva), (''address'', jget event ''address''),
      (''width_bytes'', jget event ''width''), (''scope'', JStr ''shared_or_unknown''),
      (''source_memory_event_indices'', JList [JInt (int i)])]
     @ (if jget event ''kind'' = JStr ''write'' then [(''value'', jget event ''value'')] else [])"

definition event_step ::
  "(string \<Rightarrow> string) \<Rightarrow> int option list \<Rightarrow> build_state \<Rightarrow> nat \<times> members \<Rightarrow> build_state res" where
  "event_step sha event_rvas s p =
     (let (i, event) = p; k = jget event ''kind''; at = [(''event_index'', JInt (int i))] in
      if i \<in> set (bs_claimed s) then Ok s
      else bind (hash_in k (map JStr [''read'', ''write'', ''read_write''])) (\<lambda>known.
        if \<not> known then Ok (add_issue (issue sha ''unsupported_memory_event'' (at @ [(''kind'', k)])) s)
        else if k = JStr ''read_write'' then Ok (add_issue (issue sha ''unclassified_read_write_event'' at) s)
        else bind (hash_in (jget event ''width'') pe32_widths) (\<lambda>wide.
          if \<not> wide \<or> (case jget event ''address'' of JObj _ \<Rightarrow> False | _ \<Rightarrow> True)
          then Ok (add_issue (issue sha ''malformed_memory_event'' at) s)
          else Ok (s\<lparr>bs_placed := bs_placed s @ [(i, with_identity sha (plain_action event (event_rvas ! i) i))]\<rparr>))))"

definition order_edges :: "members list \<Rightarrow> json list res" where
  "order_edges actions =
     mapM (\<lambda>(left, right). bind (jitem left ''id'') (\<lambda>a. bind (jitem right ''id'') (\<lambda>b.
       Ok (JObj [(''kind'', JStr ''program_order''), (''before'', a), (''after'', b)])))) (zip actions (tl actions))"

definition authority_payload :: "bool \<Rightarrow> bool \<Rightarrow> json" where
  "authority_payload legacy complete = JObj
     [(''authoritative'', JBool (\<not> legacy \<and> complete)),
      (''source'', JStr (if legacy then ''machine_ir_v2_inspection_adapter''
                         else ''machine_ir_v3_checked_instruction_effects'')),
      (''reason'', JStr (if legacy then ''v2 conversion is diagnostic only''
                         else if complete then ''all action and domain obligations are satisfied''
                         else ''one or more action obligations are incomplete''))]"

definition run_builder ::
  "(string \<Rightarrow> string) \<Rightarrow> members list \<Rightarrow> members list \<Rightarrow> json list \<Rightarrow> build_state res" where
  "run_builder sha instructions events ordered_events =
     (let rvas = event_instruction_rvas events ordered_events in
      bind (foldM (instruction_step sha events rvas) \<lparr>bs_issues = [], bs_claimed = [], bs_placed = []\<rparr>
              (enumerate 0 instructions)) (\<lambda>s.
        foldM (event_step sha rvas) s (enumerate 0 events)))"

definition build_memory_action_graph ::
  "(string \<Rightarrow> string) \<Rightarrow> json list \<Rightarrow> json list \<Rightarrow> json list \<Rightarrow> bool \<Rightarrow> members res" where
  "build_memory_action_graph sha instructions memory_events ordered_events legacy =
     bind (mapM copy_mapping memory_events) (\<lambda>events.
     bind (mapM copy_mapping instructions) (\<lambda>instrs.
     bind (run_builder sha instrs events ordered_events) (\<lambda>s.
     let actions = map snd (sort_key fst (bs_placed s)); complete = (bs_issues s = []) in
     bind (order_edges actions) (\<lambda>edges.
     let core =
       [(''format'', JStr action_graph_format), (''profile_id'', JStr tso_profile),
        (''status'', JStr (if complete then ''complete'' else ''incomplete'')),
        (''authority'', authority_payload legacy complete), (''actions'', JList (map JObj actions)),
        (''edges'', JList edges), (''issues'', JList (bs_issues s)),
        (''model_receipt'', JObj (memory_model_receipt sha))]
     in Ok (core @ [(''graph_sha256'', JStr (json_digest sha (JObj core)))])))))"

definition adapt_v2_memory_action_graph :: "(string \<Rightarrow> string) \<Rightarrow> members \<Rightarrow> members res" where
  "adapt_v2_memory_action_graph sha unit =
     (if jget unit ''format'' \<noteq> JStr ''spaghetti-extractor-machine-ir-v2'' then Raise Action_error
      else case jget unit ''semantics'' of
        JObj semantics \<Rightarrow>
          (case (jget unit ''instructions'', jget semantics ''memory_events'', jget_default semantics ''ordered_events'' (JList [])) of
             (JList instructions, JList events, JList ordered) \<Rightarrow>
               build_memory_action_graph sha instructions events ordered True
           | _ \<Rightarrow> Raise Action_error)
      | _ \<Rightarrow> Raise Action_error)"

section \<open>Validation\<close>

definition check_rmw :: "members \<Rightarrow> unit res" where
  "check_rmw action =
     bind (hash_in (jget action ''operation'') (map (JStr \<circ> snd) atomic_operations)) (\<lambda>known.
       if \<not> known \<or> member_of (jget action ''transition'') ''write_occurs'' \<noteq> JStr ''always''
       then Raise Action_error else Ok ())"

definition check_access :: "members \<Rightarrow> unit res" where
  "check_access action =
     bind (hash_in (jget action ''width_bytes'') pe32_widths) (\<lambda>wide.
       if \<not> wide then Raise Action_error
       else case jget action ''address'' of JObj _ \<Rightarrow> Ok () | _ \<Rightarrow> Raise Action_error)"

definition check_action :: "string list \<Rightarrow> json \<Rightarrow> string list res" where
  "check_action ids v =
     (case v of
        JObj action \<Rightarrow>
          bind (hash_in (jget action ''kind'') action_kinds) (\<lambda>known.
          if \<not> known then Raise Action_error
          else case jget action ''id'' of
            JStr identity \<Rightarrow>
              if identity = [] \<or> identity \<in> set ids then Raise Action_error
              else bind (if jget action ''kind'' \<noteq> JStr ''fence'' then check_access action else Ok ()) (\<lambda>_.
                   bind (if jget action ''kind'' = JStr ''rmw'' then check_rmw action else Ok ()) (\<lambda>_.
                   Ok (identity # ids)))
          | _ \<Rightarrow> Raise Action_error)
      | _ \<Rightarrow> Raise Action_error)"

definition check_edge :: "string list \<Rightarrow> json \<Rightarrow> unit res" where
  "check_edge ids v =
     (case v of
        JObj edge \<Rightarrow>
          bind (hash_in (jget edge ''kind'') (map JStr [''program_order'', ''additional_order''])) (\<lambda>known.
          if \<not> known then Raise Action_error
          else bind (hash_in (jget edge ''before'') (map JStr ids)) (\<lambda>b.
          if \<not> b then Raise Action_error
          else bind (hash_in (jget edge ''after'') (map JStr ids)) (\<lambda>a.
          if \<not> a then Raise Action_error else Ok ())))
      | _ \<Rightarrow> Raise Action_error)"

definition validate_memory_action_graph :: "members \<Rightarrow> bool \<Rightarrow> unit res" where
  "validate_memory_action_graph graph require_authoritative =
     (if jget graph ''format'' \<noteq> JStr action_graph_format \<or> jget graph ''profile_id'' \<noteq> JStr tso_profile
      then Raise Action_error
      else case (jget graph ''actions'', jget graph ''edges'') of
        (JList actions, JList edges) \<Rightarrow>
          bind (foldM check_action [] actions) (\<lambda>ids.
          bind (foldM (\<lambda>_ e. check_edge ids e) () edges) (\<lambda>_.
            if require_authoritative
               \<and> (jget graph ''status'' \<noteq> JStr ''complete''
                  \<or> member_of (jget graph ''authority'') ''authoritative'' \<noteq> JBool True)
            then Raise Action_error else Ok ()))
      | _ \<Rightarrow> Raise Action_error)"

section \<open>Signatures\<close>

definition signature_keys :: "string list" where
  "signature_keys =
     [''id'', ''kind'', ''instruction_rva'', ''address'', ''width_bytes'', ''value'', ''operation'',
      ''atomicity'', ''ordering'', ''scope'', ''transition'', ''compare'']"

definition signature_action :: "members \<Rightarrow> members" where
  "signature_action action = [(k, jget action k). k \<leftarrow> signature_keys, jhas action k]"

definition objects :: "json list \<Rightarrow> members list" where
  "objects xs = [ms. JObj ms \<leftarrow> xs]"

definition identities :: "members list \<Rightarrow> string list" where
  "identities actions = [s. JStr s \<leftarrow> map (\<lambda>a. jget a ''id'') actions]"

definition additional_edge :: "string list \<Rightarrow> members \<Rightarrow> bool" where
  "additional_edge ids edge \<longleftrightarrow>
     jget edge ''kind'' \<noteq> JStr ''program_order''
     \<and> jget edge ''before'' \<in> JStr ` set ids \<and> jget edge ''after'' \<in> JStr ` set ids"

text \<open>
  The validator has checked that actions and edges are objects and that the identities are strings;
  it does not look at the receipt, which is read by key.
\<close>

definition concurrency_signature ::
  "(string \<Rightarrow> string) \<Rightarrow> members \<Rightarrow> string list \<Rightarrow> members res" where
  "concurrency_signature sha graph private =
     bind (validate_memory_action_graph graph True) (\<lambda>_.
     let actions = objects (optional_list (jget graph ''actions''));
         edges = objects (optional_list (jget graph ''edges'')) in
     if \<not> set private \<subseteq> set (identities actions) then Raise Action_error
     else
       let public = map signature_action (filter (\<lambda>a. jget a ''id'' \<notin> JStr ` set private) actions);
           ids = identities public in
       bind (order_edges public) (\<lambda>ordered.
       bind (bind (jitem graph ''model_receipt'') (\<lambda>r. item_of r ''receipt_sha256'')) (\<lambda>receipt.
       let core =
         [(''format'', JStr signature_format), (''profile_id'', JStr tso_profile),
          (''equivalence'', JStr ''labeled_event_graph_isomorphism''),
          (''private_memory_erasure'', JObj
             [(''proof_required'', JBool True), (''erased_action_ids'', JList (map JStr (sort (remdups private)))),
              (''unknown_memory_classification'', JStr ''shared'')]),
          (''actions'', JList (map JObj public)),
          (''edges'', JList (ordered @ map JObj (filter (additional_edge ids) edges))),
          (''model_receipt_sha256'', receipt)]
       in Ok (core @ [(''signature_sha256'', JStr (json_digest sha (JObj core)))]))))"

text \<open>
  The normal form: the sorted labels of the actions and the sorted edges between labels. Sorting
  tuples raises when it has to compare \<open>None\<close> with a string, which happens exactly when two edges
  agree up to a component that is absent in one and present in the other.
\<close>

type_synonym labelled_edge = "string \<times> string option \<times> string option"

definition label_of :: "members \<Rightarrow> string" where
  "label_of action = canonical_json (JObj (filter (\<lambda>kv. fst kv \<noteq> ''id'') action))"

definition signature_labels :: "members list \<Rightarrow> (string \<times> string) list" where
  "signature_labels actions = foldl (\<lambda>ls a. AList.update (py_str (jget a ''id'')) (label_of a) ls) [] actions"

definition label_edge :: "(string \<times> string) list \<Rightarrow> members \<Rightarrow> labelled_edge" where
  "label_edge labels edge =
     (py_str (jget edge ''kind''), map_of labels (py_str (jget edge ''before'')),
      map_of labels (py_str (jget edge ''after'')))"

definition comparable :: "labelled_edge \<Rightarrow> labelled_edge \<Rightarrow> bool" where
  "comparable p q \<longleftrightarrow>
     (case (p, q) of ((k, b, a), (k', b', a')) \<Rightarrow>
        k \<noteq> k' \<or> ((b = None \<longleftrightarrow> b' = None) \<and> (b \<noteq> b' \<or> (a = None \<longleftrightarrow> a' = None))))"

definition sort_edges :: "labelled_edge list \<Rightarrow> labelled_edge list res" where
  "sort_edges es = (if \<forall>p\<in>set es. \<forall>q\<in>set es. comparable p q then Ok (sort es) else Raise Type_error)"

definition label_edge_payload :: "labelled_edge \<Rightarrow> json" where
  "label_edge_payload = (\<lambda>(k, b, a). JList [JStr k, opt_str b, opt_str a])"

definition signature_normal_form :: "members \<Rightarrow> string res" where
  "signature_normal_form sg =
     (if jget sg ''format'' \<noteq> JStr signature_format then Raise Action_error
      else case (jget sg ''actions'', jget sg ''edges'') of
        (JList actions, JList edges) \<Rightarrow>
          (let labels = signature_labels (objects actions) in
           if length labels \<noteq> length actions then Raise Action_error
           else bind (sort_edges (map (label_edge labels) (objects edges))) (\<lambda>es.
             Ok (canonical_json (JObj [(''actions'', JList (map JStr (sort (map snd labels)))),
                                       (''edges'', JList (map label_edge_payload es))]))))
      | _ \<Rightarrow> Raise Action_error)"

definition signatures_equivalent :: "members \<Rightarrow> members \<Rightarrow> bool res" where
  "signatures_equivalent left right =
     bind (signature_normal_form left) (\<lambda>a. bind (signature_normal_form right) (\<lambda>b. Ok (a = b)))"

end
