(* ===== verification/Plan_Document.thy ===== *)
theory Plan_Document
  imports Plan_Atomic Transfer_Definedness Memory_Actions
begin

text \<open>
  The executable transfer plan as a whole (\<open>transfer/plan.py\<close>): the units of the machine IR it is
  made from and their bindings, the rows handed to the compiler, the collection of blockers, and
  \<open>parse_executable_transfer_plan\<close>, which accepts a plan only if everything in it that can be
  recomputed is what recomputation gives. The compiler of a row is a parameter of
  \<open>compile_transfer_rows\<close>; the SHA-256 of a text is \<open>sha\<close>; \<open>depth\<close> is the recursion limit.
\<close>

section \<open>Units of the machine IR\<close>

definition raw_instruction_fields :: "string list" where
  "raw_instruction_fields = [''bytes'', ''instruction_bytes'', ''opcode_bytes'', ''raw_bytes'', ''encoded_instruction'']"

text \<open>A field named \<open>bytes\<close> may hold a count.\<close>

definition raw_member :: "string \<Rightarrow> json \<Rightarrow> bool" where
  "raw_member k v \<longleftrightarrow> k \<in> set raw_instruction_fields
     \<and> \<not> (k = ''bytes'' \<and> (case v of JInt n \<Rightarrow> 0 \<le> n | _ \<Rightarrow> False))"

fun contains_raw_instruction_material :: "json \<Rightarrow> bool" where
  "contains_raw_instruction_material (JObj ms) =
     list_ex (\<lambda>kv. raw_member (fst kv) (snd kv) \<or> contains_raw_instruction_material (snd kv)) ms"
| "contains_raw_instruction_material (JList xs) = list_ex contains_raw_instruction_material xs"
| "contains_raw_instruction_material _ = False"

definition sanitized_key :: "string \<Rightarrow> string" where
  "sanitized_key k = (if k = ''instruction_bytes_sha256'' then ''source_span_sha256'' else k)"

fun sanitize_source_bindings :: "json \<Rightarrow> json" where
  "sanitize_source_bindings (JObj ms) =
     JObj (dict_of (map (\<lambda>kv. (sanitized_key (fst kv), sanitize_source_bindings (snd kv))) ms))"
| "sanitize_source_bindings (JList xs) = JList (map sanitize_source_bindings xs)"
| "sanitize_source_bindings v = v"

definition unit_binding :: "(string \<Rightarrow> string) \<Rightarrow> members \<Rightarrow> members res" where
  "unit_binding sha unit =
     bind (object_field (jget unit ''source'')) (\<lambda>source.
     bind (object_field (jget source ''original'')) (\<lambda>original.
     bind (string_field (jget unit ''id'')) (\<lambda>ident.
     bind (u32_field (jget original ''rva_start'')) (\<lambda>start.
     bind (u32_field (jget original ''rva_end'')) (\<lambda>stop.
     bind (sha256_field (jget source ''contract_sha256'')) (\<lambda>contract.
     bind (sha256_field (jget source ''instruction_bytes_sha256'')) (\<lambda>digest.
       Ok [(''unit_id'', JStr ident), (''unit_ir_sha256'', JStr (json_digest sha (JObj unit))),
           (''rva_start'', JInt start), (''rva_end'', JInt stop), (''contract_sha256'', JStr contract),
           (''instruction_bytes_sha256'', JStr digest), (''status'', jget unit ''status'')])))))))"

text \<open>
  The source map of the manifest must list the units: three fields a row, compared as sorted lists.
  A row with a field of another type is rejected; Python's sort may raise \<open>TypeError\<close> on it before
  the comparison does.
\<close>

definition map_row :: "members \<Rightarrow> (string \<times> int \<times> string) res" where
  "map_row row =
     (case (jget row ''unit_id'', py_norm (jget row ''rva_start''), jget row ''contract_sha256'') of
        (JStr ident, JInt rva, JStr contract) \<Rightarrow> Ok (ident, rva, contract)
      | _ \<Rightarrow> Raise (Plan_error ''stale_machine_ir_manifest''))"

definition validate_manifest :: "(string \<Rightarrow> string) \<Rightarrow> members \<Rightarrow> members list \<Rightarrow> string \<Rightarrow> unit res" where
  "validate_manifest sha manifest units machine_sha =
     (if jget manifest ''format'' \<noteq> JStr ''spaghetti-extractor-machine-ir-v3''
         \<or> jget manifest ''record_kind'' \<noteq> JStr ''manifest''
      then Raise (Plan_error ''malformed_machine_ir_manifest'')
      else
        bind (object_field (jget manifest ''binary'')) (\<lambda>binary.
        bind (sha256_field (jget binary ''sha256'')) (\<lambda>_.
        bind (object_field (jget manifest ''artifacts'')) (\<lambda>artifacts.
        bind (object_field (jget artifacts ''machine_ir'')) (\<lambda>artifact.
        bind (object_field (jget manifest ''counts'')) (\<lambda>counts.
        if jget artifact ''sha256'' \<noteq> JStr machine_sha \<or> \<not> py_eq (jget counts ''units'') (JInt (int (length units)))
        then Raise (Plan_error ''stale_machine_ir_manifest'')
        else
          bind (list_field (jget manifest ''source_map'')) (\<lambda>source_map.
          bind (bind (mapM (unit_binding sha) units) (mapM map_row)) (\<lambda>expected.
          bind (bind (mapM object_field source_map) (mapM map_row)) (\<lambda>observed.
            if sort observed \<noteq> sort expected then Raise (Plan_error ''stale_machine_ir_manifest'') else Ok ())))))))))"

definition semantic_fields :: "string list" where
  "semantic_fields =
     [''pre_state'', ''register_writes'', ''flag_writes'', ''memory_events'', ''external_events'', ''faults'',
      ''ordered_events'', ''edge_conditions'', ''outcome'', ''stack_delta'', ''counts'', ''fpu_state'',
      ''instruction_effect_schedule'']"

text \<open>\<open>except MemoryActionError\<close>: the other exceptions of the graph validator pass.\<close>

definition checked_actions :: "members \<Rightarrow> unit res" where
  "checked_actions graph =
     (case validate_memory_action_graph graph True of
        Inl Action_error \<Rightarrow> Raise (Plan_error ''malformed_memory_action_graph'') | r \<Rightarrow> r)"

definition adapt_unit :: "members \<Rightarrow> members res" where
  "adapt_unit unit =
     (if jget unit ''format'' \<noteq> JStr ''spaghetti-extractor-machine-ir-v3'' \<or> jget unit ''record_kind'' \<noteq> JStr ''unit''
         \<or> contains_raw_instruction_material (JObj unit)
      then Raise (Plan_error ''malformed_machine_ir_input'')
      else
        bind (string_field (jget unit ''id'')) (\<lambda>ident.
        bind (object_field (jget unit ''source'')) (\<lambda>source.
        bind (object_field (jget source ''original'')) (\<lambda>original.
        bind (object_field (jget unit ''semantics'')) (\<lambda>semantics.
        bind (object_field (jget semantics ''memory_actions'')) (\<lambda>memory_actions.
        bind (checked_actions memory_actions) (\<lambda>_.
        bind (sha256_field (jget source ''instruction_bytes_sha256'')) (\<lambda>digest.
        bind (u32_field (jget original ''rva_start'')) (\<lambda>start.
        bind (u32_field (jget original ''rva_end'')) (\<lambda>stop.
        bind (nonnegative (jget original ''size'')) (\<lambda>sz.
        if stop \<le> start \<or> sz \<noteq> stop - start then Raise (Plan_error ''malformed_machine_ir_input'')
        else
          bind (sha256_field (jget source ''contract_sha256'')) (\<lambda>contract.
          bind (list_field (jget unit ''x87_micro_ops'')) (\<lambda>micro_ops.
          bind (list_field (jget_default unit ''instructions'' (JList []))) (\<lambda>instructions.
            Ok ([(''format'', JStr ''spaghetti-extractor-static-transfer-v1''),
                 (''expression_model'', JStr ''spaghetti-extractor-static-semantic-ir-v1''), (''id'', JStr ident),
                 (''status'', JStr (if jget unit ''status'' = JStr ''qualified'' then ''reimplementable'' else ''incomplete'')),
                 (''reachable'', JBool (jget unit ''reachable'' = JBool True)), (''contract_sha256'', JStr contract),
                 (''instruction_bytes_sha256'', JStr digest),
                 (''original'', JObj [(''rva_start'', JInt start), (''rva_end'', JInt stop), (''size'', JInt sz)]),
                 (''_machine_ir_x87_micro_ops'', JList micro_ops), (''instructions'', JList instructions),
                 (''memory_actions'', JObj memory_actions)]
                @ map (\<lambda>k. (k, jget semantics k)) semantic_fields)))))))))))))))"

definition adapt_exact_machine_ir_rows :: "members list \<Rightarrow> members list res" where
  "adapt_exact_machine_ir_rows units = mapM adapt_unit units"

section \<open>Compilation and blockers\<close>

text \<open>What \<open>TransferPlanError\<close> carries, and a row of \<open>_blocker\<close>.\<close>

record plan_failure =
  pf_code :: string
  pf_message :: string
  pf_next_action :: json

record blocker =
  bl_index :: int
  bl_transfer_id :: "string option"
  bl_rva :: "int option"
  bl_code :: string
  bl_phase :: string
  bl_message :: string
  bl_next_action :: json

definition mk_blocker :: "members \<Rightarrow> nat \<Rightarrow> plan_failure \<Rightarrow> string \<Rightarrow> blocker" where
  "mk_blocker row index failure phase =
     \<lparr>bl_index = int index, bl_transfer_id = (case jget row ''id'' of JStr s \<Rightarrow> Some s | _ \<Rightarrow> None),
      bl_rva = int_or_none (member_of (jget row ''original'') ''rva_start''), bl_code = pf_code failure,
      bl_phase = phase, bl_message = pf_message failure, bl_next_action = pf_next_action failure\<rparr>"

definition blocker_payload :: "blocker \<Rightarrow> json" where
  "blocker_payload b = JObj
     [(''transfer_index'', JInt (bl_index b)), (''transfer_id'', opt_str (bl_transfer_id b)),
      (''rva_start'', opt_int (bl_rva b)), (''code'', JStr (bl_code b)), (''failure_phase'', JStr (bl_phase b)),
      (''message'', JStr (bl_message b)), (''next_action'', bl_next_action b)]"

definition transfer_blocker_sort_key :: "blocker \<Rightarrow> int \<times> string \<times> string \<times> string \<times> int" where
  "transfer_blocker_sort_key b =
     (case bl_rva b of Some r \<Rightarrow> r | None \<Rightarrow> 2 ^ 32, case bl_transfer_id b of Some s \<Rightarrow> s | None \<Rightarrow> [],
      bl_code b, bl_message b, bl_index b)"

record compile_state =
  cs_transfers :: "transfer list"
  cs_blockers :: "blocker list"

definition block ::
  "bool \<Rightarrow> members \<Rightarrow> nat \<Rightarrow> plan_failure \<Rightarrow> string \<Rightarrow> compile_state \<Rightarrow> compile_state res" where
  "block collect row index failure phase s =
     (if collect then Ok (s\<lparr>cs_blockers := cs_blockers s @ [mk_blocker row index failure phase]\<rparr>)
      else Raise (Plan_error (pf_code failure)))"

definition unqualified :: "members \<Rightarrow> plan_failure" where
  "unqualified row =
     \<lparr>pf_code = ''machine_ir_semantics_incomplete'',
      pf_message = py_str (jget row ''id'') @ '': semantic transfer is not qualified'',
      pf_next_action = JStr ''classify the bytes as non-code or implement and qualify their semantics''\<rparr>"

definition duplicate :: "bool \<Rightarrow> int \<Rightarrow> plan_failure" where
  "duplicate same_id rva =
     \<lparr>pf_code = (if same_id then ''duplicate_transfer_id'' else ''duplicate_transfer_rva''),
      pf_message = ''duplicate transfer RVA 0x'' @ hex_text (nat rva),
      pf_next_action = JStr ''split or reconcile duplicate exact transfers''\<rparr>"

text \<open>
  A compiler gives a transfer or fails with a \<open>TransferPlanError\<close>; any other exception is an error of
  the outer result and ends the loop.
\<close>

type_synonym row_compiler = "members \<Rightarrow> (plan_failure + transfer) res"

definition compile_row ::
  "row_compiler \<Rightarrow> bool \<Rightarrow> compile_state \<Rightarrow> nat \<times> members \<Rightarrow> compile_state res" where
  "compile_row compiler collect s p =
     (let (index, row) = p in
      if jget row ''status'' = JStr ''incomplete''
      then block collect row index (unqualified row) ''semantic_qualification'' s
      else bind (compiler row) (\<lambda>r. case r of
        Inl failure \<Rightarrow> block collect row index failure ''semantic_lowering'' s
      | Inr t \<Rightarrow>
          let same_id = (identity t \<in> identity ` set (cs_transfers s)) in
          if same_id \<or> rva_start t \<in> rva_start ` set (cs_transfers s)
          then block collect row index (duplicate same_id (rva_start t)) ''identity_validation'' s
          else Ok (s\<lparr>cs_transfers := cs_transfers s @ [t]\<rparr>)))"

definition compile_transfer_rows ::
  "row_compiler \<Rightarrow> bool \<Rightarrow> members list \<Rightarrow> (transfer list \<times> blocker list) res" where
  "compile_transfer_rows compiler collect rows =
     bind (foldM (compile_row compiler collect) \<lparr>cs_transfers = [], cs_blockers = []\<rparr> (enumerate 0 rows)) (\<lambda>s.
       Ok (sort_key rva_start (cs_transfers s), sort_key transfer_blocker_sort_key (cs_blockers s)))"

section \<open>The definedness report as a document\<close>

definition slot_row_payload :: "slot \<times> slot_row \<Rightarrow> json" where
  "slot_row_payload p = JObj
     [(''slot'', JInt (fst (fst p))), (''undefined_id'', JStr (snd (fst p))),
      (''classification'', JStr (if behavior_relevant (snd p) then ''behavior_relevant'' else ''noninterfering'')),
      (''occurrences'', JList (map (\<lambda>occ. JObj
         [(''transfer_id'', JStr (so_transfer occ)), (''rva_start'', JInt (so_rva occ)),
          (''expression_ids'', JList (map (JInt \<circ> int) (so_expressions occ))), (''observed'', JBool (so_observed occ))])
         (slot_occurrences (snd p))))]"

definition definedness_payload :: "(string \<Rightarrow> string) \<Rightarrow> transfer list \<Rightarrow> json res" where
  "definedness_payload sha ts =
     bind (analyze_transfer_definedness_v2 ts) (\<lambda>r.
     let core =
       [(''format'', JStr ''spaghetti-extractor-transfer-definedness-analysis-v2''),
        (''status'', JStr (if complete r then ''complete'' else ''incomplete'')),
        (''authority'', JStr ''none; veto-only transfer interpretation''),
        (''slots'', JList (map slot_row_payload (slot_rows r))),
        (''stable_slot_collisions'', JList (map (\<lambda>(n, ids). JObj
           [(''slot'', JInt n), (''undefined_ids'', JList (map JStr ids))]) (collisions r))),
        (''counts'', JObj
           [(''transfers'', JInt (int (length ts))), (''expressions'', JInt (int (sum_list (map (length \<circ> nodes) ts)))),
            (''undefined_nodes'', JInt (int (undefined_nodes r))), (''undefined_slots'', JInt (int (length (slot_rows r)))),
            (''behavior_relevant_slots'', JInt (int (relevant_slots r))),
            (''collisions'', JInt (int (length (collisions r))))])]
     in Ok (JObj (core @ [(''analysis_sha256'', JStr (json_digest sha (JObj core)))])))"

section \<open>Reading a plan\<close>

definition plan_fields :: "string list" where
  "plan_fields =
     [''format'', ''status'', ''bindings'', ''unit_inventory'', ''transfers'', ''direct_control_edges'',
      ''finite_control_routes'', ''atomic_effect_authority'', ''entry_targets'', ''runtime_provider_requirements'',
      ''operation_registry_sha256'', ''diagnostics'', ''semantic_blockers'', ''counts'', ''authority'', ''plan_sha256'']"

text \<open>The header: fields, format, own digest, and a status that agrees with the blockers.\<close>

definition check_plan_header :: "(string \<Rightarrow> string) \<Rightarrow> members \<Rightarrow> bool \<Rightarrow> json list res" where
  "check_plan_header sha payload require_complete =
     (if \<not> has_fields payload plan_fields
         \<or> jget payload ''format'' \<noteq> JStr ''spaghetti-extractor-executable-transfer-plan-v2'' then malformed_plan
      else if jget payload ''plan_sha256'' \<noteq> JStr (json_digest sha (JObj (drop_member ''plan_sha256'' payload))) then stale_plan
      else bind (list_field (jget payload ''semantic_blockers'')) (\<lambda>blockers.
        bind (hash_in (jget payload ''status'') [JStr ''complete'', JStr ''incomplete'']) (\<lambda>known.
        if \<not> known \<or> (jget payload ''status'' = JStr ''complete'') \<noteq> (blockers = []) then malformed_plan
        else if require_complete \<and> jget payload ''status'' \<noteq> JStr ''complete''
        then Raise (Plan_error ''incomplete_executable_transfer_plan'')
        else Ok blockers)))"

definition check_diagnostics :: "(string \<Rightarrow> string) \<Rightarrow> members \<Rightarrow> transfer list \<Rightarrow> members res" where
  "check_diagnostics sha payload ts =
     bind (object_field (jget payload ''diagnostics'')) (\<lambda>diagnostics.
       if \<not> has_fields diagnostics [''definedness'', ''transfer_definedness''] then malformed_plan
       else bind (definedness_payload sha ts) (\<lambda>report.
         if \<not> py_eq (jget diagnostics ''transfer_definedness'') report then stale_plan else Ok diagnostics))"

definition by_identity :: "transfer list \<Rightarrow> (string \<times> transfer) list" where
  "by_identity ts = dict_of (map (\<lambda>t. (identity t, t)) ts)"

definition unit_key :: "members \<Rightarrow> string" where
  "unit_key row = py_str (jget row ''unit_id'')"

definition inventory_table :: "json list \<Rightarrow> (string \<times> members) list res" where
  "inventory_table inventory = bind (mapM object_field inventory) (\<lambda>rows. Ok (dict_of (map (\<lambda>r. (unit_key r, r)) rows)))"

definition check_routes ::
  "(string \<Rightarrow> string) \<Rightarrow> nat \<Rightarrow> members \<Rightarrow> members \<Rightarrow> json list \<Rightarrow> transfer list \<Rightarrow> json list res" where
  "check_routes sha depth payload bindings inventory ts =
     bind (list_field (jget payload ''finite_control_routes'')) (\<lambda>routes.
     bind (inventory_table inventory) (\<lambda>table.
     bind (sha256_field (jget bindings ''pe_sha256'')) (\<lambda>pe.
     bind (validate_finite_control_routes sha depth routes (by_identity ts) table (Some pe)) (\<lambda>_.
       if jget bindings ''finite_control_routes_sha256'' \<noteq> JStr (json_digest sha (JList routes)) then stale_plan
       else Ok routes))))"

definition check_atomics ::
  "(string \<Rightarrow> string) \<Rightarrow> members \<Rightarrow> members \<Rightarrow> transfer list \<Rightarrow> json list res" where
  "check_atomics sha payload bindings ts =
     bind (list_field (jget payload ''atomic_effect_authority'')) (\<lambda>rows.
     bind (validate_atomic_effect_authority sha rows (by_identity ts)) (\<lambda>_.
       if jget bindings ''atomic_effect_authority_sha256'' \<noteq> JStr (json_digest sha (JList rows)) then stale_plan
       else Ok rows))"

definition exact_universe :: "members \<Rightarrow> json list \<Rightarrow> json res" where
  "exact_universe bindings inventory =
     bind (mapM object_field inventory) (\<lambda>rows.
     bind (mapM (\<lambda>row. bind (sha256_field (jget row ''unit_ir_sha256'')) (\<lambda>digest.
             Ok (JObj [(''id'', jget row ''unit_id''), (''unit_ir_sha256'', JStr digest)]))) (sort_key unit_key rows)) (\<lambda>units.
       Ok (JObj [(''pe_sha256'', jget bindings ''pe_sha256''), (''units'', JList units)])))"

definition check_inventory :: "(string \<Rightarrow> string) \<Rightarrow> members \<Rightarrow> json list \<Rightarrow> unit res" where
  "check_inventory sha bindings inventory =
     (if jget bindings ''unit_inventory_sha256'' \<noteq> JStr (json_digest sha (JList inventory)) then stale_plan
      else bind (exact_universe bindings inventory) (\<lambda>universe.
        if jget bindings ''exact_universe_sha256'' \<noteq> JStr (json_digest sha universe) then stale_plan else Ok ()))"

text \<open>Every transfer belongs to one unit, and its row repeats the binding of that unit.\<close>

definition check_source :: "(string \<times> members) list \<Rightarrow> members \<Rightarrow> unit res" where
  "check_source table row =
     bind (jitem row ''identity'') (\<lambda>ident.
     bind (case map_of table (py_str ident) of None \<Rightarrow> Raise Key_error | Some b \<Rightarrow> Ok b) (\<lambda>binding.
     bind (jitem row ''source'') (\<lambda>source.
     bind (mapM (\<lambda>k. bind (jitem binding k) (\<lambda>v. Ok (k, v))) source_fields) (\<lambda>expected.
       if \<not> py_eq source (JObj expected) then stale_plan else Ok ()))))"

definition check_universe :: "json list \<Rightarrow> members list \<Rightarrow> transfer list \<Rightarrow> unit res" where
  "check_universe inventory rows ts =
     bind (mapM object_field inventory) (\<lambda>units.
     bind (mapM (\<lambda>u. bind (jitem u ''unit_id'') (\<lambda>v. Ok (py_str v, u))) units) (\<lambda>keyed.
       if \<not> identity ` set ts \<subseteq> fst ` set keyed \<or> \<not> distinct (map identity ts) then malformed_plan
       else bind (mapM (check_source (dict_of keyed)) rows) (\<lambda>_. Ok ())))"

definition plan_counts :: "nat \<Rightarrow> transfer list \<Rightarrow> nat \<Rightarrow> nat \<Rightarrow> nat \<Rightarrow> nat \<Rightarrow> json \<Rightarrow> json" where
  "plan_counts units ts providers routes atomics blockers undefined_count = JObj
     [(''units'', JInt (int units)), (''compiled_transfers'', JInt (int (length ts))),
      (''direct_control_edges'', JInt (int (length (direct_edges ts)))), (''runtime_providers'', JInt (int providers)),
      (''finite_control_routes'', JInt (int routes)), (''atomic_effects'', JInt (int atomics)),
      (''undefined_nodes'', undefined_count), (''blockers'', JInt (int blockers))]"

definition check_summary ::
  "(string \<Rightarrow> string) \<Rightarrow> members \<Rightarrow> members \<Rightarrow> transfer list \<Rightarrow> nat \<Rightarrow> nat \<Rightarrow> nat \<Rightarrow> nat \<Rightarrow> unit res" where
  "check_summary sha payload diagnostics ts units routes atomics blockers =
     (let rvas = map rva_start ts in
      if \<not> sorted rvas \<or> \<not> distinct rvas then malformed_plan
      else if \<not> py_eq (jget payload ''entry_targets'') (JList (map JInt rvas)) then stale_plan
      else
        bind (object_field (jget payload ''counts'')) (\<lambda>counts.
        bind (runtime_providers ts) (\<lambda>providers.
        bind (bind (bind (jitem diagnostics ''transfer_definedness'') (\<lambda>r. item_of r ''counts'')) (\<lambda>c. item_of c ''undefined_nodes'')) (\<lambda>undefs.
        if \<not> py_eq (JObj counts) (plan_counts units ts (length providers) routes atomics blockers undefs) then stale_plan
        else if \<not> py_eq (jget payload ''direct_control_edges'') (JList (map edge_payload (direct_edges ts))) then stale_plan
        else if \<not> py_eq (jget payload ''runtime_provider_requirements'') (JList (map JStr providers)) then stale_plan
        else if jget payload ''operation_registry_sha256'' \<noteq> JStr (json_digest sha (JList operation_registry_payload_v2))
        then stale_plan else Ok ()))))"

definition parse_executable_transfer_plan ::
  "(string \<Rightarrow> string) \<Rightarrow> nat \<Rightarrow> json \<Rightarrow> bool \<Rightarrow> (members \<times> transfer list) res" where
  "parse_executable_transfer_plan sha depth v require_complete =
     bind (object_field v) (\<lambda>payload.
     bind (check_plan_header sha payload require_complete) (\<lambda>blockers.
     bind (bind (list_field (jget payload ''transfers'')) (mapM object_field)) (\<lambda>rows.
     bind (mapM (transfer_from_payload sha) rows) (\<lambda>ts.
     bind (check_diagnostics sha payload ts) (\<lambda>diagnostics.
     bind (list_field (jget payload ''unit_inventory'')) (\<lambda>inventory.
     bind (object_field (jget payload ''bindings'')) (\<lambda>bindings.
     bind (check_routes sha depth payload bindings inventory ts) (\<lambda>routes.
     bind (check_atomics sha payload bindings ts) (\<lambda>atomics.
     bind (check_inventory sha bindings inventory) (\<lambda>_.
     bind (check_universe inventory rows ts) (\<lambda>_.
     bind (check_summary sha payload diagnostics ts (length inventory) (length routes) (length atomics) (length blockers)) (\<lambda>_.
       Ok (payload, ts)))))))))))))"

end
