(* ===== verification/Compile_Row.thy ===== *)
theory Compile_Row
  imports Compiler_Replay Plan_Document
begin

text \<open>
  \<open>compile\<close> and \<open>_exception_occurrences\<close> of \<open>transfer/compiler.py\<close>: a semantic row becomes a transfer
  of the plan. Every fault, external event, memory event and atomic action that the row names must have
  been lowered exactly as often as it is named.
\<close>

section \<open>Iteration over a document\<close>

text \<open>\<open>for x in value\<close>: a list, the characters of a string, the keys of a dictionary; others raise.\<close>

definition py_iter :: "json \<Rightarrow> json list res" where
  "py_iter v =
     (case v of JList xs \<Rightarrow> Ok xs | JStr s \<Rightarrow> Ok (map (\<lambda>ch. JStr [ch]) s)
      | JObj ms \<Rightarrow> Ok (map (JStr \<circ> fst) ms) | _ \<Rightarrow> Raise Type_error)"

section \<open>Exception occurrences\<close>

definition fault_effects :: "action list \<Rightarrow> (int \<times> int \<times> action) list" where
  "fault_effects acts =
     [(act_aux a, int i, a). (i, a) \<leftarrow> enumerate 0 acts, op_name (act_op a) \<in> set native_exception_effects_v2]"

text \<open>A dictionary built by assignment keeps the last value of a key.\<close>

definition last_of :: "('k \<times> 'v) list \<Rightarrow> 'k \<Rightarrow> 'v option" where
  "last_of pairs = map_of (rev pairs)"

definition effect_occurrence ::
  "(string \<Rightarrow> string) \<Rightarrow> (int \<times> int \<times> action) list \<Rightarrow> nat \<times> members \<Rightarrow> exception_occurrence res" where
  "effect_occurrence sha effects p =
     (case last_of effects (int (fst p)) of
        None \<Rightarrow> Raise Key_error
      | Some (i, a) \<Rightarrow> Ok
          \<lparr>fault_index = int (fst p), fault_sha256 = json_digest sha (JObj (snd p)), occurrence_kind = ''effect'',
           effect_index = i, eo_operation = op_name (act_op a), call_id = None, call_event_index = None\<rparr>)"

text \<open>\<open>call_effects\<close>: the effect of each call.\<close>

definition call_effect :: "(int \<times> int) list \<Rightarrow> nat \<times> action \<Rightarrow> (int \<times> int) list res" where
  "call_effect table p =
     (let (i, a) = p in
      if op_name (act_op a) \<noteq> ''call'' then Ok table
      else bind (py_index (act_args a) 0) (\<lambda>ident.
        if ident \<in> fst ` set table then Raise (Plan_error ''external_event_coverage_mismatch'')
        else Ok (table @ [(ident, int i)])))"

definition call_occurrence ::
  "(string \<Rightarrow> string) \<Rightarrow> int \<Rightarrow> call \<Rightarrow> int \<Rightarrow> exception_occurrence list \<Rightarrow> nat \<times> string
   \<Rightarrow> exception_occurrence list res" where
  "call_occurrence sha ident cl effect done p =
     bind (call_native_exception_fault_payload_v3 (call_kind cl) (JInt (call_index cl)) (JInt (instruction_rva cl))
       (JStr (snd p)) (JInt (int (fst p)))) (\<lambda>payload. Ok (done @
       [\<lparr>fault_index = int (length done), fault_sha256 = json_digest sha payload, occurrence_kind = ''call'',
         effect_index = effect, eo_operation = snd p, call_id = Some ident,
         call_event_index = Some (call_index cl)\<rparr>]))"

definition call_occurrences ::
  "(string \<Rightarrow> string) \<Rightarrow> (int \<times> int) list \<Rightarrow> exception_occurrence list \<Rightarrow> nat \<times> call
   \<Rightarrow> exception_occurrence list res" where
  "call_occurrences sha table done p =
     (let (i, cl) = p; ops = native_exception_operations cl in
      if ops = [] then Ok done
      else case map_of table (int i) of
          None \<Rightarrow> Raise (Plan_error ''external_event_coverage_mismatch'')
        | Some effect \<Rightarrow> foldM (call_occurrence sha (int i) cl effect) done (enumerate 0 ops))"

definition exception_occurrences_of ::
  "(string \<Rightarrow> string) \<Rightarrow> members \<Rightarrow> action list \<Rightarrow> call list \<Rightarrow> exception_occurrence list res" where
  "exception_occurrences_of sha row acts cls =
     (let effects = fault_effects acts in
      bind (mapM object_field (optional_list (jget row ''faults''))) (\<lambda>raw_faults.
        if set (map fst effects) \<noteq> set (map int [0..<length raw_faults])
        then Raise (Plan_error ''fault_action_coverage_mismatch'')
        else bind (mapM (effect_occurrence sha effects) (enumerate 0 raw_faults)) (\<lambda>occs.
             bind (foldM call_effect [] (enumerate 0 acts)) (\<lambda>table.
               foldM (call_occurrences sha table) occs (enumerate 0 cls)))))"

section \<open>Coverage\<close>

definition expected_atomic_ids :: "members \<Rightarrow> string list res" where
  "expected_atomic_ids row =
     (case jget row ''memory_actions'' of
        JObj graph \<Rightarrow> bind (py_iter (jget graph ''actions'')) (\<lambda>acts.
          Ok [py_str (jget ms ''id''). JObj ms \<leftarrow> acts, jget ms ''kind'' = JStr ''rmw''])
      | _ \<Rightarrow> Ok [])"

definition listed :: "members \<Rightarrow> string \<Rightarrow> nat" where
  "listed row key = length (optional_list (jget row key))"

definition check_coverage :: "members \<Rightarrow> unit comp" where
  "check_coverage row =
     cbind (clift (expected_atomic_ids row)) (\<lambda>ids.
     cbind (reads (\<lambda>s. set (cn_atomic_ids s) = set ids)) (\<lambda>atomic_ok.
     cbind (check atomic_ok ''atomic_action_coverage_mismatch'') (\<lambda>_.
     cbind (reads (\<lambda>s. cn_next_fault s = int (listed row ''faults''))) (\<lambda>fault_ok.
     cbind (check fault_ok ''fault_action_coverage_mismatch'') (\<lambda>_.
     cbind (reads (\<lambda>s. set (cn_external s) = set (map int [0..<listed row ''external_events'']))) (\<lambda>external_ok.
     cbind (check external_ok ''external_event_coverage_mismatch'') (\<lambda>_.
     cbind (reads (\<lambda>s. cn_memory_count s = int (listed row ''memory_events''))) (\<lambda>memory_ok.
       check memory_ok ''memory_event_coverage_mismatch''))))))))"

section \<open>The compilation of a row\<close>

text \<open>
  The effects of the row: from its typed x87 operations, from a replay obligation, or as they are. The
  result is \<open>native_x87_replay and not scheduled_x87_replay\<close>.
\<close>

definition fpu_object :: "members \<Rightarrow> members option res" where
  "fpu_object row = optional_field object_field (jget row ''fpu_state'')"

definition compile_effects :: "compiler \<Rightarrow> members option \<Rightarrow> bool comp" where
  "compile_effects c fpu =
     (let micro = jget (cp_row c) ''_machine_ir_x87_micro_ops'' in
      if micro \<noteq> JNull then
        cbind (clift (list_field micro)) (\<lambda>micro_ops.
        cbind (compile_machine_ir_transfer c micro_ops) (\<lambda>_.
          reads (\<lambda>s. micro_ops \<noteq> [] \<and> cn_outcome s = None)))
      else case fpu of
          None \<Rightarrow> cbind (compile_symbolic_transfer c) (\<lambda>_. creturn False)
        | Some ms \<Rightarrow>
            if jget ms ''model'' = JStr x87_replay_model
            then cbind (compile_x87_replay c ms) (\<lambda>scheduled. creturn (\<not> scheduled))
            else refuse ''x87_checked_replay_required'')"

definition outcome_action :: "compiler \<Rightarrow> members \<Rightarrow> action comp" where
  "outcome_action c outcome =
     cbind (reads cn_outcome) (\<lambda>scheduled. case scheduled of Some a \<Rightarrow> creturn a | None \<Rightarrow> compile_outcome c outcome)"

definition assemble :: "members \<Rightarrow> string \<Rightarrow> exception_occurrence list \<Rightarrow> cstate \<Rightarrow> transfer res" where
  "assemble row ident occs s =
     bind (sha256_field (jget row ''contract_sha256'')) (\<lambda>contract.
     bind (sha256_field (jget row ''instruction_bytes_sha256'')) (\<lambda>bytes_digest.
     bind (object_field (jget row ''original'')) (\<lambda>original.
     bind (u32_field (jget original ''rva_start'')) (\<lambda>rva.
       Ok \<lparr>identity = ident, contract_sha256 = contract, instruction_bytes_sha256 = bytes_digest, rva_start = rva,
          nodes = cn_nodes s, x87_nodes = [], actions = cn_actions s, calls = cn_calls s,
          x87_operations = cn_x87 s, exception_occurrences = occs\<rparr>))))"

definition compile_transfer :: "compiler \<Rightarrow> transfer comp" where
  "compile_transfer c =
     (let row = cp_row c in
      cbind (clift (string_field (jget row ''id''))) (\<lambda>ident.
      cbind (clift (fpu_object row)) (\<lambda>fpu.
      cbind (compile_effects c fpu) (\<lambda>replayed.
      cbind (check_coverage row) (\<lambda>_.
      cbind (reads (\<lambda>s. exception_occurrences_of (cp_sha c) row (cn_actions s) (cn_calls s))) (\<lambda>occurrences.
      cbind (clift occurrences) (\<lambda>occs.
      cbind (clift (object_field (jget row ''outcome''))) (\<lambda>outcome.
      cbind (if replayed then check_x87_replay_outcome outcome else creturn ()) (\<lambda>_.
      cbind (outcome_action c outcome) (\<lambda>a.
      cbind (emit a) (\<lambda>_.
      cbind (reads (assemble row ident occs)) (\<lambda>t. clift t))))))))))))"

text \<open>\<open>_TransferCompiler(row).compile()\<close>, with the recursion limit as a number of nested words.\<close>

definition compile_semantic_row ::
  "(string \<Rightarrow> string) \<Rightarrow> (int list \<Rightarrow> int \<Rightarrow> decoded_instruction list) \<Rightarrow> nat \<Rightarrow> members \<Rightarrow> transfer res" where
  "compile_semantic_row sha decoder depth row =
     bind (compile_transfer \<lparr>cp_row = row, cp_sha = sha, cp_decoder = decoder, cp_depth = depth\<rparr> initial_cstate)
       (\<lambda>(t, _). Ok t)"

text \<open>
  The compiler of the plan's loop over rows: a \<open>TransferPlanError\<close> becomes a failure with the texts that
  \<open>explain\<close> gives to its code, any other exception ends the loop.
\<close>

definition plan_row_compiler ::
  "(string \<Rightarrow> string) \<Rightarrow> (int list \<Rightarrow> int \<Rightarrow> decoded_instruction list) \<Rightarrow> nat
   \<Rightarrow> (members \<Rightarrow> string \<Rightarrow> string \<times> json) \<Rightarrow> row_compiler" where
  "plan_row_compiler sha decoder depth explain row =
     (case compile_semantic_row sha decoder depth row of
        Inl (Plan_error code) \<Rightarrow> Ok (Inl \<lparr>pf_code = code, pf_message = fst (explain row code),
          pf_next_action = snd (explain row code)\<rparr>)
      | Inl e \<Rightarrow> Raise e
      | Inr t \<Rightarrow> Ok (Inr t))"

end
