(* ===== verification/Plan_Codec.thy ===== *)
theory Plan_Codec
  imports Transfer_Plan
begin

text \<open>
  What the reader of \<open>transfer/plan.py\<close> accepts, the writer reproduces: a row that was read is
  written in a form that reads back as the same row. The locale \<open>row_codec\<close> is the contract between
  a row's reader and its writer; it is interpreted on the five kinds of rows, and gives the law for
  whole inventories.
\<close>

section \<open>Readers of fields\<close>

named_theorems field_iffs

lemma object_field_Ok [field_iffs]: "object_field v = Inr ms \<longleftrightarrow> v = JObj ms"
  by (cases v) (auto simp: malformed_def)

lemma list_field_Ok [field_iffs]: "list_field v = Inr xs \<longleftrightarrow> v = JList xs"
  by (cases v) (auto simp: malformed_def)

lemma string_field_Ok [field_iffs]: "string_field v = Inr s \<longleftrightarrow> v = JStr s \<and> s \<noteq> []"
  by (cases v) (auto simp: malformed_def)

lemma u32_field_Ok [field_iffs]: "u32_field v = Inr n \<longleftrightarrow> v = JInt n \<and> 0 \<le> n \<and> n < 2 ^ 32"
  by (cases v) (auto simp: malformed_def)

lemma nonnegative_Ok [field_iffs]: "nonnegative v = Inr n \<longleftrightarrow> v = JInt n \<and> 0 \<le> n"
  by (cases v) (auto simp: malformed_def)

lemma sha256_field_value: "sha256_field v = Inr s \<Longrightarrow> v = JStr s"
proof -
  assume "sha256_field v = Inr s"
  then obtain t where t: "string_field v = Inr t"
    "(if length t \<noteq> 64 \<or> (\<exists>c\<in>set t. c \<notin> set hex_digits) then malformed else Ok t) = Inr s"
    unfolding sha256_field_def by (rule bind_OkE)
  from t(2) have "t = s" by (simp only: malformed_def split: if_split_asm) simp_all
  with t(1) show ?thesis by (simp add: string_field_Ok)
qed

lemma nonnegative_list: "mapM nonnegative vs = Inr xs \<longleftrightarrow> vs = map JInt xs \<and> (\<forall>x\<in>set xs. 0 \<le> x)"
  unfolding mapM_Ok_iff
proof (induction vs arbitrary: xs)
  case (Cons v vs)
  then show ?case by (cases xs) (auto simp: field_iffs)
qed auto

lemma int_tuple_Ok [field_iffs]: "int_tuple v = Inr xs \<longleftrightarrow> v = JList (map JInt xs) \<and> (\<forall>x\<in>set xs. 0 \<le> x)"
  by (auto simp: int_tuple_def bind_eq_Ok field_iffs nonnegative_list)

lemma optional_string_Ok [field_iffs]: "optional_string v = Inr s \<longleftrightarrow> v = opt_str s \<and> s \<noteq> Some []"
  by (cases s) (auto simp: optional_string_def optional_field_def opt_str_def bind_eq_Ok field_iffs)

lemma optional_int_Ok [field_iffs]:
  "optional_field nonnegative v = Inr n \<longleftrightarrow> v = opt_int n \<and> (\<forall>k. n = Some k \<longrightarrow> 0 \<le> k)"
  by (cases n) (auto simp: optional_field_def opt_int_def bind_eq_Ok field_iffs)

lemma stack_input_Ok [field_iffs]:
  "stack_input v = Inr r \<longleftrightarrow> v = stack_input_payload r \<and> fst r \<ge> 0 \<and> fst (snd r) \<in> {1, 2, 4} \<and> snd (snd r) \<ge> 0"
proof
  assume "stack_input v = Inr r"
  then obtain xs where xs: "v = JList (map JInt xs)" "\<forall>x\<in>set xs. 0 \<le> x" "stack_triple xs = Inr r"
    by (auto simp: stack_input_def bind_eq_Ok field_iffs)
  then show "v = stack_input_payload r \<and> fst r \<ge> 0 \<and> fst (snd r) \<in> {1, 2, 4} \<and> snd (snd r) \<ge> 0"
    by (cases xs rule: stack_triple.cases) (auto simp: stack_input_payload_def split: if_splits)
next
  assume "v = stack_input_payload r \<and> fst r \<ge> 0 \<and> fst (snd r) \<in> {1, 2, 4} \<and> snd (snd r) \<ge> 0"
  moreover obtain a b c where "r = (a, b, c)" by (cases r)
  ultimately have "int_tuple v = Inr [a, b, c]" "stack_triple [a, b, c] = Inr r"
    by (auto simp: field_iffs stack_input_payload_def)
  then show "stack_input v = Inr r" by (simp add: stack_input_def)
qed

lemma stack_inputs_Ok:
  "mapM stack_input vs = Inr rs \<Longrightarrow> mapM stack_input (map stack_input_payload rs) = Inr rs"
  unfolding mapM_Ok_iff by (induction vs rs rule: list_all2_induct) (auto simp: field_iffs)

text \<open>The same facts as rewrite rules on written fields.\<close>

lemma field_reads [simp]:
  "s \<noteq> [] \<Longrightarrow> string_field (JStr s) = Inr s"
  "0 \<le> n \<Longrightarrow> nonnegative (JInt n) = Inr n"
  "(\<forall>x\<in>set xs. 0 \<le> x) \<Longrightarrow> int_tuple (JList (map JInt xs)) = Inr xs"
  "t \<noteq> Some [] \<Longrightarrow> optional_string (opt_str t) = Inr t"
  "(\<forall>k. r = Some k \<longrightarrow> 0 \<le> k) \<Longrightarrow> optional_field nonnegative (opt_int r) = Inr r"
  by (simp_all only: field_iffs simp_thms)

lemma jget_Cons [simp]: "jget ((k, v) # ms) k' = (if k = k' then v else jget ms k')"
  by (auto simp: jget_def)

section \<open>Inventories\<close>

text \<open>
  A row reader and its writer, with what the reader guarantees of a row: every row it accepts is good,
  and a good row is written to a document that reads as the same row.
\<close>

locale row_codec =
  fixes rowin :: "int \<Rightarrow> json \<Rightarrow> 'a res"
    and rowout :: "int \<Rightarrow> 'a \<Rightarrow> json res"
    and good :: "int \<Rightarrow> 'a \<Rightarrow> bool"
  assumes accepted: "rowin i raw = Inr y \<Longrightarrow> good i y"
    and written: "good i y \<Longrightarrow> \<exists>p. rowout i y = Inr p \<and> rowin i p = Inr y"
begin

lemma enumerated_written:
  "(\<And>k. k < length ys \<Longrightarrow> good (int (n + k)) (ys ! k)) \<Longrightarrow>
   \<exists>ps. mapM (\<lambda>(i, y). rowout (int i) y) (enumerate n ys) = Inr ps
     \<and> mapM (\<lambda>(i, raw). rowin (int i) raw) (enumerate n ps) = Inr ys"
proof (induction ys arbitrary: n)
  case (Cons y ys)
  obtain p where p: "rowout (int n) y = Inr p" "rowin (int n) p = Inr y"
    using written[of "int n" y] Cons.prems[of 0] by auto
  have "good (int (Suc n + k)) (ys ! k)" if "k < length ys" for k
    using Cons.prems[of "Suc k"] that by simp
  from Cons.IH[OF this] obtain ps where
    ps: "mapM (\<lambda>(i, y). rowout (int i) y) (enumerate (Suc n) ys) = Inr ps"
      "mapM (\<lambda>(i, raw). rowin (int i) raw) (enumerate (Suc n) ps) = Inr ys" by blast
  show ?case by (rule exI[of _ "p # ps"]) (simp add: p ps)
qed simp

lemma rows_written:
  assumes "\<And>k. k < length ys \<Longrightarrow> good (int k) (ys ! k)"
  shows "\<exists>ps. indexed rowout ys = Inr ps \<and> read_rows rowin (JList ps) = Inr ys"
  using assms enumerated_written[of ys 0] by (auto simp: read_rows_def indexed_def)

lemma row_at:
  assumes "read_rows rowin v = Inr ys" "k < length ys"
  obtains raw where "rowin (int k) raw = Inr (ys ! k)"
proof -
  obtain xs where "mapM (\<lambda>(i, raw). rowin (int i) raw) (enumerate 0 xs) = Inr ys"
    using assms(1) by (auto simp: read_rows_def indexed_def bind_eq_Ok)
  then have "list_all2 (\<lambda>(i, raw) y. rowin (int i) raw = Inr y) (enumerate 0 xs) ys"
    by (simp add: mapM_Ok_iff split_def)
  then show ?thesis using assms(2) that
    by (auto simp: list_all2_conv_all_nth nth_enumerate_eq)
qed

lemma rows_good:
  assumes "read_rows rowin v = Inr ys" "k < length ys"
  shows "good (int k) (ys ! k)"
  using row_at[OF assms] accepted by blast

end

section \<open>Operation names\<close>

lemma registry_names_distinct:
  "list_all (\<lambda>oper. op_of_name (op_name oper) = oper \<and> op_name oper \<noteq> []) registry_operations"
  apply (simp only: registry_operations_def)
  by code_simp

lemma op_of_name_op_name: "oper \<in> set registry_operations \<Longrightarrow> op_of_name (op_name oper) = oper \<and> op_name oper \<noteq> []"
  using registry_names_distinct by (simp add: list_all_iff)

lemma registry_keys:
  "map fst expression_operations_v2 = map fst (predicates_table @ words_table)"
  "map fst effect_operations_v2 = map fst effects_table"
  "map fst terminator_operations_v2 = map fst terminators_table"
  by (simp_all add: expression_operations_v2_def effect_operations_v2_def terminator_operations_v2_def comp_def split_def)

lemma registry_lookup:
  "map_of expression_operations_v2 k = Some r \<Longrightarrow> k \<in> set registry_operations"
  "map_of effect_operations_v2 k = Some r \<Longrightarrow> k \<in> set registry_operations"
  "map_of terminator_operations_v2 k = Some r \<Longrightarrow> k \<in> set registry_operations"
proof -
  have key: "k \<in> set (map fst tab)" if "map_of tab k = Some r" for tab :: "(opname \<times> core_operation) list"
    using map_of_SomeD[OF that] by force
  show "map_of expression_operations_v2 k = Some r \<Longrightarrow> k \<in> set registry_operations"
    "map_of effect_operations_v2 k = Some r \<Longrightarrow> k \<in> set registry_operations"
    "map_of terminator_operations_v2 k = Some r \<Longrightarrow> k \<in> set registry_operations"
    using key[of expression_operations_v2] key[of effect_operations_v2] key[of terminator_operations_v2]
    unfolding registry_keys registry_operations_def by auto
qed

lemma expression_registered: "expression_operation_v2 nd = Inr row \<Longrightarrow> node_op nd \<in> set registry_operations"
  by (auto simp: expression_operation_v2_def dest!: registry_lookup split: option.split_asm)

lemma action_registered: "action_operation_v2 a b = Inr row \<Longrightarrow> act_op a \<in> set registry_operations"
  by (auto simp: action_operation_v2_def dest!: registry_lookup split: option.split_asm if_split_asm)

section \<open>Rows\<close>

lemma read_node_Ok:
  "read_node v = Inr nd \<Longrightarrow>
   (\<forall>x\<in>set (node_args nd). 0 \<le> x) \<and> 0 \<le> node_aux nd \<and> 0 \<le> node_immediate nd \<and> node_identity nd \<noteq> Some []"
  by (auto simp: read_node_def field_iffs elim!: bind_OkE)

definition node_good :: "int \<Rightarrow> node \<Rightarrow> bool" where
  "node_good i nd \<longleftrightarrow> is_ok (expression_operation_v2 nd) \<and> is_undefined_node nd = (node_identity nd \<noteq> None)
     \<and> node_identity nd \<noteq> Some [] \<and> 0 \<le> node_aux nd \<and> 0 \<le> node_immediate nd
     \<and> (\<forall>x\<in>set (node_args nd). 0 \<le> x \<and> x < i)"

lemma node_accepted:
  assumes "node_from_payload i raw = Inr nd"
  shows "node_good i nd"
proof -
  obtain v spec where "read_node v = Inr nd" "expression_operation_v2 nd = Inr spec"
    "is_undefined_node nd = (node_identity nd \<noteq> None)" "\<forall>x\<in>set (node_args nd). x < i"
    using assms
    by (auto simp: node_from_payload_def malformed_plan_def malformed_reference_def not_le
        elim!: bind_OkE split: if_split_asm)
  then show ?thesis using read_node_Ok[of v nd] by (auto simp: node_good_def)
qed

lemma node_written:
  assumes "node_good i nd"
  shows "\<exists>p. node_payload i nd = Inr p \<and> node_from_payload i p = Inr nd"
proof -
  obtain spec where spec: "expression_operation_v2 nd = Inr spec"
    using assms by (auto simp: node_good_def is_ok_iff)
  let ?ps = "[(''aux'', JInt (node_aux nd)), (''immediate'', JInt (node_immediate nd)),
    (''identity'', opt_str (node_identity nd))]"
  let ?v = "[(''id'', JInt i), (''op'', JStr (op_name (node_op nd))),
        (''operands'', JList (map JInt (node_args nd))),
        (''result_sort'', opt_str (result_sort spec)), (''width_bits'', opt_int (width_bits spec)),
        (''parameters'', JObj ?ps)]"
  have "read_node ?v = Inr nd"
    using assms op_of_name_op_name[OF expression_registered[OF spec]]
    by (simp add: node_good_def read_node_def parameters_def has_fields_def)
  then have "node_from_payload i (JObj ?v) = Inr nd"
    using assms spec by (auto simp: node_good_def node_from_payload_def has_fields_def)
  then show ?thesis using spec by (simp add: node_payload_def)
qed

lemma read_action_Ok:
  "read_action v = Inr a \<Longrightarrow> (\<forall>x\<in>set (act_args a). 0 \<le> x) \<and> 0 \<le> act_aux a"
  by (auto simp: read_action_def field_iffs elim!: bind_OkE)

definition action_good :: "action \<Rightarrow> bool \<Rightarrow> bool" where
  "action_good a b \<longleftrightarrow> is_ok (action_operation_v2 a b) \<and> (\<forall>x\<in>set (act_args a). 0 \<le> x) \<and> 0 \<le> act_aux a"

lemma action_written:
  assumes "action_good a b"
  shows "read_action [(''op'', JStr (op_name (act_op a))), (''operands'', JList (map JInt (act_args a))),
        (''parameters'', JObj [(''aux'', JInt (act_aux a))])] = Inr a"
    "read_action [(''id'', JInt i), (''op'', JStr (op_name (act_op a))), (''operands'', JList (map JInt (act_args a))),
        (''parameters'', JObj [(''aux'', JInt (act_aux a))])] = Inr a"
proof -
  obtain row where "action_operation_v2 a b = Inr row" using assms by (auto simp: action_good_def is_ok_iff)
  from op_of_name_op_name[OF action_registered[OF this]] assms
  show "read_action [(''op'', JStr (op_name (act_op a))), (''operands'', JList (map JInt (act_args a))),
        (''parameters'', JObj [(''aux'', JInt (act_aux a))])] = Inr a"
    "read_action [(''id'', JInt i), (''op'', JStr (op_name (act_op a))), (''operands'', JList (map JInt (act_args a))),
        (''parameters'', JObj [(''aux'', JInt (act_aux a))])] = Inr a"
    by (simp_all add: action_good_def read_action_def parameters_def has_fields_def)
qed

text \<open>What the checks on an effect say, apart from its fields.\<close>

definition effect_in_range :: "int \<Rightarrow> int \<Rightarrow> int \<Rightarrow> action \<Rightarrow> bool" where
  "effect_in_range ne nc nx a \<longleftrightarrow>
     (if act_op a = Eff Op_call then \<exists>k. py_index (act_args a) 0 = Inr k \<and> k < nc
      else if act_op a = Eff Op_typed_x87 then \<exists>k. py_index (act_args a) 0 = Inr k \<and> k < nx
      else \<forall>reference\<in>set (act_args a). reference < ne)"

lemma effect_checks:
  "(if act_op a = Eff Op_call then
      bind (py_index (act_args a) 0) (\<lambda>k.
        if k \<ge> nc then Raise (Plan_error ''malformed_transfer_call_reference'') else Ok a)
    else if act_op a = Eff Op_typed_x87 then
      bind (py_index (act_args a) 0) (\<lambda>k.
        if k \<ge> nx then Raise (Plan_error ''malformed_transfer_x87_reference'') else Ok a)
    else if \<exists>reference\<in>set (act_args a). reference \<ge> ne then malformed_reference
    else Ok a) = Inr a' \<longleftrightarrow> a' = a \<and> effect_in_range ne nc nx a"
  by (cases "py_index (act_args a) 0") (auto simp: effect_in_range_def malformed_reference_def not_le not_less)

definition effect_good :: "int \<Rightarrow> int \<Rightarrow> int \<Rightarrow> action \<Rightarrow> bool" where
  "effect_good ne nc nx a \<longleftrightarrow> action_good a False \<and> effect_in_range ne nc nx a"

lemma effect_accepted:
  assumes "effect_from_payload ne nc nx i raw = Inr a"
  shows "effect_good ne nc nx a"
proof -
  have "\<exists>v row. read_action v = Inr a \<and> action_operation_v2 a False = Inr row \<and> effect_in_range ne nc nx a"
    using assms unfolding effect_from_payload_def effect_checks malformed_plan_def
    by (elim bind_OkE) (simp add: effect_checks bind_eq_Ok split: if_split_asm, blast)
  then show ?thesis by (auto simp: effect_good_def action_good_def dest: read_action_Ok)
qed

lemma effect_written:
  assumes "effect_good ne nc nx a"
  shows "\<exists>p. action_payload i a = Inr p \<and> effect_from_payload ne nc nx i p = Inr a"
proof -
  obtain row where a: "action_good a False" "action_operation_v2 a False = Inr row" "effect_in_range ne nc nx a"
    using assms by (auto simp: effect_good_def action_good_def is_ok_iff)
  then show ?thesis
    by (simp add: action_payload_def effect_from_payload_def has_fields_def effect_checks action_written[OF a(1)]
        del: jget_Cons) simp
qed

definition terminator_good :: "int \<Rightarrow> action \<Rightarrow> bool" where
  "terminator_good ne a \<longleftrightarrow> action_good a True \<and> (\<forall>r\<in>set (outcome_references a). r < ne)"

lemma terminator_accepted:
  assumes "terminator_from_payload ne raw = Inr a"
  shows "terminator_good ne a"
  using assms unfolding terminator_from_payload_def malformed_plan_def malformed_reference_def
  by (elim bind_OkE)
    (auto simp: not_le terminator_good_def action_good_def elim!: bind_OkE split: if_split_asm dest: read_action_Ok)

lemma terminator_written:
  assumes "terminator_good ne a"
  shows "\<exists>p. terminator_payload a = Inr p \<and> terminator_from_payload ne p = Inr a"
proof -
  obtain row where a: "action_good a True" "action_operation_v2 a True = Inr row" "\<forall>r\<in>set (outcome_references a). r < ne"
    using assms by (auto simp: terminator_good_def action_good_def is_ok_iff)
  then show ?thesis
    by (auto simp: terminator_payload_def terminator_from_payload_def has_fields_def action_written[OF a(1)])
qed

text \<open>Call sites: the names authorised at a site are read back from the written list.\<close>

lemma nonempty_strings_map [simp]: "[] \<notin> set ops \<Longrightarrow> nonempty_strings (map JStr ops) = ops"
  by (induction ops) auto

lemma nonempty_strings_nonempty: "[] \<notin> set (nonempty_strings raw)"
  by (induction raw rule: nonempty_strings.induct) auto

definition native_operations_good :: "json \<Rightarrow> string list \<Rightarrow> bool" where
  "native_operations_good k ops \<longleftrightarrow> [] \<notin> set ops \<and> ops = sort (remdups ops) \<and> set ops \<subseteq> set native_exception_effects_v2
     \<and> (ops \<noteq> [] \<longrightarrow> k \<in> {JStr ''external_call'', JStr ''indirect_call''})"

lemma native_operations_Ok:
  assumes "native_exception_operations_for_call_v2 site strict = Inr ops"
  shows "native_operations_good (jget site ''kind'') ops"
proof -
  obtain raw where "(let ops = nonempty_strings raw in
         if length ops \<noteq> length raw then malformed
         else if ops \<noteq> sort (remdups ops)
           then Raise (Plan_error ''malformed_external_call_exception_inventory'')
         else if \<exists>name\<in>set ops. name \<notin> set native_exception_effects_v2
           then Raise (Plan_error ''unsupported_external_call_exception'')
         else if ops \<noteq> [] \<and> jget site ''kind'' \<notin> {JStr ''external_call'', JStr ''indirect_call''}
           then Raise (Plan_error ''malformed_external_call_exception_inventory'')
         else Ok ops) = Inr ops"
    using assms unfolding native_exception_operations_for_call_v2_def Let_def by (elim bind_OkE) blast
  then have o: "ops = nonempty_strings raw" "ops = sort (remdups ops)" "\<forall>name\<in>set ops. name \<in> set native_exception_effects_v2"
    "ops \<noteq> [] \<longrightarrow> jget site ''kind'' \<in> {JStr ''external_call'', JStr ''indirect_call''}"
    unfolding malformed_def Let_def by (auto split: if_split_asm)
  then show ?thesis using nonempty_strings_nonempty[of raw] unfolding native_operations_good_def by blast
qed

lemma native_operations_written:
  assumes "native_operations_good (jget site ''kind'') ops"
    "jget site ''native_exception_operations'' = JList (map JStr ops)
      \<or> \<not> jhas site ''native_exception_operations'' \<and> ops = []"
  shows "native_exception_operations_for_call_v2 site True = Inr ops"
proof -
  let ?listed = "if jhas site ''native_exception_operations'' then jget site ''native_exception_operations'' else JList []"
  have v: "?listed = JList (map JStr ops)"
    using assms(2) by (auto simp: jhas_def jget_def)
  have "nonempty_strings (map JStr ops) = ops" using assms(1) by (simp add: native_operations_good_def)
  moreover have "sort (remdups ops) = ops" "\<not> (\<exists>name\<in>set ops. name \<notin> set native_exception_effects_v2)"
    "\<not> (ops \<noteq> [] \<and> jget site ''kind'' \<notin> {JStr ''external_call'', JStr ''indirect_call''})"
    using assms(1) by (auto simp: native_operations_good_def)
  ultimately show ?thesis
    unfolding native_exception_operations_for_call_v2_def v by (simp add: Let_def)
qed

definition call_good :: "int \<Rightarrow> call \<Rightarrow> bool" where
  "call_good ne c \<longleftrightarrow>
     (\<forall>k. target_node c = Some k \<longrightarrow> 0 \<le> k) \<and> (\<forall>x\<in>set (register_nodes c @ flag_nodes c @ argument_nodes c). 0 \<le> x)
     \<and> length (register_nodes c) = length registers_table \<and> length (flag_nodes c) = length flags_table
     \<and> (\<forall>r\<in>set (stack_inputs c). 0 \<le> fst r \<and> fst (snd r) \<in> {1, 2, 4} \<and> 0 \<le> snd (snd r))
     \<and> (\<forall>x\<in>set (call_node_references c). x < ne)
     \<and> call_kind c \<noteq> [] \<and> 0 \<le> instruction_rva c \<and> instruction_rva c < 2 ^ 32 \<and> 0 \<le> call_index c
     \<and> 0 \<le> call_target_rva c \<and> call_target_rva c < 2 ^ 32 \<and> 0 \<le> return_rva c \<and> return_rva c < 2 ^ 32
     \<and> dll c \<noteq> Some [] \<and> symbol c \<noteq> Some [] \<and> (\<forall>k. ordinal c = Some k \<longrightarrow> 0 \<le> k)
     \<and> native_operations_good (JStr (call_kind c)) (native_exception_operations c)"

lemma call_accepted:
  assumes "call_from_payload ne i raw = Inr c"
  shows "call_good ne c"
proof -
  obtain v target regs flgs args vs stack k ops rva event target_addr ret d sym ord where
    r: "optional_field nonnegative (jget v ''target_node'') = Inr target" "int_tuple (jget v ''register_nodes'') = Inr regs"
      "int_tuple (jget v ''flag_nodes'') = Inr flgs" "int_tuple (jget v ''argument_nodes'') = Inr args"
      "length regs = length registers_table" "length flgs = length flags_table"
      "mapM stack_input vs = Inr stack"
      "\<forall>x\<in>set ((case target of None \<Rightarrow> [] | Some n \<Rightarrow> [n]) @ regs @ flgs @ args @ map (\<lambda>(_, _, n). n) stack). x < ne"
      "string_field (jget v ''kind'') = Inr k" "native_exception_operations_for_call_v2 v True = Inr ops"
      "u32_field (jget v ''instruction_rva'') = Inr rva" "nonnegative (jget v ''event_index'') = Inr event"
      "u32_field (jget v ''target_rva'') = Inr target_addr" "u32_field (jget v ''return_rva'') = Inr ret"
      "optional_string (jget v ''dll'') = Inr d" "optional_string (jget v ''symbol'') = Inr sym"
      "optional_field nonnegative (jget v ''ordinal'') = Inr ord"
    and c: "c = \<lparr>call_kind = k, instruction_rva = rva, call_index = event, target_node = target,
               call_target_rva = target_addr, return_rva = ret, dll = d, symbol = sym, ordinal = ord,
               register_nodes = regs, flag_nodes = flgs, argument_nodes = args, stack_inputs = stack,
               native_exception_operations = ops\<rparr>"
    using assms unfolding call_from_payload_def malformed_plan_def malformed_reference_def
    by (elim bind_OkE) (auto simp: not_le elim!: bind_OkE split: if_split_asm)
  have st: "\<forall>r\<in>set stack. 0 \<le> fst r \<and> fst (snd r) \<in> {1, 2, 4} \<and> 0 \<le> snd (snd r)"
    by (intro ballI, rule mapM_all[OF r(7)]) (simp_all add: stack_input_Ok)
  show ?thesis
    using r(1-6,8,9,11-17) st native_operations_Ok[OF r(10)]
    by (auto simp: c field_iffs call_good_def call_node_references_def)
qed

lemma call_written:
  assumes ok: "call_good ne c"
  shows "call_from_payload ne i (call_payload i c) = Inr c"
proof -
  obtain v where v: "call_payload i c = JObj v"
    and g: "jget v ''id'' = JInt i" "jget v ''kind'' = JStr (call_kind c)"
      "jget v ''instruction_rva'' = JInt (instruction_rva c)" "jget v ''event_index'' = JInt (call_index c)"
      "jget v ''target_node'' = opt_int (target_node c)" "jget v ''target_rva'' = JInt (call_target_rva c)"
      "jget v ''return_rva'' = JInt (return_rva c)" "jget v ''dll'' = opt_str (dll c)"
      "jget v ''symbol'' = opt_str (symbol c)" "jget v ''ordinal'' = opt_int (ordinal c)"
      "jget v ''register_nodes'' = JList (map JInt (register_nodes c))"
      "jget v ''flag_nodes'' = JList (map JInt (flag_nodes c))"
      "jget v ''argument_nodes'' = JList (map JInt (argument_nodes c))"
      "jget v ''stack_inputs'' = JList (map stack_input_payload (stack_inputs c))"
    and keys: "set call_fields \<subseteq> set (map fst v)"
      "set (map fst v) \<subseteq> set call_fields \<union> {''native_exception_operations''}"
    and nat: "jget v ''native_exception_operations'' = JList (map JStr (native_exception_operations c))
      \<or> \<not> jhas v ''native_exception_operations'' \<and> native_exception_operations c = []"
    by (cases "native_exception_operations c = []") (simp_all add: call_payload_def call_fields_def jhas_def)
  have "native_exception_operations_for_call_v2 v True = Inr (native_exception_operations c)"
    using ok nat g(2) by (intro native_operations_written) (auto simp: call_good_def)
  moreover have "mapM stack_input (map stack_input_payload (stack_inputs c)) = Inr (stack_inputs c)"
    using ok unfolding mapM_Ok_iff by (simp add: call_good_def list_all2_conv_all_nth field_iffs)
  moreover have refs: "\<not> (\<exists>x\<in>set ((case target_node c of None \<Rightarrow> [] | Some n \<Rightarrow> [n]) @ register_nodes c @ flag_nodes c
      @ argument_nodes c @ map (\<lambda>(_, _, n). n) (stack_inputs c)). x \<ge> ne)"
    using ok unfolding call_good_def call_node_references_def by (meson leD)
  moreover have "u32_field (JInt (instruction_rva c)) = Inr (instruction_rva c)"
    "u32_field (JInt (call_target_rva c)) = Inr (call_target_rva c)"
    "u32_field (JInt (return_rva c)) = Inr (return_rva c)"
    using ok unfolding call_good_def by (simp_all only: field_iffs simp_thms)
  moreover have "int_tuple (JList (map JInt (register_nodes c))) = Inr (register_nodes c)"
    "int_tuple (JList (map JInt (flag_nodes c))) = Inr (flag_nodes c)"
    "int_tuple (JList (map JInt (argument_nodes c))) = Inr (argument_nodes c)"
    "optional_field nonnegative (opt_int (target_node c)) = Inr (target_node c)"
    "optional_field nonnegative (opt_int (ordinal c)) = Inr (ordinal c)"
    using ok by (auto simp: call_good_def intro!: field_reads)
  moreover have "length (register_nodes c) = length registers_table" "length (flag_nodes c) = length flags_table"
    "call_kind c \<noteq> []" "0 \<le> call_index c" "dll c \<noteq> Some []" "symbol c \<noteq> Some []"
    using ok unfolding call_good_def by blast+
  ultimately show ?thesis
    using keys unfolding v call_from_payload_def
    by (simp add: g del: set_append)
qed

definition x87_good :: "(string \<Rightarrow> string) \<Rightarrow> x87_program \<Rightarrow> bool" where
  "x87_good sha x \<longleftrightarrow> 0 \<le> xp_image_base x \<and> xp_image_base x < 2 ^ 32 \<and> 0 \<le> xp_rva_start x
     \<and> xp_rva_start x < xp_rva_end x \<and> xp_rva_end x < 2 ^ 32 \<and> is_ok (sha256_field (JStr (xp_contract_sha256 x)))
     \<and> xp_checked_decoder x \<noteq> [] \<and> xp_checked_executor x \<noteq> []
     \<and> typed_x87_operation_from_payload sha (x87_operation_payload (xp_operation x)) (xp_image_base x)
         = Inr (xp_operation x)"

lemma sha256_text: "is_ok (sha256_field (JStr text)) \<longleftrightarrow> sha256_field (JStr text) = Inr text"
  by (auto simp: is_ok_iff dest: sha256_field_value)

lemma x87_accepted:
  assumes "x87_from_payload sha i raw = Inr x"
  shows "x87_good sha x"
proof -
  obtain v opms base oper rva rva_end contract dec exec where
    r: "u32_field (jget v ''image_base'') = Inr base" "typed_x87_operation_from_payload sha opms base = Inr oper"
      "u32_field (jget v ''rva_start'') = Inr rva" "u32_field (jget v ''rva_end'') = Inr rva_end" "\<not> rva_end \<le> rva"
      "sha256_field (jget v ''contract_sha256'') = Inr contract" "string_field (jget v ''checked_decoder'') = Inr dec"
      "string_field (jget v ''checked_executor'') = Inr exec"
    and x: "x = \<lparr>xp_contract_sha256 = contract, xp_image_base = base, xp_rva_start = rva, xp_rva_end = rva_end,
               xp_operation = oper, xp_checked_decoder = dec, xp_checked_executor = exec\<rparr>"
    using assms unfolding x87_from_payload_def malformed_plan_def
    by (elim bind_OkE) (auto elim!: bind_OkE split: if_split_asm)
  have "sha256_field (JStr contract) = Inr contract"
    using r(6) sha256_field_value[OF r(6)] by simp
  then show ?thesis
    using r(1,3-5,7,8) stored_again[OF r(2)] by (simp add: x x87_good_def sha256_text field_iffs)
qed

lemma x87_written:
  assumes "x87_good sha x"
  shows "x87_from_payload sha i (x87_payload i x) = Inr x"
proof -
  have "u32_field (JInt (xp_image_base x)) = Inr (xp_image_base x)" "u32_field (JInt (xp_rva_start x)) = Inr (xp_rva_start x)"
    "u32_field (JInt (xp_rva_end x)) = Inr (xp_rva_end x)" "xp_rva_start x < xp_rva_end x"
    using assms by (simp_all add: x87_good_def)
  moreover have "sha256_field (JStr (xp_contract_sha256 x)) = Inr (xp_contract_sha256 x)"
    "typed_x87_operation_from_payload sha (x87_operation_payload (xp_operation x)) (xp_image_base x) = Inr (xp_operation x)"
    "string_field (JStr (xp_checked_decoder x)) = Inr (xp_checked_decoder x)"
    "string_field (JStr (xp_checked_executor x)) = Inr (xp_checked_executor x)"
    using assms by (simp_all add: x87_good_def sha256_text)
  ultimately show ?thesis
    by (simp add: x87_payload_def x87_from_payload_def has_fields_def del: u32_field.simps string_field.simps)
qed

definition occurrence_good :: "action list \<Rightarrow> call list \<Rightarrow> int \<Rightarrow> exception_occurrence \<Rightarrow> bool" where
  "occurrence_good effs cs i x \<longleftrightarrow> fault_index x = i \<and> is_ok (sha256_field (JStr (fault_sha256 x)))
     \<and> occurrence_kind x \<noteq> [] \<and> eo_operation x \<noteq> [] \<and> 0 \<le> effect_index x \<and> effect_index x < int (length effs)
     \<and> (\<forall>k. call_id x = Some k \<longrightarrow> 0 \<le> k) \<and> (\<forall>k. call_event_index x = Some k \<longrightarrow> 0 \<le> k)
     \<and> occurrence_valid (effs ! nat (effect_index x)) cs i x"

lemma occurrence_valid_digest: "occurrence_valid e cs i (x\<lparr>fault_sha256 := d\<rparr>) = occurrence_valid e cs i x"
  by (auto simp: occurrence_valid_def split: option.splits)

lemma occurrence_accepted:
  assumes "occurrence_from_payload effs cs i raw = Inr x"
  shows "occurrence_good effs cs i x"
proof -
  obtain v k eff_index oper cid event digest where
    r: "string_field (jget v ''occurrence_kind'') = Inr k" "nonnegative (jget v ''effect_index'') = Inr eff_index"
      "string_field (jget v ''operation'') = Inr oper" "optional_field nonnegative (jget v ''call_id'') = Inr cid"
      "optional_field nonnegative (jget v ''call_event_index'') = Inr event"
      "sha256_field (jget v ''fault_sha256'') = Inr digest" "\<not> eff_index \<ge> int (length effs)"
      "occurrence_valid (effs ! nat eff_index) cs i \<lparr>fault_index = i, fault_sha256 = [], occurrence_kind = k,
                         effect_index = eff_index, eo_operation = oper, call_id = cid, call_event_index = event\<rparr>"
    and x: "x = \<lparr>fault_index = i, fault_sha256 = digest, occurrence_kind = k,
                effect_index = eff_index, eo_operation = oper, call_id = cid, call_event_index = event\<rparr>"
    using assms unfolding occurrence_from_payload_def malformed_occurrence_def Let_def
    by (elim bind_OkE) (auto elim!: bind_OkE split: if_split_asm)
  have "sha256_field (JStr digest) = Inr digest"
    using r(6) sha256_field_value[OF r(6)] by simp
  moreover have "occurrence_valid (effs ! nat eff_index) cs i x"
    using r(8) occurrence_valid_digest[where x = x and d = "[]"] by (simp add: x)
  ultimately show ?thesis
    using r(1-5,7) by (simp add: x occurrence_good_def sha256_text field_iffs)
qed

lemma occurrence_written:
  assumes "occurrence_good effs cs i x"
  shows "occurrence_from_payload effs cs i (occurrence_payload x) = Inr x"
proof -
  have "sha256_field (JStr (fault_sha256 x)) = Inr (fault_sha256 x)" "fault_index x = i"
    "occurrence_valid (effs ! nat (effect_index x)) cs i (x\<lparr>fault_sha256 := []\<rparr>)"
    using assms by (simp_all add: occurrence_good_def sha256_text occurrence_valid_digest)
  then show ?thesis
    using assms by (cases x)
      (simp add: occurrence_good_def occurrence_payload_def occurrence_from_payload_def has_fields_def Let_def)
qed

interpretation node_rows: row_codec node_from_payload node_payload node_good
  by unfold_locales (rule node_accepted node_written, assumption)+

interpretation effect_rows: row_codec "effect_from_payload ne nc nx" action_payload "\<lambda>_. effect_good ne nc nx" for ne nc nx
  by unfold_locales (rule effect_accepted effect_written, assumption)+

interpretation call_rows: row_codec "call_from_payload ne" "\<lambda>i c. Inr (call_payload i c)" "\<lambda>_. call_good ne" for ne
  by unfold_locales (simp_all add: call_accepted call_written)

interpretation x87_rows: row_codec "x87_from_payload sha" "\<lambda>i x. Inr (x87_payload i x)" "\<lambda>_. x87_good sha" for sha
  by unfold_locales (simp_all add: x87_accepted x87_written)

interpretation occurrence_rows:
  row_codec "occurrence_from_payload effs cs" "\<lambda>i x. Inr (occurrence_payload x)" "occurrence_good effs cs" for effs cs
  by unfold_locales (simp_all add: occurrence_accepted occurrence_written)

section \<open>Transfers\<close>

text \<open>The parts of an accepted transfer document.\<close>

lemma transfer_from_payload_parts:
  assumes "transfer_from_payload sha row = Inr t"
  obtains source effs trm where "jget row ''source'' = JObj source" "read_source source = Inr (rva_start t)"
    "read_rows node_from_payload (jget row ''expressions'') = Inr (nodes t)"
    "read_rows (call_from_payload (int (length (nodes t)))) (jget row ''calls'') = Inr (calls t)"
    "read_rows (x87_from_payload sha) (jget row ''x87_intrinsics'') = Inr (x87_operations t)"
    "read_rows (effect_from_payload (int (length (nodes t))) (int (length (calls t))) (int (length (x87_operations t))))
       (jget row ''effects'') = Inr effs"
    "terminator_from_payload (int (length (nodes t))) (jget row ''terminator'') = Inr trm"
    "read_rows (occurrence_from_payload effs (calls t)) (jget row ''exception_occurrences'') = Inr (exception_occurrences t)"
    "length (exception_occurrences t) = expected_occurrences effs (calls t)"
    "actions t = effs @ [trm]" "x87_nodes t = []"
    "string_field (jget row ''identity'') = Inr (identity t)"
    "sha256_field (jget source ''contract_sha256'') = Inr (contract_sha256 t)"
    "sha256_field (jget source ''instruction_bytes_sha256'') = Inr (instruction_bytes_sha256 t)"
  using assms unfolding transfer_from_payload_def malformed_plan_def malformed_occurrence_def
  by (auto simp: object_field_Ok elim!: bind_OkE split: if_split_asm)

lemma read_source_Ok:
  assumes "read_source source = Inr rva"
  shows "has_fields source source_fields \<and> jget source ''rva_start'' = JInt rva"
  using assms by (auto simp: read_source_def malformed_plan_def field_iffs elim!: bind_OkE split: if_split_asm)

lemma jitem_field: "k \<in> set (map fst ms) \<Longrightarrow> jitem ms k = Inr (jget ms k)"
  by (auto simp: jitem_def jget_def weak_map_of_SomeI split: option.splits)

lemma source_written:
  assumes "read_source source = Inr (rva_start t)" "jget source ''contract_sha256'' = JStr (contract_sha256 t)"
    "jget source ''instruction_bytes_sha256'' = JStr (instruction_bytes_sha256 t)"
  shows "source_payload t source = Inr (map (\<lambda>k. (k, jget source k)) source_fields)"
    and "read_source (map (\<lambda>k. (k, jget source k)) source_fields) = Inr (rva_start t)"
proof -
  note s = read_source_Ok[OF assms(1)]
  have item: "jitem source k = Inr (jget source k)" if "k \<in> set source_fields" for k
    using s that by (intro jitem_field) (simp add: has_fields_def)
  then have "mapM (\<lambda>k. bind (jitem source k) (\<lambda>v. Ok (k, v))) source_fields = Inr (map (\<lambda>k. (k, jget source k)) source_fields)"
    by (intro mapM_all_Ok) simp
  then show "source_payload t source = Inr (map (\<lambda>k. (k, jget source k)) source_fields)"
    using item[of "''rva_end''"] item[of "''unit_ir_sha256''"] s assms(2,3)
    by (simp add: source_payload_def Let_def) (simp add: source_fields_def)
  show "read_source (map (\<lambda>k. (k, jget source k)) source_fields) = Inr (rva_start t)"
    using assms(1) s by (simp add: read_source_def has_fields_def) (simp add: source_fields_def)
qed

text \<open>What the reader guarantees of a transfer, and that it is all a transfer needs to be read back.\<close>

definition transfer_good :: "(string \<Rightarrow> string) \<Rightarrow> transfer \<Rightarrow> bool" where
  "transfer_good sha t \<longleftrightarrow>
     (let ne = int (length (nodes t)); effs = butlast (actions t) in
      (\<forall>k < length (nodes t). node_good (int k) (nodes t ! k)) \<and> x87_nodes t = [] \<and> actions t \<noteq> []
      \<and> (\<forall>a\<in>set effs. effect_good ne (int (length (calls t))) (int (length (x87_operations t))) a)
      \<and> terminator_good ne (last (actions t)) \<and> (\<forall>c\<in>set (calls t). call_good ne c)
      \<and> (\<forall>x\<in>set (x87_operations t). x87_good sha x)
      \<and> (\<forall>k < length (exception_occurrences t). occurrence_good effs (calls t) (int k) (exception_occurrences t ! k))
      \<and> length (exception_occurrences t) = expected_occurrences effs (calls t)
      \<and> identity t \<noteq> [] \<and> is_ok (sha256_field (JStr (contract_sha256 t)))
      \<and> is_ok (sha256_field (JStr (instruction_bytes_sha256 t))))"

lemma accepted_transfer_good:
  assumes "transfer_from_payload sha row = Inr t"
  shows "transfer_good sha t"
proof -
  obtain source effs trm where
    n: "read_rows node_from_payload (jget row ''expressions'') = Inr (nodes t)"
    and c: "read_rows (call_from_payload (int (length (nodes t)))) (jget row ''calls'') = Inr (calls t)"
    and x: "read_rows (x87_from_payload sha) (jget row ''x87_intrinsics'') = Inr (x87_operations t)"
    and e: "read_rows (effect_from_payload (int (length (nodes t))) (int (length (calls t))) (int (length (x87_operations t))))
       (jget row ''effects'') = Inr effs"
    and trm: "terminator_from_payload (int (length (nodes t))) (jget row ''terminator'') = Inr trm"
    and o: "read_rows (occurrence_from_payload effs (calls t)) (jget row ''exception_occurrences'') = Inr (exception_occurrences t)"
      "length (exception_occurrences t) = expected_occurrences effs (calls t)"
    and acts: "actions t = effs @ [trm]" "x87_nodes t = []"
    and ident: "string_field (jget row ''identity'') = Inr (identity t)"
    and sh: "sha256_field (jget source ''contract_sha256'') = Inr (contract_sha256 t)"
      "sha256_field (jget source ''instruction_bytes_sha256'') = Inr (instruction_bytes_sha256 t)"
    by (rule transfer_from_payload_parts[OF assms])
  note texts = sh[unfolded sha256_field_value[OF sh(1)] sha256_field_value[OF sh(2)]]
  show ?thesis
    using node_rows.rows_good[OF n] effect_rows.rows_good[OF e] call_rows.rows_good[OF c] x87_rows.rows_good[OF x]
      occurrence_rows.rows_good[OF o(1)] terminator_accepted[OF trm] o(2) ident texts
    by (simp add: transfer_good_def acts all_set_conv_all_nth field_iffs)
qed

text \<open>A good transfer is written under its source binding, and the document reads as the same transfer.\<close>

lemma transfer_written:
  assumes good: "transfer_good sha t" and source: "read_source source = Inr (rva_start t)"
    "jget source ''contract_sha256'' = JStr (contract_sha256 t)"
    "jget source ''instruction_bytes_sha256'' = JStr (instruction_bytes_sha256 t)"
  shows "\<exists>row'. transfer_payload t source = Inr row' \<and> transfer_from_payload sha row' = Inr t"
proof -
  define effs trm where "effs = butlast (actions t)" "trm = last (actions t)"
  note g = good[unfolded transfer_good_def Let_def, folded effs_trm_def]
  have acts: "actions t = effs @ [trm]" using g by (simp add: effs_trm_def)
  have sh: "sha256_field (JStr (contract_sha256 t)) = Inr (contract_sha256 t)"
    "sha256_field (JStr (instruction_bytes_sha256 t)) = Inr (instruction_bytes_sha256 t)"
    using g by (simp_all only: sha256_text)
  note written = source_written[OF source]
  obtain ps where ps: "indexed node_payload (nodes t) = Inr ps" "read_rows node_from_payload (JList ps) = Inr (nodes t)"
    using node_rows.rows_written[of "nodes t"] g by blast
  obtain es where es: "indexed action_payload effs = Inr es"
    "read_rows (effect_from_payload (int (length (nodes t))) (int (length (calls t))) (int (length (x87_operations t))))
       (JList es) = Inr effs"
    using effect_rows.rows_written[of effs] g by (meson nth_mem)
  obtain cs where cs: "indexed (\<lambda>i c. Inr (call_payload i c)) (calls t) = Inr cs"
    "read_rows (call_from_payload (int (length (nodes t)))) (JList cs) = Inr (calls t)"
    using call_rows.rows_written[of "calls t"] g by (meson nth_mem)
  obtain xs where xs: "indexed (\<lambda>i x. Inr (x87_payload i x)) (x87_operations t) = Inr xs"
    "read_rows (x87_from_payload sha) (JList xs) = Inr (x87_operations t)"
    using x87_rows.rows_written[of "x87_operations t"] g by (meson nth_mem)
  have os: "read_rows (occurrence_from_payload effs (calls t)) (JList (map occurrence_payload (exception_occurrences t)))
      = Inr (exception_occurrences t)"
  proof -
    obtain qs where qs: "indexed (\<lambda>i x. Inr (occurrence_payload x)) (exception_occurrences t) = Inr qs"
      "read_rows (occurrence_from_payload effs (calls t)) (JList qs) = Inr (exception_occurrences t)"
      using occurrence_rows.rows_written[of "exception_occurrences t" effs "calls t"] g by blast
    have "indexed (\<lambda>i x. Inr (occurrence_payload x)) (exception_occurrences t)
        = Inr (map (\<lambda>(i, x). occurrence_payload x) (enumerate 0 (exception_occurrences t)))"
      unfolding indexed_def by (rule mapM_all_Ok) auto
    also have "map (\<lambda>(i, x). occurrence_payload x) (enumerate 0 (exception_occurrences t))
        = map occurrence_payload (exception_occurrences t)"
      by (simp add: split_def flip: map_map[unfolded comp_def])
    finally show ?thesis using qs by simp
  qed
  obtain q where q: "terminator_payload trm = Inr q" "terminator_from_payload (int (length (nodes t))) q = Inr trm"
    using terminator_written g by blast
  let ?source = "map (\<lambda>k. (k, jget source k)) source_fields"
  let ?row = "[(''identity'', JStr (identity t)), (''source'', JObj ?source),
                 (''expressions'', JList ps), (''effects'', JList es), (''calls'', JList cs),
                 (''exception_occurrences'', JList (map occurrence_payload (exception_occurrences t))),
                 (''x87_intrinsics'', JList xs), (''terminator'', q)]"
  have "transfer_payload t source = Inr ?row"
    using g by (simp add: transfer_payload_def acts written(1) ps es cs xs q)
  moreover have "jget ?source ''contract_sha256'' = jget source ''contract_sha256''"
    "jget ?source ''instruction_bytes_sha256'' = jget source ''instruction_bytes_sha256''"
    by (simp_all add: source_fields_def)
  then have "transfer_from_payload sha ?row = Inr t"
    using g sh acts source(2,3)
    by (simp add: transfer_from_payload_def has_fields_def written(2) ps es cs xs os q field_iffs)
  ultimately show ?thesis by blast
qed

text \<open>An accepted document, written again under its own source binding, reads as the same transfer.\<close>

lemma transfer_reread:
  assumes "transfer_from_payload sha row = Inr t" "jget row ''source'' = JObj source"
  shows "\<exists>row'. transfer_payload t source = Inr row' \<and> transfer_from_payload sha row' = Inr t"
proof -
  obtain source' where src: "jget row ''source'' = JObj source'" "read_source source' = Inr (rva_start t)"
    and sh: "sha256_field (jget source' ''contract_sha256'') = Inr (contract_sha256 t)"
      "sha256_field (jget source' ''instruction_bytes_sha256'') = Inr (instruction_bytes_sha256 t)"
    by (rule transfer_from_payload_parts[OF assms(1)])
  have "source' = source" using src(1) assms(2) by simp
  with src(2) sha256_field_value[OF sh(1)] sha256_field_value[OF sh(2)] show ?thesis
    by (intro transfer_written[OF accepted_transfer_good[OF assms(1)]]) simp_all
qed

end
