(* ===== verification/Compiler_Logic.thy ===== *)
theory Compiler_Logic
  imports Compiler_Words Plan_Codec
begin

text \<open>
  Partial correctness of the compiler's computations. A computation that succeeds keeps an invariant of
  the state and only lets the state grow; what it returns is related to the state it leaves by a
  postcondition that later growth preserves. The rules follow the structure of the computation.
\<close>

section \<open>Successful computations\<close>

lemma cbind_Ok [res_simps]: "cbind m f s = Inr (y, s') \<longleftrightarrow> (\<exists>x t. m s = Inr (x, t) \<and> f x t = Inr (y, s'))"
  by (auto simp: cbind_def elim!: bind_OkE)

lemma cbind_OkE:
  assumes "cbind m f s = Inr (y, s')"
  obtains x t where "m s = Inr (x, t)" "f x t = Inr (y, s')"
  using assms by (auto simp: cbind_Ok)

lemma creturn_Ok [simp]: "creturn x s = Inr (y, s') \<longleftrightarrow> y = x \<and> s' = s"
  by (auto simp: creturn_def)

lemma clift_Ok [simp]: "clift r s = Inr (y, s') \<longleftrightarrow> r = Inr y \<and> s' = s"
  by (cases r) (auto simp: clift_def)

lemma reads_Ok [simp]: "reads f s = Inr (y, s') \<longleftrightarrow> y = f s \<and> s' = s"
  by (auto simp: reads_def)

lemma modify_Ok [simp]: "modify f s = Inr (y, s') \<longleftrightarrow> s' = f s"
  by (auto simp: modify_def)

lemma refuse_Ok [simp]: "refuse code s \<noteq> Inr p"
  by (simp add: refuse_def)

lemma check_Ok [simp]: "check ok code s = Inr (y, s') \<longleftrightarrow> ok \<and> s' = s"
  by (auto simp: check_def)

lemma emit_Ok [simp]: "emit a s = Inr (y, s') \<longleftrightarrow> s' = s\<lparr>cn_actions := cn_actions s @ [a]\<rparr>"
  by (simp add: emit_def)

section \<open>Triples\<close>

locale growing_state =
  fixes inv :: "cstate \<Rightarrow> bool" and grows :: "cstate \<Rightarrow> cstate \<Rightarrow> bool"
  assumes grows_refl [simp]: "grows s s"
    and grows_trans: "grows s t \<Longrightarrow> grows t u \<Longrightarrow> grows s u"
begin

definition stable :: "(cstate \<Rightarrow> bool) \<Rightarrow> bool" where
  "stable P \<longleftrightarrow> (\<forall>s s'. grows s s' \<longrightarrow> P s \<longrightarrow> P s')"

definition holds :: "(cstate \<Rightarrow> bool) \<Rightarrow> 'a comp \<Rightarrow> ('a \<Rightarrow> cstate \<Rightarrow> bool) \<Rightarrow> bool" where
  "holds P m Q \<longleftrightarrow> (\<forall>s x s'. inv s \<longrightarrow> P s \<longrightarrow> m s = Inr (x, s') \<longrightarrow> inv s' \<and> grows s s' \<and> Q x s')"

lemma holdsI:
  "(\<And>s x s'. inv s \<Longrightarrow> P s \<Longrightarrow> m s = Inr (x, s') \<Longrightarrow> inv s' \<and> grows s s' \<and> Q x s') \<Longrightarrow> holds P m Q"
  by (simp add: holds_def)

lemma holdsD:
  assumes "holds P m Q" "inv s" "P s" "m s = Inr (x, s')"
  shows "inv s'" "grows s s'" "Q x s'"
  using assms unfolding holds_def by blast+

lemma stable_const [intro!, simp]: "stable (\<lambda>_. b)"
  by (simp add: stable_def)

lemma stable_conj [intro!]: "stable P \<Longrightarrow> stable Q \<Longrightarrow> stable (\<lambda>s. P s \<and> Q s)"
  by (auto simp: stable_def)

lemma stable_all [intro!]: "(\<And>x. stable (P x)) \<Longrightarrow> stable (\<lambda>s. \<forall>x. P x s)"
  by (auto simp: stable_def)

lemma stable_ball [intro!]: "(\<And>x. x \<in> A \<Longrightarrow> stable (P x)) \<Longrightarrow> stable (\<lambda>s. \<forall>x\<in>A. P x s)"
  unfolding stable_def by blast

lemma stable_imp [intro!]: "stable P \<Longrightarrow> stable (\<lambda>s. b \<longrightarrow> P s)"
  by (auto simp: stable_def)

lemma stable_list_all2 [intro!]: "(\<And>x y. stable (Q x y)) \<Longrightarrow> stable (\<lambda>s. list_all2 (\<lambda>x y. Q x y s) xs ys)"
  unfolding stable_def list_all2_conv_all_nth by blast

lemma holds_bind:
  assumes "holds P m R" "\<And>x. holds (\<lambda>s. P s \<and> R x s) (f x) Q" "stable P"
  shows "holds P (cbind m f) Q"
proof (rule holdsI)
  fix s y s' assume s: "inv s" "P s" "cbind m f s = Inr (y, s')"
  then obtain x t where t: "m s = Inr (x, t)" "f x t = Inr (y, s')" by (auto simp: cbind_Ok)
  have "inv t" "grows s t" "P t \<and> R x t"
    using holdsD[OF assms(1) s(1,2) t(1)] assms(3) s(2) by (auto simp: stable_def)
  then show "inv s' \<and> grows s s' \<and> Q y s'"
    using holdsD[OF assms(2) \<open>inv t\<close> _ t(2)] grows_trans by blast
qed

lemma holds_weaken:
  assumes "holds P' m Q'" "\<And>s. inv s \<Longrightarrow> P s \<Longrightarrow> P' s" "\<And>x s. inv s \<Longrightarrow> Q' x s \<Longrightarrow> Q x s"
  shows "holds P m Q"
  using assms unfolding holds_def by blast

text \<open>A fact that growth preserves can be carried over a computation.\<close>

lemma holds_frame:
  assumes "holds P m Q" "stable F"
  shows "holds (\<lambda>s. P s \<and> F s) m (\<lambda>x s. Q x s \<and> F s)"
  using assms unfolding holds_def stable_def by blast

lemma holds_creturn: "(\<And>s. inv s \<Longrightarrow> P s \<Longrightarrow> Q x s) \<Longrightarrow> holds P (creturn x) Q"
  by (auto intro: holdsI)

lemma holds_clift: "holds P (clift r) (\<lambda>x _. r = Inr x)"
  by (auto intro: holdsI)

lemma holds_check: "holds P (check ok code) (\<lambda>_ _. ok)"
  by (auto intro: holdsI)

lemma holds_refuse: "holds P (refuse code) Q" "holds P (clift malformed) Q"
  by (auto intro: holdsI simp: malformed_def)

text \<open>What a read returns, without what it says of the state.\<close>

lemma holds_reads: "holds P (reads f) (\<lambda>_ _. True)"
  by (auto intro: holdsI)

lemma holds_if: "(b \<Longrightarrow> holds P m Q) \<Longrightarrow> (\<not> b \<Longrightarrow> holds P m' Q) \<Longrightarrow> holds P (if b then m else m') Q"
  by simp

lemma holds_if_pre:
  "holds (\<lambda>s. P s \<and> b) m Q \<Longrightarrow> holds (\<lambda>s. P s \<and> \<not> b) m' Q \<Longrightarrow> holds P (if b then m else m') Q"
  unfolding holds_def by (cases b) simp_all

lemma holds_option:
  "(v = None \<Longrightarrow> holds P m Q) \<Longrightarrow> (\<And>x. v = Some x \<Longrightarrow> holds P (f x) Q) \<Longrightarrow>
   holds P (case v of None \<Rightarrow> m | Some x \<Rightarrow> f x) Q"
  by (cases v) auto

lemma holds_split: "(\<And>a b. p = (a, b) \<Longrightarrow> holds P (f a b) Q) \<Longrightarrow> holds P (case p of (a, b) \<Rightarrow> f a b) Q"
  by (cases p) auto

lemma holds_assume: "(b \<Longrightarrow> holds (\<lambda>s. P s \<and> b) m Q) \<Longrightarrow> holds (\<lambda>s. P s \<and> b) m Q"
  by (auto simp: holds_def)

lemma holds_mapC:
  assumes "\<And>x. x \<in> set xs \<Longrightarrow> holds P (f x) (Q x)" "stable P" "\<And>x y. stable (Q x y)"
  shows "holds P (mapC f xs) (\<lambda>ys s. list_all2 (\<lambda>x y. Q x y s) xs ys)"
  using assms(1)
proof (induction xs)
  case Nil
  show ?case by (auto intro: holds_creturn)
next
  case (Cons x xs)
  have rest: "holds P (mapC f xs) (\<lambda>ys s. list_all2 (\<lambda>x y. Q x y s) xs ys)"
    by (rule Cons.IH) (simp add: Cons.prems)
  have "holds (\<lambda>s. P s \<and> Q x y s) (cbind (mapC f xs) (\<lambda>ys. creturn (y # ys)))
      (\<lambda>ys s. list_all2 (\<lambda>x y. Q x y s) (x # xs) ys)" for y
  proof (rule holds_bind)
    show "holds (\<lambda>s. P s \<and> Q x y s) (mapC f xs) (\<lambda>ys s. list_all2 (\<lambda>x y. Q x y s) xs ys)"
      by (rule holds_weaken[OF rest]) simp_all
    show "holds (\<lambda>s. (P s \<and> Q x y s) \<and> list_all2 (\<lambda>x y. Q x y s) xs ys) (creturn (y # ys))
        (\<lambda>ys s. list_all2 (\<lambda>x y. Q x y s) (x # xs) ys)" for ys
      by (rule holds_creturn) simp
    show "stable (\<lambda>s. P s \<and> Q x y s)" by (intro stable_conj assms(2,3))
  qed
  then show ?case
    unfolding mapC.simps by (intro holds_bind[OF Cons.prems[of x]] assms(2)) simp_all
qed

end

end
