(* ===== verification/Compiler_Graph.thy ===== *)
theory Compiler_Graph
  imports Compiler_Logic Eval_Properties
begin

text \<open>
  What the compilation of words does to the compiler's state: it adds well-formed nodes and entries of
  the memo table and touches nothing else; the outer call adds at most the evaluation of its word.
\<close>

section \<open>Well-formed nodes\<close>

definition compiled_node :: "int \<Rightarrow> node \<Rightarrow> bool" where
  "compiled_node i nd \<longleftrightarrow> node_good i nd \<and> aux_ok nd"

definition graph_ok :: "cstate \<Rightarrow> bool" where
  "graph_ok s \<longleftrightarrow> (\<forall>k < length (cn_nodes s). compiled_node (int k) (cn_nodes s ! k))
     \<and> (\<forall>i\<in>snd ` set (cn_memo s). 0 \<le> i \<and> i < int (length (cn_nodes s)))"

text \<open>The arities of the compiler's own table are those of the registry.\<close>

lemma semantic_arities:
  "list_all (\<lambda>(op, ar). op_arity (op_of_name op) = Some ar
     \<and> op_of_name op \<notin> {Word Op_load, Word Op_reg, Word Op_call_response, Pred Op_flag, Pred Op_call_flag,
         Word Op_undefined_bv, Pred Op_undefined_flag}) semantic_arity"
  by code_simp

lemma fpu_input_arities:
  "list_all (\<lambda>op. op_arity (op_of_name op) = Some (Exact 0)
     \<and> op_of_name op \<notin> {Word Op_load, Word Op_reg, Word Op_call_response, Pred Op_flag, Pred Op_call_flag,
         Word Op_undefined_bv, Pred Op_undefined_flag}) (''fpu_tag'' # fpu_zero_inputs)"
  by code_simp

lemma fpu_load_arities:
  "list_all (\<lambda>op. op_arity (op_of_name op) = Some (Exact 1)
     \<and> op_of_name op \<notin> {Word Op_load, Word Op_reg, Word Op_call_response, Pred Op_flag, Pred Op_call_flag,
         Word Op_undefined_bv, Pred Op_undefined_flag}) [''fpu_control_load'', ''fpu_control_word'', ''fpu_status_word'']"
  by code_simp

lemma op_names [simp]:
  "op_of_name ''const'' = Word Op_const" "op_of_name ''reg'' = Word Op_reg" "op_of_name ''flag'' = Pred Op_flag"
  "op_of_name ''fs_base'' = Word Op_fs_base" "op_of_name ''true'' = Pred Op_true" "op_of_name ''false'' = Pred Op_false"
  "op_of_name ''undefined_bv'' = Word Op_undefined_bv" "op_of_name ''undefined_flag'' = Pred Op_undefined_flag"
  "op_of_name ''call_response'' = Word Op_call_response" "op_of_name ''call_flag'' = Pred Op_call_flag"
  "op_of_name ''load'' = Word Op_load" "op_of_name ''shift_cf'' = Pred Op_shift_cf"
  "op_of_name ''shift_of'' = Pred Op_shift_of"
  by code_simp+

lemma op_arities [simp]:
  "op_arity (Word Op_const) = Some (Exact 0)" "op_arity (Word Op_reg) = Some (Exact 0)" "op_arity (Pred Op_flag) = Some (Exact 0)"
  "op_arity (Word Op_fs_base) = Some (Exact 0)" "op_arity (Pred Op_true) = Some (Exact 0)" "op_arity (Pred Op_false) = Some (Exact 0)"
  "op_arity (Word Op_undefined_bv) = Some (Between 0 1)" "op_arity (Pred Op_undefined_flag) = Some (Between 0 1)"
  "op_arity (Word Op_call_response) = Some (Exact 0)" "op_arity (Pred Op_call_flag) = Some (Exact 0)"
  "op_arity (Word Op_load) = Some (Exact 1)" "op_arity (Pred Op_shift_cf) = Some (Exact 2)"
  "op_arity (Pred Op_shift_of) = Some (Exact 3)"
  by (simp_all add: op_arity_def predicates_table_def words_table_def)

lemma registered_of_arity:
  assumes "op_arity (node_op nd) = Some ar" "arity_ok (int (length (node_args nd))) ar"
    "node_op nd = Word Op_load \<Longrightarrow> node_aux nd \<in> {1, 2, 4}"
  shows "is_ok (expression_operation_v2 nd)"
  using assms
  by (cases ar) (auto simp: op_arity_def expression_operation_v2_def expression_operations_v2_def map_of_map_row map_add_def
      validate_arity_def spec_row_def split: option.splits)

lemma index_of_bound: "index_of names name = Inr i \<Longrightarrow> 0 \<le> i \<and> i < int (length names)"
  by (auto simp: index_of_def malformed_def set_zip dest!: map_of_SomeD split: option.split_asm)

lemma slot_bounds:
  "register_slot name = Inr i \<Longrightarrow> 0 \<le> i \<and> i < 8" "flag_slot name = Inr i \<Longrightarrow> 0 \<le> i \<and> i < 7"
proof -
  show "register_slot name = Inr i \<Longrightarrow> 0 \<le> i \<and> i < 8"
    by (auto simp: register_slot_def register_names_def registers_table_def dest!: index_of_bound)
  show "flag_slot name = Inr i \<Longrightarrow> 0 \<le> i \<and> i < 7"
    by (auto simp: flag_slot_def flag_names_def flags_table_def af_flag_index_def dest!: index_of_bound split: if_split_asm)
qed

lemma shift_kind_nonneg: "map_of shift_kinds k = Some n \<Longrightarrow> 0 \<le> n"
  by (auto simp: shift_kinds_def split: if_split_asm)

lemma nat_digits_nonempty: "nat_digits n \<noteq> []"
  by (subst nat_digits.simps) simp

lemma undefined_label_nonempty: "undefined_label ms \<noteq> []"
proof -
  have "py_str v \<noteq> []" if "py_truthy v" for v
    using that by (cases v) (auto simp: py_str_def int_text_def Let_def nat_digits_nonempty)
  then show ?thesis by (simp add: undefined_label_def)
qed

lemma width_field_Ok [field_iffs]: "width_field v = Inr w \<longleftrightarrow> v = JInt w \<and> w \<in> {1, 2, 4}"
  by (auto simp: width_field_def malformed_def field_iffs bind_eq_Ok split: if_split_asm)

lemma width_bits_field_Ok [field_iffs]: "width_bits_field v = Inr w \<longleftrightarrow> v = JInt w \<and> w \<in> {8, 16, 32}"
  by (auto simp: width_bits_field_def malformed_def field_iffs bind_eq_Ok split: if_split_asm)

lemma x87_slot_Ok [field_iffs]: "x87_slot v = Inr k \<longleftrightarrow> v = JInt k \<and> 0 \<le> k \<and> k < 8"
  by (cases v) (auto simp: x87_slot_def malformed_def)

lemma u32_wrapping_Ok: "u32_wrapping v = Inr n \<Longrightarrow> 0 \<le> n \<and> n < 2 ^ 32"
  by (cases v) (auto simp: malformed_def mask_simps)

lemma x87_value_refused [simp]: "x87_value raw \<noteq> Inr p"
  by (auto simp: x87_value_def elim!: bind_OkE)

section \<open>The nodes of expressions\<close>

definition special_ops :: "opname set" where
  "special_ops = {Word Op_load, Word Op_reg, Word Op_call_response, Pred Op_flag, Pred Op_call_flag,
     Word Op_undefined_bv, Pred Op_undefined_flag}"

lemma plain_node:
  assumes "op_arity oper = Some ar" "oper \<notin> special_ops" "arity_ok (int (length refs)) ar" "\<forall>r\<in>set refs. 0 \<le> r \<and> r < i"
    "0 \<le> aux" "0 \<le> imm"
  shows "compiled_node i ((mk_node oper [] aux imm)\<lparr>node_args := refs\<rparr>)"
  using assms registered_of_arity[of "(mk_node oper [] aux imm)\<lparr>node_args := refs\<rparr>" ar]
  by (auto simp: special_ops_def compiled_node_def node_good_def aux_ok_def mk_node_def is_undefined_node_def)

lemma leaf_node:
  assumes "op_arity oper = Some (Exact 0)" "oper \<noteq> Word Op_load" "0 \<le> aux" "0 \<le> imm"
    "oper \<in> {Word Op_reg, Word Op_call_response} \<Longrightarrow> aux < 8" "oper \<in> {Pred Op_flag, Pred Op_call_flag} \<Longrightarrow> aux < 7"
    "oper \<notin> {Word Op_undefined_bv, Pred Op_undefined_flag}"
  shows "compiled_node i ((mk_node oper [] aux imm)\<lparr>node_args := []\<rparr>)"
  using assms registered_of_arity[of "(mk_node oper [] aux imm)\<lparr>node_args := []\<rparr>" "Exact 0"]
  by (auto simp: compiled_node_def node_good_def aux_ok_def mk_node_def is_undefined_node_def)

lemma undefined_node:
  assumes "oper \<in> {Word Op_undefined_bv, Pred Op_undefined_flag}" "\<forall>r\<in>set refs. 0 \<le> r \<and> r < i" "length refs \<le> 1"
    "label \<noteq> []"
  shows "compiled_node i (((mk_node oper [] 0 (stable_slot label))\<lparr>node_identity := Some label\<rparr>)\<lparr>node_args := refs\<rparr>)"
  using assms stable_slot_range[of label]
    registered_of_arity[of "((mk_node oper [] 0 (stable_slot label))\<lparr>node_identity := Some label\<rparr>)\<lparr>node_args := refs\<rparr>" "Between 0 1"]
  by (auto simp: compiled_node_def node_good_def aux_ok_def mk_node_def is_undefined_node_def)

lemma load_node:
  assumes "w \<in> {1, 2, 4}" "0 \<le> r" "r < i"
  shows "compiled_node i ((mk_node (Word Op_load) [] w 0)\<lparr>node_args := [r]\<rparr>)"
  using assms registered_of_arity[of "(mk_node (Word Op_load) [] w 0)\<lparr>node_args := [r]\<rparr>" "Exact 1"]
  by (auto simp: compiled_node_def node_good_def aux_ok_def mk_node_def is_undefined_node_def)

lemma semantic_arity_of:
  "map_of semantic_arity op = Some ar \<Longrightarrow> op_arity (op_of_name op) = Some ar \<and> op_of_name op \<notin> special_ops"
  using semantic_arities by (auto simp: list_all_iff special_ops_def dest!: map_of_SomeD)

lemma fpu_op:
  "op \<in> set fpu_zero_inputs \<Longrightarrow> op_arity (op_of_name op) = Some (Exact 0) \<and> op_of_name op \<notin> special_ops"
  "op_arity (op_of_name ''fpu_tag'') = Some (Exact 0) \<and> op_of_name ''fpu_tag'' \<notin> special_ops"
  "op \<in> {''fpu_control_load'', ''fpu_control_word'', ''fpu_status_word''} \<Longrightarrow>
    op_arity (op_of_name op) = Some (Exact 1) \<and> op_of_name op \<notin> special_ops"
  using fpu_input_arities fpu_load_arities by (auto simp: list_all_iff special_ops_def)

lemma x87_word_shape_ok:
  assumes "x87_word_shape sample op ms = Inr (nd, operands)" "length refs = length operands"
    "\<forall>r\<in>set refs. 0 \<le> r \<and> r < i" "0 \<le> sample"
  shows "compiled_node i (nd\<lparr>node_args := refs\<rparr>)"
proof -
  obtain args where args: "(if op \<in> set fpu_zero_inputs \<and> args = [] then Ok (mk_node (op_of_name op) [] 0 sample, [])
       else if op = ''fpu_tag'' \<and> length args = 1
       then bind (x87_slot (args ! 0)) (\<lambda>slot. Ok (mk_node (op_of_name op) [] slot sample, []))
       else if op \<in> {''fpu_control_load'', ''fpu_control_word'', ''fpu_status_word''} \<and> length args = 1
       then Ok (mk_node (op_of_name op) [] 0 0, args)
       else if op \<in> {''fpu_bits_lo32'', ''fpu_bits_hi32'', ''fpu_fxam''} \<and> length args = 1 then x87_value (args ! 0)
       else if op \<in> {''fpu_cmp_cf'', ''fpu_cmp_pf'', ''fpu_cmp_zf''} \<and> length args = 2 then x87_value (args ! 0)
       else if op = ''fpu_int32'' \<and> length args = 2 then x87_value (args ! 0)
       else malformed) = Inr (nd, operands)"
    using assms(1) unfolding x87_word_shape_def by (rule bind_OkE) blast
  then consider (zero) "op \<in> set fpu_zero_inputs" "nd = mk_node (op_of_name op) [] 0 sample" "operands = []"
    | (tag) slot where "op = ''fpu_tag''" "nd = mk_node (op_of_name op) [] slot sample" "operands = []" "0 \<le> slot"
    | (one) a where "op \<in> {''fpu_control_load'', ''fpu_control_word'', ''fpu_status_word''}"
        "nd = mk_node (op_of_name op) [] 0 0" "operands = [a]"
    by (auto simp: malformed_def field_iffs bind_eq_Ok length_Suc_conv split: if_split_asm)
  then show ?thesis
  proof cases
    case zero
    then show ?thesis using fpu_op(1)[OF zero(1)] assms(2,4) by (auto intro!: plain_node)
  next
    case tag
    then show ?thesis using fpu_op(2) assms(2,4) by (auto intro!: plain_node)
  next
    case one
    then show ?thesis using fpu_op(3)[OF one(1)] assms(2,3) plain_node[of "op_of_name op" "Exact 1" refs i 0 0] by simp
  qed
qed

lemma shift_shape_ok:
  assumes "shift_shape op ms = Inr (nd, operands)" "op \<in> {''shift_cf'', ''shift_of''}" "length refs = length operands"
    "\<forall>r\<in>set refs. 0 \<le> r \<and> r < i"
  shows "compiled_node i (nd\<lparr>node_args := refs\<rparr>)"
proof -
  obtain args w where a: "length args = (if op = ''shift_cf'' then 4 else 5)" "operands = drop 2 args" "width_bits_field (args ! 1) = Inr w"
    "nd = mk_node (op_of_name op) []
       (((case map_of shift_kinds (py_str (args ! 0)) of None \<Rightarrow> 0 | Some k \<Rightarrow> k) * 256) OR w) 0"
    using assms(1) unfolding shift_shape_def malformed_def Let_def
    by (auto elim!: bind_OkE split: if_split_asm)
  define k where "k = (case map_of shift_kinds (py_str (args ! 0)) of None \<Rightarrow> 0 | Some k \<Rightarrow> k)"
  have "0 \<le> k" "0 \<le> w" and nd: "nd = mk_node (op_of_name op) [] ((k * 256) OR w) 0"
    using a(3,4) shift_kind_nonneg by (auto simp: k_def field_iffs split: option.split)
  then have "length refs = (if op = ''shift_cf'' then 2 else 3)" "0 \<le> (k * 256) OR w" using assms(3) a(1,2) by auto
  with nd assms(2,4) show ?thesis
    by (auto intro!: plain_node simp: special_ops_def)
qed

lemma call_value_shape_ok:
  assumes "call_value_shape available op ms = Inr (nd, operands)" "op \<in> {''call_response'', ''call_flag''}"
  shows "compiled_node i (nd\<lparr>node_args := []\<rparr>)" "operands = []"
proof -
  obtain field k j where f: "nd = mk_node (op_of_name op) [] j k" "operands = []" "0 \<le> k"
    "(if op = ''call_response'' then register_slot field else flag_slot field) = Inr j"
    using assms(1) by (auto simp: call_value_shape_def malformed_def field_iffs bind_eq_Ok split: if_split_asm)
  from f(4) have "0 \<le> j" "op = ''call_response'' \<longrightarrow> j < 8" "op \<noteq> ''call_response'' \<longrightarrow> j < 7"
    using slot_bounds by (auto split: if_split_asm)
  then show "compiled_node i (nd\<lparr>node_args := []\<rparr>)" "operands = []"
    using f(1-3) assms(2) by (auto intro!: leaf_node)
qed

lemma operand_arity_Ok: "operand_arity op n = Inr () \<Longrightarrow> map_of semantic_arity op = Some ar \<Longrightarrow> arity_ok (int n) ar"
  by (auto simp: operand_arity_def malformed_def split: if_split_asm)

lemma node_shape_ok:
  assumes shape: "node_shape loc available op ms = Inr (nd, operands)" and refs: "length refs = length operands"
    "\<forall>r\<in>set refs. 0 \<le> r \<and> r < i" and ar: "operand_arity op (length refs) = Inr ()"
  shows "compiled_node i (nd\<lparr>node_args := refs\<rparr>)"
proof -
  consider "op \<in> {''const'', ''reg'', ''flag'', ''fs_base'', ''true'', ''false''}"
    | "op \<in> {''undefined_bv'', ''undefined_flag''}" | "op \<in> {''call_response'', ''call_flag''}" | "op = ''load''"
    | "take 4 op = ''fpu_''" "node_shape loc available op ms = x87_word_shape (of_bool loc) op ms"
    | "op \<in> {''shift_cf'', ''shift_of''}"
    | ar args where "map_of semantic_arity op = Some ar" "nd = mk_node (op_of_name op) [] 0 0" "operands = args"
    using shape by (auto simp: node_shape_def Let_def malformed_def bind_eq_Ok split: if_split_asm option.split_asm)
  then show ?thesis
  proof cases
    case 1
    then have "refs = []" "compiled_node i (nd\<lparr>node_args := []\<rparr>)"
      using shape refs(1) slot_bounds u32_wrapping_Ok
      by (auto simp: node_shape_def Let_def bind_eq_Ok intro!: leaf_node)
    then show ?thesis by simp
  next
    case 2
    then have "nd = (mk_node (op_of_name op) [] 0 (stable_slot (undefined_label ms)))\<lparr>node_identity := Some (undefined_label ms)\<rparr>"
      "length operands \<le> 1"
      using shape by (auto simp: node_shape_def undefined_shape_def Let_def)
    with 2 refs show ?thesis by (auto intro!: undefined_node simp: undefined_label_nonempty)
  next
    case 3
    then have "call_value_shape available op ms = Inr (nd, operands)" using shape by (auto simp: node_shape_def Let_def)
    from call_value_shape_ok[OF this 3] refs(1) show ?thesis by simp
  next
    case 4
    then obtain w where "w \<in> {1, 2, 4}" "nd = mk_node (Word Op_load) [] w 0" "operands = [jget ms ''address'']"
      using shape by (auto simp: node_shape_def Let_def bind_eq_Ok field_iffs)
    with refs show ?thesis by (auto simp: length_Suc_conv intro!: load_node)
  next
    case 5
    with shape refs show ?thesis by (intro x87_word_shape_ok[of "of_bool loc" op ms nd operands]) simp_all
  next
    case 6
    then have "shift_shape op ms = Inr (nd, operands)" using shape by (auto simp: node_shape_def Let_def)
    from shift_shape_ok[OF this 6 refs] show ?thesis .
  next
    case 7
    with refs semantic_arity_of[OF 7(1)] operand_arity_Ok[OF ar 7(1)] show ?thesis by (auto intro!: plain_node)
  qed
qed

section \<open>Words\<close>

text \<open>Only the graph grows: nodes are appended, and the tables of known nodes change.\<close>

definition graph_step :: "cstate \<Rightarrow> cstate \<Rightarrow> bool" where
  "graph_step s s' \<longleftrightarrow> (\<exists>ns memo deps. s' = s\<lparr>cn_nodes := cn_nodes s @ ns, cn_memo := memo, cn_deps := deps\<rparr>)"

lemma graph_step_refl [simp]: "graph_step s s"
  unfolding graph_step_def by (rule exI[of _ "[]"], rule exI[of _ "cn_memo s"], rule exI[of _ "cn_deps s"]) simp

lemma graph_step_trans [trans]: "graph_step s t \<Longrightarrow> graph_step t u \<Longrightarrow> graph_step s u"
  by (fastforce simp: graph_step_def)

lemma update_range: "snd ` set (AList.update k v al) \<subseteq> insert v (snd ` set al)"
  by (induction al) auto

lemma add_node_step:
  assumes "add_node key deps nd s = Inr (i, s')" "graph_ok s" "compiled_node (int (length (cn_nodes s))) nd"
  shows "graph_ok s' \<and> graph_step s s' \<and> i = int (length (cn_nodes s)) \<and> cn_nodes s' = cn_nodes s @ [nd]"
proof -
  have s': "s' = s\<lparr>cn_nodes := cn_nodes s @ [nd], cn_memo := AList.update key i (cn_memo s),
      cn_deps := AList.update key deps (cn_deps s)\<rparr>" "i = int (length (cn_nodes s))"
    using assms(1) by (auto simp: add_node_def cbind_Ok)
  moreover have "graph_ok s'"
    using assms(2,3) update_range[of key i "cn_memo s"] unfolding s' graph_ok_def
    by (fastforce simp: nth_append less_Suc_eq)
  moreover have "graph_step s s'"
    unfolding graph_step_def s'(1) by blast
  ultimately show ?thesis by simp
qed

interpretation graph: growing_state graph_ok graph_step
  by unfold_locales (auto intro: graph_step_trans)

definition node_at :: "cstate \<Rightarrow> int \<Rightarrow> bool" where
  "node_at s i \<longleftrightarrow> 0 \<le> i \<and> i < int (length (cn_nodes s))"

lemma node_at_step: "node_at s i \<Longrightarrow> graph_step s s' \<Longrightarrow> node_at s' i"
  by (auto simp: node_at_def graph_step_def)

lemma word_index_SucE:
  assumes "word_index (Suc depth) raw s = Inr (i, s')"
  obtains (known) ms where "word_expression raw = Inr ms" "map_of (cn_memo s) (canonical_json (JObj ms)) = Some i" "s' = s"
  | (fresh) ms op nd operands refs t where "word_expression raw = Inr ms"
      "map_of (cn_memo s) (canonical_json (JObj ms)) = None" "string_field (jget ms ''op'') = Inr op"
      "node_shape (cn_local s) (cn_available s) op ms = Inr (nd, operands)"
      "mapC (word_index depth) operands s = Inr (refs, t)" "operand_arity op (length refs) = Inr ()"
      "add_node (canonical_json (JObj ms)) (memory_dependency_keys (JObj ms)) (nd\<lparr>node_args := refs\<rparr>) t = Inr (i, s')"
proof -
  obtain ms where ms: "word_expression raw = Inr ms" using assms by (auto simp: cbind_Ok)
  show ?thesis
  proof (cases "map_of (cn_memo s) (canonical_json (JObj ms))")
    case None
    with assms ms fresh show ?thesis
      by (auto simp: cbind_Ok Let_def simp del: memory_dependency_keys.simps)
  next
    case (Some k)
    with assms ms known show ?thesis by (auto simp: cbind_Ok Let_def)
  qed
qed

lemma stable_node_at [intro!]: "graph.stable (\<lambda>s. node_at s i)"
  by (auto simp: graph.stable_def intro: node_at_step)

lemma word_index_holds: "graph.holds (\<lambda>_. True) (word_index depth raw) (\<lambda>i s. node_at s i)"
proof (induction depth arbitrary: raw)
  case 0
  show ?case by (rule graph.holdsI) simp
next
  case (Suc depth)
  show ?case
  proof (rule graph.holdsI)
    fix s i s' assume s: "graph_ok s" "word_index (Suc depth) raw s = Inr (i, s')"
    from s(2) show "graph_ok s' \<and> graph_step s s' \<and> node_at s' i"
    proof (cases rule: word_index_SucE)
      case (known ms)
      then show ?thesis using s(1) by (force simp: graph_ok_def node_at_def dest: map_of_SomeD)
    next
      case (fresh ms op nd operands refs t)
      have "graph.holds (\<lambda>_. True) (mapC (word_index depth) operands) (\<lambda>rs s. list_all2 (\<lambda>_ r. node_at s r) operands rs)"
        by (rule graph.holds_mapC) (auto intro: Suc.IH)
      note t = graph.holdsD[OF this s(1) TrueI fresh(5)]
      then have "compiled_node (int (length (cn_nodes t))) (nd\<lparr>node_args := refs\<rparr>)"
        by (intro node_shape_ok[OF fresh(4) _ _ fresh(6)]) (auto simp: node_at_def list_all2_conv_all_nth in_set_conv_nth)
      from add_node_step[OF fresh(7) t(1) this] t(2) show ?thesis
        by (auto simp: node_at_def intro: graph_step_trans)
    qed
  qed
qed

text \<open>The outer call also adds the evaluation of a word that was not evaluated before.\<close>

lemma word_step:
  assumes "word c raw s = Inr (i, s')" "graph_ok s"
  shows "\<exists>t. graph_ok t \<and> graph_step s t \<and> node_at t i
    \<and> s' = (if i \<in> set (cn_scheduled s) then t
        else t\<lparr>cn_actions := cn_actions s @ [mk_action (Eff Op_eval_word) [i] 0], cn_scheduled := i # cn_scheduled s\<rparr>)"
proof -
  obtain t where t: "word_index (cp_depth c) raw s = Inr (i, t)" "schedule i t = Inr ((), s')"
    using assms(1) by (auto simp: word_def cbind_Ok)
  note g = graph.holdsD[OF word_index_holds assms(2) TrueI t(1)]
  then have "cn_actions t = cn_actions s" "cn_scheduled t = cn_scheduled s" by (auto simp: graph_step_def)
  with t(2) g show ?thesis by (intro exI[of _ t]) (auto simp: schedule_def cbind_Ok split: if_split_asm)
qed

end
