(* ===== verification/String_Loops.thy ===== *)
theory String_Loops
  imports Eval_Properties
begin

text \<open>
  The string instructions of the evaluator: where a loop that completes leaves the registers, that
  \<open>rep stos\<close> fills every element, that \<open>rep movs\<close> between disjoint ranges copies every element,
  and that \<open>repe/repne scas\<close> stops at the first match. Addresses wrap around at 32 bits; the
  statements hold for both directions. The memory facts are those of the byte store's contract.
\<close>

section \<open>Cells at multiples of the width\<close>

lemma u32_add_cong: "u32 (u32 a + b) = u32 (a + b)"
  by (simp add: u32_mod mod_simps)

lemma addresses_u32 [simp]: "addresses (u32 a) w = addresses a w"
  by (simp add: addresses_def u32_add_cong)

lemma read_u32 [simp]: "memory_read m (u32 a) w = memory_read m a w"
  by (auto simp: memory_read_eq memory_cells_def u32_add_cong)

lemma write_u32 [simp]: "memory_write m (u32 a) w v = memory_write m a w v"
  by (auto simp: memory_write_eq memory_cells_def)

lemma cells_u32 [simp]: "memory_cells (u32 a) w = memory_cells a w"
  by (simp add: memory_cells_def)

text \<open>Two cells a multiple of the width apart are the same cell or disjoint.\<close>

lemma aligned_cells:
  assumes w: "access_width w" and d: "w dvd a - b" and meet: "memory_cells a w \<inter> memory_cells b w \<noteq> {}"
  shows "u32 a = u32 b"
proof -
  obtain i j where ij: "i < nat w" "j < nat w" "u32 (a + int i) = u32 (b + int j)"
    using meet by (auto simp: memory_cells_def addresses_def)
  then have p: "(2::int) ^ 32 dvd (a + int i) - (b + int j)"
    by (simp add: u32_mod mod_eq_dvd_iff)
  moreover have "w dvd 2 ^ 32" using w by (auto simp: access_width_def)
  ultimately have "w dvd (a + int i) - (b + int j)" by (rule dvd_trans[rotated])
  then have "w dvd (a - b) + (int i - int j)" by (simp add: algebra_simps)
  then have "w dvd int i - int j" using d by (simp add: dvd_add_right_iff)
  moreover have "\<bar>int i - int j\<bar> < w" using ij by auto
  ultimately have "int i = int j"
    using zdvd_not_zless[of "\<bar>int i - int j\<bar>" w] by auto
  then show ?thesis using p by (simp add: u32_mod mod_eq_dvd_iff)
qed

lemma read_same_cell: "u32 a = u32 b \<Longrightarrow> memory_read m a w = memory_read m b w"
  using read_u32[of m a w] read_u32[of m b w] by simp

lemma cells_same: "u32 a = u32 b \<Longrightarrow> memory_cells a w = memory_cells b w"
  using cells_u32[of a w] cells_u32[of b w] by simp

text \<open>The address of the next element, with the pointer wrapped at every step.\<close>

lemma next_address: "u32 (u32 (dst + stp) + int i * stp) = u32 (dst + int (Suc i) * stp)"
  unfolding u32_add_cong by (simp add: algebra_simps)

lemmas next_cells = cells_same[OF next_address]
lemmas next_read = read_same_cell[OF next_address]

section \<open>Storing\<close>

lemma store_loop_None_step:
  assumes "store_loop (Suc k) dst v stp w s m = (None, s', m')"
  shows "\<exists>m1. memory_write m dst w v = Inr m1 \<and>
    store_loop k (u32 (dst + stp)) v stp w (set_register ECX (int k) (set_register EDI (u32 (dst + stp)) s)) m1 = (None, s', m')"
  using assms by (auto simp: Let_def split: sum.splits)

lemma store_frame:
  assumes "wf_memory m" "store_loop k dst v stp w s m = (None, s', m')"
    "\<And>i. i < k \<Longrightarrow> memory_cells (dst + int i * stp) w \<inter> memory_cells a u = {}"
  shows "wf_memory m' \<and> memory_read m' a u = memory_read m a u"
  using assms
proof (induction k arbitrary: dst s m)
  case (Suc k)
  obtain m1 where m1: "memory_write m dst w v = Inr m1"
    and rest: "store_loop k (u32 (dst + stp)) v stp w (set_register ECX (int k) (set_register EDI (u32 (dst + stp)) s)) m1 = (None, s', m')"
    using store_loop_None_step[OF Suc.prems(2)] by blast
  have "memory_cells (u32 (dst + stp) + int i * stp) w \<inter> memory_cells a u = {}" if "i < k" for i
    using Suc.prems(3)[of "Suc i"] that unfolding next_cells by simp
  from Suc.IH[OF mem.write_valid[OF Suc.prems(1) m1] rest this]
  show ?case using mem.read_other[OF Suc.prems(1) m1, of a u] Suc.prems(3)[of 0] by simp
qed simp

lemma store_fills:
  assumes "wf_memory m" "store_loop k dst v stp w s m = (None, s', m')" "\<bar>stp\<bar> = w" "i < k"
  shows "memory_read m' (dst + int i * stp) w = Inr (take_bit (nat (8 * w)) v)"
  using assms
proof (induction k arbitrary: dst s m i)
  case (Suc k)
  obtain m1 where m1: "memory_write m dst w v = Inr m1"
    and rest: "store_loop k (u32 (dst + stp)) v stp w (set_register ECX (int k) (set_register EDI (u32 (dst + stp)) s)) m1 = (None, s', m')"
    using store_loop_None_step[OF Suc.prems(2)] by blast
  have wf: "wf_memory m1" by (rule mem.write_valid[OF Suc.prems(1) m1])
  have w: "access_width w" using m1 by (simp add: memory_write_eq split: if_splits)
  have later: "memory_read m' (dst + int (Suc j) * stp) w = Inr (take_bit (nat (8 * w)) v)" if "j < k" for j
    using Suc.IH[OF wf rest Suc.prems(3) that] by (simp only: next_read)
  show ?case
  proof (cases i)
    case (Suc j)
    then show ?thesis using later Suc.prems(4) by simp
  next
    case 0
    show ?thesis
    proof (cases "\<exists>j<k. memory_cells (dst + int (Suc j) * stp) w \<inter> memory_cells dst w \<noteq> {}")
      case True
      then obtain j where j: "j < k" "memory_cells (dst + int (Suc j) * stp) w \<inter> memory_cells dst w \<noteq> {}"
        by blast
      have "w dvd (dst + int (Suc j) * stp) - dst" using Suc.prems(3) by (auto simp: abs_if split: if_splits)
      from read_same_cell[OF aligned_cells[OF w this j(2)], of m'] later[OF j(1)] show ?thesis
        by (simp add: 0)
    next
      case False
      have "memory_cells (u32 (dst + stp) + int j * stp) w \<inter> memory_cells dst w = {}" if "j < k" for j
        using False that unfolding next_cells by blast
      from store_frame[OF wf rest this] show ?thesis
        using 0 mem.read_same[OF Suc.prems(1) m1] by simp
    qed
  qed
qed simp

section \<open>Moving\<close>

lemma move_loop_None_step:
  assumes "move_loop (Suc k) src dst stp w s m = (None, s', m')"
  shows "\<exists>v m1. memory_read m src w = Inr v \<and> memory_write m dst w v = Inr m1 \<and>
    move_loop k (u32 (src + stp)) (u32 (dst + stp)) stp w
      (set_esi_edi_ecx (u32 (src + stp)) (u32 (dst + stp)) (int k) s) m1 = (None, s', m')"
  using assms by (auto simp: Let_def bind_eq_Ok split: sum.splits)

lemma move_frame:
  assumes "wf_memory m" "move_loop k src dst stp w s m = (None, s', m')"
    "\<And>i. i < k \<Longrightarrow> memory_cells (dst + int i * stp) w \<inter> memory_cells a u = {}"
  shows "memory_read m' a u = memory_read m a u"
  using assms
proof (induction k arbitrary: src dst s m)
  case (Suc k)
  obtain v m1 where m1: "memory_write m dst w v = Inr m1"
    and rest: "move_loop k (u32 (src + stp)) (u32 (dst + stp)) stp w
      (set_esi_edi_ecx (u32 (src + stp)) (u32 (dst + stp)) (int k) s) m1 = (None, s', m')"
    using move_loop_None_step[OF Suc.prems(2)] by blast
  have "memory_cells (u32 (dst + stp) + int i * stp) w \<inter> memory_cells a u = {}" if "i < k" for i
    using Suc.prems(3)[of "Suc i"] that unfolding next_cells by simp
  from Suc.IH[OF mem.write_valid[OF Suc.prems(1) m1] rest this]
  show ?case using mem.read_other[OF Suc.prems(1) m1, of a u] Suc.prems(3)[of 0] by simp
qed simp

lemma move_copies:
  assumes "wf_memory m" "move_loop k src dst stp w s m = (None, s', m')" "\<bar>stp\<bar> = w" "i < k"
    "\<And>i j. i < k \<Longrightarrow> j < k \<Longrightarrow> memory_cells (dst + int i * stp) w \<inter> memory_cells (src + int j * stp) w = {}"
  shows "memory_read m' (dst + int i * stp) w = memory_read m (src + int i * stp) w"
  using assms
proof (induction k arbitrary: src dst s m i)
  case (Suc k)
  obtain v m1 where v: "memory_read m src w = Inr v" and m1: "memory_write m dst w v = Inr m1"
    and rest: "move_loop k (u32 (src + stp)) (u32 (dst + stp)) stp w
      (set_esi_edi_ecx (u32 (src + stp)) (u32 (dst + stp)) (int k) s) m1 = (None, s', m')"
    using move_loop_None_step[OF Suc.prems(2)] by blast
  have wf: "wf_memory m1" by (rule mem.write_valid[OF Suc.prems(1) m1])
  have w: "access_width w" using m1 by (simp add: memory_write_eq split: if_splits)
  have disj: "memory_cells (u32 (dst + stp) + int i * stp) w \<inter> memory_cells (u32 (src + stp) + int j * stp) w = {}"
    if "i < k" "j < k" for i j
    using Suc.prems(5)[of "Suc i" "Suc j"] that unfolding next_cells by simp
  have src1: "memory_read m1 (src + int j * stp) w = memory_read m (src + int j * stp) w" if "j < Suc k" for j
    using mem.read_other[OF Suc.prems(1) m1] Suc.prems(5)[of 0 j] that by simp
  have later: "memory_read m' (dst + int (Suc j) * stp) w = memory_read m (src + int (Suc j) * stp) w" if "j < k" for j
    using Suc.IH[OF wf rest Suc.prems(3) that disj] src1[of "Suc j"] that by (simp only: next_read)
  show ?case
  proof (cases i)
    case (Suc j)
    then show ?thesis using later Suc.prems(4) by simp
  next
    case 0
    show ?thesis
    proof (cases "\<exists>j<k. memory_cells (dst + int (Suc j) * stp) w \<inter> memory_cells dst w \<noteq> {}")
      case True
      then obtain j where j: "j < k" "memory_cells (dst + int (Suc j) * stp) w \<inter> memory_cells dst w \<noteq> {}"
        by blast
      have "w dvd (dst + int (Suc j) * stp) - dst" using Suc.prems(3) by (auto simp: abs_if split: if_splits)
      note same = aligned_cells[OF w this j(2)]
      then have "u32 (src + int (Suc j) * stp) = u32 src"
        by (simp add: u32_mod mod_eq_dvd_iff)
      from read_same_cell[OF this, of m] read_same_cell[OF same, of m'] later[OF j(1)] show ?thesis
        by (simp add: 0)
    next
      case False
      have "memory_cells (u32 (dst + stp) + int j * stp) w \<inter> memory_cells dst w = {}" if "j < k" for j
        using False that unfolding next_cells by blast
      from move_frame[OF wf rest this] show ?thesis
        using mem.move_cell[OF Suc.prems(1) v m1] v by (simp add: 0)
    qed
  qed
qed simp

section \<open>Registers\<close>

lemma set_register_other: "r \<noteq> q \<Longrightarrow> registers (set_register r v s) q = registers s q"
  by (simp add: set_register_def)

lemma set_register_same: "registers (set_register r v s) r = v"
  by (simp add: set_register_def)

lemmas register_simps = set_register_other set_register_same set_esi_edi_ecx_def

lemma move_registers:
  assumes "move_loop k src dst stp w s m = (None, s', m')"
    "registers s ESI = u32 src" "registers s EDI = u32 dst" "registers s ECX = int k"
  shows "registers s' ESI = u32 (src + int k * stp) \<and> registers s' EDI = u32 (dst + int k * stp)
    \<and> registers s' ECX = 0 \<and> (\<forall>r. r \<notin> {ESI, EDI, ECX} \<longrightarrow> registers s' r = registers s r) \<and> flags s' = flags s"
  using assms
proof (induction k arbitrary: src dst s m)
  case (Suc k)
  from move_loop_None_step[OF Suc.prems(1)] obtain m1 where
    "move_loop k (u32 (src + stp)) (u32 (dst + stp)) stp w
      (set_esi_edi_ecx (u32 (src + stp)) (u32 (dst + stp)) (int k) s) m1 = (None, s', m')" by blast
  from Suc.IH[OF this] show ?case
    by (simp add: register_simps next_address) (simp add: set_register_def)
qed simp

lemma store_registers:
  assumes "store_loop k dst v stp w s m = (None, s', m')"
    "registers s EDI = u32 dst" "registers s ECX = int k"
  shows "registers s' EDI = u32 (dst + int k * stp) \<and> registers s' ECX = 0
    \<and> (\<forall>r. r \<notin> {EDI, ECX} \<longrightarrow> registers s' r = registers s r) \<and> flags s' = flags s"
  using assms
proof (induction k arbitrary: dst s m)
  case (Suc k)
  from store_loop_None_step[OF Suc.prems(1)] obtain m1 where
    "store_loop k (u32 (dst + stp)) v stp w (set_register ECX (int k) (set_register EDI (u32 (dst + stp)) s)) m1 = (None, s', m')"
    by blast
  from Suc.IH[OF this] show ?case
    by (simp add: register_simps next_address) (simp add: set_register_def)
qed simp

section \<open>Scanning\<close>

lemma sync_eflags_other: "registers (sync_eflags s) = registers s \<and> flags (sync_eflags s) = flags s"
  by (simp add: sync_eflags_def eflags_bits_def)

lemma scan_flags_spec:
  "\<exists>s'. scan_flags al item s = Inr s' \<and> registers s' = registers s
    \<and> flags s' ZF = of_bool ((al - item) AND 0xFF = 0) \<and> flags s' CF = of_bool (al < item)"
  by (simp add: scan_flags_def Let_def set_flag_def sync_eflags_other)

lemma byte_difference:
  assumes "0 \<le> a" "a < 256" "0 \<le> b" "b < 256"
  shows "(a - b) AND 0xFF = 0 \<longleftrightarrow> a = (b::int)"
proof -
  have "(a - b) AND 0xFF = 0 \<longleftrightarrow> 256 dvd a - b"
    by (simp add: mask_simps take_bit_eq_mod mod_eq_0_iff_dvd)
  also have "\<dots> \<longleftrightarrow> a = b"
  proof
    assume d: "256 dvd a - b"
    have "\<bar>a - b\<bar> < 256" using assms by (simp add: abs_less_iff)
    with zdvd_not_zless[of "\<bar>a - b\<bar>" 256] d show "a = b" by auto
  qed simp
  finally show ?thesis .
qed

lemma scan_loop_spec:
  assumes "wf_memory m" "0 \<le> al" "al < 256" "scan_loop k al dst stp s m = (None, s', m')" "0 < k"
  shows "m' = m \<and> (\<exists>n<k. registers s' EDI = u32 (dst + int (Suc n) * stp) \<and> registers s' ECX = int (k - Suc n)
    \<and> (\<forall>i<n. memory_read m (dst + int i * stp) 1 \<noteq> Inr al)
    \<and> flags s' ZF = of_bool (memory_read m (dst + int n * stp) 1 = Inr al)
    \<and> (Suc n < k \<longrightarrow> flags s' ZF = 1))"
  using assms(4,5)
proof (induction k arbitrary: dst s)
  case (Suc k)
  define s1 where "s1 = set_register ECX (int k) (set_register EDI (u32 (dst + stp)) s)"
  obtain item where item: "memory_read m dst 1 = Inr item"
    using Suc.prems(1) by (auto split: sum.splits)
  obtain s2 where s2: "scan_flags al item s1 = Inr s2" "registers s2 = registers s1"
    "flags s2 ZF = of_bool ((al - item) AND 0xFF = 0)"
    using scan_flags_spec[of al item s1] by blast
  have eq: "(al - item) AND 0xFF = 0 \<longleftrightarrow> al = item"
    using memory_read_range[OF assms(1) item] assms(2,3) by (intro byte_difference) auto
  have loop: "(if al = item then (None, s2, m) else scan_loop k al (u32 (dst + stp)) stp s2 m) = (None, s', m')"
    using Suc.prems(1) item s2(1) eq by (simp add: Let_def flip: s1_def)
  show ?case
  proof (cases "al = item \<or> k = 0")
    case True
    then have "m' = m" "s' = s2" using loop by (auto split: if_splits)
    then show ?thesis using s2(2,3) eq item True
      by (auto simp: s1_def register_simps intro!: exI[of _ 0])
  next
    case False
    then have rest: "scan_loop k al (u32 (dst + stp)) stp s2 m = (None, s', m')" "0 < k" using loop by auto
    obtain n where n: "m' = m" "n < k" "registers s' EDI = u32 (u32 (dst + stp) + int (Suc n) * stp)"
      "registers s' ECX = int (k - Suc n)"
      "\<forall>i<n. memory_read m (u32 (dst + stp) + int i * stp) 1 \<noteq> Inr al"
      "flags s' ZF = of_bool (memory_read m (u32 (dst + stp) + int n * stp) 1 = Inr al)"
      "Suc n < k \<longrightarrow> flags s' ZF = 1"
      using Suc.IH[OF rest] by blast
    have "\<forall>i<Suc n. memory_read m (dst + int i * stp) 1 \<noteq> Inr al"
      using n(5) item False unfolding next_read by (auto simp: less_Suc_eq_0_disj)
    then show ?thesis
      using n by (intro conjI exI[of _ "Suc n"]) (simp_all only: next_read next_address diff_Suc_Suc Suc_less_eq)
  qed
qed simp

end
