(* ===== verification/Eval_Case.thy ===== *)
theory Eval_Case
  imports String_Loops "HOL-Library.Sublist"
begin

text \<open>
  A whole case: the trace is the chain of transfers the control flow visits, the atomic exchange
  operations as state transformers, the greedy minimisation of a mismatching case
  (\<open>minimize_mismatch_case\<close>), and the exceptions that leave a transfer and the whole case.
\<close>

section \<open>The trace\<close>

fun chain :: "(int \<times> transfer) list \<Rightarrow> int \<Rightarrow> trace_entry list \<Rightarrow> bool" where
  "chain tab cur [] = True"
| "chain tab cur (t # ts) =
     (entry_rva t = cur \<and> (\<exists>tr. map_of tab cur = Some tr \<and> unit_id t = identity tr)
      \<and> (ts = [] \<or> continues (entry_result t)) \<and> chain tab (target_rva (entry_result t)) ts)"

lemma run_case_trace:
  assumes "run_case k ev tab cur r s m trc = Inr ob"
  shows "\<exists>new. obs_trace ob = trc @ new \<and> chain tab cur new \<and> length new \<le> k
    \<and> obs_result ob = (if new = [] then r else entry_result (last new))
    \<and> (length new = k \<or> (new \<noteq> [] \<and> \<not> continues (obs_result ob))
       \<or> map_of tab (if new = [] then cur else target_rva (obs_result ob)) = None)"
  using assms
proof (induction k arbitrary: cur r s m trc)
  case 0
  then show ?case by (subst (asm) run_case.simps) auto
next
  case (Suc k)
  show ?case
  proof (cases "map_of tab cur")
    case None
    have "obs_trace ob = trc \<and> obs_result ob = r"
      using Suc.prems by (subst (asm) run_case.simps) (auto simp: None)
    then show ?thesis using None by (intro exI[of _ "[]"]) simp
  next
    case (Some tr)
    obtain r' s' m' where e: "ev tr s m = Inr (r', s', m')"
      using Suc.prems by (subst (asm) run_case.simps) (auto simp: Some bind_eq_Ok)
    define t where "t = \<lparr>unit_id = identity tr, entry_rva = cur, entry_result = r'\<rparr>"
    show ?thesis
    proof (cases "continues r'")
      case True
      then have "run_case k ev tab (target_rva r') r' s' m' (trc @ [t]) = Inr ob"
        using Suc.prems by (subst (asm) run_case.simps) (simp add: Some e Let_def t_def)
      from Suc.IH[OF this] obtain new where new: "obs_trace ob = (trc @ [t]) @ new" "chain tab (target_rva r') new"
        "length new \<le> k" "obs_result ob = (if new = [] then r' else entry_result (last new))"
        "length new = k \<or> (new \<noteq> [] \<and> \<not> continues (obs_result ob))
          \<or> map_of tab (if new = [] then target_rva r' else target_rva (obs_result ob)) = None"
        by blast
      then show ?thesis using True Some
        by (intro exI[of _ "t # new"]) (auto simp: t_def)
    next
      case False
      then have "obs_trace ob = trc @ [t]" "obs_result ob = r'"
        using Suc.prems by (subst (asm) run_case.simps, auto simp add: Some e Let_def t_def)+
      then show ?thesis using False Some by (intro exI[of _ "[t]"]) (auto simp: t_def)
    qed
  qed
qed

section \<open>Atomic exchanges\<close>

text \<open>
  With its operands cached and the cell mapped, a compare-and-exchange always succeeds, remembers
  the old value under the node of its last operand, and stores exactly on equality.
\<close>

lemma exchange_next:
  assumes m: "wf_memory (cfg_memory c)" and old: "memory_read (cfg_memory c) addr w = Inr old"
    and args: "act_args a = [i, j, d, t]" "act_aux a = w"
    and ws: "map_of (cfg_words c) i = Some addr" "map_of (cfg_words c) j = Some expected"
      "map_of (cfg_words c) d = Some desired"
  shows "\<exists>m'. exchange_step c a True = Next (c\<lparr>cfg_memory := m', cfg_words := AList.update t old (cfg_words c)\<rparr>)
    \<and> wf_memory m' \<and> memory_read m' addr w
        = Inr (if old = take_bit (nat (8 * w)) expected then take_bit (nat (8 * w)) desired else old)"
proof -
  have w: "access_width w" using old by (simp add: memory_read_eq split: if_splits)
  have mask: "py_shl 1 (8 * w) = Inr (2 ^ nat (8 * w))" "expected AND (2 ^ nat (8 * w) - 1) = take_bit (nat (8 * w)) expected"
    using access_width_le[OF w] by (simp_all add: py_shl_def push_bit_eq_mult take_bit_eq_mask mask_eq_exp_minus_1)
  obtain m1 where m1: "memory_write (cfg_memory c) addr w desired = Inr m1"
    using mem.write_after_read[OF m old] by blast
  have keep: "c\<lparr>cfg_memory := cfg_memory c, cfg_words := ws\<rparr> = c\<lparr>cfg_words := ws\<rparr>" for ws
    by simp
  have st: "exchange_step c a True = Next (c\<lparr>cfg_memory := (if old = take_bit (nat (8 * w)) expected
      then m1 else cfg_memory c), cfg_words := AList.update t old (cfg_words c)\<rparr>)"
    using old mask by (simp add: exchange_step_def args ws cached_def catch_def Let_def m1 keep
        numeral_2_eq_2 numeral_3_eq_3)
  show ?thesis
    unfolding st using old m mem.write_valid[OF m m1] mem.read_same[OF m m1] by (intro exI[of _ "if old = take_bit (nat (8 * w)) expected then m1 else cfg_memory c"]) simp
qed

section \<open>Minimising a mismatch\<close>

text \<open>
  The runners are parameters. Memory segments are tried from the last to the first, then every
  register and every flag of the state is tried with zero, in the sorted order of the names.
\<close>

type_synonym runner = "members \<Rightarrow> members"

definition differs :: "runner \<Rightarrow> runner \<Rightarrow> members \<Rightarrow> bool" where
  "differs expected observed c = observations_differ (expected c) (observed c)"

definition drop_nth :: "nat \<Rightarrow> 'a list \<Rightarrow> 'a list" where
  "drop_nth k xs = take k xs @ drop (Suc k) xs"

definition without_segment :: "members \<Rightarrow> nat \<Rightarrow> members" where
  "without_segment c k =
     (case jget c ''memory'' of JList ms \<Rightarrow> AList.update ''memory'' (JList (drop_nth k ms)) c | _ \<Rightarrow> c)"

definition with_zero :: "string \<Rightarrow> string \<Rightarrow> members \<Rightarrow> members" where
  "with_zero inventory name c =
     (case jget c ''state'' of
        JObj st \<Rightarrow> (case jget st inventory of
          JObj fl \<Rightarrow> AList.update ''state'' (JObj (AList.update inventory (JObj (AList.update name (JInt 0) fl)) st)) c
        | _ \<Rightarrow> c)
      | _ \<Rightarrow> c)"

definition try_shrink :: "runner \<Rightarrow> runner \<Rightarrow> members \<Rightarrow> members \<Rightarrow> members" where
  "try_shrink ex obs c proposal = (if differs ex obs proposal then proposal else c)"

definition field_names :: "members \<Rightarrow> string \<Rightarrow> string list" where
  "field_names c inventory =
     (case jget c ''state'' of
        JObj st \<Rightarrow> (case jget st inventory of JObj fl \<Rightarrow> sort (map fst fl) | _ \<Rightarrow> [])
      | _ \<Rightarrow> [])"

definition shrink_memory :: "runner \<Rightarrow> runner \<Rightarrow> members \<Rightarrow> members" where
  "shrink_memory ex obs c =
     foldl (\<lambda>c k. try_shrink ex obs c (without_segment c k)) c
       (case jget c ''memory'' of JList ms \<Rightarrow> rev [0..<length ms] | _ \<Rightarrow> [])"

definition shrink_inventory :: "runner \<Rightarrow> runner \<Rightarrow> members \<Rightarrow> string \<Rightarrow> members \<Rightarrow> members" where
  "shrink_inventory ex obs c0 inventory c =
     foldl (\<lambda>c name. try_shrink ex obs c (with_zero inventory name c)) c (field_names c0 inventory)"

definition minimize_mismatch_case :: "members \<Rightarrow> runner \<Rightarrow> runner \<Rightarrow> members res" where
  "minimize_mismatch_case c ex obs =
     (if \<not> differs ex obs c then Raise (Plan_error ''cannot minimize a matching differential case'')
      else let c1 = shrink_memory ex obs c
           in Ok (shrink_inventory ex obs c1 ''flags'' (shrink_inventory ex obs c1 ''registers'' c1)))"

lemma fold_invariant:
  "(\<And>c x. x \<in> set xs \<Longrightarrow> P c \<Longrightarrow> P (f c x)) \<Longrightarrow> P c \<Longrightarrow> P (foldl f c xs)"
  by (induction xs arbitrary: c) auto

lemma try_shrink_differs: "differs ex obs c \<Longrightarrow> differs ex obs (try_shrink ex obs c p)"
  by (simp add: try_shrink_def)

lemma minimize_differs: "minimize_mismatch_case c ex obs = Inr c' \<Longrightarrow> differs ex obs c \<and> differs ex obs c'"
  unfolding minimize_mismatch_case_def shrink_memory_def shrink_inventory_def Let_def
  by (auto split: if_splits intro!: fold_invariant[where P = "differs ex obs"] try_shrink_differs)

text \<open>What a shrunk case may look like: segments removed, register and flag fields zeroed.\<close>

definition segments :: "members \<Rightarrow> json list" where
  "segments c = (case jget c ''memory'' of JList ms \<Rightarrow> ms | _ \<Rightarrow> [])"

lemma drop_nth_subseq: "subseq (drop_nth k xs) xs"
proof -
  have "subseq (take k xs @ drop (Suc k) xs) (take k xs @ drop k xs)"
    by (rule list_emb_append_mono[OF subseq_order.refl])
      (metis drop_Suc subseq_order.refl drop_Suc tl_drop suffix_imp_subseq suffix_tl)
  then show ?thesis by (simp add: drop_nth_def)
qed

lemma jget_update: "jget (AList.update k v ms) k' = (if k' = k then v else jget ms k')"
  by (simp add: jget_def update_conv')

lemma shrink_segments:
  "subseq (segments (try_shrink ex obs c (without_segment c k))) (segments c)"
  "segments (try_shrink ex obs c (with_zero inventory name c)) = segments c"
  by (auto simp: try_shrink_def without_segment_def with_zero_def segments_def jget_update drop_nth_subseq
      split: json.splits)

lemma minimize_segments: "minimize_mismatch_case c ex obs = Inr c' \<Longrightarrow> subseq (segments c') (segments c)"
proof -
  have a: "subseq (segments (shrink_memory ex obs c)) (segments c)"
    unfolding shrink_memory_def
    by (rule fold_invariant[where P = "\<lambda>d. subseq (segments d) (segments c)"])
      (auto intro: subseq_order.trans shrink_segments)
  have b: "segments (shrink_inventory ex obs c0 inventory d) = segments d" for c0 inventory d
    unfolding shrink_inventory_def
    by (rule fold_invariant[where P = "\<lambda>e. segments e = segments d"]) (auto simp: shrink_segments)
  show "minimize_mismatch_case c ex obs = Inr c' \<Longrightarrow> ?thesis"
    using a by (auto simp: minimize_mismatch_case_def Let_def b split: if_splits)
qed

section \<open>Exceptions that escape\<close>

text \<open>The configuration in which the rest of a run starts, when nothing ended it before.\<close>

fun run_prefix :: "run_context \<Rightarrow> action list \<Rightarrow> cfg \<Rightarrow> cfg option" where
  "run_prefix x [] c = Some c"
| "run_prefix x (a # as) c = (case action_step x c a of Next c' \<Rightarrow> run_prefix x as c' | _ \<Rightarrow> None)"

lemma run_actions_prefix:
  "run_prefix x before c = Some c' \<Longrightarrow> run_actions x (before @ rest) c = run_actions x rest c'"
  by (induction before arbitrary: c) (auto split: step.splits)

definition start_context :: "nat \<Rightarrow> transfer \<Rightarrow> evalstate \<Rightarrow> (int \<times> int) list \<Rightarrow> call_handler option \<Rightarrow> run_context" where
  "start_context depth t s u h =
     \<lparr>ctx_transfer = t, ctx_initial = s, ctx_undefined = u, ctx_handler = h, ctx_depth = depth\<rparr>"

definition start_cfg :: "transfer \<Rightarrow> evalstate \<Rightarrow> memory \<Rightarrow> cfg" where
  "start_cfg t s m = \<lparr>cfg_state = s\<lparr>original_rva := rva_start t\<rparr>, cfg_memory = m, cfg_words = [], cfg_call = s\<rparr>"

lemma evaluate_transfer_prefix:
  assumes "actions t = before @ rest" "run_prefix (start_context depth t s u h) before (start_cfg t s m) = Some c"
  shows "evaluate_transfer depth t s m u h = run_actions (start_context depth t s u h) rest c"
  using run_actions_prefix[OF assms(2), of rest] assms(1)
  by (simp add: evaluate_transfer_def start_context_def start_cfg_def)

lemma run_case_raises:
  assumes "map_of table current = Some t" "ev t s m = Inl e"
  shows "run_case (Suc limit) ev table current r s m trace = Inl e"
  by (subst run_case.simps) (simp add: assms)

text \<open>The evaluation of a node whose operation raises.\<close>

lemma eval_word_raises:
  assumes "map_of ws i = None" "0 \<le> i" "i < int (length (env_nodes e))"
    "thread (eval_word d e) (node_args (env_nodes e ! nat i)) ws = Inr (vs, ws')"
    "eval_node e (env_nodes e ! nat i) vs = Inl x"
  shows "eval_word (Suc d) e i ws = Inl x"
  using assms by simp

lemma thread_lengths: "thread f is ws = Inr (vs, ws') \<Longrightarrow> length vs = length is"
  by (induction "is" arbitrary: ws vs) (auto simp: bind_eq_Ok split: prod.splits)

lemma uncaught_word_escapes:
  assumes "actions t = before @ a # after" "act_op a = Eff Op_eval_word" "act_args a = [i]"
    "run_prefix (start_context depth t s u h) before (start_cfg t s m) = Some c"
    "eval_word depth (word_env (start_context depth t s u h) c) i (cfg_words c) = Inl x" "\<not> caught x"
  shows "evaluate_transfer depth t s m u h = Inl x"
proof -
  have "ctx_depth (start_context depth t s u h) = depth" by (simp add: start_context_def)
  then have "action_step (start_context depth t s u h) c a = Fault x c"
    using assms(2,3,5) by (simp add: action_step_def catch_def)
  then show ?thesis using evaluate_transfer_prefix[OF assms(1,4)] assms(6)
    by (cases x) (simp_all add: caught_def)
qed

end
