(* ===== verification/Plan_Safety.thy ===== *)
theory Plan_Safety
  imports Plan_Codec Eval_Case
begin

text \<open>
  What the evaluator may rely on once the plan reader has accepted a transfer. \<open>transfer_wf\<close> is the
  shape the reader guarantees: a dense acyclic graph of registered nodes, effects and a terminator of
  the right arity whose references are in range, complete call frames. \<open>lowered\<close> is what the reader
  leaves unchecked and the compiler provides: auxiliary fields that name registers and flags, no
  shift-flag nodes, a positive constant width for \<open>msb\<close>. Under both, evaluation ends in a result:
  no exception leaves it.
\<close>

section \<open>The shape of an accepted transfer\<close>

definition registered_node :: "node \<Rightarrow> bool" where
  "registered_node nd \<longleftrightarrow> is_ok (expression_operation_v2 nd)"

definition effect_wf :: "transfer \<Rightarrow> action \<Rightarrow> bool" where
  "effect_wf t a \<longleftrightarrow> is_ok (action_operation_v2 a False) \<and> (\<forall>x\<in>set (act_args a). 0 \<le> x)
     \<and> effect_in_range (int (length (nodes t))) (int (length (calls t))) (int (length (x87_operations t))) a"

definition terminator_wf :: "transfer \<Rightarrow> action \<Rightarrow> bool" where
  "terminator_wf t a \<longleftrightarrow> is_ok (action_operation_v2 a True) \<and> (\<forall>x\<in>set (act_args a). 0 \<le> x)
     \<and> (\<forall>r\<in>set (outcome_references a). r < int (length (nodes t)))"

definition call_wf :: "transfer \<Rightarrow> call \<Rightarrow> bool" where
  "call_wf t c \<longleftrightarrow> length (register_nodes c) = length registers_table
     \<and> length (flag_nodes c) = length flags_table
     \<and> (\<forall>r\<in>set (call_node_references c). 0 \<le> r \<and> r < int (length (nodes t)))"

definition transfer_wf :: "transfer \<Rightarrow> bool" where
  "transfer_wf t \<longleftrightarrow>
     acyclic_nodes (nodes t) \<and> (\<forall>nd\<in>set (nodes t). registered_node nd)
     \<and> actions t \<noteq> [] \<and> (\<forall>a\<in>set (butlast (actions t)). effect_wf t a) \<and> terminator_wf t (last (actions t))
     \<and> (\<forall>c\<in>set (calls t). call_wf t c) \<and> x87_nodes t = []"

lemma good_transfer_wf:
  assumes "transfer_good sha t"
  shows "transfer_wf t"
proof -
  note g = assms[unfolded transfer_good_def Let_def]
  have node: "node_good (int k) (nodes t ! k)" if "k < length (nodes t)" for k using g that by blast
  have "acyclic_nodes (nodes t)" "\<forall>nd\<in>set (nodes t). registered_node nd"
    using node by (auto simp: acyclic_nodes_def node_good_def registered_node_def all_set_conv_all_nth)
  moreover have "\<forall>a\<in>set (butlast (actions t)). effect_wf t a" "terminator_wf t (last (actions t))"
    using g by (auto simp: effect_wf_def terminator_wf_def effect_good_def terminator_good_def action_good_def)
  moreover have "call_wf t c" if c: "call_good (int (length (nodes t))) c" for c
    using c unfolding call_good_def call_wf_def call_node_references_def by (auto split: option.splits)
  ultimately show ?thesis using g by (simp add: transfer_wf_def)
qed

lemma accepted_transfer_wf:
  assumes "transfer_from_payload sha row = Inr t"
  shows "transfer_wf t"
  by (rule good_transfer_wf[OF accepted_transfer_good[OF assms]])

section \<open>Evaluation of checked nodes\<close>

definition positive_const :: "node list \<Rightarrow> int \<Rightarrow> bool" where
  "positive_const ns i \<longleftrightarrow> 0 \<le> i \<and> i < int (length ns)
     \<and> node_op (ns ! nat i) = Word Op_const \<and> 0 < u32 (node_immediate (ns ! nat i))"

definition node_lowered :: "node list \<Rightarrow> node \<Rightarrow> bool" where
  "node_lowered ns nd \<longleftrightarrow> aux_ok nd \<and> node_op nd \<notin> {Pred Op_shift_cf, Pred Op_shift_of}
     \<and> (node_op nd = Word Op_msb \<and> length (node_args nd) = 2 \<longrightarrow> positive_const ns (hd (node_args nd)))"

definition effect_lowered :: "node list \<Rightarrow> action \<Rightarrow> bool" where
  "effect_lowered ns a \<longleftrightarrow>
     (act_op a = Eff Op_set_reg \<longrightarrow> act_aux a < 8) \<and> (act_op a = Eff Op_set_flag \<longrightarrow> act_aux a < 7)
     \<and> (act_op a \<in> {Eff Op_atomic_compare_exchange, Eff Op_atomic_exchange}
         \<longrightarrow> \<not> positive_const ns (last (act_args a)))"

definition lowered :: "transfer \<Rightarrow> bool" where
  "lowered t \<longleftrightarrow> (\<forall>nd\<in>set (nodes t). node_lowered (nodes t) nd)
     \<and> (\<forall>a\<in>set (actions t). effect_lowered (nodes t) a \<and> 0 \<le> act_aux a)"

text \<open>The memo table keeps the value of every positive constant.\<close>

definition const_words :: "node list \<Rightarrow> words \<Rightarrow> bool" where
  "const_words ns ws \<longleftrightarrow> (\<forall>i v. map_of ws i = Some v \<longrightarrow> positive_const ns i \<longrightarrow> 0 < v)"

lemma const_words_update:
  "const_words ns ws \<Longrightarrow> (positive_const ns i \<Longrightarrow> 0 < v) \<Longrightarrow> const_words ns (AList.update i v ws)"
  by (auto simp: const_words_def update_conv')

lemma thread_const:
  assumes "\<And>i ws. i \<in> set is \<Longrightarrow> const_words ns ws \<Longrightarrow>
      (case f i ws of Inl x \<Rightarrow> caught x | Inr (v, ws') \<Rightarrow> const_words ns ws' \<and> (positive_const ns i \<longrightarrow> 0 < v))"
  shows "const_words ns ws \<Longrightarrow>
    (case thread f is ws of Inl x \<Rightarrow> caught x
     | Inr (vs, ws') \<Rightarrow> const_words ns ws' \<and> list_all2 (\<lambda>i v. positive_const ns i \<longrightarrow> 0 < v) is vs)"
  using assms
proof (induction "is" arbitrary: ws)
  case (Cons i "is")
  have i: "case f i ws of Inl x \<Rightarrow> caught x | Inr (v, ws') \<Rightarrow> const_words ns ws' \<and> (positive_const ns i \<longrightarrow> 0 < v)"
    by (rule Cons.prems(2)) (simp_all add: Cons.prems(1))
  show ?case
  proof (cases "f i ws")
    case (Inr p)
    obtain v ws1 where p: "p = (v, ws1)" by (cases p)
    have "case thread f is ws1 of Inl x \<Rightarrow> caught x
       | Inr (vs, ws') \<Rightarrow> const_words ns ws' \<and> list_all2 (\<lambda>i v. positive_const ns i \<longrightarrow> 0 < v) is vs"
      using i Inr p by (intro Cons.IH Cons.prems(2)) auto
    then show ?thesis using i Inr p by (cases "thread f is ws1") auto
  qed (use i in simp)
qed simp

lemma eval_word_caught:
  assumes ac: "acyclic_nodes (env_nodes e)" and reg: "\<forall>nd\<in>set (env_nodes e). registered_node nd"
    and low: "\<forall>nd\<in>set (env_nodes e). node_lowered (env_nodes e) nd"
  shows "const_words (env_nodes e) ws \<Longrightarrow> nat i < depth \<Longrightarrow>
    (case eval_word depth e i ws of Inl x \<Rightarrow> caught x
     | Inr (v, ws') \<Rightarrow> const_words (env_nodes e) ws' \<and> (positive_const (env_nodes e) i \<longrightarrow> 0 < v))"
proof (induction depth arbitrary: i ws)
  case (Suc depth)
  define n where "n = env_nodes e ! nat i"
  show ?case
  proof (cases "map_of ws i")
    case (Some v)
    then show ?thesis using Suc.prems(1) by (simp add: const_words_def)
  next
    case None
    show ?thesis
    proof (cases "i < 0 \<or> i \<ge> int (length (env_nodes e))")
      case True
      then show ?thesis using None by (simp add: caught_def)
    next
      case False
      then have n: "n \<in> set (env_nodes e)" unfolding n_def by (intro nth_mem) linarith
      have "nat a < depth" if "a \<in> set (node_args n)" for a
        using acyclic_arg[OF ac False that[unfolded n_def]] Suc.prems(2) by linarith
      then have t: "case thread (eval_word depth e) (node_args n) ws of Inl x \<Rightarrow> caught x
        | Inr (vs, ws') \<Rightarrow> const_words (env_nodes e) ws'
            \<and> list_all2 (\<lambda>i v. positive_const (env_nodes e) i \<longrightarrow> 0 < v) (node_args n) vs"
        by (intro thread_const Suc) auto
      show ?thesis
      proof (cases "thread (eval_word depth e) (node_args n) ws")
        case (Inl x)
        then show ?thesis using t None False by (simp add: Let_def n_def)
      next
        case (Inr p)
        obtain vs ws1 where p: "p = (vs, ws1)" by (cases p)
        have vs: "const_words (env_nodes e) ws1"
          "list_all2 (\<lambda>i v. positive_const (env_nodes e) i \<longrightarrow> 0 < v) (node_args n) vs"
          using t Inr p by auto
        have msb: "node_op n = Word Op_msb \<and> length vs = 2 \<longrightarrow> 0 < hd vs"
          using low[rule_format, OF n] vs(2)
          by (auto simp: node_lowered_def list_all2_lengthD list_all2_Cons2 numeral_eq_Suc length_Suc_conv)
        obtain row where row: "expression_operation_v2 n = Inr row"
          using reg n by (auto simp: registered_node_def is_ok_iff)
        have err: "caught x" if "eval_node e n vs = Inl x" for x
          using eval_node_errors[OF row _ _ _ msb that] low[rule_format, OF n] vs(2)
          by (simp add: node_lowered_def list_all2_lengthD)
        have const: "0 < u32 v" if "positive_const (env_nodes e) i" "eval_node e n vs = Inr v" for v
          using that by (auto simp: positive_const_def n_def eval_node_def)
        show ?thesis
          using None False Inr p err const vs(1)
          by (cases "eval_node e n vs") (auto simp: Let_def n_def[symmetric] intro: const_words_update)
      qed
    qed
  qed
qed simp

section \<open>Actions of an accepted transfer\<close>

text \<open>A step either goes on with a sound memo table, returns, or raises a fault that is caught.\<close>

definition step_fine :: "node list \<Rightarrow> step \<Rightarrow> bool" where
  "step_fine ns st \<longleftrightarrow> (case st of Next c \<Rightarrow> const_words ns (cfg_words c) | Return r c \<Rightarrow> True | Fault x c \<Rightarrow> caught x)"

lemma catch_fine:
  "(\<And>x. m = Inl x \<Longrightarrow> caught x) \<Longrightarrow> (\<And>v. m = Inr v \<Longrightarrow> step_fine ns (f v)) \<Longrightarrow> step_fine ns (catch c m f)"
  by (cases m) (auto simp: catch_def step_fine_def)

lemma step_fine_simps [simp]:
  "step_fine ns (Next c) = const_words ns (cfg_words c)" "step_fine ns (Return r c)" "step_fine ns (Fault x c) = caught x"
  by (simp_all add: step_fine_def)

lemma cached_caught: "cached ws i = Inl x \<Longrightarrow> caught x"
  by (auto simp: cached_def caught_def split: option.splits)

lemma cached_list_caught: "mapM (cached ws) is = Inl x \<Longrightarrow> caught x"
  by (auto dest!: mapM_error cached_caught)

lemma write_caught: "memory_write m a w v = Inl x \<Longrightarrow> caught x"
  by (auto simp: memory_write_def caught_def split: if_splits)

lemmas caught_rules = cached_caught cached_list_caught write_caught flag_errors(6)

lemma py_index_Ok: "0 \<le> k \<Longrightarrow> k < int (length xs) \<Longrightarrow> py_index xs k = Inr (xs ! nat k)"
  by (rule py_index_nonneg)

lemma arg_value_caught: "0 \<le> k \<Longrightarrow> k < int (length (act_args a)) \<Longrightarrow> arg_value c a k = Inl x \<Longrightarrow> caught x"
  by (auto simp: arg_value_def py_index_Ok dest: cached_caught)

lemma move_loop_caught: "fst (move_loop k src dst stp w s m) = Some x \<Longrightarrow> caught x"
  by (induction k arbitrary: src dst s m)
    (auto simp: Let_def bind_eq_Raise dest: caught_rules split: sum.splits)

lemma store_loop_caught: "fst (store_loop k dst v stp w s m) = Some x \<Longrightarrow> caught x"
  by (induction k arbitrary: dst s m) (auto simp: Let_def dest: caught_rules split: sum.splits)

lemma scan_flags_ok: "scan_flags al item s \<noteq> Inl x"
  by (simp add: scan_flags_def set_flag_def Let_def)

lemma scan_loop_caught: "fst (scan_loop k al dst stp s m) = Some x \<Longrightarrow> caught x"
  by (induction k arbitrary: dst s) (auto simp: Let_def scan_flags_ok dest: caught_rules split: sum.splits if_splits)

lemma length_4E: "length xs = 4 \<Longrightarrow> (\<And>a b c d. xs = [a, b, c, d] \<Longrightarrow> P) \<Longrightarrow> P"
  by (auto simp: length_Suc_conv numeral_eq_Suc)

lemma repeat_caught:
  assumes "length vs = 4"
  shows "fst (repeat_move s m vs w) = Some x \<Longrightarrow> caught x" "fst (repeat_store s m vs w) = Some x \<Longrightarrow> caught x"
    "fst (repeat_scan s m vs) = Some x \<Longrightarrow> caught x"
  using assms
  by (auto elim!: length_4E simp: caught_def[of Semantic_fault] split: if_splits
      dest: move_loop_caught store_loop_caught scan_loop_caught)

lemma rep_step_fine:
  "const_words ns (cfg_words c) \<Longrightarrow> (\<And>x. fst r = Some x \<Longrightarrow> caught x) \<Longrightarrow> step_fine ns (rep_step c r)"
  by (auto simp: rep_step_def Let_def split: prod.splits option.splits)

lemma call_state_caught:
  assumes "length (register_nodes cl) = length registers_table" "length (flag_nodes cl) = length flags_table"
    "call_state c cl = Inl x"
  shows "caught x"
proof -
  have slots: "p \<in> set (enumerate 0 tab) \<Longrightarrow> int (fst p) < int (length tab)" for p and tab :: "'c list"
    by (cases p) (auto simp: enumerate_eq_zip dest: set_zip_leftD)
  show ?thesis
    using assms slots[of _ registers_table] slots[of _ flags_table]
    by (fastforce simp: call_state_def bind_eq_Raise py_index_Ok split_def dest!: mapM_error dest: cached_caught)
qed

definition handler_total :: "call_handler option \<Rightarrow> bool" where
  "handler_total h \<longleftrightarrow> (\<forall>f. h = Some f \<longrightarrow> (\<forall>cl s vs. is_ok (f cl s vs)))"

lemma call_step_fine:
  assumes "const_words ns (cfg_words c)" "handler_total (ctx_handler x)" "effect_wf (ctx_transfer x) a"
    "act_op a = Eff Op_call" "\<forall>cl\<in>set (calls (ctx_transfer x)). call_wf (ctx_transfer x) cl"
  shows "step_fine ns (call_step x c a)"
proof -
  obtain k where k: "py_index (act_args a) 0 = Inr k" "k < int (length (calls (ctx_transfer x)))"
    using assms(3,4) by (auto simp: effect_wf_def effect_in_range_def)
  then have "0 \<le> k" using assms(3) py_index_in_set[OF k(1)] by (auto simp: effect_wf_def)
  then have cl: "bind (py_index (act_args a) 0) (py_index (calls (ctx_transfer x))) = Inr (calls (ctx_transfer x) ! nat k)"
    and wf: "call_wf (ctx_transfer x) (calls (ctx_transfer x) ! nat k)"
    using k assms(5) by (simp_all add: py_index_Ok nat_less_iff)
  have "caught e" if "call_state c (calls (ctx_transfer x) ! nat k) = Inl e" for e
    using call_state_caught[OF _ _ that] wf by (simp add: call_wf_def)
  moreover have "\<not> f cl s vs = Inl e" if "ctx_handler x = Some f" for f cl s vs e
    using assms(2) that by (metis handler_total_def is_ok.simps(2))
  ultimately show ?thesis
    using assms(1) unfolding call_step_def cl catch_def[of c "Inr _"] sum.case
    by (intro catch_fine)
      (auto simp: Let_def bind_eq_Raise intro!: catch_fine dest: cached_list_caught split: option.splits)
qed

lemma exchange_step_fine:
  assumes "const_words ns (cfg_words c)" "0 \<le> act_aux a" "length (act_args a) = (if cmp then 4 else 3)"
    "\<not> positive_const ns (last (act_args a))"
  shows "step_fine ns (exchange_step c a cmp)"
proof -
  let ?k = "if cmp then 3 else 2 :: int"
  have ix: "py_index (act_args a) ?k = Inr (last (act_args a))"
    using assms(3) last_conv_nth[of "act_args a"] by (cases "act_args a = []") (auto simp: py_index_Ok split: if_splits)
  have len: "int (length vs) = ?k" if "mapM (cached (cfg_words c)) (take (nat ?k) (act_args a)) = Inr vs" for vs
    using mapM_length[OF that] assms(3) by (auto split: if_splits)
  have shl: "py_shl 1 (8 * act_aux a) = Inr (push_bit (nat (8 * act_aux a)) 1)"
    using assms(2) by (simp add: py_shl_def)
  show ?thesis
    unfolding exchange_step_def Let_def
    by (intro catch_fine)
      (auto simp: len ix shl bind_eq_Raise assms(1,4) intro!: catch_fine const_words_update dest: caught_rules
        split: if_split_asm)
qed

lemma action_arity:
  assumes "is_ok (action_operation_v2 a b)"
  shows "\<exists>ar. map_of (if b then terminators_table else effects_table) (act_op a) = Some ar
    \<and> arity_ok (int (length (act_args a))) ar"
  using assms
  by (auto simp: is_ok_iff action_operation_v2_def effect_operations_v2_def terminator_operations_v2_def map_of_map_row
      bind_eq_Ok validate_arity_def spec_row_def split: option.splits if_splits arity.splits)

lemma effect_step_fine:
  assumes c: "const_words (nodes (ctx_transfer x)) (cfg_words c)" and h: "handler_total (ctx_handler x)"
    and t: "transfer_wf (ctx_transfer x)" "lowered (ctx_transfer x)"
    and depth: "length (nodes (ctx_transfer x)) \<le> ctx_depth x"
    and a: "effect_wf (ctx_transfer x) a" "effect_lowered (nodes (ctx_transfer x)) a" "0 \<le> act_aux a"
      "act_op a = Eff oper"
  shows "step_fine (nodes (ctx_transfer x)) (effect_step oper x c a)"
proof -
  let ?ns = "nodes (ctx_transfer x)"
  obtain ar where ar: "map_of effects_table (Eff oper) = Some ar" "arity_ok (int (length (act_args a))) ar"
    using action_arity[of a False] a(1,4) by (auto simp: effect_wf_def)
  note arg = arg_value_caught[of 0 a c] arg_value_caught[of 1 a c] arg_value_caught[of 2 a c]
  note rules = catch_fine rep_step_fine
  have rep: "length vs = 4" if "rep_args c a = Inr vs" "length (act_args a) = 4" for vs
    using mapM_length[OF that(1)[unfolded rep_args_def]] that(2) by simp
  have rep_err: "caught e" if "rep_args c a = Inl e" for e
    using that cached_list_caught by (auto simp: rep_args_def)
  show ?thesis
  proof (cases oper)
    case Op_eval_word
    have in_range: "nat i < ctx_depth x" if "py_index (act_args a) 0 = Inr i" for i
    proof -
      have "i \<in> set (act_args a)" by (rule py_index_in_set[OF that])
      then have "0 \<le> i" "i < int (length ?ns)"
        using a(1,4) Op_eval_word by (auto simp: effect_wf_def effect_in_range_def)
      then show ?thesis using depth by linarith
    qed
    have ev: "case eval_word (ctx_depth x) (word_env x c) i (cfg_words c) of Inl e \<Rightarrow> caught e
       | Inr (v, ws') \<Rightarrow> const_words ?ns ws' \<and> (positive_const ?ns i \<longrightarrow> 0 < v)"
      if "nat i < ctx_depth x" for i
    proof -
      have ns: "env_nodes (word_env x c) = ?ns" by (simp add: word_env_def)
      show ?thesis
        using eval_word_caught[of "word_env x c" "cfg_words c" i "ctx_depth x", unfolded ns] t c that
        by (simp add: transfer_wf_def lowered_def)
    qed
    have "py_index (act_args a) 0 = Inr (hd (act_args a))"
      using ar Op_eval_word by (cases "act_args a") (auto simp: effects_table_def)
    then show ?thesis
      using ev[OF in_range] Op_eval_word
      by (auto intro!: catch_fine split: sum.splits prod.splits)
  next
    case Op_call
    then show ?thesis using call_step_fine[OF c h a(1)] a(4) t(1) by (simp add: transfer_wf_def)
  next
    case Op_set_reg
    then show ?thesis using ar a arg c
      by (auto simp: effects_table_def effect_lowered_def length_Suc_conv intro!: rules)
  next
    case Op_set_flag
    have "set_flag s (act_aux a) v \<noteq> Inl e" for s v e
      using Op_set_flag a by (auto simp: effect_lowered_def set_flag_def bind_eq_Raise flags_table_def py_index_unfold Let_def)
    then show ?thesis using Op_set_flag ar a arg c
      by (auto simp: effects_table_def length_Suc_conv intro!: rules)
  next
    case Op_atomic_compare_exchange
    then show ?thesis using exchange_step_fine[OF c a(3), of True] ar a
      by (auto simp: effects_table_def effect_lowered_def)
  next
    case Op_atomic_exchange
    then show ?thesis using exchange_step_fine[OF c a(3), of False] ar a
      by (auto simp: effects_table_def effect_lowered_def)
  next
    case Op_memory_write
    then show ?thesis using ar arg c
      by (auto simp: effects_table_def bind_eq_Raise length_Suc_conv numeral_eq_Suc intro!: rules dest!: write_caught)
  next
    case Op_divide_if
    then show ?thesis using ar arg c by (auto simp: effects_table_def length_Suc_conv intro!: rules)
  next
    case Op_access_violation_if
    then show ?thesis using ar arg c
      by (auto simp: effects_table_def bind_eq_Raise length_Suc_conv numeral_eq_Suc intro!: rules)
  qed (use ar c rep rep_err in \<open>auto simp: effects_table_def intro!: rules dest: repeat_caught\<close>)
qed

lemma terminator_step_fine:
  assumes "terminator_wf t a" "act_op a = Term oper"
  shows "\<not> (\<exists>c'. terminator_step oper c a = Next c') \<and> step_fine ns (terminator_step oper c a)"
proof -
  obtain ar where ar: "map_of terminators_table (Term oper) = Some ar" "arity_ok (int (length (act_args a))) ar"
    using action_arity[of a True] assms by (auto simp: terminator_wf_def)
  note arg = arg_value_caught[of 0 a c] arg_value_caught[of 1 a c] arg_value_caught[of 2 a c]
  show ?thesis
  proof (cases oper)
    case Op_outcome_branch
    then have "length (act_args a) = 3" using ar by (auto simp: terminators_table_def)
    then show ?thesis using Op_outcome_branch arg
      by (auto simp: bind_eq_Raise catch_def py_index_Ok split: sum.splits)
  qed (use ar arg in \<open>auto simp: terminators_table_def bind_eq_Raise catch_def py_index_Ok length_Suc_conv numeral_eq_Suc split: sum.splits prod.splits\<close>)
qed

section \<open>Totality\<close>

lemma run_actions_total:
  assumes ctx: "handler_total (ctx_handler x)" "transfer_wf (ctx_transfer x)" "lowered (ctx_transfer x)"
      "length (nodes (ctx_transfer x)) \<le> ctx_depth x"
    and c: "const_words (nodes (ctx_transfer x)) (cfg_words c)"
    and acts: "as \<noteq> []" "set as \<subseteq> set (actions (ctx_transfer x))" "\<forall>a\<in>set (butlast as). effect_wf (ctx_transfer x) a"
      "terminator_wf (ctx_transfer x) (last as)"
  shows "is_ok (run_actions x as c)"
  using c acts
proof (induction "as" arbitrary: c)
  case (Cons a "as")
  let ?ns = "nodes (ctx_transfer x)"
  have low: "effect_lowered ?ns a" "0 \<le> act_aux a"
    using Cons.prems(3) ctx(3) by (auto simp: lowered_def)
  show ?case
  proof (cases "as = []")
    case True
    then have wf: "terminator_wf (ctx_transfer x) a" using Cons.prems by simp
    obtain oper where oper: "act_op a = Term oper"
      using action_arity[of a True] wf by (auto simp: terminator_wf_def terminators_table_def split: if_splits)
    from terminator_step_fine[OF wf oper, of c ?ns] True oper show ?thesis
      by (cases "terminator_step oper c a") (auto simp: action_step_def caught_def)
  next
    case False
    then have wf: "effect_wf (ctx_transfer x) a" using Cons.prems by simp
    obtain oper where oper: "act_op a = Eff oper"
      using action_arity[of a False] wf by (auto simp: effect_wf_def effects_table_def split: if_splits)
    have fine: "step_fine ?ns (action_step x c a)"
      using effect_step_fine[OF Cons.prems(1) ctx wf low oper] oper by (simp add: action_step_def)
    show ?thesis
    proof (cases "action_step x c a")
      case (Next c')
      then show ?thesis using fine False Cons.prems Cons.IH[of c'] by auto
    next
      case (Fault e c')
      then show ?thesis using fine by (auto simp: caught_def)
    qed simp
  qed
qed simp

lemma evaluate_transfer_total:
  assumes "transfer_wf t" "lowered t" "handler_total h" "length (nodes t) \<le> depth"
  shows "is_ok (evaluate_transfer depth t s m u h)"
  unfolding evaluate_transfer_def
  using assms by (intro run_actions_total) (auto simp: transfer_wf_def const_words_def)

section \<open>Control edges\<close>

text \<open>Only a terminator ends a transfer in a result that goes on to another one.\<close>

lemma catch_Return: "catch c m f = Return r c' \<longleftrightarrow> (\<exists>v. m = Inr v \<and> f v = Return r c')"
  by (cases m) (auto simp: catch_def)

lemma rep_step_no_return: "rep_step c p \<noteq> Return r c'"
  by (simp add: rep_step_def Let_def split: prod.splits option.splits)

lemma exchange_step_no_return: "exchange_step c a b \<noteq> Return r c'"
  by (auto simp: exchange_step_def Let_def catch_Return split: if_split_asm)

lemma continues_mk_result [simp]: "continues (mk_result k a b) \<longleftrightarrow> k \<in> {''fallthrough'', ''jump'', ''branch''}"
  by (simp add: continues_def mk_result_def)

lemma call_return: "call_step x c a = Return r c' \<Longrightarrow> \<not> continues r"
  by (clarsimp simp: call_step_def catch_Return return_value_def Let_def split: option.split_asm if_split_asm)
    (auto simp: mk_result_def continues_def)

lemma effect_return: "effect_step oper x c a = Return r c' \<Longrightarrow> \<not> continues r"
  by (cases oper)
    (auto simp: catch_Return return_value_def rep_step_no_return exchange_step_no_return call_return
      split: prod.splits if_split_asm)

lemma terminator_return:
  "terminator_step oper c a = Return r c' \<Longrightarrow> continues r \<Longrightarrow> act_op a = Term oper \<Longrightarrow> length (act_args a) \<le> 3
   \<Longrightarrow> target_rva r \<in> u32 ` set (outcome_targets a)"
proof -
  assume r: "terminator_step oper c a = Return r c'" "continues r" "act_op a = Term oper"
  have head: "t \<in> set (take 1 xs)" if "py_index xs 0 = Inr t" for xs :: "int list" and t
    using that by (cases xs) (auto simp: py_index_unfold)
  have rest: "t \<in> set (take 2 (drop 1 xs))" if "py_index xs k = Inr t" "k = 1 \<or> k = 2" for xs :: "int list" and t k
    using that by (cases xs; cases "tl xs"; cases "tl (tl xs)") (auto simp: py_index_unfold Let_def split: if_splits)
  show ?thesis
    using r by (cases oper)
      (auto simp: catch_Return outcome_targets_def bind_eq_Ok mk_result_def continues_def split: prod.splits if_split_asm
        dest!: head rest)
qed

lemma run_actions_edge:
  assumes "run_actions x as c = Inr (r, s, m)" "continues r" "as \<noteq> []" "\<forall>a\<in>set (butlast as). effect_wf t a"
    "terminator_wf t (last as)"
  shows "target_rva r \<in> u32 ` set (outcome_targets (last as))"
  using assms
proof (induction "as" arbitrary: c)
  case (Cons a "as")
  have kinds: "\<not> continues (return_value x ''memory_fault'')" "\<not> continues (return_value x ''unimplemented'')"
    by (simp_all add: return_value_def)
  show ?case
  proof (cases "as = []")
    case True
    then obtain oper where oper: "act_op a = Term oper"
      using Cons.prems(5) action_arity[of a True] by (auto simp: terminator_wf_def terminators_table_def split: if_splits)
    obtain ar where "map_of terminators_table (Term oper) = Some ar" "arity_ok (int (length (act_args a))) ar"
      using Cons.prems(5) True oper action_arity[of a True] by (auto simp: terminator_wf_def)
    then have "length (act_args a) \<le> 3" by (auto simp: terminators_table_def split: if_split_asm)
    then show ?thesis
      using True oper Cons.prems kinds terminator_return[of oper c a]
      by (auto simp: action_step_def split: step.split_asm py_error.split_asm)
  next
    case False
    then obtain oper where oper: "act_op a = Eff oper"
      using Cons.prems(4) action_arity[of a False] by (auto simp: effect_wf_def effects_table_def split: if_splits)
    then show ?thesis
      using False Cons.prems Cons.IH kinds effect_return[of oper x c a]
      by (auto simp: action_step_def split: step.split_asm py_error.split_asm)
  qed
qed simp

lemma evaluation_follows_edges:
  assumes "t \<in> set ts" "transfer_wf t" "evaluate_transfer depth t s m u h = Inr (r, s', m')" "continues r"
  shows "\<exists>target. (rva_start t, ''control'', target) \<in> set (direct_edges ts) \<and> target_rva r = u32 target"
proof -
  have "target_rva r \<in> u32 ` set (outcome_targets (last (actions t)))"
    using run_actions_edge[OF assms(3)[unfolded evaluate_transfer_def] assms(4)] assms(2) by (auto simp: transfer_wf_def)
  then show ?thesis
    using assms(1,2) by (auto simp: direct_edges_def transfer_edges_def transfer_wf_def image_iff)
qed

end
