(* ===== verification/Compiler_Safety.thy ===== *)
theory Compiler_Safety
  imports Compile_Row Compiler_Graph Plan_Safety
begin

text \<open>
  The invariant of the transfer compiler: every node, effect, call and x87 program is one the plan
  reader accepts, every word an effect reads was evaluated by an earlier effect, and faults, calls and
  x87 programs are numbered in the order of their effects. Every method keeps it.
\<close>

section \<open>Words that effects read\<close>

lemma mk_action_sel [simp]:
  "act_op (mk_action oper args aux) = oper" "act_args (mk_action oper args aux) = args" "act_aux (mk_action oper args aux) = aux"
  by (simp_all add: mk_action_def)

abbreviation atomic_ops :: "opname set" where
  "atomic_ops \<equiv> {Eff Op_atomic_compare_exchange, Eff Op_atomic_exchange}"

text \<open>A word has a value after its evaluation, or after the atomic action that observes it.\<close>

definition evaluated :: "action list \<Rightarrow> int \<Rightarrow> bool" where
  "evaluated acts i \<longleftrightarrow> (\<exists>a\<in>set acts. act_op a = Eff Op_eval_word \<and> act_args a = [i]
     \<or> act_op a \<in> atomic_ops \<and> last (act_args a) = i)"

fun is_terminator :: "opname \<Rightarrow> bool" where
  "is_terminator (Term t) = True"
| "is_terminator _ = False"

definition words_read :: "call list \<Rightarrow> action \<Rightarrow> int list" where
  "words_read cs a =
     (if is_terminator (act_op a) then outcome_references a
      else if act_op a \<in> {Eff Op_eval_word, Eff Op_typed_x87} then []
      else if act_op a = Eff Op_call then
        (case act_args a of [k] \<Rightarrow> if nat k < length cs then call_node_references (cs ! nat k) else [] | _ \<Rightarrow> [])
      else if act_op a \<in> atomic_ops then butlast (act_args a) else act_args a)"

definition in_order :: "call list \<Rightarrow> action list \<Rightarrow> bool" where
  "in_order cs acts \<longleftrightarrow> (\<forall>k < length acts. \<forall>r\<in>set (words_read cs (acts ! k)). evaluated (take k acts) r)"

lemma evaluated_append: "evaluated acts i \<Longrightarrow> evaluated (acts @ bs) i"
  by (auto simp: evaluated_def)

lemma in_order_snoc: "in_order cs (acts @ [a]) \<longleftrightarrow> in_order cs acts \<and> (\<forall>r\<in>set (words_read cs a). evaluated acts r)"
  unfolding in_order_def by (auto simp: nth_append less_Suc_eq)

lemma in_order_Nil [simp]: "in_order cs []"
  by (simp add: in_order_def)

section \<open>The invariant\<close>

definition effect_bounds :: "action \<Rightarrow> bool" where
  "effect_bounds a \<longleftrightarrow> (act_op a = Eff Op_set_reg \<longrightarrow> act_aux a < 8) \<and> (act_op a = Eff Op_set_flag \<longrightarrow> act_aux a < 7)"

definition effect_ok :: "cstate \<Rightarrow> action \<Rightarrow> bool" where
  "effect_ok s a \<longleftrightarrow> effect_bounds a
     \<and> effect_good (int (length (cn_nodes s))) (int (length (cn_calls s))) (int (length (cn_x87 s))) a"

text \<open>The names of a call's library and symbol are copied as they are, empty ones included.\<close>

definition compiled_call :: "int \<Rightarrow> call \<Rightarrow> bool" where
  "compiled_call ne c \<longleftrightarrow> call_good ne (c\<lparr>dll := None, symbol := None\<rparr>)"

definition fault_effect :: "action \<Rightarrow> bool" where
  "fault_effect a \<longleftrightarrow> op_name (act_op a) \<in> set native_exception_effects_v2"

definition numbered :: "cstate \<Rightarrow> bool" where
  "numbered s \<longleftrightarrow> 0 \<le> cn_next_fault s
     \<and> map act_aux (filter fault_effect (cn_actions s)) = map int [0..<nat (cn_next_fault s)]
     \<and> map act_args (filter (\<lambda>a. act_op a = Eff Op_call) (cn_actions s)) = map (\<lambda>k. [int k]) [0..<length (cn_calls s)]
     \<and> map act_args (filter (\<lambda>a. act_op a = Eff Op_typed_x87) (cn_actions s)) = map (\<lambda>k. [int k]) [0..<length (cn_x87 s)]"

definition outcome_ok :: "cstate \<Rightarrow> action \<Rightarrow> bool" where
  "outcome_ok s a \<longleftrightarrow> terminator_good (int (length (cn_nodes s))) a
     \<and> (\<forall>r\<in>set (outcome_references a). evaluated (cn_actions s) r)"

definition compiler_ok :: "(string \<Rightarrow> string) \<Rightarrow> cstate \<Rightarrow> bool" where
  "compiler_ok sha s \<longleftrightarrow> graph_ok s \<and> (\<forall>a\<in>set (cn_actions s). effect_ok s a)
     \<and> (\<forall>cl\<in>set (cn_calls s). compiled_call (int (length (cn_nodes s))) cl) \<and> (\<forall>x\<in>set (cn_x87 s). x87_good sha x)
     \<and> (\<forall>i\<in>set (cn_scheduled s). evaluated (cn_actions s) i) \<and> in_order (cn_calls s) (cn_actions s) \<and> numbered s
     \<and> (\<forall>a. cn_outcome s = Some a \<longrightarrow> outcome_ok s a)"

text \<open>A compilation only appends.\<close>

definition extends :: "cstate \<Rightarrow> cstate \<Rightarrow> bool" where
  "extends s s' \<longleftrightarrow> (\<exists>ns as cs xs. cn_nodes s' = cn_nodes s @ ns \<and> cn_actions s' = cn_actions s @ as
     \<and> cn_calls s' = cn_calls s @ cs \<and> cn_x87 s' = cn_x87 s @ xs)"

interpretation comp: growing_state "compiler_ok sha" extends for sha
  by unfold_locales (force simp: extends_def)+

definition ready :: "cstate \<Rightarrow> int \<Rightarrow> bool" where
  "ready s i \<longleftrightarrow> node_at s i \<and> evaluated (cn_actions s) i"

lemma stable_ready [intro!]: "comp.stable (\<lambda>s. ready s i)"
  by (auto simp: comp.stable_def ready_def node_at_def extends_def evaluated_append)

lemma stable_readies [intro!]: "comp.stable (\<lambda>s. \<forall>i\<in>set is. ready s i)"
  by (rule comp.stable_ball) blast

section \<open>Larger states\<close>

lemma action_good_sizes:
  assumes "effect_good ne nc nx a" "ne \<le> ne'" "nc \<le> nc'" "nx \<le> nx'"
  shows "effect_good ne' nc' nx' a"
  using assms by (fastforce simp: effect_good_def effect_in_range_def split: if_split_asm)

lemma effect_ok_sizes:
  "effect_ok s a \<Longrightarrow> length (cn_nodes s) \<le> length (cn_nodes t) \<Longrightarrow> length (cn_calls s) \<le> length (cn_calls t) \<Longrightarrow>
   length (cn_x87 s) \<le> length (cn_x87 t) \<Longrightarrow> effect_ok t a"
  by (auto simp: effect_ok_def elim!: action_good_sizes)

lemma compiled_call_sizes: "compiled_call ne c \<Longrightarrow> ne \<le> ne' \<Longrightarrow> compiled_call ne' c"
  unfolding compiled_call_def call_good_def by fastforce

lemma outcome_ok_sizes:
  "outcome_ok s a \<Longrightarrow> length (cn_nodes s) \<le> length (cn_nodes t) \<Longrightarrow> (\<And>i. evaluated (cn_actions s) i \<Longrightarrow> evaluated (cn_actions t) i)
   \<Longrightarrow> outcome_ok t a"
  by (force simp: outcome_ok_def terminator_good_def)

section \<open>Elementary steps\<close>

lemmas compiler_ok_defs = compiler_ok_def graph_ok_def effect_ok_def outcome_ok_def numbered_def

text \<open>Fields the invariant does not read.\<close>

lemma compiler_ok_other [simp]:
  "compiler_ok sha (s\<lparr>cn_deps := d\<rparr>) = compiler_ok sha s"
  "compiler_ok sha (s\<lparr>cn_available := is\<rparr>) = compiler_ok sha s"
  "compiler_ok sha (s\<lparr>cn_external := is\<rparr>) = compiler_ok sha s"
  "compiler_ok sha (s\<lparr>cn_atomic_ids := ids\<rparr>) = compiler_ok sha s"
  "compiler_ok sha (s\<lparr>cn_memory_count := n\<rparr>) = compiler_ok sha s"
  "compiler_ok sha (s\<lparr>cn_local := b\<rparr>) = compiler_ok sha s"
  by (simp_all add: compiler_ok_defs)

lemma extends_other [simp]:
  "extends s (s\<lparr>cn_deps := d\<rparr>)" "extends s (s\<lparr>cn_available := is\<rparr>)" "extends s (s\<lparr>cn_external := is\<rparr>)"
  "extends s (s\<lparr>cn_atomic_ids := ids\<rparr>)" "extends s (s\<lparr>cn_memory_count := n\<rparr>)" "extends s (s\<lparr>cn_local := b\<rparr>)"
  "extends s (s\<lparr>cn_memo := mm, cn_deps := d\<rparr>)" "extends s (s\<lparr>cn_outcome := v\<rparr>)"
  "extends s (s\<lparr>cn_actions := cn_actions s @ as\<rparr>)"
  by (auto simp: extends_def)

lemma memo_subset_ok:
  "compiler_ok sha s \<Longrightarrow> set mm \<subseteq> set (cn_memo s) \<Longrightarrow> compiler_ok sha (s\<lparr>cn_memo := mm\<rparr>)"
  unfolding compiler_ok_defs by simp blast

lemma graph_step_ok:
  assumes "compiler_ok sha s" "graph_step s t" "graph_ok t"
  shows "compiler_ok sha t \<and> extends s t"
proof -
  obtain ns memo deps where t: "t = s\<lparr>cn_nodes := cn_nodes s @ ns, cn_memo := memo, cn_deps := deps\<rparr>"
    using assms(2) by (auto simp: graph_step_def)
  have "\<forall>a\<in>set (cn_actions s). effect_ok t a" "\<forall>a. cn_outcome s = Some a \<longrightarrow> outcome_ok t a"
    "\<forall>cl\<in>set (cn_calls s). compiled_call (int (length (cn_nodes t))) cl"
    using assms(1) by (auto simp: compiler_ok_def t elim!: effect_ok_sizes outcome_ok_sizes compiled_call_sizes)
  moreover have "extends s t" by (simp add: extends_def t)
  ultimately show ?thesis using assms(1,3) by (simp add: compiler_ok_def numbered_def t)
qed

definition plain_effect :: "action \<Rightarrow> bool" where
  "plain_effect a \<longleftrightarrow> \<not> fault_effect a \<and> act_op a \<noteq> Eff Op_call \<and> act_op a \<noteq> Eff Op_typed_x87"

lemma add_effect_ok:
  assumes "compiler_ok sha s" "effect_ok s a" "\<forall>r\<in>set (words_read (cn_calls s) a). evaluated (cn_actions s) r" "plain_effect a"
  shows "compiler_ok sha (s\<lparr>cn_actions := cn_actions s @ [a]\<rparr>)"
proof -
  let ?t = "s\<lparr>cn_actions := cn_actions s @ [a]\<rparr>"
  have "\<forall>b\<in>set (cn_actions ?t). effect_ok ?t b" "\<forall>a. cn_outcome s = Some a \<longrightarrow> outcome_ok ?t a"
    using assms(1,2) by (auto simp: compiler_ok_def evaluated_append elim!: effect_ok_sizes outcome_ok_sizes)
  moreover have "\<forall>i\<in>set (cn_scheduled s). evaluated (cn_actions ?t) i" "numbered ?t" "in_order (cn_calls s) (cn_actions ?t)"
    using assms by (auto simp: compiler_ok_def evaluated_append numbered_def plain_effect_def in_order_snoc)
  ultimately show ?thesis using assms(1) by (simp add: compiler_ok_def graph_ok_def)
qed

section \<open>Effects that the registry knows\<close>

lemma effect_registered:
  assumes "map_of effects_table (act_op a) = Some ar" "arity_ok (int (length (act_args a))) ar"
    "act_op a \<in> {Eff Op_memory_write, Eff Op_rep_movs, Eff Op_rep_stos, Eff Op_rep_scas,
       Eff Op_atomic_compare_exchange, Eff Op_atomic_exchange} \<Longrightarrow> act_aux a \<in> {1, 2, 4}"
  shows "is_ok (action_operation_v2 a False)"
  using assms
  by (cases ar) (auto simp: action_operation_v2_def effect_operations_v2_def map_of_map_row validate_arity_def spec_row_def)

text \<open>An effect whose operands are all words.\<close>

definition word_effects :: "effect_op list" where
  "word_effects = [Op_memory_write, Op_divide_if, Op_access_violation_if, Op_rep_movsd, Op_rep_movs, Op_rep_stosd,
     Op_rep_stos, Op_rep_scas, Op_set_reg, Op_set_flag, Op_sync_eflags]"

definition effect_arity :: "effect_op \<Rightarrow> nat" where
  "effect_arity e = (case map_of effects_table (Eff e) of Some (Exact n) \<Rightarrow> nat n | _ \<Rightarrow> 0)"

definition aux_fits :: "effect_op \<Rightarrow> int \<Rightarrow> bool" where
  "aux_fits e aux \<longleftrightarrow> 0 \<le> aux
     \<and> (e \<in> {Op_memory_write, Op_rep_movs, Op_rep_stos, Op_rep_scas, Op_atomic_compare_exchange, Op_atomic_exchange}
         \<longrightarrow> aux \<in> {1, 2, 4}) \<and> (e = Op_set_reg \<longrightarrow> aux < 8) \<and> (e = Op_set_flag \<longrightarrow> aux < 7)"

lemma effect_table_arity: "map_of effects_table (Eff e) = Some (Exact (int (effect_arity e)))"
  by (cases e) (simp_all add: effect_arity_def effects_table_def)

lemma good_effect:
  assumes "e \<notin> {Op_call, Op_typed_x87}" "length args = effect_arity e" "aux_fits e aux" "\<forall>r\<in>set args. node_at s r"
  shows "effect_ok s (mk_action (Eff e) args aux)"
proof -
  have "is_ok (action_operation_v2 (mk_action (Eff e) args aux) False)"
  proof (rule effect_registered)
    show "map_of effects_table (act_op (mk_action (Eff e) args aux)) = Some (Exact (int (effect_arity e)))"
      by (simp add: effect_table_arity)
    show "arity_ok (int (length (act_args (mk_action (Eff e) args aux)))) (Exact (int (effect_arity e)))"
      using assms(2) by simp
    assume "act_op (mk_action (Eff e) args aux) \<in> {Eff Op_memory_write, Eff Op_rep_movs, Eff Op_rep_stos, Eff Op_rep_scas,
       Eff Op_atomic_compare_exchange, Eff Op_atomic_exchange}"
    then show "act_aux (mk_action (Eff e) args aux) \<in> {1, 2, 4}"
      using assms(3) unfolding aux_fits_def by auto
  qed
  moreover have "effect_in_range (int (length (cn_nodes s))) (int (length (cn_calls s))) (int (length (cn_x87 s)))
      (mk_action (Eff e) args aux)"
    using assms(1,4) by (auto simp: effect_in_range_def mk_action_def node_at_def)
  moreover have "effect_bounds (mk_action (Eff e) args aux)" "0 \<le> aux" "\<forall>r\<in>set args. 0 \<le> r"
    using assms(3,4) unfolding effect_bounds_def mk_action_def aux_fits_def node_at_def by auto
  ultimately show ?thesis unfolding effect_ok_def effect_good_def action_good_def by (simp add: mk_action_def)
qed

lemma native_effects: "set native_exception_effects_v2 = {''divide_if'', ''access_violation_if''}"
  by code_simp

lemma fault_effects_are: "fault_effect a \<longleftrightarrow> op_name (act_op a) \<in> {''divide_if'', ''access_violation_if''}"
  unfolding fault_effect_def native_effects by (rule refl)

lemma fault_effect_ops [simp]:
  "fault_effect (mk_action (Eff e) args aux) \<longleftrightarrow> e \<in> {Op_divide_if, Op_access_violation_if}"
  by (cases e) (simp_all add: fault_effects_are mk_action_def)

section \<open>Words and single effects\<close>

lemma eval_effect: "node_at s i \<Longrightarrow> effect_ok s (mk_action (Eff Op_eval_word) [i] 0)"
  by (rule good_effect) (simp_all add: effect_arity_def effects_table_def aux_fits_def)

text \<open>An evaluation is added for a word that the state lists as scheduled from then on.\<close>

lemma schedule_ok:
  assumes "compiler_ok sha t" "node_at t i"
  shows "compiler_ok sha (t\<lparr>cn_actions := cn_actions t @ [mk_action (Eff Op_eval_word) [i] 0], cn_scheduled := i # cn_scheduled t\<rparr>)"
proof -
  have "compiler_ok sha (t\<lparr>cn_actions := cn_actions t @ [mk_action (Eff Op_eval_word) [i] 0]\<rparr>)"
    by (rule add_effect_ok[OF assms(1) eval_effect[OF assms(2)]]) (simp_all add: words_read_def plain_effect_def)
  moreover have "evaluated (cn_actions t @ [mk_action (Eff Op_eval_word) [i] 0]) i"
    by (simp add: evaluated_def)
  ultimately show ?thesis by (simp add: compiler_ok_defs)
qed

lemma word_holds: "comp.holds sha (\<lambda>_. True) (word c raw) (\<lambda>i s. ready s i)"
proof (rule comp.holdsI)
  fix s i s' assume s: "compiler_ok sha s" "word c raw s = Inr (i, s')"
  from s(1) have "graph_ok s" by (simp add: compiler_ok_def)
  from word_step[OF s(2) this] obtain t where t: "graph_ok t" "graph_step s t" "node_at t i"
    and s': "s' = (if i \<in> set (cn_scheduled s) then t
        else t\<lparr>cn_actions := cn_actions s @ [mk_action (Eff Op_eval_word) [i] 0], cn_scheduled := i # cn_scheduled s\<rparr>)"
    by blast
  note ok = graph_step_ok[OF s(1) t(2,1)]
  have same: "cn_actions t = cn_actions s" "cn_scheduled t = cn_scheduled s" using t(2) by (auto simp: graph_step_def)
  show "compiler_ok sha s' \<and> extends s s' \<and> ready s' i"
  proof (cases "i \<in> set (cn_scheduled s)")
    case True
    then have "evaluated (cn_actions t) i" using ok same by (auto simp: compiler_ok_def)
    with True s' t(3) ok show ?thesis by (simp add: ready_def)
  next
    case False
    then have "compiler_ok sha s'" "node_at s' i" "evaluated (cn_actions s') i"
      using schedule_ok[OF conjunct1[OF ok] t(3)] s' same t(3) by (simp_all add: node_at_def evaluated_def)
    moreover have "extends s s'" using False s' same ok by (auto simp: extends_def)
    ultimately show ?thesis by (simp add: ready_def)
  qed
qed

lemma emit_word_effect:
  assumes "e \<notin> {Op_call, Op_typed_x87, Op_divide_if, Op_access_violation_if, Op_atomic_compare_exchange, Op_atomic_exchange}"
    "length args = effect_arity e" "aux_fits e aux"
  shows "comp.holds sha (\<lambda>s. \<forall>r\<in>set args. ready s r) (emit (mk_action (Eff e) args aux)) (\<lambda>_ _. True)"
proof (rule comp.holdsI)
  fix s x s' assume s: "compiler_ok sha s" "\<forall>r\<in>set args. ready s r" "emit (mk_action (Eff e) args aux) s = Inr (x, s')"
  have "effect_ok s (mk_action (Eff e) args aux)"
    using assms s(2) by (intro good_effect) (auto simp: ready_def)
  moreover have "\<forall>r\<in>set (words_read (cn_calls s) (mk_action (Eff e) args aux)). evaluated (cn_actions s) r"
    using assms(1) s(2) by (auto simp: words_read_def ready_def)
  moreover have "plain_effect (mk_action (Eff e) args aux)" using assms(1) by (simp add: plain_effect_def)
  ultimately show "compiler_ok sha s' \<and> extends s s' \<and> True"
    using add_effect_ok[OF s(1)] s(3) by simp
qed

lemma emit_fault_holds:
  assumes "e \<in> {Op_divide_if, Op_access_violation_if}" "length args = effect_arity e"
  shows "comp.holds sha (\<lambda>s. \<forall>r\<in>set args. ready s r) (emit_fault e args) (\<lambda>_ _. True)"
proof (rule comp.holdsI)
  fix s x s' assume s: "compiler_ok sha s" "\<forall>r\<in>set args. ready s r" "emit_fault e args s = Inr (x, s')"
  define a where "a = mk_action (Eff e) args (cn_next_fault s)"
  have s': "s' = s\<lparr>cn_actions := cn_actions s @ [a], cn_next_fault := cn_next_fault s + 1\<rparr>"
    using s(3) by (auto simp: emit_fault_def cbind_Ok a_def)
  have n: "0 \<le> cn_next_fault s" using s(1) by (simp add: compiler_ok_def numbered_def)
  have ok: "effect_ok s a"
    unfolding a_def using assms n s(2) by (intro good_effect) (auto simp: aux_fits_def ready_def)
  have "\<forall>r\<in>set (words_read (cn_calls s) a). evaluated (cn_actions s) r"
    using assms(1) s(2) by (auto simp: a_def words_read_def ready_def)
  then have ord: "in_order (cn_calls s) (cn_actions s')"
    using s(1) by (simp add: s' in_order_snoc compiler_ok_def)
  have "nat (cn_next_fault s + 1) = Suc (nat (cn_next_fault s))" using n by simp
  then have num: "numbered s'"
    using s(1) assms(1) n by (auto simp: s' numbered_def compiler_ok_def a_def)
  have "\<forall>b\<in>set (cn_actions s'). effect_ok s' b" "\<forall>a. cn_outcome s = Some a \<longrightarrow> outcome_ok s' a"
    using s(1) ok by (auto simp: s' compiler_ok_def evaluated_append elim!: effect_ok_sizes outcome_ok_sizes)
  then show "compiler_ok sha s' \<and> extends s s' \<and> True"
    using s(1) ord num by (auto simp: s' compiler_ok_def graph_ok_def extends_def evaluated_append)
qed

text \<open>A call, once every word of its frame is ready, is recorded and named by the next call effect.\<close>

lemma append_call_holds:
  "comp.holds sha (\<lambda>s. compiled_call (int (length (cn_nodes s))) cl \<and> (\<forall>r\<in>set (call_node_references cl). ready s r))
     (append_call cl) (\<lambda>_ _. True)"
proof (rule comp.holdsI)
  fix s x s' assume s: "compiler_ok sha s" "compiled_call (int (length (cn_nodes s))) cl \<and> (\<forall>r\<in>set (call_node_references cl). ready s r)"
    "append_call cl s = Inr (x, s')"
  define a where "a = mk_action (Eff Op_call) [int (length (cn_calls s))] 0"
  have s': "s' = s\<lparr>cn_calls := cn_calls s @ [cl], cn_actions := cn_actions s @ [a],
      cn_available := call_index cl # cn_available s\<rparr>"
    using s(3) by (auto simp: append_call_def cbind_Ok a_def)
  have "is_ok (action_operation_v2 a False)"
    unfolding a_def by (rule effect_registered[of _ "Exact 1"]) (simp_all add: effects_table_def)
  then have ok: "effect_ok s' a"
    by (simp add: effect_ok_def effect_bounds_def effect_good_def action_good_def effect_in_range_def s' a_def py_index_unfold)
  have same: "words_read (cn_calls s @ [cl]) b = words_read (cn_calls s) b" if "b \<in> set (cn_actions s)" for b
  proof -
    have "effect_ok s b" using s(1) that by (simp add: compiler_ok_def)
    then show ?thesis
      by (auto simp: words_read_def nth_append effect_ok_def effect_good_def action_good_def effect_in_range_def py_index_unfold
          split: list.split if_split_asm)
  qed
  have "words_read (cn_calls s @ [cl]) a = call_node_references cl"
    by (simp add: words_read_def a_def)
  moreover have "in_order (cn_calls s @ [cl]) (cn_actions s)"
    using s(1) same unfolding compiler_ok_def in_order_def by simp
  ultimately have ord: "in_order (cn_calls s') (cn_actions s')"
    using s(2) by (simp add: s' in_order_snoc ready_def)
  have num: "numbered s'"
    using s(1) by (auto simp: s' numbered_def compiler_ok_def a_def)
  have "\<forall>b\<in>set (cn_actions s'). effect_ok s' b" "\<forall>a. cn_outcome s = Some a \<longrightarrow> outcome_ok s' a"
    using s(1) ok by (auto simp: s' compiler_ok_def evaluated_append elim!: effect_ok_sizes outcome_ok_sizes)
  then show "compiler_ok sha s' \<and> extends s s' \<and> True"
    using s(1,2) ord num by (auto simp: s' compiler_ok_def graph_ok_def extends_def evaluated_append)
qed

lemma append_x87_holds: "comp.holds sha (\<lambda>_. x87_good sha p) (append_x87 p) (\<lambda>_ _. True)"
proof (rule comp.holdsI)
  fix s x s' assume s: "compiler_ok sha s" "x87_good sha p" "append_x87 p s = Inr (x, s')"
  define a where "a = mk_action (Eff Op_typed_x87) [int (length (cn_x87 s))] 0"
  have s': "s' = s\<lparr>cn_x87 := cn_x87 s @ [p], cn_actions := cn_actions s @ [a]\<rparr>"
    using s(3) by (auto simp: append_x87_def cbind_Ok a_def)
  have "is_ok (action_operation_v2 a False)"
    unfolding a_def by (rule effect_registered[of _ "Exact 1"]) (simp_all add: effects_table_def)
  then have ok: "effect_ok s' a"
    by (simp add: effect_ok_def effect_bounds_def effect_good_def action_good_def effect_in_range_def s' a_def py_index_unfold)
  have ord: "in_order (cn_calls s') (cn_actions s')" "numbered s'"
    using s(1) by (simp_all add: s' in_order_snoc compiler_ok_def numbered_def a_def words_read_def)
  have "\<forall>b\<in>set (cn_actions s'). effect_ok s' b" "\<forall>a. cn_outcome s = Some a \<longrightarrow> outcome_ok s' a"
    using s(1) ok by (auto simp: s' compiler_ok_def evaluated_append elim!: effect_ok_sizes outcome_ok_sizes)
  then show "compiler_ok sha s' \<and> extends s s' \<and> True"
    using s(1,2) ord by (auto simp: s' compiler_ok_def graph_ok_def extends_def evaluated_append)
qed

text \<open>The evaluation of the observed word is replaced by the atomic action, which gives it its value.\<close>

lemma atomic_holds:
  assumes "e \<in> {Op_atomic_compare_exchange, Op_atomic_exchange}" "Suc (length args) = effect_arity e" "w \<in> {1, 2, 4}"
  shows "comp.holds sha (\<lambda>s. \<forall>r\<in>set args. ready s r)
    (cbind (observed_value c raw) (\<lambda>n. emit (mk_action (Eff e) (args @ [n]) w))) (\<lambda>_ _. True)"
proof (rule comp.holdsI)
  fix s x s' assume s: "compiler_ok sha s" "\<forall>r\<in>set args. ready s r"
    "cbind (observed_value c raw) (\<lambda>n. emit (mk_action (Eff e) (args @ [n]) w)) s = Inr (x, s')"
  obtain n u where u: "word c raw s = Inr (n, u)" "length (cn_actions u) = length (cn_actions s) + 1"
    and s': "s' = u\<lparr>cn_actions := butlast (cn_actions u) @ [mk_action (Eff e) (args @ [n]) w]\<rparr>"
    using s(3) by (auto simp: observed_value_def cbind_Ok)
  have "graph_ok s" using s(1) by (simp add: compiler_ok_def)
  from word_step[OF u(1) this] obtain t where t: "graph_ok t" "graph_step s t" "node_at t n"
    and ucase: "u = (if n \<in> set (cn_scheduled s) then t
        else t\<lparr>cn_actions := cn_actions s @ [mk_action (Eff Op_eval_word) [n] 0], cn_scheduled := n # cn_scheduled s\<rparr>)"
    by blast
  have same: "cn_actions t = cn_actions s" "cn_scheduled t = cn_scheduled s" "cn_calls t = cn_calls s"
    using t(2) by (auto simp: graph_step_def)
  have u': "u = t\<lparr>cn_actions := cn_actions s @ [mk_action (Eff Op_eval_word) [n] 0], cn_scheduled := n # cn_scheduled s\<rparr>"
    using ucase u(2) same by (auto split: if_split_asm)
  define a where "a = mk_action (Eff e) (args @ [n]) w"
  have final: "s' = t\<lparr>cn_actions := cn_actions t @ [a], cn_scheduled := n # cn_scheduled t\<rparr>"
    by (simp add: s' u' same a_def)
  note ok = graph_step_ok[OF s(1) t(2,1)]
  have args: "\<forall>r\<in>set args. ready t r"
    using s(2) ok stable_ready unfolding comp.stable_def by blast
  have "effect_ok t a"
    unfolding a_def using assms args t(3) by (intro good_effect) (auto simp: aux_fits_def ready_def)
  moreover have "\<forall>r\<in>set (words_read (cn_calls t) a). evaluated (cn_actions t) r" "plain_effect a"
    using assms(1) args by (auto simp: a_def words_read_def plain_effect_def ready_def)
  ultimately have "compiler_ok sha (t\<lparr>cn_actions := cn_actions t @ [a]\<rparr>)"
    using ok by (intro add_effect_ok) simp_all
  moreover have "evaluated (cn_actions t @ [a]) n" using assms(1) by (auto simp: evaluated_def a_def)
  ultimately have "compiler_ok sha s'" by (simp add: final compiler_ok_defs)
  moreover have "extends s s'" using ok by (auto simp: final extends_def)
  ultimately show "compiler_ok sha s' \<and> extends s s' \<and> True" by simp
qed

section \<open>Steps that add no effect\<close>

lemma modify_other:
  assumes "\<And>s. compiler_ok sha s \<Longrightarrow> compiler_ok sha (f s) \<and> extends s (f s)"
  shows "comp.holds sha P (modify f) (\<lambda>_ _. True)"
  using assms by (auto intro: comp.holdsI)

lemma counter_holds: "comp.holds sha P (modify (\<lambda>s. s\<lparr>cn_memory_count := cn_memory_count s + n\<rparr>)) (\<lambda>_ _. True)"
  by (rule modify_other) simp

lemma local_holds: "comp.holds sha P (modify (\<lambda>s. s\<lparr>cn_local := b\<rparr>)) (\<lambda>_ _. True)"
  by (rule modify_other) simp

lemma atomic_id_holds: "comp.holds sha P (modify (\<lambda>s. s\<lparr>cn_atomic_ids := ident # cn_atomic_ids s\<rparr>)) (\<lambda>_ _. True)"
  by (rule modify_other) simp

lemma reset_holds: "comp.holds sha P reset_instruction_expression_cache (\<lambda>_ _. True)"
  unfolding reset_instruction_expression_cache_def by (rule modify_other) (auto intro: memo_subset_ok)

lemma invalidate_holds: "comp.holds sha P (invalidate_memory_observation key) (\<lambda>_ _. True)"
  unfolding invalidate_memory_observation_def Let_def by (rule modify_other) (auto intro: memo_subset_ok)

lemma consume_holds: "comp.holds sha P (consume_external k) (\<lambda>_ _. True)"
  by (rule comp.holdsI) (auto simp: consume_external_def cbind_Ok)

text \<open>A load that is observed again is a new node with an evaluation of its own.\<close>

lemma ordered_memory_read_holds:
  assumes "w \<in> {1, 2, 4}"
  shows "comp.holds sha (\<lambda>_. True) (ordered_memory_read c raw w) (\<lambda>_ _. True)"
proof -
  define key where "key = canonical_json (JObj [(''op'', JStr ''load''), (''width'', JInt w), (''address'', raw)])"
  have tail: "comp.holds sha (\<lambda>s. ready s address)
     (cbind (add_node key [key] (mk_node (Word Op_load) [address] w 0)) (\<lambda>index.
      cbind (emit (mk_action (Eff Op_eval_word) [index] 0)) (\<lambda>_.
      cbind (modify (\<lambda>s. s\<lparr>cn_scheduled := index # cn_scheduled s\<rparr>)) (\<lambda>_. creturn index)))) (\<lambda>_ _. True)" for address
  proof (rule comp.holdsI)
    fix s i s' assume s: "compiler_ok sha s" "ready s address"
      "cbind (add_node key [key] (mk_node (Word Op_load) [address] w 0)) (\<lambda>index.
       cbind (emit (mk_action (Eff Op_eval_word) [index] 0)) (\<lambda>_.
       cbind (modify (\<lambda>s. s\<lparr>cn_scheduled := index # cn_scheduled s\<rparr>)) (\<lambda>_. creturn index))) s = Inr (i, s')"
    then obtain t where t: "add_node key [key] (mk_node (Word Op_load) [address] w 0) s = Inr (i, t)"
      and s': "s' = t\<lparr>cn_actions := cn_actions t @ [mk_action (Eff Op_eval_word) [i] 0], cn_scheduled := i # cn_scheduled t\<rparr>"
      by (auto simp: cbind_Ok)
    have "compiled_node (int (length (cn_nodes s))) (mk_node (Word Op_load) [address] w 0)"
      using load_node[of w address "int (length (cn_nodes s))"] assms s(2) by (simp add: ready_def node_at_def mk_node_def)
    moreover have "graph_ok s" using s(1) by (simp add: compiler_ok_def)
    ultimately have step: "graph_ok t" "graph_step s t" "node_at t i"
      using add_node_step[OF t] by (auto simp: node_at_def)
    note ok = graph_step_ok[OF s(1) step(2,1)]
    have "compiler_ok sha s'" using schedule_ok[OF conjunct1[OF ok] step(3)] by (simp add: s')
    moreover have "extends s s'" using ok by (auto simp: s' extends_def)
    ultimately show "compiler_ok sha s' \<and> extends s s' \<and> True" by simp
  qed
  show ?thesis
    unfolding ordered_memory_read_def Let_def key_def[symmetric]
  proof (rule comp.holds_bind[OF word_holds])
    fix address
    show "comp.holds sha (\<lambda>s. True \<and> ready s address) (cbind (invalidate_memory_observation key) (\<lambda>_.
        cbind (add_node key [key] (mk_node (Word Op_load) [address] w 0)) (\<lambda>index.
        cbind (emit (mk_action (Eff Op_eval_word) [index] 0)) (\<lambda>_.
        cbind (modify (\<lambda>s. s\<lparr>cn_scheduled := index # cn_scheduled s\<rparr>)) (\<lambda>_. creturn index))))) (\<lambda>_ _. True)"
      by (rule comp.holds_bind[OF invalidate_holds comp.holds_weaken[OF tail]]) auto
  qed simp
qed

end
