(* ===== verification/Compiler_Methods.thy ===== *)
theory Compiler_Methods
  imports Compiler_Safety
begin

text \<open>
  Every method of the compiler keeps the invariant of \<open>Compiler_Safety\<close>: one lemma per definition, in
  the order of the code, each derived from the rules of \<open>Compiler_Logic\<close> and the lemmas of the methods
  it calls.
\<close>

section \<open>Rules\<close>

named_theorems keeps

lemma keeps_any: "comp.holds sha (\<lambda>_. True) m Q \<Longrightarrow> comp.holds sha P m Q"
  by (erule comp.holds_weaken) simp_all

lemma keeps_drop: "comp.holds sha P m Q \<Longrightarrow> comp.holds sha P m (\<lambda>_ _. True)"
  by (erule comp.holds_weaken) simp_all

lemma keeps_done: "comp.holds sha P (creturn x) (\<lambda>_ _. True)"
  by (rule comp.holds_creturn) simp

lemma keeps_raise: "comp.holds sha P (clift (Raise e)) Q" "comp.holds sha P (clift malformed) Q" "comp.holds sha P (refuse code) Q"
  by (rule comp.holdsI, simp add: malformed_def)+

text \<open>Computations without a postcondition in sequence.\<close>

lemma keeps_bind:
  assumes "comp.holds sha (\<lambda>_. True) m (\<lambda>_ _. True)" "\<And>x. comp.holds sha (\<lambda>_. True) (f x) Q"
  shows "comp.holds sha P (cbind m f) Q"
  by (rule keeps_any, rule comp.holds_bind[OF assms(1) keeps_any[OF assms(2)]]) simp

lemma keeps_clift:
  assumes "\<And>x. r = Inr x \<Longrightarrow> comp.holds sha P (f x) Q"
  shows "comp.holds sha P (cbind (clift r) f) Q"
  using assms by (cases r) (auto simp: comp.holds_def cbind_Ok)

lemma keeps_check:
  assumes "ok \<Longrightarrow> comp.holds sha P m Q"
  shows "comp.holds sha P (cbind (check ok code) (\<lambda>_. m)) Q"
  using assms by (cases ok) (auto simp: comp.holds_def cbind_Ok)

lemma keeps_reads:
  assumes "\<And>x. comp.holds sha P (f x) Q"
  shows "comp.holds sha P (cbind (reads g) f) Q"
  using assms by (auto simp: comp.holds_def cbind_Ok)

lemma word_keeps: "comp.holds sha P (word c raw) (\<lambda>i s. ready s i)"
  by (rule keeps_any) (rule word_holds)

lemmas quiet_keeps = counter_holds local_holds atomic_id_holds reset_holds invalidate_holds consume_holds

text \<open>A word and what follows, with the word ready.\<close>

lemma keeps_word:
  assumes "\<And>i. comp.holds sha (\<lambda>s. P s \<and> ready s i) (f i) Q" "comp.stable P"
  shows "comp.holds sha P (cbind (word c raw) f) Q"
  by (rule comp.holds_bind[OF word_keeps assms])

lemma words_keeps:
  "comp.holds sha P (mapC (\<lambda>k. word c (f k)) ks) (\<lambda>is s. length is = length ks \<and> (\<forall>r\<in>set is. ready s r))"
proof (rule keeps_any, rule comp.holds_weaken)
  show "comp.holds sha (\<lambda>_. True) (mapC (\<lambda>k. word c (f k)) ks) (\<lambda>is s. list_all2 (\<lambda>_ i. ready s i) ks is)"
    by (rule comp.holds_mapC[OF word_keeps]) auto
qed (auto simp: list_all2_conv_all_nth in_set_conv_nth)

lemma keeps_words:
  assumes "\<And>is. length is = length ks \<Longrightarrow> comp.holds sha (\<lambda>s. P s \<and> (\<forall>r\<in>set is. ready s r)) (f is) Q" "comp.stable P"
  shows "comp.holds sha P (cbind (mapC (\<lambda>k. word c (g k)) ks) f) Q"
proof (rule comp.holds_bind[OF words_keeps _ assms(2)])
  show "comp.holds sha (\<lambda>s. P s \<and> length is = length ks \<and> (\<forall>r\<in>set is. ready s r)) (f is) Q" for "is"
    using assms(1)[of "is"] unfolding comp.holds_def by blast
qed

section \<open>Memory and fault events\<close>

lemma memory_event_keeps: "comp.holds sha P (memory_event c event) (\<lambda>_ _. True)"
  unfolding memory_event_def
proof (rule keeps_any, rule keeps_clift)
  fix w assume "width_field (jget event ''width'') = Inr w"
  then have w: "w \<in> {1, 2, 4}" by (simp add: field_iffs)
  have "comp.holds sha (\<lambda>s. (True \<and> ready s a) \<and> ready s v) (emit (mk_action (Eff Op_memory_write) [a, v] w)) (\<lambda>_ _. True)" for a v
    by (rule comp.holds_weaken[OF emit_word_effect]) (use w in \<open>auto simp: effect_arity_def effects_table_def aux_fits_def\<close>)
  then show "comp.holds sha (\<lambda>_. True) (if jget event ''kind'' = JStr ''read''
      then cbind (ordered_memory_read c (jget event ''address'') w) (\<lambda>_. creturn ())
      else if jget event ''kind'' = JStr ''write'' then
        cbind (word c (jget event ''address'')) (\<lambda>address. cbind (word c (jget event ''value'')) (\<lambda>v.
          emit (mk_action (Eff Op_memory_write) [address, v] w)))
      else clift malformed) (\<lambda>_ _. True)"
    by (intro comp.holds_if keeps_bind[OF ordered_memory_read_holds[OF w]] keeps_done keeps_word keeps_raise) auto
qed

lemma fault_event_keeps: "comp.holds sha P (fault_event c event) (\<lambda>_ _. True)"
proof -
  have one: "comp.holds sha (\<lambda>s. True \<and> ready s a) (emit_fault Op_divide_if [a]) (\<lambda>_ _. True)" for a
    by (rule comp.holds_weaken[OF emit_fault_holds]) (auto simp: effect_arity_def effects_table_def)
  have three: "comp.holds sha (\<lambda>s. ((True \<and> ready s a) \<and> ready s b) \<and> ready s d)
      (emit_fault Op_access_violation_if [a, b, d]) (\<lambda>_ _. True)" for a b d
    by (rule comp.holds_weaken[OF emit_fault_holds]) (auto simp: effect_arity_def effects_table_def)
  show ?thesis
    unfolding fault_event_def by (rule keeps_any) (intro comp.holds_if keeps_word keeps_raise one three; auto)
qed

section \<open>String instructions\<close>

lemma emit_words_keeps:
  assumes "e \<notin> {Op_call, Op_typed_x87, Op_divide_if, Op_access_violation_if, Op_atomic_compare_exchange, Op_atomic_exchange}"
    "length keys = effect_arity e" "aux_fits e aux"
  shows "comp.holds sha P (emit_words c event e keys aux) (\<lambda>_ _. True)"
  unfolding emit_words_def words_of_def
proof (rule keeps_any, rule keeps_words)
  fix "is" :: "int list" assume "length is = length keys"
  with assms show "comp.holds sha (\<lambda>s. True \<and> (\<forall>r\<in>set is. ready s r)) (emit (mk_action (Eff e) is aux)) (\<lambda>_ _. True)"
    by (intro comp.holds_weaken[OF emit_word_effect]) auto
qed simp

lemma checked_string_Ok:
  "checked_string_event event k name model s = Inr (w, s') \<Longrightarrow> s' = s \<and> w \<in> {1, 2, 4}"
  by (auto simp: checked_string_event_def Let_def cbind_Ok field_iffs split: sum.split_asm)

lemma checked_string_keeps: "comp.holds sha P (checked_string_event event k name model) (\<lambda>w _. w \<in> {1, 2, 4})"
  by (rule comp.holdsI) (auto dest: checked_string_Ok)

lemma checked_rep_scas_keeps: "comp.holds sha P (checked_rep_scas_event event k) (\<lambda>_ _. True)"
  by (rule comp.holdsI)
    (auto simp: checked_rep_scas_event_def split: sum.split_asm py_error.split_asm dest: checked_string_Ok)

lemma string_arities [simp]:
  "effect_arity Op_rep_movsd = 4" "effect_arity Op_rep_movs = 4" "effect_arity Op_rep_stosd = 4"
  "effect_arity Op_rep_stos = 4" "effect_arity Op_rep_scas = 4" "effect_arity Op_set_reg = 1" "effect_arity Op_set_flag = 1"
  "effect_arity Op_sync_eflags = 0" "effect_arity Op_atomic_compare_exchange = 4" "effect_arity Op_atomic_exchange = 3"
  by (simp_all add: effect_arity_def effects_table_def)

lemma sized_string_keeps:
  assumes "e \<in> {Op_rep_movs, Op_rep_stos}" "length keys = 4"
  shows "comp.holds sha P (cbind (checked_string_event event k name model) (\<lambda>w.
    cbind (check ok code) (\<lambda>_. emit_words c event e keys w))) (\<lambda>_ _. True)"
proof -
  have "comp.holds sha (\<lambda>s. True \<and> w \<in> {1, 2, 4}) (cbind (check ok code) (\<lambda>_. emit_words c event e keys w)) (\<lambda>_ _. True)" for w
  proof (rule comp.holds_assume)
    assume "w \<in> {1, 2, 4}"
    then have "aux_fits e w" by (auto simp: aux_fits_def)
    then show "comp.holds sha (\<lambda>s. True \<and> w \<in> {1, 2, 4}) (cbind (check ok code) (\<lambda>_. emit_words c event e keys w)) (\<lambda>_ _. True)"
      using assms by (intro keeps_check emit_words_keeps) auto
  qed
  then show ?thesis by (intro keeps_any[OF comp.holds_bind[OF checked_string_keeps]]) auto
qed

lemma string_event_keeps: "comp.holds sha P (string_event c k event i) (\<lambda>_ _. True)"
proof -
  have copy: "comp.holds sha P (emit_words c event Op_rep_movsd string_copy_fields 0) (\<lambda>_ _. True)"
    and fill: "comp.holds sha P (emit_words c event Op_rep_stosd string_fill_fields 0) (\<lambda>_ _. True)"
    and scan: "comp.holds sha P (emit_words c event Op_rep_scas [''accumulator'', ''destination'', ''count'', ''direction_flag''] 1)
      (\<lambda>_ _. True)" for P
    by (rule emit_words_keeps, simp_all add: string_copy_fields_def string_fill_fields_def aux_fits_def)+
  have sizes: "length string_copy_fields = 4" "length string_fill_fields = 4"
    by (simp_all add: string_copy_fields_def string_fill_fields_def)
  show ?thesis
    unfolding string_event_def
    by (intro comp.holds_if copy keeps_clift keeps_check fill keeps_bind[OF checked_rep_scas_keeps] scan sized_string_keeps)
      (simp_all add: sizes)
qed

section \<open>Calls\<close>

lemma stack_input_keeps:
  "comp.holds sha P (compile_stack_input c raw) (\<lambda>r s. 0 \<le> fst r \<and> fst (snd r) \<in> {1, 2, 4} \<and> ready s (snd (snd r)))"
  unfolding compile_stack_input_def
  by (rule keeps_any, intro keeps_clift keeps_word comp.holds_creturn) (auto simp: field_iffs)

lemma list_all2_right: "list_all2 (\<lambda>_ y. Q y) xs ys \<Longrightarrow> y \<in> set ys \<Longrightarrow> Q y"
  by (auto simp: list_all2_conv_all_nth in_set_conv_nth)

abbreviation stack_input_ready :: "cstate \<Rightarrow> int \<times> int \<times> int \<Rightarrow> bool" where
  "stack_input_ready s r \<equiv> 0 \<le> fst r \<and> fst (snd r) \<in> {1, 2, 4} \<and> ready s (snd (snd r))"

lemma stack_inputs_keeps:
  "comp.holds sha P (mapC (compile_stack_input c) raws) (\<lambda>rs s. \<forall>r\<in>set rs. stack_input_ready s r)"
proof (rule keeps_any, rule comp.holds_weaken)
  show "comp.holds sha (\<lambda>_. True) (mapC (compile_stack_input c) raws) (\<lambda>rs s. list_all2 (\<lambda>_ r. stack_input_ready s r) raws rs)"
    by (rule comp.holds_mapC[OF stack_input_keeps]) (intro comp.stable_conj comp.stable_const stable_ready)+
  show "\<forall>r\<in>set rs. stack_input_ready s r" if "list_all2 (\<lambda>_ r. stack_input_ready s r) raws rs" for rs s
    using list_all2_right[OF that] by blast
qed simp

lemma target_keeps:
  "comp.holds sha P (if b then cbind (word c raw) (\<lambda>n. creturn (Some n)) else creturn None) (\<lambda>t s. \<forall>n. t = Some n \<longrightarrow> ready s n)"
  by (rule keeps_any, intro comp.holds_if keeps_word comp.holds_creturn) auto

lemma call_event_keeps:
  assumes "jget event ''kind'' = JStr k" "k \<noteq> []" "0 \<le> event_index"
  shows "comp.holds sha P (call_event c k event event_index) (\<lambda>_ _. True)"
  unfolding call_event_def words_of_def
proof (rule keeps_any, intro keeps_clift keeps_words)
  fix regs flgs and rs fs as :: "int list"
  assume len: "length rs = length register_names" "length fs = length flag_names"
  let ?P = "\<lambda>s. ((True \<and> (\<forall>r\<in>set rs. ready s r)) \<and> (\<forall>r\<in>set fs. ready s r)) \<and> (\<forall>r\<in>set as. ready s r)"
  have final: "comp.holds sha
      (\<lambda>s. (?P s \<and> (\<forall>r\<in>set stack. stack_input_ready s r))
         \<and> (\<forall>n. target = Some n \<longrightarrow> ready s n))
      (append_call \<lparr>call_kind = k, instruction_rva = rva, call_index = event_index, target_node = target,
         call_target_rva = trva, return_rva = ret, dll = d, symbol = sym, ordinal = ord, register_nodes = rs,
         flag_nodes = fs, argument_nodes = as, stack_inputs = stack, native_exception_operations = ops\<rparr>) (\<lambda>_ _. True)"
    if "optional_field nonnegative (jget event ''ordinal'') = Inr ord" "u32_field (jget event ''instruction_rva'') = Inr rva"
      "u32_wrapping v = Inr trva" "u32_field (jget event ''return_rva'') = Inr ret"
      "native_exception_operations_for_call_v2 event False = Inr ops"
    for stack target ord rva trva ret ops d sym v
  proof (rule comp.holds_weaken[OF append_call_holds])
    have native: "native_operations_good (JStr k) ops" using native_operations_Ok[OF that(5)] assms(1) by simp
    have nums: "0 \<le> rva" "rva < 2 ^ 32" "0 \<le> trva" "trva < 2 ^ 32" "0 \<le> ret" "ret < 2 ^ 32" "\<forall>k. ord = Some k \<longrightarrow> 0 \<le> k"
      using that u32_wrapping_Ok[OF that(3)] by (simp_all add: field_iffs)
    fix s assume ready: "(?P s \<and> (\<forall>r\<in>set stack. stack_input_ready s r))
         \<and> (\<forall>n. target = Some n \<longrightarrow> ready s n)"
    let ?cl = "\<lparr>call_kind = k, instruction_rva = rva, call_index = event_index, target_node = target,
         call_target_rva = trva, return_rva = ret, dll = d, symbol = sym, ordinal = ord, register_nodes = rs,
         flag_nodes = fs, argument_nodes = as, stack_inputs = stack, native_exception_operations = ops\<rparr>"
    have refs: "\<forall>r\<in>set (call_node_references ?cl). ready s r"
      using ready by (auto simp: call_node_references_def split: option.splits)
    then have "\<forall>r\<in>set (call_node_references (?cl\<lparr>dll := None, symbol := None\<rparr>)). r < int (length (cn_nodes s))"
      by (simp add: call_node_references_def ready_def node_at_def)
    moreover have "\<forall>x\<in>set (rs @ fs @ as). 0 \<le> x" "\<forall>n. target = Some n \<longrightarrow> 0 \<le> n" "\<forall>r\<in>set stack. 0 \<le> fst r \<and> fst (snd r) \<in> {1, 2, 4} \<and> 0 \<le> snd (snd r)"
      using ready by (auto simp: ready_def node_at_def)
    moreover have "length rs = length registers_table" "length fs = length flags_table"
      using len by (simp_all add: register_names_def flag_names_def)
    ultimately have "compiled_call (int (length (cn_nodes s))) ?cl"
      unfolding compiled_call_def call_good_def using native nums assms(2,3) by simp
    with refs show "compiled_call (int (length (cn_nodes s))) ?cl \<and> (\<forall>r\<in>set (call_node_references ?cl). ready s r)" by blast
  qed simp
  show "comp.holds sha ?P (cbind (mapC (compile_stack_input c) (optional_list (jget event ''stack_inputs''))) (\<lambda>stack.
     cbind (if k = ''indirect_call'' then cbind (word c (jget event ''target'')) (\<lambda>n. creturn (Some n))
            else creturn None) (\<lambda>target.
     cbind (clift (optional_field nonnegative (jget event ''ordinal''))) (\<lambda>ord.
     cbind (clift (u32_field (jget event ''instruction_rva''))) (\<lambda>rva.
     cbind (clift (u32_wrapping (let t = jget event ''target_rva'' in if py_truthy t then t else JInt 0))) (\<lambda>target_rva.
     cbind (clift (u32_field (jget event ''return_rva''))) (\<lambda>ret.
     cbind (clift (native_exception_operations_for_call_v2 event False)) (\<lambda>native_ops.
       append_call \<lparr>call_kind = k, instruction_rva = rva, call_index = event_index, target_node = target,
           call_target_rva = target_rva, return_rva = ret, dll = optional_text (jget event ''dll''),
           symbol = optional_text (jget event ''symbol''), ordinal = ord, register_nodes = rs,
           flag_nodes = fs, argument_nodes = as, stack_inputs = stack,
           native_exception_operations = native_ops\<rparr>)))))))) (\<lambda>_ _. True)"
    by (rule comp.holds_bind[OF stack_inputs_keeps], rule comp.holds_bind[OF target_keeps],
        intro keeps_clift final) auto
qed auto

lemma external_event_keeps:
  assumes "0 \<le> k"
  shows "comp.holds sha P (external_event c event k) (\<lambda>_ _. True)"
  unfolding external_event_def
  by (rule keeps_bind[OF consume_holds])
    (intro keeps_clift comp.holds_if string_event_keeps call_event_keeps keeps_raise; auto simp: assms field_iffs)

section \<open>Outcomes\<close>

lemma good_outcome:
  assumes "map_of terminators_table (Term e) = Some (Exact (int (length args)))" "\<forall>r\<in>set args. 0 \<le> r"
    "\<forall>r\<in>set (outcome_references (mk_action (Term e) args 0)). ready s r"
  shows "outcome_ok s (mk_action (Term e) args 0)"
proof -
  have "is_ok (action_operation_v2 (mk_action (Term e) args 0) True)"
    using assms(1) by (auto simp: action_operation_v2_def terminator_operations_v2_def map_of_map_row validate_arity_def spec_row_def)
  then show ?thesis
    using assms(2,3) by (simp add: outcome_ok_def terminator_good_def action_good_def ready_def node_at_def)
qed

lemma compile_outcome_keeps: "comp.holds sha P (compile_outcome c outcome) (\<lambda>a s. outcome_ok s a)"
  unfolding compile_outcome_def
  by (rule keeps_any, intro keeps_clift comp.holds_if keeps_word comp.holds_creturn good_outcome keeps_raise
      comp.stable_conj comp.stable_const stable_ready)
    (auto simp: terminators_table_def outcome_references_def field_iffs ready_def node_at_def)

lemma outcome_ok_extends: "outcome_ok s a \<Longrightarrow> extends s s' \<Longrightarrow> outcome_ok s' a"
  by (erule outcome_ok_sizes) (auto simp: extends_def evaluated_append)

lemma set_outcome_keeps: "comp.holds sha P (set_outcome c control) (\<lambda>_ _. True)"
proof -
  have "comp.holds sha (\<lambda>s. True \<and> outcome_ok s a) (modify (\<lambda>s. s\<lparr>cn_outcome := Some a\<rparr>)) (\<lambda>_ _. True)" for a
    by (rule comp.holdsI) (simp add: compiler_ok_defs)
  then show ?thesis
    unfolding set_outcome_def by (intro keeps_any[OF comp.holds_bind[OF compile_outcome_keeps]]) auto
qed

section \<open>Register and flag updates\<close>

text \<open>An assignment whose new value has been evaluated.\<close>

definition update_ready :: "cstate \<Rightarrow> action \<Rightarrow> bool" where
  "update_ready s a \<longleftrightarrow> (\<exists>e. act_op a = Eff e \<and> e \<in> {Op_set_reg, Op_set_flag} \<and> aux_fits e (act_aux a))
     \<and> length (act_args a) = 1 \<and> (\<forall>r\<in>set (act_args a). ready s r)"

lemma stable_update [intro!]: "comp.stable (\<lambda>s. update_ready s a)"
  unfolding update_ready_def by (intro comp.stable_conj comp.stable_const stable_readies)

lemma stable_updates [intro!]: "comp.stable (\<lambda>s. \<forall>a\<in>set acts. update_ready s a)"
  by (rule comp.stable_ball) blast

lemma emit_update_keeps: "comp.holds sha (\<lambda>s. update_ready s a) (emit a) (\<lambda>_ _. True)"
proof (rule comp.holdsI)
  fix s x s' assume s: "compiler_ok sha s" "update_ready s a" "emit a s = Inr (x, s')"
  then obtain e where e: "act_op a = Eff e" "e \<in> {Op_set_reg, Op_set_flag}" "aux_fits e (act_aux a)" by (auto simp: update_ready_def)
  have a: "a = mk_action (Eff e) (act_args a) (act_aux a)" using e(1) by (simp add: mk_action_def)
  have "comp.holds sha (\<lambda>s. \<forall>r\<in>set (act_args a). ready s r) (emit (mk_action (Eff e) (act_args a) (act_aux a))) (\<lambda>_ _. True)"
    using e s(2) by (intro emit_word_effect) (auto simp: update_ready_def)
  from comp.holdsD[OF this[folded a] s(1) _ s(3)] s(2) show "compiler_ok sha s' \<and> extends s s' \<and> True"
    by (simp add: update_ready_def)
qed

lemma emit_updates_keeps: "comp.holds sha (\<lambda>s. \<forall>a\<in>set acts. update_ready s a) (mapC emit acts) (\<lambda>_ _. True)"
proof (rule keeps_drop, rule comp.holds_mapC)
  show "comp.holds sha (\<lambda>s. \<forall>a\<in>set acts. update_ready s a) (emit a) (\<lambda>_ _. True)" if "a \<in> set acts" for a
    by (rule comp.holds_weaken[OF emit_update_keeps]) (use that in blast)+
qed auto

lemma register_update_keeps: "comp.holds sha P (register_update c owned raw) (\<lambda>acts s. \<forall>a\<in>set acts. update_ready s a)"
  unfolding register_update_def
  by (rule keeps_any, intro keeps_clift comp.holds_if keeps_word comp.holds_creturn)
    (auto simp: update_ready_def aux_fits_def dest: slot_bounds)

lemma flag_update_keeps: "comp.holds sha P (flag_update c owned raw) (\<lambda>acts s. \<forall>a\<in>set acts. update_ready s a)"
  unfolding flag_update_def
  by (rule keeps_any, intro keeps_clift comp.holds_if keeps_word comp.holds_creturn)
    (auto simp: update_ready_def aux_fits_def dest: slot_bounds)

lemma concat_updates:
  assumes "\<And>raw. comp.holds sha (\<lambda>_. True) (f raw) (\<lambda>acts s. \<forall>a\<in>set acts. update_ready s a)"
  shows "comp.holds sha P (mapC f raws) (\<lambda>rs s. \<forall>a\<in>set (concat rs). update_ready s a)"
proof (rule keeps_any, rule comp.holds_weaken)
  show "comp.holds sha (\<lambda>_. True) (mapC f raws) (\<lambda>rs s. list_all2 (\<lambda>_ acts. \<forall>a\<in>set acts. update_ready s a) raws rs)"
    by (rule comp.holds_mapC[OF assms]) auto
  show "\<forall>a\<in>set (concat rs). update_ready s a" if "list_all2 (\<lambda>_ acts. \<forall>a\<in>set acts. update_ready s a) raws rs" for rs s
    using list_all2_right[OF that] by auto
qed simp

lemma compile_updates_keeps:
  "comp.holds sha P (compile_updates c owned regs flgs) (\<lambda>acts s. \<forall>a\<in>set acts. update_ready s a)"
  unfolding compile_updates_def
  by (rule keeps_any, rule comp.holds_bind[OF concat_updates[OF register_update_keeps]],
      rule comp.holds_bind[OF concat_updates[OF flag_update_keeps]], rule comp.holds_creturn) auto

section \<open>Atomic actions\<close>

lemma atomic_action_for_rva_keeps: "comp.holds sha P (atomic_action_for_rva c rva) (\<lambda>_ _. True)"
proof -
  have found: "comp.holds sha P (case jget act ''id'' of
                   JStr ident \<Rightarrow>
                     cbind (reads (\<lambda>s. ident \<in> set (cn_atomic_ids s))) (\<lambda>seen.
                     cbind (check (\<not> seen) ''malformed_memory_action_graph'') (\<lambda>_.
                     cbind (modify (\<lambda>s. s\<lparr>cn_atomic_ids := ident # cn_atomic_ids s\<rparr>)) (\<lambda>_. creturn (Some act))))
                 | _ \<Rightarrow> refuse ''malformed_memory_action_graph'') (\<lambda>_ _. True)" for act P
    by (cases "jget act ''id''")
      (auto intro!: keeps_raise keeps_reads keeps_check keeps_bind[OF atomic_id_holds] keeps_done)
  show ?thesis
    unfolding atomic_action_for_rva_def
    by (intro comp.holds_option keeps_done comp.holds_if keeps_clift)
      (auto split: list.split intro!: keeps_done found keeps_raise)
qed

lemma compile_atomic_action_keeps: "comp.holds sha P (compile_atomic_action c act ordered) (\<lambda>_ _. True)"
proof -
  let ?compares = "jget act ''operation'' = JStr ''compare_exchange''"
  let ?e = "if ?compares then Op_atomic_compare_exchange else Op_atomic_exchange"
  have final: "comp.holds sha (\<lambda>s. ((True \<and> ready s address) \<and> (length es = (if ?compares then 1 else 0)
        \<and> (\<forall>r\<in>set es. ready s r))) \<and> ready s desired)
      (cbind (observed_value c raw) (\<lambda>n. emit (mk_action (Eff ?e) (address # es @ [desired, n]) w))) (\<lambda>_ _. True)"
    if "w \<in> {1, 2, 4}" for address es desired raw w
  proof (cases "length es = (if ?compares then 1 else 0)")
    case True
    have "comp.holds sha (\<lambda>s. \<forall>r\<in>set (address # es @ [desired]). ready s r)
      (cbind (observed_value c raw) (\<lambda>n. emit (mk_action (Eff ?e) ((address # es @ [desired]) @ [n]) w))) (\<lambda>_ _. True)"
      using True that by (intro atomic_holds) auto
    from this[unfolded append_Cons append_assoc append_Nil] show ?thesis by (rule comp.holds_weaken) auto
  qed (auto simp: comp.holds_def)
  have expected: "comp.holds sha P (if ?compares then cbind (word c raw) (\<lambda>n. creturn [n]) else creturn [])
      (\<lambda>es s. length es = (if ?compares then 1 else 0) \<and> (\<forall>r\<in>set es. ready s r))" for raw P
    by (rule keeps_any, intro comp.holds_if keeps_word comp.holds_creturn) auto
  have pair: "comp.holds sha P (if ?compares then cbind (clift (object_field (jget act ''compare''))) (\<lambda>cmp.
              creturn (jget cmp ''expected'', jget cmp ''desired''))
            else creturn (JNull, v)) (\<lambda>_ _. True)" for v P
    by (intro comp.holds_if keeps_clift keeps_done)
  have tail: "comp.holds sha (\<lambda>_. True) (cbind (word c (jget act ''address'')) (\<lambda>address_node.
     cbind (if ?compares then cbind (word c expected) (\<lambda>n. creturn [n]) else creturn []) (\<lambda>expected_nodes.
     cbind (word c desired) (\<lambda>desired_node.
     cbind (observed_value c observed) (\<lambda>observed_node.
       emit (mk_action (Eff ?e) (address_node # expected_nodes @ [desired_node, observed_node]) w)))))) (\<lambda>_ _. True)"
    if "w \<in> {1, 2, 4}" for expected desired observed w
    by (rule keeps_word, rule comp.holds_bind[OF expected], rule keeps_word, rule final[OF that])
      (intro comp.stable_conj comp.stable_const stable_ready stable_readies)+
  show ?thesis
    unfolding compile_atomic_action_def Let_def
    by (rule keeps_any, intro keeps_clift keeps_check keeps_bind[OF pair] comp.holds_split tail) (auto simp: field_iffs)
qed

section \<open>Ordered events and the effects of an instruction\<close>

lemma ordered_event_keeps: "comp.holds sha P (ordered_event c atomic k raw) (\<lambda>_ _. True)"
proof -
  have mem: "comp.holds sha P (if atomic then creturn () else memory_event c event) (\<lambda>_ _. True)" for event P
    by (rule comp.holds_if[OF keeps_done memory_event_keeps])
  show ?thesis
    unfolding ordered_event_def
    by (intro keeps_clift comp.holds_if[where m = "cbind _ _"] keeps_bind[OF counter_holds] keeps_bind[OF fault_event_keeps]
      keeps_bind[OF external_event_keeps] keeps_bind[OF mem] keeps_done keeps_raise) simp_all
qed

lemma ordered_events_keeps: "comp.holds sha P (ordered_events c atomic k raws) (\<lambda>_ _. True)"
proof (induction raws arbitrary: k P)
  case Nil
  show ?case by (simp add: keeps_done)
next
  case (Cons raw raws)
  show ?case unfolding ordered_events.simps by (rule keeps_bind[OF ordered_event_keeps Cons.IH])
qed

lemma sync_eflags_keeps: "comp.holds sha P (emit (mk_action (Eff Op_sync_eflags) [] 0)) (\<lambda>_ _. True)"
  by (rule keeps_any) (use emit_word_effect[of Op_sync_eflags "[]" 0 sha] in \<open>simp add: aux_fits_def\<close>)

lemma compile_instruction_effects_keeps: "comp.holds sha P (compile_instruction_effects c effects rva) (\<lambda>_ _. True)"
proof -
  have upd: "comp.holds sha P (if b then creturn [] else compile_updates c owned regs flgs) (\<lambda>acts s. \<forall>a\<in>set acts. update_ready s a)"
    "comp.holds sha P (if b then compile_updates c owned regs flgs else creturn []) (\<lambda>acts s. \<forall>a\<in>set acts. update_ready s a)"
    for b owned regs flgs P
    by (auto intro: compile_updates_keeps comp.holds_creturn)
  have tail: "comp.holds sha (\<lambda>_. True) (cbind (if b then creturn [] else compile_updates c owned regs flgs) (\<lambda>before.
      cbind (reads (\<lambda>s. length (cn_external s))) (\<lambda>external_index.
      cbind (ordered_events c (atomic \<noteq> None) external_index ordered) (\<lambda>_.
      cbind (if b then compile_updates c owned regs flgs else creturn []) (\<lambda>after.
      cbind (mapC emit (before @ after)) (\<lambda>_.
        emit (mk_action (Eff Op_sync_eflags) [] 0))))))) (\<lambda>_ _. True)" for b owned regs flgs atomic ordered
  proof (rule comp.holds_bind[OF upd(1)], rule keeps_reads, rule comp.holds_bind[OF ordered_events_keeps],
      rule comp.holds_bind[OF upd(2)], rule comp.holds_bind)
    fix before :: "action list" and u :: unit and after :: "action list"
    show "comp.holds sha (\<lambda>s. ((True \<and> (\<forall>a\<in>set before. update_ready s a)) \<and> True) \<and> (\<forall>a\<in>set after. update_ready s a))
        (mapC emit (before @ after)) (\<lambda>_ _. True)"
      by (rule comp.holds_weaken[OF emit_updates_keeps]) auto
  qed (intro comp.stable_conj comp.stable_const stable_updates sync_eflags_keeps)+
  show ?thesis
    unfolding compile_instruction_effects_def Let_def
    by (rule keeps_any, intro keeps_clift keeps_bind[OF atomic_action_for_rva_keeps] keeps_bind[OF _ tail]
        comp.holds_option keeps_done compile_atomic_action_keeps)
qed

lemma compile_symbolic_transfer_keeps: "comp.holds sha P (compile_symbolic_transfer c) (\<lambda>_ _. True)"
proof -
  have tail: "comp.holds sha (\<lambda>_. True) (cbind (mapC (register_update c (fst owned)) regs) (\<lambda>rs.
     cbind (clift (list_field v)) (\<lambda>flgs.
     cbind (mapC (flag_update c (snd owned)) flgs) (\<lambda>fs.
     cbind (mapC emit (concat rs @ concat fs)) (\<lambda>_.
       emit (mk_action (Eff Op_sync_eflags) [] 0)))))) (\<lambda>_ _. True)" for owned regs v
  proof (rule comp.holds_bind[OF concat_updates[OF register_update_keeps]], rule keeps_clift,
      rule comp.holds_bind[OF concat_updates[OF flag_update_keeps]], rule comp.holds_bind)
    fix rs fs :: "action list list"
    show "comp.holds sha (\<lambda>s. (True \<and> (\<forall>a\<in>set (concat rs). update_ready s a)) \<and> (\<forall>a\<in>set (concat fs). update_ready s a))
        (mapC emit (concat rs @ concat fs)) (\<lambda>_ _. True)"
      by (rule comp.holds_weaken[OF emit_updates_keeps]) auto
  qed (intro comp.stable_conj comp.stable_const stable_updates sync_eflags_keeps)+
  show ?thesis
    unfolding compile_symbolic_transfer_def
    by (rule keeps_any, intro keeps_clift keeps_reads keeps_bind[OF ordered_events_keeps] tail)
qed

end
