(* ===== verification/Compiler_Paths.thy ===== *)
theory Compiler_Paths
  imports Compiler_Methods
begin

text \<open>
  The invariant of the compiler on the paths that go instruction by instruction: schedules of machine-IR
  units, native replays, and with them every way \<open>compile\<close> can lower the effects of a row.
\<close>

section \<open>x87 operations of a unit\<close>

lemma input_error_as_Ok [simp]: "input_error_as code r = Inr x \<longleftrightarrow> r = Inr x"
  by (auto simp: input_error_as_def split: sum.split py_error.split)

lemma contract_text: "sha256_field v = Inr s \<Longrightarrow> is_ok (sha256_field (JStr s))"
  by (simp add: sha256_text) (metis sha256_field_value)

lemma checker_names: "x87_checked_decoder \<noteq> []" "x87_checked_executor \<noteq> []"
  by (simp_all add: x87_checked_decoder_def x87_checked_executor_def)

lemma unit_span_Ok: "unit_span row = Inr (a, b) \<Longrightarrow> 0 \<le> a \<and> a < 2 ^ 32 \<and> 0 \<le> b \<and> b < 2 ^ 32"
  by (auto simp: unit_span_def bind_eq_Ok field_iffs)

lemma append_machine_ir_x87_operation_keeps:
  "comp.holds (cp_sha c) P (append_machine_ir_x87_operation c micro) (\<lambda>_ _. True)"
  unfolding append_machine_ir_x87_operation_def Let_def
proof (rule keeps_any, intro keeps_clift keeps_check comp.holds_split)
  fix fpu typed_replay ident image_base oper start stop p original_start original_end contract and digest :: string
  assume a: "u32_field (jget typed_replay ''image_base'') = Inr image_base"
    "input_error_as ''unsupported_typed_x87_operation'' (typed_x87_operation_from_micro_op (cp_sha c) micro image_base) = Inr oper"
    "u32_field (jget micro ''rva_start'') = Inr start" "u32_field (jget micro ''rva_end'') = Inr stop"
    "start < stop \<and> xi_source_size oper = stop - start \<and> original_start \<le> start \<and> stop \<le> original_end"
    "sha256_field (jget (cp_row c) ''contract_sha256'') = Inr contract"
  let ?p = "\<lparr>xp_contract_sha256 = contract, xp_image_base = image_base, xp_rva_start = start,
        xp_rva_end = stop, xp_operation = oper, xp_checked_decoder = x87_checked_decoder,
        xp_checked_executor = x87_checked_executor\<rparr>"
  have "x87_good (cp_sha c) ?p"
    using a x87_operation_stored[of "cp_sha c" _ _ _ image_base oper micro] contract_text[OF a(6)] checker_names
    by (simp add: x87_good_def field_iffs)
  then have "comp.holds (cp_sha c) (\<lambda>_. True) (append_x87 ?p) (\<lambda>_ _. True)"
    by (intro comp.holds_weaken[OF append_x87_holds]) auto
  then show "comp.holds (cp_sha c) (\<lambda>_. True) (cbind (append_x87 ?p)
      (\<lambda>_. cbind reset_instruction_expression_cache (\<lambda>_. creturn oper))) (\<lambda>_ _. True)"
    by (intro keeps_bind reset_holds keeps_done)
qed

lemma cover_keeps: "comp.holds sha P (cover_typed_x87_memory_events effects oper) (\<lambda>_ _. True)"
  unfolding cover_typed_x87_memory_events_def by (intro keeps_clift counter_holds)

lemma with_local_keeps:
  assumes "comp.holds sha (\<lambda>_. True) m (\<lambda>_ _. True)"
  shows "comp.holds sha P (with_local m) (\<lambda>_ _. True)"
  unfolding with_local_def by (intro keeps_bind local_holds assms keeps_done)

lemma check_keeps: "comp.holds sha P (check ok code) (\<lambda>_ _. True)"
  by (rule comp.holdsI) simp

section \<open>Machine-IR units\<close>

lemma unscheduled_micro_ops_keeps: "comp.holds (cp_sha c) P (unscheduled_micro_ops c cursor raws) (\<lambda>_ _. True)"
proof (induction raws arbitrary: cursor P)
  case Nil
  show ?case by (simp add: keeps_done)
next
  case (Cons raw raws)
  show ?case unfolding unscheduled_micro_ops.simps
    by (intro keeps_clift keeps_check keeps_bind[OF append_machine_ir_x87_operation_keeps] Cons.IH)
qed

lemma compile_unscheduled_keeps: "comp.holds (cp_sha c) P (compile_unscheduled c micro_ops a b) (\<lambda>_ _. True)"
  unfolding compile_unscheduled_def
  by (intro keeps_check comp.holds_if compile_symbolic_transfer_keeps keeps_bind[OF unscheduled_micro_ops_keeps] check_keeps)

lemma x87_record_keeps: "comp.holds (cp_sha c) P (x87_record c table rva rva_end classification effects) (\<lambda>_ _. True)"
  unfolding x87_record_def
  by (intro comp.holds_option keeps_raise keeps_check keeps_bind[OF append_machine_ir_x87_operation_keeps] cover_keeps)

lemma ordinary_record_keeps: "comp.holds sha P (ordinary_record c rva effects control final) (\<lambda>_ _. True)"
  unfolding ordinary_record_def
  by (intro keeps_bind[OF reset_holds] with_local_keeps keeps_bind[OF compile_instruction_effects_keeps] comp.holds_if
      set_outcome_keeps keeps_done)

lemma terminal_control_keeps: "comp.holds sha P (terminal_control c control final) (\<lambda>_ _. True)"
  unfolding terminal_control_def
  by (intro keeps_reads comp.holds_if with_local_keeps set_outcome_keeps keeps_done)

lemma schedule_record_keeps: "comp.holds (cp_sha c) P (schedule_record c table progress raw later) (\<lambda>_ _. True)"
proof -
  have body: "comp.holds (cp_sha c) P (if x then
               cbind (x87_record c table rva rva_end classification effects) (\<lambda>_. creturn (rva # used, ordinary))
             else if y then
               cbind (check ok bad_schedule) (\<lambda>_.
               cbind (ordinary_record c (Some rva) effects control final) (\<lambda>_. creturn (used, ordinary + 1)))
             else refuse bad_schedule) (\<lambda>_ _. True)"
    for x y ok rva rva_end classification effects control final used and ordinary :: int and P
    by (intro comp.holds_if keeps_bind[OF x87_record_keeps] keeps_check keeps_bind[OF ordinary_record_keeps] keeps_done keeps_raise)
  show ?thesis
    unfolding schedule_record_def Let_def
    by (intro comp.holds_split keeps_clift keeps_check keeps_bind[OF body] keeps_bind[OF terminal_control_keeps] keeps_done)
qed

lemma schedule_records_keeps: "comp.holds (cp_sha c) P (schedule_records c table progress raws) (\<lambda>_ _. True)"
proof (induction raws arbitrary: progress P)
  case Nil
  show ?case by (simp add: keeps_done)
next
  case (Cons raw raws)
  show ?case unfolding schedule_records.simps by (rule keeps_bind[OF schedule_record_keeps Cons.IH])
qed

lemma compile_machine_ir_transfer_keeps: "comp.holds (cp_sha c) P (compile_machine_ir_transfer c micro_ops) (\<lambda>_ _. True)"
  unfolding compile_machine_ir_transfer_def compile_scheduled_def
  by (intro keeps_clift comp.holds_split comp.holds_if compile_unscheduled_keeps keeps_check
      keeps_bind[OF schedule_records_keeps] check_keeps)

section \<open>Native replays\<close>

lemma require_Ok [simp]: "require ok code = Inr u \<longleftrightarrow> ok"
  by (auto simp: require_def)

text \<open>The instructions of a replay follow each other up to the end of the span.\<close>

definition contiguous :: "int \<Rightarrow> replayed list \<Rightarrow> bool" where
  "contiguous start rs \<longleftrightarrow> (\<forall>r\<in>set rs. start \<le> fst r \<and> 0 \<le> fst r \<and> fst r < fst (snd r) \<and> fst (snd r) \<le> fst (snd (last rs)))"

lemma replay_instruction_Ok:
  "replay_instruction start inner outer = Inr r \<Longrightarrow> fst r = start \<and> 0 \<le> fst r \<and> fst r < fst (snd r)"
  by (auto simp: replay_instruction_def bind_eq_Ok field_iffs)

lemma replay_instructions_contiguous: "replay_instructions start pairs = Inr rs \<Longrightarrow> contiguous start rs"
proof (induction start pairs arbitrary: rs rule: replay_instructions.induct)
  case (2 start inner outer rest)
  obtain r rest' where r: "replay_instruction start inner outer = Inr r" "replay_instructions (fst (snd r)) rest = Inr rest'"
    "rs = r # rest'" using "2.prems" by (auto simp: bind_eq_Ok)
  have "contiguous (fst (snd r)) rest'" by (rule "2.IH"[OF r(2)])
  then have rest: "fst (snd r) \<le> fst q \<and> 0 \<le> fst q \<and> fst q < fst (snd q) \<and> fst (snd q) \<le> fst (snd (last rest'))"
    if "q \<in> set rest'" for q using that by (simp add: contiguous_def)
  have "fst (snd r) \<le> fst (snd (last rs))"
    using rest[of "last rest'"] by (cases "rest' = []") (auto simp: r(3))
  moreover have "last rs = last rest'" if "q \<in> set rest'" for q using that by (auto simp: r(3))
  ultimately show ?case
    using replay_instruction_Ok[OF r(1)] rest unfolding contiguous_def r(3) by (smt (verit) set_ConsD)
qed (simp add: contiguous_def)

lemma replay_inventory_Ok:
  assumes "replay_inventory row replay start stop encoded = Inr rs" "r \<in> set rs"
  shows "0 \<le> fst r \<and> fst r < fst (snd r) \<and> fst (snd r) \<le> stop"
proof -
  obtain pairs where "replay_instructions start pairs = Inr rs" "fst (snd (last rs)) = stop"
    using assms(1) by (auto simp: replay_inventory_def bind_eq_Ok split: json.split_asm)
  with replay_instructions_contiguous assms(2) show ?thesis unfolding contiguous_def by metis
qed

lemma replay_span_Ok: "replay_span row replay = Inr (a, b) \<Longrightarrow> b < 2 ^ 32"
  by (auto simp: replay_span_def bind_eq_Ok dest: unit_span_Ok)

definition span_ok :: "replayed \<Rightarrow> bool" where
  "span_ok r \<longleftrightarrow> 0 \<le> fst r \<and> fst r < fst (snd r) \<and> fst (snd r) < 2 ^ 32"

lemma append_replayed_keeps:
  assumes "span_ok r" "is_ok (sha256_field (JStr contract))" "0 \<le> image_base" "image_base < 2 ^ 32"
  shows "comp.holds (cp_sha c) P (append_replayed c contract image_base r) (\<lambda>_ _. True)"
proof -
  have good: "comp.holds (cp_sha c) (\<lambda>_. True) (append_x87 p) (\<lambda>_ _. True)"
    if p: "typed_x87_program c contract image_base start stop bs outer = Inr p" and r: "r = (start, stop, bs, outer)"
    for start stop bs outer p
  proof -
    obtain oper where oper: "extract_typed_x87_operation (cp_sha c) (cp_decoder c) bs outer image_base = Inr oper"
      "p = \<lparr>xp_contract_sha256 = contract, xp_image_base = image_base, xp_rva_start = start,
         xp_rva_end = stop, xp_operation = oper, xp_checked_decoder = x87_checked_decoder,
         xp_checked_executor = x87_checked_executor\<rparr>"
      using p by (auto simp: typed_x87_program_def bind_eq_Ok split: if_split_asm)
    have "x87_good (cp_sha c) p"
      using assms checker_names x87_operation_stored[of "cp_sha c" "cp_decoder c" bs outer image_base oper] oper(1)
      by (simp add: x87_good_def oper(2) span_ok_def r)
    then show ?thesis by (intro comp.holds_weaken[OF append_x87_holds]) auto
  qed
  show ?thesis
    unfolding append_replayed_def Let_def
    by (rule keeps_any, intro comp.holds_split keeps_clift keeps_bind keeps_done) (rule good; simp)
qed

lemma replay_records_keeps:
  assumes "\<forall>p\<in>set pairs. span_ok (snd p)" "is_ok (sha256_field (JStr contract))" "0 \<le> image_base" "image_base < 2 ^ 32"
  shows "comp.holds (cp_sha c) P (replay_records c digest contract image_base index counted pairs) (\<lambda>_ _. True)"
  using assms(1)
proof (induction pairs arbitrary: index counted P)
  case Nil
  show ?case by (simp add: keeps_done)
next
  case (Cons pair pairs)
  obtain raw r where pair: "pair = (raw, r)" by (cases pair)
  have x87: "comp.holds (cp_sha c) P (replayed_x87_record c contract image_base rec classification effects control r final)
      (\<lambda>_ _. True)" for P rec classification effects control final
    unfolding replayed_x87_record_def using Cons.prems assms(2-4) pair
    by (intro keeps_check keeps_clift keeps_bind[OF append_replayed_keeps] keeps_bind[OF cover_keeps] keeps_bind[OF reset_holds]
        comp.holds_if keeps_done set_outcome_keeps) auto
  have ordinary: "comp.holds (cp_sha c) P (replayed_ordinary_record c rec classification effects control final) (\<lambda>_ _. True)"
    for P rec classification effects control final
    unfolding replayed_ordinary_record_def by (intro keeps_check ordinary_record_keeps)
  have one: "comp.holds (cp_sha c) P (replay_record c digest contract image_base index counted pair later) (\<lambda>_ _. True)"
    for P index counted later
    unfolding replay_record_def Let_def pair split_conv
    by (intro comp.holds_split keeps_clift keeps_check comp.holds_if keeps_bind[OF x87] keeps_bind[OF ordinary]
        keeps_done keeps_raise)
  show ?case unfolding replay_records.simps using Cons.prems by (intro keeps_bind[OF one Cons.IH]) simp
qed

lemma compile_instruction_effect_schedule_keeps:
  assumes "\<forall>r\<in>set instrs. span_ok r"
  shows "comp.holds (cp_sha c) P (compile_instruction_effect_schedule c replay sched instrs digest) (\<lambda>_ _. True)"
  unfolding compile_instruction_effect_schedule_def
  by (intro keeps_clift keeps_check keeps_bind[OF replay_records_keeps] comp.holds_split keeps_reads check_keeps)
    (auto simp: assms field_iffs intro: contract_text dest: set_zip_rightD)

lemma compile_x87_replay_keeps: "comp.holds (cp_sha c) P (compile_x87_replay c fpu) (\<lambda>_ _. True)"
  unfolding compile_x87_replay_def
proof (rule keeps_any, intro keeps_check keeps_clift comp.holds_split comp.holds_if keeps_bind keeps_done)
  fix replay p start stop q encoded digest instrs
  assume a: "replay_span (cp_row c) replay = Inr p" "p = (start, stop)"
    "replay_inventory (cp_row c) replay start stop encoded = Inr instrs"
  have spans: "\<forall>r\<in>set instrs. span_ok r"
    using replay_inventory_Ok[OF a(3)] replay_span_Ok[of "cp_row c" replay start stop] a(1,2) by (fastforce simp: span_ok_def)
  show "comp.holds (cp_sha c) (\<lambda>_. True) (compile_instruction_effect_schedule c replay sched instrs digest) (\<lambda>_ _. True)" for sched
    by (rule compile_instruction_effect_schedule_keeps[OF spans])
  show "comp.holds (cp_sha c) (\<lambda>_. True) (mapC (append_replayed c contract image_base) instrs) (\<lambda>_ _. True)"
    if "sha256_field (jget (cp_row c) ''contract_sha256'') = Inr contract" "u32_field (jget replay ''image_base'') = Inr image_base"
    for contract image_base
    by (rule keeps_drop, rule comp.holds_mapC, rule append_replayed_keeps)
      (use spans that contract_text in \<open>auto simp: field_iffs\<close>)
qed

lemma compile_effects_keeps: "comp.holds (cp_sha c) P (compile_effects c fpu) (\<lambda>_ _. True)"
  unfolding compile_effects_def Let_def
  by (intro comp.holds_if keeps_clift keeps_bind[OF compile_machine_ir_transfer_keeps] comp.holds_reads
      comp.holds_option keeps_bind[OF compile_symbolic_transfer_keeps] keeps_bind[OF compile_x87_replay_keeps] keeps_done keeps_raise)

section \<open>The initial state\<close>

lemma initial_ok: "compiler_ok sha initial_cstate"
  by (simp add: compiler_ok_defs initial_cstate_def)

end
