(* ===== verification/Compiler_Results.thy ===== *)
theory Compiler_Results
  imports Compiler_Paths
begin

text \<open>
  What \<open>compile\<close> returns: a transfer that the plan reader accepts, whose effects read only words that
  earlier effects evaluated, with one exception occurrence per fault of the row and per exception of a
  call.
\<close>

section \<open>The parts of a compilation\<close>

lemma assemble_Ok:
  assumes "assemble row ident occs s = Inr t"
  shows "nodes t = cn_nodes s" "actions t = cn_actions s" "calls t = cn_calls s" "x87_operations t = cn_x87 s"
    "exception_occurrences t = occs" "x87_nodes t = []" "identity t = ident"
    "is_ok (sha256_field (JStr (contract_sha256 t)))" "is_ok (sha256_field (JStr (instruction_bytes_sha256 t)))"
    "\<exists>original. jget row ''original'' = JObj original \<and> jget original ''rva_start'' = JInt (rva_start t)"
    "jget row ''contract_sha256'' = JStr (contract_sha256 t)"
    "jget row ''instruction_bytes_sha256'' = JStr (instruction_bytes_sha256 t)"
  using assms by (auto simp: assemble_def bind_eq_Ok field_iffs intro: contract_text dest: sha256_field_value)

text \<open>Compiling an outcome evaluates words and does nothing else.\<close>

lemma word_frame:
  "word c raw s = Inr (i, s') \<Longrightarrow> graph_ok s \<Longrightarrow> graph_ok s' \<and> cn_calls s' = cn_calls s \<and> cn_next_fault s' = cn_next_fault s"
proof (drule (1) word_step, elim exE conjE)
  fix t assume t: "graph_ok t" "graph_step s t"
    and s': "s' = (if i \<in> set (cn_scheduled s) then t
      else t\<lparr>cn_actions := cn_actions s @ [mk_action (Eff Op_eval_word) [i] 0], cn_scheduled := i # cn_scheduled s\<rparr>)"
  from t(1) s' have "graph_ok s'" by (simp add: graph_ok_def split: if_split_asm)
  moreover have "cn_calls t = cn_calls s" "cn_next_fault t = cn_next_fault s" using t(2) by (auto simp: graph_step_def)
  ultimately show ?thesis by (simp add: s')
qed

lemma compile_outcome_frame:
  assumes "compile_outcome c outcome s = Inr (a, s')" "graph_ok s"
  shows "cn_calls s' = cn_calls s \<and> cn_next_fault s' = cn_next_fault s"
  using assms unfolding compile_outcome_def
  by (auto simp: cbind_Ok split: if_split_asm dest!: word_frame)

lemma check_coverage_Ok:
  assumes "check_coverage row s = Inr (u, s')"
  shows "s' = s" "cn_next_fault s = int (listed row ''faults'')"
    "set (cn_external s) = set (map int [0..<listed row ''external_events''])"
    "cn_memory_count s = int (listed row ''memory_events'')"
    "\<exists>ids. expected_atomic_ids row = Inr ids \<and> set (cn_atomic_ids s) = set ids"
  using assms by (auto simp: check_coverage_def cbind_Ok)

lemma compile_parts:
  assumes "compile_semantic_row sha decoder depth row = Inr t"
  obtains s1 s2 occs a where "compiler_ok sha s1" "compiler_ok sha s2" "extends s1 s2" "cn_calls s2 = cn_calls s1"
    "cn_next_fault s2 = cn_next_fault s1" "outcome_ok s2 a" "check_coverage row s1 = Inr ((), s1)"
    "exception_occurrences_of sha row (cn_actions s1) (cn_calls s1) = Inr occs"
    "assemble row (identity t) occs (s2\<lparr>cn_actions := cn_actions s2 @ [a]\<rparr>) = Inr t"
    "string_field (jget row ''id'') = Inr (identity t)"
proof -
  define c where "c = \<lparr>cp_row = row, cp_sha = sha, cp_decoder = decoder, cp_depth = depth\<rparr>"
  have sel: "cp_row c = row" "cp_sha c = sha" by (simp_all add: c_def)
  obtain s' where "compile_transfer c initial_cstate = Inr (t, s')"
    using assms by (auto simp: compile_semantic_row_def c_def bind_eq_Ok)
  then obtain ident fpu replayed s1 s1' u occs outcome s2' a s2 where
    r: "string_field (jget row ''id'') = Inr ident" "compile_effects c fpu initial_cstate = Inr (replayed, s1)"
      "check_coverage row s1 = Inr (u, s1')" "exception_occurrences_of sha row (cn_actions s1') (cn_calls s1') = Inr occs"
      "(if replayed then check_x87_replay_outcome outcome else creturn ()) s1' = Inr ((), s2')"
      "outcome_action c outcome s2' = Inr (a, s2)"
      "assemble row ident occs (s2\<lparr>cn_actions := cn_actions s2 @ [a]\<rparr>) = Inr t"
    by (auto simp: compile_transfer_def Let_def cbind_Ok sel)
  have s1: "compiler_ok sha s1"
    using comp.holdsD(1)[OF compile_effects_keeps[of c "\<lambda>_. True" fpu] _ _ r(2)] initial_ok by (simp add: sel)
  have same: "s1' = s1" "s2' = s1"
    using check_coverage_Ok(1)[OF r(3)] r(5) by (auto simp: check_x87_replay_outcome_def cbind_Ok split: if_split_asm)
  have "compiler_ok sha s2 \<and> extends s1 s2 \<and> outcome_ok s2 a \<and> cn_calls s2 = cn_calls s1 \<and> cn_next_fault s2 = cn_next_fault s1"
  proof (cases "cn_outcome s1")
    case None
    then have o: "compile_outcome c outcome s1 = Inr (a, s2)" using r(6) by (simp add: outcome_action_def cbind_Ok same)
    have "graph_ok s1" using s1 by (simp add: compiler_ok_def)
    from compile_outcome_frame[OF o this] comp.holdsD[OF compile_outcome_keeps s1 TrueI o] show ?thesis by blast
  next
    case (Some b)
    then have "b = a" "s2 = s1" using r(6) by (auto simp: outcome_action_def cbind_Ok same)
    then show ?thesis using s1 Some by (simp add: compiler_ok_def)
  qed
  moreover have "ident = identity t" using r(7) by (auto simp: assemble_def bind_eq_Ok)
  ultimately show ?thesis using s1 r(1,3,4,7) same by (intro that[of s1 s2 a occs]) simp_all
qed

section \<open>Exception occurrences\<close>

definition digests :: "(string \<Rightarrow> string) \<Rightarrow> bool" where
  "digests sha \<longleftrightarrow> (\<forall>text. is_ok (sha256_field (JStr (sha text))))"

lemma fault_effects_elem:
  "(k, i, a) \<in> set (fault_effects acts) \<longleftrightarrow>
   (\<exists>j < length acts. i = int j \<and> a = acts ! j \<and> fault_effect a \<and> k = act_aux a)"
  unfolding fault_effects_def fault_effect_def
  by (force simp: in_set_enumerate_eq)

lemma effect_occurrence_good:
  assumes "digests sha" "effect_occurrence sha (fault_effects acts) (n, ms) = Inr x"
  shows "occurrence_good acts cs (int n) x"
proof -
  obtain i a where e: "last_of (fault_effects acts) (int n) = Some (i, a)"
    and x: "x = \<lparr>fault_index = int n, fault_sha256 = json_digest sha (JObj ms), occurrence_kind = ''effect'',
           effect_index = i, eo_operation = op_name (act_op a), call_id = None, call_event_index = None\<rparr>"
    using assms(2) by (auto simp: effect_occurrence_def split: option.split_asm)
  from e have "(int n, i, a) \<in> set (fault_effects acts)" by (auto simp: last_of_def dest: map_of_SomeD)
  then obtain j where j: "j < length acts" "i = int j" "a = acts ! j" "fault_effect a" "int n = act_aux a"
    by (auto simp: fault_effects_elem)
  have "op_name (act_op a) \<noteq> []" using j(4) by (auto simp: fault_effects_are)
  then show ?thesis
    using j assms(1) by (simp add: x occurrence_good_def occurrence_valid_def digests_def json_digest_def fault_effect_def)
qed

lemma call_table:
  assumes "foldM call_effect table (enumerate n acts) = Inr table'"
    "\<forall>(k, i)\<in>set table. \<exists>j < n. i = int j \<and> P k j" "\<And>j k. j < length acts \<Longrightarrow> op_name (act_op (acts ! j)) = ''call'' \<Longrightarrow>
       py_index (act_args (acts ! j)) 0 = Inr k \<Longrightarrow> P k (n + j)"
  shows "\<forall>(k, i)\<in>set table'. \<exists>j < n + length acts. i = int j \<and> P k j"
  using assms
proof (induction acts arbitrary: table n)
  case (Cons a acts)
  obtain mid where mid: "call_effect table (n, a) = Inr mid" "foldM call_effect mid (enumerate (Suc n) acts) = Inr table'"
    using Cons.prems(1) by (auto simp: bind_eq_Ok)
  have "\<forall>(k, i)\<in>set mid. \<exists>j < Suc n. i = int j \<and> P k j"
    using mid(1) Cons.prems(2) Cons.prems(3)[of 0]
    by (fastforce simp: call_effect_def bind_eq_Ok less_Suc_eq split: if_split_asm)
  from Cons.IH[OF mid(2) this] Cons.prems(3) show ?case by fastforce
qed simp

lemma call_occurrence_step:
  assumes "digests sha" "call_occurrence sha ident cl eff sofar (m, oper) = Inr occs"
  shows "\<exists>x. occs = sofar @ [x] \<and> fault_index x = int (length sofar) \<and> is_ok (sha256_field (JStr (fault_sha256 x)))
    \<and> occurrence_kind x = ''call'' \<and> eo_operation x = oper \<and> effect_index x = eff \<and> call_id x = Some ident
    \<and> call_event_index x = Some (call_index cl)"
  using assms by (auto simp: call_occurrence_def bind_eq_Ok digests_def json_digest_def)

text \<open>Occurrences are numbered by their position and each is good.\<close>

definition occurrences_good :: "action list \<Rightarrow> call list \<Rightarrow> exception_occurrence list \<Rightarrow> bool" where
  "occurrences_good acts cs occs \<longleftrightarrow> (\<forall>k < length occs. occurrence_good acts cs (int k) (occs ! k))"

lemma call_ops_good:
  assumes "digests sha" "foldM (call_occurrence sha (int i) cl (int j)) sofar (enumerate m ops) = Inr occs"
    "occurrences_good acts cs sofar" "i < length cs" "cl = cs ! i" "0 \<le> call_index cl" "j < length acts"
    "act_op (acts ! j) = Eff Op_call" "act_args (acts ! j) = [int i]"
    "[] \<notin> set ops" "set ops \<subseteq> set (native_exception_operations cl)"
  shows "occurrences_good acts cs occs \<and> length occs = length sofar + length ops"
  using assms(2,3,10,11)
proof (induction ops arbitrary: sofar m)
  case (Cons oper ops)
  obtain mid where mid: "call_occurrence sha (int i) cl (int j) sofar (m, oper) = Inr mid"
    "foldM (call_occurrence sha (int i) cl (int j)) mid (enumerate (Suc m) ops) = Inr occs"
    using Cons.prems(1) by (auto simp: bind_eq_Ok)
  obtain x where x: "mid = sofar @ [x]" "fault_index x = int (length sofar)" "is_ok (sha256_field (JStr (fault_sha256 x)))"
    "occurrence_kind x = ''call''" "eo_operation x = oper" "effect_index x = int j" "call_id x = Some (int i)"
    "call_event_index x = Some (call_index cl)"
    using call_occurrence_step[OF assms(1) mid(1)] by blast
  have "occurrence_good acts cs (int (length sofar)) x"
    using x(2-) assms(4-9) Cons.prems(3,4) by (auto simp: occurrence_good_def occurrence_valid_def)
  then have "occurrences_good acts cs mid"
    using Cons.prems(2) by (auto simp: occurrences_good_def x(1) nth_append less_Suc_eq)
  from Cons.IH[OF mid(2) this] Cons.prems(3,4) x(1) show ?case by simp
qed simp

definition table_good :: "action list \<Rightarrow> (int \<times> int) list \<Rightarrow> bool" where
  "table_good acts table \<longleftrightarrow> (\<forall>(k, i)\<in>set table. \<exists>j < length acts. i = int j \<and> act_op (acts ! j) = Eff Op_call
     \<and> act_args (acts ! j) = [k])"

lemma calls_good:
  assumes "digests sha" "table_good acts table" "foldM (call_occurrences sha table) sofar (enumerate n rest) = Inr occs"
    "occurrences_good acts cs sofar" "n + length rest = length cs" "\<forall>k < length rest. rest ! k = cs ! (n + k)"
    "\<forall>cl\<in>set cs. 0 \<le> call_index cl \<and> [] \<notin> set (native_exception_operations cl)"
  shows "occurrences_good acts cs occs
    \<and> length occs = length sofar + sum_list (map (\<lambda>c. length (native_exception_operations c)) rest)"
  using assms(3-6)
proof (induction rest arbitrary: sofar n)
  case (Cons cl rest)
  obtain mid where mid: "call_occurrences sha table sofar (n, cl) = Inr mid"
    "foldM (call_occurrences sha table) mid (enumerate (Suc n) rest) = Inr occs"
    using Cons.prems(1) by (auto simp: bind_eq_Ok)
  have cl: "n < length cs" "cl = cs ! n" using Cons.prems(3,4) by force+
  then have nonneg: "0 \<le> call_index cl" "[] \<notin> set (native_exception_operations cl)" using assms(7) by auto
  have "occurrences_good acts cs mid \<and> length mid = length sofar + length (native_exception_operations cl)"
  proof (cases "native_exception_operations cl = []")
    case True
    then show ?thesis using mid(1) Cons.prems(2) by (simp add: call_occurrences_def)
  next
    case False
    then obtain eff where eff: "map_of table (int n) = Some eff"
      "foldM (call_occurrence sha (int n) cl eff) sofar (enumerate 0 (native_exception_operations cl)) = Inr mid"
      using mid(1) by (auto simp: call_occurrences_def Let_def split: option.split_asm)
    from map_of_SomeD[OF eff(1)] assms(2) obtain j where j: "j < length acts" "eff = int j" "act_op (acts ! j) = Eff Op_call"
      "act_args (acts ! j) = [int n]" by (auto simp: table_good_def)
    from call_ops_good[OF assms(1) eff(2)[unfolded j(2)] Cons.prems(2) cl nonneg(1) j(1,3,4) nonneg(2)]
    show ?thesis by simp
  qed
  moreover have "\<forall>k < length rest. rest ! k = cs ! (Suc n + k)"
    using Cons.prems(4) by (metis Suc_less_eq add_Suc_shift length_Cons nth_Cons_Suc)
  ultimately show ?case using Cons.IH[OF mid(2)] Cons.prems(3) by simp
qed simp

text \<open>An effect called \<open>call\<close> that the registry knows is the call of the model, with one operand.\<close>

lemma call_effects_numbered:
  assumes "compiler_ok sha s" "j < length (cn_actions s)" "op_name (act_op (cn_actions s ! j)) = ''call''"
  shows "act_op (cn_actions s ! j) = Eff Op_call \<and> (\<exists>k. act_args (cn_actions s ! j) = [k])"
proof -
  have a: "cn_actions s ! j \<in> set (cn_actions s)" using assms(2) by simp
  then have "effect_ok s (cn_actions s ! j)" using assms(1) by (auto simp: compiler_ok_def)
  then obtain row where "action_operation_v2 (cn_actions s ! j) False = Inr row"
    by (auto simp: effect_ok_def effect_good_def action_good_def is_ok_iff)
  from op_of_name_op_name[OF action_registered[OF this]] assms(3)
  have oper: "act_op (cn_actions s ! j) = op_of_name ''call''" by simp
  moreover have "op_of_name ''call'' = Eff Op_call" by code_simp
  ultimately have "cn_actions s ! j \<in> set (filter (\<lambda>a. act_op a = Eff Op_call) (cn_actions s))" using a by simp
  then have "act_args (cn_actions s ! j) \<in> set (map act_args (filter (\<lambda>a. act_op a = Eff Op_call) (cn_actions s)))" by auto
  also have "map act_args (filter (\<lambda>a. act_op a = Eff Op_call) (cn_actions s)) = map (\<lambda>k. [int k]) [0..<length (cn_calls s)]"
    using assms(1) by (simp add: compiler_ok_def numbered_def)
  finally show ?thesis using oper \<open>op_of_name ''call'' = Eff Op_call\<close> by auto
qed

lemma compiled_occurrences:
  assumes "digests sha" "compiler_ok sha s" "exception_occurrences_of sha row (cn_actions s) (cn_calls s) = Inr occs"
    "cn_next_fault s = int (listed row ''faults'')"
  shows "occurrences_good (cn_actions s) (cn_calls s) occs
    \<and> length occs = expected_occurrences (cn_actions s) (cn_calls s)"
proof -
  let ?acts = "cn_actions s" and ?cs = "cn_calls s"
  obtain raws first table where r: "mapM object_field (optional_list (jget row ''faults'')) = Inr raws"
    "mapM (effect_occurrence sha (fault_effects ?acts)) (enumerate 0 raws) = Inr first"
    "foldM call_effect [] (enumerate 0 ?acts) = Inr table"
    "foldM (call_occurrences sha table) first (enumerate 0 ?cs) = Inr occs"
    using assms(3) by (auto simp: exception_occurrences_of_def Let_def bind_eq_Ok split: if_split_asm)
  have n: "length raws = listed row ''faults''"
    using r(1) by (simp add: mapM_Ok_iff listed_def list_all2_lengthD)
  have "occurrence_good ?acts ?cs (int k) (first ! k)" if "k < length first" for k
    using r(2) that unfolding mapM_Ok_iff
    by (intro effect_occurrence_good[OF assms(1), where ms = "raws ! k"])
      (simp add: list_all2_conv_all_nth nth_enumerate_eq)
  then have first: "occurrences_good ?acts ?cs first" "length first = length raws"
    using r(2) by (auto simp: occurrences_good_def mapM_Ok_iff dest: list_all2_lengthD)
  have table: "table_good ?acts table"
    using call_table[OF r(3), where P = "\<lambda>k j. act_op (?acts ! j) = Eff Op_call \<and> act_args (?acts ! j) = [k]"]
      call_effects_numbered[OF assms(2)]
    by (fastforce simp: table_good_def py_index_unfold)
  have "\<forall>cl\<in>set ?cs. 0 \<le> call_index cl \<and> [] \<notin> set (native_exception_operations cl)"
    using assms(2) by (auto simp: compiler_ok_def compiled_call_def call_good_def native_operations_good_def)
  from calls_good[OF assms(1) table r(4) first(1) _ _ this] first(2) n
  have "occurrences_good ?acts ?cs occs" "length occs = listed row ''faults'' + sum_list (map (\<lambda>c. length (native_exception_operations c)) ?cs)"
    by simp_all
  moreover have "length (filter fault_effect ?acts) = listed row ''faults''"
    using assms(2,4) by (metis compiler_ok_def diff_zero length_map length_upt nat_int numbered_def)
  ultimately show ?thesis by (simp add: expected_occurrences_def fault_effect_def[abs_def])
qed

lemma occurrence_good_append: "occurrence_good acts cs i x \<Longrightarrow> occurrence_good (acts @ bs) cs i x"
  by (auto simp: occurrence_good_def nth_append)

section \<open>The compiled transfer\<close>

text \<open>The names of libraries and symbols, which the compiler copies and the reader wants to be nonempty.\<close>

definition calls_named :: "transfer \<Rightarrow> bool" where
  "calls_named t \<longleftrightarrow> (\<forall>c\<in>set (calls t). dll c \<noteq> Some [] \<and> symbol c \<noteq> Some [])"

lemma terminator_is: "action_operation_v2 a True = Inr row \<Longrightarrow> is_terminator (act_op a)"
  by (auto simp: action_operation_v2_def terminator_operations_v2_def map_of_map_row terminators_table_def
      split: option.split_asm if_split_asm)

lemma compiled_transfer_good:
  assumes "compile_semantic_row sha decoder depth row = Inr t" "digests sha" "calls_named t"
  shows "transfer_good sha t \<and> in_order (calls t) (actions t) \<and> (\<forall>nd\<in>set (nodes t). aux_ok nd)
    \<and> (\<forall>a\<in>set (butlast (actions t)). effect_bounds a)"
proof -
  obtain s1 s2 occs a where p: "compiler_ok sha s1" "compiler_ok sha s2" "extends s1 s2" "cn_calls s2 = cn_calls s1"
    "cn_next_fault s2 = cn_next_fault s1" "outcome_ok s2 a" "check_coverage row s1 = Inr ((), s1)"
    "exception_occurrences_of sha row (cn_actions s1) (cn_calls s1) = Inr occs"
    "assemble row (identity t) occs (s2\<lparr>cn_actions := cn_actions s2 @ [a]\<rparr>) = Inr t"
    "string_field (jget row ''id'') = Inr (identity t)"
    by (rule compile_parts[OF assms(1)])
  have t: "nodes t = cn_nodes s2" "actions t = cn_actions s2 @ [a]" "calls t = cn_calls s2" "x87_operations t = cn_x87 s2"
    "exception_occurrences t = occs" "x87_nodes t = []" and digest:
    "is_ok (sha256_field (JStr (contract_sha256 t)))" "is_ok (sha256_field (JStr (instruction_bytes_sha256 t)))"
    using assemble_Ok[OF p(9)] by simp_all
  have occs: "occurrences_good (cn_actions s1) (cn_calls s1) occs" "length occs = expected_occurrences (cn_actions s1) (cn_calls s1)"
    using compiled_occurrences[OF assms(2) p(1,8) check_coverage_Ok(2)[OF p(7)]] by blast+
  obtain more_acts where acts: "cn_actions s2 = cn_actions s1 @ more_acts" using p(3) by (auto simp: extends_def)
  have "length (filter fault_effect (cn_actions s2)) = length (filter fault_effect (cn_actions s1))"
    using p(1,2,5) unfolding compiler_ok_def numbered_def by (metis length_map)
  then have count: "length occs = expected_occurrences (cn_actions s2) (cn_calls s2)"
    using occs(2) p(4) by (simp add: expected_occurrences_def fault_effect_def[abs_def])
  have good: "occurrence_good (cn_actions s2) (cn_calls s2) (int k) (occs ! k)" if "k < length occs" for k
    using occs(1) that by (simp add: acts p(4) occurrences_good_def occurrence_good_append)
  have call: "call_good (int (length (cn_nodes s2))) c" if "c \<in> set (cn_calls s2)" for c
  proof -
    have "call_good (int (length (cn_nodes s2))) (c\<lparr>dll := None, symbol := None\<rparr>)" "dll c \<noteq> Some []" "symbol c \<noteq> Some []"
      using p(2) that assms(3) by (auto simp: compiler_ok_def compiled_call_def calls_named_def t)
    then show ?thesis unfolding call_good_def call_node_references_def by simp
  qed
  have node: "compiled_node (int k) (cn_nodes s2 ! k)" if "k < length (cn_nodes s2)" for k
    using p(2) that by (simp add: compiler_ok_def graph_ok_def)
  have "transfer_good sha t"
    unfolding transfer_good_def Let_def t using p(2,6,10) digest count good call node
    by (auto simp: compiler_ok_def effect_ok_def outcome_ok_def compiled_node_def field_iffs)
  moreover have "in_order (calls t) (actions t)"
    using p(2,6) by (auto simp: t in_order_snoc compiler_ok_def outcome_ok_def words_read_def terminator_good_def
        action_good_def is_ok_iff dest!: terminator_is)
  moreover have "\<forall>nd\<in>set (nodes t). aux_ok nd" using node by (auto simp: t in_set_conv_nth compiled_node_def)
  moreover have "\<forall>b\<in>set (butlast (actions t)). effect_bounds b" using p(2) by (auto simp: t compiler_ok_def effect_ok_def)
  ultimately show ?thesis by blast
qed

end
