(* ===== verification/Control_Safety.thy ===== *)
theory Control_Safety
  imports Finite_Control Plan_Safety
begin

text \<open>
  What a validated inventory means for the evaluator: the transfer jumps through the table, and with
  the table bytes in memory every listed selector leads to its listed target.
\<close>

section \<open>The value of a recognised table load\<close>

lemma graph_node:
  assumes "acyclic_nodes (env_nodes e)" "0 \<le> i" "py_index (env_nodes e) i = Inr nd"
  shows "graph_value e i = bind (mapM (graph_value e) (node_args nd)) (\<lambda>vs. bind (eval_node e nd vs) (\<lambda>v. Ok (u32 v)))"
    and "a \<in> set (node_args nd) \<Longrightarrow> 0 \<le> a"
proof -
  have i: "\<not> (i < 0 \<or> i \<ge> int (length (env_nodes e)))" "nd = env_nodes e ! nat i"
    using assms(2,3) by (auto simp: py_index_unfold Let_def split: if_split_asm)
  show "graph_value e i = bind (mapM (graph_value e) (node_args nd)) (\<lambda>vs. bind (eval_node e nd vs) (\<lambda>v. Ok (u32 v)))"
    unfolding i(2) by (rule graph_value_eq[OF assms(1) i(1)])
  show "a \<in> set (node_args nd) \<Longrightarrow> 0 \<le> a"
    using acyclic_arg[OF assms(1) i(1)] i(2) by blast
qed

definition registered_graph :: "node list \<Rightarrow> bool" where
  "registered_graph ns \<longleftrightarrow> acyclic_nodes ns \<and> (\<forall>nd\<in>set ns. registered_node nd)"

lemma constant_args: "registered_graph ns \<Longrightarrow> py_index ns i = Inr nd \<Longrightarrow> node_op nd = Word Op_const \<Longrightarrow> node_args nd = []"
  using expression_operation_arity[of nd] py_index_in_set[of ns i nd]
  by (auto simp: registered_graph_def registered_node_def is_ok_iff op_arity_def words_table_def predicates_table_def)

lemma const_value:
  assumes "registered_graph (env_nodes e)" "0 \<le> i" "py_index (env_nodes e) i = Inr nd" "node_op nd = Word Op_const"
  shows "graph_value e i = Inr (u32 (node_immediate nd))"
  using graph_node(1)[OF _ assms(2,3)] constant_args[OF assms(1,3,4)] assms(1,4)
  by (simp add: eval_node_def registered_graph_def)

lemma both_ordersE:
  assumes "(a, b) \<in> set (both_orders args)" "length args = 2"
  shows "args = [a, b] \<or> args = [b, a]"
  using assms by (auto simp: both_orders_def length_Suc_conv numeral_2_eq_2)

lemma u32_mult: "u32 (u32 a * b) = u32 (a * b)"
  by (simp add: u32_mod mod_simps)

lemma u32_mult2: "u32 (a * u32 b) = u32 (a * b)"
  by (simp add: u32_mod mod_simps)

lemma scaled_value:
  assumes g: "registered_graph (env_nodes e)" and s: "0 \<le> s" "py_index (env_nodes e) s = Inr scaled"
    and ixs: "scaled_indices (env_nodes e) scaled = Inr ixs" "ix \<in> set ixs"
  shows "graph_value e s = bind (graph_value e ix) (\<lambda>sel. Ok (u32 (4 * sel)))"
proof -
  have ac: "acyclic_nodes (env_nodes e)" using g by (simp add: registered_graph_def)
  note gs = graph_node[OF ac s]
  show ?thesis
  proof (cases "node_op scaled = Word Op_shl32 \<and> length (node_args scaled) = 2")
    case True
    then obtain sh where args: "node_args scaled = [ix, sh]"
      and shift: "\<exists>nd. py_index (env_nodes e) sh = Inr nd \<and> node_op nd = Word Op_const \<and> node_immediate nd = 2"
      using ixs by (auto simp: scaled_indices_def length_Suc_conv numeral_2_eq_2 elim!: bind_OkE split: if_split_asm)
    have "0 \<le> sh" by (rule gs(2)) (simp add: args)
    then have "graph_value e sh = Inr 2" using shift const_value[OF g] by (auto simp: u32_id)
    then show ?thesis
      using True
      by (cases "graph_value e ix") (simp_all add: gs(1) args eval_node_def arg2_def py_shl_def push_bit_eq_mult mult.commute)
  next
    case False
    then have m: "node_op scaled = Word Op_mul32" "length (node_args scaled) = 2"
      and found: "bind (mapM (\<lambda>(i, s). bind (py_index (env_nodes e) s) (\<lambda>scale.
             Ok (if node_op scale = Word Op_const \<and> node_immediate scale = 4 then [i] else [])))
             (both_orders (node_args scaled))) (\<lambda>found. Ok (concat found)) = Inr ixs"
      using ixs by (auto simp: scaled_indices_def split: if_split_asm)
    obtain sc scale where sc: "(ix, sc) \<in> set (both_orders (node_args scaled))"
      "py_index (env_nodes e) sc = Inr scale" "node_op scale = Word Op_const" "node_immediate scale = 4"
      using found ixs(2) by (fastforce elim!: bind_OkE dest: mapM_origin split: if_split_asm)
    note args = both_ordersE[OF sc(1) m(2)]
    have "0 \<le> sc" by (rule gs(2)) (use args in auto)
    then have "graph_value e sc = Inr 4" using const_value[OF g _ sc(2,3)] sc(4) by (simp add: u32_id)
    then show ?thesis
      using args m
      by (cases "graph_value e ix") (auto simp: gs(1) eval_node_def fold_words_def u32_mult u32_mult2 u32_idem mult.commute)
  qed
qed

lemma table_address_value:
  assumes g: "registered_graph (env_nodes e)" and a: "0 \<le> a" "py_index (env_nodes e) a = Inr address"
    "node_op address = Word Op_add32" "length (node_args address) = 2"
    and c: "table_candidates (env_nodes e) address = Inr cands" "(table, ix) \<in> set cands"
  shows "graph_value e a = bind (graph_value e ix) (\<lambda>sel. Ok (u32 (table + sel * 4)))"
proof -
  have ac: "acyclic_nodes (env_nodes e)" using g by (simp add: registered_graph_def)
  note ga = graph_node[OF ac a(1,2)]
  obtain c s const scaled ixs where cs: "(c, s) \<in> set (both_orders (node_args address))"
    "py_index (env_nodes e) c = Inr const" "node_op const = Word Op_const" "table = node_immediate const"
    "py_index (env_nodes e) s = Inr scaled" "scaled_indices (env_nodes e) scaled = Inr ixs" "ix \<in> set ixs"
    using c unfolding table_candidates_def
    by (fastforce elim!: bind_OkE dest: mapM_origin split: if_split_asm)
  note args = both_ordersE[OF cs(1) a(4)]
  have "0 \<le> c" "0 \<le> s" by (rule ga(2), use args in auto)+
  then have "graph_value e c = Inr (u32 table)" "graph_value e s = bind (graph_value e ix) (\<lambda>sel. Ok (u32 (4 * sel)))"
    using const_value[OF g _ cs(2,3)] scaled_value[OF g _ cs(5,6,7)] cs(4) by simp_all
  then show ?thesis
    using args a(3) by (cases "graph_value e ix") (auto simp: ga(1) eval_node_def u32_mod mod_simps algebra_simps)
qed

lemma table_load_value:
  assumes g: "registered_graph (env_nodes e)" and e: "env_nodes e = nodes t"
    and l: "table_load t = Inr (Some (table, ix))"
    and root: "act_args (last (actions t)) = [root]" "0 \<le> root"
  shows "graph_value e root = bind (graph_value e ix) (\<lambda>sel.
    bind (memory_read (env_memory e) (u32 (table + sel * 4)) 4) (\<lambda>v. Ok (u32 v)))"
proof -
  have ac: "acyclic_nodes (env_nodes e)" using g by (simp add: registered_graph_def)
  obtain load a address cands where r: "py_index (env_nodes e) root = Inr load" "node_op load = Word Op_load" "node_aux load = 4"
    "node_args load = [a]" "py_index (env_nodes e) a = Inr address" "node_op address = Word Op_add32"
    "length (node_args address) = 2" "table_candidates (env_nodes e) address = Inr cands" "cands = [(table, ix)]"
    using l root by (auto simp: table_load_def e length_Suc_conv elim!: bind_OkE split: if_split_asm list.split_asm)
  note gr = graph_node[OF ac root(2) r(1)]
  have "0 \<le> a" by (rule gr(2)) (simp add: r)
  from table_address_value[OF g this r(5,6,7,8)] r(9) show ?thesis
    by (cases "graph_value e ix") (simp_all add: gr(1) r eval_node_def)
qed


section \<open>Validated routes\<close>

lemma read_route_address: "read_route raw = Inr r \<Longrightarrow> in32 (rt_target_address r)"
  by (auto simp: read_route_def bad_routes_def in32_def u32_field_Ok elim!: bind_OkE split: if_split_asm)

lemma read_control_row_routes:
  "read_control_row pe ms = Inr row \<Longrightarrow> r \<in> set (cr_routes row) \<Longrightarrow> in32 (rt_target_address r)"
  by (auto simp: read_control_row_def bad_routes_def elim!: bind_OkE dest!: mapM_origin intro: read_route_address
      split: if_split_asm prod.split_asm)

lemma checked_row:
  assumes "check_control_row sha depth transfers inventory pe raw = Inr key"
  obtains ms row t ix where "raw = JObj ms" "read_control_row pe ms = Inr row" "map_of transfers (cr_unit_id row) = Some t"
    "table_load t = Inr (Some (cr_table_address row, ix))" "list_all (route_bound row) (cr_routes row)"
    "\<forall>r\<in>set (cr_routes row). rt_target_rva r \<in> rva_start ` snd ` set transfers" "rva_start t = cr_source_rva row"
    "tree_digest sha depth (nodes t) (hd (act_args (last (actions t)))) = Inr (cr_outcome_sha256 row)"
    "tree_digest sha depth (nodes t) ix = Inr (cr_index_sha256 row)"
    "distinct (map rt_selector (cr_routes row))" "cr_routes row \<noteq> []" "key = (cr_source_rva row, cr_unit_id row)"
proof -
  obtain ms row binding where d: "raw = JObj ms" "read_control_row pe ms = Inr row" "routes_ordered (cr_routes row)"
    "list_all (route_bound row) (cr_routes row)" "authority_bound transfers inventory row binding"
    "(case map_of transfers (cr_unit_id row) of None \<Rightarrow> Ok None
             | Some t \<Rightarrow> finite_control_transfer_binding sha depth t) = Inr binding" "key = (cr_source_rva row, cr_unit_id row)"
    using assms by (cases raw) (auto simp: check_control_row_def bad_routes_def stale_plan_def malformed_def elim!: bind_OkE split: if_split_asm)
  obtain t b where t: "map_of transfers (cr_unit_id row) = Some t" "binding = Some b" "rva_start t = cr_source_rva row"
    "cb_table_address b = cr_table_address row" "cb_outcome_sha256 b = cr_outcome_sha256 row"
    "cb_index_sha256 b = cr_index_sha256 row" "\<forall>r\<in>set (cr_routes row). rt_target_rva r \<in> rva_start ` snd ` set transfers"
    using d(5) by (auto simp: authority_bound_def split: option.split_asm)
  obtain ix where "table_load t = Inr (Some (cr_table_address row, ix))"
    "tree_digest sha depth (nodes t) (hd (act_args (last (actions t)))) = Inr (cr_outcome_sha256 row)"
    "tree_digest sha depth (nodes t) ix = Inr (cr_index_sha256 row)"
    using d(6) t by (auto simp: finite_control_transfer_binding_def elim!: bind_OkE split: option.split_asm)
  from that[OF d(1,2) t(1) this(1) d(4) t(7,3) this(2,3)] d(3,7) show ?thesis by (simp add: routes_ordered_def)
qed

lemma wf_registered: "transfer_wf t \<Longrightarrow> registered_graph (nodes t)"
  by (simp add: transfer_wf_def registered_graph_def)

lemma indirect_root:
  assumes "transfer_wf t" "table_load t = Inr (Some p)"
  obtains root where "act_op (last (actions t)) = Term Op_outcome_indirect" "act_args (last (actions t)) = [root]" "0 \<le> root"
proof -
  obtain root where "act_op (last (actions t)) = Term Op_outcome_indirect" "act_args (last (actions t)) = [root]"
    using assms(2) by (auto simp: table_load_def length_Suc_conv split: if_split_asm)
  moreover from this have "0 \<le> root" using assms(1) by (auto simp: transfer_wf_def terminator_wf_def)
  ultimately show thesis by (rule that)
qed

end
