(* ===== verification/Plan_Accept.thy ===== *)
theory Plan_Accept
  imports Plan_Document Control_Safety
begin

text \<open>
  What acceptance of a plan gives its consumers: well-formed transfers with unique addresses and
  names, control edges that every run stays on, jump tables that lead where they say, and an atomic
  authority that covers the atomic effects; and what the collection of blockers guarantees: each row is
  accepted or blocked under its index, for the reason the row has.
\<close>

section \<open>Accepted plans\<close>

lemma dict_of_distinct: "distinct (map fst ps) \<Longrightarrow> dict_of ps = ps"
proof (induction ps rule: rev_induct)
  case (snoc p ps)
  have "AList.update (fst p) (snd p) qs = qs @ [p]" if "fst p \<notin> fst ` set qs" for qs :: "('a \<times> 'b) list"
    using that by (induction qs) auto
  with snoc show ?case by (simp add: dict_of_def)
qed (simp add: dict_of_def)

lemma by_rva_distinct: "distinct (map rva_start ts) \<Longrightarrow> by_rva ts = map (\<lambda>t. (rva_start t, t)) ts"
proof (induction ts rule: rev_induct)
  case (snoc t ts)
  have "AList.update k v qs = qs @ [(k, v)]" if "k \<notin> fst ` set qs" for qs :: "(int \<times> transfer) list" and k v
    using that by (induction qs) auto
  with snoc show ?case by (simp add: by_rva_def o_def image_image)
qed (simp add: by_rva_def)

lemma accepted_plan:
  assumes "parse_executable_transfer_plan sha depth v req = Inr (payload, ts)"
  obtains rows routes inventory table pe atomics where
    "jget payload ''transfers'' = JList (map JObj rows)" "mapM (transfer_from_payload sha) rows = Inr ts"
    "\<forall>t\<in>set ts. transfer_wf t" "sorted (map rva_start ts)" "distinct (map rva_start ts)" "distinct (map identity ts)"
    "jget payload ''finite_control_routes'' = JList routes" "inventory_table inventory = Inr table"
    "validate_finite_control_routes sha depth routes (map (\<lambda>t. (identity t, t)) ts) table (Some pe) = Inr ()"
    "jget payload ''atomic_effect_authority'' = JList atomics"
    "validate_atomic_effect_authority sha atomics (map (\<lambda>t. (identity t, t)) ts) = Inr ()"
    "py_eq (jget payload ''direct_control_edges'') (JList (map edge_payload (direct_edges ts)))"
    "req \<longrightarrow> jget payload ''semantic_blockers'' = JList []"
proof -
  obtain blockers rows raws diagnostics inventory bindings routes atomics where
    p: "check_plan_header sha payload req = Inr blockers" "list_field (jget payload ''transfers'') = Inr raws"
    "mapM object_field raws = Inr rows" "mapM (transfer_from_payload sha) rows = Inr ts"
    "check_routes sha depth payload bindings inventory ts = Inr routes" "check_atomics sha payload bindings ts = Inr atomics"
    "check_universe inventory rows ts = Inr ()"
    "check_summary sha payload diagnostics ts (length inventory) (length routes) (length atomics) (length blockers) = Inr ()"
    using assms unfolding parse_executable_transfer_plan_def by (auto elim!: bind_OkE)
  have raws: "jget payload ''transfers'' = JList (map JObj rows)"
  proof -
    have "raws = map JObj rows" using p(3)
      by (induction raws arbitrary: rows) (auto elim!: bind_OkE simp: object_field_Ok)
    then show ?thesis using p(2) by (simp add: list_field_Ok)
  qed
  have wf: "\<forall>t\<in>set ts. transfer_wf t"
    using mapM_origin[OF p(4)] accepted_transfer_wf by blast
  have s: "sorted (map rva_start ts)" "distinct (map rva_start ts)"
    "py_eq (jget payload ''direct_control_edges'') (JList (map edge_payload (direct_edges ts)))"
    using p(8) by (auto simp: check_summary_def Let_def malformed_plan_def stale_plan_def elim!: bind_OkE split: if_split_asm)
  have d: "distinct (map identity ts)"
    using p(7) by (auto simp: check_universe_def malformed_plan_def elim!: bind_OkE split: if_split_asm)
  have id: "by_identity ts = map (\<lambda>t. (identity t, t)) ts"
    unfolding by_identity_def by (rule dict_of_distinct) (use d in \<open>simp add: o_def\<close>)
  obtain table pe where r: "jget payload ''finite_control_routes'' = JList routes" "inventory_table inventory = Inr table"
    "validate_finite_control_routes sha depth routes (map (\<lambda>t. (identity t, t)) ts) table (Some pe) = Inr ()"
    using p(5) by (auto simp: check_routes_def id list_field_Ok stale_plan_def elim!: bind_OkE split: if_split_asm)
  have a: "jget payload ''atomic_effect_authority'' = JList atomics"
    "validate_atomic_effect_authority sha atomics (map (\<lambda>t. (identity t, t)) ts) = Inr ()"
    using p(6) by (auto simp: check_atomics_def id list_field_Ok stale_plan_def elim!: bind_OkE split: if_split_asm)
  have b: "req \<longrightarrow> jget payload ''semantic_blockers'' = JList []"
    using p(1) by (auto simp: check_plan_header_def list_field_Ok malformed_plan_def stale_plan_def elim!: bind_OkE split: if_split_asm)
  show ?thesis by (rule that[OF raws p(4) wf s(1,2) d r a s(3) b])
qed

lemma accepted_table:
  assumes "parse_executable_transfer_plan sha depth v req = Inr (payload, ts)" "map_of (by_rva ts) k = Some t"
  shows "t \<in> set ts" "rva_start t = k"
proof -
  have "distinct (map rva_start ts)" by (rule accepted_plan[OF assms(1)])
  then show "t \<in> set ts" "rva_start t = k"
    using assms(2) by (auto simp: by_rva_distinct dest!: map_of_SomeD)
qed

section \<open>Runs\<close>

text \<open>Consecutive entries of a trace are joined by a control edge.\<close>

fun linked :: "edge list \<Rightarrow> trace_entry list \<Rightarrow> bool" where
  "linked es (a # b # trace) \<longleftrightarrow>
     (\<exists>target. (entry_rva a, ''control'', target) \<in> set es \<and> entry_rva b = u32 target) \<and> linked es (b # trace)"
| "linked es _ \<longleftrightarrow> True"

lemma run_case_linked:
  assumes "run_case k ev tab cur r s m trc = Inr ob"
    "\<And>cur t s m r s' m'. map_of tab cur = Some t \<Longrightarrow> ev t s m = Inr (r, s', m') \<Longrightarrow> continues r \<Longrightarrow>
       \<exists>target. (cur, ''control'', target) \<in> set es \<and> target_rva r = u32 target"
  shows "\<exists>new. obs_trace ob = trc @ new \<and> linked es new \<and> (new \<noteq> [] \<longrightarrow> entry_rva (hd new) = cur)"
  using assms(1)
proof (induction k arbitrary: cur r s m trc)
  case 0
  then show ?case by (subst (asm) run_case.simps) auto
next
  case (Suc k)
  show ?case
  proof (cases "map_of tab cur")
    case None
    then show ?thesis using Suc.prems by (subst (asm) run_case.simps) (auto intro: exI[of _ "[]"])
  next
    case (Some t)
    obtain r' s' m' where e: "ev t s m = Inr (r', s', m')"
      using Suc.prems by (subst (asm) run_case.simps) (auto simp: Some bind_eq_Ok)
    define en where "en = \<lparr>unit_id = identity t, entry_rva = cur, entry_result = r'\<rparr>"
    show ?thesis
    proof (cases "continues r'")
      case True
      then have "run_case k ev tab (target_rva r') r' s' m' (trc @ [en]) = Inr ob"
        using Suc.prems by (subst (asm) run_case.simps) (simp add: Some e Let_def en_def)
      from Suc.IH[OF this] obtain new where "obs_trace ob = trc @ en # new" "linked es new"
        "new \<noteq> [] \<longrightarrow> entry_rva (hd new) = target_rva r'" by auto
      then show ?thesis using assms(2)[OF Some e True]
        by (intro exI[of _ "en # new"]) (cases new, auto simp: en_def)
    next
      case False
      then have "obs_trace ob = trc @ [en]"
        using Suc.prems by (subst (asm) run_case.simps) (auto simp: Some e Let_def en_def)
      then show ?thesis by (intro exI[of _ "[en]"]) (simp add: en_def)
    qed
  qed
qed

lemma run_case_total:
  assumes "\<And>cur t s m. map_of tab cur = Some t \<Longrightarrow> is_ok (ev t s m)"
  shows "is_ok (run_case k ev tab cur r s m trc)"
proof (induction k arbitrary: cur r s m trc)
  case 0
  then show ?case by (subst run_case.simps) simp
next
  case (Suc k)
  show ?case
  proof (cases "map_of tab cur")
    case None
    then show ?thesis by (subst run_case.simps) simp
  next
    case (Some t)
    from assms[OF Some] obtain r' s' m' where e: "ev t s m = Inr (r', s', m')"
      unfolding is_ok_iff by (metis prod_cases3)
    show ?thesis by (subst run_case.simps) (simp add: Some e Let_def Suc.IH)
  qed
qed

lemma accepted_run_total:
  assumes "parse_executable_transfer_plan sha depth v req = Inr (payload, ts)" "\<forall>t\<in>set ts. lowered t \<and> length (nodes t) \<le> d"
    "handler_total h"
  shows "is_ok (run_case k (\<lambda>t s m. evaluate_transfer d t s m u h) (by_rva ts) cur r s m trc)"
proof (rule run_case_total)
  fix cur t s m assume "map_of (by_rva ts) cur = Some t"
  note t = accepted_table[OF assms(1) this]
  have "\<forall>t\<in>set ts. transfer_wf t" by (rule accepted_plan[OF assms(1)])
  then show "is_ok (evaluate_transfer d t s m u h)"
    using t(1) assms(2,3) by (intro evaluate_transfer_total) auto
qed

lemma read_case:
  assumes "is_ok (evaluate_transfer_plan_case d ts0 cs h)"
  shows "\<exists>k cur r s m u. \<forall>ts. evaluate_transfer_plan_case d ts cs h
      = run_case k (\<lambda>t s m. evaluate_transfer d t s m u h) (by_rva ts) cur r s m []"
proof -
  obtain ob where ob: "evaluate_transfer_plan_case d ts0 cs h = Inr ob" using assms by (auto simp: is_ok_iff)
  obtain entry limit s m u where c: "jget cs ''format'' = JStr case_format" "jget cs ''entry_rva'' = JInt entry"
    "jget_default cs ''max_steps'' (JInt 1024) = JInt limit" "0 < limit \<and> limit \<le> 1000000"
    "(case jget cs ''state'' of JNull \<Rightarrow> state_from_payload [] | JObj ms \<Rightarrow> state_from_payload ms
        | _ \<Rightarrow> Raise (Plan_error ''evaluator state is malformed'')) = Inr s"
    "memory_from_payload (jget cs ''memory'') = Inr m"
    "(case jget_default cs ''undefined_values'' (JObj []) of JObj ms \<Rightarrow> undefined_values ms
        | _ \<Rightarrow> Raise (Plan_error ''evaluator undefined-value map is malformed'')) = Inr u"
    using ob unfolding evaluate_transfer_plan_case_def by (auto elim!: bind_OkE split: if_split_asm json.split_asm prod.split_asm)
  show ?thesis
    by (intro exI[of _ "nat limit"] exI[of _ "u32 entry"] exI[of _ "mk_result ''unimplemented'' (u32 entry) 0"]
        exI[of _ s] exI[of _ m] exI[of _ u]) (simp add: evaluate_transfer_plan_case_def c)
qed

section \<open>Collecting blockers\<close>

definition collected :: "nat \<Rightarrow> compile_state \<Rightarrow> bool" where
  "collected n s \<longleftrightarrow> length (cs_transfers s) + length (cs_blockers s) = n
     \<and> distinct (map rva_start (cs_transfers s)) \<and> distinct (map identity (cs_transfers s))
     \<and> distinct (map bl_index (cs_blockers s))
     \<and> (\<forall>b\<in>set (cs_blockers s). 0 \<le> bl_index b \<and> bl_index b < int n)"

lemma compile_row_collects:
  assumes "compile_row compiler collect s (n, row) = Inr s'" "collected n s"
  shows "collected (Suc n) s'"
  using assms
  by (auto simp: compile_row_def block_def collected_def mk_blocker_def Let_def elim!: bind_OkE
      split: if_split_asm sum.split_asm) force+

lemma compile_rows_collect:
  "foldM (compile_row compiler collect) s (enumerate n rows) = Inr s' \<Longrightarrow> collected n s \<Longrightarrow> collected (n + length rows) s'"
proof (induction rows arbitrary: n s)
  case (Cons row rows)
  then obtain s1 where s1: "compile_row compiler collect s (n, row) = Inr s1"
    "foldM (compile_row compiler collect) s1 (enumerate (Suc n) rows) = Inr s'"
    by (auto elim!: bind_OkE)
  from Cons.IH[OF s1(2) compile_row_collects[OF s1(1) Cons.prems(2)]] show ?case by simp
qed simp

text \<open>Without collection a row that is blocked ends the loop, so the two modes agree until then.\<close>

lemma compile_row_strict:
  "compile_row compiler False s p = Inr s' \<longleftrightarrow>
     compile_row compiler True s p = Inr s' \<and> cs_blockers s' = cs_blockers s"
  by (cases p) (auto simp: compile_row_def block_def Let_def elim!: bind_OkE split: if_split_asm sum.split_asm if_split sum.split)

lemma compile_row_blockers:
  "compile_row compiler True s p = Inr s' \<Longrightarrow> length (cs_blockers s) \<le> length (cs_blockers s') \<and> (length (cs_blockers s) = length (cs_blockers s') \<longrightarrow> cs_blockers s' = cs_blockers s)"
  by (cases p) (auto simp: compile_row_def block_def Let_def elim!: bind_OkE split: if_split_asm sum.split_asm)

lemma compile_rows_blockers:
  "foldM (compile_row compiler True) s ps = Inr s' \<Longrightarrow> length (cs_blockers s) \<le> length (cs_blockers s')"
  by (induction ps arbitrary: s) (auto elim!: bind_OkE dest!: compile_row_blockers intro: order_trans)

lemma compile_rows_strict:
  "foldM (compile_row compiler False) s ps = Inr s' \<longleftrightarrow>
     foldM (compile_row compiler True) s ps = Inr s' \<and> cs_blockers s' = cs_blockers s"
proof (induction ps arbitrary: s)
  case (Cons p ps)
  show ?case
  proof
    assume "foldM (compile_row compiler False) s (p # ps) = Inr s'"
    then show "foldM (compile_row compiler True) s (p # ps) = Inr s' \<and> cs_blockers s' = cs_blockers s"
      by (auto simp: Cons.IH compile_row_strict elim!: bind_OkE)
  next
    assume a: "foldM (compile_row compiler True) s (p # ps) = Inr s' \<and> cs_blockers s' = cs_blockers s"
    then obtain s1 where s1: "compile_row compiler True s p = Inr s1" "foldM (compile_row compiler True) s1 ps = Inr s'"
      by (auto elim!: bind_OkE)
    have "cs_blockers s1 = cs_blockers s"
      using compile_row_blockers[OF s1(1)] compile_rows_blockers[OF s1(2)] a by auto
    with s1 a have "compile_row compiler False s p = Inr s1" "foldM (compile_row compiler False) s1 ps = Inr s'"
      by (simp_all add: compile_row_strict Cons.IH)
    then show "foldM (compile_row compiler False) s (p # ps) = Inr s'" by simp
  qed
qed auto

lemma compile_start: "collected 0 \<lparr>cs_transfers = [], cs_blockers = []\<rparr>"
  by (simp add: collected_def)

section \<open>Why a row is blocked\<close>

text \<open>
  The verdict on row \<open>i\<close>, given the numbered transfers that were accepted: why it is blocked, if it
  is. A row is a duplicate only of an earlier accepted one.
\<close>

definition block_cause ::
  "row_compiler \<Rightarrow> (nat \<times> transfer) list \<Rightarrow> nat \<Rightarrow> members \<Rightarrow> (plan_failure \<times> string) option" where
  "block_cause compiler accepted i row =
     (if jget row ''status'' = JStr ''incomplete'' then Some (unqualified row, ''semantic_qualification'')
      else case compiler row of
        Inr (Inl failure) \<Rightarrow> Some (failure, ''semantic_lowering'')
      | Inr (Inr t) \<Rightarrow>
          let earlier = map snd (filter (\<lambda>a. fst a < i) accepted); same = (identity t \<in> identity ` set earlier)
          in if same \<or> rva_start t \<in> rva_start ` set earlier
             then Some (duplicate same (rva_start t), ''identity_validation'') else None
      | Inl e \<Rightarrow> None)"

definition explained :: "row_compiler \<Rightarrow> members list \<Rightarrow> (nat \<times> transfer) list \<Rightarrow> blocker \<Rightarrow> bool" where
  "explained compiler rows accepted b \<longleftrightarrow>
     (\<exists>i failure phase. bl_index b = int i \<and> block_cause compiler accepted i (rows ! i) = Some (failure, phase)
        \<and> bl_transfer_id b = (case jget (rows ! i) ''id'' of JStr s \<Rightarrow> Some s | _ \<Rightarrow> None)
        \<and> bl_code b = pf_code failure \<and> bl_message b = pf_message failure
        \<and> bl_next_action b = pf_next_action failure \<and> bl_phase b = phase)"

definition accounted :: "row_compiler \<Rightarrow> members list \<Rightarrow> nat \<Rightarrow> (nat \<times> transfer) list \<Rightarrow> blocker list \<Rightarrow> bool" where
  "accounted compiler rows n accepted found \<longleftrightarrow>
     sorted_wrt (<) (map fst accepted)
     \<and> (\<forall>(i, t)\<in>set accepted. i < n \<and> compiler (rows ! i) = Inr (Inr t) \<and> block_cause compiler accepted i (rows ! i) = None)
     \<and> map bl_index found = map int (filter (\<lambda>i. i \<notin> fst ` set accepted) [0..<n])
     \<and> (\<forall>b\<in>set found. explained compiler rows accepted b)"

lemma block_cause_later:
  "i \<le> n \<Longrightarrow> block_cause compiler (accepted @ [(n, t)]) i row = block_cause compiler accepted i row"
proof -
  assume "i \<le> n"
  then have f: "filter (\<lambda>a. fst a < i) (accepted @ [(n, t)]) = filter (\<lambda>a. fst a < i) accepted" by simp
  show ?thesis unfolding block_cause_def f ..
qed

lemma earlier_all: "\<forall>a\<in>set accepted. fst a < i \<Longrightarrow> filter (\<lambda>a. fst a < i) accepted = accepted"
  by (simp add: filter_id_conv)

lemma compile_row_cause:
  assumes "compile_row compiler True s (i, row) = Inr s'" "cs_transfers s = map snd accepted" "\<forall>a\<in>set accepted. fst a < i"
  shows "case block_cause compiler accepted i row of
      Some (failure, phase) \<Rightarrow> s' = s\<lparr>cs_blockers := cs_blockers s @ [mk_blocker row i failure phase]\<rparr>
    | None \<Rightarrow> \<exists>t. compiler row = Inr (Inr t) \<and> s' = s\<lparr>cs_transfers := map snd (accepted @ [(i, t)])\<rparr>"
proof -
  note unfolded = compile_row_def block_def block_cause_def earlier_all[OF assms(3)] assms(2) Let_def
  consider "jget row ''status'' = JStr ''incomplete''"
    | failure where "jget row ''status'' \<noteq> JStr ''incomplete''" "compiler row = Inr (Inl failure)"
    | t where "jget row ''status'' \<noteq> JStr ''incomplete''" "compiler row = Inr (Inr t)"
    using assms(1) by (cases "compiler row"; cases "projr (compiler row)") (auto simp: compile_row_def split: if_split_asm)
  then show ?thesis
  proof cases
    case (3 t)
    then show ?thesis using assms(1)
      by (cases "identity t \<in> identity ` set (map snd accepted) \<or> rva_start t \<in> rva_start ` set (map snd accepted)")
        (simp_all only: unfolded, simp_all)
  qed (use assms(1) in \<open>simp_all add: unfolded\<close>)
qed

lemma accounted_indices:
  assumes "accounted compiler rows n accepted found"
  shows "\<forall>a\<in>set accepted. fst a < n" "n \<notin> fst ` set accepted" "b \<in> set found \<Longrightarrow> bl_index b < int n"
proof -
  show less: "\<forall>a\<in>set accepted. fst a < n" using assms by (auto simp: accounted_def)
  then show "n \<notin> fst ` set accepted" by auto
  assume "b \<in> set found"
  moreover have "map bl_index found = map int (filter (\<lambda>i. i \<notin> fst ` set accepted) [0..<n])"
    using assms by (simp add: accounted_def)
  ultimately have "bl_index b \<in> set (map int (filter (\<lambda>i. i \<notin> fst ` set accepted) [0..<n]))"
    by (metis image_eqI set_map)
  then show "bl_index b < int n" by auto
qed

lemma compile_row_accounts:
  assumes "compile_row compiler True s (n, rows ! n) = Inr s'" "accounted compiler rows n accepted (cs_blockers s)"
    "cs_transfers s = map snd accepted"
  shows "\<exists>accepted'. accounted compiler rows (Suc n) accepted' (cs_blockers s') \<and> cs_transfers s' = map snd accepted'"
proof (cases "block_cause compiler accepted n (rows ! n)")
  case None
  note idx = accounted_indices[OF assms(2)]
  obtain t where t: "compiler (rows ! n) = Inr (Inr t)" "s' = s\<lparr>cs_transfers := map snd (accepted @ [(n, t)])\<rparr>"
    using compile_row_cause[OF assms(1,3) idx(1)] None by auto
  have "explained compiler rows (accepted @ [(n, t)]) b" if "b \<in> set (cs_blockers s)" for b
    using assms(2) idx(3)[OF that] that by (auto simp: accounted_def explained_def block_cause_later)
  moreover have "filter (\<lambda>i. i \<notin> fst ` set (accepted @ [(n, t)])) [0..<Suc n] = filter (\<lambda>i. i \<notin> fst ` set accepted) [0..<n]"
    by (auto intro!: filter_cong)
  ultimately have "accounted compiler rows (Suc n) (accepted @ [(n, t)]) (cs_blockers s)"
    using assms(2) idx(1) None t(1) unfolding accounted_def
    by (auto simp: sorted_wrt_append block_cause_later)
  then show ?thesis using t(2) by (intro exI[of _ "accepted @ [(n, t)]"]) simp
next
  case (Some c)
  note idx = accounted_indices[OF assms(2)]
  obtain failure phase where c: "c = (failure, phase)" by (cases c)
  have s': "s' = s\<lparr>cs_blockers := cs_blockers s @ [mk_blocker (rows ! n) n failure phase]\<rparr>"
    using compile_row_cause[OF assms(1,3) idx(1)] Some c by simp
  have "explained compiler rows accepted (mk_blocker (rows ! n) n failure phase)"
    using Some c by (auto simp: explained_def mk_blocker_def)
  then have "accounted compiler rows (Suc n) accepted (cs_blockers s')"
    using assms(2) idx(2) unfolding accounted_def s' by (auto simp: mk_blocker_def)
  then show ?thesis using s' assms(3) by auto
qed

lemma compile_rows_account:
  assumes "foldM (compile_row compiler True) s (enumerate n rest) = Inr s'" "rows = pre @ rest" "n = length pre"
    "accounted compiler rows n accepted (cs_blockers s)" "cs_transfers s = map snd accepted"
  shows "\<exists>accepted'. accounted compiler rows (length rows) accepted' (cs_blockers s') \<and> cs_transfers s' = map snd accepted'"
  using assms
proof (induction rest arbitrary: n s accepted pre)
  case (Cons row rest)
  then obtain s1 where s1: "compile_row compiler True s (n, row) = Inr s1"
    "foldM (compile_row compiler True) s1 (enumerate (Suc n) rest) = Inr s'"
    by (auto elim!: bind_OkE)
  have row: "rows ! n = row" using Cons.prems(2,3) by simp
  obtain a where a: "accounted compiler rows (Suc n) a (cs_blockers s1)" "cs_transfers s1 = map snd a"
    using compile_row_accounts[of compiler s n rows s1 accepted] s1(1) Cons.prems(4,5) unfolding row by blast
  show ?case by (rule Cons.IH[OF s1(2) _ _ a, of "pre @ [row]"]) (simp_all add: Cons.prems(2,3))
qed auto

lemma accounted_start: "accounted compiler rows 0 [] []"
  by (simp add: accounted_def)

end
