(* ===== verification/Action_Properties.thy ===== *)
theory Action_Properties
  imports Memory_Actions
begin

text \<open>
  What the graph builder guarantees: every event becomes part of exactly one action, in the order of
  the events, an atomic instruction's read and write become one action, and the graph passes the
  validator; and what the signature of a graph does and does not
  depend on.
\<close>

section \<open>Every event is in one action\<close>

definition sources_of :: "members \<Rightarrow> nat list" where
  "sources_of a = map nat [n. JInt n \<leftarrow> optional_list (jget a ''source_memory_event_indices'')]"

definition placed_sources :: "build_state \<Rightarrow> nat list" where
  "placed_sources s = concat (map (sources_of \<circ> snd) (bs_placed s))"

lemma sources_of_indices:
  assumes "jget a ''source_memory_event_indices'' = JList (map (JInt \<circ> int) is)" shows "sources_of a = is"
proof -
  have "concat (map (\<lambda>x. case x of JInt n \<Rightarrow> [n] | _ \<Rightarrow> []) (map (JInt \<circ> int) is)) = map int is"
    by (induction "is") auto
  then show ?thesis by (simp add: sources_of_def assms o_def)
qed

lemma jget_append: "jget (xs @ ys) k = (if jhas xs k then jget xs k else jget ys k)"
  by (auto simp: jget_def jhas_def map_add_def split: option.splits)

lemma place_sources:
  "sources_of (with_identity sha (atomic_action oper rva addr w v c)) = c"
  "sources_of (with_identity sha (with_compare (atomic_action oper rva addr w v c) p)) = c"
  "sources_of (with_identity sha (plain_action e rva i)) = [i]"
  by (rule sources_of_indices; simp add: with_identity_def with_compare_def atomic_action_def plain_action_def jget_def)+

text \<open>A record of the builder over \<open>n\<close> events of which the unclaimed ones below \<open>k\<close> have been placed.\<close>

definition conserved :: "nat \<Rightarrow> nat \<Rightarrow> build_state \<Rightarrow> bool" where
  "conserved n k s \<longleftrightarrow> distinct (bs_claimed s) \<and> set (bs_claimed s) \<subseteq> {..<n}
     \<and> (\<forall>(i, a)\<in>set (bs_placed s). sources_of a \<noteq> [] \<and> i = hd (sources_of a))
     \<and> (bs_issues s = [] \<longrightarrow>
          mset (placed_sources s) = mset (bs_claimed s) + mset (filter (\<lambda>i. i \<notin> set (bs_claimed s)) [0..<k]))"

lemma conserved_issue: "conserved n k s \<Longrightarrow> conserved n k' (add_issue i s)"
  by (simp add: conserved_def add_issue_def)

lemma sort_pair: "sort (remdups [r, w]) = (if r = w then [r] else if r < w then [r, w] else [w, r])" for r :: "'a :: linorder"
  by (auto dest: less_imp_le)

lemma conserved_place_atomic:
  assumes "conserved n 0 s" "r < n" "w < n" "r \<notin> set (bs_claimed s)" "w \<notin> set (bs_claimed s)"
  shows "conserved n 0 (place_atomic sha events details oper rva addr wd r w s)"
  using assms
  by (auto simp: conserved_def place_atomic_def Let_def add_issue_def place_sources placed_sources_def
      sort_pair simp del: remdups.simps split: option.splits)


lemma candidate_unclaimed: "is_candidate addr w rva claimed rvas (i, e) = Inr True \<Longrightarrow> i \<notin> set claimed"
  by (auto simp: is_candidate_def split: if_split_asm)

lemma of_kinds_subset: "i \<in> set (of_kinds ks ps) \<Longrightarrow> \<exists>e. (i, e) \<in> set ps"
  by (auto simp: of_kinds_def)

lemma conserved_atomic_operand:
  assumes "atomic_operand_step sha events rvas s index instr oper operand = Inr s'" "conserved (length events) 0 s"
  shows "conserved (length events) 0 s'"
proof -
  have "i < length events \<and> i \<notin> set (bs_claimed s)"
    if h: "filterM (is_candidate addr w rva (bs_claimed s) rvas) (enumerate 0 events) = Inr cands"
      "of_kinds ks cands = [i]" for addr w rva cands ks i
  proof -
    obtain e where "(i, e) \<in> set cands" using of_kinds_subset[of i ks cands] h(2) by auto
    from filterM_subset[OF h(1) this] candidate_unclaimed show ?thesis
      by (auto simp: in_set_enumerate_eq)
  qed
  with assms show ?thesis
    by (auto simp: atomic_operand_step_def Let_def conserved_issue elim!: bind_OkE
        intro!: conserved_place_atomic split: option.split_asm if_split_asm list.split_asm)
qed

lemma conserved_instruction:
  "instruction_step sha events rvas s p = Inr s' \<Longrightarrow> conserved (length events) 0 s \<Longrightarrow> conserved (length events) 0 s'"
  by (auto simp: instruction_step_def Let_def conserved_issue elim!: bind_OkE dest: conserved_atomic_operand
      split: prod.split_asm if_split_asm option.split_asm list.split_asm)

lemma conserved_event:
  assumes "event_step sha rvas s (k, e) = Inr s'" "conserved n k s" "k < n"
  shows "conserved n (Suc k) s'"
  using assms
  by (auto simp: event_step_def Let_def conserved_issue elim!: bind_OkE split: if_split_asm)
    (auto simp: conserved_def place_sources placed_sources_def)

lemma conserved_events:
  "foldM (event_step sha rvas) s (enumerate k es) = Inr s' \<Longrightarrow> conserved n k s \<Longrightarrow> k + length es \<le> n
   \<Longrightarrow> conserved n (k + length es) s'"
proof (induction es arbitrary: k s)
  case (Cons e es)
  then obtain s1 where s1: "event_step sha rvas s (k, e) = Inr s1" "foldM (event_step sha rvas) s1 (enumerate (Suc k) es) = Inr s'"
    by (auto elim!: bind_OkE)
  from Cons.IH[OF s1(2) conserved_event[OF s1(1) Cons.prems(2)]] Cons.prems(3) show ?case by simp
qed simp

lemma conserved_start: "conserved n 0 \<lparr>bs_issues = [], bs_claimed = [], bs_placed = []\<rparr>"
  by (simp add: conserved_def placed_sources_def)

lemma run_builder_conserved:
  assumes "run_builder sha instrs events ordered = Inr s"
  shows "conserved (length events) (length events) s"
proof -
  have "conserved (length events) 0 s1"
    if "foldM (instruction_step sha events (event_instruction_rvas events ordered)) \<lparr>bs_issues = [], bs_claimed = [], bs_placed = []\<rparr>
        (enumerate 0 instrs) = Inr s1" for s1
    by (rule foldM_invariant[OF that, of "conserved (length events) 0"])
      (use conserved_start conserved_instruction in blast)+
  with assms show ?thesis
    by (auto simp: run_builder_def Let_def elim!: bind_OkE dest: conserved_events[where k = 0])
qed


lemma placed_in_order:
  assumes "\<forall>(i, a)\<in>set ps. sources_of a \<noteq> [] \<and> i = hd (sources_of a)"
  shows "sorted (map (hd \<circ> sources_of) (map snd (sort_key fst ps)))"
proof -
  have "map (hd \<circ> sources_of) (map snd (sort_key fst ps)) = map fst (sort_key fst ps)"
    using assms by (auto intro!: map_cong)
  then show ?thesis by (simp only: sorted_sort_key)
qed

lemma copied_list: "mapM copy_mapping vs = Inr ms \<Longrightarrow> length ms = length vs"
  by (rule mapM_length)

lemma objects_map [simp]: "objects (map JObj xs) = xs"
  by (induction xs) (auto simp: objects_def)

lemma built_parts:
  assumes "build_memory_action_graph sha instrs evs ordered legacy = Inr graph"
  obtains s edges events where
    "conserved (length evs) (length evs) s" "mapM copy_mapping evs = Inr events"
    "order_edges (map snd (sort_key fst (bs_placed s))) = Inr edges"
    "jget graph ''actions'' = JList (map JObj (map snd (sort_key fst (bs_placed s))))"
    "jget graph ''issues'' = JList (bs_issues s)" "jget graph ''edges'' = JList edges"
    "jget graph ''format'' = JStr action_graph_format" "jget graph ''profile_id'' = JStr tso_profile"
    "jget graph ''status'' = JStr (if bs_issues s = [] then ''complete'' else ''incomplete'')"
    "jget graph ''authority'' = authority_payload legacy (bs_issues s = [])"
    "\<exists>ms. run_builder sha ms events ordered = Inr s"
proof -
  from assms obtain events ms s edges d where
    ev: "mapM copy_mapping evs = Inr events" and b: "run_builder sha ms events ordered = Inr s"
    and ed: "order_edges (map snd (sort_key fst (bs_placed s))) = Inr edges"
    and g: "graph = [(''format'', JStr action_graph_format), (''profile_id'', JStr tso_profile),
        (''status'', JStr (if bs_issues s = [] then ''complete'' else ''incomplete'')),
        (''authority'', authority_payload legacy (bs_issues s = [])),
        (''actions'', JList (map JObj (map snd (sort_key fst (bs_placed s))))), (''edges'', JList edges),
        (''issues'', JList (bs_issues s)), (''model_receipt'', JObj (memory_model_receipt sha))]
        @ [(''graph_sha256'', JStr d)]"
    unfolding build_memory_action_graph_def Let_def by (auto elim!: bind_OkE)
  show ?thesis
    by (rule that[OF _ ev ed]) (use run_builder_conserved[OF b] copied_list[OF ev] b g in \<open>auto simp: jget_def\<close>)
qed


section \<open>One action per atomic instruction\<close>

definition atomic_instruction :: "members \<Rightarrow> bool" where
  "atomic_instruction instr \<longleftrightarrow> has_lock_prefix instr \<or> (base_mnemonic instr = Inr ''xchg'' \<and> memory_operands instr \<noteq> [])"

text \<open>Event \<open>i\<close> is an access of one of the kinds, at the address and width, of the instruction if it is known.\<close>

definition accesses :: "members list \<Rightarrow> int option list \<Rightarrow> string list \<Rightarrow> members \<Rightarrow> int \<Rightarrow> int option \<Rightarrow> nat \<Rightarrow> bool" where
  "accesses events rvas ks addr w rva i \<longleftrightarrow>
     i < length events \<and> jget (events ! i) ''kind'' \<in> JStr ` set ks
     \<and> same_text (jget (events ! i) ''address'') (JObj addr) \<and> py_eq (jget (events ! i) ''width'') (JInt w)
     \<and> (rva = None \<or> rvas ! i = None \<or> rvas ! i = rva)"

text \<open>The action \<open>a\<close> is the atomic instruction: its operation on its memory operand, with its read and its write.\<close>

definition fused :: "members list \<Rightarrow> int option list \<Rightarrow> members \<Rightarrow> members \<Rightarrow> bool" where
  "fused events rvas instr a \<longleftrightarrow>
     (\<exists>operand m oper addr w r wr.
        memory_operands instr = [operand] \<and> base_mnemonic instr = Inr m \<and> map_of atomic_operations m = Some oper
        \<and> operand_address operand = Inr (Some addr) \<and> operand_width operand = Some w
        \<and> accesses events rvas [''read'', ''read_write''] addr w (instruction_address instr) r
        \<and> accesses events rvas [''write'', ''read_write''] addr w (instruction_address instr) wr
        \<and> jget a ''kind'' = JStr ''rmw'' \<and> jget a ''instruction_rva'' = opt_int (instruction_address instr)
        \<and> jget a ''operation'' = JStr oper \<and> jget a ''address'' = JObj addr \<and> jget a ''width_bytes'' = JInt w
        \<and> sources_of a = sort (remdups [r, wr]))"

definition one_event :: "members list \<Rightarrow> members \<Rightarrow> bool" where
  "one_event events a \<longleftrightarrow>
     (\<exists>i<length events. sources_of a = [i] \<and> jget a ''kind'' = jget (events ! i) ''kind''
        \<and> jget a ''kind'' \<in> {JStr ''read'', JStr ''write''}
        \<and> jget a ''address'' = jget (events ! i) ''address'' \<and> jget a ''width_bytes'' = jget (events ! i) ''width'')"

lemma atomic_members:
  assumes "a = atomic_action oper rva addr w v c \<or> (\<exists>p. a = with_compare (atomic_action oper rva addr w v c) p)"
  shows "jget (with_identity sha a) ''kind'' = JStr ''rmw'' \<and> jget (with_identity sha a) ''instruction_rva'' = opt_int rva
    \<and> jget (with_identity sha a) ''operation'' = JStr oper \<and> jget (with_identity sha a) ''address'' = JObj addr
    \<and> jget (with_identity sha a) ''width_bytes'' = JInt w \<and> sources_of (with_identity sha a) = c"
  using assms by (auto simp: place_sources) (auto simp: with_identity_def with_compare_def atomic_action_def jget_def)

lemma placed_atomic:
  assumes "bs_issues (place_atomic sha events details oper rva addr w r wr s) = []"
  shows "bs_issues s = [] \<and> (\<exists>j a. bs_placed (place_atomic sha events details oper rva addr w r wr s) = bs_placed s @ [(j, a)]
    \<and> jget a ''kind'' = JStr ''rmw'' \<and> jget a ''instruction_rva'' = opt_int rva
    \<and> jget a ''operation'' = JStr oper \<and> jget a ''address'' = JObj addr
    \<and> jget a ''width_bytes'' = JInt w \<and> sources_of a = sort (remdups [r, wr]))"
proof -
  let ?s = "place_atomic sha events details oper rva addr w r wr s"
  define plain where "plain = atomic_action oper rva addr w (jget (events ! wr) ''value'') (sort (remdups [r, wr]))"
  have "bs_issues s = [] \<and> (\<exists>a. (a = plain \<or> (\<exists>p. a = with_compare plain p))
      \<and> bs_placed ?s = bs_placed s @ [(hd (sort (remdups [r, wr])), with_identity sha a)])"
    using assms unfolding place_atomic_def Let_def plain_def[symmetric]
    by (auto simp: add_issue_def simp del: remdups.simps split: option.split_asm if_split_asm)
  then show ?thesis using atomic_members[of _ oper rva addr w _ _ sha] unfolding plain_def by blast
qed

lemma candidate_access:
  assumes "filterM (is_candidate addr w rva claimed rvas) (enumerate 0 events) = Inr cands" "of_kinds ks cands = [i]"
  shows "accesses events rvas ks addr w rva i"
proof -
  obtain e where e: "(i, e) \<in> set cands" "jget e ''kind'' \<in> JStr ` set ks"
  proof -
    have "i \<in> set (of_kinds ks cands)" using assms(2) by simp
    then show thesis using that by (auto simp: of_kinds_def)
  qed
  from filterM_subset[OF assms(1) e(1)] have "events ! i = e" "i < length events" "is_candidate addr w rva claimed rvas (i, e) = Inr True"
    by (auto simp: in_set_enumerate_eq)
  with e(2) show ?thesis
    by (auto simp: accesses_def is_candidate_def split: if_split_asm elim!: bind_OkE)
qed

lemma operand_fused:
  assumes "atomic_operand_step sha events rvas s index instr oper operand = Inr s'" "bs_issues s' = []"
    "memory_operands instr = [operand]" "base_mnemonic instr = Inr m" "map_of atomic_operations m = Some oper"
  shows "bs_issues s = [] \<and> (\<exists>j a. bs_placed s' = bs_placed s @ [(j, a)] \<and> fused events rvas instr a)"
proof -
  define details where "details = [(''instruction_index'', JInt (int index)), (''instruction_rva'', opt_int (instruction_address instr))]"
  obtain addr w cands r wr where c: "operand_address operand = Inr (Some addr)" "operand_width operand = Some w"
    "filterM (is_candidate addr w (instruction_address instr) (bs_claimed s) rvas) (enumerate 0 events) = Inr cands"
    "of_kinds [''read'', ''read_write''] cands = [r]" "of_kinds [''write'', ''read_write''] cands = [wr]"
    "s' = place_atomic sha events details oper (instruction_address instr) addr w r wr s"
    using assms(1,2) unfolding atomic_operand_step_def Let_def details_def
    by (auto simp: add_issue_def elim!: bind_OkE split: option.split_asm if_split_asm list.split_asm)
  note acc = candidate_access[OF c(3,4)] candidate_access[OF c(3,5)]
  from placed_atomic[of sha events details oper "instruction_address instr" addr w r wr s] assms(2) c(6)
  obtain j a where a: "bs_issues s = []" "bs_placed s' = bs_placed s @ [(j, a)]"
    "jget a ''kind'' = JStr ''rmw''" "jget a ''instruction_rva'' = opt_int (instruction_address instr)"
    "jget a ''operation'' = JStr oper" "jget a ''address'' = JObj addr" "jget a ''width_bytes'' = JInt w"
    "sources_of a = sort (remdups [r, wr])"
    by auto
  with acc c(1,2) assms(3-5) have "fused events rvas instr a" unfolding fused_def by blast
  with a(1,2) show ?thesis by blast
qed

lemma instruction_fused:
  assumes "instruction_step sha events rvas s (k, instr) = Inr s'" "bs_issues s' = []"
  shows "bs_issues s = [] \<and> (if atomic_instruction instr
    then \<exists>j a. bs_placed s' = bs_placed s @ [(j, a)] \<and> fused events rvas instr a else bs_placed s' = bs_placed s)"
proof -
  obtain m where m: "base_mnemonic instr = Inr m" using assms(1) by (auto simp: instruction_step_def elim!: bind_OkE)
  show ?thesis
  proof (cases "atomic_instruction instr")
    case True
    then obtain oper operand where "map_of atomic_operations m = Some oper" "memory_operands instr = [operand]"
      "atomic_operand_step sha events rvas s k instr oper operand = Inr s'"
      using assms m by (auto simp: instruction_step_def atomic_instruction_def add_issue_def
          split: if_split_asm option.split_asm list.split_asm)
    then show ?thesis using operand_fused[OF _ assms(2) _ m] True by simp
  next
    case False
    then show ?thesis using assms m by (auto simp: instruction_step_def atomic_instruction_def)
  qed
qed

lemma instructions_fused:
  assumes "foldM (instruction_step sha events rvas) s (enumerate k instrs) = Inr s'" "bs_issues s' = []"
  shows "bs_issues s = [] \<and> (\<exists>new. bs_placed s' = bs_placed s @ new
    \<and> list_all2 (\<lambda>instr p. fused events rvas instr (snd p)) (filter atomic_instruction instrs) new)"
  using assms
proof (induction instrs arbitrary: k s)
  case (Cons instr instrs)
  then obtain s1 where s1: "instruction_step sha events rvas s (k, instr) = Inr s1"
    "foldM (instruction_step sha events rvas) s1 (enumerate (Suc k) instrs) = Inr s'"
    by (auto elim!: bind_OkE)
  from Cons.IH[OF s1(2) Cons.prems(2)] obtain new where new: "bs_issues s1 = []" "bs_placed s' = bs_placed s1 @ new"
    "list_all2 (\<lambda>instr p. fused events rvas instr (snd p)) (filter atomic_instruction instrs) new" by blast
  from instruction_fused[OF s1(1) new(1)] new(2,3) show ?case by (auto split: if_split_asm)
qed simp

lemma event_one:
  assumes "event_step sha rvas s (k, events ! k) = Inr s'" "k < length events" "bs_issues s' = []"
  shows "bs_issues s = [] \<and> (\<exists>new. bs_placed s' = bs_placed s @ new \<and> (\<forall>(j, a)\<in>set new. one_event events a))"
proof -
  let ?e = "events ! k"
  have "s' = s \<or> hash_in (jget ?e ''kind'') (map JStr [''read'', ''write'', ''read_write'']) = Inr True
      \<and> jget ?e ''kind'' \<noteq> JStr ''read_write''
      \<and> s' = s\<lparr>bs_placed := bs_placed s @ [(k, with_identity sha (plain_action ?e (rvas ! k) k))]\<rparr>"
  proof -
    define K where "K = hash_in (jget ?e ''kind'') (map JStr [''read'', ''write'', ''read_write''])"
    define W where "W = hash_in (jget ?e ''width'') pe32_widths"
    define M where "M = (case jget ?e ''address'' of JObj _ \<Rightarrow> False | _ \<Rightarrow> True)"
    show ?thesis
      using assms(1,3) unfolding event_step_def Let_def prod.case K_def[symmetric] W_def[symmetric] M_def[symmetric]
      by (cases K; cases W) (auto simp: add_issue_def split: if_split_asm)
  qed
  then show ?thesis
  proof
    assume p: "hash_in (jget ?e ''kind'') (map JStr [''read'', ''write'', ''read_write'']) = Inr True
      \<and> jget ?e ''kind'' \<noteq> JStr ''read_write''
      \<and> s' = s\<lparr>bs_placed := bs_placed s @ [(k, with_identity sha (plain_action ?e (rvas ! k) k))]\<rparr>"
    define v where "v = jget ?e ''kind''"
    have h: "hash_in v (map JStr [''read'', ''write'', ''read_write'']) = Inr True" "v \<noteq> JStr ''read_write''"
      using p by (simp_all add: v_def)
    then have "v \<in> {JStr ''read'', JStr ''write''}" by (cases v) (auto simp: hash_in_def)
    then have kind: "jget ?e ''kind'' \<in> {JStr ''read'', JStr ''write''}" by (simp add: v_def)
    have "jget (with_identity sha (plain_action ?e (rvas ! k) k)) ''kind'' = jget ?e ''kind''"
      "jget (with_identity sha (plain_action ?e (rvas ! k) k)) ''address'' = jget ?e ''address''"
      "jget (with_identity sha (plain_action ?e (rvas ! k) k)) ''width_bytes'' = jget ?e ''width''"
      by (simp_all add: with_identity_def plain_action_def jget_append jhas_def jget_def[of "(_, _) # _"])
    then have "one_event events (with_identity sha (plain_action ?e (rvas ! k) k))"
      unfolding one_event_def using assms(2) kind place_sources(3)[of sha ?e "rvas ! k" k]
      by (intro exI[of _ k] conjI) simp_all
    then show ?thesis using p assms(3) by auto
  qed (use assms(3) in auto)
qed

lemma events_one:
  assumes "foldM (event_step sha rvas) s (enumerate k es) = Inr s'" "events = pre @ es" "k = length pre" "bs_issues s' = []"
  shows "bs_issues s = [] \<and> (\<exists>new. bs_placed s' = bs_placed s @ new \<and> (\<forall>(j, a)\<in>set new. one_event events a))"
  using assms
proof (induction es arbitrary: k s pre)
  case (Cons e es)
  then obtain s1 where s1: "event_step sha rvas s (k, e) = Inr s1" "foldM (event_step sha rvas) s1 (enumerate (Suc k) es) = Inr s'"
    by (auto elim!: bind_OkE)
  have e: "events ! k = e" "k < length events" using Cons.prems(2,3) by simp_all
  from Cons.IH[OF s1(2) _ _ Cons.prems(4), of "pre @ [e]"] Cons.prems(2,3)
  obtain new where new: "bs_issues s1 = []" "bs_placed s' = bs_placed s1 @ new" "\<forall>(j, a)\<in>set new. one_event events a" by auto
  from event_one[of sha rvas s k events s1] s1(1) e new(1)
  obtain first where "bs_issues s = []" "bs_placed s1 = bs_placed s @ first" "\<forall>(j, a)\<in>set first. one_event events a" by auto
  with new show ?case by (intro conjI exI[of _ "first @ new"]) auto
qed simp

lemma run_builder_fuses:
  assumes "run_builder sha instrs events ordered = Inr s" "bs_issues s = []"
  shows "\<exists>atomics plains. map snd (bs_placed s) = atomics @ plains
    \<and> list_all2 (fused events (event_instruction_rvas events ordered)) (filter atomic_instruction instrs) atomics
    \<and> (\<forall>a\<in>set plains. one_event events a)"
proof -
  let ?rvas = "event_instruction_rvas events ordered"
  obtain s1 where s1: "foldM (instruction_step sha events ?rvas) \<lparr>bs_issues = [], bs_claimed = [], bs_placed = []\<rparr> (enumerate 0 instrs) = Inr s1"
    "foldM (event_step sha ?rvas) s1 (enumerate 0 events) = Inr s"
    using assms(1) by (auto simp: run_builder_def Let_def elim!: bind_OkE)
  from events_one[OF s1(2) _ _ assms(2), where pre = "[]" and events = events] obtain plains where p: "bs_issues s1 = []"
    "bs_placed s = bs_placed s1 @ plains" "\<forall>(j, a)\<in>set plains. one_event events a" by auto
  from instructions_fused[OF s1(1) p(1)]
  have "list_all2 (\<lambda>instr p. fused events ?rvas instr (snd p)) (filter atomic_instruction instrs) (bs_placed s1)" by auto
  then have "list_all2 (fused events ?rvas) (filter atomic_instruction instrs) (map snd (bs_placed s1))"
    by (simp add: list_all2_map2)
  then show ?thesis using p(2,3) by (intro exI[of _ "map snd (bs_placed s1)"] exI[of _ "map snd plains"]) auto
qed

lemma built_run:
  assumes "build_memory_action_graph sha instrs evs ordered legacy = Inr graph" "jget graph ''issues'' = JList []"
  obtains s events ms where "conserved (length evs) (length evs) s" "mapM copy_mapping evs = Inr events"
    "mapM copy_mapping instrs = Inr ms" "run_builder sha ms events ordered = Inr s" "bs_issues s = []"
    "objects (optional_list (jget graph ''actions'')) = map snd (sort_key fst (bs_placed s))"
proof -
  from assms(1) obtain events ms s edges d where
    ev: "mapM copy_mapping evs = Inr events" "mapM copy_mapping instrs = Inr ms" and b: "run_builder sha ms events ordered = Inr s"
    and g: "graph = [(''format'', JStr action_graph_format), (''profile_id'', JStr tso_profile),
        (''status'', JStr (if bs_issues s = [] then ''complete'' else ''incomplete'')),
        (''authority'', authority_payload legacy (bs_issues s = [])),
        (''actions'', JList (map JObj (map snd (sort_key fst (bs_placed s))))), (''edges'', JList edges),
        (''issues'', JList (bs_issues s)), (''model_receipt'', JObj (memory_model_receipt sha))]
        @ [(''graph_sha256'', JStr d)]"
    unfolding build_memory_action_graph_def Let_def by (auto elim!: bind_OkE)
  have "jget graph ''issues'' = JList (bs_issues s)"
    "jget graph ''actions'' = JList (map JObj (map snd (sort_key fst (bs_placed s))))"
    by (simp_all add: g jget_def)
  then have "bs_issues s = []" "objects (optional_list (jget graph ''actions'')) = map snd (sort_key fst (bs_placed s))"
    using assms(2) by (simp_all del: map_map)
  with that[OF _ ev b] show ?thesis using run_builder_conserved[OF b] copied_list[OF ev(1)] by simp
qed

section \<open>A built graph passes the validator\<close>

definition identity_of :: "members \<Rightarrow> string" where
  "identity_of a = (case jget a ''id'' of JStr s \<Rightarrow> s | _ \<Rightarrow> [])"

definition valid_action :: "members \<Rightarrow> bool" where
  "valid_action a \<longleftrightarrow> (\<exists>s. jget a ''id'' = JStr s \<and> s \<noteq> []) \<and> jhas a ''id''
     \<and> jget a ''kind'' \<in> JStr ` {''read'', ''write'', ''rmw''}
     \<and> check_access a = Inr () \<and> (jget a ''kind'' = JStr ''rmw'' \<longrightarrow> check_rmw a = Inr ())"

lemma valid_id: "valid_action a \<Longrightarrow> jget a ''id'' = JStr (identity_of a) \<and> identity_of a \<noteq> [] \<and> jitem a ''id'' = Inr (JStr (identity_of a))"
  by (auto simp: valid_action_def identity_of_def jitem_def jget_def jhas_def split: option.splits)

definition known_operation :: "string \<Rightarrow> bool" where
  "known_operation oper \<longleftrightarrow> oper \<in> set (map snd atomic_operations)"

lemma known_operationI: "map_of atomic_operations m = Some oper \<Longrightarrow> known_operation oper"
  by (force simp: known_operation_def dest: map_of_SomeD)

lemma valid_atomic:
  assumes "known_operation oper" "w \<in> {1, 2, 4, 8}"
  shows "valid_action (with_identity sha (atomic_action oper rva addr w v c))"
    and "valid_action (with_identity sha (with_compare (atomic_action oper rva addr w v c) p))"
  using assms
  by (auto simp: valid_action_def with_identity_def with_compare_def atomic_action_def jget_def jhas_def action_identity_def
      check_access_def check_rmw_def known_operation_def hash_in_def pe32_widths_def member_of_def)

lemma valid_plain:
  assumes "hash_in (jget e ''kind'') (map JStr [''read'', ''write'', ''read_write'']) = Inr True" "jget e ''kind'' \<noteq> JStr ''read_write''"
    "hash_in (jget e ''width'') pe32_widths = Inr True" "jget e ''address'' = JObj addr"
  shows "valid_action (with_identity sha (plain_action e rva i))"
proof -
  have "jget e ''kind'' \<in> JStr ` {''read'', ''write''}"
    using assms(1,2) by (cases "jget e ''kind''") (auto simp: hash_in_def)
  then show ?thesis
    using assms(3,4) by (auto simp: valid_action_def with_identity_def plain_action_def check_access_def action_identity_def
        jget_append jhas_def jget_def[of "(_, _) # _"])
qed

definition all_valid :: "build_state \<Rightarrow> bool" where
  "all_valid s \<longleftrightarrow> (\<forall>(i, a)\<in>set (bs_placed s). valid_action a)"

lemma all_valid_issue [simp]: "all_valid (add_issue i s) = all_valid s"
  by (simp add: all_valid_def add_issue_def)

lemma all_valid_place_atomic:
  assumes "all_valid s" "known_operation oper" "w \<in> {1, 2, 4, 8}"
  shows "all_valid (place_atomic sha events details oper rva addr w r v s)"
  using assms(1) valid_atomic[OF assms(2,3)]
  by (auto simp: all_valid_def place_atomic_def Let_def add_issue_def split: option.splits)

lemma all_valid_atomic_operand:
  assumes "atomic_operand_step sha events rvas s index instr oper operand = Inr s'" "all_valid s"
    "known_operation oper"
  shows "all_valid s'"
  using assms
  by (auto simp: atomic_operand_step_def Let_def elim!: bind_OkE
      intro!: all_valid_place_atomic split: option.split_asm if_split_asm list.split_asm)

lemma all_valid_instruction:
  "instruction_step sha events rvas s p = Inr s' \<Longrightarrow> all_valid s \<Longrightarrow> all_valid s'"
  by (auto simp: instruction_step_def Let_def elim!: bind_OkE
      split: prod.split_asm if_split_asm option.split_asm list.split_asm)
    (blast intro: all_valid_atomic_operand known_operationI)+

lemma all_valid_event: "event_step sha rvas s p = Inr s' \<Longrightarrow> all_valid s \<Longrightarrow> all_valid s'"
  by (auto simp: event_step_def Let_def elim!: bind_OkE split: prod.split_asm if_split_asm json.split_asm)
    (auto simp: all_valid_def intro!: valid_plain)

lemma run_builder_valid:
  assumes "run_builder sha instrs events ordered = Inr s"
  shows "all_valid s"
proof -
  let ?rvas = "event_instruction_rvas events ordered"
  let ?start = "\<lparr>bs_issues = [], bs_claimed = [], bs_placed = []\<rparr>"
  obtain s1 where s1: "foldM (instruction_step sha events ?rvas) ?start (enumerate 0 instrs) = Inr s1"
    "foldM (event_step sha ?rvas) s1 (enumerate 0 events) = Inr s"
    using assms by (auto simp: run_builder_def Let_def elim!: bind_OkE)
  have "all_valid s1"
    by (rule foldM_invariant[OF s1(1), of all_valid]) (use all_valid_instruction in \<open>auto simp: all_valid_def[of ?start]\<close>)
  then show ?thesis
    by (rule foldM_invariant[OF s1(2), of all_valid]) (use all_valid_event in blast)
qed

lemma check_actions:
  assumes "\<forall>a\<in>set actions. valid_action a" "distinct (map identity_of actions)" "set ids \<inter> set (map identity_of actions) = {}"
  shows "foldM check_action ids (map JObj actions) = Inr (rev (map identity_of actions) @ ids)"
  using assms
proof (induction actions arbitrary: ids)
  case (Cons a actions)
  have a: "valid_action a" "identity_of a \<notin> set ids" using Cons.prems by auto
  have "check_action ids (JObj a) = Inr (identity_of a # ids)"
    using valid_id[OF a(1)] a unfolding valid_action_def check_action_def
    by (elim conjE imageE insertE) (simp_all add: action_kinds_def)
  then show ?case using Cons.IH[of "identity_of a # ids"] Cons.prems by auto
qed simp

lemma check_edges:
  assumes "\<forall>a\<in>set actions. valid_action a" "order_edges actions = Inr edges" "set (map identity_of actions) \<subseteq> set ids"
  shows "foldM (\<lambda>_ e. check_edge ids e) () edges = Inr ()"
proof -
  have "check_edge ids e = Inr ()" if e: "e \<in> set edges" for e
  proof -
    have "\<exists>a\<in>set actions. \<exists>b\<in>set actions.
        e = JObj [(''kind'', JStr ''program_order''), (''before'', JStr (identity_of a)), (''after'', JStr (identity_of b))]"
    proof -
      obtain left right where lr: "(left, right) \<in> set (zip actions (tl actions))"
        "bind (jitem left ''id'') (\<lambda>a. bind (jitem right ''id'') (\<lambda>b.
           Ok (JObj [(''kind'', JStr ''program_order''), (''before'', a), (''after'', b)]))) = Inr e"
        using mapM_origin[OF assms(2)[unfolded order_edges_def] e] by auto
      from set_zip_leftD[OF lr(1)] set_zip_rightD[OF lr(1)] have "left \<in> set actions" "right \<in> set actions"
        by (cases actions; auto)+
      moreover have "e = JObj [(''kind'', JStr ''program_order''), (''before'', JStr (identity_of left)), (''after'', JStr (identity_of right))]"
        using lr(2) valid_id[of left] valid_id[of right] assms(1) calculation by simp
      ultimately show ?thesis by blast
    qed
    then show ?thesis using assms(3) by (auto simp: check_edge_def jget_def image_subset_iff)
  qed
  then show ?thesis by (induction edges) auto
qed


section \<open>A blank mnemonic\<close>

lemma map_of_insort: "map_of (insort_key fst x xs) k = map_of (x # xs) k" if "sorted (map fst xs)" for x :: "string \<times> 'b"
  using that by (induction xs) auto

lemma map_of_sort_key: "map_of (sort_key fst xs) k = map_of xs k" for xs :: "(string \<times> 'b) list"
  by (induction xs) (simp_all add: map_of_insort del: map_of.simps, auto)

lemma copied_string: "jget ms k = JStr s \<Longrightarrow> copy_mapping (JObj ms) = Inr ms' \<Longrightarrow> jget ms' k = JStr s"
proof -
  assume a: "jget ms k = JStr s" "copy_mapping (JObj ms) = Inr ms'"
  have "map_of (map (\<lambda>kv. (fst kv, sort_keys (snd kv))) ms) k = map_option sort_keys (map_of ms k)"
    by (induction ms) auto
  with a show ?thesis
    by (auto simp: copy_mapping_def jget_def map_of_sort_key split: option.split_asm)
qed

section \<open>Signatures and identities\<close>

definition rename_id :: "(string \<Rightarrow> string) \<Rightarrow> json \<Rightarrow> json" where
  "rename_id f v = (case v of JStr s \<Rightarrow> JStr (f s) | _ \<Rightarrow> v)"

definition rename_at :: "string list \<Rightarrow> (string \<Rightarrow> string) \<Rightarrow> members \<Rightarrow> members" where
  "rename_at ks f ms = map (\<lambda>(k, v). (k, if k \<in> set ks then rename_id f v else v)) ms"

definition is_string :: "json \<Rightarrow> bool" where
  "is_string v \<longleftrightarrow> (\<exists>s. v = JStr s)"

lemma jget_rename: "jget (rename_at ks f ms) k = (if k \<in> set ks then rename_id f (jget ms k) else jget ms k)"
  by (induction ms) (auto simp: rename_at_def jget_def rename_id_def split: json.split)

lemma label_rename: "label_of (rename_at [''id''] f a) = label_of a"
proof -
  have "filter (\<lambda>kv. fst kv \<noteq> ''id'') (rename_at [''id''] f a) = filter (\<lambda>kv. fst kv \<noteq> ''id'') a"
    by (induction a) (auto simp: rename_at_def)
  then show ?thesis by (simp add: label_of_def)
qed

lemma update_rename: "inj f \<Longrightarrow> AList.update (f k) v (map (apfst f) ls) = map (apfst f) (AList.update k v ls)"
  by (induction ls) (auto simp: inj_eq)

lemma labels_rename:
  assumes "inj f" "\<forall>a\<in>set actions. is_string (jget a ''id'')"
  shows "signature_labels (map (rename_at [''id''] f) actions) = map (apfst f) (signature_labels actions)"
  using assms(2) unfolding signature_labels_def
proof (induction actions rule: rev_induct)
  case (snoc a actions)
  then obtain s where "jget a ''id'' = JStr s" by (auto simp: is_string_def)
  with snoc show ?case by (simp add: jget_rename rename_id_def label_rename update_rename[OF assms(1)])
qed simp

lemma map_of_apfst: "inj f \<Longrightarrow> map_of (map (apfst f) ls) (f k) = map_of ls k"
  by (induction ls) (auto simp: inj_eq)

lemma label_edge_rename:
  assumes "inj f" "is_string (jget e ''before'')" "is_string (jget e ''after'')"
  shows "label_edge (map (apfst f) ls) (rename_at [''before'', ''after''] f e) = label_edge ls e"
  using assms by (auto simp: label_edge_def jget_rename rename_id_def is_string_def map_of_apfst)

definition rename_signature :: "(string \<Rightarrow> string) \<Rightarrow> members \<Rightarrow> members" where
  "rename_signature f sg =
     [(''format'', jget sg ''format''),
      (''actions'', JList (map (JObj \<circ> rename_at [''id''] f) (objects (optional_list (jget sg ''actions''))))),
      (''edges'', JList (map (JObj \<circ> rename_at [''before'', ''after''] f) (objects (optional_list (jget sg ''edges'')))))]"

definition named_signature :: "members \<Rightarrow> bool" where
  "named_signature sg \<longleftrightarrow>
     (\<exists>actions edges. jget sg ''actions'' = JList (map JObj actions) \<and> jget sg ''edges'' = JList (map JObj edges)
        \<and> (\<forall>a\<in>set actions. is_string (jget a ''id''))
        \<and> (\<forall>e\<in>set edges. is_string (jget e ''before'') \<and> is_string (jget e ''after'')))"


text \<open>The signature of a graph whose only edges are the program order of its actions.\<close>

definition chain_signature :: "members list \<Rightarrow> members res" where
  "chain_signature actions = bind (order_edges actions) (\<lambda>es.
     Ok [(''format'', JStr signature_format), (''actions'', JList (map JObj actions)), (''edges'', JList es)])"

definition named_action :: "members \<Rightarrow> bool" where
  "named_action a \<longleftrightarrow> jitem a ''id'' = Inr (JStr (identity_of a))"

lemma named_jget: "named_action a \<Longrightarrow> jget a ''id'' = JStr (identity_of a)"
  by (auto simp: named_action_def jitem_def jget_def split: option.split_asm)

lemma update_fresh: "k \<notin> fst ` set ls \<Longrightarrow> AList.update k v ls = ls @ [(k, v)]"
  by (induction ls) auto

lemma chain_labels:
  assumes "\<forall>a\<in>set actions. named_action a" "distinct (map identity_of actions)"
  shows "signature_labels actions = map (\<lambda>a. (identity_of a, label_of a)) actions"
  using assms unfolding signature_labels_def
proof (induction actions rule: rev_induct)
  case (snoc a actions)
  then show ?case by (auto simp: named_jget intro!: update_fresh)
qed simp

lemma zip_tl_members: "(a, b) \<in> set (zip xs (tl xs)) \<Longrightarrow> a \<in> set xs \<and> b \<in> set xs"
  by (cases xs) (auto dest: set_zip_leftD set_zip_rightD)

lemma chain_edges:
  assumes "\<forall>a\<in>set actions. named_action a"
  shows "order_edges actions = Inr (map (\<lambda>(a, b). JObj [(''kind'', JStr ''program_order''),
    (''before'', JStr (identity_of a)), (''after'', JStr (identity_of b))]) (zip actions (tl actions)))"
  unfolding order_edges_def
proof (rule mapM_all_Ok)
  fix x assume "x \<in> set (zip actions (tl actions))"
  with assms show "(\<lambda>(left, right). bind (jitem left ''id'') (\<lambda>a. bind (jitem right ''id'') (\<lambda>b.
       Ok (JObj [(''kind'', JStr ''program_order''), (''before'', a), (''after'', b)])))) x
     = Inr ((\<lambda>(a, b). JObj [(''kind'', JStr ''program_order''), (''before'', JStr (identity_of a)),
         (''after'', JStr (identity_of b))]) x)"
    by (cases x) (auto simp: named_action_def dest: zip_tl_members)
qed

lemma chain_normal_form:
  assumes "\<forall>a\<in>set actions. named_action a" "distinct (map identity_of actions)"
  shows "bind (chain_signature actions) signature_normal_form = Inr (canonical_json (JObj
    [(''actions'', JList (map JStr (sort (map label_of actions)))),
     (''edges'', JList (map label_edge_payload (sort (map (\<lambda>(a, b). (''program_order'', Some (label_of a), Some (label_of b)))
        (zip actions (tl actions))))))]))"
proof -
  let ?ls = "map (\<lambda>a. (identity_of a, label_of a)) actions"
  have look: "map_of ?ls (identity_of a) = Some (label_of a)" if "a \<in> set actions" for a
    using that assms(2) by (intro map_of_is_SomeI) (auto simp: o_def)
  define es where "es = map (\<lambda>(a, b). [(''kind'', JStr ''program_order''),
      (''before'', JStr (identity_of a)), (''after'', JStr (identity_of b))]) (zip actions (tl actions))"
  define ps where "ps = map (\<lambda>(a, b). (''program_order'', Some (label_of a), Some (label_of b))) (zip actions (tl actions))"
  have es: "map (label_edge ?ls) es = ps"
    by (auto simp: es_def ps_def label_edge_def jget_def look dest: zip_tl_members)
  have "order_edges actions = Inr (map JObj es)"
    unfolding chain_edges[OF assms(1)] by (auto simp: es_def)
  then obtain sg where sg: "chain_signature actions = Inr sg" "jget sg ''format'' = JStr signature_format"
    "jget sg ''actions'' = JList (map JObj actions)" "jget sg ''edges'' = JList (map JObj es)"
    by (simp add: chain_signature_def jget_def)
  have cmp: "sort_edges ps = Inr (sort ps)"
    by (auto simp: sort_edges_def comparable_def ps_def)
  have snd: "map snd ?ls = map label_of actions" by simp
  show ?thesis
    unfolding sg bind.simps signature_normal_form_def json.case prod.case objects_map chain_labels[OF assms] Let_def es cmp
      length_map snd ps_def[symmetric] by simp
qed

lemma chain_equivalent:
  assumes "\<forall>a\<in>set xs. named_action a" "distinct (map identity_of xs)"
    "\<forall>a\<in>set ys. named_action a" "distinct (map identity_of ys)"
    "mset (map label_of xs) = mset (map label_of ys)"
    "mset (map (map_prod label_of label_of) (zip xs (tl xs))) = mset (map (map_prod label_of label_of) (zip ys (tl ys)))"
  shows "bind (chain_signature xs) (\<lambda>l. bind (chain_signature ys) (signatures_equivalent l)) = Inr True"
proof -
  have "sort (map label_of xs) = sort (map label_of ys)"
    using assms(5) by (intro properties_for_sort) simp_all
  moreover have edges: "map (\<lambda>(a, b). (''program_order'', Some (label_of a), Some (label_of b))) ps
      = map (\<lambda>(l, k). (''program_order'', Some l, Some k)) (map (map_prod label_of label_of) ps)" for ps
    by auto
  have "sort (map (\<lambda>(a, b). (''program_order'', Some (label_of a), Some (label_of b))) (zip xs (tl xs)))
      = sort (map (\<lambda>(a, b). (''program_order'', Some (label_of a), Some (label_of b))) (zip ys (tl ys)))"
    unfolding edges using assms(6) by (intro properties_for_sort) (simp_all only: mset_map mset_sort sorted_sort)
  ultimately have "bind (chain_signature xs) signature_normal_form = bind (chain_signature ys) signature_normal_form"
    "is_ok (bind (chain_signature xs) signature_normal_form)"
    unfolding chain_normal_form[OF assms(1,2)] chain_normal_form[OF assms(3,4)] by simp_all
  then show ?thesis
    by (auto simp: is_ok_iff bind_eq_Ok signatures_equivalent_def)
qed

end
