(* ===== verification/Sample_Plans.thy ===== *)
theory Sample_Plans
  imports Plan_Accept Action_Properties
begin

text \<open>
  Small documents at which the properties of plans, jump tables, atomic authority and memory-action
  graphs are exhibited. The digest of every text is the same string here, so that no canonical text
  has to be computed; the properties hold for every digest function.
\<close>

section \<open>A plan with one looping transfer\<close>

text \<open>The transfer compares \<open>eax\<close> with five, sets it to five, and branches to itself or to 0x2000.\<close>

definition digest_text :: string where
  "digest_text = replicate 64 (CHR ''a'')"

abbreviation fixed_digest :: "string \<Rightarrow> string" where
  "fixed_digest \<equiv> \<lambda>s. digest_text"

definition branch_transfer :: transfer where
  "branch_transfer =
     \<lparr>identity = ''unit'', contract_sha256 = digest_text, instruction_bytes_sha256 = digest_text, rva_start = 0x1000,
      nodes = [mk_node (Word Op_reg) [] 0 0, mk_node (Word Op_const) [] 0 5, mk_node (Pred Op_ult32) [0, 1] 0 0],
      x87_nodes = [], actions = [mk_action (Eff Op_eval_word) [2] 0, mk_action (Eff Op_set_reg) [1] 0,
        mk_action (Term Op_outcome_branch) [2, 0x1000, 0x2000] 0],
      calls = [], x87_operations = [], exception_occurrences = []\<rparr>"

definition branch_source :: members where
  "branch_source = [(''rva_start'', JInt 0x1000), (''rva_end'', JInt 0x1010), (''unit_ir_sha256'', JStr digest_text),
     (''contract_sha256'', JStr digest_text), (''instruction_bytes_sha256'', JStr digest_text)]"

definition branch_row :: members where
  "branch_row = (case transfer_payload branch_transfer branch_source of Inr row \<Rightarrow> row | Inl _ \<Rightarrow> [])"

definition branch_report :: json where
  "branch_report = (case definedness_payload fixed_digest [branch_transfer] of Inr r \<Rightarrow> r | Inl _ \<Rightarrow> JNull)"

definition branch_providers :: "string list" where
  "branch_providers = (case runtime_providers [branch_transfer] of Inr ps \<Rightarrow> ps | Inl _ \<Rightarrow> [])"

definition branch_plan :: members where
  "branch_plan =
     [(''format'', JStr ''spaghetti-extractor-executable-transfer-plan-v2''), (''status'', JStr ''complete''),
      (''bindings'', JObj (map (\<lambda>k. (k, JStr digest_text)) [''pe_sha256'', ''unit_inventory_sha256'', ''exact_universe_sha256'',
         ''finite_control_routes_sha256'', ''atomic_effect_authority_sha256''])),
      (''unit_inventory'', JList [JObj ((''unit_id'', JStr ''unit'') # branch_source)]), (''transfers'', JList [JObj branch_row]),
      (''direct_control_edges'', JList (map edge_payload (direct_edges [branch_transfer]))),
      (''finite_control_routes'', JList []), (''atomic_effect_authority'', JList []), (''entry_targets'', JList [JInt 0x1000]),
      (''runtime_provider_requirements'', JList (map JStr branch_providers)), (''operation_registry_sha256'', JStr digest_text),
      (''diagnostics'', JObj [(''definedness'', JNull), (''transfer_definedness'', branch_report)]),
      (''semantic_blockers'', JList []), (''counts'', plan_counts 1 [branch_transfer] (length branch_providers) 0 0 0 (JInt 0)),
      (''authority'', JStr ''exact_machine_semantics_only''), (''plan_sha256'', JStr digest_text)]"

lemma branch_row_read: "transfer_from_payload sha branch_row = Inr branch_transfer"
  by code_simp

lemma branch_lowered: "lowered branch_transfer"
  by code_simp

lemma fixed_json_digest [simp]: "json_digest fixed_digest v = digest_text"
  by (simp add: json_digest_def)

lemma branch_report_made:
  "definedness_payload fixed_digest [branch_transfer] = Inr branch_report"
proof -
  have "is_ok (analyze_transfer_definedness_v2 [branch_transfer])" by code_simp
  then have "is_ok (definedness_payload fixed_digest [branch_transfer])"
    by (auto simp: definedness_payload_def Let_def is_ok_iff)
  then show ?thesis by (auto simp: branch_report_def is_ok_iff)
qed
lemma branch_undefined: "map_sum id undefined_nodes (analyze_transfer_definedness_v2 [branch_transfer]) = Inr 0" by code_simp
lemma branch_providers_found: "runtime_providers [branch_transfer] = Inr branch_providers"
proof -
  have "is_ok (runtime_providers [branch_transfer])" by code_simp
  then show ?thesis by (auto simp: branch_providers_def is_ok_iff)
qed

lemma digest_accepted: "sha256_field (JStr digest_text) = Inr digest_text" by code_simp
lemma branch_get:
  "jget branch_plan ''format'' = JStr ''spaghetti-extractor-executable-transfer-plan-v2''"
  "jget branch_plan ''status'' = JStr ''complete''"
  "jget branch_plan ''plan_sha256'' = JStr digest_text"
  "jget branch_plan ''semantic_blockers'' = JList []"
  "jget branch_plan ''transfers'' = JList [JObj branch_row]"
  "jget branch_plan ''diagnostics'' = JObj [(''definedness'', JNull), (''transfer_definedness'', branch_report)]"
  "jget branch_plan ''finite_control_routes'' = JList []" "jget branch_plan ''atomic_effect_authority'' = JList []"
  "jget branch_plan ''unit_inventory'' = JList [JObj ((''unit_id'', JStr ''unit'') # branch_source)]"
  "jget branch_plan ''entry_targets'' = JList [JInt 0x1000]"
  "jget branch_plan ''counts'' = plan_counts 1 [branch_transfer] (length branch_providers) 0 0 0 (JInt 0)"
  "jget branch_plan ''direct_control_edges'' = JList (map edge_payload (direct_edges [branch_transfer]))"
  "jget branch_plan ''runtime_provider_requirements'' = JList (map JStr branch_providers)"
  "jget branch_plan ''operation_registry_sha256'' = JStr digest_text"
  "jget branch_plan ''bindings'' = JObj (map (\<lambda>k. (k, JStr digest_text)) [''pe_sha256'', ''unit_inventory_sha256'', ''exact_universe_sha256'',
         ''finite_control_routes_sha256'', ''atomic_effect_authority_sha256''])"
  by (simp_all add: branch_plan_def jget_def)

lemma branch_header: "check_plan_header fixed_digest branch_plan True = Inr []"
proof -
  have "has_fields branch_plan plan_fields" by (simp add: branch_plan_def has_fields_def plan_fields_def insert_commute)
  then show ?thesis by (simp add: check_plan_header_def branch_get)
qed
lemma branch_diagnostics: "check_diagnostics fixed_digest branch_plan [branch_transfer] = Inr [(''definedness'', JNull), (''transfer_definedness'', branch_report)]"
  by (simp add: check_diagnostics_def branch_get has_fields_def branch_report_made jget_Cons)

lemma branch_report_count:
  "bind (bind (Inr branch_report) (\<lambda>r. item_of r ''counts'')) (\<lambda>c. item_of c ''undefined_nodes'') = Inr (JInt 0)"
proof -
  obtain r where r: "analyze_transfer_definedness_v2 [branch_transfer] = Inr r" "undefined_nodes r = 0"
    using branch_undefined by (cases "analyze_transfer_definedness_v2 [branch_transfer]") auto
  then show ?thesis
    by (simp add: branch_report_def definedness_payload_def Let_def item_of_def jitem_def)
qed

lemma branch_plan_read: "parse_executable_transfer_plan fixed_digest 0 (JObj branch_plan) True = Inr (branch_plan, [branch_transfer])"
proof -
  let ?bindings = "map (\<lambda>k. (k, JStr digest_text)) [''pe_sha256'', ''unit_inventory_sha256'', ''exact_universe_sha256'',
         ''finite_control_routes_sha256'', ''atomic_effect_authority_sha256'']"
  let ?inventory = "[JObj ((''unit_id'', JStr ''unit'') # branch_source)]"
  have routes: "check_routes fixed_digest 0 branch_plan ?bindings ?inventory [branch_transfer] = Inr []"
    by (simp add: check_routes_def branch_get inventory_table_def validate_finite_control_routes_def digest_accepted jget_Cons)
  have atomics: "check_atomics fixed_digest branch_plan ?bindings [branch_transfer] = Inr []"
  proof -
    have "validate_atomic_effect_authority fixed_digest [] (by_identity [branch_transfer]) = Inr ()" by code_simp
    then show ?thesis by (simp add: check_atomics_def branch_get jget_Cons)
  qed
  have inventory: "check_inventory fixed_digest ?bindings ?inventory = Inr ()"
    by (simp add: check_inventory_def exact_universe_def branch_source_def jget_Cons digest_accepted)
  have universe: "check_universe ?inventory [branch_row] [branch_transfer] = Inr ()" by code_simp
  have summary: "check_summary fixed_digest branch_plan [(''definedness'', JNull), (''transfer_definedness'', branch_report)]
      [branch_transfer] 1 0 0 0 = Inr ()"
    using branch_report_count
    by (simp add: check_summary_def branch_get Let_def branch_providers_found jitem_def plan_counts_def) (simp add: branch_transfer_def)
  show ?thesis
    using routes atomics inventory universe summary
    by (simp add: parse_executable_transfer_plan_def branch_header branch_diagnostics branch_get branch_row_read)
qed

definition branch_case :: members where
  "branch_case =
     [(''format'', JStr case_format), (''entry_rva'', JInt 0x1000),
      (''state'', JObj [(''registers'', JObj [(''eax'', JInt 3)])])]"

section \<open>A jump table\<close>

text \<open>An indirect jump through a table of two entries at address 8; both lead to the transfer itself.\<close>

definition jump_transfer :: transfer where
  "jump_transfer =
     \<lparr>identity = ''jump'', contract_sha256 = digest_text, instruction_bytes_sha256 = digest_text, rva_start = 16,
      nodes = [mk_node (Word Op_reg) [] 0 0, mk_node (Word Op_const) [] 0 2, mk_node (Word Op_shl32) [0, 1] 0 0,
        mk_node (Word Op_const) [] 0 8, mk_node (Word Op_add32) [3, 2] 0 0, mk_node (Word Op_load) [4] 4 0],
      x87_nodes = [], actions = [mk_action (Eff Op_eval_word) [5] 0, mk_action (Term Op_outcome_indirect) [5] 0],
      calls = [], x87_operations = [], exception_occurrences = []\<rparr>"

definition jump_row :: members where
  "jump_row =
     [(''unit_id'', JStr ''jump''), (''source_rva'', JInt 16), (''source_unit_ir_sha256'', JStr digest_text),
      (''outcome_expression_sha256'', JStr digest_text), (''index_expression_sha256'', JStr digest_text),
      (''selector_domain_sha256'', JStr digest_text), (''index_provenance'', JObj [(''kind'', JStr ''direct_index'')]),
      (''pe_sha256'', JStr digest_text), (''image_base'', JInt 0), (''image_size'', JInt 64),
      (''table'', JObj [(''address'', JInt 8), (''rva_start'', JInt 8), (''rva_end'', JInt 16), (''entry_width'', JInt 4),
         (''bytes_sha256'', JStr digest_text), (''inventory_sha256'', JStr digest_text)]),
      (''routes'', JList (map (\<lambda>k. JObj
         [(''selector_value'', JInt k), (''entry_address'', JInt (8 + 4 * k)), (''entry_rva'', JInt (8 + 4 * k)),
          (''bytes_le'', JList [JInt 16, JInt 0, JInt 0, JInt 0]), (''target_rva'', JInt 16), (''target_address'', JInt 16)])
         [0, 1])),
      (''route_inventory_sha256'', JStr digest_text)]"

definition jump_inventory :: "(string \<times> members) list" where
  "jump_inventory = [(''jump'', [(''unit_ir_sha256'', JStr digest_text)])]"

lemma jump_row_checked:
  "check_control_row fixed_digest 6 [(''jump'', jump_transfer)] jump_inventory None (JObj jump_row) = Inr (16, ''jump'')"
  by code_simp

definition jump_document :: members where
  "jump_document = (case transfer_payload jump_transfer
     [(''rva_start'', JInt 16), (''rva_end'', JInt 18), (''unit_ir_sha256'', JStr digest_text),
      (''contract_sha256'', JStr digest_text), (''instruction_bytes_sha256'', JStr digest_text)] of Inr row \<Rightarrow> row | Inl _ \<Rightarrow> [])"

lemma jump_wf: "transfer_wf jump_transfer"
proof (rule accepted_transfer_wf)
  show "transfer_from_payload id jump_document = Inr jump_transfer" by code_simp
qed

section \<open>An atomic exchange\<close>

definition exchange_transfer :: transfer where
  "exchange_transfer =
     \<lparr>identity = ''swap'', contract_sha256 = digest_text, instruction_bytes_sha256 = digest_text, rva_start = 16,
      nodes = [mk_node (Word Op_const) [] 0 8, mk_node (Word Op_reg) [] 0 0],
      x87_nodes = [], actions = [mk_action (Eff Op_eval_word) [1] 0, mk_action (Eff Op_atomic_exchange) [0, 1] 4,
        mk_action (Term Op_outcome_return) [1] 0],
      calls = [], x87_operations = [], exception_occurrences = []\<rparr>"

definition exchange_authority :: json where
  "exchange_authority = JObj
     [(''unit_id'', JStr ''swap''), (''effect_index'', JInt 1), (''action_id'', JStr ''a''), (''profile_id'', JStr tso_profile),
      (''instruction_rva'', JInt 16), (''source_memory_event_indices'', JList [JInt 0, JInt 1]),
      (''operation'', JStr ''exchange''), (''width_bytes'', JInt 4), (''authority_sha256'', JStr digest_text)]"

lemma exchange_validated: "validate_atomic_effect_authority fixed_digest [exchange_authority] [(''swap'', exchange_transfer)] = Inr ()"
  by code_simp

section \<open>A locked addition\<close>

text \<open>Two events of the instruction, and before them a byte read of another one.\<close>

definition counter_address :: json where
  "counter_address = JObj [(''op'', JStr ''const''), (''value'', JInt 8), (''width'', JInt 32)]"

definition locked_add :: json where
  "locked_add = JObj [(''mnemonic'', JStr ''lock xadd''), (''operands'', JList [JObj
     [(''kind'', JStr ''memory''), (''width_bits'', JInt 32), (''displacement'', JInt 8)]])]"

definition counter_access :: "string \<Rightarrow> int \<Rightarrow> json" where
  "counter_access k w = JObj [(''kind'', JStr k), (''width'', JInt w), (''address'', counter_address)]"

definition counter_events :: "json list" where
  "counter_events = [counter_access ''read'' 1, counter_access ''read'' 4, counter_access ''write'' 4]"

definition built_state :: "json list \<Rightarrow> build_state" where
  "built_state events =
     (case run_builder fixed_digest [ms. JObj ms \<leftarrow> [sort_keys locked_add]] [ms. JObj ms \<leftarrow> map sort_keys events] [] of
        Inr s \<Rightarrow> s | Inl _ \<Rightarrow> \<lparr>bs_issues = [], bs_claimed = [], bs_placed = []\<rparr>)"

definition built_actions :: "json list \<Rightarrow> members list" where
  "built_actions events = map snd (sort_key fst (bs_placed (built_state events)))"

lemma copy_objects: "mapM copy_mapping (map JObj xs) = Inr [ms. JObj ms \<leftarrow> map sort_keys (map JObj xs)]"
  by (induction xs) (auto simp: copy_mapping_def)

lemma counter_objects:
  "counter_events = map JObj [ms. JObj ms \<leftarrow> counter_events]" "[locked_add] = map JObj [ms. JObj ms \<leftarrow> [locked_add]]"
  by (simp_all add: counter_events_def counter_access_def locked_add_def)

lemma graph_built:
  assumes "evs = map JObj xs" "is_ok (run_builder fixed_digest [ms. JObj ms \<leftarrow> [sort_keys locked_add]] [ms. JObj ms \<leftarrow> map sort_keys evs] [])"
    "bs_issues (built_state evs) = []" "is_ok (order_edges (built_actions evs))"
  obtains g where "build_memory_action_graph fixed_digest [locked_add] evs [] False = Inr g"
    "jget g ''issues'' = JList []" "objects (optional_list (jget g ''actions'')) = built_actions evs"
proof -
  have c: "mapM copy_mapping evs = Inr [ms. JObj ms \<leftarrow> map sort_keys evs]"
    "mapM copy_mapping [locked_add] = Inr [ms. JObj ms \<leftarrow> [sort_keys locked_add]]"
    using copy_objects[of xs] copy_objects[of "[ms. JObj ms \<leftarrow> [locked_add]]"] assms(1) counter_objects(2)
    by (simp_all add: locked_add_def)
  have "run_builder fixed_digest [ms. JObj ms \<leftarrow> [sort_keys locked_add]] [ms. JObj ms \<leftarrow> map sort_keys evs] [] = Inr (built_state evs)"
    using assms(2) by (auto simp: built_state_def is_ok_iff)
  with c assms(3,4) obtain g where g: "build_memory_action_graph fixed_digest [locked_add] evs [] False = Inr g"
    "jget g ''issues'' = JList []" "jget g ''actions'' = JList (map JObj (built_actions evs))"
    by (auto simp: build_memory_action_graph_def built_actions_def is_ok_iff jget_def)
  show ?thesis by (rule that[OF g(1,2)]) (simp only: g(3) optional_list.simps objects_map)
qed

lemma counter_built:
  obtains g where "build_memory_action_graph fixed_digest [locked_add] counter_events [] False = Inr g"
    "jget g ''issues'' = JList []" "objects (optional_list (jget g ''actions'')) = built_actions counter_events"
  by (rule graph_built[OF counter_objects(1)]) (code_simp, code_simp, code_simp, rule that)

lemma addition_built:
  obtains g where "build_memory_action_graph fixed_digest [locked_add] (tl counter_events) [] False = Inr g"
    "jget g ''issues'' = JList []" "objects (optional_list (jget g ''actions'')) = built_actions (tl counter_events)"
proof -
  have "tl counter_events = map JObj (tl [ms. JObj ms \<leftarrow> counter_events])" by (simp add: counter_events_def counter_access_def)
  then show ?thesis by (rule graph_built) (code_simp, code_simp, code_simp, rule that)
qed

section \<open>Actions without an address\<close>

definition sample_action :: "string \<Rightarrow> string \<Rightarrow> members" where
  "sample_action k ident = [(''id'', JStr ident), (''kind'', JStr k)]"

end
