(* ===== verification/Sample_Rows.thy ===== *)
theory Sample_Rows
  imports Compiler_Results Sample_Plans
begin

text \<open>Semantic rows at which the properties of the transfer compiler are exhibited.\<close>

text \<open>
  A unit that reads the word at address 4, may fault in a division, calls the function \<open>fn\<close> of a
  library, and then loads \<open>eax\<close> from the word it has read.
\<close>

definition load_word :: json where
  "load_word = JObj [(''op'', JStr ''load''), (''width'', JInt 4), (''address'', JInt 4)]"

definition call_row_event :: "string \<Rightarrow> json" where
  "call_row_event fn = JObj
     [(''family'', JStr ''external''), (''kind'', JStr ''external_call''), (''dll'', JStr ''k''), (''symbol'', JStr fn),
      (''register_inputs'', JObj (map (\<lambda>r. (r, JBool False)) register_names)),
      (''flag_inputs'', JObj (map (\<lambda>f. (f, JBool False)) flag_names)),
      (''native_exception_operations'', JList [JStr ''divide_if'']),
      (''instruction_rva'', JInt 16), (''return_rva'', JInt 21)]"

definition read_row_event :: json where
  "read_row_event = JObj [(''family'', JStr ''memory''), (''kind'', JStr ''read''), (''width'', JInt 4), (''address'', JInt 4)]"

definition fault_row_event :: json where
  "fault_row_event = JObj [(''family'', JStr ''fault''), (''kind'', JStr ''divide_error''), (''condition'', JBool False)]"

definition call_row :: "string \<Rightarrow> members" where
  "call_row fn =
     [(''id'', JStr ''unit''), (''contract_sha256'', JStr digest_text), (''instruction_bytes_sha256'', JStr digest_text),
      (''original'', JObj [(''rva_start'', JInt 16)]),
      (''ordered_events'', JList [read_row_event, fault_row_event, call_row_event fn]),
      (''memory_events'', JList [read_row_event]), (''faults'', JList [fault_row_event]),
      (''external_events'', JList [call_row_event fn]),
      (''register_writes'', JList [JObj [(''register'', JStr ''eax''), (''value'', load_word)]]),
      (''flag_writes'', JList []), (''outcome'', JObj [(''kind'', JStr ''return''), (''value'', load_word)])]"

definition no_decoder :: "int list \<Rightarrow> int \<Rightarrow> decoded_instruction list" where
  "no_decoder = (\<lambda>bs k. [])"

definition call_transfer :: "string \<Rightarrow> transfer" where
  "call_transfer fn =
     \<lparr>identity = ''unit'', contract_sha256 = digest_text, instruction_bytes_sha256 = digest_text, rva_start = 16,
      nodes = [mk_node (Word Op_const) [] 0 4, mk_node (Word Op_load) [0] 4 0, mk_node (Pred Op_false) [] 0 0],
      x87_nodes = [],
      actions = [mk_action (Eff Op_eval_word) [0] 0, mk_action (Eff Op_eval_word) [1] 0, mk_action (Eff Op_eval_word) [2] 0,
        mk_action (Eff Op_divide_if) [2] 0, mk_action (Eff Op_call) [0] 0, mk_action (Eff Op_set_reg) [1] 0,
        mk_action (Eff Op_sync_eflags) [] 0, mk_action (Term Op_outcome_return) [1] 0],
      calls = [\<lparr>call_kind = ''external_call'', instruction_rva = 16, call_index = 0, target_node = None,
        call_target_rva = 0, return_rva = 21, dll = Some ''k'', symbol = Some fn, ordinal = None,
        register_nodes = replicate 8 2, flag_nodes = replicate 6 2, argument_nodes = [], stack_inputs = [],
        native_exception_operations = [''divide_if'']\<rparr>],
      x87_operations = [],
      exception_occurrences =
        [\<lparr>fault_index = 0, fault_sha256 = digest_text, occurrence_kind = ''effect'', effect_index = 3,
          eo_operation = ''divide_if'', call_id = None, call_event_index = None\<rparr>,
         \<lparr>fault_index = 1, fault_sha256 = digest_text, occurrence_kind = ''call'', effect_index = 4,
          eo_operation = ''divide_if'', call_id = Some 0, call_event_index = Some 0\<rparr>]\<rparr>"

lemma call_row_compiled: "compile_semantic_row fixed_digest no_decoder 3 (call_row fn) = Inr (call_transfer fn)"
  by code_simp

end
