(* ===== verification/Transfer_Coverage.thy ===== *)
theory Transfer_Coverage
  imports Eval_Properties Transfer_Operations
begin

text \<open>
  The coverage contract of \<open>transfer/interpretation.py\<close>: every interpretation of transfers declares
  for every operation of the registry whether it handles or rejects it. The locale states the
  contract; it is interpreted on the declarations of the host evaluator, of the definedness
  analysis and of the Z3 reconstruction. For the host evaluator the declaration is also compared
  with what \<open>eval_node\<close> does.
\<close>

section \<open>The contract\<close>

locale coverage_contract =
  fixes registry handled rejected :: "opname set"
  assumes disjoint: "handled \<inter> rejected = {}"
    and total: "registry \<subseteq> handled \<union> rejected"
    and known: "handled \<union> rejected \<subseteq> registry"
begin

lemma decided: "oper \<in> registry \<Longrightarrow> (oper \<in> handled) \<noteq> (oper \<in> rejected)"
  using disjoint total by blast

lemma unknown_undecided: "oper \<notin> registry \<Longrightarrow> oper \<notin> handled \<and> oper \<notin> rejected"
  using known by blast

end

section \<open>Declarations\<close>

record domain_coverage =
  domain :: string
  handled_expressions :: "opname set"
  rejected_expressions :: "opname set"
  handled_effects :: "opname set"
  rejected_effects :: "opname set"
  handled_terminators :: "opname set"
  rejected_terminators :: "opname set"

definition expression_registry :: "opname set" where
  "expression_registry = set (map fst expression_operations_v2)"

definition effect_registry :: "opname set" where
  "effect_registry = set (map fst effect_operations_v2)"

definition terminator_registry :: "opname set" where
  "terminator_registry = set (map fst terminator_operations_v2)"

definition incomplete :: "'a res" where
  "incomplete = Raise (Plan_error ''transfer_domain_coverage_incomplete'')"

definition validate_category :: "opname set \<Rightarrow> opname set \<Rightarrow> opname set \<Rightarrow> unit res" where
  "validate_category registry handled rejected =
     (if handled \<inter> rejected \<noteq> {} \<or> registry - handled - rejected \<noteq> {} \<or> (handled \<union> rejected) - registry \<noteq> {}
      then incomplete else Ok ())"

text \<open>\<open>__post_init__\<close> of the dataclass: a declaration that is not total cannot be built.\<close>

definition post_init :: "domain_coverage \<Rightarrow> domain_coverage res" where
  "post_init d =
     bind (validate_category expression_registry (handled_expressions d) (rejected_expressions d)) (\<lambda>_.
     bind (validate_category effect_registry (handled_effects d) (rejected_effects d)) (\<lambda>_.
     bind (validate_category terminator_registry (handled_terminators d) (rejected_terminators d)) (\<lambda>_.
     Ok d)))"

datatype operation_category = Expression | Effect | Terminator

primrec handled_of :: "operation_category \<Rightarrow> domain_coverage \<Rightarrow> opname set" where
  "handled_of Expression d = handled_expressions d"
| "handled_of Effect d = handled_effects d"
| "handled_of Terminator d = handled_terminators d"

primrec rejected_of :: "operation_category \<Rightarrow> domain_coverage \<Rightarrow> opname set" where
  "rejected_of Expression d = rejected_expressions d"
| "rejected_of Effect d = rejected_effects d"
| "rejected_of Terminator d = rejected_terminators d"

primrec registry_of :: "operation_category \<Rightarrow> opname set" where
  "registry_of Expression = expression_registry"
| "registry_of Effect = effect_registry"
| "registry_of Terminator = terminator_registry"

datatype coverage_status = Handled | Rejected

definition coverage_status_of :: "domain_coverage \<Rightarrow> operation_category \<Rightarrow> opname \<Rightarrow> coverage_status res" where
  "coverage_status_of d cat oper =
     (if oper \<in> handled_of cat d then Ok Handled
      else if oper \<in> rejected_of cat d then Ok Rejected else incomplete)"

definition total_domain_coverage_v2 ::
  "string \<Rightarrow> opname set \<Rightarrow> opname set \<Rightarrow> opname set \<Rightarrow> domain_coverage res" where
  "total_domain_coverage_v2 name rex ref rte =
     post_init \<lparr>domain = name,
       handled_expressions = expression_registry - rex, rejected_expressions = rex,
       handled_effects = effect_registry - ref, rejected_effects = ref,
       handled_terminators = terminator_registry - rte, rejected_terminators = rte\<rparr>"

text \<open>The matrix lists every operation with its status in every domain, domains in name order.\<close>

record matrix_row =
  row_category :: operation_category
  row_operation :: opname
  row_domains :: "(string \<times> coverage_status) list"

record coverage_matrix =
  domain_ids :: "string list"
  operations :: "matrix_row list"
  domain_count :: nat
  operation_count :: nat
  rejections :: nat

definition registry_names :: "operation_category \<Rightarrow> opname list" where
  "registry_names cat = sort_key op_name (map fst (case cat of
     Expression \<Rightarrow> expression_operations_v2 | Effect \<Rightarrow> effect_operations_v2
   | Terminator \<Rightarrow> terminator_operations_v2))"

definition matrix_row_of :: "domain_coverage list \<Rightarrow> operation_category \<Rightarrow> opname \<Rightarrow> matrix_row res" where
  "matrix_row_of rows cat oper =
     bind (mapM (\<lambda>d. bind (coverage_status_of d cat oper) (\<lambda>s. Ok (domain d, s))) rows) (\<lambda>ds.
       Ok \<lparr>row_category = cat, row_operation = oper, row_domains = ds\<rparr>)"

definition operation_coverage_matrix_v2 :: "domain_coverage list \<Rightarrow> coverage_matrix res" where
  "operation_coverage_matrix_v2 domains =
     (let rows = sort_key domain domains in
      if \<not> distinct (map domain rows) then incomplete
      else bind (mapM (\<lambda>(cat, oper). matrix_row_of rows cat oper)
             (concat (map (\<lambda>cat. map (Pair cat) (registry_names cat)) [Expression, Effect, Terminator]))) (\<lambda>opers.
        Ok \<lparr>domain_ids = map domain rows, operations = opers, domain_count = length rows,
            operation_count = length opers,
            rejections = sum_list (map (\<lambda>r. length (filter (\<lambda>p. snd p = Rejected) (row_domains r))) opers)\<rparr>))"

section \<open>The declared domains\<close>

definition concrete_rejected_expressions_v2 :: "opname set" where
  "concrete_rejected_expressions_v2 =
     {Word Op_fpu_control, Word Op_fpu_status, Word Op_fpu_tag, Pred Op_fpu_pending_exception,
      Word Op_fpu_last_opcode, Word Op_fpu_instruction_pointer, Word Op_fpu_code_selector,
      Word Op_fpu_data_pointer, Word Op_fpu_data_selector}"

definition concrete_operation_coverage_v2 :: "domain_coverage res" where
  "concrete_operation_coverage_v2 =
     total_domain_coverage_v2 ''concrete_evaluator'' concrete_rejected_expressions_v2 {Eff Op_typed_x87} {}"

definition definedness_operation_coverage_v2 :: "domain_coverage res" where
  "definedness_operation_coverage_v2 = total_domain_coverage_v2 ''definedness'' {} {} {}"

definition z3_rejected_expressions_v2 :: "opname set" where
  "z3_rejected_expressions_v2 =
     {Word Op_sar, Word Op_sign_extend, Word Op_msb, Pred Op_parity, Pred Op_add_overflow,
      Pred Op_sub_overflow, Word Op_imul_high32, Word Op_mul_high32, Pred Op_imul_overflow,
      Pred Op_mul_carry, Word Op_udiv_quot32, Word Op_udiv_rem32, Pred Op_udiv_valid32,
      Word Op_bsr_index, Word Op_tzcnt, Pred Op_sbb_borrow, Pred Op_sbb_overflow,
      Pred Op_adc_carry, Pred Op_adc_overflow, Pred Op_shift_cf, Pred Op_shift_of,
      Word Op_fpu_control, Word Op_fpu_control_init, Word Op_fpu_status, Word Op_fpu_status_init,
      Word Op_fpu_tag, Pred Op_fpu_pending_exception, Word Op_fpu_last_opcode,
      Word Op_fpu_instruction_pointer, Word Op_fpu_code_selector, Word Op_fpu_data_pointer,
      Word Op_fpu_data_selector, Word Op_fpu_control_load, Word Op_fpu_control_word,
      Word Op_fpu_status_word}"

definition z3_operation_coverage_v2 :: "domain_coverage res" where
  "z3_operation_coverage_v2 =
     total_domain_coverage_v2 ''z3_reconstruction'' z3_rejected_expressions_v2 effect_registry terminator_registry"

section \<open>Totality\<close>

lemma validate_category_iff:
  "validate_category reg h r = Inr () \<longleftrightarrow> coverage_contract reg h r"
  by (auto simp: validate_category_def incomplete_def coverage_contract_def)

lemma all_categories: "(\<forall>cat. P cat) \<longleftrightarrow> P Expression \<and> P Effect \<and> P Terminator"
  by (metis operation_category.exhaust)

lemma post_init_iff:
  "post_init d = Inr d' \<longleftrightarrow> d' = d \<and> (\<forall>cat. coverage_contract (registry_of cat) (handled_of cat d) (rejected_of cat d))"
  by (auto simp: post_init_def bind_eq_Ok validate_category_iff all_categories)


lemma total_domain_coverage_iff:
  "is_ok (total_domain_coverage_v2 name rex ref rte) \<longleftrightarrow>
     rex \<subseteq> expression_registry \<and> ref \<subseteq> effect_registry \<and> rte \<subseteq> terminator_registry"
  by (auto simp: total_domain_coverage_v2_def is_ok_iff post_init_iff all_categories coverage_contract_def)

lemma coverage_status_decides:
  assumes "coverage_contract (registry_of cat) (handled_of cat d) (rejected_of cat d)" "oper \<in> registry_of cat"
  shows "coverage_status_of d cat oper = Inr (if oper \<in> rejected_of cat d then Rejected else Handled)"
  using coverage_contract.decided[OF assms] by (auto simp: coverage_status_of_def)

lemma matrix_row_total:
  assumes "\<forall>d\<in>set rows. coverage_contract (registry_of cat) (handled_of cat d) (rejected_of cat d)" "oper \<in> registry_of cat"
  shows "matrix_row_of rows cat oper = Inr \<lparr>row_category = cat, row_operation = oper,
    row_domains = map (\<lambda>d. (domain d, if oper \<in> rejected_of cat d then Rejected else Handled)) rows\<rparr>"
proof -
  have "mapM (\<lambda>d. bind (coverage_status_of d cat oper) (\<lambda>s. Ok (domain d, s))) rows
      = Inr (map (\<lambda>d. (domain d, if oper \<in> rejected_of cat d then Rejected else Handled)) rows)"
    by (rule mapM_all_Ok) (use assms coverage_status_decides in auto)
  then show ?thesis by (simp add: matrix_row_of_def)
qed

lemma registry_names_set: "set (registry_names cat) = registry_of cat"
  by (cases cat) (simp_all add: registry_names_def expression_registry_def effect_registry_def terminator_registry_def)

definition registry_size :: nat where
  "registry_size = length expression_operations_v2 + length effect_operations_v2 + length terminator_operations_v2"

lemma matrix_total:
  assumes ok: "\<forall>d\<in>set domains. post_init d = Inr d" and names: "distinct (map domain domains)"
  shows "\<exists>m. operation_coverage_matrix_v2 domains = Inr m
    \<and> domain_ids m = sort (map domain domains) \<and> operation_count m = registry_size
    \<and> (\<forall>cat. \<forall>oper\<in>registry_of cat. \<forall>d\<in>set domains. \<exists>r\<in>set (operations m). row_category r = cat \<and> row_operation r = oper
        \<and> map_of (row_domains r) (domain d) = Some (if oper \<in> rejected_of cat d then Rejected else Handled))"
proof -
  define rows where "rows = sort_key domain domains"
  have rows: "set rows = set domains" by (simp add: rows_def)
  have dn: "map domain rows = sort (map domain domains)"
    unfolding rows_def
    by (intro sorted_distinct_set_unique) (use names in \<open>simp_all add: distinct_map inj_on_def distinct_sort\<close>)
  have dist: "distinct (map domain rows)" using names by (simp add: dn)
  define keys where "keys = concat (map (\<lambda>cat. map (Pair cat) (registry_names cat)) [Expression, Effect, Terminator])"
  define row where "row p = \<lparr>row_category = fst p, row_operation = snd p,
    row_domains = map (\<lambda>d. (domain d, if snd p \<in> rejected_of (fst p) d then Rejected else Handled)) rows\<rparr>" for p
  have mk: "mapM (\<lambda>(cat, oper). matrix_row_of rows cat oper) keys = Inr (map row keys)"
  proof (rule mapM_all_Ok)
    fix p assume "p \<in> set keys"
    then have "snd p \<in> registry_of (fst p)" by (auto simp: keys_def registry_names_set)
    moreover have "\<forall>d\<in>set rows. coverage_contract (registry_of (fst p)) (handled_of (fst p) d) (rejected_of (fst p) d)"
      using ok by (simp add: rows post_init_iff)
    ultimately show "(case p of (cat, oper) \<Rightarrow> matrix_row_of rows cat oper) = Inr (row p)"
      using matrix_row_total[of rows "fst p" "snd p"] by (simp add: case_prod_beta row_def)
  qed
  define M where "M = \<lparr>domain_ids = map domain rows, operations = map row keys,
      domain_count = length rows, operation_count = length keys,
      rejections = sum_list (map (\<lambda>r. length (filter (\<lambda>p. snd p = Rejected) (row_domains r))) (map row keys))\<rparr>"
  have m: "operation_coverage_matrix_v2 domains = Inr M"
    unfolding M_def operation_coverage_matrix_v2_def Let_def rows_def[symmetric] keys_def[symmetric] mk
    using dist by simp
  have len: "length keys = registry_size"
    by (simp add: keys_def registry_size_def registry_names_def)
  have cover: "\<exists>r\<in>set (map row keys). row_category r = cat \<and> row_operation r = oper
      \<and> map_of (row_domains r) (domain d) = Some (if oper \<in> rejected_of cat d then Rejected else Handled)"
    if "oper \<in> registry_of cat" "d \<in> set domains" for cat oper d
  proof
    show "row (cat, oper) \<in> set (map row keys)"
      using that(1) by (cases cat) (force simp: keys_def registry_names_set)+
    have "map_of (row_domains (row (cat, oper))) (domain d) = Some (if oper \<in> rejected_of cat d then Rejected else Handled)"
      using that(2) dist rows by (intro map_of_is_SomeI) (auto simp: row_def comp_def)
    then show "row_category (row (cat, oper)) = cat \<and> row_operation (row (cat, oper)) = oper
      \<and> map_of (row_domains (row (cat, oper))) (domain d) = Some (if oper \<in> rejected_of cat d then Rejected else Handled)"
      by (simp add: row_def)
  qed
  show ?thesis
  proof (intro exI conjI)
    show "operation_coverage_matrix_v2 domains = Inr M" by (fact m)
    show "domain_ids M = sort (map domain domains)" "operation_count M = registry_size"
      by (simp_all add: M_def dn len)
    have ops: "operations M = map row keys" by (simp add: M_def)
    show "\<forall>cat. \<forall>oper\<in>registry_of cat. \<forall>d\<in>set domains. \<exists>r\<in>set (operations M). row_category r = cat \<and> row_operation r = oper
        \<and> map_of (row_domains r) (domain d) = Some (if oper \<in> rejected_of cat d then Rejected else Handled)"
      unfolding ops by (intro allI ballI) (rule cover)
  qed
qed

section \<open>The evaluator's declaration is true\<close>

lemma registry_arity: "oper \<in> expression_registry \<longleftrightarrow> op_arity oper \<noteq> None"
  unfolding expression_registry_def expression_operations_v2_def op_arity_def
  by (force simp: map_of_eq_None_iff image_iff)

lemma expression_accepted:
  assumes "op_arity (node_op nd) = Some ar" "arity_ok (int (length (node_args nd))) ar"
    "node_op nd = Word Op_load \<longrightarrow> access_width (node_aux nd)"
  shows "\<exists>row. expression_operation_v2 nd = Inr row"
  using assms
  by (auto simp: expression_operation_v2_def expression_operations_v2_def map_of_map_row op_arity_def
      validate_arity_def spec_row_def map_add_def access_width_def
      split: option.splits arity.splits)

lemma rejected_always_faults:
  "node_op n \<in> concrete_rejected_expressions_v2 \<Longrightarrow> eval_node e n vs = Inl Semantic_fault"
  by (auto simp: concrete_rejected_expressions_v2_def eval_node_def)

text \<open>Operands and auxiliary field with which each handled operation evaluates.\<close>

definition sample_values :: "opname \<Rightarrow> int list" where
  "sample_values oper =
     (case op_arity oper of
        Some ar \<Rightarrow> (let k = (case ar of Exact k \<Rightarrow> nat k | Between lo hi \<Rightarrow> nat lo) in
          if oper = Word Op_load then [0]
          else if oper \<in> {Pred Op_shift_cf, Pred Op_shift_of} then replicate k 1
          else take k (32 # replicate k 0))
      | None \<Rightarrow> [])"

definition sample_node :: "opname \<Rightarrow> node" where
  "sample_node oper = mk_node oper (sample_values oper)
     (if oper \<in> {Pred Op_shift_cf, Pred Op_shift_of} then 288 else 1) 0"

definition sample_env :: env where
  "sample_env = \<lparr>env_nodes = [], env_initial = initial_state, env_current = initial_state,
     env_call = initial_state, env_memory = [(0, 7)], env_undefined = []\<rparr>"

lemma sample_accepted: "oper \<in> expression_registry \<Longrightarrow> \<exists>row. expression_operation_v2 (sample_node oper) = Inr row"
proof -
  assume "oper \<in> expression_registry"
  then obtain ar where ar: "op_arity oper = Some ar" using registry_arity by blast
  have "arity_ok (int (length (sample_values oper))) ar"
    using ar by (cases oper) (auto simp: sample_values_def op_arity_def predicates_table_def words_table_def
        Let_def split: if_splits)
  then show ?thesis
    using ar by (intro expression_accepted[of _ ar]) (auto simp: sample_node_def mk_node_def)
qed

lemma sample_predicate_evaluates: "Pred p \<notin> concrete_rejected_expressions_v2 \<Longrightarrow>
    is_ok (eval_node sample_env (sample_node (Pred p)) (sample_values (Pred p)))"
  by (cases p) (simp_all add: eval_node_def sample_node_def sample_values_def mk_node_def op_arity_def
      predicates_table_def words_table_def concrete_rejected_expressions_v2_def
      arg2_def get_flag_def flags_table_def Let_def numeral_eq_Suc shift_flag_def)

lemma sample_word_evaluates: "Word w \<notin> concrete_rejected_expressions_v2 \<Longrightarrow>
    is_ok (eval_node sample_env (sample_node (Word w)) (sample_values (Word w)))"
  by (cases w) (simp_all add: eval_node_def sample_node_def sample_values_def mk_node_def op_arity_def
      predicates_table_def words_table_def concrete_rejected_expressions_v2_def
      arg2_def reg_at_def registers_table_def Let_def numeral_eq_Suc sample_env_def memory_read_def py_shl_def
      py_shr_def sar_word_def sign_extend_def upt_rec u32_def)


theorem declared_truthfully:
  assumes "oper \<in> expression_registry"
  shows "oper \<notin> concrete_rejected_expressions_v2 \<longleftrightarrow>
    (\<exists>n row e vs. node_op n = oper \<and> expression_operation_v2 n = Inr row \<and> length vs = length (node_args n)
       \<and> is_ok (eval_node e n vs))"
proof
  assume r: "oper \<notin> concrete_rejected_expressions_v2"
  have "is_ok (eval_node sample_env (sample_node oper) (sample_values oper))"
    using r registry_arity[of oper] assms sample_predicate_evaluates sample_word_evaluates
    by (cases oper) (auto simp: op_arity_def predicates_table_def words_table_def)
  moreover have "node_op (sample_node oper) = oper" "length (sample_values oper) = length (node_args (sample_node oper))"
    by (simp_all add: sample_node_def mk_node_def)
  ultimately show "\<exists>n row e vs. node_op n = oper \<and> expression_operation_v2 n = Inr row \<and> length vs = length (node_args n)
       \<and> is_ok (eval_node e n vs)"
    using sample_accepted[OF assms] by blast
qed (auto simp: rejected_always_faults)


section \<open>The contract holds of the declarations\<close>

lemma concrete_rejected_known: "concrete_rejected_expressions_v2 \<subseteq> expression_registry"
  by (auto simp: registry_arity concrete_rejected_expressions_v2_def op_arity_def predicates_table_def words_table_def)

lemma z3_rejected_known: "z3_rejected_expressions_v2 \<subseteq> expression_registry"
  by (auto simp: registry_arity z3_rejected_expressions_v2_def op_arity_def predicates_table_def words_table_def)

interpretation concrete_cov: coverage_contract expression_registry
  "expression_registry - concrete_rejected_expressions_v2" concrete_rejected_expressions_v2
  by unfold_locales (use concrete_rejected_known in auto)

interpretation z3_cov: coverage_contract expression_registry
  "expression_registry - z3_rejected_expressions_v2" z3_rejected_expressions_v2
  by unfold_locales (use z3_rejected_known in auto)

lemma declarations_total:
  "is_ok concrete_operation_coverage_v2" "is_ok definedness_operation_coverage_v2" "is_ok z3_operation_coverage_v2"
proof -
  have "Eff Op_typed_x87 \<in> effect_registry" by (simp add: effect_registry_def effect_operations_v2_def effects_table_def)
  then show "is_ok concrete_operation_coverage_v2" "is_ok definedness_operation_coverage_v2" "is_ok z3_operation_coverage_v2"
    using concrete_rejected_known z3_rejected_known
    by (simp_all add: concrete_operation_coverage_v2_def definedness_operation_coverage_v2_def
        z3_operation_coverage_v2_def total_domain_coverage_iff)
qed

text \<open>What Z3 rejects beyond the evaluator: operations for which no counterexample replay exists.\<close>

lemma evaluator_covers_z3: "concrete_rejected_expressions_v2 \<subseteq> z3_rejected_expressions_v2"
  by (auto simp: concrete_rejected_expressions_v2_def z3_rejected_expressions_v2_def)

end
