(* ===== verification/Compiler_Events.thy ===== *)
theory Compiler_Events
  imports Compiler_Results
begin

text \<open>
  What holds of every transfer that \<open>compile\<close> returns, whatever digest function and library names it
  was given: its words are evaluated before they are read, its faults, calls and x87 programs are
  numbered in the order of their effects, the faults are those of the row, and its evaluation ends.
\<close>

lemma compiled_state:
  assumes "compile_semantic_row sha decoder depth row = Inr t"
  shows "\<exists>s a. compiler_ok sha s \<and> outcome_ok s a \<and> cn_next_fault s = int (listed row ''faults'') \<and> nodes t = cn_nodes s
    \<and> actions t = cn_actions s @ [a] \<and> calls t = cn_calls s \<and> x87_operations t = cn_x87 s \<and> x87_nodes t = []"
proof -
  obtain s1 s2 occs a where p: "compiler_ok sha s2" "cn_next_fault s2 = cn_next_fault s1" "outcome_ok s2 a"
    "check_coverage row s1 = Inr ((), s1)" "assemble row (identity t) occs (s2\<lparr>cn_actions := cn_actions s2 @ [a]\<rparr>) = Inr t"
    by (rule compile_parts[OF assms])
  show ?thesis
    using p(1-3) check_coverage_Ok(2)[OF p(4)] assemble_Ok(1-4,6)[OF p(5)] by (intro exI[of _ s2] exI[of _ a]) simp
qed

lemma compiled_in_order:
  assumes "compile_semantic_row sha decoder depth row = Inr t"
  shows "in_order (calls t) (actions t)"
proof -
  obtain s a where "compiler_ok sha s" "outcome_ok s a" "actions t = cn_actions s @ [a]" "calls t = cn_calls s"
    using compiled_state[OF assms] by blast
  then show ?thesis
    by (auto simp: in_order_snoc compiler_ok_def outcome_ok_def words_read_def terminator_good_def
        action_good_def is_ok_iff dest!: terminator_is)
qed

section \<open>Numbering\<close>

lemma compiled_numbers:
  assumes "compile_semantic_row sha decoder depth row = Inr t"
  shows "map act_aux (filter fault_effect (butlast (actions t))) = map int [0..<listed row ''faults'']"
    and "map act_args (filter (\<lambda>a. act_op a = Eff Op_call) (butlast (actions t))) = map (\<lambda>k. [int k]) [0..<length (calls t)]"
    and "map act_args (filter (\<lambda>a. act_op a = Eff Op_typed_x87) (butlast (actions t)))
      = map (\<lambda>k. [int k]) [0..<length (x87_operations t)]"
  using compiled_state[OF assms] by (auto simp: compiler_ok_def numbered_def)

text \<open>The occurrence of the \<open>i\<close>th fault of the row.\<close>

definition fault_occurrence :: "(string \<Rightarrow> string) \<Rightarrow> action list \<Rightarrow> nat \<Rightarrow> json \<Rightarrow> exception_occurrence \<Rightarrow> bool" where
  "fault_occurrence sha acts i fault x \<longleftrightarrow>
     fault_index x = int i \<and> fault_sha256 x = json_digest sha fault \<and> occurrence_kind x = ''effect''
     \<and> (\<exists>j < length acts. effect_index x = int j \<and> fault_effect (acts ! j) \<and> act_aux (acts ! j) = int i
         \<and> eo_operation x = op_name (act_op (acts ! j)))"

lemma effect_occurrence_is:
  assumes "effect_occurrence sha (fault_effects acts) (n, ms) = Inr x"
  shows "fault_occurrence sha acts n (JObj ms) x"
proof -
  obtain i a where e: "last_of (fault_effects acts) (int n) = Some (i, a)"
    and x: "x = \<lparr>fault_index = int n, fault_sha256 = json_digest sha (JObj ms), occurrence_kind = ''effect'',
           effect_index = i, eo_operation = op_name (act_op a), call_id = None, call_event_index = None\<rparr>"
    using assms by (auto simp: effect_occurrence_def split: option.split_asm)
  from e have "(int n, i, a) \<in> set (fault_effects acts)" by (auto simp: last_of_def dest: map_of_SomeD)
  then show ?thesis by (auto simp: fault_effects_elem x fault_occurrence_def)
qed

lemma foldM_prefix:
  assumes "foldM f acc xs = Inr acc'" "\<And>a x a'. x \<in> set xs \<Longrightarrow> f a x = Inr a' \<Longrightarrow> prefix a a'"
  shows "prefix acc acc'"
  using assms
proof (induction xs arbitrary: acc)
  case (Cons x xs)
  obtain mid where "f acc x = Inr mid" "foldM f mid xs = Inr acc'" using Cons.prems(1) by (auto simp: bind_eq_Ok)
  then show ?case using Cons.IH[of mid] Cons.prems(2) by (meson list.set_intros prefix_order.trans)
qed simp

lemma call_occurrences_prefix:
  assumes "call_occurrences sha table sofar p = Inr occs"
  shows "prefix sofar occs"
  using assms
  by (auto simp: call_occurrences_def Let_def call_occurrence_def bind_eq_Ok split: prod.split_asm if_split_asm option.split_asm
      elim!: foldM_prefix)

lemma compiled_fault_occurrences:
  assumes "compile_semantic_row sha decoder depth row = Inr t" "i < listed row ''faults''"
  shows "i < length (exception_occurrences t)
    \<and> fault_occurrence sha (actions t) i (optional_list (jget row ''faults'') ! i) (exception_occurrences t ! i)"
proof -
  obtain s1 s2 occs a where p: "extends s1 s2"
    "exception_occurrences_of sha row (cn_actions s1) (cn_calls s1) = Inr occs"
    "assemble row (identity t) occs (s2\<lparr>cn_actions := cn_actions s2 @ [a]\<rparr>) = Inr t"
    by (rule compile_parts[OF assms(1)])
  obtain raws first table where r: "mapM object_field (optional_list (jget row ''faults'')) = Inr raws"
    "mapM (effect_occurrence sha (fault_effects (cn_actions s1))) (enumerate 0 raws) = Inr first"
    "foldM (call_occurrences sha table) first (enumerate 0 (cn_calls s1)) = Inr occs"
    using p(2) by (auto simp: exception_occurrences_of_def Let_def bind_eq_Ok split: if_split_asm)
  have i: "i < length raws" "optional_list (jget row ''faults'') ! i = JObj (raws ! i)"
    using r(1) assms(2) by (auto simp: mapM_Ok_iff listed_def list_all2_conv_all_nth field_iffs)
  have first: "length first = length raws" "effect_occurrence sha (fault_effects (cn_actions s1)) (i, raws ! i) = Inr (first ! i)"
    using r(2) i(1) by (auto simp: mapM_Ok_iff list_all2_conv_all_nth nth_enumerate_eq)
  have "prefix first occs" by (rule foldM_prefix[OF r(3)]) (rule call_occurrences_prefix)
  then obtain rest where rest: "occs = first @ rest" by (rule prefixE)
  obtain bs where acts: "actions t = cn_actions s1 @ bs" using p(1) assemble_Ok(2)[OF p(3)] by (auto simp: extends_def)
  have "fault_occurrence sha (cn_actions s1) i (JObj (raws ! i)) (first ! i)" by (rule effect_occurrence_is[OF first(2)])
  then have "fault_occurrence sha (actions t) i (JObj (raws ! i)) (first ! i)"
    unfolding acts fault_occurrence_def by (auto simp: nth_append)
  then show ?thesis using i first(1) assemble_Ok(5)[OF p(3)] by (simp add: rest nth_append)
qed

section \<open>Evaluation of compiled transfers\<close>

lemma compiled_wf:
  assumes "compile_semantic_row sha decoder depth row = Inr t"
  shows "transfer_wf t" and "\<forall>nd\<in>set (nodes t). aux_ok nd" and "\<forall>b\<in>set (actions t). effect_bounds b \<and> 0 \<le> act_aux b"
proof -
  obtain s a where s: "compiler_ok sha s" "outcome_ok s a" and t: "nodes t = cn_nodes s" "actions t = cn_actions s @ [a]"
    "calls t = cn_calls s" "x87_operations t = cn_x87 s" "x87_nodes t = []" using compiled_state[OF assms] by blast
  have node: "compiled_node (int k) (nodes t ! k)" if "k < length (nodes t)" for k
    using s(1) that by (simp add: t compiler_ok_def graph_ok_def)
  then have "acyclic_nodes (nodes t)" "\<forall>nd\<in>set (nodes t). registered_node nd"
    by (auto simp: acyclic_nodes_def compiled_node_def node_good_def registered_node_def all_set_conv_all_nth)
  moreover have "\<forall>b\<in>set (butlast (actions t)). effect_wf t b" "terminator_wf t (last (actions t))"
    using s by (auto simp: t compiler_ok_def effect_ok_def outcome_ok_def effect_wf_def terminator_wf_def effect_good_def
        terminator_good_def action_good_def)
  moreover have "call_wf t c" if "compiled_call (int (length (nodes t))) c" for c
    using that unfolding compiled_call_def call_good_def call_wf_def call_node_references_def by (auto split: option.splits)
  ultimately show "transfer_wf t" using s(1) by (simp add: t transfer_wf_def compiler_ok_def)
  show "\<forall>nd\<in>set (nodes t). aux_ok nd" using node by (auto simp: in_set_conv_nth compiled_node_def)
  have "is_terminator (act_op a)" "0 \<le> act_aux a"
    using s(2) by (auto simp: outcome_ok_def terminator_good_def action_good_def is_ok_iff dest!: terminator_is)
  then show "\<forall>b\<in>set (actions t). effect_bounds b \<and> 0 \<le> act_aux b"
    using s(1) by (auto simp: t compiler_ok_def effect_ok_def effect_good_def action_good_def effect_bounds_def)
qed

text \<open>The nodes the compiler copies from a row without the checks the evaluator needs.\<close>

definition evaluable :: "transfer \<Rightarrow> bool" where
  "evaluable t \<longleftrightarrow>
     (\<forall>nd\<in>set (nodes t). node_op nd \<notin> {Pred Op_shift_cf, Pred Op_shift_of}
        \<and> (node_op nd = Word Op_msb \<and> length (node_args nd) = 2 \<longrightarrow> positive_const (nodes t) (hd (node_args nd))))
     \<and> (\<forall>a\<in>set (actions t). act_op a \<in> atomic_ops \<longrightarrow> \<not> positive_const (nodes t) (last (act_args a)))"

lemma compiled_evaluates:
  assumes "compile_semantic_row sha decoder depth row = Inr t" "evaluable t" "handler_total h" "length (nodes t) \<le> limit"
  shows "is_ok (evaluate_transfer limit t s m u h)"
  using assms compiled_wf[OF assms(1)]
  by (intro evaluate_transfer_total) (auto simp: lowered_def evaluable_def node_lowered_def effect_lowered_def effect_bounds_def)

end
