(* ===== verification/Json_Text.thy ===== *)
theory Json_Text
  imports Json_Value
begin

text \<open>
  The canonical text of a document determines the document up to the order of its members: what digests,
  memo keys and comparisons of canonical texts rely on. A text is read from the left; every value ends
  where a delimiter begins.
\<close>

section \<open>Characters and numbers\<close>

lemma hex_char_inject: "n < 16 \<Longrightarrow> m < 16 \<Longrightarrow> hex_char n = hex_char m \<Longrightarrow> n = m"
  by (auto simp: hex_char_def split: if_split_asm dest!: arg_cong[where f = "of_char :: char \<Rightarrow> nat"])

lemma of_char_eqD: "(of_char c :: nat) = of_char d \<Longrightarrow> c = d"
  by simp

lemma hex_pair_inject:
  assumes "hex_char (n div 16) = hex_char (m div 16)" "hex_char (n mod 16) = hex_char (m mod 16)" "n < 256" "m < 256"
  shows "n = m"
proof -
  have "n div 16 = m div 16" "n mod 16 = m mod 16"
    using assms by (auto intro!: hex_char_inject)
  then show ?thesis by (metis div_mult_mod_eq)
qed

lemma of_char_less: "(of_char c :: nat) < 256"
  using nat_of_char_less_256 by simp

text \<open>The characters with a short escape, and what follows the backslash.\<close>

definition short_escapes :: "(nat \<times> char) list" where
  "short_escapes = [(34, char_of (34::nat)), (92, char_of (92::nat)), (10, CHR ''n''), (13, CHR ''r''), (9, CHR ''t''),
     (12, CHR ''f''), (8, CHR ''b'')]"

lemma escape_char_cases:
  obtains (plain) "escape_char c = [c]" "of_char c \<noteq> (34::nat)" "of_char c \<noteq> (92::nat)"
  | (short) k where "escape_char c = [char_of (92::nat), k]" "(of_char c, k) \<in> set short_escapes"
  | (hex) "escape_char c = [char_of (92::nat), CHR ''u'', CHR ''0'', CHR ''0'', hex_char (of_char c div 16), hex_char (of_char c mod 16)]"
proof -
  define n where "n = (of_char c :: nat)"
  consider "n \<in> {34, 92, 10, 13, 9, 12, 8}" | "n \<notin> {34, 92, 10, 13, 9, 12, 8}" "32 \<le> n \<and> n \<le> 126"
    | "n \<notin> {34, 92, 10, 13, 9, 12, 8}" "\<not> (32 \<le> n \<and> n \<le> 126)" by blast
  then show thesis
  proof cases
    case 1
    then show ?thesis by (elim insertE emptyE; intro short) (simp_all add: escape_char_def short_escapes_def flip: n_def)
  next
    case 2
    then show ?thesis by (intro plain) (simp_all add: escape_char_def Let_def flip: n_def)
  next
    case 3
    then have "escape_char c = [char_of (92::nat), CHR ''u'', CHR ''0'', CHR ''0'', hex_char (n div 16), hex_char (n mod 16)]"
      unfolding escape_char_def Let_def n_def[symmetric] by (simp del: of_char_of)
    then show ?thesis by (intro hex) (simp add: n_def)
  qed
qed

lemma short_escapes_inject:
  "(n, k) \<in> set short_escapes \<Longrightarrow> (m, k) \<in> set short_escapes \<Longrightarrow> n = m" "(n, CHR ''u'') \<notin> set short_escapes"
proof -
  have "distinct (map snd short_escapes)" "CHR ''u'' \<notin> set (map snd short_escapes)" by code_simp+
  then show "(n, k) \<in> set short_escapes \<Longrightarrow> (m, k) \<in> set short_escapes \<Longrightarrow> n = m" "(n, CHR ''u'') \<notin> set short_escapes"
    by (auto simp: distinct_map inj_on_def) force+
qed

lemma escape_char_inject:
  assumes "escape_char c @ x = escape_char d @ y"
  shows "c = d \<and> x = y"
proof (cases c rule: escape_char_cases)
  case plain
  with assms show ?thesis by (cases d rule: escape_char_cases) auto
next
  case (short k)
  with assms show ?thesis
    by (cases d rule: escape_char_cases) (auto dest: short_escapes_inject(1) simp: short_escapes_inject(2))
next
  case hex
  with assms show ?thesis
    using hex_pair_inject[of "of_char c" "of_char d"] of_char_less
    by (cases d rule: escape_char_cases) (auto simp: short_escapes_inject(2))
qed

text \<open>No escape begins with the closing quote.\<close>

lemma escape_char_quote: "escape_char c \<noteq> char_of (34::nat) # x"
  by (cases c rule: escape_char_cases) auto

lemma quoted_inject:
  "concat (map escape_char s) @ char_of (34::nat) # x = concat (map escape_char t) @ char_of (34::nat) # y \<Longrightarrow> s = t \<and> x = y"
proof (induction s arbitrary: t)
  case Nil
  show ?case
  proof (cases t)
    case (Cons d t')
    with Nil show ?thesis by (cases d rule: escape_char_cases) auto
  qed (use Nil in simp)
next
  case (Cons c s)
  show ?case
  proof (cases t)
    case Nil
    with Cons.prems show ?thesis by (cases c rule: escape_char_cases) auto
  next
    case (Cons d t')
    with Cons.prems have "escape_char c @ concat (map escape_char s) @ char_of (34::nat) # x
        = escape_char d @ concat (map escape_char t') @ char_of (34::nat) # y" by simp
    from escape_char_inject[OF this] Cons.IH Cons show ?thesis by blast
  qed
qed

lemma quote_text_inject: "quote_text s @ x = quote_text t @ y \<Longrightarrow> s = t \<and> x = y"
  using quoted_inject[of s x t y] by (simp add: quote_text_def)

section \<open>Numbers\<close>

definition is_digit :: "char \<Rightarrow> bool" where
  "is_digit c \<longleftrightarrow> 48 \<le> (of_char c :: nat) \<and> (of_char c :: nat) \<le> 57"

definition digits_value :: "string \<Rightarrow> nat" where
  "digits_value = foldl (\<lambda>v c. 10 * v + (of_char c - 48)) 0"

lemma nat_digits_value: "digits_value (nat_digits n) = n \<and> list_all is_digit (nat_digits n)"
proof (induction n rule: nat_digits.induct)
  case (1 n)
  show ?case
  proof (cases "n < 10")
    case True
    then show ?thesis by (simp add: digits_value_def is_digit_def)
  next
    case False
    with 1 have "digits_value (nat_digits (n div 10)) = n div 10" "list_all is_digit (nat_digits (n div 10))" by simp_all
    with False show ?thesis
      by (subst (1 2) nat_digits.simps) (simp add: digits_value_def is_digit_def)
  qed
qed

lemma nat_digits_inject:
  assumes "nat_digits n @ x = nat_digits m @ y" "x = [] \<or> \<not> is_digit (hd x)" "y = [] \<or> \<not> is_digit (hd y)"
  shows "n = m \<and> x = y"
proof -
  have part: "takeWhile is_digit (nat_digits k @ z) = nat_digits k" if "z = [] \<or> \<not> is_digit (hd z)" for k z
  proof -
    have "\<forall>c\<in>set (nat_digits k). is_digit c" using nat_digits_value[of k] by (simp add: list_all_iff)
    then show ?thesis using that by (cases z) (simp_all add: takeWhile_append2)
  qed
  have "nat_digits n = nat_digits m" using part[OF assms(2)] part[OF assms(3)] assms(1) by metis
  then show ?thesis using assms(1) nat_digits_value by (metis append_same_eq same_append_eq)
qed

section \<open>Documents\<close>

text \<open>What may follow a value: nothing, or a delimiter.\<close>

definition delimited :: "string \<Rightarrow> bool" where
  "delimited x \<longleftrightarrow> x = [] \<or> hd x \<in> {CHR '','', CHR '']'', CHR ''}''}"

lemma delimited_digit: "delimited x \<Longrightarrow> x = [] \<or> \<not> is_digit (hd x)"
  by (auto simp: delimited_def is_digit_def)

lemma delimited_Cons [simp]: "delimited (c # x) \<longleftrightarrow> c \<in> {CHR '','', CHR '']'', CHR ''}''}"
  by (simp add: delimited_def)

lemma quote_char [simp]: "char_of (34::nat) = CHR 0x22"
  by code_simp

definition leads :: "json \<Rightarrow> char \<Rightarrow> bool" where
  "leads v c \<longleftrightarrow> (case v of JNull \<Rightarrow> c = CHR ''n'' | JBool b \<Rightarrow> c = (if b then CHR ''t'' else CHR ''f'')
     | JInt n \<Rightarrow> c = CHR ''-'' \<and> n < 0 \<or> is_digit c \<and> 0 \<le> n | JStr s \<Rightarrow> c = char_of (34::nat)
     | JList xs \<Rightarrow> c = CHR ''['' | JObj ms \<Rightarrow> c = CHR ''{'')"

lemma digits_lead: "\<exists>c x. nat_digits n = c # x \<and> is_digit c"
  using nat_digits_value[of n] by (cases "nat_digits n") (auto simp: nat_digits.simps[of n] split: if_split_asm)

lemma json_text_leads: "\<exists>c x. json_text v = c # x \<and> leads v c"
proof (cases v)
  case (JInt n)
  then show ?thesis using digits_lead[of "nat n"] by (auto simp: leads_def int_text_def)
qed (auto simp: leads_def quote_text_def)

definition prefix_free :: "('a \<Rightarrow> string) \<Rightarrow> 'a \<Rightarrow> bool" where
  "prefix_free f a \<longleftrightarrow> (\<forall>b x y. f a @ x = f b @ y \<longrightarrow> delimited x \<longrightarrow> delimited y \<longrightarrow> a = b \<and> x = y)"

definition items :: "string list \<Rightarrow> string" where
  "items ts = concat (map (\<lambda>t. CHR '','' # t) ts)"

lemma join_items: "join '','' (t # ts) = t @ items ts"
  by (induction ts arbitrary: t) (simp_all add: items_def)

lemma items_inject:
  assumes "items (map f xs) @ e # x = items (map f ys) @ e # y" "\<forall>a\<in>set xs. prefix_free f a" "e \<in> {CHR '']'', CHR ''}''}"
  shows "xs = ys \<and> x = y"
  using assms(1,2)
proof (induction xs arbitrary: ys)
  case Nil
  with assms(3) show ?case by (cases ys) (auto simp: items_def)
next
  case (Cons a xs)
  show ?case
  proof (cases ys)
    case Nil
    with Cons.prems assms(3) show ?thesis by (auto simp: items_def)
  next
    case (Cons b ys')
    have eq: "f a @ items (map f xs) @ e # x = f b @ items (map f ys') @ e # y"
      using Cons.prems(1) Cons by (simp add: items_def)
    have "delimited (items (map f zs) @ e # z)" for zs :: "'a list" and z
      using assms(3) by (cases zs) (auto simp: items_def)
    then have "a = b \<and> items (map f xs) @ e # x = items (map f ys') @ e # y"
      using eq Cons.prems(2) unfolding prefix_free_def by (metis list.set_intros(1))
    then show ?thesis using Cons.IH[of ys'] Cons.prems(2) Cons by simp
  qed
qed

lemma joined_inject:
  assumes "join '','' (map f xs) @ e # x = join '','' (map f ys) @ e # y" "\<forall>a\<in>set xs. prefix_free f a"
    "e \<in> {CHR '']'', CHR ''}''}" "\<And>a. \<exists>c z. f a = c # z \<and> c \<noteq> e"
  shows "xs = ys \<and> x = y"
proof (cases xs)
  case Nil
  then show ?thesis
  proof (cases ys)
    case (Cons b ys')
    then show ?thesis using Nil assms(1) assms(4)[of b] by (auto simp: join_items simp del: join.simps(3))
  qed (use assms(1) in simp)
next
  case (Cons a xs')
  show ?thesis
  proof (cases ys)
    case Nil
    then show ?thesis using Cons assms(1) assms(4)[of a] by (auto simp: join_items simp del: join.simps(3))
  next
    case (Cons b ys')
    have "items (map f xs) @ e # x = items (map f ys) @ e # y"
      using \<open>xs = a # xs'\<close> Cons assms(1) by (simp add: items_def join_items del: join.simps(3))
    from items_inject[OF this assms(2,3)] show ?thesis .
  qed
qed

lemma json_text_not_delimiter: "\<exists>c z. json_text v = c # z \<and> c \<noteq> CHR '']'' \<and> c \<noteq> CHR ''}''"
  using json_text_leads[of v] by (cases v) (auto simp: leads_def is_digit_def split: if_split_asm)

text \<open>Two values that begin alike are of the same kind.\<close>

definition same_kind :: "json \<Rightarrow> json \<Rightarrow> bool" where
  "same_kind v w \<longleftrightarrow>
     (case v of JNull \<Rightarrow> w = JNull | JBool b \<Rightarrow> w = JBool b | JInt n \<Rightarrow> \<exists>m. w = JInt m \<and> (n < 0 \<longleftrightarrow> m < 0)
      | JStr s \<Rightarrow> \<exists>t. w = JStr t | JList xs \<Rightarrow> \<exists>ys. w = JList ys | JObj ms \<Rightarrow> \<exists>ns. w = JObj ns)"

lemma leads_unique: "leads v c \<Longrightarrow> leads w c \<Longrightarrow> same_kind v w"
  by (cases v; cases w) (auto simp: leads_def is_digit_def same_kind_def split: if_split_asm)

lemma text_same_kind:
  assumes "json_text v @ x = json_text w @ y"
  shows "same_kind v w"
proof -
  obtain c x' where v: "json_text v = c # x'" "leads v c" using json_text_leads by blast
  obtain d y' where w: "json_text w = d # y'" "leads w d" using json_text_leads by blast
  have "c = d" using assms by (simp add: v(1) w(1))
  with leads_unique v(2) w(2) show ?thesis by blast
qed

definition member_text :: "string \<times> json \<Rightarrow> string" where
  "member_text kv = quote_text (fst kv) @ '':'' @ json_text (snd kv)"

lemma prefix_freeI:
  "(\<And>b x y. f a @ x = f b @ y \<Longrightarrow> delimited x \<Longrightarrow> delimited y \<Longrightarrow> a = b \<and> x = y) \<Longrightarrow> prefix_free f a"
  by (simp add: prefix_free_def)

lemma prefix_freeD: "prefix_free f a \<Longrightarrow> f a @ x = f b @ y \<Longrightarrow> delimited x \<Longrightarrow> delimited y \<Longrightarrow> a = b \<and> x = y"
  by (simp add: prefix_free_def)

lemma member_prefix_free:
  assumes "prefix_free json_text (snd kv)"
  shows "prefix_free member_text kv"
proof (rule prefix_freeI)
  fix kw x y assume a: "member_text kv @ x = member_text kw @ y" "delimited x" "delimited y"
  then have "quote_text (fst kv) @ '':'' @ json_text (snd kv) @ x = quote_text (fst kw) @ '':'' @ json_text (snd kw) @ y"
    by (simp add: member_text_def)
  from quote_text_inject[OF this] have "fst kv = fst kw" "json_text (snd kv) @ x = json_text (snd kw) @ y" by simp_all
  with prefix_freeD[OF assms _ a(2,3)] show "kv = kw \<and> x = y" by (metis prod.expand)
qed

lemma list_text_prefix_free:
  assumes "\<forall>v\<in>set xs. prefix_free json_text v" "json_text (JList xs) @ x = json_text (JList ys) @ y"
  shows "xs = ys \<and> x = y"
proof (rule joined_inject[where e = "CHR '']''"])
  show "join '','' (map json_text xs) @ CHR '']'' # x = join '','' (map json_text ys) @ CHR '']'' # y"
    using assms(2) by simp
  show "\<exists>c z. json_text a = c # z \<and> c \<noteq> CHR '']''" for a using json_text_not_delimiter[of a] by blast
qed (simp_all add: assms(1))

lemma object_text_prefix_free:
  assumes "\<forall>kv\<in>set ms. prefix_free json_text (snd kv)" "json_text (JObj ms) @ x = json_text (JObj ns) @ y"
  shows "ms = ns \<and> x = y"
proof (rule joined_inject[where e = "CHR ''}''"])
  show "join '','' (map member_text ms) @ CHR ''}'' # x = join '','' (map member_text ns) @ CHR ''}'' # y"
    using assms(2) by (simp add: member_text_def[abs_def])
  show "\<exists>c z. member_text a = c # z \<and> c \<noteq> CHR ''}''" for a by (simp add: member_text_def quote_text_def)
  show "\<forall>kv\<in>set ms. prefix_free member_text kv" using assms(1) member_prefix_free by blast
qed simp

lemma int_text_prefix_free:
  assumes "int_text n @ x = int_text m @ y" "n < 0 \<longleftrightarrow> m < 0" "delimited x" "delimited y"
  shows "n = m \<and> x = y"
proof -
  have "nat_digits (nat (if n < 0 then - n else n)) @ x = nat_digits (nat (if m < 0 then - m else m)) @ y"
    using assms(1,2) by (auto simp: int_text_def split: if_split_asm)
  from nat_digits_inject[OF this delimited_digit[OF assms(3)] delimited_digit[OF assms(4)]] assms(2)
  show ?thesis by (auto split: if_split_asm)
qed

lemma json_text_prefix_free: "prefix_free json_text v"
proof (induction v)
  case JNull
  show ?case
  proof (rule prefix_freeI)
    fix w x y assume a: "json_text (JNull) @ x = json_text w @ y"
    have "w = JNull" using text_same_kind[OF a] by (simp add: same_kind_def)
    then show "JNull = w \<and> x = y" using a by simp
  qed
next
  case (JBool b)
  show ?case
  proof (rule prefix_freeI)
    fix w x y assume a: "json_text (JBool b) @ x = json_text w @ y"
    have "w = JBool b" using text_same_kind[OF a] by (simp add: same_kind_def)
    then show "JBool b = w \<and> x = y" using a by simp
  qed
next
  case (JInt n)
  show ?case
  proof (rule prefix_freeI)
    fix w x y assume a: "json_text (JInt n) @ x = json_text w @ y" "delimited x" "delimited y"
    then obtain m where m: "w = JInt m" "n < 0 \<longleftrightarrow> m < 0" using text_same_kind[OF a(1)] by (auto simp: same_kind_def)
    from int_text_prefix_free[OF _ m(2) a(2,3)] a(1) m(1) show "JInt n = w \<and> x = y" by simp
  qed
next
  case (JStr s)
  show ?case
  proof (rule prefix_freeI)
    fix w x y assume a: "json_text (JStr s) @ x = json_text w @ y"
    then obtain t where "w = JStr t" using text_same_kind[OF a] by (auto simp: same_kind_def)
    with a quote_text_inject[of s x t y] show "JStr s = w \<and> x = y" by simp
  qed
next
  case (JList xs)
  show ?case
  proof (rule prefix_freeI)
    fix w x y assume a: "json_text (JList xs) @ x = json_text w @ y"
    then obtain ys where w: "w = JList ys" using text_same_kind[OF a] by (auto simp: same_kind_def)
    have "\<forall>v\<in>set xs. prefix_free json_text v" using JList by blast
    from list_text_prefix_free[OF this a[unfolded w]] show "JList xs = w \<and> x = y" by (simp add: w)
  qed
next
  case (JObj ms)
  show ?case
  proof (rule prefix_freeI)
    fix w x y assume a: "json_text (JObj ms) @ x = json_text w @ y"
    then obtain ns where w: "w = JObj ns" using text_same_kind[OF a] by (auto simp: same_kind_def)
    have "\<forall>kv\<in>set ms. prefix_free json_text (snd kv)" using JObj by (metis prod.collapse prod_set_simps(2) singletonI)
    from object_text_prefix_free[OF this a[unfolded w]] show "JObj ms = w \<and> x = y" by (simp add: w)
  qed
qed

theorem canonical_json_eq_iff: "canonical_json v = canonical_json w \<longleftrightarrow> sort_keys v = sort_keys w"
proof
  assume "canonical_json v = canonical_json w"
  then have "json_text (sort_keys v) @ [] = json_text (sort_keys w) @ []" by (simp add: canonical_json_def)
  from prefix_freeD[OF json_text_prefix_free this] show "sort_keys v = sort_keys w" by (simp add: delimited_def)
qed (simp add: canonical_json_def)

end
