(* ===== verification/Compiler_Denotes.thy ===== *)
theory Compiler_Denotes
  imports Compiler_Graph Json_Text
begin

text \<open>
  The compiler shares nodes between expressions with the same canonical text. Here the value of an
  expression is defined without sharing, and the node that the compiler returns for an expression has
  that value in every environment: equal texts denote equal values, and no step leaves a stale entry
  in the memo table.
\<close>

section \<open>Documents with sorted keys\<close>

definition sorted_members :: "members \<Rightarrow> members" where
  "sorted_members ms = sort_key fst (map (\<lambda>kv. (fst kv, sort_keys (snd kv))) ms)"

lemma sort_keys_object [simp]: "sort_keys (JObj ms) = JObj (sorted_members ms)"
  by (simp add: sorted_members_def)

declare sort_keys.simps(2) [simp del]

lemma map_of_first: "map_of xs k = (case filter (\<lambda>kv. fst kv = k) xs of [] \<Rightarrow> None | kv # _ \<Rightarrow> Some (snd kv))"
  by (induction xs) auto

lemma map_of_sort: "map_of (sort_key fst xs) k = map_of xs k"
  by (simp add: map_of_first sort_key_stable)

lemma jget_sorted [simp]: "jget (sorted_members ms) k = sort_keys (jget ms k)"
  using map_of_map[of sort_keys ms]
  by (simp add: jget_def sorted_members_def map_of_sort case_prod_unfold comp_def split: option.split)

text \<open>The readers of scalar fields, and those of lists.\<close>


lemma scalar_sorted [simp]:
  "string_field (sort_keys v) = string_field v" "nonnegative (sort_keys v) = nonnegative v"
  "u32_wrapping (sort_keys v) = u32_wrapping v" "hash_in (sort_keys v) xs = hash_in v xs"
  "sort_keys v = JNull \<longleftrightarrow> v = JNull" "py_truthy (sort_keys v) = py_truthy v"
  by (cases v; simp add: hash_in_def malformed_def sorted_members_def; metis length_0_conv length_map length_sort)+

lemma width_sorted [simp]:
  "width_field (sort_keys v) = width_field v" "width_bits_field (sort_keys v) = width_bits_field v"
  "x87_slot (sort_keys v) = x87_slot v"
  by (simp_all add: width_field_def width_bits_field_def x87_slot_def)

lemma list_field_sorted: "list_field (sort_keys v) = map_sum id (map sort_keys) (list_field v)"
  by (cases v) (simp_all add: malformed_def)

lemma x87_value_sorted: "x87_value (sort_keys v) = map_sum id f (x87_value v)"
  by (cases v) (simp_all add: x87_value_def malformed_def)

text \<open>A label that is not a list or an object, whose \<open>repr\<close> does not depend on the order of keys.\<close>

fun scalar :: "json \<Rightarrow> bool" where
  "scalar (JList _) = False"
| "scalar (JObj _) = False"
| "scalar _ = True"

lemma py_str_sorted: "scalar v \<Longrightarrow> py_str (sort_keys v) = py_str v"
  by (cases v) (simp_all add: py_str_def)

lemma hash_in_scalar: "hash_in v xs = Inr b \<Longrightarrow> scalar v"
  by (cases v) (simp_all add: hash_in_def)

fun plain_labels :: "json \<Rightarrow> bool" where
  "plain_labels (JList xs) \<longleftrightarrow> list_all plain_labels xs"
| "plain_labels (JObj ms) \<longleftrightarrow> list_all (\<lambda>kv. plain_labels (snd kv) \<and> (fst kv \<in> {''id'', ''reason''} \<longrightarrow> scalar (snd kv))) ms"
| "plain_labels _ \<longleftrightarrow> True"

lemma plain_member: "plain_labels (JObj ms) \<Longrightarrow> plain_labels (jget ms k)"
  by (auto simp: jget_def list_all_iff split: option.split dest!: map_of_SomeD)

lemma plain_label: "plain_labels (JObj ms) \<Longrightarrow> k \<in> {''id'', ''reason''} \<Longrightarrow> scalar (jget ms k)"
  by (force simp: jget_def list_all_iff split: option.split dest!: map_of_SomeD)

text \<open>The nesting of a document.\<close>

fun json_height :: "json \<Rightarrow> nat" where
  "json_height (JList xs) = Suc (Max (set (0 # map json_height xs)))"
| "json_height (JObj ms) = Suc (Max (set (0 # map (\<lambda>kv. json_height (snd kv)) ms)))"
| "json_height _ = 0"

lemma height_member: "json_height (jget ms k) < json_height (JObj ms)"
  by (force simp: jget_def less_Suc_eq_le split: option.split dest!: map_of_SomeD intro!: Max_ge)

lemma height_element: "x \<in> set xs \<Longrightarrow> json_height x < json_height (JList xs)"
  by (auto simp: less_Suc_eq_le intro!: Max_ge)

section \<open>The shape of a node under sorting\<close>

abbreviation sorted_shape :: "shape res \<Rightarrow> shape res" where
  "sorted_shape \<equiv> map_sum id (map_prod id (map sort_keys))"

lemma map_bind [simp]: "map_sum id f (bind m g) = bind m (\<lambda>x. map_sum id f (g x))"
  by (cases m) simp_all

lemma map_malformed [simp]: "map_sum id f malformed = malformed"
  by (simp add: malformed_def)

lemma bind_map [simp]: "bind (map_sum id h m) g = bind m (\<lambda>x. g (h x))"
  by (cases m) simp_all

lemma bind_eqI: "(\<And>x. m = Inr x \<Longrightarrow> f x = g x) \<Longrightarrow> bind m f = bind m g"
  by (cases m) simp_all

lemma shift_shape_sorted: "shift_shape op (sorted_members ms) = sorted_shape (shift_shape op ms)"
  unfolding shift_shape_def
  by (auto simp: list_field_sorted Let_def drop_map nth_map if_distrib[of sorted_shape] py_str_sorted[OF hash_in_scalar]
      intro!: bind_eqI)

lemma call_value_shape_sorted: "call_value_shape av op (sorted_members ms) = sorted_shape (call_value_shape av op ms)"
  by (cases "op = ''call_response''") (auto simp: call_value_shape_def intro!: bind_eqI)

lemma x87_word_shape_sorted: "x87_word_shape sample op (sorted_members ms) = sorted_shape (x87_word_shape sample op ms)"
  unfolding x87_word_shape_def jget_sorted map_bind list_field_sorted bind_map
proof (rule bind_eqI)
  fix args :: "json list"
  consider "args = []" | a where "args = [a]" | a b where "args = [a, b]" | "2 < length args"
    by (cases args; cases "tl args"; cases "tl (tl args)") auto
  then show "(if op \<in> set fpu_zero_inputs \<and> map sort_keys args = [] then Ok (mk_node (op_of_name op) [] 0 sample, [])
       else if op = ''fpu_tag'' \<and> length (map sort_keys args) = 1
       then bind (x87_slot (map sort_keys args ! 0)) (\<lambda>slot. Ok (mk_node (op_of_name op) [] slot sample, []))
       else if op \<in> {''fpu_control_load'', ''fpu_control_word'', ''fpu_status_word''} \<and> length (map sort_keys args) = 1
       then Ok (mk_node (op_of_name op) [] 0 0, map sort_keys args)
       else if op \<in> {''fpu_bits_lo32'', ''fpu_bits_hi32'', ''fpu_fxam''} \<and> length (map sort_keys args) = 1
       then x87_value (map sort_keys args ! 0)
       else if op \<in> {''fpu_cmp_cf'', ''fpu_cmp_pf'', ''fpu_cmp_zf''} \<and> length (map sort_keys args) = 2
       then x87_value (map sort_keys args ! 0)
       else if op = ''fpu_int32'' \<and> length (map sort_keys args) = 2 then x87_value (map sort_keys args ! 0)
       else malformed) = sorted_shape
      (if op \<in> set fpu_zero_inputs \<and> args = [] then Ok (mk_node (op_of_name op) [] 0 sample, [])
       else if op = ''fpu_tag'' \<and> length args = 1
       then bind (x87_slot (args ! 0)) (\<lambda>slot. Ok (mk_node (op_of_name op) [] slot sample, []))
       else if op \<in> {''fpu_control_load'', ''fpu_control_word'', ''fpu_status_word''} \<and> length args = 1
       then Ok (mk_node (op_of_name op) [] 0 0, args)
       else if op \<in> {''fpu_bits_lo32'', ''fpu_bits_hi32'', ''fpu_fxam''} \<and> length args = 1 then x87_value (args ! 0)
       else if op \<in> {''fpu_cmp_cf'', ''fpu_cmp_pf'', ''fpu_cmp_zf''} \<and> length args = 2 then x87_value (args ! 0)
       else if op = ''fpu_int32'' \<and> length args = 2 then x87_value (args ! 0)
       else malformed)"
    by cases (simp_all add: x87_value_sorted)
qed

lemma undefined_shape_sorted:
  assumes "plain_labels (JObj ms)"
  shows "undefined_shape op (sorted_members ms) = map_prod id (map sort_keys) (undefined_shape op ms)"
proof -
  have "py_str (sort_keys (jget ms k)) = py_str (jget ms k)" if "k \<in> {''id'', ''reason''}" for k
    by (rule py_str_sorted[OF plain_label[OF assms that]])
  then show ?thesis by (simp add: undefined_shape_def undefined_label_def Let_def)
qed

lemma node_shape_sorted:
  assumes "plain_labels (JObj ms)"
  shows "node_shape loc av op (sorted_members ms) = sorted_shape (node_shape loc av op ms)"
  unfolding node_shape_def Let_def if_distrib[of sorted_shape] map_bind jget_sorted scalar_sorted width_sorted
    shift_shape_sorted call_value_shape_sorted x87_word_shape_sorted list_field_sorted bind_map map_malformed
    undefined_shape_sorted[OF assms]
  by (intro if_cong refl bind_eqI) (simp_all split: option.split)

text \<open>Operands are members of the object or elements of its members.\<close>

definition part_of :: "json \<Rightarrow> members \<Rightarrow> bool" where
  "part_of x ms \<longleftrightarrow> (\<exists>k. x = jget ms k \<or> (\<exists>xs. jget ms k = JList xs \<and> x \<in> set xs))"

lemma part_plain: "part_of x ms \<Longrightarrow> plain_labels (JObj ms) \<Longrightarrow> plain_labels x"
  by (auto simp: part_of_def list_all_iff simp del: plain_labels.simps(2) dest: plain_member)
    (metis list_all_iff plain_labels.simps(1) plain_member)

lemma part_height: "part_of x ms \<Longrightarrow> json_height x < json_height (JObj ms)"
  unfolding part_of_def using height_member height_element less_trans by metis

lemma list_field_part: "list_field (jget ms k) = Inr xs \<Longrightarrow> x \<in> set xs \<Longrightarrow> part_of x ms"
  by (cases "jget ms k") (auto simp: part_of_def malformed_def)

lemma call_value_shape_operands: "call_value_shape av op ms = Inr (nd, operands) \<Longrightarrow> operands = []"
  by (auto simp: call_value_shape_def malformed_def bind_eq_Ok split: if_split_asm)

lemma shift_shape_operands:
  "shift_shape op ms = Inr (nd, operands) \<Longrightarrow> \<exists>args. list_field (jget ms ''args'') = Inr args \<and> set operands \<subseteq> set args"
  by (auto simp: shift_shape_def Let_def malformed_def bind_eq_Ok split: if_split_asm dest: in_set_dropD)

lemma x87_word_shape_operands:
  "x87_word_shape sample op ms = Inr (nd, operands) \<Longrightarrow>
   \<exists>args. list_field (jget ms ''args'') = Inr args \<and> set operands \<subseteq> set args"
  unfolding x87_word_shape_def by (elim bind_OkE) (auto simp: malformed_def bind_eq_Ok split: if_split_asm)

lemma node_shape_parts:
  assumes "node_shape loc av op ms = Inr (nd, operands)" "x \<in> set operands"
  shows "part_of x ms"
proof -
  consider "operands = []" | k where "k = ''address''" "operands = [jget ms k]" | k where "k = ''defined_value''" "operands = [jget ms k]"
    | "list_field (jget ms ''args'') = Inr operands" | "call_value_shape av op ms = Inr (nd, operands)"
    | "shift_shape op ms = Inr (nd, operands)" | "x87_word_shape (of_bool loc) op ms = Inr (nd, operands)"
    using assms(1)
    by (auto simp: node_shape_def Let_def undefined_shape_def malformed_def bind_eq_Ok split: if_split_asm option.split_asm)
  then show ?thesis
  proof cases
    case 5
    then show ?thesis using assms(2) call_value_shape_operands by fastforce
  next
    case 6
    then show ?thesis using assms(2) list_field_part shift_shape_operands by blast
  next
    case 7
    then show ?thesis using assms(2) list_field_part x87_word_shape_operands by blast
  qed (use assms(2) list_field_part in \<open>auto simp: part_of_def\<close>)
qed

section \<open>The value of an expression\<close>

text \<open>
  An expression is evaluated in the environment \<open>e\<close> of the evaluator, without a graph: \<open>loc\<close> selects
  whether registers are sampled at the instruction or at entry, \<open>av\<close> holds the calls that have returned.
\<close>

primrec expression_value :: "nat \<Rightarrow> bool \<Rightarrow> int list \<Rightarrow> env \<Rightarrow> json \<Rightarrow> int res" where
  "expression_value 0 loc av e raw = Raise Recursion_error"
| "expression_value (Suc depth) loc av e raw =
     bind (word_expression raw) (\<lambda>ms.
     bind (string_field (jget ms ''op'')) (\<lambda>op.
     bind (node_shape loc av op ms) (\<lambda>(nd, operands).
     bind (mapM (expression_value depth loc av e) operands) (\<lambda>vs.
     bind (eval_node e nd vs) (\<lambda>v. Ok (u32 v))))))"

lemma literal_sorted:
  "sorted_members [(''op'', JStr op)] = [(''op'', JStr op)]"
  "sorted_members [(''op'', JStr ''const''), (''value'', JInt n), (''width'', JInt 32)]
    = [(''op'', JStr ''const''), (''value'', JInt n), (''width'', JInt 32)]"
  by (simp_all add: sorted_members_def insort_key.simps)

lemma word_expression_sorted: "word_expression (sort_keys raw) = map_sum id sorted_members (word_expression raw)"
  by (cases raw) (simp_all add: word_expression_def literal_sorted malformed_def)

lemma word_expression_plain: "word_expression raw = Inr ms \<Longrightarrow> plain_labels raw \<Longrightarrow> plain_labels (JObj ms)"
  by (cases raw) (auto simp: word_expression_def malformed_def)

lemma mapM_map: "mapM f (map g xs) = mapM (f \<circ> g) xs"
  by (induction xs) simp_all

lemma expression_value_sorted:
  "plain_labels raw \<Longrightarrow> expression_value depth loc av e (sort_keys raw) = expression_value depth loc av e raw"
proof (induction depth arbitrary: raw)
  case (Suc depth)
  have "bind (node_shape loc av op (sorted_members ms)) f = bind (node_shape loc av op ms) f"
    if ms: "word_expression raw = Inr ms" and f: "f = (\<lambda>(nd, operands).
      bind (mapM (expression_value depth loc av e) operands) (\<lambda>vs. bind (eval_node e nd vs) (\<lambda>v. Ok (u32 v))))" for ms op f
  proof -
    note pl = word_expression_plain[OF ms Suc.prems]
    have "mapM (expression_value depth loc av e) (map sort_keys operands) = mapM (expression_value depth loc av e) operands"
      if "node_shape loc av op ms = Inr (nd, operands)" for nd operands
      using Suc.IH part_plain[OF node_shape_parts[OF that] pl] by (simp add: mapM_map cong: mapM_cong)
    then show ?thesis
      by (cases "node_shape loc av op ms") (auto simp: node_shape_sorted[OF pl] f)
  qed
  then show ?case by (auto simp: word_expression_sorted intro!: bind_eqI)
qed simp

section \<open>Nodes that represent expressions\<close>

text \<open>Node \<open>i\<close> is built as the expression says, and its operands represent the subexpressions.\<close>

inductive represents :: "node list \<Rightarrow> bool \<Rightarrow> int list \<Rightarrow> json \<Rightarrow> int \<Rightarrow> bool"
  for ns :: "node list" and loc :: bool and av :: "int list" where
  built: "word_expression raw = Inr ms \<Longrightarrow> string_field (jget ms ''op'') = Inr op \<Longrightarrow>
    node_shape loc av op ms = Inr (nd, operands) \<Longrightarrow> list_all2 (represents ns loc av) operands refs \<Longrightarrow>
    0 \<le> i \<Longrightarrow> i < int (length ns) \<Longrightarrow> ns ! nat i = nd\<lparr>node_args := refs\<rparr> \<Longrightarrow> represents ns loc av raw i"

inductive_cases representsE: "represents ns loc av raw i"

lemma represents_expression:
  assumes "represents ns loc av raw i" "word_expression raw' = word_expression raw"
  shows "represents ns loc av raw' i"
  using assms by (auto elim!: representsE intro: built)

text \<open>Calls only become available.\<close>

lemma call_value_shape_more:
  "call_value_shape av op ms = Inr p \<Longrightarrow> set av \<subseteq> set av' \<Longrightarrow> call_value_shape av' op ms = Inr p"
  by (auto simp: call_value_shape_def malformed_def bind_eq_Ok split: if_split_asm)

lemma node_shape_more:
  assumes "node_shape loc av op ms = Inr p" "set av \<subseteq> set av'"
  shows "node_shape loc av' op ms = Inr p"
proof (cases "op \<in> {''call_response'', ''call_flag''}")
  case True
  have "node_shape loc l op ms = call_value_shape l op ms" for l
    using True by (elim insertE emptyE) (simp_all add: node_shape_def)
  then show ?thesis using call_value_shape_more[OF _ assms(2)] assms(1) by metis
next
  case False
  then have "node_shape loc av' op ms = node_shape loc av op ms" by (simp add: node_shape_def Let_def)
  then show ?thesis using assms(1) by simp
qed

lemma represents_more:
  assumes "represents ns loc av raw i" "set av \<subseteq> set av'"
  shows "represents (ns @ ms) loc av' raw i"
  using assms(1)
proof (induction rule: represents.induct)
  case (built raw exp op nd operands refs i)
  have refs: "list_all2 (represents (ns @ ms) loc av') operands refs"
    using built.IH by (rule list_all2_mono) blast
  have "nat i < length ns" using built.hyps(4,5) by simp
  then show ?case
    using built.hyps(1,2,4-) node_shape_more[OF built.hyps(3) assms(2)] refs
    by (intro represents.built[where ms = exp and operands = operands and refs = refs]) (simp_all add: nth_append)
qed

lemma eval_node_args [simp]: "eval_node e (nd\<lparr>node_args := refs\<rparr>) vs = eval_node e nd vs"
proof -
  have "eval_predicate p e (nd\<lparr>node_args := refs\<rparr>) vs = eval_predicate p e nd vs" for p
    by (cases p) (simp_all add: selected_state_def undefined_value_def)
  moreover have "eval_word_op w e (nd\<lparr>node_args := refs\<rparr>) vs = eval_word_op w e nd vs" for w
    by (cases w) (simp_all add: selected_state_def undefined_value_def)
  ultimately show ?thesis by (simp add: eval_node_def split: opname.split)
qed

lemma mapM_both: "list_all2 (\<lambda>x y. f x = g y) xs ys \<Longrightarrow> mapM f xs = mapM g ys"
  by (induction rule: list_all2_induct) simp_all

lemma operand_height:
  assumes "word_expression raw = Inr ms" "string_field (jget ms ''op'') = Inr op"
    "node_shape loc av op ms = Inr (nd, operands)" "x \<in> set operands"
  shows "json_height x < json_height raw"
proof (cases raw)
  case (JObj members)
  then show ?thesis using assms(1) part_height[OF node_shape_parts[OF assms(3,4)]] by (simp add: word_expression_def)
qed (use assms in \<open>auto simp: word_expression_def node_shape_def jget_def malformed_def bind_eq_Ok split: if_split_asm\<close>)

lemma represents_value:
  assumes "represents (env_nodes e) loc av raw i" "acyclic_nodes (env_nodes e)" "json_height raw < depth"
  shows "expression_value depth loc av e raw = graph_value e i"
  using assms(1,3)
proof (induction arbitrary: depth rule: represents.induct)
  case (built raw ms op nd operands refs i)
  obtain d where d: "depth = Suc d" using built.prems by (cases depth) auto
  have "json_height x < d" if "x \<in> set operands" for x
    using operand_height[OF built.hyps(1-3) that] built.prems d by simp
  then have "list_all2 (\<lambda>x r. expression_value d loc av e x = graph_value e r) operands refs"
    by (intro list.rel_mono_strong[OF built.IH]) blast
  then have "mapM (expression_value d loc av e) operands = mapM (graph_value e) refs" by (rule mapM_both)
  then show ?case
    using built.hyps graph_value_eq[OF assms(2), of i] by (simp add: d)
qed

section \<open>The memo table\<close>

definition node_of :: "cstate \<Rightarrow> json \<Rightarrow> int \<Rightarrow> bool" where
  "node_of s raw i \<longleftrightarrow> represents (cn_nodes s) (cn_local s) (cn_available s) (sort_keys raw) i"

text \<open>The loads an entry depends on are known under its key.\<close>

definition depends :: "cstate \<Rightarrow> json \<Rightarrow> bool" where
  "depends s v \<longleftrightarrow> (\<exists>deps. map_of (cn_deps s) (canonical_json v) = Some deps \<and> set deps = set (memory_dependency_keys v))"

definition memo_represents :: "cstate \<Rightarrow> bool" where
  "memo_represents s \<longleftrightarrow> (\<forall>entry\<in>set (cn_memo s). \<exists>ms. fst entry = canonical_json (JObj ms)
     \<and> node_of s (JObj ms) (snd entry) \<and> depends s (JObj ms))"

text \<open>Nodes are appended, calls become available, and registers are sampled as before.\<close>

definition evolves :: "cstate \<Rightarrow> cstate \<Rightarrow> bool" where
  "evolves s s' \<longleftrightarrow> (\<exists>ns. cn_nodes s' = cn_nodes s @ ns) \<and> cn_local s' = cn_local s
     \<and> set (cn_available s) \<subseteq> set (cn_available s')"

lemma graph_step_evolves: "graph_step s s' \<Longrightarrow> evolves s s'"
  by (auto simp: graph_step_def evolves_def)

lemma evolves_trans [trans]: "evolves s t \<Longrightarrow> evolves t u \<Longrightarrow> evolves s u"
  by (auto simp: evolves_def)

interpretation memo: growing_state memo_represents evolves
  by unfold_locales (auto simp: evolves_def)

lemma node_of_step: "node_of s raw i \<Longrightarrow> evolves s s' \<Longrightarrow> node_of s' raw i"
  using represents_more[of "cn_nodes s" "cn_local s" "cn_available s" "sort_keys raw" i "cn_available s'"]
  by (auto simp: node_of_def evolves_def)

lemma stable_node_of [intro!]: "memo.stable (\<lambda>s. node_of s raw i)"
  by (auto simp: memo.stable_def intro: node_of_step)

lemma memo_entry: "memo_represents s \<Longrightarrow> map_of (cn_memo s) key = Some i \<Longrightarrow>
    \<exists>ms. key = canonical_json (JObj ms) \<and> node_of s (JObj ms) i \<and> depends s (JObj ms)"
  by (force simp: memo_represents_def dest!: map_of_SomeD)

lemma node_of_text:
  assumes "node_of s (JObj ms) i" "canonical_json (JObj ms) = canonical_json (JObj ms')"
  shows "node_of s (JObj ms') i"
  using assms by (simp add: node_of_def canonical_json_eq_iff)

lemma node_of_expression:
  assumes "word_expression raw = Inr ms"
  shows "node_of s raw i \<longleftrightarrow> node_of s (JObj ms) i"
proof -
  have "word_expression (sort_keys raw) = word_expression (sort_keys (JObj ms))"
    using assms by (simp add: word_expression_sorted) (simp add: word_expression_def)
  then show ?thesis unfolding node_of_def by (metis represents_expression)
qed

text \<open>The loads of an expression do not depend on the order of keys.\<close>

lemma sort_keys_idem: "sort_keys (sort_keys v) = sort_keys v"
proof (induction v)
  case (JList xs)
  then show ?case by simp
next
  case (JObj ms)
  have "map (\<lambda>kv. (fst kv, sort_keys (snd kv))) (sorted_members ms) = sorted_members ms"
    using JObj by (intro map_idI) (auto simp: sorted_members_def)
  then show ?case by (simp add: sorted_members_def[of "sorted_members ms"]) (simp add: sorted_members_def sort_key_id_if_sorted)
qed simp_all

lemma set_sorted_members: "set (sorted_members ms) = (\<lambda>kv. (fst kv, sort_keys (snd kv))) ` set ms"
  by (simp add: sorted_members_def)

lemma sorted_text: "canonical_json (JObj (sorted_members ms)) = canonical_json (JObj ms)"
  using sort_keys_idem[of "JObj ms"] by (simp add: canonical_json_eq_iff)

lemma load_sorted: "sort_keys v = JStr s \<longleftrightarrow> v = JStr s"
  by (cases v) simp_all

lemma dependency_keys_sorted: "set (memory_dependency_keys (sort_keys v)) = set (memory_dependency_keys v)"
proof (induction v)
  case (JObj ms)
  then show ?case by (auto simp: load_sorted sorted_text set_sorted_members)
qed simp_all

lemma dependency_keys_text:
  "canonical_json v = canonical_json w \<Longrightarrow> set (memory_dependency_keys v) = set (memory_dependency_keys w)"
  by (metis canonical_json_eq_iff dependency_keys_sorted)

declare memory_dependency_keys.simps(1) [simp del] plain_labels.simps(2) [simp del]

lemma update_entries: "set (AList.update k v al) \<subseteq> insert (k, v) (set al)"
  by (induction al) auto

text \<open>A new node represents the expression it was made from.\<close>

lemma add_node_represents:
  assumes "add_node (canonical_json (JObj ms)) deps (nd\<lparr>node_args := refs\<rparr>) s = Inr (i, s')" "memo_represents s"
    "set deps = set (memory_dependency_keys (JObj ms))"
    "plain_labels (JObj ms)" "string_field (jget ms ''op'') = Inr op"
    "node_shape (cn_local s) (cn_available s) op ms = Inr (nd, operands)" "list_all2 (\<lambda>x r. node_of s x r) operands refs"
  shows "memo_represents s' \<and> evolves s s' \<and> node_of s' (JObj ms) i"
proof -
  have s': "s' = s\<lparr>cn_nodes := cn_nodes s @ [nd\<lparr>node_args := refs\<rparr>], cn_memo := AList.update (canonical_json (JObj ms)) i (cn_memo s),
      cn_deps := AList.update (canonical_json (JObj ms)) deps (cn_deps s)\<rparr>" "i = int (length (cn_nodes s))"
    using assms(1) by (auto simp: add_node_def cbind_Ok)
  have step: "evolves s s'" by (simp add: evolves_def s'(1))
  have "list_all2 (represents (cn_nodes s') (cn_local s) (cn_available s)) (map sort_keys operands) refs"
    using assms(7) node_of_step[OF _ step] s'(1) by (auto simp: node_of_def list_all2_conv_all_nth)
  moreover have "node_shape (cn_local s) (cn_available s) op (sorted_members ms) = Inr (nd, map sort_keys operands)"
    unfolding node_shape_sorted[OF assms(4)] assms(6) by simp
  ultimately have new: "node_of s' (JObj ms) i"
    unfolding node_of_def using assms(5) s'
    by (intro represents.built[where ms = "sorted_members ms" and operands = "map sort_keys operands" and refs = refs and nd = nd])
      (simp_all add: word_expression_def)
  have depends_new: "depends s' (JObj ms)" using assms(3) by (simp add: depends_def s'(1) update_conv')
  have "memo_represents s'"
    unfolding memo_represents_def
  proof
    fix entry assume "entry \<in> set (cn_memo s')"
    then consider "entry \<in> set (cn_memo s)" | "entry = (canonical_json (JObj ms), i)"
      using update_entries[of "canonical_json (JObj ms)" i "cn_memo s"] by (auto simp: s'(1))
    then show "\<exists>ms. fst entry = canonical_json (JObj ms) \<and> node_of s' (JObj ms) (snd entry) \<and> depends s' (JObj ms)"
    proof cases
      case 1
      then obtain ms' where ms': "fst entry = canonical_json (JObj ms')" "node_of s (JObj ms') (snd entry)" "depends s (JObj ms')"
        using assms(2) unfolding memo_represents_def by blast
      have "depends s' (JObj ms')"
      proof (cases "canonical_json (JObj ms') = canonical_json (JObj ms)")
        case True
        then show ?thesis using depends_new dependency_keys_text[OF True] by (simp add: depends_def)
      next
        case False
        then show ?thesis using ms'(3) by (simp add: depends_def s'(1) update_conv')
      qed
      then show ?thesis using ms' node_of_step[OF _ step] by blast
    next
      case 2
      then show ?thesis using new depends_new by auto
    qed
  qed
  then show ?thesis using step new by simp
qed

section \<open>Words and memory reads\<close>

lemma word_index_represents:
  "plain_labels raw \<Longrightarrow> memo.holds (\<lambda>_. True) (word_index depth raw) (\<lambda>i s. node_of s raw i)"
proof (induction depth arbitrary: raw)
  case 0
  show ?case by (rule memo.holdsI) simp
next
  case (Suc depth)
  show ?case
  proof (rule memo.holdsI)
    fix s i s' assume s: "memo_represents s" "word_index (Suc depth) raw s = Inr (i, s')"
    from s(2) show "memo_represents s' \<and> evolves s s' \<and> node_of s' raw i"
    proof (cases rule: word_index_SucE)
      case (known ms)
      then show ?thesis using s(1) memo_entry[OF s(1) known(2)] node_of_text node_of_expression[OF known(1)] by auto
    next
      case (fresh ms op nd operands refs t)
      note pl = word_expression_plain[OF fresh(1) Suc.prems]
      have "memo.holds (\<lambda>_. True) (mapC (word_index depth) operands) (\<lambda>rs s. list_all2 (\<lambda>x r. node_of s x r) operands rs)"
        using part_plain[OF node_shape_parts[OF fresh(4)] pl] by (intro memo.holds_mapC Suc.IH) auto
      note t = memo.holdsD[OF this s(1) TrueI fresh(5)]
      have "node_shape (cn_local t) (cn_available t) op ms = Inr (nd, operands)"
        using node_shape_more[OF fresh(4)] t(2) by (simp add: evolves_def)
      from add_node_represents[OF fresh(7) t(1) refl pl fresh(3) this t(3)] t(2) show ?thesis
        using node_of_expression[OF fresh(1)] by (auto intro: evolves_trans)
    qed
  qed
qed

text \<open>Steps that leave the graph alone.\<close>

lemma depends_other [simp]:
  "depends (s\<lparr>cn_actions := as\<rparr>) v = depends s v" "depends (s\<lparr>cn_scheduled := is\<rparr>) v = depends s v"
  by (simp_all add: depends_def)

lemma memo_represents_other [simp]:
  "memo_represents (s\<lparr>cn_actions := as\<rparr>) = memo_represents s" "memo_represents (s\<lparr>cn_scheduled := is\<rparr>) = memo_represents s"
  "node_of (s\<lparr>cn_actions := as\<rparr>) raw i = node_of s raw i" "node_of (s\<lparr>cn_scheduled := is\<rparr>) raw i = node_of s raw i"
  by (simp_all add: memo_represents_def node_of_def)

lemma emit_memo: "memo.holds (\<lambda>_. True) (emit a) (\<lambda>_ _. True)"
  by (rule memo.holdsI) (auto simp: emit_def evolves_def)

lemma word_represents:
  assumes "plain_labels raw"
  shows "memo.holds (\<lambda>_. True) (word c raw) (\<lambda>i s. node_of s raw i)"
proof (rule memo.holdsI)
  fix s i s' assume s: "memo_represents s" "word c raw s = Inr (i, s')"
  then obtain t where t: "word_index (cp_depth c) raw s = Inr (i, t)" "schedule i t = Inr ((), s')"
    by (auto simp: word_def cbind_Ok)
  note m = memo.holdsD[OF word_index_represents[OF assms] s(1) TrueI t(1)]
  have "\<exists>as is. s' = t\<lparr>cn_actions := as, cn_scheduled := is\<rparr>"
    using t(2) by (auto simp: schedule_def emit_def cbind_Ok split: if_split_asm)
      (metis cstate.surjective cstate.update_convs(2,9))
  then show "memo_represents s' \<and> evolves s s' \<and> node_of s' raw i"
    using m by (auto simp: evolves_def)
qed

text \<open>
  A read makes a new node for its load, whatever was known of the address, and what was computed from
  an earlier read of it is forgotten.
\<close>

lemma map_of_kept: "k \<notin> S \<Longrightarrow> map_of (filter (\<lambda>kv. fst kv \<notin> S) al) k = map_of al k"
  by (induction al) auto

lemma invalidated_memo:
  assumes "invalidate_memory_observation key s = Inr (u, s')" "memo_represents s"
  shows "memo_represents s'" and "evolves s s'" and "cn_nodes s' = cn_nodes s"
    and "key \<in> set (memory_dependency_keys (JObj ms)) \<Longrightarrow> map_of (cn_memo s') (canonical_json (JObj ms)) = None"
proof -
  define stale where "stale = set (map fst (filter (\<lambda>kd. key \<in> set (snd kd)) (cn_deps s)))"
  have s': "s' = s\<lparr>cn_memo := filter (\<lambda>kv. fst kv \<notin> stale) (cn_memo s), cn_deps := filter (\<lambda>kd. fst kd \<notin> stale) (cn_deps s)\<rparr>"
    using assms(1) by (simp add: invalidate_memory_observation_def stale_def Let_def)
  then show "evolves s s'" "cn_nodes s' = cn_nodes s" by (simp_all add: evolves_def)
  show "memo_represents s'"
    unfolding memo_represents_def
  proof
    fix entry assume "entry \<in> set (cn_memo s')"
    then have "entry \<in> set (cn_memo s)" "fst entry \<notin> stale" by (auto simp: s')
    then obtain ms where "fst entry = canonical_json (JObj ms)" "node_of s (JObj ms) (snd entry)" "depends s (JObj ms)"
      using assms(2) unfolding memo_represents_def by blast
    then show "\<exists>ms. fst entry = canonical_json (JObj ms) \<and> node_of s' (JObj ms) (snd entry) \<and> depends s' (JObj ms)"
      using \<open>fst entry \<notin> stale\<close> by (intro exI[of _ ms]) (simp add: s' depends_def map_of_kept node_of_def)
  qed
  show "map_of (cn_memo s') (canonical_json (JObj ms)) = None" if dep: "key \<in> set (memory_dependency_keys (JObj ms))"
  proof (rule ccontr)
    assume "map_of (cn_memo s') (canonical_json (JObj ms)) \<noteq> None"
    then obtain i where i: "(canonical_json (JObj ms), i) \<in> set (cn_memo s)" "canonical_json (JObj ms) \<notin> stale"
      by (auto simp: s' dest!: map_of_SomeD)
    then obtain ms' where ms': "canonical_json (JObj ms) = canonical_json (JObj ms')" "depends s (JObj ms')"
      using assms(2) unfolding memo_represents_def by fastforce
    then obtain deps where "map_of (cn_deps s) (canonical_json (JObj ms)) = Some deps" "key \<in> set deps"
      using dep dependency_keys_text[OF ms'(1)] by (auto simp: depends_def)
    then have "canonical_json (JObj ms) \<in> stale" by (force simp: stale_def dest: map_of_SomeD)
    with i(2) show False by contradiction
  qed
qed

definition load_members :: "json \<Rightarrow> int \<Rightarrow> members" where
  "load_members raw_address w = [(''op'', JStr ''load''), (''width'', JInt w), (''address'', raw_address)]"

lemma load_shape:
  "w \<in> {1, 2, 4} \<Longrightarrow> node_shape loc av ''load'' (load_members raw w) = Inr (mk_node (Word Op_load) [] w 0, [raw])"
  by (auto simp: node_shape_def load_members_def jget_def width_field_def)

lemma load_facts:
  "string_field (jget (load_members raw w) ''op'') = Inr ''load''"
  "memory_dependency_keys (JObj (load_members raw w)) = [canonical_json (JObj (load_members raw w))]"
  "plain_labels (JObj (load_members raw w)) = plain_labels raw"
  by (simp_all add: load_members_def jget_def memory_dependency_keys.simps(1) plain_labels.simps(2))

lemma ordered_read_observes:
  assumes "memo_represents s" "plain_labels raw" "w \<in> {1, 2, 4}" "ordered_memory_read c raw w s = Inr (i, s')"
  defines "key \<equiv> canonical_json (JObj (load_members raw w))"
  shows "memo_represents s'" and "evolves s s'" and "node_of s' (JObj (load_members raw w)) i"
    and "int (length (cn_nodes s)) \<le> i" and "map_of (cn_memo s') key = Some i"
    and "key \<in> set (memory_dependency_keys (JObj ms)) \<Longrightarrow> canonical_json (JObj ms) \<noteq> key \<Longrightarrow>
      map_of (cn_memo s') (canonical_json (JObj ms)) = None"
    and "last (cn_actions s') = mk_action (Eff Op_eval_word) [i] 0"
proof -
  obtain a s1 s2 s3 where r: "word c raw s = Inr (a, s1)" "invalidate_memory_observation key s1 = Inr ((), s2)"
    "add_node key [key] (mk_node (Word Op_load) [a] w 0) s2 = Inr (i, s3)"
    "s' = s3\<lparr>cn_actions := cn_actions s3 @ [mk_action (Eff Op_eval_word) [i] 0], cn_scheduled := i # cn_scheduled s3\<rparr>"
    using assms(4) unfolding key_def load_members_def
    by (auto simp: ordered_memory_read_def Let_def cbind_Ok emit_def simp del: memory_dependency_keys.simps)
  note s1 = memo.holdsD[OF word_represents[OF assms(2)] assms(1) TrueI r(1)]
  note s2 = invalidated_memo[OF r(2) s1(1)]
  have "add_node key [key] ((mk_node (Word Op_load) [] w 0)\<lparr>node_args := [a]\<rparr>) s2 = Inr (i, s3)"
    using r(3) by (simp add: mk_node_def)
  from add_node_represents[OF this[unfolded key_def] s2(1) _ _ load_facts(1) load_shape[OF assms(3)]]
  have s3: "memo_represents s3" "evolves s2 s3" "node_of s3 (JObj (load_members raw w)) i"
    using node_of_step[OF s1(3) s2(2)] assms(2) by (simp_all add: load_facts)
  have i: "i = int (length (cn_nodes s2))" "cn_memo s3 = AList.update key i (cn_memo s2)"
    using r(3) by (auto simp: add_node_def cbind_Ok)
  show "memo_represents s'" "evolves s s'" "node_of s' (JObj (load_members raw w)) i"
    using s3 evolves_trans[OF s1(2) evolves_trans[OF s2(2) s3(2)]] by (simp_all add: r(4)) (simp add: evolves_def)
  show "int (length (cn_nodes s)) \<le> i" using s1(2) by (auto simp: i(1) s2(3) evolves_def)
  show "map_of (cn_memo s') key = Some i" by (simp add: r(4) i(2) update_conv')
  show "map_of (cn_memo s') (canonical_json (JObj ms)) = None"
    if "key \<in> set (memory_dependency_keys (JObj ms))" "canonical_json (JObj ms) \<noteq> key"
    using s2(4)[OF that(1)] that(2) by (simp add: r(4) i(2) update_conv')
  show "last (cn_actions s') = mk_action (Eff Op_eval_word) [i] 0" by (simp add: r(4))
qed

lemma words_represent:
  assumes "\<forall>raw\<in>set raws. plain_labels raw"
  shows "memo.holds (\<lambda>_. True) (mapC (word c) raws) (\<lambda>is s. list_all2 (\<lambda>raw i. node_of s raw i) raws is)"
  using assms word_represents by (intro memo.holds_mapC) auto

lemma words_graph:
  assumes "mapC (word c) raws s = Inr (is, s')" "graph_ok s"
  shows "graph_ok s'"
  using assms
proof (induction raws arbitrary: s "is")
  case (Cons raw raws)
  then obtain i t js where t: "word c raw s = Inr (i, t)" "mapC (word c) raws t = Inr (js, s')" by (auto simp: cbind_Ok)
  obtain u where u: "graph_ok u" "t = (if i \<in> set (cn_scheduled s) then u
      else u\<lparr>cn_actions := cn_actions s @ [mk_action (Eff Op_eval_word) [i] 0], cn_scheduled := i # cn_scheduled s\<rparr>)"
    using word_step[OF t(1) Cons.prems(2)] by blast
  then have "graph_ok t" by (simp add: graph_ok_def split: if_split_asm)
  with Cons.IH[OF t(2)] show ?case .
qed simp

lemma node_of_value:
  assumes "node_of s raw i" "graph_ok s" "env_nodes e = cn_nodes s" "plain_labels raw" "json_height (sort_keys raw) < depth"
  shows "expression_value depth (cn_local s) (cn_available s) e raw = graph_value e i"
proof -
  have "acyclic_nodes (cn_nodes s)"
    using assms(2) by (auto simp: acyclic_nodes_def graph_ok_def compiled_node_def node_good_def)
  then show ?thesis
    using represents_value[of e _ _ "sort_keys raw" i depth] assms by (simp add: node_of_def expression_value_sorted)
qed

lemma height_sorted: "json_height (sort_keys v) = json_height v"
proof (induction v)
  case (JList xs)
  then have "map (\<lambda>x. json_height (sort_keys x)) xs = map json_height xs" by simp
  then show ?case by (simp add: comp_def)
next
  case (JObj ms)
  then have "(\<lambda>kv. json_height (snd kv)) ` set (sorted_members ms) = (\<lambda>kv. json_height (snd kv)) ` set ms"
    by (force simp: set_sorted_members image_image intro!: image_cong)
  then show ?case by simp
qed simp_all

end
