(* ===== verification/Symbolic_Expr.thy ===== *)
theory Symbolic_Expr
  imports Json_Value
begin

text \<open>
  The expressions of the static instruction semantics and their normal form
  (\<open>static_program/semantics/expressions.py\<close>). An expression is a Python tuple with a tag in front;
  here it is a constructor of \<open>sx\<close>. The tags that \<open>_canonical_expr\<close> treats in a way of their own have
  constructors of their own, with the components their constructors build; \<open>XLeaf\<close> is a tuple that
  is left alone, \<open>XNode\<close> any other tuple whose head is a text, \<open>XTuple\<close> a tuple whose head is none,
  and \<open>XNum\<close>, \<open>XTxt\<close>, \<open>XNone\<close> are components that are no tuples.

  \<open>_canonical_expr\<close> and the constructors call each other, and a constructor canonicalises operands that
  are canonical already. The constructors therefore take the function they call as an argument;
  \<open>canonical n\<close> ties the knot with \<open>n\<close> nested calls, and \<open>canonical_expr\<close> allows as many as the
  expression \<open>needs\<close>.
\<close>

section \<open>Expressions and their order\<close>

datatype sx =
    XConst int
  | XNum int
  | XTxt string
  | XNone
  | XAdd "sx list"
  | XSub sx sx
  | XMul sx sx
  | XXor "sx list"
  | XAnd sx sx
  | XOr sx sx
  | XBvnot sx
  | XNeg sx
  | XShl sx sx
  | XLshr sx sx
  | XAshr int sx sx
  | XSext int sx
  | XWriteBits sx int int sx
  | XIte sx sx sx
  | XTrue
  | XFalse
  | XNot sx
  | XBoolAnd "sx list"
  | XBoolOr "sx list"
  | XBoolXor sx sx
  | XBoolEq sx sx
  | XLeaf string "sx list"
  | XNode string "sx list"
  | XTuple "sx list"

text \<open>\<open>repr\<close> of a tuple; the operands of the associative operations are sorted by it.\<close>

definition tuple_repr :: "string list \<Rightarrow> string" where
  "tuple_repr parts =
     (case parts of [x] \<Rightarrow> ''('' @ x @ '',)'' | _ \<Rightarrow> ''('' @ join '', '' parts @ '')'')"

fun expr_repr :: "sx \<Rightarrow> string" where
  "expr_repr (XConst n) = tuple_repr [repr_text ''const'', int_text n]"
| "expr_repr (XNum n) = int_text n"
| "expr_repr (XTxt s) = repr_text s"
| "expr_repr XNone = ''None''"
| "expr_repr (XAdd xs) = tuple_repr (repr_text ''add'' # map expr_repr xs)"
| "expr_repr (XSub a b) = tuple_repr [repr_text ''sub'', expr_repr a, expr_repr b]"
| "expr_repr (XMul a b) = tuple_repr [repr_text ''mul'', expr_repr a, expr_repr b]"
| "expr_repr (XXor xs) = tuple_repr (repr_text ''xor'' # map expr_repr xs)"
| "expr_repr (XAnd a b) = tuple_repr [repr_text ''and'', expr_repr a, expr_repr b]"
| "expr_repr (XOr a b) = tuple_repr [repr_text ''or'', expr_repr a, expr_repr b]"
| "expr_repr (XBvnot a) = tuple_repr [repr_text ''bvnot'', expr_repr a]"
| "expr_repr (XNeg a) = tuple_repr [repr_text ''neg'', expr_repr a]"
| "expr_repr (XShl a b) = tuple_repr [repr_text ''shl'', expr_repr a, expr_repr b]"
| "expr_repr (XLshr a b) = tuple_repr [repr_text ''lshr'', expr_repr a, expr_repr b]"
| "expr_repr (XAshr w a b) = tuple_repr [repr_text ''ashr'', int_text w, expr_repr a, expr_repr b]"
| "expr_repr (XSext w a) = tuple_repr [repr_text ''sext'', int_text w, expr_repr a]"
| "expr_repr (XWriteBits b pos w v) =
     tuple_repr [repr_text ''write_bits'', expr_repr b, int_text pos, int_text w, expr_repr v]"
| "expr_repr (XIte c a b) = tuple_repr [repr_text ''ite'', expr_repr c, expr_repr a, expr_repr b]"
| "expr_repr XTrue = tuple_repr [repr_text ''true'']"
| "expr_repr XFalse = tuple_repr [repr_text ''false'']"
| "expr_repr (XNot a) = tuple_repr [repr_text ''not'', expr_repr a]"
| "expr_repr (XBoolAnd xs) = tuple_repr (repr_text ''bool_and'' # map expr_repr xs)"
| "expr_repr (XBoolOr xs) = tuple_repr (repr_text ''bool_or'' # map expr_repr xs)"
| "expr_repr (XBoolXor a b) = tuple_repr [repr_text ''bool_xor'', expr_repr a, expr_repr b]"
| "expr_repr (XBoolEq a b) = tuple_repr [repr_text ''bool_eq'', expr_repr a, expr_repr b]"
| "expr_repr (XLeaf t xs) = tuple_repr (repr_text t # map expr_repr xs)"
| "expr_repr (XNode t xs) = tuple_repr (repr_text t # map expr_repr xs)"
| "expr_repr (XTuple xs) = tuple_repr (map expr_repr xs)"

text \<open>\<open>if repr(right) < repr(left): left, right = right, left\<close>\<close>

definition in_repr_order :: "(sx \<Rightarrow> sx \<Rightarrow> sx) \<Rightarrow> sx \<Rightarrow> sx \<Rightarrow> sx" where
  "in_repr_order f l r = (if expr_repr r < expr_repr l then f r l else f l r)"

definition flatten_expr :: "string \<Rightarrow> sx \<Rightarrow> sx list" where
  "flatten_expr operator e =
     (case e of
        XAdd xs \<Rightarrow> if operator = ''add'' then xs else [e]
      | XXor xs \<Rightarrow> if operator = ''xor'' then xs else [e]
      | XBoolAnd xs \<Rightarrow> if operator = ''bool_and'' then xs else [e]
      | XBoolOr xs \<Rightarrow> if operator = ''bool_or'' then xs else [e]
      | _ \<Rightarrow> [e])"

fun const_pair :: "sx \<Rightarrow> sx \<Rightarrow> (int \<times> int) option" where
  "const_pair (XConst a) (XConst b) = Some (a, b)"
| "const_pair _ _ = None"

abbreviation both_const :: "sx \<Rightarrow> sx \<Rightarrow> (int \<Rightarrow> int \<Rightarrow> int) \<Rightarrow> sx \<Rightarrow> sx" where
  "both_const l r f otherwise \<equiv> (case const_pair l r of Some (a, b) \<Rightarrow> XConst (f a b) | None \<Rightarrow> otherwise)"

definition signed32 :: "int \<Rightarrow> int" where
  "signed32 n = (let n = n AND 0xFFFFFFFF in if n AND 0x80000000 \<noteq> 0 then n - 0x100000000 else n)"

definition low_mask :: "int \<Rightarrow> int" where
  "low_mask w = push_bit (nat w) 1 - 1"

section \<open>The constructors\<close>

definition add_terms :: "(sx \<Rightarrow> sx) \<Rightarrow> sx list \<Rightarrow> sx list" where
  "add_terms c parts = concat (map (\<lambda>part. flatten_expr ''add'' (c part)) parts)"

fun is_const :: "sx \<Rightarrow> bool" where
  "is_const (XConst _) = True"
| "is_const _ = False"

fun add_constant :: "int \<Rightarrow> sx \<Rightarrow> int" where
  "add_constant k (XConst n) = (k + n) AND 0xFFFFFFFF"
| "add_constant k _ = k"

definition add_parts_with :: "(sx \<Rightarrow> sx) \<Rightarrow> sx list \<Rightarrow> sx" where
  "add_parts_with c parts =
     (let flattened = add_terms c parts;
          constant = foldl add_constant 0 flattened;
          terms = filter (\<lambda>t. \<not> is_const t) flattened @ (if constant \<noteq> 0 then [XConst constant] else [])
      in if terms = [] then XConst 0
         else case sort_key expr_repr terms of [t] \<Rightarrow> t | ordered \<Rightarrow> XAdd ordered)"

definition sub_with :: "(sx \<Rightarrow> sx) \<Rightarrow> sx \<Rightarrow> sx \<Rightarrow> sx" where
  "sub_with c l r =
     (let l = c l; r = c r in
      if r = XConst 0 then l
      else both_const l r (\<lambda>a b. (a - b) AND 0xFFFFFFFF) (XSub l r))"

definition mul_with :: "(sx \<Rightarrow> sx) \<Rightarrow> sx \<Rightarrow> sx \<Rightarrow> sx" where
  "mul_with c l r =
     (let l = c l; r = c r in
      if l = XConst 0 \<or> r = XConst 0 then XConst 0
      else if l = XConst 1 then r
      else if r = XConst 1 then l
      else both_const l r (\<lambda>a b. (a * b) AND 0xFFFFFFFF) (XMul l r))"

definition and_with :: "(sx \<Rightarrow> sx) \<Rightarrow> sx \<Rightarrow> sx \<Rightarrow> sx" where
  "and_with c l r =
     (let l = c l; r = c r in
      if l = XConst 0 \<or> r = XConst 0 then XConst 0
      else if l = XConst 0xFFFFFFFF then r
      else if r = XConst 0xFFFFFFFF then l
      else both_const l r (AND) (in_repr_order XAnd l r))"

definition or_with :: "(sx \<Rightarrow> sx) \<Rightarrow> sx \<Rightarrow> sx \<Rightarrow> sx" where
  "or_with c l r =
     (let l = c l; r = c r in
      if l = XConst 0 then r
      else if r = XConst 0 then l
      else both_const l r (OR) (in_repr_order XOr l r))"

definition xor_with :: "(sx \<Rightarrow> sx) \<Rightarrow> sx \<Rightarrow> sx \<Rightarrow> sx" where
  "xor_with c l r =
     (let l = c l; r = c r in
      if l = r then XConst 0
      else if l = XConst 0 then r
      else if r = XConst 0 then l
      else both_const l r (XOR)
             (XXor (sort_key expr_repr (flatten_expr ''xor'' l @ flatten_expr ''xor'' r))))"

text \<open>
  \<open>_expr_mask\<close>; its case for \<open>None\<close> has no caller. A mask is recognised when it is already there.
\<close>

definition masked :: "int \<Rightarrow> sx \<Rightarrow> bool" where
  "masked w e = (case e of XAnd a b \<Rightarrow> a = XConst (low_mask w) \<or> b = XConst (low_mask w) | _ \<Rightarrow> False)"

definition mask_canonical :: "(sx \<Rightarrow> sx) \<Rightarrow> sx \<Rightarrow> int \<Rightarrow> sx" where
  "mask_canonical c v w =
     (if w \<ge> 32 then v
      else case v of
             XConst n \<Rightarrow> XConst (n AND low_mask w)
           | _ \<Rightarrow> if masked w v then v else and_with c v (XConst (low_mask w)))"

fun mask_with :: "(sx \<Rightarrow> sx) \<Rightarrow> sx \<Rightarrow> int \<Rightarrow> sx" where
  "mask_with c (XSext w' v) w =
     (if w' = w then mask_with c v w else mask_canonical c (c (XSext w' v)) w)"
| "mask_with c v w = mask_canonical c (c v) w"

definition sign_extend_with :: "(sx \<Rightarrow> sx) \<Rightarrow> sx \<Rightarrow> int \<Rightarrow> sx" where
  "sign_extend_with c v w =
     (let v = mask_with c v w in
      if w \<ge> 32 then v
      else case v of
             XConst n \<Rightarrow>
               (let raw = n AND low_mask w;
                    raw = (if raw AND push_bit (nat (w - 1)) 1 \<noteq> 0
                           then raw OR (NOT (low_mask w) AND 0xFFFFFFFF) else raw)
                in XConst (raw AND 0xFFFFFFFF))
           | _ \<Rightarrow> XSext w v)"

definition shl_with :: "(sx \<Rightarrow> sx) \<Rightarrow> sx \<Rightarrow> sx \<Rightarrow> sx" where
  "shl_with c l r =
     (let l = c l; r = c r in
      if r = XConst 0 then l
      else if l = XConst 0 then l
      else both_const l r (\<lambda>a b. push_bit (nat (b AND 31)) a AND 0xFFFFFFFF) (XShl l r))"

definition lshr_with :: "(sx \<Rightarrow> sx) \<Rightarrow> sx \<Rightarrow> sx \<Rightarrow> sx" where
  "lshr_with c l r =
     (let l = c l; r = c r in
      if r = XConst 0 then l
      else if l = XConst 0 then l
      else both_const l r (\<lambda>a b. drop_bit (nat (b AND 31)) (a AND 0xFFFFFFFF)) (XLshr l r))"

definition ashr_with :: "(sx \<Rightarrow> sx) \<Rightarrow> sx \<Rightarrow> sx \<Rightarrow> int \<Rightarrow> sx" where
  "ashr_with c l r w =
     (let l = mask_with c l w; r = c r in
      if r = XConst 0 then l
      else both_const l r
             (\<lambda>a b. let shift = b AND 31; raw = a AND low_mask w;
                        signed = (if raw AND push_bit (nat (w - 1)) 1 \<noteq> 0 then raw - push_bit (nat w) 1 else raw)
                    in drop_bit (nat shift) signed AND low_mask w)
             (XAshr w l r))"

definition not_with :: "(sx \<Rightarrow> sx) \<Rightarrow> sx \<Rightarrow> sx" where
  "not_with c v = (case c v of XConst n \<Rightarrow> XConst (NOT n AND 0xFFFFFFFF) | v \<Rightarrow> XBvnot v)"

definition neg_with :: "(sx \<Rightarrow> sx) \<Rightarrow> sx \<Rightarrow> sx" where
  "neg_with c v = (case c v of XConst n \<Rightarrow> XConst (- n AND 0xFFFFFFFF) | v \<Rightarrow> XNeg v)"

definition ite_with :: "(sx \<Rightarrow> sx) \<Rightarrow> sx \<Rightarrow> sx \<Rightarrow> sx \<Rightarrow> sx" where
  "ite_with c p a b =
     (let p = c p; a = c a; b = c b in
      if p = XTrue then a else if p = XFalse then b else if a = b then a else XIte p a b)"

definition bool_bit_with :: "(sx \<Rightarrow> sx) \<Rightarrow> sx \<Rightarrow> sx" where
  "bool_bit_with c p =
     (let p = c p in
      if p = XTrue then XConst 1 else if p = XFalse then XConst 0 else XNode ''bool_bit'' [p])"

text \<open>The four products of \<open>imul\<close> and \<open>mul\<close> fold constants and are opaque otherwise.\<close>

definition product_with :: "(sx \<Rightarrow> sx) \<Rightarrow> string \<Rightarrow> (int \<Rightarrow> int \<Rightarrow> int) \<Rightarrow> sx \<Rightarrow> sx \<Rightarrow> sx" where
  "product_with c tag f l r = (let l = c l; r = c r in both_const l r f (XNode tag [l, r]))"

definition bool_not_with :: "(sx \<Rightarrow> sx) \<Rightarrow> sx \<Rightarrow> sx" where
  "bool_not_with c v =
     (case c v of XTrue \<Rightarrow> XFalse | XFalse \<Rightarrow> XTrue | XNot w \<Rightarrow> w | v \<Rightarrow> XNot v)"

text \<open>The loops of \<open>_bool_and\<close> and \<open>_bool_or\<close>; \<open>None\<close> is the early return.\<close>

fun bool_terms :: "(sx \<Rightarrow> sx) \<Rightarrow> string \<Rightarrow> sx \<Rightarrow> sx \<Rightarrow> sx list \<Rightarrow> sx list option" where
  "bool_terms c operator absorbing neutral [] = Some []"
| "bool_terms c operator absorbing neutral (v # vs) =
     (let v = c v in
      if v = absorbing then None
      else if v = neutral then bool_terms c operator absorbing neutral vs
      else map_option ((@) (flatten_expr operator v)) (bool_terms c operator absorbing neutral vs))"

definition bool_and_with :: "(sx \<Rightarrow> sx) \<Rightarrow> sx list \<Rightarrow> sx" where
  "bool_and_with c vs =
     (case bool_terms c ''bool_and'' XFalse XTrue vs of
        None \<Rightarrow> XFalse
      | Some terms \<Rightarrow> (case terms of [] \<Rightarrow> XTrue | [t] \<Rightarrow> t | _ \<Rightarrow> XBoolAnd (sort_key expr_repr terms)))"

definition bool_or_with :: "(sx \<Rightarrow> sx) \<Rightarrow> sx list \<Rightarrow> sx" where
  "bool_or_with c vs =
     (case bool_terms c ''bool_or'' XTrue XFalse vs of
        None \<Rightarrow> XTrue
      | Some terms \<Rightarrow> (case terms of [] \<Rightarrow> XFalse | [t] \<Rightarrow> t | _ \<Rightarrow> XBoolOr (sort_key expr_repr terms)))"

definition bool_xor_with :: "(sx \<Rightarrow> sx) \<Rightarrow> sx \<Rightarrow> sx \<Rightarrow> sx" where
  "bool_xor_with c l r =
     (let l = c l; r = c r in
      if l = r then XFalse
      else if l = XFalse then r
      else if r = XFalse then l
      else if l = XTrue then bool_not_with c r
      else if r = XTrue then bool_not_with c l
      else in_repr_order XBoolXor l r)"

definition bool_eq_with :: "(sx \<Rightarrow> sx) \<Rightarrow> sx \<Rightarrow> sx \<Rightarrow> sx" where
  "bool_eq_with c l r =
     (let l = c l; r = c r in
      if l = r then XTrue
      else if l = XTrue then r
      else if r = XTrue then l
      else if l = XFalse then bool_not_with c r
      else if r = XFalse then bool_not_with c l
      else in_repr_order XBoolEq l r)"

text \<open>The value of a register part replaces an earlier write of the same part.\<close>

definition write_bits_with :: "(sx \<Rightarrow> sx) \<Rightarrow> sx \<Rightarrow> int \<Rightarrow> int \<Rightarrow> sx \<Rightarrow> sx" where
  "write_bits_with c b pos w v =
     (let v = mask_with c v w in
      case b of
        XWriteBits b' pos' w' _ \<Rightarrow> XWriteBits (if pos' = pos \<and> w' = w then b' else b) pos w v
      | _ \<Rightarrow> XWriteBits b pos w v)"

section \<open>The normal form\<close>

definition canonical_step :: "(sx \<Rightarrow> sx) \<Rightarrow> sx \<Rightarrow> sx" where
  "canonical_step c e =
     (case e of
        XConst k \<Rightarrow> XConst (k AND 0xFFFFFFFF)
      | XAdd xs \<Rightarrow> add_parts_with c xs
      | XSub a b \<Rightarrow> sub_with c (c a) (c b)
      | XMul a b \<Rightarrow> mul_with c (c a) (c b)
      | XXor xs \<Rightarrow> foldl (\<lambda>result part. xor_with c result (c part)) (XConst 0) xs
      | XAnd a b \<Rightarrow> and_with c (c a) (c b)
      | XOr a b \<Rightarrow> or_with c (c a) (c b)
      | XBvnot a \<Rightarrow> not_with c (c a)
      | XNeg a \<Rightarrow> neg_with c (c a)
      | XShl a b \<Rightarrow> shl_with c (c a) (c b)
      | XLshr a b \<Rightarrow> lshr_with c (c a) (c b)
      | XAshr w a b \<Rightarrow> ashr_with c (c a) (c b) w
      | XSext w a \<Rightarrow> sign_extend_with c (c a) w
      | XWriteBits b pos w v \<Rightarrow> write_bits_with c (c b) pos w (c v)
      | XIte p a b \<Rightarrow> ite_with c (c p) (c a) (c b)
      | XNot a \<Rightarrow> bool_not_with c (c a)
      | XBoolAnd xs \<Rightarrow> bool_and_with c (map c xs)
      | XBoolOr xs \<Rightarrow> bool_or_with c (map c xs)
      | XBoolXor a b \<Rightarrow> bool_xor_with c (c a) (c b)
      | XBoolEq a b \<Rightarrow> bool_eq_with c (c a) (c b)
      | XNode t xs \<Rightarrow> XNode t (map c xs)
      | XTuple xs \<Rightarrow> XTuple (map c xs)
      | _ \<Rightarrow> e)"

primrec canonical :: "nat \<Rightarrow> sx \<Rightarrow> sx" where
  "canonical 0 e = e"
| "canonical (Suc n) e = canonical_step (canonical n) e"

text \<open>
  How deep the calls nest: one more than the operands together. A mask that the normal form adds
  counts as if it were there, and an exclusive or of many operands is folded one at a time.
\<close>

definition mask_cost :: "int \<Rightarrow> sx \<Rightarrow> nat" where
  "mask_cost w e = (if w \<ge> 32 \<or> masked w e then 0 else 2)"

fun needs :: "sx \<Rightarrow> nat" where
  "needs (XAdd xs) = Suc (sum_list (map needs xs))"
| "needs (XSub a b) = Suc (needs a + needs b)"
| "needs (XMul a b) = Suc (needs a + needs b)"
| "needs (XXor xs) = Suc (sum_list (map (\<lambda>x. Suc (needs x)) xs))"
| "needs (XAnd a b) = Suc (needs a + needs b)"
| "needs (XOr a b) = Suc (needs a + needs b)"
| "needs (XBvnot a) = Suc (needs a)"
| "needs (XNeg a) = Suc (needs a)"
| "needs (XShl a b) = Suc (needs a + needs b)"
| "needs (XLshr a b) = Suc (needs a + needs b)"
| "needs (XAshr w a b) = Suc (needs a + mask_cost w a + needs b)"
| "needs (XSext w a) = Suc (needs a + mask_cost w a)"
| "needs (XWriteBits b pos w v) = Suc (needs b + needs v + mask_cost w v)"
| "needs (XIte p a b) = Suc (needs p + needs a + needs b)"
| "needs (XNot a) = Suc (needs a)"
| "needs (XBoolAnd xs) = Suc (sum_list (map needs xs))"
| "needs (XBoolOr xs) = Suc (sum_list (map needs xs))"
| "needs (XBoolXor a b) = Suc (needs a + needs b)"
| "needs (XBoolEq a b) = Suc (needs a + needs b)"
| "needs (XNode t xs) = Suc (sum_list (map needs xs))"
| "needs (XTuple xs) = Suc (sum_list (map needs xs))"
| "needs _ = 1"

definition canonical_expr :: "sx \<Rightarrow> sx" where
  "canonical_expr e = canonical (needs e) e"

section \<open>The constructors as the rest of the program calls them\<close>

definition expr_add :: "sx \<Rightarrow> sx \<Rightarrow> sx" where
  "expr_add l r = add_parts_with canonical_expr [l, r]"

definition expr_sub :: "sx \<Rightarrow> sx \<Rightarrow> sx" where
  "expr_sub = sub_with canonical_expr"

definition expr_mul :: "sx \<Rightarrow> sx \<Rightarrow> sx" where
  "expr_mul = mul_with canonical_expr"

definition expr_and :: "sx \<Rightarrow> sx \<Rightarrow> sx" where
  "expr_and = and_with canonical_expr"

definition expr_or :: "sx \<Rightarrow> sx \<Rightarrow> sx" where
  "expr_or = or_with canonical_expr"

definition expr_xor :: "sx \<Rightarrow> sx \<Rightarrow> sx" where
  "expr_xor = xor_with canonical_expr"

definition expr_mask :: "sx \<Rightarrow> int \<Rightarrow> sx" where
  "expr_mask = mask_with canonical_expr"

definition expr_sign_extend :: "sx \<Rightarrow> int \<Rightarrow> sx" where
  "expr_sign_extend = sign_extend_with canonical_expr"

definition expr_shl :: "sx \<Rightarrow> sx \<Rightarrow> sx" where
  "expr_shl = shl_with canonical_expr"

definition expr_lshr :: "sx \<Rightarrow> sx \<Rightarrow> sx" where
  "expr_lshr = lshr_with canonical_expr"

definition expr_ashr :: "sx \<Rightarrow> sx \<Rightarrow> int \<Rightarrow> sx" where
  "expr_ashr = ashr_with canonical_expr"

definition expr_not :: "sx \<Rightarrow> sx" where
  "expr_not = not_with canonical_expr"

definition expr_neg :: "sx \<Rightarrow> sx" where
  "expr_neg = neg_with canonical_expr"

definition expr_ite :: "sx \<Rightarrow> sx \<Rightarrow> sx \<Rightarrow> sx" where
  "expr_ite = ite_with canonical_expr"

definition expr_bool_bit :: "sx \<Rightarrow> sx" where
  "expr_bool_bit = bool_bit_with canonical_expr"

definition expr_imul_low :: "sx \<Rightarrow> sx \<Rightarrow> sx" where
  "expr_imul_low = product_with canonical_expr ''imul_low'' (\<lambda>a b. (a * b) AND 0xFFFFFFFF)"

definition expr_imul_high :: "sx \<Rightarrow> sx \<Rightarrow> sx" where
  "expr_imul_high =
     product_with canonical_expr ''imul_high'' (\<lambda>a b. drop_bit 32 (signed32 a * signed32 b) AND 0xFFFFFFFF)"

definition expr_mul_low :: "sx \<Rightarrow> sx \<Rightarrow> sx" where
  "expr_mul_low = product_with canonical_expr ''mul_low'' (\<lambda>a b. (a * b) AND 0xFFFFFFFF)"

definition expr_mul_high :: "sx \<Rightarrow> sx \<Rightarrow> sx" where
  "expr_mul_high = product_with canonical_expr ''mul_high''
     (\<lambda>a b. drop_bit 32 ((a AND 0xFFFFFFFF) * (b AND 0xFFFFFFFF)) AND 0xFFFFFFFF)"

definition bool_not :: "sx \<Rightarrow> sx" where
  "bool_not = bool_not_with canonical_expr"

definition bool_and :: "sx list \<Rightarrow> sx" where
  "bool_and = bool_and_with canonical_expr"

definition bool_or :: "sx list \<Rightarrow> sx" where
  "bool_or = bool_or_with canonical_expr"

definition bool_xor :: "sx \<Rightarrow> sx \<Rightarrow> sx" where
  "bool_xor = bool_xor_with canonical_expr"

definition bool_eq :: "sx \<Rightarrow> sx \<Rightarrow> sx" where
  "bool_eq = bool_eq_with canonical_expr"

text \<open>The pair of shifts of \<open>shld\<close> and \<open>shrd\<close>.\<close>

definition expr_shift_pair :: "string \<Rightarrow> sx \<Rightarrow> sx \<Rightarrow> sx \<Rightarrow> int \<Rightarrow> sx" where
  "expr_shift_pair mnemonic l r count w =
     (let l = expr_mask l w; r = expr_mask r w;
          count = expr_and count (XConst 0x1F);
          inverse = expr_sub (XConst w) count
      in if mnemonic = ''shrd'' then expr_mask (expr_or (expr_lshr l count) (expr_shl r inverse)) w
         else expr_mask (expr_or (expr_shl l count) (expr_lshr r inverse)) w)"

end
