(* ===== verification/Symbolic_Value.thy ===== *)
theory Symbolic_Value
  imports Symbolic_Expr Transfer_Eval "HOL-Library.Multiset"
begin

text \<open>
  What a symbolic expression means, and that the normal form keeps it. A word is a 32-bit value, a
  condition is 0 or 1. The arithmetic of the tags is that of the evaluator, into whose operations
  \<open>_semantic_expr_json\<close> translates them; the entry state, memory and the x87 unit are an
  interpretation \<open>meaning\<close> about which nothing is assumed.
\<close>

section \<open>Sorts\<close>

datatype sort = Word_sort | Bool_sort | Text_sort string | Other_sort

definition bool_leaves :: "string set" where
  "bool_leaves = {''flag'', ''call_flag'', ''undefined_flag''}"

definition bool_nodes :: "string set" where
  "bool_nodes =
     {''eq'', ''ult'', ''msb'', ''msb_w'', ''add_overflow_w'', ''sub_overflow_w'', ''shift_cf'', ''shift_of'',
      ''adc_carry'', ''adc_overflow'', ''sbb_borrow'', ''sbb_overflow'', ''imul_overflow'', ''mul_carry'',
      ''parity'', ''udiv_valid'', ''fpu_cmp_cf'', ''fpu_cmp_zf'', ''fpu_cmp_pf''}"

fun sort_of :: "sx \<Rightarrow> sort" where
  "sort_of (XNum _) = Other_sort"
| "sort_of (XTxt s) = Text_sort s"
| "sort_of XNone = Other_sort"
| "sort_of (XTuple _) = Other_sort"
| "sort_of (XIte _ a _) = sort_of a"
| "sort_of XTrue = Bool_sort"
| "sort_of XFalse = Bool_sort"
| "sort_of (XNot _) = Bool_sort"
| "sort_of (XBoolAnd _) = Bool_sort"
| "sort_of (XBoolOr _) = Bool_sort"
| "sort_of (XBoolXor _ _) = Bool_sort"
| "sort_of (XBoolEq _ _) = Bool_sort"
| "sort_of (XLeaf t _) = (if t \<in> bool_leaves then Bool_sort else Word_sort)"
| "sort_of (XNode t _) = (if t \<in> bool_nodes then Bool_sort else Word_sort)"
| "sort_of _ = Word_sort"

abbreviation is_word :: "sx \<Rightarrow> bool" where
  "is_word e \<equiv> sort_of e = Word_sort"

abbreviation is_bool :: "sx \<Rightarrow> bool" where
  "is_bool e \<equiv> sort_of e = Bool_sort"

fun well_sorted :: "sx \<Rightarrow> bool" where
  "well_sorted (XAdd xs) \<longleftrightarrow> (\<forall>x\<in>set xs. well_sorted x \<and> is_word x)"
| "well_sorted (XXor xs) \<longleftrightarrow> (\<forall>x\<in>set xs. well_sorted x \<and> is_word x)"
| "well_sorted (XSub a b) \<longleftrightarrow> well_sorted a \<and> well_sorted b \<and> is_word a \<and> is_word b"
| "well_sorted (XMul a b) \<longleftrightarrow> well_sorted a \<and> well_sorted b \<and> is_word a \<and> is_word b"
| "well_sorted (XAnd a b) \<longleftrightarrow> well_sorted a \<and> well_sorted b \<and> is_word a \<and> is_word b"
| "well_sorted (XOr a b) \<longleftrightarrow> well_sorted a \<and> well_sorted b \<and> is_word a \<and> is_word b"
| "well_sorted (XShl a b) \<longleftrightarrow> well_sorted a \<and> well_sorted b \<and> is_word a \<and> is_word b"
| "well_sorted (XLshr a b) \<longleftrightarrow> well_sorted a \<and> well_sorted b \<and> is_word a \<and> is_word b"
| "well_sorted (XAshr w a b) \<longleftrightarrow>
     0 < w \<and> w \<le> 32 \<and> well_sorted a \<and> well_sorted b \<and> is_word a \<and> is_word b"
| "well_sorted (XBvnot a) \<longleftrightarrow> well_sorted a \<and> is_word a"
| "well_sorted (XNeg a) \<longleftrightarrow> well_sorted a \<and> is_word a"
| "well_sorted (XSext w a) \<longleftrightarrow> 0 < w \<and> w \<le> 32 \<and> well_sorted a \<and> is_word a"
| "well_sorted (XWriteBits b pos w v) \<longleftrightarrow>
     0 \<le> pos \<and> 0 < w \<and> well_sorted b \<and> well_sorted v \<and> is_word b \<and> is_word v"
| "well_sorted (XIte p a b) \<longleftrightarrow>
     well_sorted p \<and> well_sorted a \<and> well_sorted b \<and> is_bool p \<and> sort_of a = sort_of b \<and> (is_word a \<or> is_bool a)"
| "well_sorted (XNot a) \<longleftrightarrow> well_sorted a \<and> is_bool a"
| "well_sorted (XBoolAnd xs) \<longleftrightarrow> (\<forall>x\<in>set xs. well_sorted x \<and> is_bool x)"
| "well_sorted (XBoolOr xs) \<longleftrightarrow> (\<forall>x\<in>set xs. well_sorted x \<and> is_bool x)"
| "well_sorted (XBoolXor a b) \<longleftrightarrow> well_sorted a \<and> well_sorted b \<and> is_bool a \<and> is_bool b"
| "well_sorted (XBoolEq a b) \<longleftrightarrow>
     well_sorted a \<and> well_sorted b \<and> sort_of a = sort_of b \<and> (is_word a \<or> is_bool a)"
| "well_sorted (XNode t xs) \<longleftrightarrow> (\<forall>x\<in>set xs. well_sorted x)"
| "well_sorted (XTuple xs) \<longleftrightarrow> (\<forall>x\<in>set xs. well_sorted x)"
| "well_sorted _ \<longleftrightarrow> True"

section \<open>Values\<close>

datatype arg = Value int | Text string

record meaning =
  leaf_meaning :: "string \<Rightarrow> sx list \<Rightarrow> int"
  node_meaning :: "string \<Rightarrow> arg list \<Rightarrow> int"

text \<open>The tags with a fixed meaning, computed by the functions of the evaluator.\<close>

definition numbers :: "arg list \<Rightarrow> int list" where
  "numbers args = map (\<lambda>a. case a of Value v \<Rightarrow> v | Text _ \<Rightarrow> 0) args"

definition shift_kind :: "string \<Rightarrow> int" where
  "shift_kind mnemonic =
     (if mnemonic \<in> {''shr'', ''shrd''} then 1 else if mnemonic = ''sar'' then 2 else 0)"

definition shift_node :: "bool \<Rightarrow> arg list \<Rightarrow> int res" where
  "shift_node carry args =
     (case args of
        Text mnemonic # Value w # rest \<Rightarrow> shift_flag carry ((shift_kind mnemonic * 256) OR w) (numbers rest)
      | _ \<Rightarrow> Raise Key_error)"

definition condition_node :: "string \<Rightarrow> int list \<Rightarrow> int res" where
  "condition_node t vs =
     (if t = ''eq'' then arg2 vs (\<lambda>a b. Ok (of_bool (a = b)))
      else if t = ''ult'' then arg2 vs (\<lambda>a b. Ok (of_bool (a < b)))
      else if t = ''msb_w'' then arg2 vs (\<lambda>w v. Ok (drop_bit (nat (w - 1)) v AND 1))
      else if t = ''parity'' then arg2 vs (\<lambda>w v. Ok (of_bool (bit_count (v AND 0xFF) mod 2 = 0)))
      else if t = ''add_overflow_w'' then overflow_flag vs False
      else if t = ''sub_overflow_w'' then overflow_flag vs True
      else if t = ''adc_carry'' then adc_flag vs False
      else if t = ''adc_overflow'' then adc_flag vs True
      else if t = ''sbb_borrow'' then sbb_flag vs False
      else if t = ''sbb_overflow'' then sbb_flag vs True
      else if t = ''imul_overflow''
        then bind (py_index vs 4) (\<lambda>h. bind (py_index vs 3) (\<lambda>l. Ok (of_bool (h \<noteq> (if s32 l < 0 then 0xFFFFFFFF else 0)))))
      else if t = ''mul_carry'' then bind (py_index vs 3) (\<lambda>h. Ok (of_bool (h \<noteq> 0)))
      else if t = ''udiv_valid'' then bind (udiv_words vs) (\<lambda>(q, r, v). Ok v)
      else Raise Key_error)"

definition word_node :: "string \<Rightarrow> int list \<Rightarrow> int res" where
  "word_node t vs =
     (if t = ''bool_bit'' then bind (py_index vs 0) (\<lambda>a. Ok (of_bool (a \<noteq> 0)))
      else if t = ''imul_low'' then arg2 vs (\<lambda>a b. Ok (a * b))
      else if t = ''imul_high'' then arg2 vs (\<lambda>a b. Ok (drop_bit 32 (s32 a * s32 b) AND 0xFFFFFFFF))
      else if t = ''mul_low'' then arg2 vs (\<lambda>a b. Ok (a * b))
      else if t = ''mul_high'' then arg2 vs (\<lambda>a b. Ok (drop_bit 32 (a * b) AND 0xFFFFFFFF))
      else if t = ''udiv_quot'' then bind (udiv_words vs) (\<lambda>(q, r, v). Ok q)
      else if t = ''udiv_rem'' then bind (udiv_words vs) (\<lambda>(q, r, v). Ok r)
      else if t = ''bsr_index'' then bind (py_index vs (- 1)) (\<lambda>v. Ok (if v = 0 then 0 else bit_length v - 1))
      else if t = ''tzcnt'' then bind (py_index vs (- 1)) (\<lambda>v. Ok (if v = 0 then 32 else bit_length (v AND - v) - 1))
      else Raise Key_error)"

definition pure_node :: "string \<Rightarrow> arg list \<Rightarrow> int res" where
  "pure_node t args =
     (if t = ''shift_cf'' then shift_node True args
      else if t = ''shift_of'' then shift_node False args
      else if t \<in> bool_nodes then condition_node t (numbers args)
      else word_node t (numbers args))"

definition node_value :: "meaning \<Rightarrow> string \<Rightarrow> arg list \<Rightarrow> int" where
  "node_value M t args =
     (let v = (case pure_node t args of Inr v \<Rightarrow> v | Inl _ \<Rightarrow> node_meaning M t args)
      in if t \<in> bool_nodes then of_bool (v \<noteq> 0) else u32 v)"

definition arg_of :: "sx \<Rightarrow> int \<Rightarrow> arg" where
  "arg_of e v = (case sort_of e of Text_sort s \<Rightarrow> Text s | _ \<Rightarrow> Value v)"

definition field_mask :: "int \<Rightarrow> int \<Rightarrow> int" where
  "field_mask pos w = push_bit (nat pos) (low_mask w) AND 0xFFFFFFFF"

fun value_of :: "meaning \<Rightarrow> sx \<Rightarrow> int" where
  "value_of M (XConst n) = u32 n"
| "value_of M (XNum n) = n"
| "value_of M (XAdd xs) = u32 (sum_list (map (value_of M) xs))"
| "value_of M (XSub a b) = u32 (value_of M a - value_of M b)"
| "value_of M (XMul a b) = u32 (value_of M a * value_of M b)"
| "value_of M (XXor xs) = foldr (XOR) (map (value_of M) xs) 0"
| "value_of M (XAnd a b) = value_of M a AND value_of M b"
| "value_of M (XOr a b) = value_of M a OR value_of M b"
| "value_of M (XBvnot a) = u32 (NOT (value_of M a))"
| "value_of M (XNeg a) = u32 (- value_of M a)"
| "value_of M (XShl a b) = u32 (push_bit (nat (value_of M b AND 31)) (value_of M a))"
| "value_of M (XLshr a b) = drop_bit (nat (value_of M b AND 31)) (value_of M a)"
| "value_of M (XAshr w a b) =
     take_bit (nat w) (drop_bit (nat (value_of M b AND 31)) (signed_value (nat w) (value_of M a)))"
| "value_of M (XSext w a) = u32 (signed_value (nat w) (value_of M a))"
| "value_of M (XWriteBits b pos w v) =
     (value_of M b AND NOT (field_mask pos w)) OR (push_bit (nat pos) (value_of M v) AND field_mask pos w)"
| "value_of M (XIte p a b) = (if value_of M p \<noteq> 0 then value_of M a else value_of M b)"
| "value_of M XTrue = 1"
| "value_of M (XNot a) = of_bool (value_of M a = 0)"
| "value_of M (XBoolAnd xs) = of_bool (\<forall>x\<in>set xs. value_of M x \<noteq> 0)"
| "value_of M (XBoolOr xs) = of_bool (\<exists>x\<in>set xs. value_of M x \<noteq> 0)"
| "value_of M (XBoolXor a b) = of_bool ((value_of M a \<noteq> 0) \<noteq> (value_of M b \<noteq> 0))"
| "value_of M (XBoolEq a b) = of_bool (value_of M a = value_of M b)"
| "value_of M (XLeaf t xs) =
     (if t \<in> bool_leaves then of_bool (leaf_meaning M t xs \<noteq> 0) else u32 (leaf_meaning M t xs))"
| "value_of M (XNode t xs) = node_value M t (map (\<lambda>x. arg_of x (value_of M x)) xs)"
| "value_of M _ = 0"

text \<open>Words are 32-bit values and conditions are bits.\<close>

lemma value_bool: "well_sorted e \<Longrightarrow> is_bool e \<Longrightarrow> value_of M e = 0 \<or> value_of M e = 1"
proof (induction e)
  case (XIte p a b)
  then show ?case by auto
qed (auto simp: node_value_def Let_def split: if_splits)

lemma bool_of_value [simp]: "well_sorted e \<Longrightarrow> is_bool e \<Longrightarrow> of_bool (value_of M e \<noteq> 0) = value_of M e"
  using value_bool[of e M] by auto

definition u32_ok :: "int \<Rightarrow> bool" where
  "u32_ok v \<longleftrightarrow> take_bit 32 v = v"

lemma u32_ok_iff: "u32_ok v \<longleftrightarrow> 0 \<le> v \<and> v < 2 ^ 32"
  by (simp add: u32_ok_def take_bit_int_eq_self_iff)

lemma u32_okI [intro]:
  "u32_ok (u32 v)" "u32_ok 0" "u32_ok 1" "u32_ok (of_bool P)" "u32_ok (take_bit 32 v)"
  by (simp_all add: u32_ok_def u32_take_bit)

lemma u32_ok_bit: "u32_ok v \<Longrightarrow> bit v n \<Longrightarrow> n < 32"
  by (metis bit_take_bit_iff u32_ok_def)

lemma u32_okI_bits: "(\<And>n. bit v n \<Longrightarrow> n < 32) \<Longrightarrow> u32_ok v"
  unfolding u32_ok_def by (rule bit_eqI) (auto simp: bit_take_bit_iff)

lemma u32_ok_ops:
  "u32_ok a \<Longrightarrow> u32_ok (a AND b)" "u32_ok b \<Longrightarrow> u32_ok (a AND b)"
  "u32_ok a \<Longrightarrow> u32_ok b \<Longrightarrow> u32_ok (a OR b)" "u32_ok a \<Longrightarrow> u32_ok b \<Longrightarrow> u32_ok (a XOR b)"
  "u32_ok a \<Longrightarrow> u32_ok (drop_bit n a)"
  by (rule u32_okI_bits; force simp: bit_simps dest: u32_ok_bit)+

lemma u32_ok_u32 [simp]: "u32_ok v \<Longrightarrow> u32 v = v"
  by (simp add: u32_ok_def u32_take_bit)

lemma u32_ok_foldr: "\<forall>v\<in>set vs. u32_ok v \<Longrightarrow> u32_ok (foldr (XOR) vs 0)"
  by (induction vs) (auto intro: u32_ok_ops)

lemma u32_ok_ashr:
  assumes "0 < w" "w \<le> 32" shows "u32_ok (take_bit (nat w) v)"
  using assms by (intro u32_okI_bits) (auto simp: bit_simps)

lemma value_range:
  "well_sorted e \<Longrightarrow> is_word e \<or> is_bool e \<Longrightarrow> u32_ok (value_of M e)"
proof (induction e)
  case (XXor xs)
  then show ?case by (auto intro!: u32_ok_foldr)
next
  case (XWriteBits b pos w v)
  have "u32_ok (field_mask pos w)" by (simp add: field_mask_def mask_simps u32_okI)
  with XWriteBits show ?case by (auto intro: u32_ok_ops)
qed (auto simp: node_value_def Let_def intro: u32_ok_ops u32_ok_ashr)

section \<open>Constructors keep the value\<close>

text \<open>An expression \<open>e'\<close> that may stand for \<open>e\<close>.\<close>

definition stands_for :: "sx \<Rightarrow> sx \<Rightarrow> bool" where
  "stands_for e' e \<longleftrightarrow>
     well_sorted e' \<and> sort_of e' = sort_of e \<and> (\<forall>M. value_of M e' = value_of M e)"

lemma stands_for_refl [simp]: "stands_for e e \<longleftrightarrow> well_sorted e"
  by (simp add: stands_for_def)

lemma stands_for_trans [trans]: "stands_for a b \<Longrightarrow> stands_for b c \<Longrightarrow> stands_for a c"
  by (simp add: stands_for_def)

lemma stands_forD:
  "stands_for e' e \<Longrightarrow> well_sorted e'" "stands_for e' e \<Longrightarrow> sort_of e' = sort_of e"
  "stands_for e' e \<Longrightarrow> value_of M e' = value_of M e"
  by (simp_all add: stands_for_def)

lemma const_pair_Some [simp]: "const_pair l r = Some (a, b) \<longleftrightarrow> l = XConst a \<and> r = XConst b"
  by (cases l; cases r) auto

lemma not_const_case [simp]: "\<forall>n. v \<noteq> XConst n \<Longrightarrow> (case v of XConst n \<Rightarrow> f n | _ \<Rightarrow> g) = g"
  by (cases v) simp_all

lemma in_order_cases: "in_repr_order f l r = f l r \<or> in_repr_order f l r = f r l"
  by (simp add: in_repr_order_def)

text \<open>Arithmetic on words, in terms of \<open>u32\<close>.\<close>

lemma mask_u32: "v AND 0xFFFFFFFF = u32 v"
  by (simp add: u32_def)

lemma u32_word_simps:
  "u32 (u32 a - u32 b) = u32 (a - b)" "u32 (u32 a * u32 b) = u32 (a * b)" "u32 (u32 a + u32 b) = u32 (a + b)"
  "u32 (a + u32 b) = u32 (a + b)" "u32 (u32 a + b) = u32 (a + b)"
  "u32 (- u32 a) = u32 (- a)" "u32 (NOT (u32 a)) = u32 (NOT a)"
  "u32 a AND u32 b = u32 (a AND b)" "u32 a OR u32 b = u32 (a OR b)" "u32 a XOR u32 b = u32 (a XOR b)"
  "u32 (push_bit n (u32 a)) = u32 (push_bit n a)"
  by (simp_all add: u32_take_bit take_bit_diff take_bit_mult take_bit_add take_bit_minus take_bit_not_take_bit
      mod_simps take_bit_and take_bit_or take_bit_xor take_bit_push_bit)
     (simp_all add: take_bit_eq_mod mod_simps push_bit_eq_mult)

lemma u32_and5: "u32 a AND 31 = a AND 31"
  by (simp add: u32_take_bit mask_simps)

lemma u32_consts [simp]: "u32 0 = 0" "u32 1 = 1" "u32 0xFFFFFFFF = 0xFFFFFFFF"
  by (simp_all add: u32_def)

lemma u32_drop [simp]: "u32_ok v \<Longrightarrow> u32 (drop_bit n v) = drop_bit n v"
  by (simp add: u32_ok_ops)

lemma ones_and [simp]: "u32_ok v \<Longrightarrow> 0xFFFFFFFF AND v = v" "u32_ok v \<Longrightarrow> v AND 0xFFFFFFFF = v"
  by (metis and.commute mask_u32 u32_ok_u32)+

lemmas value_simps = mask_u32 u32_word_simps u32_and5

named_theorems id_simps

lemma sub_id: "well_sorted (XSub l r) \<Longrightarrow> stands_for (sub_with id l r) (XSub l r)"
  by (auto simp: stands_for_def sub_with_def value_range value_simps split: option.split)

lemma mul_id: "well_sorted (XMul l r) \<Longrightarrow> stands_for (mul_with id l r) (XMul l r)"
  by (auto simp: stands_for_def mul_with_def value_range value_simps split: option.split)

lemma and_id: "well_sorted (XAnd l r) \<Longrightarrow> stands_for (and_with id l r) (XAnd l r)"
  by (auto simp: stands_for_def and_with_def value_range value_simps and.commute in_repr_order_def split: option.split)

lemma or_id: "well_sorted (XOr l r) \<Longrightarrow> stands_for (or_with id l r) (XOr l r)"
  by (auto simp: stands_for_def or_with_def Let_def value_simps or.commute in_repr_order_def split: option.split)

lemma shl_id: "well_sorted (XShl l r) \<Longrightarrow> stands_for (shl_with id l r) (XShl l r)"
  by (auto simp: stands_for_def shl_with_def value_range value_simps split: option.split)

lemma lshr_id: "well_sorted (XLshr l r) \<Longrightarrow> stands_for (lshr_with id l r) (XLshr l r)"
  by (auto simp: stands_for_def lshr_with_def value_range value_simps u32_okI split: option.split)

lemma not_id: "well_sorted (XBvnot l) \<Longrightarrow> stands_for (not_with id l) (XBvnot l)"
  by (cases l) (auto simp: stands_for_def not_with_def value_simps)

lemma neg_id: "well_sorted (XNeg l) \<Longrightarrow> stands_for (neg_with id l) (XNeg l)"
  by (cases l) (auto simp: stands_for_def neg_with_def value_simps)

lemma ite_id: "well_sorted (XIte p a b) \<Longrightarrow> stands_for (ite_with id p a b) (XIte p a b)"
  by (auto simp: stands_for_def ite_with_def)

lemma bool_not_id: "well_sorted (XNot a) \<Longrightarrow> stands_for (bool_not_with id a) (XNot a)"
  by (cases a) (auto simp: stands_for_def bool_not_with_def)


text \<open>Masks. The mask of \<open>w\<close> bits keeps the low \<open>w\<close> bits.\<close>

lemma and_low_mask: "v AND low_mask w = take_bit (nat w) v"
  by (simp add: low_mask_def take_bit_eq_mask mask_eq_exp_minus_1 push_bit_eq_mult)

lemma low_mask_and: "low_mask w AND v = take_bit (nat w) v"
  by (metis and.commute and_low_mask)

lemma low_mask_eq: "low_mask w = mask (nat w)"
  by (simp add: low_mask_def mask_eq_exp_minus_1 push_bit_eq_mult)

lemma low_mask_self [simp]: "take_bit (nat w) (low_mask w) = low_mask w"
  unfolding low_mask_eq by (rule bit_eqI) (simp add: bit_simps)

lemma low_mask_u32: "w < 32 \<Longrightarrow> u32 (low_mask w) = low_mask w"
  by (intro u32_ok_u32 u32_okI_bits) (auto simp: low_mask_eq bit_simps)

lemma take_bit_and_mask: "take_bit n (v::int) AND mask n = take_bit n v"
  by (simp add: take_bit_eq_mask and.assoc)

definition low_bits :: "sx \<Rightarrow> int \<Rightarrow> sx \<Rightarrow> bool" where
  "low_bits e' w e \<longleftrightarrow>
     well_sorted e' \<and> is_word e' \<and> (\<forall>M. value_of M e' = (if w \<ge> 32 then value_of M e else take_bit (nat w) (value_of M e)))"

lemma low_bits_stands: "low_bits e' w e \<Longrightarrow> stands_for e d \<Longrightarrow> low_bits e' w d"
  by (simp add: low_bits_def stands_for_def)

lemma masked_low_bits:
  assumes "masked w v" "well_sorted v" "w < 32" shows "low_bits v w v"
proof -
  obtain a b where v: "v = XAnd a b" "a = XConst (low_mask w) \<or> b = XConst (low_mask w)"
    using assms(1) by (cases v) (auto simp: masked_def)
  have "take_bit (nat w) (value_of M v) = value_of M v" for M
    using v assms(3) by (auto simp: low_mask_u32 and_low_mask low_mask_and)
  with v assms show ?thesis by (auto simp: low_bits_def)
qed

lemma and_mask_low_bits:
  assumes "well_sorted v" "is_word v" "w < 32"
  shows "low_bits (and_with id v (XConst (low_mask w))) w v"
  using and_id[of v "XConst (low_mask w)"] assms
  by (auto simp: stands_for_def low_bits_def low_mask_u32 and_low_mask)

lemma mask_const_low_bits: "w < 32 \<Longrightarrow> low_bits (XConst (n AND low_mask w)) w (XConst n)"
  by (auto simp: low_bits_def u32_take_bit and_low_mask take_bit_take_bit min_def intro!: arg_cong[where f = "\<lambda>k. take_bit k n"])

text \<open>Sign extension, from a masked operand.\<close>

lemma signed_value_low:
  assumes "0 < w" shows "signed_value (nat w) (take_bit (nat w) v) = signed_value (nat w) v"
proof -
  have "nat w - 1 < nat w" using assms by simp
  then show ?thesis by (simp add: signed_value_def signed_take_bit_take_bit)
qed

lemma low_extended:
  assumes "0 < w" "w \<le> 32" shows "take_bit (nat w) (u32 (signed_value (nat w) v)) = take_bit (nat w) v"
proof -
  obtain k where "nat w = Suc k" "k < 32" using assms by (cases "nat w") auto
  then show ?thesis
    by (intro bit_eqI) (auto simp: u32_take_bit signed_value_def bit_simps min_def less_Suc_eq)
qed

lemma signed_value_u32:
  assumes "0 < w" "w \<le> 32" shows "signed_value (nat w) (u32 v) = signed_value (nat w) v"
proof -
  have "nat w - 1 < 32" using assms by auto
  then show ?thesis by (simp add: signed_value_def u32_take_bit signed_take_bit_take_bit)
qed

lemma folded_sign:
  assumes "0 < w"
  shows "(let raw = x AND low_mask w in if raw AND push_bit (nat (w - 1)) 1 \<noteq> 0 then raw - push_bit (nat w) 1 else raw)
    = signed_value (nat w) x"
proof -
  obtain k where k: "nat w = Suc k" "nat (w - 1) = k" using assms by (cases "nat w") auto
  have "take_bit (Suc k) x AND push_bit k 1 \<noteq> 0 \<longleftrightarrow> bit x k"
    by (simp only: and_sign_bit bit_take_bit_iff) simp
  then show ?thesis
    using signed_value_bit[of k x] by (simp add: Let_def and_low_mask k push_bit_eq_mult)
qed

lemma signed_value_32: "u32_ok v \<Longrightarrow> u32 (signed_value 32 v) = v"
  by (simp add: u32_take_bit signed_value_def take_bit_signed_take_bit u32_ok_def)

lemma extended_const:
  assumes "0 < w" "w < 32"
  shows "u32 (let raw = n AND low_mask w;
                  raw = (if raw AND push_bit (nat (w - 1)) 1 \<noteq> 0 then raw OR (NOT (low_mask w) AND 0xFFFFFFFF) else raw)
              in raw AND 0xFFFFFFFF) = u32 (signed_value (nat w) n)"
proof -
  obtain k where k: "nat w = Suc k" "nat (w - 1) = k" "k < 31" using assms by (cases "nat w") auto
  have raw: "n AND low_mask w = take_bit (Suc k) n" by (simp add: and_low_mask k)
  have top: "take_bit (Suc k) n AND push_bit k 1 \<noteq> 0 \<longleftrightarrow> bit n k"
    by (simp only: and_sign_bit bit_take_bit_iff) simp
  have "u32 (u32 (take_bit (Suc k) n OR (if bit n k then NOT (low_mask w) AND 0xFFFFFFFF else 0))) = u32 (signed_take_bit k n)"
    unfolding u32_take_bit low_mask_eq k and_mask32
    using k(3) by (intro bit_eqI) (auto simp: bit_simps less_Suc_eq min_def)
  then show ?thesis
    unfolding raw k(2) Let_def top mask_u32 signed_value_def k(1) by (cases "bit n k") simp_all
qed

text \<open>Sorting the operands of an associative operation keeps its value.\<close>

lemma xor_single [simp]: "foldr (XOR) (map (value_of M) (flatten_expr ''xor'' e)) 0 = value_of M e"
  by (cases e) (simp_all add: flatten_expr_def)

lemma foldr_xor_append: "foldr (XOR) (xs @ ys) (0::int) = foldr (XOR) xs 0 XOR foldr (XOR) ys 0"
  by (induction xs) (simp_all add: xor.assoc)

lemma foldr_xor_mset: "mset xs = mset ys \<Longrightarrow> foldr (XOR) xs (0::int) = foldr (XOR) ys 0"
  unfolding foldr_conv_fold
  by (rule fold_multiset_equiv[THEN fun_cong]) (auto simp: fun_eq_iff ac_simps)

lemma well_sorted_flatten:
  "well_sorted e \<Longrightarrow> is_word e \<Longrightarrow> x \<in> set (flatten_expr ''xor'' e) \<Longrightarrow> well_sorted x \<and> is_word x"
  "well_sorted e \<Longrightarrow> is_word e \<Longrightarrow> x \<in> set (flatten_expr ''add'' e) \<Longrightarrow> well_sorted x \<and> is_word x"
  "well_sorted e \<Longrightarrow> is_bool e \<Longrightarrow> x \<in> set (flatten_expr ''bool_and'' e) \<Longrightarrow> well_sorted x \<and> is_bool x"
  "well_sorted e \<Longrightarrow> is_bool e \<Longrightarrow> x \<in> set (flatten_expr ''bool_or'' e) \<Longrightarrow> well_sorted x \<and> is_bool x"
  by (cases e; auto simp: flatten_expr_def)+

lemma add_single: "u32 (sum_list (map (value_of M) (flatten_expr ''add'' e))) = u32 (value_of M e)"
  by (cases e) (simp_all add: flatten_expr_def)

lemma and_single:
  "well_sorted e \<Longrightarrow> is_bool e \<Longrightarrow> (\<forall>x\<in>set (flatten_expr ''bool_and'' e). value_of M x \<noteq> 0) \<longleftrightarrow> value_of M e \<noteq> 0"
  by (cases e) (simp_all add: flatten_expr_def)

lemma or_single:
  "well_sorted e \<Longrightarrow> is_bool e \<Longrightarrow> (\<exists>x\<in>set (flatten_expr ''bool_or'' e). value_of M x \<noteq> 0) \<longleftrightarrow> value_of M e \<noteq> 0"
  by (cases e) (simp_all add: flatten_expr_def)

lemma xor_id:
  assumes "well_sorted l" "well_sorted r" "is_word l" "is_word r"
  shows "well_sorted (xor_with id l r) \<and> is_word (xor_with id l r) \<and>
    value_of M (xor_with id l r) = value_of M l XOR value_of M r"
proof (cases "l = r \<or> l = XConst 0 \<or> r = XConst 0 \<or> const_pair l r \<noteq> None")
  case True
  then show ?thesis using assms by (auto simp: xor_with_def value_simps)
next
  case False
  let ?parts = "flatten_expr ''xor'' l @ flatten_expr ''xor'' r"
  have "foldr (XOR) (map (value_of M) (sort_key expr_repr ?parts)) 0 = foldr (XOR) (map (value_of M) ?parts) 0"
    by (rule foldr_xor_mset) simp
  then have "foldr (XOR) (map (value_of M) (sort_key expr_repr ?parts)) 0 = value_of M l XOR value_of M r"
    by (simp only: map_append foldr_xor_append xor_single)
  moreover have "xor_with id l r = XXor (sort_key expr_repr ?parts)"
  proof -
    have "l \<noteq> r" "l \<noteq> XConst 0" "r \<noteq> XConst 0" "const_pair l r = None" using False by blast+
    then show ?thesis by (simp only: xor_with_def Let_def id_apply if_False option.case)
  qed
  moreover have "\<forall>x\<in>set (sort_key expr_repr ?parts). well_sorted x \<and> is_word x"
    using well_sorted_flatten(1)[OF assms(1,3)] well_sorted_flatten(1)[OF assms(2,4)] by auto
  ultimately show ?thesis by simp
qed

text \<open>The sum: constants are added up, the other terms are kept.\<close>

lemma add_constant_foldl: "u32 (foldl add_constant k es) = u32 (k + sum_list (map (value_of M) (filter is_const es)))"
proof (induction es arbitrary: k)
  case (Cons e es)
  show ?case
  proof (cases "is_const e")
    case True
    then obtain n where "e = XConst n" by (cases e) auto
    with Cons show ?thesis by (simp add: value_simps) (metis (no_types, lifting) add.assoc u32_word_simps(3,4,5))
  next
    case False
    then show ?thesis using Cons by (cases e) auto
  qed
qed simp

lemma sum_partition:
  fixes g :: "sx \<Rightarrow> int"
  shows "sum_list (map g es) = sum_list (map g (filter (\<lambda>t. \<not> P t) es)) + sum_list (map g (filter P es))"
  by (induction es) auto

lemma add_parts_id:
  assumes "\<forall>p\<in>set parts. well_sorted p \<and> is_word p"
  shows "stands_for (add_parts_with id parts) (XAdd parts)"
proof -
  define es where "es = add_terms id parts"
  define k where "k = foldl add_constant 0 es"
  define ts where "ts = filter (\<lambda>t. \<not> is_const t) es @ (if k \<noteq> 0 then [XConst k] else [])"
  have es: "\<forall>e\<in>set es. well_sorted e \<and> is_word e"
    using assms well_sorted_flatten(2) by (auto simp: es_def add_terms_def)
  then have ts: "\<forall>t\<in>set ts. well_sorted t \<and> is_word t" by (auto simp: ts_def)
  have parts: "u32 (sum_list (map (value_of M) es)) = u32 (sum_list (map (value_of M) parts))" for M
    unfolding es_def add_terms_def id_def
  proof (induction parts)
    case (Cons p ps)
    then show ?case
      using add_single[of M p] by simp (metis (no_types, lifting) u32_word_simps(3))
  qed simp
  have sum: "u32 (sum_list (map (value_of M) ts)) = u32 (sum_list (map (value_of M) parts))" for M
  proof -
    have k: "u32 k = u32 (sum_list (map (value_of M) (filter is_const es)))"
      using add_constant_foldl[of 0 es M] by (simp add: k_def)
    have "u32 (sum_list (map (value_of M) ts)) = u32 (sum_list (map (value_of M) (filter (\<lambda>t. \<not> is_const t) es)) + k)"
      by (auto simp: ts_def value_simps)
    also have "\<dots> = u32 (sum_list (map (value_of M) es))"
      by (metis k sum_partition u32_word_simps(4))
    finally show ?thesis using parts by simp
  qed
  have perm: "sum_list (map (value_of M) (sort_key expr_repr ts)) = sum_list (map (value_of M) ts)" for M
    by (simp flip: sum_mset_sum_list)
  have eq: "add_parts_with id parts =
      (if ts = [] then XConst 0 else case sort_key expr_repr ts of [t] \<Rightarrow> t | ordered \<Rightarrow> XAdd ordered)"
    by (simp add: add_parts_with_def Let_def es_def k_def ts_def)
  consider "ts = []" | t where "sort_key expr_repr ts = [t]" | "ts \<noteq> []" "\<And>t. sort_key expr_repr ts \<noteq> [t]" by blast
  then show ?thesis
  proof cases
    case 1
    then show ?thesis using sum by (auto simp: eq stands_for_def)
  next
    case 2
    then have t: "set ts = {t}" "ts \<noteq> []" by (metis set_sort list.simps(15) set_empty2, auto)
    have "value_of M t = u32 (sum_list (map (value_of M) parts))" for M
      using ts t perm[of M] sum[of M] value_range[of t M] by (simp add: 2)
    then show ?thesis using t ts by (auto simp: eq 2 stands_for_def)
  next
    case 3
    then have "add_parts_with id parts = XAdd (sort_key expr_repr ts)"
      by (auto simp: eq split: list.split)
    then show ?thesis using ts sum perm by (simp add: stands_for_def)
  qed
qed

text \<open>Conjunction and disjunction.\<close>

lemma and_terms:
  assumes "\<forall>v\<in>set vs. well_sorted v \<and> is_bool v"
  shows "case bool_terms id ''bool_and'' XFalse XTrue vs of
      None \<Rightarrow> \<exists>v\<in>set vs. value_of M v = 0
    | Some ts \<Rightarrow> (\<forall>t\<in>set ts. well_sorted t \<and> is_bool t) \<and>
        ((\<forall>t\<in>set ts. value_of M t \<noteq> 0) \<longleftrightarrow> (\<forall>v\<in>set vs. value_of M v \<noteq> 0))"
  using assms
proof (induction vs)
  case (Cons v vs)
  then show ?case
    using and_single[of v M] well_sorted_flatten(3)[of v]
    by (auto simp: Let_def split: option.split_asm)
qed simp

lemma or_terms:
  assumes "\<forall>v\<in>set vs. well_sorted v \<and> is_bool v"
  shows "case bool_terms id ''bool_or'' XTrue XFalse vs of
      None \<Rightarrow> \<exists>v\<in>set vs. value_of M v \<noteq> 0
    | Some ts \<Rightarrow> (\<forall>t\<in>set ts. well_sorted t \<and> is_bool t) \<and>
        ((\<exists>t\<in>set ts. value_of M t \<noteq> 0) \<longleftrightarrow> (\<exists>v\<in>set vs. value_of M v \<noteq> 0))"
  using assms
proof (induction vs)
  case (Cons v vs)
  then show ?case
    using or_single[of v M] well_sorted_flatten(4)[of v]
    by (auto simp: Let_def split: option.split_asm)
qed simp

lemma bool_and_id:
  assumes "well_sorted (XBoolAnd vs)" shows "stands_for (bool_and_with id vs) (XBoolAnd vs)"
  unfolding stands_for_def
proof (intro conjI allI)
  show "well_sorted (bool_and_with id vs)" "sort_of (bool_and_with id vs) = sort_of (XBoolAnd vs)"
    using and_terms[of vs] assms
    by (auto simp: bool_and_with_def set_insort_key split: option.split list.split)
  show "value_of M (bool_and_with id vs) = value_of M (XBoolAnd vs)" for M
    using and_terms[of vs M] assms
    by (auto simp: bool_and_with_def set_insort_key split: option.split list.split) (metis value_bool)+
qed

lemma bool_or_id:
  assumes "well_sorted (XBoolOr vs)" shows "stands_for (bool_or_with id vs) (XBoolOr vs)"
  unfolding stands_for_def
proof (intro conjI allI)
  show "well_sorted (bool_or_with id vs)" "sort_of (bool_or_with id vs) = sort_of (XBoolOr vs)"
    using or_terms[of vs] assms
    by (auto simp: bool_or_with_def set_insort_key split: option.split list.split)
  show "value_of M (bool_or_with id vs) = value_of M (XBoolOr vs)" for M
    using or_terms[of vs M] assms
    by (auto simp: bool_or_with_def set_insort_key split: option.split list.split) (metis value_bool)+
qed

text \<open>Equality and exclusive or of conditions.\<close>

lemma not_value: "well_sorted e \<Longrightarrow> is_bool e \<Longrightarrow> of_bool (value_of M e = 0) = 1 - value_of M e"
  using value_bool[of e M] by auto

section \<open>The interface of a canonicaliser\<close>

text \<open>What a constructor needs of the function that canonicalises its operands.\<close>

locale normaliser =
  fixes c :: "sx \<Rightarrow> sx"
  assumes sound: "well_sorted e \<Longrightarrow> stands_for (c e) e"
begin

lemma keeps [simp]:
  "well_sorted e \<Longrightarrow> well_sorted (c e)" "well_sorted e \<Longrightarrow> sort_of (c e) = sort_of e"
  "well_sorted e \<Longrightarrow> value_of M (c e) = value_of M e"
  using sound by (auto simp: stands_for_def)

lemma binary:
  assumes id: "\<And>l r. well_sorted (op l r) \<Longrightarrow> stands_for (f id l r) (op l r)"
    and f: "\<And>l r. f c l r = f id (c l) (c r)"
    and op: "stands_for (op (c a) (c b)) (op a b)"
  shows "stands_for (f c a b) (op a b)"
  unfolding f using id op by (metis stands_forD(1) stands_for_trans)

lemma sub: "well_sorted (XSub a b) \<Longrightarrow> stands_for (sub_with c a b) (XSub a b)"
  by (rule binary[where op = XSub and f = sub_with, OF sub_id]) (simp_all add: sub_with_def stands_for_def)

lemma mul: "well_sorted (XMul a b) \<Longrightarrow> stands_for (mul_with c a b) (XMul a b)"
  by (rule binary[where op = XMul and f = mul_with, OF mul_id]) (simp_all add: mul_with_def stands_for_def)

lemma and_word: "well_sorted (XAnd a b) \<Longrightarrow> stands_for (and_with c a b) (XAnd a b)"
  by (rule binary[where op = XAnd and f = and_with, OF and_id]) (simp_all add: and_with_def stands_for_def)

lemma or_word: "well_sorted (XOr a b) \<Longrightarrow> stands_for (or_with c a b) (XOr a b)"
  by (rule binary[where op = XOr and f = or_with, OF or_id]) (simp_all add: or_with_def stands_for_def)

lemma shl: "well_sorted (XShl a b) \<Longrightarrow> stands_for (shl_with c a b) (XShl a b)"
  by (rule binary[where op = XShl and f = shl_with, OF shl_id]) (simp_all add: shl_with_def stands_for_def)

lemma lshr: "well_sorted (XLshr a b) \<Longrightarrow> stands_for (lshr_with c a b) (XLshr a b)"
  by (rule binary[where op = XLshr and f = lshr_with, OF lshr_id]) (simp_all add: lshr_with_def stands_for_def)

lemma not_word: "well_sorted (XBvnot a) \<Longrightarrow> stands_for (not_with c a) (XBvnot a)"
  using not_id[of "c a"] by (simp add: not_with_def stands_for_def)

lemma neg: "well_sorted (XNeg a) \<Longrightarrow> stands_for (neg_with c a) (XNeg a)"
  using neg_id[of "c a"] by (simp add: neg_with_def stands_for_def)

lemma ite: "well_sorted (XIte p a b) \<Longrightarrow> stands_for (ite_with c p a b) (XIte p a b)"
  using ite_id[of "c p" "c a" "c b"] by (auto simp add: ite_with_def stands_for_def)

lemma bool_not: "well_sorted (XNot a) \<Longrightarrow> stands_for (bool_not_with c a) (XNot a)"
  using bool_not_id[of "c a"] by (simp add: bool_not_with_def stands_for_def)

lemma xor_word:
  assumes "well_sorted a" "well_sorted b" "is_word a" "is_word b"
  shows "well_sorted (xor_with c a b) \<and> is_word (xor_with c a b) \<and>
    value_of M (xor_with c a b) = value_of M a XOR value_of M b"
  using xor_id[of "c a" "c b" M] assms by (simp add: xor_with_def)

lemma add_parts:
  assumes "\<forall>p\<in>set parts. well_sorted p \<and> is_word p"
  shows "stands_for (add_parts_with c parts) (XAdd parts)"
proof -
  have "add_parts_with c parts = add_parts_with id (map c parts)"
    by (simp add: add_parts_with_def add_terms_def comp_def)
  moreover have "map (value_of M) (map c parts) = map (value_of M) parts" for M
    using assms by auto
  then have "value_of M (XAdd (map c parts)) = value_of M (XAdd parts)" for M
    by (simp only: value_of.simps)
  then have "stands_for (XAdd (map c parts)) (XAdd parts)"
    using assms by (auto simp: stands_for_def)
  ultimately show ?thesis
    using add_parts_id[of "map c parts"] assms by (auto intro: stands_for_trans)
qed

lemma bool_terms_map: "bool_terms c operator p q vs = bool_terms id operator p q (map c vs)"
  by (induction vs) (simp_all add: Let_def)

lemma bool_and_many:
  assumes "well_sorted (XBoolAnd vs)" shows "stands_for (bool_and_with c vs) (XBoolAnd vs)"
proof -
  have "bool_and_with c vs = bool_and_with id (map c vs)" by (simp add: bool_and_with_def bool_terms_map)
  with bool_and_id[of "map c vs"] assms show ?thesis by (auto simp: stands_for_def)
qed

lemma bool_or_many:
  assumes "well_sorted (XBoolOr vs)" shows "stands_for (bool_or_with c vs) (XBoolOr vs)"
proof -
  have "bool_or_with c vs = bool_or_with id (map c vs)" by (simp add: bool_or_with_def bool_terms_map)
  with bool_or_id[of "map c vs"] assms show ?thesis by (auto simp: stands_for_def)
qed

lemma truth_value: "c a = XTrue \<Longrightarrow> well_sorted a \<Longrightarrow> value_of M a = 1" "c a = XFalse \<Longrightarrow> well_sorted a \<Longrightarrow> value_of M a = 0"
  using keeps(3)[of a M] by simp_all

lemma equal_value: "c a = c b \<Longrightarrow> well_sorted a \<Longrightarrow> well_sorted b \<Longrightarrow> value_of M a = value_of M b"
  using keeps(3)[of a M] keeps(3)[of b M] by simp

lemma not_operand:
  assumes "well_sorted a" "is_bool a"
  shows "well_sorted (bool_not_with c (c a))" "is_bool (bool_not_with c (c a))"
    "value_of M (bool_not_with c (c a)) = of_bool (value_of M a = 0)"
  using bool_not[of "c a"] assms by (simp_all add: stands_for_def)

lemma constant_sort: "well_sorted a \<Longrightarrow> c a = XTrue \<or> c a = XFalse \<Longrightarrow> is_bool a"
  by (metis keeps(2) sort_of.simps(6,7))

lemma bool_xor: "well_sorted (XBoolXor a b) \<Longrightarrow> stands_for (bool_xor_with c a b) (XBoolXor a b)"
  using truth_value[of a] truth_value[of b] equal_value[of a b]
  by (auto simp: stands_for_def bool_xor_with_def in_repr_order_def Let_def not_operand)

lemma bool_eq:
  assumes "well_sorted (XBoolEq a b)" shows "stands_for (bool_eq_with c a b) (XBoolEq a b)"
proof (cases "c a \<in> {XTrue, XFalse} \<or> c b \<in> {XTrue, XFalse}")
  case True
  then have "is_bool a" "is_bool b" using assms constant_sort[of a] constant_sort[of b] by auto
  then show ?thesis
    using assms truth_value[of a] truth_value[of b] equal_value[of a b] value_bool[of a] value_bool[of b] True
    by (auto simp: stands_for_def bool_eq_with_def in_repr_order_def Let_def not_operand) (metis one_neq_zero)+
next
  case False
  then show ?thesis
    using assms equal_value[of a b]
    by (auto simp: stands_for_def bool_eq_with_def in_repr_order_def Let_def)
qed

lemma mask_of_canonical:
  assumes "well_sorted v" "is_word v" shows "low_bits (mask_canonical c v w) w v"
proof (cases "w \<ge> 32")
  case True
  then show ?thesis using assms by (simp add: mask_canonical_def low_bits_def)
next
  case False
  have "low_bits (and_with c v (XConst (low_mask w))) w v"
    using and_word[of v "XConst (low_mask w)"] assms False
    by (auto simp: low_bits_def stands_for_def low_mask_u32 and_low_mask)
  moreover have "low_bits (XConst (n AND low_mask w)) w v" if "v = XConst n" for n
    using mask_const_low_bits[of w n] False that by simp
  ultimately show ?thesis
    using False masked_low_bits[of w v] assms
    by (cases "\<exists>n. v = XConst n") (auto simp: mask_canonical_def)
qed

lemma mask_canonical_operand:
  "well_sorted v \<Longrightarrow> is_word v \<Longrightarrow> low_bits (mask_canonical c (c v) w) w v"
  using mask_of_canonical[of "c v" w] by (simp add: low_bits_def)

lemma mask_word:
  assumes "well_sorted v" "is_word v" "0 < w" shows "low_bits (mask_with c v w) w v"
  using assms
proof (induction v)
  case (XSext w' v)
  show ?case
  proof (cases "w' = w")
    case True
    then have "low_bits (mask_with c v w) w v" using XSext by simp
    with True XSext.prems show ?thesis
      using low_extended[of w] value_range[of v] by (auto simp: low_bits_def signed_value_32)
  next
    case False
    with mask_canonical_operand[of "XSext w' v"] XSext.prems show ?thesis by simp
  qed
qed (use mask_canonical_operand in \<open>simp_all del: well_sorted.simps sort_of.simps\<close>)

lemma sign_extend_word:
  assumes "well_sorted v" "is_word v" "0 < w" "w \<le> 32"
  shows "stands_for (sign_extend_with c v w) (XSext w v)"
proof -
  define m where "m = mask_with c v w"
  have m: "low_bits m w v" using mask_word assms by (simp add: m_def)
  have sg: "u32 (signed_value (nat w) (value_of M m)) = u32 (signed_value (nat w) (value_of M v))" for M
    using m assms signed_value_low[of w] by (cases "w = 32") (auto simp: low_bits_def)
  show ?thesis
  proof (cases "w = 32")
    case True
    then have "sign_extend_with c v w = m" by (simp add: sign_extend_with_def m_def)
    with True m assms show ?thesis by (simp add: stands_for_def low_bits_def signed_value_32 value_range)
  next
    case False
    show ?thesis
    proof (cases "\<exists>n. m = XConst n")
      case True
      then obtain n where n: "m = XConst n" ..
      then have "value_of M (sign_extend_with c v w) = u32 (signed_value (nat w) n)" for M
        using extended_const[of w n] False assms by (simp add: sign_extend_with_def m_def[symmetric] Let_def)
      moreover have "signed_value (nat w) n = signed_value (nat w) (u32 n)"
        using assms by (simp add: signed_value_u32)
      ultimately show ?thesis
        using n False assms sg by (simp add: stands_for_def sign_extend_with_def m_def[symmetric] Let_def)
    next
      case no: False
      then have "sign_extend_with c v w = XSext w m"
        using False assms by (simp add: sign_extend_with_def m_def[symmetric] Let_def)
      then show ?thesis using m sg assms by (simp add: stands_for_def low_bits_def)
    qed
  qed
qed

lemma ashr:
  assumes "well_sorted (XAshr w a b)" shows "stands_for (ashr_with c a b w) (XAshr w a b)"
proof -
  define m where "m = mask_with c a w"
  have w: "0 < w" "w \<le> 32" using assms by auto
  have m: "low_bits m w a" using mask_word assms by (simp add: m_def)
  have sg: "signed_value (nat w) (value_of M m) = signed_value (nat w) (value_of M a)" for M
    using m w signed_value_low[of w] by (cases "w = 32") (auto simp: low_bits_def)
  have low: "take_bit (nat w) (signed_value (nat w) (value_of M a)) = value_of M m" for M
  proof (cases "w = 32")
    case True
    then show ?thesis
      using m assms value_range[of a M] by (simp add: low_bits_def signed_value_def take_bit_signed_take_bit u32_ok_def)
  next
    case False
    then show ?thesis
      using m w by (simp add: low_bits_def signed_value_def take_bit_signed_take_bit)
  qed
  consider "c b = XConst 0" | x y where "m = XConst x" "c b = XConst y" "y \<noteq> 0"
    | "c b \<noteq> XConst 0" "const_pair m (c b) = None"
    by (metis const_pair_Some not_None_eq surj_pair)
  then show ?thesis
  proof cases
    case 1
    then have "value_of M b = 0" for M using keeps(3)[of b M] assms by simp
    with 1 m low assms show ?thesis
      by (simp add: ashr_with_def m_def[symmetric] Let_def stands_for_def low_bits_def)
  next
    case 2
    have "value_of M b = u32 y" for M using keeps(3)[of b M] 2 assms by simp
    then have "value_of M b AND 31 = y AND 31" for M by (simp add: u32_and5)
    moreover have "signed_value (nat w) (value_of M a) = signed_value (nat w) x" for M
      using sg[of M] 2 w by (simp add: signed_value_u32)
    moreover have "ashr_with c a b w = XConst (drop_bit (nat (y AND 31)) (signed_value (nat w) x) AND low_mask w)"
      using 2 folded_sign[OF w(1), of x] by (simp add: ashr_with_def m_def[symmetric] Let_def)
    ultimately show ?thesis
      using w by (simp add: stands_for_def and_low_mask u32_ok_ashr)
  next
    case 3
    then have "ashr_with c a b w = XAshr w m (c b)" by (simp add: ashr_with_def m_def[symmetric] Let_def)
    with m sg assms show ?thesis by (simp add: stands_for_def low_bits_def)
  qed
qed

lemma arg_of_operand [simp]: "well_sorted e \<Longrightarrow> arg_of (c e) v = arg_of e v"
  by (simp add: arg_of_def)

lemma node:
  assumes "well_sorted (XNode t xs)" shows "stands_for (XNode t (map c xs)) (XNode t xs)"
proof -
  have "map (\<lambda>x. arg_of x (value_of M x)) (map c xs) = map (\<lambda>x. arg_of x (value_of M x)) xs" for M
    using assms by simp
  then have "value_of M (XNode t (map c xs)) = value_of M (XNode t xs)" for M
    by (simp only: value_of.simps)
  with assms show ?thesis by (auto simp: stands_for_def)
qed

lemma write_bits:
  assumes "well_sorted (XWriteBits b pos w v)" "\<And>M. value_of M b' = value_of M b" "well_sorted b'" "is_word b'"
  shows "stands_for (write_bits_with c b' pos w v) (XWriteBits b pos w v)"
proof -
  define m where "m = mask_with c v w"
  have m: "low_bits m w v" using mask_word assms(1) by (simp add: m_def)
  have same: "push_bit (nat pos) (value_of M m) AND field_mask pos w = push_bit (nat pos) (value_of M v) AND field_mask pos w" for M
  proof (cases "w \<ge> 32")
    case False
    then have "value_of M m = take_bit (nat w) (value_of M v)" using m by (simp add: low_bits_def)
    then show ?thesis
      by (intro bit_eqI) (auto simp: field_mask_def low_mask_eq mask_simps bit_simps)
  qed (use m in \<open>simp add: low_bits_def\<close>)
  show ?thesis
  proof (cases "\<exists>d u. b' = XWriteBits d pos w u")
    case True
    then obtain d u where b': "b' = XWriteBits d pos w u" by blast
    have clear: "((x AND NOT f) OR (y AND f)) AND NOT f = x AND NOT f" for x y f :: int
      by (rule bit_eqI) (auto simp: bit_simps)
    have "write_bits_with c b' pos w v = XWriteBits d pos w m"
      by (simp add: write_bits_with_def b' m_def)
    then show ?thesis
      using assms m same by (auto simp: stands_for_def low_bits_def b' clear simp flip: assms(2))
  next
    case False
    then have "write_bits_with c b' pos w v = XWriteBits b' pos w m"
      by (cases b') (auto simp: write_bits_with_def Let_def m_def)
    with assms m same show ?thesis by (simp add: stands_for_def low_bits_def)
  qed
qed

lemma xor_fold:
  assumes "\<forall>x\<in>set xs. well_sorted x \<and> is_word x" "well_sorted r" "is_word r"
  defines "e \<equiv> foldl (\<lambda>result part. xor_with c result (c part)) r xs"
  shows "well_sorted e \<and> is_word e \<and> (\<forall>M. value_of M e = value_of M r XOR value_of M (XXor xs))"
  using assms(1-3) unfolding e_def
proof (induction xs arbitrary: r)
  case (Cons x xs)
  have "well_sorted (xor_with c r (c x)) \<and> is_word (xor_with c r (c x))"
    "\<And>M. value_of M (xor_with c r (c x)) = value_of M r XOR value_of M x"
    using xor_word[of r "c x"] Cons.prems by auto
  with Cons show ?case by (simp add: xor.assoc)
qed simp

text \<open>Every case of the normal form: the operands are canonicalised before the constructor does it again.\<close>

lemma step: "well_sorted e \<Longrightarrow> stands_for (canonical_step c e) e"
proof (cases e)
  case (XAdd xs)
  then show "well_sorted e \<Longrightarrow> ?thesis" using add_parts[of xs] by (simp add: canonical_step_def)
next
  case (XXor xs)
  then show "well_sorted e \<Longrightarrow> ?thesis"
    using xor_fold[of xs "XConst 0"] by (simp add: canonical_step_def stands_for_def)
next
  case (XBoolAnd xs)
  then show "well_sorted e \<Longrightarrow> ?thesis"
    using bool_and_many[of "map c xs"] by (auto simp: canonical_step_def stands_for_def)
next
  case (XBoolOr xs)
  then show "well_sorted e \<Longrightarrow> ?thesis"
    using bool_or_many[of "map c xs"] by (auto simp: canonical_step_def stands_for_def)
next
  case (XNode t xs)
  then show "well_sorted e \<Longrightarrow> ?thesis" using node[of t xs] by (simp add: canonical_step_def)
next
  case (XWriteBits b pos w v)
  then show "well_sorted e \<Longrightarrow> ?thesis"
    using write_bits[of "c b" pos w "c v" "c b"] by (simp add: canonical_step_def stands_for_def)
next
  case (XBoolEq a b)
  then show "well_sorted e \<Longrightarrow> ?thesis"
    using bool_eq[of "c a" "c b"] by (auto simp: canonical_step_def stands_for_def)
next
  case (XIte p a b)
  then show "well_sorted e \<Longrightarrow> ?thesis"
    using ite[of "c p" "c a" "c b"] by (auto simp: canonical_step_def stands_for_def)
qed (use sub mul and_word or_word shl lshr ashr sign_extend_word not_word neg bool_not bool_xor
      in \<open>auto simp: canonical_step_def stands_for_def value_simps\<close>)

end

section \<open>The normal form\<close>

lemma canonical_normaliser: "normaliser (canonical n)"
proof (induction n)
  case (Suc n)
  then show ?case by (auto intro: normaliser.intro normaliser.step)
qed (simp add: normaliser_def)

interpretation nf: normaliser canonical_expr
  unfolding canonical_expr_def by (rule normaliser.intro) (rule normaliser.sound[OF canonical_normaliser])

end
