(* ===== verification/Symbolic_Fuel.thy ===== *)
theory Symbolic_Fuel
  imports Symbolic_Value
begin

text \<open>
  The nesting that \<open>canonical_expr\<close> allows is enough: more of it changes nothing, so the normal form is
  the function that the mutually recursive code computes.
\<close>

section \<open>How the constructors use the canonicaliser\<close>

lemma needs_pos [simp]: "0 < needs e" "Suc 0 \<le> needs e"
  by (cases e; simp)+

text \<open>What an operand adds to an exclusive or.\<close>

definition xor_weight :: "sx \<Rightarrow> nat" where
  "xor_weight e = sum_list (map (\<lambda>t. Suc (needs t)) (flatten_expr ''xor'' e))"

lemma flatten_xor [simp]: "flatten_expr ''xor'' (XXor xs) = xs" "flatten_expr t (XConst k) = [XConst k]"
  by (simp_all add: flatten_expr_def)

lemma xor_weight_XXor [simp]: "xor_weight (XXor xs) = sum_list (map (\<lambda>t. Suc (needs t)) xs)"
  by (simp add: xor_weight_def flatten_expr_def)

lemma xor_weight_le: "xor_weight e \<le> Suc (needs e)" "needs e \<le> Suc (xor_weight e)"
  by (cases e; simp add: xor_weight_def flatten_expr_def)+

lemma xor_weight_other: "\<forall>xs. e \<noteq> XXor xs \<Longrightarrow> xor_weight e = Suc (needs e)"
  by (cases e) (simp_all add: xor_weight_def flatten_expr_def)

definition masked_needs :: "int \<Rightarrow> sx \<Rightarrow> nat" where
  "masked_needs w e = needs e + mask_cost w e"

lemma sum_list_le: "(\<And>x. x \<in> set xs \<Longrightarrow> f x \<le> (g x::nat)) \<Longrightarrow> sum_list (map f xs) \<le> sum_list (map g xs)"
  by (rule sum_list_mono)

lemma sum_Suc: "sum_list (map needs xs) \<le> sum_list (map (\<lambda>x. Suc (needs x)) xs)"
  by (rule sum_list_mono) simp

lemma sum_list_sort: "sum_list (map f (sort_key g xs)) = (sum_list (map f xs) :: nat)"
  by (simp flip: sum_mset_sum_list)

lemma sum_list_insort: "sum_list (map f (insort_key g x xs)) = f x + (sum_list (map f xs) :: nat)"
  by (simp flip: sum_mset_sum_list)

lemma element_le: "x \<in> set xs \<Longrightarrow> (f x :: nat) \<le> sum_list (map f xs)"
  by (rule member_le_sum_list) auto

lemma in_order_needs: "needs (in_repr_order XAnd l r) = needs (XAnd l r)" "needs (in_repr_order XOr l r) = needs (XOr l r)"
  "needs (in_repr_order XBoolXor l r) = needs (XBoolXor l r)" "needs (in_repr_order XBoolEq l r) = needs (XBoolEq l r)"
  by (simp_all add: in_repr_order_def)

locale shrinking =
  fixes c c' :: "sx \<Rightarrow> sx" and n :: nat
  assumes agree: "needs x \<le> n \<Longrightarrow> c' x = c x"
    and less: "needs x \<le> n \<Longrightarrow> needs (c x) \<le> needs x"
    and xors: "needs (XXor xs) \<le> n \<Longrightarrow> c (XXor xs) = XConst 0 \<or> xor_weight (c (XXor xs)) \<le> xor_weight (XXor xs)"
    and masks: "needs x \<le> n \<Longrightarrow> masked w x \<Longrightarrow> w < 32 \<Longrightarrow> masked w (c x) \<or> is_const (c x)"
    and constant_kept: "1 \<le> n \<Longrightarrow> c (XConst k) = XConst (k AND 0xFFFFFFFF)"
begin

lemma twice: "needs x \<le> n \<Longrightarrow> needs (c (c x)) \<le> needs x" "needs x \<le> n \<Longrightarrow> c' (c x) = c (c x)"
  "needs x \<le> n \<Longrightarrow> needs (c x) \<le> n"
  using less agree by (meson order_trans)+

lemma two_operands:
  assumes "needs a + needs b \<le> n"
  shows "needs (c a) \<le> needs a" "needs (c b) \<le> needs b" "c' a = c a" "c' b = c b" "needs a \<le> n" "needs b \<le> n"
  using assms less[of a] less[of b] agree by simp_all

lemma sub: "needs a + needs b \<le> n \<Longrightarrow> sub_with c' a b = sub_with c a b \<and> needs (sub_with c a b) \<le> Suc (needs a + needs b)"
  using two_operands[of a b] by (auto simp: sub_with_def Let_def split: option.split)

lemma mul: "needs a + needs b \<le> n \<Longrightarrow> mul_with c' a b = mul_with c a b \<and> needs (mul_with c a b) \<le> Suc (needs a + needs b)"
  using two_operands[of a b] by (auto simp: mul_with_def Let_def split: option.split)

lemma and_word: "needs a + needs b \<le> n \<Longrightarrow> and_with c' a b = and_with c a b \<and> needs (and_with c a b) \<le> Suc (needs a + needs b)"
  using two_operands[of a b] by (auto simp: and_with_def Let_def in_order_needs split: option.split)

lemma or_word: "needs a + needs b \<le> n \<Longrightarrow> or_with c' a b = or_with c a b \<and> needs (or_with c a b) \<le> Suc (needs a + needs b)"
  using two_operands[of a b] by (auto simp: or_with_def Let_def in_order_needs split: option.split)

lemma shl: "needs a + needs b \<le> n \<Longrightarrow> shl_with c' a b = shl_with c a b \<and> needs (shl_with c a b) \<le> Suc (needs a + needs b)"
  using two_operands[of a b] by (auto simp: shl_with_def Let_def split: option.split)

lemma lshr: "needs a + needs b \<le> n \<Longrightarrow> lshr_with c' a b = lshr_with c a b \<and> needs (lshr_with c a b) \<le> Suc (needs a + needs b)"
  using two_operands[of a b] by (auto simp: lshr_with_def Let_def split: option.split)

lemma not_word: "needs a \<le> n \<Longrightarrow> not_with c' a = not_with c a \<and> needs (not_with c a) \<le> Suc (needs a)"
  using agree[of a] less[of a] by (cases "c a") (auto simp: not_with_def)

lemma neg: "needs a \<le> n \<Longrightarrow> neg_with c' a = neg_with c a \<and> needs (neg_with c a) \<le> Suc (needs a)"
  using agree[of a] less[of a] by (cases "c a") (auto simp: neg_with_def)

lemma bool_not: "needs a \<le> n \<Longrightarrow> bool_not_with c' a = bool_not_with c a \<and> needs (bool_not_with c a) \<le> Suc (needs a)"
  using agree[of a] less[of a] by (cases "c a") (auto simp: bool_not_with_def)

lemma ite: "needs p + needs a + needs b \<le> n \<Longrightarrow>
    ite_with c' p a b = ite_with c p a b \<and> needs (ite_with c p a b) \<le> Suc (needs p + needs a + needs b)"
  using agree[of p] agree[of a] agree[of b] less[of p] less[of a] less[of b] by (auto simp: ite_with_def Let_def)

lemma bool_xor: "needs a + needs b \<le> n \<Longrightarrow>
    bool_xor_with c' a b = bool_xor_with c a b \<and> needs (bool_xor_with c a b) \<le> Suc (needs a + needs b)"
  using two_operands[of a b] bool_not[of "c a"] bool_not[of "c b"]
  by (auto simp: bool_xor_with_def Let_def in_order_needs)

lemma bool_eq: "needs a + needs b \<le> n \<Longrightarrow>
    bool_eq_with c' a b = bool_eq_with c a b \<and> needs (bool_eq_with c a b) \<le> Suc (needs a + needs b)"
  using two_operands[of a b] bool_not[of "c a"] bool_not[of "c b"]
  by (auto simp: bool_eq_with_def Let_def in_order_needs)

lemma list_agree: "\<forall>x\<in>set xs. needs x \<le> n \<Longrightarrow> map c' xs = map c xs"
  using agree by auto

lemma list_less: "\<forall>x\<in>set xs. needs x \<le> n \<Longrightarrow> sum_list (map needs (map c xs)) \<le> sum_list (map needs xs)"
  using less by (auto simp: comp_def intro!: sum_list_le)

lemma element_bound: "sum_list (map needs xs) \<le> n \<Longrightarrow> \<forall>x\<in>set xs. needs x \<le> n"
  using element_le[of _ xs needs] by (meson order_trans)

text \<open>Sums.\<close>

lemma flatten_needs: "sum_list (map needs (flatten_expr operator e)) \<le> needs e"
  using sum_Suc by (cases e) (simp_all add: flatten_expr_def le_SucI)

lemma terms_needs:
  "sum_list (map needs (filter (\<lambda>t. \<not> is_const t) es)) + (if foldl add_constant 0 es \<noteq> 0 then 1 else 0) \<le> sum_list (map needs es)"
proof (cases "\<exists>e\<in>set es. is_const e")
  case True
  then obtain e where e: "e \<in> set (filter is_const es)" by auto
  have "1 \<le> needs e" by simp
  also have "needs e \<le> sum_list (map needs (filter is_const es))" by (rule element_le[OF e])
  finally have "1 \<le> sum_list (map needs (filter is_const es))" .
  moreover have "sum_list (map needs es) = sum_list (map needs (filter (\<lambda>t. \<not> is_const t) es)) + sum_list (map needs (filter is_const es))"
    by (induction es) auto
  ultimately show ?thesis by auto
next
  case False
  then have "foldl add_constant k es = k" for k
  proof (induction es arbitrary: k)
    case (Cons e es)
    then show ?case by (cases e) auto
  qed simp
  moreover have "filter (\<lambda>t. \<not> is_const t) es = es" using False by (auto simp: filter_id_conv)
  ultimately show ?thesis by simp
qed

lemma add_parts:
  assumes "sum_list (map needs xs) \<le> n"
  shows "add_parts_with c' xs = add_parts_with c xs \<and> needs (add_parts_with c xs) \<le> Suc (sum_list (map needs xs))"
proof -
  have b: "\<forall>x\<in>set xs. needs x \<le> n" using element_bound assms .
  then have same: "add_terms c' xs = add_terms c xs"
    using agree by (auto simp: add_terms_def intro!: arg_cong[where f = concat])
  define es where "es = add_terms c xs"
  define ts where "ts = filter (\<lambda>t. \<not> is_const t) es @ (if foldl add_constant 0 es \<noteq> 0 then [XConst (foldl add_constant 0 es)] else [])"
  have "sum_list (map needs es) \<le> sum_list (map needs xs)"
    unfolding es_def add_terms_def using b
  proof (induction xs)
    case (Cons x xs)
    then show ?case
      using flatten_needs[of "''add''" "c x"] less[of x] by simp
  qed simp
  then have ts: "sum_list (map needs ts) \<le> sum_list (map needs xs)"
    using terms_needs[of es] by (auto simp: ts_def)
  have eq: "add_parts_with c xs =
      (if ts = [] then XConst 0 else case sort_key expr_repr ts of [t] \<Rightarrow> t | ordered \<Rightarrow> XAdd ordered)"
    by (simp add: add_parts_with_def Let_def es_def ts_def)
  have "needs (case sort_key expr_repr ts of [t] \<Rightarrow> t | ordered \<Rightarrow> XAdd ordered) \<le> Suc (sum_list (map needs (sort_key expr_repr ts)))"
    by (auto split: list.split)
  then show ?thesis using ts same by (simp add: eq add_parts_with_def[of c'] sum_list_sort)
      (simp add: add_parts_with_def Let_def es_def ts_def)
qed

text \<open>Exclusive or, one operand after another.\<close>

definition xor_bound :: "nat \<Rightarrow> sx \<Rightarrow> bool" where
  "xor_bound k e \<longleftrightarrow> e = XConst 0 \<or> xor_weight e \<le> k"

lemma xor_bound_needs: "xor_bound k e \<Longrightarrow> needs e \<le> Suc k"
  using xor_weight_le(2)[of e] by (auto simp: xor_bound_def)

lemma xor_bound_canonical:
  assumes "xor_bound k e" "needs e \<le> n" "1 \<le> n" shows "xor_bound k (c e)"
proof (cases "e = XConst 0")
  case True
  with assms constant_kept show ?thesis by (simp add: xor_bound_def)
next
  case False
  then have k: "xor_weight e \<le> k" using assms by (simp add: xor_bound_def)
  show ?thesis
  proof (cases "\<exists>xs. e = XXor xs")
    case True
    then obtain xs where e: "e = XXor xs" ..
    from xors[of xs] assms(2) e have "c e = XConst 0 \<or> xor_weight (c e) \<le> xor_weight e" by simp
    with k show ?thesis by (auto simp: xor_bound_def)
  next
    case False
    then have "xor_weight (c e) \<le> xor_weight e"
      using xor_weight_other[of e] xor_weight_le(1)[of "c e"] less[OF assms(2)] by auto
    with k show ?thesis by (simp add: xor_bound_def)
  qed
qed

lemma xor_word:
  assumes "xor_bound k r" "needs r \<le> n" "needs x \<le> n"
  shows "xor_with c' r x = xor_with c r x \<and> xor_bound (k + Suc (needs x)) (xor_with c r x)"
proof -
  have n: "1 \<le> n" using needs_pos(2)[of x] assms(3) by linarith
  have r: "xor_bound k (c r)" using xor_bound_canonical assms n by simp
  have x: "xor_weight (c x) \<le> Suc (needs x)" using xor_weight_le(1)[of "c x"] less[OF assms(3)] by simp
  have "xor_bound (k + Suc (needs x)) (xor_with c r x)"
    using r x by (auto simp: xor_with_def Let_def xor_bound_def xor_weight_def sum_list_sort split: option.split)
  with agree assms show ?thesis by (auto simp: xor_with_def)
qed

lemma xor_fold:
  assumes "xor_bound k r" "k + sum_list (map (\<lambda>x. Suc (needs x)) xs) \<le> n"
  shows "foldl (\<lambda>result part. xor_with c' result (c' part)) r xs = foldl (\<lambda>result part. xor_with c result (c part)) r xs
    \<and> xor_bound (k + sum_list (map (\<lambda>x. Suc (needs x)) xs)) (foldl (\<lambda>result part. xor_with c result (c part)) r xs)"
  using assms
proof (induction xs arbitrary: k r)
  case (Cons x xs)
  have x: "needs x \<le> n" "needs (c x) \<le> needs x" "needs (c x) \<le> n" "needs r \<le> n" "c' x = c x"
    using Cons.prems less[of x] agree[of x] xor_bound_needs[OF Cons.prems(1)] by simp_all
  have step: "xor_with c' r (c x) = xor_with c r (c x)" "xor_bound (k + Suc (needs (c x))) (xor_with c r (c x))"
    using xor_word[of k r "c x"] Cons.prems(1) x by simp_all
  then have "xor_bound (k + Suc (needs x)) (xor_with c r (c x))" using x(2) by (auto simp: xor_bound_def)
  then show ?case using Cons.IH[of "k + Suc (needs x)" "xor_with c r (c x)"] Cons.prems x step by (simp add: add.assoc)
qed simp

text \<open>Masks.\<close>

lemma masked_and_const:
  assumes "w < 32" "1 \<le> n"
  shows "is_const (and_with c v (XConst (low_mask w))) \<or> masked w (and_with c v (XConst (low_mask w)))"
proof -
  have m: "low_mask w AND 0xFFFFFFFF = low_mask w"
    using low_mask_u32[OF assms(1)] by (simp add: mask_u32)
  have "low_mask w \<noteq> 0xFFFFFFFF"
  proof
    assume "low_mask w = 0xFFFFFFFF"
    then have "bit (low_mask w) 31" by simp
    then show False using assms by (simp add: low_mask_eq bit_simps)
  qed
  then show ?thesis
    using assms m constant_kept[OF assms(2), of "low_mask w"]
    by (auto simp: and_with_def Let_def in_repr_order_def masked_def split: option.split)
qed

lemma masked_needs_canonical: "needs v \<le> n \<Longrightarrow> masked_needs w (c v) \<le> masked_needs w v"
proof (cases "w < 32 \<and> masked w v")
  case True
  moreover assume v: "needs v \<le> n"
  moreover have "3 \<le> needs v"
    using True needs_pos(2) by (cases v) (auto simp: masked_def numeral_3_eq_3 intro!: add_mono[of "Suc 0" _ "Suc 0", simplified])
  ultimately show ?thesis
    using masks[of v w] less[of v] by (cases "c v") (auto simp: masked_needs_def mask_cost_def masked_def)
qed (use less[of v] in \<open>auto simp: masked_needs_def mask_cost_def\<close>)

lemma mask_canonical:
  assumes "needs v \<le> n"
  shows "mask_canonical c' v w = mask_canonical c v w \<and> masked_needs w (mask_canonical c v w) \<le> masked_needs w v"
proof (cases "w \<ge> 32 \<or> masked w v \<or> (\<exists>k. v = XConst k)")
  case True
  moreover have "\<not> masked w (XConst k)" for k by (simp add: masked_def)
  ultimately show ?thesis
    by (cases v) (auto simp: mask_canonical_def masked_needs_def mask_cost_def)
next
  case False
  have n: "1 \<le> n" using needs_pos(2)[of v] assms by linarith
  have m: "needs (c (XConst (low_mask w))) = 1" "c' (XConst (low_mask w)) = c (XConst (low_mask w))"
    using constant_kept agree[of "XConst (low_mask w)"] n by simp_all
  have eq: "mask_canonical c'' v w = and_with c'' v (XConst (low_mask w))" for c''
    using False by (simp add: mask_canonical_def)
  have "and_with c' v (XConst (low_mask w)) = and_with c v (XConst (low_mask w))"
    using agree[OF assms] m by (simp add: and_with_def)
  moreover have "needs (and_with c v (XConst (low_mask w))) \<le> needs v + 2"
    using less[OF assms] m by (auto simp: and_with_def Let_def in_order_needs split: option.split)
  moreover have "is_const (and_with c v (XConst (low_mask w))) \<or> masked w (and_with c v (XConst (low_mask w)))"
    using masked_and_const False n by simp
  ultimately show ?thesis
    using False needs_pos(2)[of v]
    by (cases "and_with c v (XConst (low_mask w))") (auto simp: eq masked_needs_def mask_cost_def)
qed

lemma mask:
  assumes "needs v \<le> n"
  shows "mask_with c' v w = mask_with c v w \<and> masked_needs w (mask_with c v w) \<le> masked_needs w v"
proof -
  have all: "mask_canonical c' (c' v) w = mask_canonical c (c v) w \<and>
      masked_needs w (mask_canonical c (c v) w) \<le> masked_needs w v" if "needs v \<le> n" for v
    using mask_canonical[of "c v" w] twice(3) masked_needs_canonical[of v w] agree that by (metis order_trans)
  show ?thesis using assms
  proof (induction v)
    case (XSext w' v)
    show ?case
    proof (cases "w' = w")
      case True
      then have "mask_with c' v w = mask_with c v w \<and> masked_needs w (mask_with c v w) \<le> masked_needs w v"
        using XSext by simp
      with True show ?thesis by (auto simp: masked_needs_def mask_cost_def masked_def)
    next
      case False
      with all[OF XSext.prems] show ?thesis by simp
    qed
  qed (use all in simp_all)
qed

lemma sign_extend:
  assumes "needs v \<le> n"
  shows "sign_extend_with c' v w = sign_extend_with c v w \<and> needs (sign_extend_with c v w) \<le> Suc (masked_needs w v)"
  using mask[OF assms, of w]
  by (cases "mask_with c v w") (auto simp: sign_extend_with_def Let_def masked_needs_def)

lemma ashr:
  assumes "needs a + needs b \<le> n"
  shows "ashr_with c' a b w = ashr_with c a b w \<and> needs (ashr_with c a b w) \<le> Suc (masked_needs w a + needs b)"
  using mask[of a w] two_operands[OF assms]
  by (auto simp: ashr_with_def Let_def masked_needs_def split: option.split)

lemma write_bits:
  assumes "needs b + needs v \<le> n"
  shows "write_bits_with c' b pos w v = write_bits_with c b pos w v \<and>
    needs (write_bits_with c b pos w v) \<le> Suc (needs b + masked_needs w v)"
  using mask[of v w] two_operands[OF assms]
  by (cases b) (auto simp: write_bits_with_def Let_def masked_needs_def)

text \<open>Conjunction and disjunction.\<close>

lemma bool_terms:
  assumes "sum_list (map needs vs) \<le> n"
  shows "bool_terms c' operator p q vs = bool_terms c operator p q vs \<and>
    (\<forall>ts. bool_terms c operator p q vs = Some ts \<longrightarrow> sum_list (map needs ts) \<le> sum_list (map needs vs))"
  using assms
proof (induction vs)
  case (Cons v vs)
  have v: "needs v \<le> n" using Cons.prems by simp
  show ?case
    using Cons agree[OF v] less[OF v] flatten_needs[of operator "c v"]
    by (auto simp: Let_def)
qed simp

lemma bool_and:
  assumes "sum_list (map needs vs) \<le> n"
  shows "bool_and_with c' vs = bool_and_with c vs \<and> needs (bool_and_with c vs) \<le> Suc (sum_list (map needs vs))"
  using bool_terms[OF assms, of "''bool_and''" XFalse XTrue] 
  by (auto simp: bool_and_with_def sum_list_sort sum_list_insort split: option.split list.split)

lemma bool_or:
  assumes "sum_list (map needs vs) \<le> n"
  shows "bool_or_with c' vs = bool_or_with c vs \<and> needs (bool_or_with c vs) \<le> Suc (sum_list (map needs vs))"
  using bool_terms[OF assms, of "''bool_or''" XTrue XFalse]
  by (auto simp: bool_or_with_def sum_list_sort sum_list_insort split: option.split list.split)

text \<open>One step of the normal form: it needs no more than the expression, and one call less below.\<close>

lemma operands_step:
  assumes "needs a + needs b \<le> n"
  shows "needs (c a) + needs (c b) \<le> n" "c' a = c a" "c' b = c b" "needs (c a) \<le> needs a" "needs (c b) \<le> needs b"
  using two_operands[OF assms] assms by simp_all

lemma binary_step:
  assumes "needs a + needs b \<le> n"
    and f: "\<And>a b. needs a + needs b \<le> n \<Longrightarrow> f c' a b = f c a b \<and> needs (f c a b) \<le> Suc (needs a + needs b)"
  shows "f c' (c' a) (c' b) = f c (c a) (c b) \<and> needs (f c (c a) (c b)) \<le> Suc (needs a + needs b)"
  using f[of "c a" "c b"] operands_step[OF assms(1)] by simp

lemma unary_step:
  assumes "needs a \<le> n"
    and f: "\<And>a. needs a \<le> n \<Longrightarrow> f c' a = f c a \<and> needs (f c a) \<le> Suc (needs a)"
  shows "f c' (c' a) = f c (c a) \<and> needs (f c (c a)) \<le> Suc (needs a)"
  using f[of "c a"] agree[OF assms(1)] less[OF assms(1)] assms(1) by simp

lemma step_ok:
  assumes "needs e \<le> Suc n"
  shows "canonical_step c' e = canonical_step c e \<and> needs (canonical_step c e) \<le> needs e"
proof (cases e)
  case (XAdd xs)
  then show ?thesis using add_parts[of xs] assms by (simp add: canonical_step_def)
next
  case (XXor xs)
  then show ?thesis
    using xor_fold[of 0 "XConst 0" xs] xor_bound_needs assms by (auto simp: canonical_step_def xor_bound_def)
next
  case (XSub a b)
  then show ?thesis using binary_step[of a b sub_with, OF _ sub] assms by (simp add: canonical_step_def)
next
  case (XMul a b)
  then show ?thesis using binary_step[of a b mul_with, OF _ mul] assms by (simp add: canonical_step_def)
next
  case (XAnd a b)
  then show ?thesis using binary_step[of a b and_with, OF _ and_word] assms by (simp add: canonical_step_def)
next
  case (XOr a b)
  then show ?thesis using binary_step[of a b or_with, OF _ or_word] assms by (simp add: canonical_step_def)
next
  case (XShl a b)
  then show ?thesis using binary_step[of a b shl_with, OF _ shl] assms by (simp add: canonical_step_def)
next
  case (XLshr a b)
  then show ?thesis using binary_step[of a b lshr_with, OF _ lshr] assms by (simp add: canonical_step_def)
next
  case (XBoolXor a b)
  then show ?thesis using binary_step[of a b bool_xor_with, OF _ bool_xor] assms by (simp add: canonical_step_def)
next
  case (XBoolEq a b)
  then show ?thesis using binary_step[of a b bool_eq_with, OF _ bool_eq] assms by (simp add: canonical_step_def)
next
  case (XBvnot a)
  then show ?thesis using unary_step[of a not_with, OF _ not_word] assms by (simp add: canonical_step_def)
next
  case (XNeg a)
  then show ?thesis using unary_step[of a neg_with, OF _ neg] assms by (simp add: canonical_step_def)
next
  case (XNot a)
  then show ?thesis using unary_step[of a bool_not_with, OF _ bool_not] assms by (simp add: canonical_step_def)
next
  case (XAshr w a b)
  then have ab: "needs a + needs b \<le> n" using assms by (simp add: mask_cost_def)
  show ?thesis
    using XAshr ashr[of "c a" "c b" w] operands_step[OF ab] masked_needs_canonical[of a w] ab
    by (simp add: canonical_step_def masked_needs_def)
next
  case (XSext w a)
  then have a: "needs a \<le> n" using assms by (simp add: mask_cost_def)
  show ?thesis
    using XSext sign_extend[of "c a" w] twice(3)[OF a] agree[OF a] masked_needs_canonical[OF a, of w]
    by (simp add: canonical_step_def masked_needs_def)
next
  case (XWriteBits b pos w v)
  then have bv: "needs b + needs v \<le> n" using assms by simp
  then have v: "needs v \<le> n" by simp
  show ?thesis
    using XWriteBits write_bits[of "c b" "c v" pos w] operands_step[OF bv] masked_needs_canonical[OF v, of w]
    by (simp add: canonical_step_def masked_needs_def)
next
  case (XIte p a b)
  then have "needs p \<le> n" "needs a \<le> n" "needs b \<le> n" "needs p + needs a + needs b \<le> n" using assms by simp_all
  then show ?thesis
    using XIte ite[of "c p" "c a" "c b"] agree less[of p] less[of a] less[of b] by (simp add: canonical_step_def)
next
  case (XBoolAnd xs)
  then show ?thesis
    using bool_and[of "map c xs"] list_agree[of xs] list_less[of xs] element_bound[of xs] assms
    by (simp add: canonical_step_def del: map_eq_conv)
next
  case (XBoolOr xs)
  then show ?thesis
    using bool_or[of "map c xs"] list_agree[of xs] list_less[of xs] element_bound[of xs] assms
    by (simp add: canonical_step_def del: map_eq_conv)
next
  case (XNode t xs)
  then show ?thesis
    using list_agree[of xs] list_less[of xs] element_bound[of xs] assms by (simp add: canonical_step_def)
next
  case (XTuple xs)
  then show ?thesis
    using list_agree[of xs] list_less[of xs] element_bound[of xs] assms by (simp add: canonical_step_def)
qed (simp_all add: canonical_step_def)

lemma step_xors:
  assumes "needs (XXor xs) \<le> Suc n"
  shows "canonical_step c (XXor xs) = XConst 0 \<or> xor_weight (canonical_step c (XXor xs)) \<le> xor_weight (XXor xs)"
  using xor_fold[of 0 "XConst 0" xs] assms by (auto simp: canonical_step_def xor_bound_def)

lemma step_masks:
  assumes "needs x \<le> Suc n" "masked w x" "w < 32"
  shows "masked w (canonical_step c x) \<or> is_const (canonical_step c x)"
proof -
  obtain a b where x: "x = XAnd a b" "a = XConst (low_mask w) \<or> b = XConst (low_mask w)"
    using assms(2) by (cases x) (auto simp: masked_def)
  have n: "1 \<le> n"
    using assms(1) needs_pos(2)[of a] unfolding x(1) needs.simps by linarith
  have m: "low_mask w AND 0xFFFFFFFF = low_mask w" "low_mask w \<noteq> 0xFFFFFFFF"
  proof -
    show "low_mask w AND 0xFFFFFFFF = low_mask w" using low_mask_u32[OF assms(3)] by (simp add: mask_u32)
    show "low_mask w \<noteq> 0xFFFFFFFF"
    proof
      assume "low_mask w = 0xFFFFFFFF"
      then have "bit (low_mask w) 31" by simp
      then show False using assms(3) by (simp add: low_mask_eq bit_simps)
    qed
  qed
  then have "c (XConst (low_mask w)) = XConst (low_mask w)" using constant_kept[OF n] by simp
  with x m show ?thesis
    by (auto simp: canonical_step_def and_with_def Let_def in_repr_order_def masked_def split: option.split)
qed

end

section \<open>Enough nesting\<close>

lemma canonical_Suc: "canonical (Suc n) = canonical_step (canonical n)"
  by (rule ext) simp

lemma canonical_shrinking: "shrinking (canonical n) (canonical (Suc n)) n"
proof (induction n)
  case 0
  have "\<not> needs x \<le> 0" for x using needs_pos(1)[of x] by linarith
  then show ?case by unfold_locales (blast | simp)+
next
  case (Suc n)
  show ?case
  proof
    fix x assume x: "needs x \<le> Suc n"
    show "canonical (Suc (Suc n)) x = canonical (Suc n) x"
      using shrinking.step_ok[OF Suc x] unfolding canonical_Suc by blast
    show "needs (canonical (Suc n) x) \<le> needs x"
      using shrinking.step_ok[OF Suc x] unfolding canonical_Suc by blast
    show "masked w (canonical (Suc n) x) \<or> is_const (canonical (Suc n) x)" if "masked w x" "w < 32" for w
      using shrinking.step_masks[OF Suc x that] by simp
  next
    show "needs (XXor xs) \<le> Suc n \<Longrightarrow>
        canonical (Suc n) (XXor xs) = XConst 0 \<or> xor_weight (canonical (Suc n) (XXor xs)) \<le> xor_weight (XXor xs)" for xs
      using shrinking.step_xors[OF Suc] by simp
    show "canonical (Suc n) (XConst k) = XConst (k AND 0xFFFFFFFF)" for k
      by (simp add: canonical_step_def)
  qed
qed

interpretation nested: shrinking "canonical n" "canonical (Suc n)" n for n
  by (rule canonical_shrinking)

lemma canonical_enough: "needs e \<le> n \<Longrightarrow> canonical n e = canonical_expr e"
proof (induction n)
  case 0
  then show ?case using needs_pos(1)[of e] by simp
next
  case (Suc n)
  show ?case
  proof (cases "needs e = Suc n")
    case True
    then show ?thesis by (simp only: canonical_expr_def)
  next
    case False
    with Suc have "needs e \<le> n" "canonical n e = canonical_expr e" by simp_all
    then show ?thesis using nested.agree[of e n] by simp
  qed
qed

lemma canonical_needs: "needs (canonical_expr e) \<le> needs e"
  unfolding canonical_expr_def by (rule nested.less) simp

text \<open>The recursion equation of the code, without the bound.\<close>

lemma canonical_code: "shrinking (canonical n) canonical_expr n"
proof
  fix x assume "needs x \<le> n"
  then show "canonical_expr x = canonical n x" by (simp add: canonical_enough)
qed (rule nested.less nested.xors nested.masks nested.constant_kept; assumption)+

lemma canonical_expr_step: "canonical_expr e = canonical_step canonical_expr e"
proof -
  obtain n where n: "needs e = Suc n" using needs_pos(1)[of e] gr0_implies_Suc by blast
  then have "canonical_expr e = canonical_step (canonical n) e" by (simp add: canonical_expr_def)
  also have "\<dots> = canonical_step canonical_expr e"
    using shrinking.step_ok[OF canonical_code, of e n] n by simp
  finally show ?thesis .
qed

text \<open>
  Whatever the calls beyond the nesting would return, the result is the normal form, so the code's
  recursion has one solution.
\<close>

lemma canonical_from_any: "needs e \<le> n \<Longrightarrow> (canonical_step ^^ n) g e = canonical_expr e"
proof (induction n arbitrary: e)
  case 0
  then show ?case using needs_pos(1)[of e] by simp
next
  case (Suc n)
  have "shrinking canonical_expr ((canonical_step ^^ n) g) n"
  proof
    show "(canonical_step ^^ n) g x = canonical_expr x" if "needs x \<le> n" for x by (rule Suc.IH[OF that])
    show "needs (canonical_expr x) \<le> needs x" if "needs x \<le> n" for x by (rule canonical_needs)
    show "canonical_expr (XXor xs) = XConst 0 \<or> xor_weight (canonical_expr (XXor xs)) \<le> xor_weight (XXor xs)"
      if "needs (XXor xs) \<le> n" for xs using nested.xors[OF that] by (simp add: canonical_enough[OF that])
    show "masked w (canonical_expr x) \<or> is_const (canonical_expr x)" if "needs x \<le> n" "masked w x" "w < 32" for x w
      using nested.masks[OF that] by (simp add: canonical_enough[OF that(1)])
    show "canonical_expr (XConst k) = XConst (k AND 0xFFFFFFFF)" for k
      by (subst canonical_expr_step) (simp add: canonical_step_def)
  qed
  then have "canonical_step ((canonical_step ^^ n) g) e = canonical_step canonical_expr e"
    using shrinking.step_ok Suc.prems by blast
  then show ?case using canonical_expr_step[of e] by simp
qed

lemma canonical_unique:
  assumes "f = canonical_step f"
  shows "f = canonical_expr"
proof
  fix e
  have "(canonical_step ^^ n) f = f" for n
    by (induction n) (simp_all add: assms[symmetric])
  then show "f e = canonical_expr e" using canonical_from_any[of e "needs e" f] by simp
qed

end
