(* ===== verification/Symbolic_Flags.thy ===== *)
theory Symbolic_Flags
  imports Symbolic_Fuel
begin

text \<open>
  The flags of the x86 instructions as expressions (\<open>static_program/semantics/flags.py\<close>): branch and
  \<open>setcc\<close> conditions, and the flags that arithmetic, logic and shifts leave. A dictionary of flags is an
  association list from names to conditions.
\<close>

type_synonym named = "(string \<times> sx) list"

definition entry :: "named \<Rightarrow> string \<Rightarrow> sx res" where
  "entry d k = (case map_of d k of None \<Rightarrow> Raise Key_error | Some e \<Rightarrow> Ok e)"

definition entry_or :: "named \<Rightarrow> string \<Rightarrow> sx \<Rightarrow> sx" where
  "entry_or d k e = (case map_of d k of None \<Rightarrow> e | Some e \<Rightarrow> e)"

definition flag_leaf :: "string \<Rightarrow> sx" where
  "flag_leaf name = XLeaf ''flag'' [XTxt name]"

definition reg_leaf :: "string \<Rightarrow> sx" where
  "reg_leaf name = XLeaf ''reg'' [XTxt name]"

text \<open>\<open>d.update(values)\<close>\<close>

definition updates :: "named \<Rightarrow> named \<Rightarrow> named" where
  "updates d values = foldl (\<lambda>d (k, e). AList.update k e d) d values"

section \<open>Conditions\<close>

definition with_flags :: "named \<Rightarrow> (sx \<Rightarrow> sx \<Rightarrow> sx \<Rightarrow> sx \<Rightarrow> sx \<Rightarrow> 'a) \<Rightarrow> 'a res" where
  "with_flags fl f =
     bind (entry fl ''cf'') (\<lambda>cf. bind (entry fl ''zf'') (\<lambda>zf. bind (entry fl ''sf'') (\<lambda>sf.
     bind (entry fl ''of'') (\<lambda>ovf. Ok (f cf zf sf ovf (entry_or fl ''pf'' (flag_leaf ''pf'')))))))"

definition branch_conditions :: "sx \<Rightarrow> sx \<Rightarrow> sx \<Rightarrow> sx \<Rightarrow> sx \<Rightarrow> (string \<times> sx) list" where
  "branch_conditions cf zf sf ovf pf =
     [(''ja'', bool_and [bool_not cf, bool_not zf]), (''jnbe'', bool_and [bool_not cf, bool_not zf]),
      (''jae'', bool_not cf), (''jnb'', bool_not cf), (''jnc'', bool_not cf),
      (''jb'', cf), (''jc'', cf), (''jnae'', cf),
      (''jbe'', bool_or [cf, zf]), (''jna'', bool_or [cf, zf]),
      (''je'', zf), (''jz'', zf), (''jne'', bool_not zf), (''jnz'', bool_not zf),
      (''jg'', bool_and [bool_not zf, bool_eq sf ovf]), (''jnle'', bool_and [bool_not zf, bool_eq sf ovf]),
      (''jge'', bool_eq sf ovf), (''jnl'', bool_eq sf ovf),
      (''jl'', bool_xor sf ovf), (''jnge'', bool_xor sf ovf),
      (''jle'', bool_or [zf, bool_xor sf ovf]), (''jng'', bool_or [zf, bool_xor sf ovf]),
      (''jno'', bool_not ovf), (''jo'', ovf), (''jp'', pf), (''jpe'', pf), (''jnp'', bool_not pf), (''jpo'', bool_not pf),
      (''jns'', bool_not sf), (''js'', sf)]"

definition branch_condition :: "string \<Rightarrow> named \<Rightarrow> sx option res" where
  "branch_condition mnemonic fl =
     with_flags fl (\<lambda>cf zf sf ovf pf. map_of (branch_conditions cf zf sf ovf pf) mnemonic)"

definition setcc_aliases :: "(string \<times> string) list" where
  "setcc_aliases =
     [(''e'', ''z''), (''ne'', ''nz''), (''nae'', ''b''), (''c'', ''b''), (''nb'', ''ae''), (''nc'', ''ae''),
      (''be'', ''be''), (''na'', ''be''), (''nbe'', ''a''), (''nge'', ''l''), (''nl'', ''ge''), (''ng'', ''le''),
      (''nle'', ''g''), (''pe'', ''p''), (''po'', ''np'')]"

definition setcc_key :: "string \<Rightarrow> string" where
  "setcc_key mnemonic =
     (let suffix = (if take 3 mnemonic = ''set'' then drop 3 mnemonic else mnemonic)
      in case map_of setcc_aliases suffix of None \<Rightarrow> suffix | Some key \<Rightarrow> key)"

definition setcc_conditions :: "sx \<Rightarrow> sx \<Rightarrow> sx \<Rightarrow> sx \<Rightarrow> sx \<Rightarrow> (string \<times> sx) list" where
  "setcc_conditions cf zf sf ovf pf =
     [(''z'', zf), (''nz'', bool_not zf),
      (''a'', bool_and [bool_not cf, bool_not zf]), (''ae'', bool_not cf), (''b'', cf), (''be'', bool_or [cf, zf]),
      (''g'', bool_and [bool_not zf, bool_eq sf ovf]), (''ge'', bool_eq sf ovf),
      (''l'', bool_xor sf ovf), (''le'', bool_or [zf, bool_xor sf ovf]),
      (''o'', ovf), (''no'', bool_not ovf), (''s'', sf), (''ns'', bool_not sf), (''p'', pf), (''np'', bool_not pf)]"

definition setcc_condition :: "string \<Rightarrow> named \<Rightarrow> sx option res" where
  "setcc_condition mnemonic fl =
     with_flags fl (\<lambda>cf zf sf ovf pf. map_of (setcc_conditions cf zf sf ovf pf) (setcc_key mnemonic))"

section \<open>Flags of the instructions\<close>

definition result_flags :: "sx \<Rightarrow> sx \<Rightarrow> sx \<Rightarrow> int \<Rightarrow> named" where
  "result_flags cf ovf res w =
     [(''cf'', cf), (''zf'', XNode ''eq'' [res, XConst 0]), (''sf'', XNode ''msb_w'' [XNum w, res]),
      (''of'', ovf), (''pf'', XNode ''parity'' [XNum w, res])]"

definition arithmetic_flags :: "string \<Rightarrow> sx \<Rightarrow> sx \<Rightarrow> sx \<Rightarrow> int \<Rightarrow> named" where
  "arithmetic_flags operator l r res w =
     (let l = expr_mask l w; r = expr_mask r w; res = expr_mask res w in
      if operator = ''add''
      then result_flags (XNode ''ult'' [res, l]) (XNode ''add_overflow_w'' [XNum w, l, r, res]) res w
      else result_flags (XNode ''ult'' [l, r]) (XNode ''sub_overflow_w'' [XNum w, l, r, res]) res w)"

definition logical_flags :: "sx \<Rightarrow> int \<Rightarrow> named" where
  "logical_flags res w = (let res = expr_mask res w in result_flags XFalse XFalse res w)"

definition logical_result :: "string \<Rightarrow> sx \<Rightarrow> sx \<Rightarrow> sx res" where
  "logical_result operator l r =
     (if operator = ''xor'' then Ok (expr_xor l r)
      else if operator = ''and'' then Ok (expr_and l r)
      else if operator = ''or'' then Ok (expr_or l r)
      else Raise (Input_error (''unsupported logical operator '' @ repr_text operator)))"

definition carry_arithmetic_flags :: "string \<Rightarrow> sx \<Rightarrow> sx \<Rightarrow> sx \<Rightarrow> sx \<Rightarrow> int \<Rightarrow> named" where
  "carry_arithmetic_flags operator l r carry res w =
     (let l = expr_mask l w; r = expr_mask r w; bit = expr_mask (expr_bool_bit carry) w; res = expr_mask res w;
          operands = [XNum w, l, r, bit, res]
      in if operator = ''adc''
         then result_flags (XNode ''adc_carry'' operands) (XNode ''adc_overflow'' operands) res w
         else result_flags (XNode ''sbb_borrow'' operands) (XNode ''sbb_overflow'' operands) res w)"

definition undefined_id :: "int \<Rightarrow> string \<Rightarrow> string" where
  "undefined_id rva name = hex_text (nat rva) @ '':'' @ name"

definition undefined_flag :: "string \<Rightarrow> int \<Rightarrow> string \<Rightarrow> sx" where
  "undefined_flag reason rva name = XLeaf ''undefined_flag'' [XTxt reason, XTxt (undefined_id rva name)]"

definition undefined_bv :: "string \<Rightarrow> int \<Rightarrow> string \<Rightarrow> sx option \<Rightarrow> sx" where
  "undefined_bv reason rva name defined =
     XLeaf ''undefined_bv'' ([XTxt reason, XTxt (undefined_id rva name)] @ (case defined of None \<Rightarrow> [] | Some e \<Rightarrow> [e]))"

definition undefined_arithmetic_flags :: "string \<Rightarrow> int \<Rightarrow> named \<Rightarrow> named" where
  "undefined_arithmetic_flags reason rva keep =
     map (\<lambda>name. (name, entry_or keep name (undefined_flag reason rva name))) [''cf'', ''zf'', ''sf'', ''of'', ''pf'']"

definition shift_flags :: "string \<Rightarrow> sx \<Rightarrow> sx \<Rightarrow> sx \<Rightarrow> named \<Rightarrow> int \<Rightarrow> int \<Rightarrow> named res" where
  "shift_flags mnemonic l cnt res prior rva w =
     (let effective = expr_and cnt (XConst 0x1F);
          zero = bool_eq effective (XConst 0);
          one = bool_eq effective (XConst 1);
          within = XNode ''ult'' [effective, XConst (w + 1)];
          res = expr_mask res w;
          carry = XNode ''shift_cf'' [XTxt mnemonic, XNum w, expr_mask l w, effective];
          active = expr_ite within carry (undefined_flag ''shift_count_exceeds_width'' rva ''cf'');
          overflow = XNode ''shift_of'' [XTxt mnemonic, XNum w, expr_mask l w, effective, res]
      in bind (entry prior ''cf'') (\<lambda>cf. bind (entry prior ''zf'') (\<lambda>zf. bind (entry prior ''sf'') (\<lambda>sf.
         bind (entry prior ''of'') (\<lambda>ovf. bind (entry prior ''pf'') (\<lambda>pf.
           Ok [(''cf'', expr_ite zero cf active),
               (''zf'', expr_ite zero zf (XNode ''eq'' [res, XConst 0])),
               (''sf'', expr_ite zero sf (XNode ''msb_w'' [XNum w, res])),
               (''of'', expr_ite zero ovf
                  (expr_ite one overflow (undefined_flag ''shift_overflow_undefined'' rva ''of''))),
               (''pf'', expr_ite zero pf (XNode ''parity'' [XNum w, res]))]))))))"

end
