(* ===== verification/Machine_Code.thy ===== *)
theory Machine_Code
  imports Compiler_Replay Transfer_Eval
begin

text \<open>
  Decoded instructions and the image they come from, as the static semantics reads them: branch targets
  and imports (\<open>extraction/executable_classification.py\<close>, \<open>pe32/queries.py\<close>) and the control-flow evidence
  of \<open>static_program/semantics/control.py\<close> with its recovery of jump tables. The decoder (Capstone), the
  reader of image bytes (pefile) and SHA-256 are components of the record \<open>pe_image\<close>; an operand carries
  the names that \<open>insn.reg_name\<close> gives its registers.
\<close>

section \<open>Images and instructions\<close>

record mem_operand =
  mem_segment :: "string option"
  mem_base :: "string option"
  mem_index :: "string option"
  mem_scale :: int
  mem_disp :: int

datatype operand =
    Reg_op string int
  | Imm_op int int
  | Mem_op mem_operand int
  | Other_op int

record insn =
  in_address :: int
  in_size :: int
  in_mnemonic :: string
  in_op_str :: string
  in_bytes :: "int list"
  in_operands :: "operand list"

record pe_section =
  sec_name :: string
  sec_start :: int
  sec_end :: int
  sec_readable :: bool
  sec_writable :: bool
  sec_executable :: bool

record pe_import =
  imp_dll :: string
  imp_symbol :: "string option"
  imp_ordinal :: "int option"
  imp_thunk :: "int option"

record pe_image =
  im_bitness :: int
  im_base :: int
  im_size :: int
  im_sections :: "pe_section list"
  im_imports :: "pe_import list"
  im_data :: "int \<Rightarrow> int \<Rightarrow> int list"
  im_decode :: "int list \<Rightarrow> int \<Rightarrow> insn list"
  im_sha :: "int list \<Rightarrow> string"

record side =
  sd_start :: int
  sd_end :: int

definition side_size :: "side \<Rightarrow> int" where
  "side_size b = sd_end b - sd_start b"

definition insn_rva :: "pe_image \<Rightarrow> insn \<Rightarrow> int" where
  "insn_rva im i = in_address i - im_base im"

fun operand_size :: "operand \<Rightarrow> int" where
  "operand_size (Reg_op _ n) = n"
| "operand_size (Imm_op _ n) = n"
| "operand_size (Mem_op _ n) = n"
| "operand_size (Other_op n) = n"

definition is_conditional_jump :: "string \<Rightarrow> bool" where
  "is_conditional_jump mnemonic =
     (mnemonic \<in> set [''ja'', ''jae'', ''jb'', ''jbe'', ''jc'', ''je'', ''jg'', ''jge'', ''jl'', ''jle'',
        ''jna'', ''jnae'', ''jnb'', ''jnbe'', ''jnc'', ''jne'', ''jng'', ''jnge'', ''jnl'',
        ''jnle'', ''jno'', ''jnp'', ''jns'', ''jnz'', ''jo'', ''jp'', ''jpe'', ''jpo'',
        ''js'', ''jz''])"

definition is_jump :: "string \<Rightarrow> bool" where
  "is_jump mnemonic = (mnemonic \<in> {''jmp'', ''ljmp''})"

section \<open>Addresses, targets and imports\<close>

definition section_for_rva :: "pe_image \<Rightarrow> int \<Rightarrow> pe_section option" where
  "section_for_rva im rva = find (\<lambda>s. sec_start s \<le> rva \<and> rva < sec_end s) (im_sections im)"

definition executable_section_for_rva :: "pe_image \<Rightarrow> int \<Rightarrow> pe_section option" where
  "executable_section_for_rva im rva =
     find (\<lambda>s. sec_executable s \<and> sec_start s \<le> rva \<and> rva < sec_end s) (im_sections im)"

definition in_image :: "pe_image \<Rightarrow> int \<Rightarrow> bool" where
  "in_image im v = (im_base im \<le> v \<and> v < im_base im + im_size im)"

fun absolute_mem_operand_rva :: "pe_image \<Rightarrow> operand \<Rightarrow> int option" where
  "absolute_mem_operand_rva im (Mem_op m _) =
     (if mem_base m \<noteq> None \<or> mem_index m \<noteq> None then None
      else if in_image im (mem_disp m) then Some (mem_disp m - im_base im)
      else if 0 \<le> mem_disp m \<and> mem_disp m < im_size im then Some (mem_disp m)
      else None)"
| "absolute_mem_operand_rva im _ = None"

definition from_bytes :: "int list \<Rightarrow> int" where
  "from_bytes bs = foldr (\<lambda>b n. b + 256 * n) bs 0"

definition direct_branch_target :: "pe_image \<Rightarrow> insn \<Rightarrow> int option" where
  "direct_branch_target im i =
     (case in_operands i of [Imm_op v _] \<Rightarrow> Some (v - im_base im) | _ \<Rightarrow> None)"

text \<open>A pointer in a read-only section of the image is followed; one that can be overwritten is not.\<close>

definition pointer_target :: "pe_image \<Rightarrow> int \<Rightarrow> int option" where
  "pointer_target im pointer =
     (case section_for_rva im pointer of
        None \<Rightarrow> None
      | Some s \<Rightarrow>
          if \<not> sec_readable s \<or> sec_writable s then None
          else let width = (if im_bitness im = 64 then 8 else 4); bs = im_data im pointer width in
            if int (length bs) \<noteq> width then None
            else let v = from_bytes bs;
                     target = (if in_image im v then Some (v - im_base im)
                               else if 0 \<le> v \<and> v < im_size im then Some v else None)
                 in case target of
                      None \<Rightarrow> None
                    | Some t \<Rightarrow> if executable_section_for_rva im t = None then None else Some t)"

definition resolved_branch_target :: "pe_image \<Rightarrow> insn \<Rightarrow> int option" where
  "resolved_branch_target im i =
     (case direct_branch_target im i of
        Some t \<Rightarrow> Some t
      | None \<Rightarrow> (case in_operands i of
          [Mem_op m n] \<Rightarrow> Option.bind (absolute_mem_operand_rva im (Mem_op m n)) (pointer_target im)
        | _ \<Rightarrow> None))"

definition import_for_operand :: "pe_image \<Rightarrow> operand \<Rightarrow> pe_import option" where
  "import_for_operand im p =
     Option.bind (absolute_mem_operand_rva im p) (\<lambda>rva. find (\<lambda>x. imp_thunk x = Some rva) (im_imports im))"

definition direct_import_thunk :: "pe_image \<Rightarrow> int \<Rightarrow> pe_import option" where
  "direct_import_thunk im rva =
     (if executable_section_for_rva im rva = None then None
      else case im_decode im (im_data im rva 16) (im_base im + rva) of
             [] \<Rightarrow> None
           | first # _ \<Rightarrow>
               if \<not> is_jump (in_mnemonic first) then None
               else case in_operands first of [Mem_op m n] \<Rightarrow> import_for_operand im (Mem_op m n) | _ \<Rightarrow> None)"

definition imported_by :: "pe_image \<Rightarrow> insn \<Rightarrow> pe_import option" where
  "imported_by im i =
     (case in_operands i of
        [Mem_op m n] \<Rightarrow> import_for_operand im (Mem_op m n)
      | [Imm_op v _] \<Rightarrow> direct_import_thunk im (v - im_base im)
      | _ \<Rightarrow> None)"

definition external_import_call :: "pe_image \<Rightarrow> insn \<Rightarrow> pe_import option" where
  "external_import_call im i = (if in_mnemonic i = ''call'' then imported_by im i else None)"

definition external_import_jump :: "pe_image \<Rightarrow> insn \<Rightarrow> pe_import option" where
  "external_import_jump im i = (if is_jump (in_mnemonic i) then imported_by im i else None)"

definition abi_value_to_rva :: "pe_image \<Rightarrow> int \<Rightarrow> int option" where
  "abi_value_to_rva im v =
     (if in_image im v then Some (v - im_base im)
      else if 0 \<le> v \<and> v < im_size im \<and> section_for_rva im v \<noteq> None then Some v else None)"

section \<open>Reports\<close>

definition range_report :: "side \<Rightarrow> json" where
  "range_report b =
     JObj [(''rva_start'', JInt (sd_start b)), (''rva_end'', JInt (sd_end b)), (''size'', JInt (side_size b))]"

definition instruction_report :: "pe_image \<Rightarrow> insn \<Rightarrow> json" where
  "instruction_report im i =
     JObj [(''rva'', JInt (insn_rva im i)), (''size'', JInt (in_size i)), (''mnemonic'', JStr (in_mnemonic i)),
           (''op_str'', JStr (in_op_str i)), (''bytes'', JStr (to_hex (in_bytes i)))]"

definition mem_operand_report :: "mem_operand \<Rightarrow> json" where
  "mem_operand_report m =
     JObj [(''base'', opt_str (mem_base m)), (''index'', opt_str (mem_index m)),
           (''scale'', JInt (mem_scale m)), (''disp'', JInt (mem_disp m))]"

definition section_report :: "pe_section \<Rightarrow> json" where
  "section_report s =
     JObj [(''name'', JStr (sec_name s)), (''rva_start'', JInt (sec_start s)), (''rva_end'', JInt (sec_end s)),
           (''readable'', JBool (sec_readable s)), (''writable'', JBool (sec_writable s)),
           (''executable'', JBool (sec_executable s))]"

definition optional_section :: "pe_section option \<Rightarrow> json" where
  "optional_section s = (case s of None \<Rightarrow> JNull | Some s \<Rightarrow> section_report s)"

section \<open>Jump tables\<close>

text \<open>The name of a register without its family is the lower-case name.\<close>

definition register_families :: "(string \<times> string list) list" where
  "register_families =
     [(''eax'', [''eax'', ''ax'', ''al'', ''ah'']), (''ebx'', [''ebx'', ''bx'', ''bl'', ''bh'']),
      (''ecx'', [''ecx'', ''cx'', ''cl'', ''ch'']), (''edx'', [''edx'', ''dx'', ''dl'', ''dh'']),
      (''esi'', [''esi'', ''si'', ''sil'']), (''edi'', [''edi'', ''di'', ''dil'']),
      (''ebp'', [''ebp'', ''bp'', ''bpl'']), (''esp'', [''esp'', ''sp'', ''spl''])]"

definition register_family :: "string \<Rightarrow> string" where
  "register_family r =
     (let name = py_lower r in
      case find (\<lambda>(full, names). name \<in> set names) register_families of
        Some (full, _) \<Rightarrow> full | None \<Rightarrow> name)"

record index_bounds =
  ib_lower :: int
  ib_upper :: int
  ib_register :: string
  ib_source :: string
  ib_instruction :: insn

text \<open>What one earlier instruction says of the index: a zero extension within its register, or a mask.\<close>

definition bounds_of :: "string \<Rightarrow> insn \<Rightarrow> index_bounds option" where
  "bounds_of full i =
     (case in_operands i of
        [Reg_op dst _, Reg_op src bytes] \<Rightarrow>
          if in_mnemonic i = ''movzx'' \<and> register_family dst = full \<and> register_family src = full \<and> bytes > 0
          then Some \<lparr>ib_lower = 0, ib_upper = push_bit (nat (bytes * 8)) 1 - 1, ib_register = full,
                     ib_source = ''movzx_register_width'', ib_instruction = i\<rparr>
          else None
      | [Reg_op dst _, Imm_op k _] \<Rightarrow>
          if in_mnemonic i = ''and'' \<and> register_family dst = full \<and> 0 \<le> k \<and> k \<le> 4095
          then Some \<lparr>ib_lower = 0, ib_upper = k, ib_register = full,
                     ib_source = ''and_immediate_mask'', ib_instruction = i\<rparr>
          else None
      | _ \<Rightarrow> None)"

definition ends_search :: "insn \<Rightarrow> bool" where
  "ends_search i =
     (in_mnemonic i \<in> {''call'', ''ret''} \<or> is_jump (in_mnemonic i) \<or> is_conditional_jump (in_mnemonic i))"

fun search_bounds :: "string \<Rightarrow> insn list \<Rightarrow> index_bounds option" where
  "search_bounds full [] = None"
| "search_bounds full (i # earlier) =
     (case bounds_of full i of
        Some b \<Rightarrow> Some b
      | None \<Rightarrow> if ends_search i then None else search_bounds full earlier)"

definition jump_table_index_bounds :: "pe_image \<Rightarrow> insn list \<Rightarrow> insn \<Rightarrow> string \<Rightarrow> index_bounds option" where
  "jump_table_index_bounds im instructions i index_register =
     search_bounds (register_family index_register)
       (rev (filter (\<lambda>p. insn_rva im p < insn_rva im i) instructions))"

definition bounds_report :: "pe_image \<Rightarrow> index_bounds \<Rightarrow> json" where
  "bounds_report im b =
     JObj [(''status'', JStr ''derived''), (''lower'', JInt (ib_lower b)), (''upper'', JInt (ib_upper b)),
           (''register'', JStr (ib_register b)), (''source'', JStr (ib_source b)),
           (''source_instruction'', instruction_report im (ib_instruction b))]"

definition next_action_text :: string where
  "next_action_text =
     ''recover table bounds, default edge, and case target mapping before treating this as a source-level switch''"

definition incomplete_table ::
  "pe_image \<Rightarrow> side \<Rightarrow> insn \<Rightarrow> json \<Rightarrow> string \<Rightarrow> int option \<Rightarrow> json option \<Rightarrow> json" where
  "incomplete_table im block i addressing blocker table bounds =
     JObj ([(''evidence_status'', JStr ''incomplete''), (''kind'', JStr ''indirect_jump_table_candidate''),
            (''block'', range_report block), (''instruction'', instruction_report im i),
            (''index_expression'', addressing), (''resolved_target_rva'', JNull), (''blocker'', JStr blocker),
            (''next_action'', JStr next_action_text)]
         @ (case table of None \<Rightarrow> [] | Some rva \<Rightarrow>
              [(''table'', JObj [(''rva_start'', JInt rva), (''va_start'', JInt (im_base im + rva)),
                                 (''entry_width'', JInt (if im_bitness im = 32 then 4 else 8))])])
         @ (case bounds of None \<Rightarrow> [] | Some b \<Rightarrow> [(''table_bounds'', b)]))"

record table_entry =
  te_index :: int
  te_entry :: int
  te_value :: int
  te_target :: int
  te_section :: pe_section
  te_bytes :: "int list"

text \<open>The loop over the entries: the blocker of the first entry that has one ends it.\<close>

fun table_entries :: "pe_image \<Rightarrow> int \<Rightarrow> int list \<Rightarrow> string + table_entry list" where
  "table_entries im table [] = Inr []"
| "table_entries im table (k # ks) =
     (let rva = table + k * 4; raw = im_data im rva 4 in
      if length raw \<noteq> 4 then Inl (''jump-table entry '' @ int_text k @ '' could not be read'')
      else let v = from_bytes raw; target = abi_value_to_rva im v in
        case Option.bind target (\<lambda>t. map_option (Pair t) (executable_section_for_rva im t)) of
          None \<Rightarrow> Inl (''jump-table entry '' @ int_text k @ '' does not resolve to executable code'')
        | Some (t, s) \<Rightarrow>
            (case table_entries im table ks of
               Inl e \<Rightarrow> Inl e
             | Inr es \<Rightarrow> Inr (\<lparr>te_index = k, te_entry = rva, te_value = v, te_target = t, te_section = s, te_bytes = raw\<rparr> # es)))"

definition table_report ::
  "pe_image \<Rightarrow> side \<Rightarrow> insn \<Rightarrow> json \<Rightarrow> json \<Rightarrow> int \<Rightarrow> pe_section \<Rightarrow> int \<Rightarrow> int \<Rightarrow> json \<Rightarrow> table_entry list \<Rightarrow> json" where
  "table_report im block i addressing bounds table sec lower upper src entries =
     (let bytes = int (length (concat (map te_bytes entries)));
          targets = sorted_list_of_set (set (map te_target entries))
      in JObj
        [(''evidence_status'', JStr ''derived''), (''kind'', JStr ''indirect_jump_table_candidate''),
         (''block'', range_report block), (''instruction'', instruction_report im i),
         (''index_expression'', addressing), (''index_bounds'', bounds),
         (''table'', JObj
            [(''rva_start'', JInt table), (''rva_end'', JInt (table + bytes)), (''va_start'', JInt (im_base im + table)),
             (''entry_width'', JInt 4), (''entries'', JInt (int (length entries))),
             (''bytes_sha256'', JStr (im_sha im (concat (map te_bytes entries)))), (''section'', section_report sec)]),
         (''table_bounds'', JObj
            [(''lower'', JInt lower), (''upper'', JInt upper), (''entries'', JInt (int (length entries))), (''source'', src)]),
         (''case_targets'', JList (map (\<lambda>e. JObj
            [(''index'', JInt (te_index e)), (''entry_rva'', JInt (te_entry e)), (''entry_va'', JInt (im_base im + te_entry e)),
             (''target_va'', JInt (te_value e)), (''target_rva'', JInt (te_target e)),
             (''target_section'', section_report (te_section e))]) entries)),
         (''unique_target_rvas'', JList (map JInt targets)),
         (''resolved_target_rva'', (case targets of [t] \<Rightarrow> JInt t | _ \<Rightarrow> JNull)),
         (''default_target_rva'', JNull),
         (''next_action'', JStr ''represent this dispatch with the recovered selector, bounded case table, and explicit jump targets'')])"

text \<open>
  \<open>_abi_indexed_jump_table_contract\<close> without \<open>bounds_override\<close>, which only another analysis passes.
  A table of no entries is impossible once the bounds are in order.
\<close>

definition indexed_jump_table_contract ::
  "pe_image \<Rightarrow> side \<Rightarrow> insn list \<Rightarrow> insn \<Rightarrow> mem_operand \<Rightarrow> json option" where
  "indexed_jump_table_contract im block instructions i m =
     (let addressing = mem_operand_report m; refuse = incomplete_table im block i addressing in
      if im_bitness im \<noteq> 32 then None
      else case mem_index m of
        None \<Rightarrow> None
      | Some index_register \<Rightarrow>
        if index_register = [] \<or> mem_base m \<noteq> None \<or> mem_scale m \<noteq> 4 then None
        else Some (case abi_value_to_rva im (mem_disp m) of
          None \<Rightarrow> refuse ''jump-table displacement is not an in-image table address'' None None
        | Some table \<Rightarrow> (case section_for_rva im table of
            None \<Rightarrow> refuse ''jump-table address does not resolve to readable PE section bytes'' (Some table) None
          | Some sec \<Rightarrow>
              if \<not> sec_readable sec
              then refuse ''jump-table address does not resolve to readable PE section bytes'' (Some table) None
              else case jump_table_index_bounds im instructions i index_register of
                None \<Rightarrow> refuse ''jump-table index bounds are not statically recovered'' (Some table) None
              | Some b \<Rightarrow>
                  if ib_lower b < 0 \<or> ib_upper b < ib_lower b \<or> ib_upper b - ib_lower b + 1 > 4096
                  then refuse ''jump-table index bounds are invalid or exceed the conservative resolver cap'' (Some table) None
                  else case table_entries im table (upto (ib_lower b) (ib_upper b)) of
                    Inl blocker \<Rightarrow> refuse blocker (Some table) (Some (bounds_report im b))
                  | Inr entries \<Rightarrow>
                      table_report im block i addressing (bounds_report im b) table sec (ib_lower b) (ib_upper b)
                        (JStr (ib_source b)) entries)))"

section \<open>Evidence of control transfers\<close>

definition refptr_direct_transfer :: "pe_image \<Rightarrow> side \<Rightarrow> insn \<Rightarrow> mem_operand \<Rightarrow> int \<Rightarrow> int option \<Rightarrow> json option" where
  "refptr_direct_transfer im block i m n target =
     (case target of
        None \<Rightarrow> None
      | Some t \<Rightarrow>
          if mem_base m \<noteq> None \<or> mem_index m \<noteq> None then None
          else map_option (\<lambda>pointer. JObj
            [(''evidence_status'', JStr ''derived''), (''kind'', JStr ''resolved_refptr_direct_transfer''),
             (''block'', range_report block), (''instruction'', instruction_report im i),
             (''pointer_rva'', JInt pointer), (''pointer_section'', optional_section (section_for_rva im pointer)),
             (''target_rva'', JInt t), (''target_section'', optional_section (section_for_rva im t)),
             (''normalization'', JStr ''the immutable reference pointer resolves to this direct target'')])
            (absolute_mem_operand_rva im (Mem_op m n)))"

definition memory_jump :: "insn \<Rightarrow> (mem_operand \<times> int) option" where
  "memory_jump i =
     (if is_jump (in_mnemonic i) then (case in_operands i of [Mem_op m n] \<Rightarrow> Some (m, n) | _ \<Rightarrow> None) else None)"

definition switch_contracts :: "pe_image \<Rightarrow> side \<Rightarrow> insn list \<Rightarrow> json list" where
  "switch_contracts im block instructions =
     concat (map (\<lambda>i. case memory_jump i of
        None \<Rightarrow> []
      | Some (m, n) \<Rightarrow>
          let target = resolved_branch_target im i in
          if refptr_direct_transfer im block i m n target \<noteq> None then []
          else case indexed_jump_table_contract im block instructions i m of
                 Some contract \<Rightarrow> [contract]
               | None \<Rightarrow> [JObj
                   [(''evidence_status'', JStr (if target \<noteq> None then ''derived'' else ''incomplete'')),
                    (''kind'', JStr ''indirect_jump_table_candidate''), (''block'', range_report block),
                    (''instruction'', instruction_report im i), (''index_expression'', mem_operand_report m),
                    (''resolved_target_rva'', opt_int target), (''next_action'', JStr next_action_text)]])
       instructions)"

definition direct_refptr_transfers :: "pe_image \<Rightarrow> side \<Rightarrow> insn list \<Rightarrow> json list" where
  "direct_refptr_transfers im block instructions =
     List.map_filter (\<lambda>i. Option.bind (memory_jump i) (\<lambda>(m, n).
       refptr_direct_transfer im block i m n (resolved_branch_target im i))) instructions"

definition direct_control_transfers :: "pe_image \<Rightarrow> side \<Rightarrow> insn list \<Rightarrow> json list" where
  "direct_control_transfers im block instructions =
     List.map_filter (\<lambda>i.
       if is_jump (in_mnemonic i) \<and> length (in_operands i) = 1
       then map_option (\<lambda>t. JObj
              [(''evidence_status'', JStr ''derived''), (''kind'', JStr ''direct_control_transfer''),
               (''block'', range_report block), (''instruction'', instruction_report im i),
               (''target_rva'', JInt t), (''target_section'', optional_section (section_for_rva im t))])
              (direct_branch_target im i)
       else None) instructions"

end
