(* ===== verification/Symbolic_Operands.thy ===== *)
theory Symbolic_Operands
  imports Symbolic_Flags Machine_Code
begin

text \<open>
  Operands and memory of the static semantics (\<open>static_program/semantics/operands.py\<close>). The dictionaries
  and lists that the code passes around and mutates are the record \<open>sym_state\<close>, which every operation
  takes and returns; an operation that fails after it appended an event ends the execution of the
  block, so the events it left are not observed.

  Registers, flags and call inputs are pairs of a name and an expression: such a pair is the tuple
  \<open>XNode name [e]\<close>.
\<close>

section \<open>The state of a symbolic execution\<close>

datatype sym_outcome =
    Sym_fallthrough int
  | Sym_jump int
  | Sym_branch sx int int
  | Sym_return sx
  | Sym_indirect_jump sx
  | Sym_jump_table sx json
  | Sym_external_jump pe_import

record sym_state =
  ss_registers :: named
  ss_flags :: named
  ss_fpu_stack :: "sx list"
  ss_fpu_control :: sx
  ss_fpu_status :: sx
  ss_fpu_touched :: bool
  ss_outcome :: sym_outcome
  ss_ordered :: "(string \<times> int \<times> sx) list"
  ss_memory_events :: "sx list"
  ss_external_events :: "sx list"
  ss_faults :: "sx list"
  ss_rva :: int
  ss_writes :: "(sx \<times> int \<times> sx) list"
  ss_epoch :: "int option"
  ss_terminated :: bool

text \<open>\<open>_InstructionTaggedEvents.append\<close>\<close>

definition append_memory :: "sx \<Rightarrow> sym_state \<Rightarrow> sym_state" where
  "append_memory e s = s\<lparr>ss_memory_events := ss_memory_events s @ [e],
     ss_ordered := ss_ordered s @ [(''memory'', ss_rva s, e)]\<rparr>"

definition append_external :: "sx \<Rightarrow> sym_state \<Rightarrow> sym_state" where
  "append_external e s = s\<lparr>ss_external_events := ss_external_events s @ [e],
     ss_ordered := ss_ordered s @ [(''external'', ss_rva s, e)]\<rparr>"

definition append_fault :: "sx \<Rightarrow> sym_state \<Rightarrow> sym_state" where
  "append_fault e s = s\<lparr>ss_faults := ss_faults s @ [e],
     ss_ordered := ss_ordered s @ [(''fault'', ss_rva s, e)]\<rparr>"

definition set_reg :: "string \<Rightarrow> sx \<Rightarrow> sym_state \<Rightarrow> sym_state" where
  "set_reg name e s = s\<lparr>ss_registers := AList.update name e (ss_registers s)\<rparr>"

definition set_flags :: "named \<Rightarrow> sym_state \<Rightarrow> sym_state" where
  "set_flags values s = s\<lparr>ss_flags := updates (ss_flags s) values\<rparr>"

section \<open>Registers and their parts\<close>

definition register_parts :: "(string \<times> string \<times> int \<times> int) list" where
  "register_parts =
     [(''eax'', ''eax'', 0, 32), (''ax'', ''eax'', 0, 16), (''al'', ''eax'', 0, 8), (''ah'', ''eax'', 8, 8),
      (''ebx'', ''ebx'', 0, 32), (''bx'', ''ebx'', 0, 16), (''bl'', ''ebx'', 0, 8), (''bh'', ''ebx'', 8, 8),
      (''ecx'', ''ecx'', 0, 32), (''cx'', ''ecx'', 0, 16), (''cl'', ''ecx'', 0, 8), (''ch'', ''ecx'', 8, 8),
      (''edx'', ''edx'', 0, 32), (''dx'', ''edx'', 0, 16), (''dl'', ''edx'', 0, 8), (''dh'', ''edx'', 8, 8),
      (''esi'', ''esi'', 0, 32), (''si'', ''esi'', 0, 16), (''edi'', ''edi'', 0, 32), (''di'', ''edi'', 0, 16),
      (''ebp'', ''ebp'', 0, 32), (''bp'', ''ebp'', 0, 16), (''esp'', ''esp'', 0, 32), (''sp'', ''esp'', 0, 16)]"

definition register_part :: "string \<Rightarrow> (string \<times> int \<times> int) option" where
  "register_part name = map_of register_parts (py_lower name)"

definition is_supported_register_name :: "string \<Rightarrow> bool" where
  "is_supported_register_name name = (register_part name \<noteq> None)"

definition operand_width_bits :: "operand \<Rightarrow> int" where
  "operand_width_bits p =
     (case (case p of Reg_op name _ \<Rightarrow> register_part name | _ \<Rightarrow> None) of
        Some (_, _, w) \<Rightarrow> w
      | None \<Rightarrow> if operand_size p \<noteq> 0 then max 1 (operand_size p) * 8 else 32)"

fun read_part :: "int \<Rightarrow> int \<Rightarrow> sx \<Rightarrow> sx" where
  "read_part pos w (XWriteBits b pos' w' v) =
     (if pos' = pos \<and> w' = w then expr_mask v w
      else expr_mask (if pos \<noteq> 0 then expr_lshr (XWriteBits b pos' w' v) (XConst pos) else XWriteBits b pos' w' v) w)"
| "read_part pos w e = expr_mask (if pos \<noteq> 0 then expr_lshr e (XConst pos) else e) w"

definition read_register_expr :: "string \<Rightarrow> named \<Rightarrow> sx option" where
  "read_register_expr name regs =
     Option.bind (register_part name) (\<lambda>(base, pos, w). map_option (read_part pos w) (map_of regs base))"

fun write_part :: "int \<Rightarrow> int \<Rightarrow> sx \<Rightarrow> sx \<Rightarrow> sx" where
  "write_part pos w v (XWriteBits b pos' w' u) =
     XWriteBits (if pos' = pos \<and> w' = w then b else XWriteBits b pos' w' u) pos w v"
| "write_part pos w v e = XWriteBits e pos w v"

definition write_register_expr :: "string \<Rightarrow> sx \<Rightarrow> named \<Rightarrow> named option" where
  "write_register_expr name e regs =
     (case register_part name of
        None \<Rightarrow> None
      | Some (base, pos, w) \<Rightarrow>
          let v = expr_mask e w in
          if w = 32 \<and> pos = 0 then Some (AList.update base v regs)
          else map_option (\<lambda>current. AList.update base (write_part pos w v current) regs) (map_of regs base))"

section \<open>Addresses\<close>

definition mem_address_expr :: "mem_operand \<Rightarrow> named \<Rightarrow> sx option" where
  "mem_address_expr m regs =
     (let segment = (case mem_segment m of
            None \<Rightarrow> Some []
          | Some name \<Rightarrow> if py_lower name = ''fs'' then Some [XNode ''fs_base'' []]
                         else if py_lower name \<notin> {''cs'', ''ds'', ''es'', ''ss''} then None else Some []);
          base = (case mem_base m of None \<Rightarrow> Some [] | Some name \<Rightarrow> map_option (\<lambda>e. [e]) (map_of regs name));
          index = (case mem_index m of
            None \<Rightarrow> Some []
          | Some name \<Rightarrow> map_option (\<lambda>e. [expr_mul e (XConst (mem_scale m))]) (map_of regs name));
          disp = (if mem_disp m \<noteq> 0 then [XConst (mem_disp m AND 0xFFFFFFFF)] else [])
      in Option.bind segment (\<lambda>a. Option.bind base (\<lambda>b. Option.bind index (\<lambda>c.
           case a @ b @ c @ disp of
             [] \<Rightarrow> Some (XConst 0)
           | e # es \<Rightarrow> Some (canonical_expr (foldl expr_add e es))))))"

section \<open>Memory\<close>

definition memory_expr :: "int \<Rightarrow> sx \<Rightarrow> sx" where
  "memory_expr w a = (if w = 32 then XNode ''mem32'' [a] else XNode ''mem'' [XNum w, a])"

definition memory_epoch_expr :: "int \<Rightarrow> sx \<Rightarrow> int option \<Rightarrow> sx" where
  "memory_epoch_expr w a epoch =
     (case epoch of None \<Rightarrow> memory_expr w a | Some k \<Rightarrow> XNode ''call_mem'' [XNum k, XNum w, a])"

text \<open>The latest write of the same width to the same canonical address is forwarded.\<close>

definition forwarded :: "int \<Rightarrow> sx \<Rightarrow> (sx \<times> int \<times> sx) list \<Rightarrow> sx option" where
  "forwarded w a writes =
     map_option (\<lambda>(_, _, v). v) (find (\<lambda>(a', w', _). w' = w \<and> canonical_expr a' = a) (rev writes))"

definition memory_read_expr :: "sx \<Rightarrow> int \<Rightarrow> sym_state \<Rightarrow> sx \<times> sym_state" where
  "memory_read_expr address w s =
     (let a = canonical_expr address;
          s' = append_memory (XNode ''read'' [memory_epoch_expr w a (ss_epoch s)]) s
      in case forwarded w a (ss_writes s) of
           Some v \<Rightarrow> (expr_mask v w, s')
         | None \<Rightarrow> (memory_epoch_expr w a (ss_epoch s), s'))"

definition memory_write_expr :: "sx \<Rightarrow> int \<Rightarrow> sx \<Rightarrow> sym_state \<Rightarrow> sym_state" where
  "memory_write_expr address w v s =
     (let a = canonical_expr address; v = expr_mask v w;
          s' = append_memory (XNode ''write'' [memory_expr w a, v]) s
      in s'\<lparr>ss_writes := ss_writes s' @ [(a, w, v)]\<rparr>)"

section \<open>Operands\<close>

definition operand_expr :: "operand \<Rightarrow> int \<Rightarrow> named \<Rightarrow> sx option" where
  "operand_expr p w regs =
     (case p of
        Imm_op k _ \<Rightarrow> Some (expr_mask (XConst (k AND 0xFFFFFFFF)) w)
      | Reg_op name _ \<Rightarrow> map_option (\<lambda>v. expr_mask v w) (read_register_expr name regs)
      | _ \<Rightarrow> None)"

text \<open>\<open>width_bits or _operand_width_bits(insn, operand)\<close>\<close>

definition width_or :: "int option \<Rightarrow> operand \<Rightarrow> int" where
  "width_or w p = (case w of Some n \<Rightarrow> if n \<noteq> 0 then n else operand_width_bits p | None \<Rightarrow> operand_width_bits p)"

definition read_operand_expr :: "operand \<Rightarrow> int option \<Rightarrow> sym_state \<Rightarrow> (sx \<times> sym_state) option" where
  "read_operand_expr p width s =
     (let w = width_or width p in
      case operand_expr p w (ss_registers s) of
        Some v \<Rightarrow> Some (v, s)
      | None \<Rightarrow> (case p of
          Mem_op m _ \<Rightarrow> map_option (\<lambda>a. memory_read_expr a w s) (mem_address_expr m (ss_registers s))
        | _ \<Rightarrow> None))"

definition write_operand_expr :: "operand \<Rightarrow> sx \<Rightarrow> int option \<Rightarrow> sym_state \<Rightarrow> sym_state option" where
  "write_operand_expr p v width s =
     (case p of
        Reg_op name _ \<Rightarrow> map_option (\<lambda>regs. s\<lparr>ss_registers := regs\<rparr>) (write_register_expr name v (ss_registers s))
      | Mem_op m _ \<Rightarrow> map_option (\<lambda>a. memory_write_expr a (width_or width p) v s) (mem_address_expr m (ss_registers s))
      | _ \<Rightarrow> None)"

section \<open>Calls\<close>

text \<open>\<open>_stack_relative_offset\<close>: the distance of an address above the stack pointer, if it is one.\<close>

fun offset_parts :: "sx \<Rightarrow> int \<Rightarrow> bool \<Rightarrow> sx list \<Rightarrow> (int \<times> bool) option" where
  "offset_parts esp k saw [] = Some (k, saw)"
| "offset_parts esp k saw (p # ps) =
     (if p = esp then offset_parts esp k True ps
      else case p of XConst n \<Rightarrow> offset_parts esp ((k + n) AND 0xFFFFFFFF) saw ps | _ \<Rightarrow> None)"

definition stack_relative_offset :: "sx \<Rightarrow> sx \<Rightarrow> int option" where
  "stack_relative_offset address esp =
     (let a = canonical_expr address; e = canonical_expr esp in
      if a = e then Some 0
      else case a of
        XAdd ps \<Rightarrow> (case offset_parts e 0 False ps of
            Some (k, True) \<Rightarrow> Some (if k AND 0x80000000 \<noteq> 0 then k - 0x100000000 else k)
          | _ \<Rightarrow> None)
      | XSub l r \<Rightarrow> (if l = e then (case r of XConst n \<Rightarrow> Some (- n) | _ \<Rightarrow> None) else None)
      | _ \<Rightarrow> None)"

definition stack_argument_writes :: "sx \<Rightarrow> (sx \<times> int \<times> sx) list \<Rightarrow> (int \<times> int \<times> sx) list" where
  "stack_argument_writes esp writes =
     (let found = List.map_filter (\<lambda>(a, w, _). case stack_relative_offset a esp of
            Some k \<Rightarrow> if 0 \<le> k \<and> k \<le> 0x100 then Some (k, w) else None | None \<Rightarrow> None) writes
      in map (\<lambda>(k, w). (k, w, memory_expr w (canonical_expr (expr_add esp (XConst k)))))
           (sort_key fst (sort_key snd (remdups found))))"

definition named_inputs :: "named \<Rightarrow> sx" where
  "named_inputs d = XTuple (map (\<lambda>(k, e). XNode k [canonical_expr e]) (sort_key fst d))"

definition call_stack_inputs :: "named \<Rightarrow> (sx \<times> int \<times> sx) list \<Rightarrow> sx" where
  "call_stack_inputs regs writes =
     XTuple (map (\<lambda>(k, w, e). XTuple [XNum k, XNum w, e])
       (stack_argument_writes (entry_or regs ''esp'' (reg_leaf ''esp'')) writes))"

definition internal_call_event :: "int \<Rightarrow> int \<Rightarrow> sym_state \<Rightarrow> sx" where
  "internal_call_event target ret_rva s =
     XNode ''internal_call'' [XNum target, XNum ret_rva, named_inputs (ss_registers s),
       call_stack_inputs (ss_registers s) (ss_writes s), named_inputs (ss_flags s)]"

definition opt_text :: "string option \<Rightarrow> sx" where
  "opt_text v = (case v of None \<Rightarrow> XNone | Some t \<Rightarrow> XTxt t)"

definition opt_num :: "int option \<Rightarrow> sx" where
  "opt_num v = (case v of None \<Rightarrow> XNone | Some n \<Rightarrow> XNum n)"

text \<open>\<open>_external_import_call_event\<close>, whose callers all ask for the captured inputs.\<close>

definition external_import_call_event :: "pe_import \<Rightarrow> int \<Rightarrow> bool \<Rightarrow> sym_state \<Rightarrow> sx" where
  "external_import_call_event imported ret_rva auto_inputs s =
     XNode ''external_call''
       ([XTxt (imp_dll imported), opt_text (imp_symbol imported), opt_num (imp_ordinal imported), XTuple []]
        @ (if auto_inputs
           then [XNode ''machine_call_boundary'' [XNum ret_rva, named_inputs (ss_registers s),
                   call_stack_inputs (ss_registers s) (ss_writes s), named_inputs (ss_flags s)]]
           else []))"

definition indirect_call_event :: "sx \<Rightarrow> int \<Rightarrow> sym_state \<Rightarrow> sx" where
  "indirect_call_event target ret_rva s =
     XNode ''indirect_call'' [canonical_expr target, XNum ret_rva, named_inputs (ss_registers s),
       call_stack_inputs (ss_registers s) (ss_writes s), named_inputs (ss_flags s)]"

section \<open>Contracts of external calls\<close>

text \<open>\<open>int(text, 0)\<close>: a literal with an optional base prefix; decimals have no leading zero.\<close>

definition digit_value :: "char \<Rightarrow> int" where
  "digit_value c = (let n = of_char c :: int in
     if 48 \<le> n \<and> n \<le> 57 then n - 48 else if 97 \<le> n \<and> n \<le> 122 then n - 87
     else if 65 \<le> n \<and> n \<le> 90 then n - 55 else 99)"

fun based_digits :: "int \<Rightarrow> string \<Rightarrow> int list option" where
  "based_digits b [] = None"
| "based_digits b [c] = (if digit_value c < b then Some [digit_value c] else None)"
| "based_digits b (c # d # cs) =
     (if \<not> digit_value c < b then None
      else map_option ((#) (digit_value c)) (based_digits b (if d = CHR ''_'' then cs else d # cs)))"

definition based_value :: "int \<Rightarrow> string \<Rightarrow> int option" where
  "based_value b text =
     map_option (foldl (\<lambda>n k. b * n + k) 0)
       (based_digits b (case text of c # cs \<Rightarrow> if c = CHR ''_'' \<and> b \<noteq> 10 then cs else text | [] \<Rightarrow> text))"

definition int_literal :: "string \<Rightarrow> int res" where
  "int_literal s =
     (let t = strip s;
          sign = (if t \<noteq> [] \<and> hd t = CHR ''-'' then - 1 else 1);
          u = (if t \<noteq> [] \<and> hd t \<in> {CHR ''-'', CHR ''+''} then tl t else t);
          p = py_lower (take 2 u);
          v = (if p = ''0x'' then based_value 16 (drop 2 u)
               else if p = ''0o'' then based_value 8 (drop 2 u)
               else if p = ''0b'' then based_value 2 (drop 2 u)
               else Option.bind (based_value 10 u) (\<lambda>n.
                      if hd u = CHR ''0'' \<and> n \<noteq> 0 then None else Some n))
      in case v of None \<Rightarrow> Raise Value_error | Some n \<Rightarrow> Ok (sign * n))"

fun parse_int :: "json \<Rightarrow> int res" where
  "parse_int (JInt n) = Ok n"
| "parse_int (JStr s) = int_literal s"
| "parse_int v = Raise (Input_error (''expected integer or integer string, got '' @ py_repr v))"

definition external_call_contract :: "members \<Rightarrow> int \<Rightarrow> members option" where
  "external_call_contract source k =
     (case jget_default source ''external_calls'' (jget_default source ''external_events'' (JList [])) of
        JList cs \<Rightarrow> (if k \<ge> int (length cs) then None
          else case py_index cs k of Inr (JObj ms) \<Rightarrow> Some ms | _ \<Rightarrow> None)
      | _ \<Rightarrow> None)"

text \<open>
  One argument: \<open>Ok None\<close> is the code's \<open>None\<close>. A text names a register; an object says a constant, a
  register, a stack slot or a memory cell, in that order of preference.
\<close>

definition read_at :: "sx \<Rightarrow> json \<Rightarrow> sym_state \<Rightarrow> (sx option \<times> sym_state) res" where
  "read_at base k s =
     bind (parse_int k) (\<lambda>n. let (v, s') = memory_read_expr (expr_add base (XConst n)) 32 s in Ok (Some v, s'))"

definition external_arg_object :: "members \<Rightarrow> sym_state \<Rightarrow> (sx option \<times> sym_state) res" where
  "external_arg_object ms s =
     (let regs = ss_registers s;
          named = (if py_truthy (jget ms ''reg'') then jget ms ''reg'' else jget ms ''register'');
          reg_of = (if named = JNull \<and> jget ms ''kind'' = JStr ''reg'' then jget ms ''name'' else named);
          slot = (if jhas ms ''stack'' then jget ms ''stack'' else jget ms ''stack_offset'');
          offset = (if slot = JNull \<and> jget ms ''kind'' = JStr ''stack'' then jget_default ms ''offset'' (JInt 0) else slot)
      in if jhas ms ''const'' then bind (parse_int (jget ms ''const'')) (\<lambda>n. Ok (Some (XConst n), s))
         else if reg_of \<noteq> JNull then Ok (read_register_expr (py_lower (py_str reg_of)) regs, s)
         else if offset \<noteq> JNull then bind (entry regs ''esp'') (\<lambda>esp. read_at esp offset s)
         else if jget ms ''kind'' = JStr ''memory'' then
           (case map_of regs (py_lower (py_str (jget_default ms ''base'' (JStr ''esp'')))) of
              None \<Rightarrow> Ok (None, s)
            | Some base \<Rightarrow> read_at base (jget_default ms ''offset'' (JInt 0)) s)
         else Ok (None, s))"

fun external_arg_expr :: "json \<Rightarrow> sym_state \<Rightarrow> (sx option \<times> sym_state) res" where
  "external_arg_expr (JInt n) s = Ok (Some (XConst n), s)"
| "external_arg_expr (JBool b) s = Ok (Some (XConst (of_bool b)), s)"
| "external_arg_expr (JStr t) s = Ok (read_register_expr (py_lower t) (ss_registers s), s)"
| "external_arg_expr (JObj ms) s = external_arg_object ms s"
| "external_arg_expr _ s = Ok (None, s)"

fun external_arg_list :: "json list \<Rightarrow> sym_state \<Rightarrow> (sx list option \<times> sym_state) res" where
  "external_arg_list [] s = Ok (Some [], s)"
| "external_arg_list (a # as) s =
     bind (external_arg_expr a s) (\<lambda>(v, s). case v of
        None \<Rightarrow> Ok (None, s)
      | Some e \<Rightarrow> bind (external_arg_list as s) (\<lambda>(es, s). Ok (map_option ((#) e) es, s)))"

definition external_call_args :: "members \<Rightarrow> sym_state \<Rightarrow> (sx list option \<times> sym_state) res" where
  "external_call_args contract s =
     (case jget_default contract ''args'' (JList []) of
        JList as \<Rightarrow> external_arg_list as s
      | _ \<Rightarrow> Ok (None, s))"

definition external_stack_adjust :: "members \<Rightarrow> int res" where
  "external_stack_adjust contract =
     (let v = jget_default contract ''stack_adjust'' (jget_default contract ''stack_bytes_cleaned'' (JInt 0))
      in if v = JNull then Ok 0 else parse_int v)"

section \<open>The x87 stack\<close>

definition find_text :: "string \<Rightarrow> string \<Rightarrow> nat option" where
  "find_text needle text =
     find (\<lambda>i. take (length needle) (drop i text) = needle) [0..<Suc (length text - length needle)]"

definition st_index :: "string \<Rightarrow> int option" where
  "st_index raw =
     (let text = py_lower (strip raw) in
      if text = [] then None
      else case find_text ''st('' text of
        None \<Rightarrow> if text = ''st'' then Some 0 else None
      | Some i \<Rightarrow>
          let start = i + 3; tail = drop start text in
          case find_text '')'' tail of
            None \<Rightarrow> None
          | Some k \<Rightarrow> if k = 0 then None
              else case int_of_text (take k tail) of Inr n \<Rightarrow> Some n | Inl _ \<Rightarrow> None)"

definition x87_push :: "sx \<Rightarrow> sx list \<Rightarrow> sx list" where
  "x87_push v stack = take 8 (canonical_expr v # stack)"

definition fill_empty :: "sx list \<Rightarrow> sx list" where
  "fill_empty stack = stack @ map (\<lambda>i. XNode ''fpu_empty'' [XNum (int i)]) [length stack..<8]"

definition x87_pop :: "sx list \<Rightarrow> sx list" where
  "x87_pop stack = fill_empty (tl stack)"

definition x87_binary :: "string \<Rightarrow> sx \<Rightarrow> sx \<Rightarrow> sx" where
  "x87_binary operator l r = XNode (''fpu_'' @ operator) [canonical_expr l, canonical_expr r]"

definition x87_memory_value :: "operand \<Rightarrow> bool \<Rightarrow> sym_state \<Rightarrow> (sx \<times> sym_state) option" where
  "x87_memory_value p integer s =
     (case p of
        Mem_op m _ \<Rightarrow>
          map_option (\<lambda>a.
            let w = operand_width_bits p in
            if w \<le> 32 then
              (let (v, s) = memory_read_expr a w s
               in (XNode (if integer then ''fpu_int'' else ''fpu_mem'') [XNum w, v], s))
            else (let (low, s) = memory_read_expr a 32 s;
                      (high, s) = memory_read_expr (expr_add a (XConst 4)) 32 s
                  in (XNode ''fpu_mem64'' [low, high], s)))
            (mem_address_expr m (ss_registers s))
      | _ \<Rightarrow> None)"

definition x87_operand_value :: "operand \<Rightarrow> string \<Rightarrow> bool \<Rightarrow> sym_state \<Rightarrow> (sx \<times> sym_state) option" where
  "x87_operand_value p op_str integer s =
     (case p of
        Mem_op _ _ \<Rightarrow> x87_memory_value p integer s
      | _ \<Rightarrow> (case st_index op_str of
          Some k \<Rightarrow> (if 0 \<le> k \<and> k < int (length (ss_fpu_stack s)) then Some (ss_fpu_stack s ! nat k, s) else None)
        | None \<Rightarrow> None))"

definition x87_store_memory :: "operand \<Rightarrow> sx \<Rightarrow> bool \<Rightarrow> sym_state \<Rightarrow> sym_state option" where
  "x87_store_memory p v integer s =
     (case p of
        Mem_op m _ \<Rightarrow>
          map_option (\<lambda>a.
            let w = operand_width_bits p in
            if integer then memory_write_expr a (min w 32) (XNode ''fpu_int32'' [v, ss_fpu_control s]) s
            else if w \<le> 32 then memory_write_expr a w (XNode ''fpu_bits_lo'' [v]) s
            else memory_write_expr (expr_add a (XConst 4)) 32 (XNode ''fpu_bits_hi'' [v])
                   (memory_write_expr a 32 (XNode ''fpu_bits_lo'' [v]) s))
            (mem_address_expr m (ss_registers s))
      | _ \<Rightarrow> None)"

end
