(* ===== verification/Symbolic_Execute.thy ===== *)
theory Symbolic_Execute
  imports Symbolic_Operands
begin

text \<open>
  The symbolic execution of one block (\<open>static_program/semantics/symbolic_execution.py\<close>): one definition
  for every instruction or family of instructions that \<open>_symbolic_execute\<close> handles, with its refusals,
  the choice between them, the loop over the decoded instructions and the observables at the end.
\<close>

section \<open>Outcomes of an instruction\<close>

datatype stop = Incomplete string string | Failed py_error

datatype 'a run = Halt stop | Go 'a

primrec andthen :: "'a run \<Rightarrow> ('a \<Rightarrow> 'b run) \<Rightarrow> 'b run" where
  "andthen (Halt e) f = Halt e"
| "andthen (Go a) f = f a"

definition unsupported :: "string \<Rightarrow> 'a run" where
  "unsupported why = Halt (Incomplete ''unsupported_semantics'' why)"

definition expect :: "string \<Rightarrow> 'a option \<Rightarrow> 'a run" where
  "expect why v = (case v of None \<Rightarrow> unsupported why | Some a \<Rightarrow> Go a)"

definition target_expect :: "string \<Rightarrow> 'a option \<Rightarrow> 'a run" where
  "target_expect why v = (case v of None \<Rightarrow> Halt (Incomplete ''unknown_target'' why) | Some a \<Rightarrow> Go a)"

definition run_of :: "'a res \<Rightarrow> 'a run" where
  "run_of v = (case v of Inl e \<Rightarrow> Halt (Failed e) | Inr a \<Rightarrow> Go a)"

text \<open>\<open>registers[name]\<close> and \<open>flags[name]\<close>\<close>

definition reg_of :: "string \<Rightarrow> sym_state \<Rightarrow> sx run" where
  "reg_of name s = run_of (entry (ss_registers s) name)"

definition flag_of :: "string \<Rightarrow> sym_state \<Rightarrow> sx run" where
  "flag_of name s = run_of (entry (ss_flags s) name)"

definition direction_expr :: "sym_state \<Rightarrow> sx" where
  "direction_expr s = entry_or (ss_flags s) ''df'' (flag_leaf ''df'')"

definition put_flag :: "string \<Rightarrow> sx \<Rightarrow> sym_state \<Rightarrow> sym_state" where
  "put_flag name e s = set_flags [(name, e)] s"

definition get :: "string \<Rightarrow> operand \<Rightarrow> int \<Rightarrow> sym_state \<Rightarrow> (sx \<times> sym_state) run" where
  "get why p w s = expect why (read_operand_expr p (Some w) s)"

definition put :: "string \<Rightarrow> operand \<Rightarrow> sx \<Rightarrow> int \<Rightarrow> sym_state \<Rightarrow> sym_state run" where
  "put why p v w s = expect why (write_operand_expr p v (Some w) s)"

definition put_reg :: "string \<Rightarrow> string \<Rightarrow> sx \<Rightarrow> sym_state \<Rightarrow> sym_state run" where
  "put_reg why name v s =
     andthen (expect why (write_register_expr name v (ss_registers s))) (\<lambda>regs. Go (s\<lparr>ss_registers := regs\<rparr>))"

fun reg_or_mem :: "operand \<Rightarrow> bool" where
  "reg_or_mem (Reg_op _ _) = True"
| "reg_or_mem (Mem_op _ _) = True"
| "reg_or_mem _ = False"

text \<open>What the execution is given besides the state.\<close>

record block_env =
  be_image :: pe_image
  be_side :: side
  be_instructions :: "insn list"
  be_source :: members
  be_index_base :: int

definition event_index :: "block_env \<Rightarrow> sym_state \<Rightarrow> int" where
  "event_index en s = be_index_base en + int (length (ss_external_events s))"

definition next_rva :: "insn \<Rightarrow> sym_state \<Rightarrow> int" where
  "next_rva i s = ss_rva s + in_size i"

definition finish_with :: "sym_outcome \<Rightarrow> sym_state \<Rightarrow> sym_state" where
  "finish_with out s = s\<lparr>ss_outcome := out, ss_terminated := True\<rparr>"

text \<open>After a call whose effects are unknown, nothing of the old state is left.\<close>

definition forget_memory :: "int \<Rightarrow> sym_state \<Rightarrow> sym_state" where
  "forget_memory k s = s\<lparr>ss_writes := [], ss_epoch := Some k\<rparr>"

definition after_call :: "int \<Rightarrow> sym_state \<Rightarrow> sym_state" where
  "after_call k s = (forget_memory k s)\<lparr>
     ss_registers := map (\<lambda>(name, _). (name, XLeaf ''call_response'' [XNum k, XTxt name])) (ss_registers s),
     ss_flags := map (\<lambda>(name, _). (name, XLeaf ''call_flag'' [XNum k, XTxt name])) (ss_flags s)\<rparr>"

section \<open>Control transfers\<close>

definition exec_sahf :: "insn \<Rightarrow> sym_state \<Rightarrow> sym_state run" where
  "exec_sahf i s =
     (if in_operands i \<noteq> [] then unsupported ''sahf takes no explicit operands''
      else andthen (expect ''sahf AH input is unavailable'' (read_register_expr ''ah'' (ss_registers s))) (\<lambda>ah.
        Go (set_flags (map (\<lambda>(name, k). (name, bool_eq (expr_and (expr_lshr ah (XConst k)) (XConst 1)) (XConst 1)))
          [(''cf'', 0), (''pf'', 2), (''af'', 4), (''zf'', 6), (''sf'', 7)]) s)))"

definition derived_contract :: "json option \<Rightarrow> json option" where
  "derived_contract c =
     (case c of Some (JObj ms) \<Rightarrow> if jget ms ''evidence_status'' = JStr ''derived'' then c else None | _ \<Rightarrow> None)"

definition exec_jump :: "block_env \<Rightarrow> insn \<Rightarrow> sym_state \<Rightarrow> sym_state run" where
  "exec_jump en i s =
     (case external_import_jump (be_image en) i of
        Some imported \<Rightarrow>
          Go (finish_with (Sym_external_jump imported)
                (append_external (external_import_call_event imported (next_rva i s) True s) s))
      | None \<Rightarrow> (case resolved_branch_target (be_image en) i of
          Some t \<Rightarrow> Go (finish_with (Sym_jump t) s)
        | None \<Rightarrow> (case in_operands i of
            [p] \<Rightarrow> andthen (target_expect ''jump target expression is not modeled'' (read_operand_expr p (Some 32) s))
              (\<lambda>(e, s). Go (finish_with
                 (case p of
                    Mem_op m _ \<Rightarrow>
                      (case derived_contract (indexed_jump_table_contract (be_image en) (be_side en) (be_instructions en) i m) of
                         Some c \<Rightarrow> Sym_jump_table e c | None \<Rightarrow> Sym_indirect_jump e)
                  | _ \<Rightarrow> Sym_indirect_jump e) s))
          | _ \<Rightarrow> target_expect ''jump target is not resolved'' None)))"

definition exec_branch :: "block_env \<Rightarrow> insn \<Rightarrow> sym_state \<Rightarrow> sym_state run" where
  "exec_branch en i s =
     andthen (target_expect ''direct conditional branch target is not resolved'' (resolved_branch_target (be_image en) i)) (\<lambda>t.
     andthen (run_of (branch_condition (in_mnemonic i) (ss_flags s))) (\<lambda>found.
     andthen (expect ''conditional branch predicate is not modeled'' found) (\<lambda>c.
       Go (finish_with (Sym_branch c t (next_rva i s)) s))))"

definition unknown_call :: "block_env \<Rightarrow> sx \<Rightarrow> sym_state \<Rightarrow> sym_state" where
  "unknown_call en e s = after_call (event_index en s) (append_external e s)"

definition contract_call :: "block_env \<Rightarrow> pe_import \<Rightarrow> members \<Rightarrow> sym_state \<Rightarrow> sym_state run" where
  "contract_call en imported contract s =
     (let k = event_index en s in
      andthen (run_of (external_call_args contract s)) (\<lambda>(found, s).
      andthen (expect ''external call argument contract is not supported'' found) (\<lambda>args.
        let e = XNode ''external_call'' [XTxt (imp_dll imported), opt_text (imp_symbol imported),
                  opt_num (imp_ordinal imported), XTuple args];
            s = set_reg ''eax'' (XLeaf ''env_response'' [XNum k]) (append_external e s) in
        andthen (run_of (external_stack_adjust contract)) (\<lambda>n.
          if n = 0 then Go s
          else andthen (reg_of ''esp'' s) (\<lambda>esp. Go (set_reg ''esp'' (expr_add esp (XConst n)) s))))))"

definition exec_call :: "block_env \<Rightarrow> insn \<Rightarrow> sym_state \<Rightarrow> sym_state run" where
  "exec_call en i s =
     (case in_operands i of
        [p] \<Rightarrow> (case external_import_call (be_image en) i of
            Some imported \<Rightarrow> (case external_call_contract (be_source en) (event_index en s) of
                None \<Rightarrow> Go (unknown_call en (external_import_call_event imported (next_rva i s) True s) s)
              | Some contract \<Rightarrow> contract_call en imported contract s)
          | None \<Rightarrow> (case resolved_branch_target (be_image en) i of
              Some t \<Rightarrow> Go (unknown_call en (internal_call_event t (next_rva i s) s) s)
            | None \<Rightarrow>
                andthen (target_expect ''indirect call target expression is not modeled'' (read_operand_expr p (Some 32) s))
                  (\<lambda>(e, s). Go (unknown_call en (indirect_call_event e (next_rva i s) s) s))))
      | _ \<Rightarrow> unsupported ''unsupported call operand shape'')"

definition return_with :: "int \<Rightarrow> sym_state \<Rightarrow> sym_state run" where
  "return_with n s =
     andthen (reg_of ''esp'' s) (\<lambda>esp.
       let (e, s) = memory_read_expr esp 32 s
       in Go (finish_with (Sym_return e) (set_reg ''esp'' (expr_add esp (XConst n)) s)))"

definition exec_ret :: "insn \<Rightarrow> sym_state \<Rightarrow> sym_state run" where
  "exec_ret i s =
     (case in_operands i of
        [] \<Rightarrow> return_with 4 s
      | [Imm_op n _] \<Rightarrow> return_with (4 + (n AND 0xFFFFFFFF)) s
      | [_] \<Rightarrow> unsupported ''unsupported ret operand''
      | _ \<Rightarrow> unsupported ''unsupported ret operand shape'')"

definition exec_leave :: "sym_state \<Rightarrow> sym_state run" where
  "exec_leave s =
     andthen (reg_of ''ebp'' s) (\<lambda>frame.
       let (v, s) = memory_read_expr frame 32 s
       in Go (set_reg ''esp'' (expr_add frame (XConst 4)) (set_reg ''ebp'' v s)))"

definition exec_flag :: "string \<Rightarrow> sym_state \<Rightarrow> sym_state" where
  "exec_flag mnemonic s =
     (if mnemonic = ''clc'' then put_flag ''cf'' XFalse s
      else put_flag ''df'' (if mnemonic = ''std'' then XTrue else XFalse) s)"

section \<open>Moves\<close>

definition exec_mov :: "insn \<Rightarrow> sym_state \<Rightarrow> sym_state run" where
  "exec_mov i s =
     (case in_operands i of
        [p, q] \<Rightarrow> (case p of
            Reg_op name _ \<Rightarrow>
              andthen (get ''unsupported mov source operand'' q (operand_width_bits p) s) (\<lambda>(v, s).
                put_reg ''unsupported mov destination register'' name v s)
          | Mem_op m _ \<Rightarrow>
              let w = operand_width_bits p; address = mem_address_expr m (ss_registers s);
                  why = ''unsupported mov memory write operand'' in
              andthen (get why q w s) (\<lambda>(v, s).
              andthen (expect why address) (\<lambda>a. Go (memory_write_expr a w v s)))
          | _ \<Rightarrow> unsupported ''unsupported mov destination operand'')
      | _ \<Rightarrow> unsupported ''unsupported mov operand shape'')"

definition exec_extend :: "insn \<Rightarrow> sym_state \<Rightarrow> sym_state run" where
  "exec_extend i s =
     (case in_operands i of
        [Reg_op name _, q] \<Rightarrow>
          let w = operand_width_bits q in
          andthen (get ''unsupported movzx/movsx source operand'' q w s) (\<lambda>(v, s).
            put_reg ''unsupported movzx/movsx destination register'' name
              (if in_mnemonic i = ''movzx'' then expr_mask v w else expr_sign_extend v w) s)
      | _ \<Rightarrow> unsupported ''unsupported movzx/movsx operand shape'')"

definition exec_push :: "insn \<Rightarrow> sym_state \<Rightarrow> sym_state run" where
  "exec_push i s =
     (case in_operands i of
        [p] \<Rightarrow>
          andthen (expect ''unsupported push operand'' (read_operand_expr p None s)) (\<lambda>(v, s).
          andthen (reg_of ''esp'' s) (\<lambda>esp.
            let esp' = expr_sub esp (XConst 4)
            in Go (set_reg ''esp'' esp' (memory_write_expr esp' 32 v s))))
      | _ \<Rightarrow> unsupported ''unsupported push operand shape'')"

fun push_saved :: "sx \<Rightarrow> string list \<Rightarrow> int \<Rightarrow> sym_state \<Rightarrow> sym_state run" where
  "push_saved esp [] k s = Go s"
| "push_saved esp (name # names) k s =
     andthen (reg_of name s) (\<lambda>v.
       push_saved esp names (k + 1) (memory_write_expr (expr_sub esp (XConst (4 * k))) 32 v s))"

definition exec_pushad :: "sym_state \<Rightarrow> sym_state run" where
  "exec_pushad s =
     andthen (reg_of ''esp'' s) (\<lambda>esp.
     andthen (push_saved esp [''eax'', ''ecx'', ''edx'', ''ebx'', ''esp'', ''ebp'', ''esi'', ''edi''] 1 s) (\<lambda>s.
       Go (set_reg ''esp'' (expr_sub esp (XConst 32)) s)))"

definition exec_pop :: "insn \<Rightarrow> sym_state \<Rightarrow> sym_state run" where
  "exec_pop i s =
     (case in_operands i of
        [p] \<Rightarrow>
          if \<not> reg_or_mem p then unsupported ''only register/memory-destination pop is modeled''
          else if operand_width_bits p \<noteq> 32 then unsupported ''only 32-bit pop destinations are modeled''
          else andthen (reg_of ''esp'' s) (\<lambda>esp.
            let (v, s) = memory_read_expr esp 32 s;
                s = set_reg ''esp'' (expr_add esp (XConst 4)) s
            in (case p of
                  Reg_op name _ \<Rightarrow>
                    if is_supported_register_name name then put_reg ''unsupported pop destination register'' name v s
                    else unsupported ''unsupported pop destination register''
                | _ \<Rightarrow> put ''unsupported pop destination memory'' p v 32 s))
      | _ \<Rightarrow> unsupported ''only register/memory-destination pop is modeled'')"

section \<open>Arithmetic\<close>

definition exec_add_sub :: "insn \<Rightarrow> sym_state \<Rightarrow> sym_state run" where
  "exec_add_sub i s =
     (case in_operands i of
        [p, q] \<Rightarrow>
          if \<not> reg_or_mem p then unsupported ''only register/memory-destination arithmetic is modeled''
          else let w = operand_width_bits p; m = in_mnemonic i; why = ''unsupported arithmetic source operand'' in
            andthen (get why p w s) (\<lambda>(l, s).
            andthen (get why q w s) (\<lambda>(r, s).
              let res = expr_mask (if m = ''add'' then expr_add l r else expr_sub l r) w
              in put ''unsupported arithmetic destination operand'' p res w (set_flags (arithmetic_flags m l r res w) s)))
      | _ \<Rightarrow> unsupported ''only register/memory-destination arithmetic is modeled'')"

definition exec_inc_dec :: "insn \<Rightarrow> sym_state \<Rightarrow> sym_state run" where
  "exec_inc_dec i s =
     (case in_operands i of
        [p] \<Rightarrow>
          if \<not> reg_or_mem p then unsupported ''only register/memory-destination unary arithmetic is modeled''
          else let w = operand_width_bits p; inc = (in_mnemonic i = ''inc''); why = ''unsupported inc/dec destination operand'' in
            if w \<notin> {8, 16, 32} then unsupported ''only 8/16/32-bit inc/dec is modeled''
            else andthen (get why p w s) (\<lambda>(v, s).
              let one = XConst 1; res = expr_mask (if inc then expr_add v one else expr_sub v one) w;
                  values = filter (\<lambda>(name, _). name \<noteq> ''cf'') (arithmetic_flags (if inc then ''add'' else ''sub'') v one res w)
              in put why p res w (set_flags values s))
      | _ \<Rightarrow> unsupported ''only register/memory-destination unary arithmetic is modeled'')"

definition exec_carry :: "insn \<Rightarrow> sym_state \<Rightarrow> sym_state run" where
  "exec_carry i s =
     (case in_operands i of
        [p, q] \<Rightarrow>
          if \<not> reg_or_mem p then unsupported ''only register/memory-destination carry arithmetic is modeled''
          else let w = operand_width_bits p; m = in_mnemonic i; why = ''unsupported carry arithmetic source operand'' in
            andthen (get why p w s) (\<lambda>(l, s).
            andthen (get why q w s) (\<lambda>(r, s).
            andthen (flag_of ''cf'' s) (\<lambda>cf.
              let bit = expr_bool_bit cf;
                  res = expr_mask (if m = ''adc'' then expr_add (expr_add l r) bit else expr_sub (expr_sub l r) bit) w
              in put ''unsupported carry arithmetic destination operand'' p res w
                   (set_flags (carry_arithmetic_flags m l r cf res w) s))))
      | _ \<Rightarrow> unsupported ''only register/memory-destination carry arithmetic is modeled'')"

definition imul_overflow_node :: "sx \<Rightarrow> sx \<Rightarrow> sx" where
  "imul_overflow_node l r = XNode ''imul_overflow'' [XNum 32, l, r, expr_imul_low l r, expr_imul_high l r]"

definition imul_wide :: "operand \<Rightarrow> sym_state \<Rightarrow> sym_state run" where
  "imul_wide p s =
     (if operand_width_bits p \<noteq> 32 then unsupported ''only 32-bit one-operand imul is modeled''
      else andthen (get ''unsupported imul source operand'' p 32 s) (\<lambda>(r, s).
        andthen (reg_of ''eax'' s) (\<lambda>l.
          let overflow = imul_overflow_node l r
          in Go (set_flags (undefined_arithmetic_flags ''imul'' (ss_rva s) [(''cf'', overflow), (''of'', overflow)])
               (set_reg ''edx'' (expr_imul_high l r) (set_reg ''eax'' (expr_imul_low l r) s))))))"

definition imul_result :: "int \<Rightarrow> sx \<Rightarrow> sx \<Rightarrow> sx \<times> sx" where
  "imul_result w l r =
     (if w = 32 then (expr_imul_low l r, imul_overflow_node l r)
      else let product = expr_mul (expr_sign_extend l 16) (expr_sign_extend r 16); res = expr_mask product 16
           in (res, bool_not (bool_eq product (expr_sign_extend res 16))))"

definition imul_into :: "string \<Rightarrow> int \<Rightarrow> operand \<Rightarrow> operand option \<Rightarrow> sym_state \<Rightarrow> sym_state run" where
  "imul_into name w q third s =
     (let why = ''unsupported imul operand'' in
      if w \<notin> {16, 32} then unsupported ''only 16-bit and 32-bit imul destinations are modeled''
      else andthen (get why q w s) (\<lambda>(l, s).
        andthen (case third of
            Some p \<Rightarrow> get why p w s
          | None \<Rightarrow> andthen (expect why (read_register_expr name (ss_registers s))) (\<lambda>r. Go (r, s))) (\<lambda>(r, s).
        let (res, overflow) = imul_result w l r in
        andthen (put_reg ''unsupported imul destination register'' name res s) (\<lambda>s.
          Go (put_flag ''af'' (undefined_flag ''imul'' (ss_rva s) ''af'')
               (set_flags (undefined_arithmetic_flags ''imul'' (ss_rva s) [(''cf'', overflow), (''of'', overflow)]) s))))))"

definition exec_imul :: "insn \<Rightarrow> sym_state \<Rightarrow> sym_state run" where
  "exec_imul i s =
     (case in_operands i of
        [p] \<Rightarrow> imul_wide p s
      | [Reg_op name n, q] \<Rightarrow> imul_into name (operand_width_bits (Reg_op name n)) q None s
      | [Reg_op name n, q, p] \<Rightarrow> imul_into name (operand_width_bits (Reg_op name n)) q (Some p) s
      | _ \<Rightarrow> unsupported ''unsupported imul operand shape'')"

definition exec_mul :: "insn \<Rightarrow> sym_state \<Rightarrow> sym_state run" where
  "exec_mul i s =
     (case in_operands i of
        [p] \<Rightarrow>
          if operand_width_bits p \<noteq> 32 then unsupported ''only 32-bit mul is modeled''
          else andthen (get ''unsupported mul source operand'' p 32 s) (\<lambda>(r, s).
            andthen (reg_of ''eax'' s) (\<lambda>l.
              let high = expr_mul_high l r; carry = XNode ''mul_carry'' [XNum 32, l, r, high]
              in Go (set_flags (undefined_arithmetic_flags ''mul'' (ss_rva s) [(''cf'', carry), (''of'', carry)])
                   (set_reg ''edx'' high (set_reg ''eax'' (expr_mul_low l r) s)))))
      | _ \<Rightarrow> unsupported ''unsupported mul operand shape'')"

definition divide_fault :: "sx \<Rightarrow> sym_state \<Rightarrow> sym_state" where
  "divide_fault ok s = append_fault (XNode ''divide_error'' [bool_not ok, XNum (ss_rva s)]) s"

definition set_quotient :: "string \<Rightarrow> sx \<Rightarrow> sx \<Rightarrow> sx \<Rightarrow> sym_state \<Rightarrow> sym_state" where
  "set_quotient reason ok quot rest s =
     (let junk = (\<lambda>name. XLeaf ''undefined_bv'' [XTxt reason, XTxt (''0x'' @ undefined_id (ss_rva s) name)])
      in set_reg ''edx'' (expr_ite ok rest (junk ''edx'')) (set_reg ''eax'' (expr_ite ok quot (junk ''eax'')) s))"

definition exec_div :: "insn \<Rightarrow> sym_state \<Rightarrow> sym_state run" where
  "exec_div i s =
     (case in_operands i of
        [p] \<Rightarrow>
          if operand_width_bits p \<noteq> 32 then unsupported ''only 32-bit div is modeled''
          else andthen (get ''unsupported div source operand'' p 32 s) (\<lambda>(d, s).
            andthen (reg_of ''edx'' s) (\<lambda>high. andthen (reg_of ''eax'' s) (\<lambda>low.
              let ok = XNode ''udiv_valid'' [high, low, d]
              in Go (divide_fault ok (set_flags (undefined_arithmetic_flags ''div'' (ss_rva s) [])
                   (set_quotient ''div_fault'' ok (XNode ''udiv_quot'' [high, low, d])
                      (XNode ''udiv_rem'' [high, low, d]) s))))))
      | _ \<Rightarrow> unsupported ''unsupported div operand shape'')"

record signed_division =
  sg_quotient :: sx
  sg_remainder :: sx
  sg_valid :: sx

definition magnitude_low :: "sx \<Rightarrow> sx \<Rightarrow> sx" where
  "magnitude_low high low = expr_ite (XNode ''msb_w'' [XNum 32, high]) (expr_add (expr_not low) (XConst 1)) low"

definition magnitude_high :: "sx \<Rightarrow> sx \<Rightarrow> sx" where
  "magnitude_high high low =
     expr_ite (XNode ''msb_w'' [XNum 32, high])
       (expr_add (expr_not high) (expr_ite (bool_eq low (XConst 0)) (XConst 1) (XConst 0))) high"

definition magnitude_of :: "sx \<Rightarrow> sx" where
  "magnitude_of d = expr_ite (XNode ''msb_w'' [XNum 32, d]) (expr_sub (XConst 0) d) d"

definition divide_signed :: "sx \<Rightarrow> sx \<Rightarrow> sx \<Rightarrow> signed_division" where
  "divide_signed high low d =
     (let operands = [magnitude_high high low, magnitude_low high low, magnitude_of d];
          quot = XNode ''udiv_quot'' operands;
          rest = XNode ''udiv_rem'' operands;
          negative = bool_xor (XNode ''msb_w'' [XNum 32, high]) (XNode ''msb_w'' [XNum 32, d]);
          bound = expr_ite negative (XConst 0x80000001) (XConst 0x80000000)
      in \<lparr>sg_quotient = expr_ite negative (expr_sub (XConst 0) quot) quot,
          sg_remainder = expr_ite (XNode ''msb_w'' [XNum 32, high]) (expr_sub (XConst 0) rest) rest,
          sg_valid = bool_and [XNode ''udiv_valid'' operands, XNode ''ult'' [quot, bound]]\<rparr>)"

definition exec_idiv :: "insn \<Rightarrow> sym_state \<Rightarrow> sym_state run" where
  "exec_idiv i s =
     (case in_operands i of
        [p] \<Rightarrow>
          if operand_width_bits p \<noteq> 32 then unsupported ''only 32-bit idiv is modeled''
          else andthen (get ''unsupported idiv source operand'' p 32 s) (\<lambda>(d, s).
            andthen (reg_of ''edx'' s) (\<lambda>high. andthen (reg_of ''eax'' s) (\<lambda>low.
              let g = divide_signed high low d
              in Go (divide_fault (sg_valid g) (set_flags (undefined_arithmetic_flags ''idiv'' (ss_rva s) [])
                   (set_quotient ''idiv_fault'' (sg_valid g) (sg_quotient g) (sg_remainder g) s))))))
      | _ \<Rightarrow> unsupported ''unsupported idiv operand shape'')"

definition exec_cdq :: "insn \<Rightarrow> sym_state \<Rightarrow> sym_state run" where
  "exec_cdq i s =
     (if in_operands i \<noteq> [] then unsupported ''unsupported cdq operand shape''
      else andthen (reg_of ''eax'' s) (\<lambda>eax.
        Go (set_reg ''edx'' (expr_ite (XNode ''msb_w'' [XNum 32, eax]) (XConst 0xFFFFFFFF) (XConst 0)) s)))"

definition exec_cwde :: "insn \<Rightarrow> sym_state \<Rightarrow> sym_state run" where
  "exec_cwde i s =
     (if in_operands i \<noteq> [] then unsupported ''unsupported cwde operand shape''
      else Go (set_reg ''eax'' (expr_sign_extend
        (case read_register_expr ''ax'' (ss_registers s) of None \<Rightarrow> XConst 0 | Some e \<Rightarrow> e) 16) s))"

definition exec_cmp :: "insn \<Rightarrow> sym_state \<Rightarrow> sym_state run" where
  "exec_cmp i s =
     (case in_operands i of
        [p, q] \<Rightarrow>
          let w = operand_width_bits p; why = ''unsupported cmp operand'' in
          andthen (get why p w s) (\<lambda>(l, s). andthen (get why q w s) (\<lambda>(r, s).
            Go (set_flags (arithmetic_flags ''sub'' l r (expr_sub l r) w) s)))
      | _ \<Rightarrow> unsupported ''unsupported cmp operand shape'')"

definition exec_logic :: "insn \<Rightarrow> sym_state \<Rightarrow> sym_state run" where
  "exec_logic i s =
     (case in_operands i of
        [p, q] \<Rightarrow>
          if \<not> reg_or_mem p then unsupported ''only register/memory-destination logical operations are modeled''
          else let w = operand_width_bits p; why = ''unsupported logical source operand'' in
            andthen (get why p w s) (\<lambda>(l, s). andthen (get why q w s) (\<lambda>(r, s).
            andthen (run_of (logical_result (in_mnemonic i) l r)) (\<lambda>v.
              let res = expr_mask v w
              in put ''unsupported logical destination operand'' p res w (set_flags (logical_flags res w) s))))
      | _ \<Rightarrow> unsupported ''only register/memory-destination logical operations are modeled'')"

definition exec_test :: "insn \<Rightarrow> sym_state \<Rightarrow> sym_state run" where
  "exec_test i s =
     (case in_operands i of
        [p, q] \<Rightarrow>
          let w = operand_width_bits p; why = ''unsupported test operand'' in
          andthen (get why p w s) (\<lambda>(l, s). andthen (get why q w s) (\<lambda>(r, s).
            Go (set_flags (logical_flags (expr_and l r) w) s)))
      | _ \<Rightarrow> unsupported ''unsupported test operand shape'')"

definition exec_lea :: "insn \<Rightarrow> sym_state \<Rightarrow> sym_state run" where
  "exec_lea i s =
     (case in_operands i of
        [Reg_op name _, Mem_op m _] \<Rightarrow>
          if \<not> is_supported_register_name name then unsupported ''only 32-bit general registers are modeled''
          else andthen (expect ''unsupported lea address expression'' (mem_address_expr m (ss_registers s))) (\<lambda>a.
            put_reg ''unsupported lea destination register'' name a s)
      | _ \<Rightarrow> unsupported ''unsupported lea operand shape'')"

end
