(* ===== verification/Symbolic_Block.thy ===== *)
theory Symbolic_Block
  imports Symbolic_Execute
begin

text \<open>
  The rest of \<open>_symbolic_execute\<close> (\<open>static_program/semantics/symbolic_execution.py\<close>): shifts, rotations
  and bit scans, the string instructions, \<open>cmpxchg\<close>, the x87 instructions, the conditional moves; then the
  choice by mnemonic and encoding, the loop over a block and what it reports.
\<close>

section \<open>Shifts and rotations\<close>

definition shift_result :: "string \<Rightarrow> sx \<Rightarrow> sx \<Rightarrow> int \<Rightarrow> sx" where
  "shift_result m l k w =
     expr_mask (if m \<in> {''shl'', ''sal''} then expr_shl l k else if m = ''shr'' then expr_lshr l k
                else expr_ashr (expr_mask l w) k w) w"

definition exec_shift :: "insn \<Rightarrow> sym_state \<Rightarrow> sym_state run" where
  "exec_shift i s =
     (case in_operands i of
        [p, q] \<Rightarrow>
          if \<not> reg_or_mem p then unsupported ''unsupported shift operand shape''
          else let w = operand_width_bits p; m = in_mnemonic i; why = ''unsupported shift operand'' in
            andthen (get why p w s) (\<lambda>(l, s). andthen (get why q 8 s) (\<lambda>(c, s).
              let k = expr_and c (XConst 0x1F); res = shift_result m l k w in
              andthen (run_of (shift_flags m l k res (ss_flags s) (ss_rva s) w)) (\<lambda>values.
                put ''unsupported shift destination operand'' p res w (set_flags values s))))
      | _ \<Rightarrow> unsupported ''unsupported shift operand shape'')"

definition bit_of :: "sx \<Rightarrow> int \<Rightarrow> sx" where
  "bit_of e k = bool_eq (expr_and (expr_lshr e (XConst k)) (XConst 1)) (XConst 1)"

definition rotate :: "string \<Rightarrow> sx \<Rightarrow> sx \<Rightarrow> sx \<times> sx \<times> sx" where
  "rotate m v k =
     (let inverse = expr_and (expr_sub (XConst 32) k) (XConst 0x1F) in
      if m = ''rol''
      then (let res = expr_or (expr_shl v k) (expr_lshr v inverse);
                cf = bool_eq (expr_and res (XConst 1)) (XConst 1)
            in (res, cf, bool_xor (XNode ''msb_w'' [XNum 32, res]) cf))
      else (let res = expr_or (expr_lshr v k) (expr_shl v inverse);
                cf = XNode ''msb_w'' [XNum 32, res]
            in (res, cf, bool_xor (XNode ''msb_w'' [XNum 32, res]) (bit_of res 30))))"

definition exec_rotate :: "insn \<Rightarrow> sym_state \<Rightarrow> sym_state run" where
  "exec_rotate i s =
     (case in_operands i of
        [p, q] \<Rightarrow>
          if \<not> reg_or_mem p then unsupported ''unsupported rotate operand shape''
          else if operand_width_bits p \<noteq> 32 then unsupported ''only 32-bit rotate destinations are modeled''
          else let why = ''unsupported rotate operand'' in
            andthen (get why p 32 s) (\<lambda>(v, s). andthen (get why q 8 s) (\<lambda>(c, s).
            andthen (flag_of ''cf'' s) (\<lambda>cf. andthen (flag_of ''of'' s) (\<lambda>ovf.
              let k = expr_and c (XConst 0x1F); (res, active_cf, active_of) = rotate (in_mnemonic i) v k;
                  zero = bool_eq k (XConst 0); one = bool_eq k (XConst 1);
                  s = set_flags [(''cf'', expr_ite zero cf active_cf),
                        (''of'', expr_ite zero ovf
                           (expr_ite one active_of (undefined_flag ''rotate_overflow_undefined'' (ss_rva s) ''of'')))] s
              in put ''unsupported rotate destination operand'' p (expr_mask res 32) 32 s))))
      | _ \<Rightarrow> unsupported ''unsupported rotate operand shape'')"

definition exec_rcr :: "insn \<Rightarrow> sym_state \<Rightarrow> sym_state run" where
  "exec_rcr i s =
     (let shape = ''only 32-bit rcr destinations with an immediate count of one are modeled'' in
      case in_operands i of
        [p, Imm_op n _] \<Rightarrow>
          if \<not> reg_or_mem p \<or> n AND 0x1F \<noteq> 1 then unsupported shape
          else if operand_width_bits p \<noteq> 32 then unsupported ''only 32-bit rcr destinations are modeled''
          else andthen (get ''unsupported rcr destination operand'' p 32 s) (\<lambda>(v, s).
            andthen (flag_of ''cf'' s) (\<lambda>cf.
              let res = expr_mask (expr_or (expr_lshr v (XConst 1)) (expr_shl (expr_bool_bit cf) (XConst 31))) 32;
                  s = set_flags [(''cf'', bool_eq (expr_and v (XConst 1)) (XConst 1)),
                        (''of'', bool_xor (XNode ''msb_w'' [XNum 32, res]) (bit_of res 30))] s
              in put ''unsupported rcr destination operand'' p res 32 s))
      | _ \<Rightarrow> unsupported shape)"

definition exec_double_shift :: "insn \<Rightarrow> sym_state \<Rightarrow> sym_state run" where
  "exec_double_shift i s =
     (case in_operands i of
        [p, q, t] \<Rightarrow>
          if \<not> reg_or_mem p then unsupported ''unsupported double-shift operand shape''
          else let w = operand_width_bits p; m = in_mnemonic i; why = ''unsupported double-shift operand'' in
            andthen (get why p w s) (\<lambda>(l, s). andthen (get why q w s) (\<lambda>(r, s). andthen (get why t 8 s) (\<lambda>(c, s).
              let k = expr_and c (XConst 0x1F); res = expr_shift_pair m l r k w in
              andthen (run_of (shift_flags m l k res (ss_flags s) (ss_rva s) w)) (\<lambda>values.
                put ''unsupported double-shift destination operand'' p res w (set_flags values s)))))
      | _ \<Rightarrow> unsupported ''unsupported double-shift operand shape'')"

definition exec_scan_bits :: "insn \<Rightarrow> sym_state \<Rightarrow> sym_state run" where
  "exec_scan_bits i s =
     (case in_operands i of
        [Reg_op name n, q] \<Rightarrow>
          let why = ''unsupported bit-scan operand'' in
          if operand_width_bits (Reg_op name n) \<noteq> 32 then unsupported ''only 32-bit bit-scan destinations are modeled''
          else andthen (get why q 32 s) (\<lambda>(v, s).
            andthen (expect why (read_register_expr name (ss_registers s))) (\<lambda>current.
              let zero = XNode ''eq'' [v, XConst 0];
                  (res, values) =
                    (if in_mnemonic i = ''bsr''
                     then (expr_ite zero (undefined_bv ''bsr-zero-source'' (ss_rva s) name (Some current))
                             (XNode ''bsr_index'' [XNum 32, v]),
                           undefined_arithmetic_flags ''bsr'' (ss_rva s) [(''zf'', zero)])
                     else (XNode ''tzcnt'' [XNum 32, v],
                           undefined_arithmetic_flags ''tzcnt'' (ss_rva s)
                             [(''cf'', zero), (''zf'', XNode ''eq'' [XNode ''tzcnt'' [XNum 32, v], XConst 0])]))
              in put_reg ''unsupported bit-scan destination register'' name res (set_flags values s)))
      | _ \<Rightarrow> unsupported ''unsupported bit-scan operand shape'')"

section \<open>String instructions\<close>

datatype string_form = Move_form int bool | Store_form int bool | Scan_form

definition string_forms :: "(int list \<times> string_form) list" where
  "string_forms =
     [([0xA4], Move_form 1 False), ([0x66, 0xA5], Move_form 2 False), ([0xA5], Move_form 4 False),
      ([0xF3, 0xA4], Move_form 1 True), ([0xF3, 0x66, 0xA5], Move_form 2 True),
      ([0x66, 0xF3, 0xA5], Move_form 2 True), ([0xF3, 0xA5], Move_form 4 True),
      ([0xAA], Store_form 1 False), ([0x66, 0xAB], Store_form 2 False), ([0xAB], Store_form 4 False),
      ([0xF3, 0xAA], Store_form 1 True), ([0xF3, 0x66, 0xAB], Store_form 2 True),
      ([0x66, 0xF3, 0xAB], Store_form 2 True), ([0xF3, 0xAB], Store_form 4 True),
      ([0xF2, 0xAE], Scan_form)]"

definition string_step :: "int \<Rightarrow> sym_state \<Rightarrow> sx" where
  "string_step n s = expr_ite (direction_expr s) (XConst ((- n) AND 0xFFFFFFFF)) (XConst n)"

definition repeated_delta :: "int \<Rightarrow> sx \<Rightarrow> sym_state \<Rightarrow> sx" where
  "repeated_delta n ecx s = (let delta = expr_mul ecx (XConst n) in expr_ite (direction_expr s) (expr_neg delta) delta)"

definition exec_string_move :: "block_env \<Rightarrow> int \<Rightarrow> bool \<Rightarrow> sym_state \<Rightarrow> sym_state run" where
  "exec_string_move en n repeated s =
     andthen (reg_of ''edi'' s) (\<lambda>edi. andthen (reg_of ''esi'' s) (\<lambda>esi.
       if repeated
       then andthen (reg_of ''ecx'' s) (\<lambda>ecx.
         let k = event_index en s; d = repeated_delta n ecx s in
         Go (forget_memory k
              (set_reg ''ecx'' (XConst 0) (set_reg ''esi'' (expr_add esi d) (set_reg ''edi'' (expr_add edi d)
                (append_external (XNode ''rep_movs'' [XNum k, XNum n, XNum 32, edi, esi, ecx, direction_expr s]) s))))))
       else let d = string_step n s; (v, s) = memory_read_expr esi (n * 8) s
         in Go (set_reg ''edi'' (expr_add edi d) (set_reg ''esi'' (expr_add esi d) (memory_write_expr edi (n * 8) v s)))))"

definition accumulator :: "int \<Rightarrow> string" where
  "accumulator n = (if n = 1 then ''al'' else if n = 2 then ''ax'' else ''eax'')"

definition exec_string_store :: "block_env \<Rightarrow> int \<Rightarrow> bool \<Rightarrow> sym_state \<Rightarrow> sym_state run" where
  "exec_string_store en n repeated s =
     andthen (expect ''string-store accumulator value is not modeled''
                (read_register_expr (accumulator n) (ss_registers s))) (\<lambda>v.
     andthen (reg_of ''edi'' s) (\<lambda>edi.
       if repeated
       then andthen (reg_of ''ecx'' s) (\<lambda>ecx.
         let k = event_index en s; d = repeated_delta n ecx s in
         Go (forget_memory k
              (set_reg ''ecx'' (XConst 0) (set_reg ''edi'' (expr_add edi d)
                (append_external (XNode ''rep_stos'' [XNum k, XNum n, XNum 32, edi, v, ecx, direction_expr s]) s)))))
       else let d = string_step n s
         in Go (set_reg ''edi'' (expr_add edi d) (memory_write_expr edi (n * 8) v s))))"

text \<open>The scan leaves its outputs to the restartable action that the event names.\<close>

definition exec_string_scan :: "block_env \<Rightarrow> sym_state \<Rightarrow> sym_state run" where
  "exec_string_scan en s =
     andthen (expect ''string-scan accumulator value is not modeled''
                (read_register_expr ''al'' (ss_registers s))) (\<lambda>v.
     andthen (reg_of ''edi'' s) (\<lambda>edi. andthen (reg_of ''ecx'' s) (\<lambda>ecx.
       Go (append_external
            (XNode ''rep_scas'' [XNum (event_index en s), XNum 1, XNum 32, edi, v, ecx, direction_expr s]) s))))"

definition exec_string :: "block_env \<Rightarrow> string_form \<Rightarrow> sym_state \<Rightarrow> sym_state run" where
  "exec_string en f s =
     (case f of
        Move_form n repeated \<Rightarrow> exec_string_move en n repeated s
      | Store_form n repeated \<Rightarrow> exec_string_store en n repeated s
      | Scan_form \<Rightarrow> exec_string_scan en s)"

section \<open>Compare and exchange\<close>

definition exec_cmpxchg :: "insn \<Rightarrow> sym_state \<Rightarrow> sym_state run" where
  "exec_cmpxchg i s =
     (case in_operands i of
        [p, q] \<Rightarrow>
          if \<not> reg_or_mem p then unsupported ''unsupported cmpxchg operand shape''
          else let w = operand_width_bits p; why = ''unsupported cmpxchg operand'' in
            andthen (get why p w s) (\<lambda>(dst, s). andthen (get why q w s) (\<lambda>(src, s).
            andthen (expect why (read_register_expr ''eax'' (ss_registers s))) (\<lambda>eax.
              let l = expr_mask eax w; r = expr_mask dst w; equal = XNode ''eq'' [l, r];
                  s = put_flag ''zf'' equal (set_flags (arithmetic_flags ''sub'' l r (expr_sub l r) w) s) in
              andthen (put ''unsupported cmpxchg destination'' p (expr_ite equal src dst) w s)
                (put_reg ''unsupported cmpxchg eax update'' ''eax'' (expr_ite equal eax dst)))))
      | _ \<Rightarrow> unsupported ''unsupported cmpxchg operand shape'')"

section \<open>The x87 stack\<close>

definition x87_handled :: "string set" where
  "x87_handled =
     {''fld'', ''fld1'', ''fldz'', ''fild'', ''fst'', ''fstp'', ''fist'', ''fistp'', ''fisttp'', ''fadd'', ''faddp'',
      ''fsub'', ''fsubp'', ''fsubr'', ''fsubrp'', ''fiadd'', ''fimul'', ''fisub'', ''fisubr'', ''fidiv'', ''fidivr'',
      ''fmul'', ''fmulp'', ''fdiv'', ''fdivp'', ''fdivr'', ''fdivrp'', ''fxch'', ''fchs'', ''fabs'', ''fxam'',
      ''fnstcw'', ''fldcw'', ''fnstsw'', ''fcom'', ''fcomp'', ''ficom'', ''ficomp'', ''fcomi'', ''fcomip'',
      ''fucomi'', ''fucomip'', ''fcompi'', ''fucompi'', ''fsin'', ''fcos'', ''fclex'', ''fnclex'', ''fninit''}"

definition set_stack :: "sx list \<Rightarrow> sym_state \<Rightarrow> sym_state" where
  "set_stack stack s = s\<lparr>ss_fpu_stack := stack\<rparr>"

definition st :: "int \<Rightarrow> sym_state \<Rightarrow> sx run" where
  "st k s = run_of (py_index (ss_fpu_stack s) k)"

definition set_st :: "int \<Rightarrow> sx \<Rightarrow> sym_state \<Rightarrow> sym_state run" where
  "set_st k v s =
     (case py_position (length (ss_fpu_stack s)) k of
        None \<Rightarrow> Halt (Failed Index_error)
      | Some n \<Rightarrow> Go (set_stack ((ss_fpu_stack s)[n := v]) s))"

definition pop_if :: "bool \<Rightarrow> sym_state \<Rightarrow> sym_state" where
  "pop_if p s = (if p then set_stack (x87_pop (ss_fpu_stack s)) s else s)"

text \<open>\<open>_x87_st_index(insn.op_str)\<close> below the depth of the stack\<close>

definition st_operand :: "string \<Rightarrow> int option \<Rightarrow> sym_state \<Rightarrow> int run" where
  "st_operand why k s =
     expect why (case k of Some n \<Rightarrow> if n \<ge> int (length (ss_fpu_stack s)) then None else Some n | None \<Rightarrow> None)"

definition index_or_one :: "insn \<Rightarrow> int option" where
  "index_or_one i = (if in_op_str i \<noteq> [] then st_index (in_op_str i) else Some 1)"

definition integer_form :: "string \<Rightarrow> bool" where
  "integer_form m = (take 2 m = ''fi'')"

definition exec_fld :: "insn \<Rightarrow> sym_state \<Rightarrow> sym_state run" where
  "exec_fld i s =
     (case in_operands i of
        [p] \<Rightarrow>
          andthen (expect ''unsupported x87 load operand''
                     (x87_operand_value p (in_op_str i) (in_mnemonic i = ''fild'') s)) (\<lambda>(v, s).
            Go (set_stack (x87_push v (ss_fpu_stack s)) s))
      | _ \<Rightarrow> unsupported ''unsupported x87 load operand shape'')"

definition exec_fst :: "insn \<Rightarrow> sym_state \<Rightarrow> sym_state run" where
  "exec_fst i s =
     (let m = in_mnemonic i in
      case in_operands i of
        [p] \<Rightarrow>
          andthen (st 0 s) (\<lambda>v.
          andthen (case p of
              Mem_op _ _ \<Rightarrow> expect ''unsupported x87 memory store''
                 (x87_store_memory p v (m \<in> {''fist'', ''fistp'', ''fisttp''}) s)
            | _ \<Rightarrow> andthen (st_operand ''unsupported x87 register store'' (st_index (in_op_str i)) s) (\<lambda>k. set_st k v s)) (\<lambda>s.
            Go (pop_if (m \<in> {''fstp'', ''fistp'', ''fisttp''}) s)))
      | _ \<Rightarrow> unsupported ''unsupported x87 store operand shape'')"

definition exec_farith :: "insn \<Rightarrow> sym_state \<Rightarrow> sym_state run" where
  "exec_farith i s =
     (let m = in_mnemonic i in
      andthen (case in_operands i of
          [] \<Rightarrow> andthen (st 0 s) (\<lambda>v. Go (v, s))
        | p # _ \<Rightarrow> expect ''unsupported x87 arithmetic operand'' (x87_operand_value p (in_op_str i) (integer_form m) s)) (\<lambda>(v, s).
      andthen (st 0 s) (\<lambda>top.
        let op = drop (if integer_form m then 2 else 1) m in
        set_st 0 (if m \<in> {''fsubr'', ''fdivr'', ''fisubr'', ''fidivr''} then x87_binary op v top else x87_binary op top v) s)))"

definition without_p :: "string \<Rightarrow> string" where
  "without_p m = (if m \<noteq> [] \<and> last m = CHR ''p'' then butlast m else m)"

definition exec_farith_pop :: "insn \<Rightarrow> sym_state \<Rightarrow> sym_state run" where
  "exec_farith_pop i s =
     (let m = in_mnemonic i; op = without_p (drop 1 m); why = ''unsupported x87 pop arithmetic operand'' in
      andthen (st_operand why (case index_or_one i of Some k \<Rightarrow> if k \<le> 0 then None else Some k | None \<Rightarrow> None) s) (\<lambda>k.
      andthen (st 0 s) (\<lambda>top. andthen (st k s) (\<lambda>v.
      andthen (set_st k (if m \<in> {''fsubrp'', ''fdivrp''} then x87_binary op top v else x87_binary op v top) s) (\<lambda>s.
        Go (pop_if True s))))))"

definition exec_fxch :: "insn \<Rightarrow> sym_state \<Rightarrow> sym_state run" where
  "exec_fxch i s =
     andthen (st_operand ''unsupported fxch operand'' (st_index (in_op_str i)) s) (\<lambda>k.
     andthen (st k s) (\<lambda>v. andthen (st 0 s) (\<lambda>top. andthen (set_st 0 v s) (set_st k top))))"

definition exec_ftrig :: "string \<Rightarrow> sym_state \<Rightarrow> sym_state run" where
  "exec_ftrig m s =
     andthen (st 0 s) (\<lambda>top.
       let v = XNode (''fpu_'' @ drop 1 m) [canonical_expr top, canonical_expr (ss_fpu_control s)] in
       andthen (set_st 0 v s) (\<lambda>s. Go (s\<lparr>ss_fpu_status :=
         XNode ''fpu_transcendental_status'' [XTxt m, canonical_expr (ss_fpu_status s), canonical_expr v]\<rparr>)))"

definition exec_fcom :: "insn \<Rightarrow> sym_state \<Rightarrow> sym_state run" where
  "exec_fcom i s =
     (let m = in_mnemonic i in
      case in_operands i of
        [p] \<Rightarrow>
          andthen (expect ''unsupported x87 status-compare operand'' (x87_operand_value p (in_op_str i) (integer_form m) s)) (\<lambda>(r, s).
          andthen (st 0 s) (\<lambda>top.
            Go (pop_if (m \<in> {''fcomp'', ''ficomp''}) (s\<lparr>ss_fpu_status :=
              XNode ''fpu_compare_status'' [XTxt ''ordered'', canonical_expr (ss_fpu_status s), canonical_expr top, canonical_expr r]\<rparr>))))
      | _ \<Rightarrow> unsupported ''unsupported x87 status-compare operand shape'')"

definition exec_fcomi :: "insn \<Rightarrow> sym_state \<Rightarrow> sym_state run" where
  "exec_fcomi i s =
     andthen (st_operand ''unsupported x87 compare operand'' (index_or_one i) s) (\<lambda>k.
     andthen (st 0 s) (\<lambda>top. andthen (st k s) (\<lambda>v.
       let pair = [canonical_expr top, canonical_expr v] in
       Go (pop_if (in_mnemonic i \<in> {''fcomip'', ''fucomip'', ''fcompi'', ''fucompi''})
         (set_flags [(''cf'', XNode ''fpu_cmp_cf'' pair), (''zf'', XNode ''fpu_cmp_zf'' pair),
            (''pf'', XNode ''fpu_cmp_pf'' pair), (''of'', XFalse), (''sf'', XFalse)] s)))))"

definition exec_fnstcw :: "insn \<Rightarrow> sym_state \<Rightarrow> sym_state run" where
  "exec_fnstcw i s =
     (case in_operands i of
        [Mem_op m _] \<Rightarrow>
          andthen (expect ''unsupported fnstcw address'' (mem_address_expr m (ss_registers s))) (\<lambda>a.
            Go (memory_write_expr a 16 (XNode ''fpu_control_word'' [ss_fpu_control s]) s))
      | _ \<Rightarrow> unsupported ''unsupported fnstcw operand'')"

definition exec_fldcw :: "insn \<Rightarrow> sym_state \<Rightarrow> sym_state run" where
  "exec_fldcw i s =
     (case in_operands i of
        [p] \<Rightarrow> andthen (get ''unsupported fldcw source'' p 16 s) (\<lambda>(v, s).
          Go (s\<lparr>ss_fpu_control := XNode ''fpu_control_load'' [v]\<rparr>))
      | _ \<Rightarrow> unsupported ''unsupported fldcw operand'')"

definition initial_stack :: "sx list" where
  "initial_stack = map (\<lambda>k. XNode ''fpu_reg'' [XNum k]) [0, 1, 2, 3, 4, 5, 6, 7]"

definition exec_x87 :: "insn \<Rightarrow> sym_state \<Rightarrow> sym_state run" where
  "exec_x87 i s =
     (let m = in_mnemonic i; s = s\<lparr>ss_fpu_touched := True\<rparr>; push = (\<lambda>v. Go (set_stack (x87_push v (ss_fpu_stack s)) s));
          top_with = (\<lambda>tag. andthen (st 0 s) (\<lambda>v. set_st 0 (XNode tag [canonical_expr v]) s)) in
      if m = ''fninit'' then Go (s\<lparr>ss_fpu_stack := initial_stack,
         ss_fpu_control := XNode ''fpu_control_init'' [], ss_fpu_status := XNode ''fpu_status_init'' []\<rparr>)
      else if m \<in> {''fclex'', ''fnclex''} then
        (if in_operands i \<noteq> [] then unsupported ''x87 clear-exception instructions take no operands''
         else Go (s\<lparr>ss_fpu_status := XNode ''fpu_clear_exceptions'' [canonical_expr (ss_fpu_status s)]\<rparr>))
      else if m = ''fld1'' then push (XNode ''fpu_const'' [XTxt ''1''])
      else if m = ''fldz'' then push (XNode ''fpu_const'' [XTxt ''0''])
      else if m \<in> {''fld'', ''fild''} then exec_fld i s
      else if m \<in> {''fst'', ''fstp'', ''fist'', ''fistp'', ''fisttp''} then exec_fst i s
      else if m \<in> {''fadd'', ''fsub'', ''fsubr'', ''fmul'', ''fdiv'', ''fdivr'', ''fiadd'', ''fisub'', ''fisubr'', ''fimul'', ''fidiv'', ''fidivr''}
        then exec_farith i s
      else if m \<in> {''faddp'', ''fsubp'', ''fsubrp'', ''fmulp'', ''fdivp'', ''fdivrp''} then exec_farith_pop i s
      else if m = ''fxch'' then exec_fxch i s
      else if m = ''fchs'' then top_with ''fpu_neg''
      else if m = ''fabs'' then top_with ''fpu_abs''
      else if m \<in> {''fsin'', ''fcos''} then exec_ftrig m s
      else if m = ''fxam'' then andthen (st 0 s) (\<lambda>v. Go (s\<lparr>ss_fpu_status := XNode ''fpu_fxam'' [canonical_expr v]\<rparr>))
      else if m = ''fnstcw'' then exec_fnstcw i s
      else if m = ''fldcw'' then exec_fldcw i s
      else if m = ''fnstsw'' then
        (if py_lower (strip (in_op_str i)) \<noteq> ''ax'' then unsupported ''only fnstsw ax is modeled''
         else put_reg ''unsupported fnstsw destination'' ''ax'' (XNode ''fpu_status_word'' [ss_fpu_status s]) s)
      else if m \<in> {''fcom'', ''fcomp'', ''ficom'', ''ficomp''} then exec_fcom i s
      else exec_fcomi i s)"

fun is_mem_operand :: "operand \<Rightarrow> bool" where
  "is_mem_operand (Mem_op _ _) = True" | "is_mem_operand _ = False"

fun is_reg_operand :: "operand \<Rightarrow> bool" where
  "is_reg_operand (Reg_op _ _) = True" | "is_reg_operand _ = False"

text \<open>Any other x87 encoding leaves the stack to the exact replay.\<close>

definition replay_output :: "sym_state \<Rightarrow> sx list \<Rightarrow> sx" where
  "replay_output s parts = XNode ''x87_exact_replay_output'' (XNum (ss_rva s) # parts)"

definition exec_x87_replay :: "insn \<Rightarrow> sym_state \<Rightarrow> sym_state run" where
  "exec_x87_replay i s =
     (if list_ex is_mem_operand (in_operands i)
      then unsupported ''unmodeled x87 memory effects require a typed occurrence projection''
      else if \<not> list_all is_reg_operand (in_operands i)
      then unsupported ''unmodeled x87 operand shape is not representable by exact replay''
      else Go (s\<lparr>ss_fpu_touched := True,
         ss_fpu_stack := map (\<lambda>k. replay_output s [XTxt ''stack'', XNum k]) [0, 1, 2, 3, 4, 5, 6, 7],
         ss_fpu_control := replay_output s [XTxt ''control''], ss_fpu_status := replay_output s [XTxt ''status'']\<rparr>))"

section \<open>Remaining instructions\<close>

definition exec_unary :: "insn \<Rightarrow> sym_state \<Rightarrow> sym_state run" where
  "exec_unary i s =
     (case in_operands i of
        [p] \<Rightarrow>
          if \<not> reg_or_mem p then unsupported ''unsupported unary operand shape''
          else let w = operand_width_bits p; neg = (in_mnemonic i \<noteq> ''not'') in
            andthen (get ''unsupported unary operand'' p w s) (\<lambda>(v, s).
              let res = expr_mask (if neg then expr_neg v else expr_not v) w;
                  s = (if neg then set_flags (arithmetic_flags ''sub'' (XConst 0) v res w) s else s)
              in put ''unsupported unary destination operand'' p res w s)
      | _ \<Rightarrow> unsupported ''unsupported unary operand shape'')"

definition exec_bt :: "insn \<Rightarrow> sym_state \<Rightarrow> sym_state run" where
  "exec_bt i s =
     (let shape = ''only register-base bt with register/immediate index is modeled'' in
      case in_operands i of
        [Reg_op name n, q] \<Rightarrow>
          let p = Reg_op name n; why = ''unsupported bt operand'' in
          if \<not> (case q of Reg_op _ _ \<Rightarrow> True | Imm_op _ _ \<Rightarrow> True | _ \<Rightarrow> False) then unsupported shape
          else if operand_width_bits p \<noteq> 32 then unsupported ''only 32-bit register-base bt is modeled''
          else andthen (get why p 32 s) (\<lambda>(v, s). andthen (get why q 32 s) (\<lambda>(k, s).
            let chosen = expr_and (expr_lshr v (expr_and k (XConst 0x1F))) (XConst 1) in
            Go (set_flags (undefined_arithmetic_flags ''bt'' (ss_rva s) [(''cf'', bool_eq chosen (XConst 1))]) s)))
      | _ \<Rightarrow> unsupported shape)"

definition exec_setcc :: "insn \<Rightarrow> sym_state \<Rightarrow> sym_state run" where
  "exec_setcc i s =
     (case in_operands i of
        [p] \<Rightarrow>
          if \<not> reg_or_mem p then unsupported ''unsupported setcc operand shape''
          else andthen (run_of (setcc_condition (in_mnemonic i) (ss_flags s))) (\<lambda>found.
            andthen (expect ''unsupported setcc condition'' found) (\<lambda>c.
              put ''unsupported setcc destination operand'' p (expr_ite c (XConst 1) (XConst 0)) 8 s))
      | _ \<Rightarrow> unsupported ''unsupported setcc operand shape'')"

definition exec_cmov :: "insn \<Rightarrow> sym_state \<Rightarrow> sym_state run" where
  "exec_cmov i s =
     (case in_operands i of
        [Reg_op name n, q] \<Rightarrow>
          let why = ''unsupported cmovcc operand''; current = read_register_expr name (ss_registers s);
              found = read_operand_expr q (Some (operand_width_bits (Reg_op name n))) s in
          andthen (run_of (setcc_condition (''set'' @ drop 4 (in_mnemonic i)) (ss_flags s))) (\<lambda>condition.
          andthen (expect why current) (\<lambda>old. andthen (expect why found) (\<lambda>(v, s). andthen (expect why condition) (\<lambda>c.
            put_reg ''unsupported cmovcc destination register'' name (expr_ite c v old) s))))
      | _ \<Rightarrow> unsupported ''unsupported cmovcc operand shape'')"

definition exec_xchg :: "insn \<Rightarrow> sym_state \<Rightarrow> sym_state run" where
  "exec_xchg i s =
     (case in_operands i of
        [p, q] \<Rightarrow>
          let w = operand_width_bits p; why = ''unsupported xchg operand'' in
          andthen (get why p w s) (\<lambda>(l, s). andthen (get why q w s) (\<lambda>(r, s).
          andthen (put ''unsupported xchg first destination'' p r w s)
            (put ''unsupported xchg second destination'' q l w)))
      | _ \<Rightarrow> unsupported ''unsupported xchg operand shape'')"

section \<open>The choice by mnemonic and encoding\<close>

definition exec_control :: "block_env \<Rightarrow> insn \<Rightarrow> sym_state \<Rightarrow> sym_state run option" where
  "exec_control en i s =
     (let m = in_mnemonic i in
      if m = ''nop'' then Some (Go s)
      else if m = ''sahf'' then Some (exec_sahf i s)
      else if m \<in> {''jmp'', ''ljmp''} then Some (exec_jump en i s)
      else if is_conditional_jump m then Some (exec_branch en i s)
      else if m = ''call'' then Some (exec_call en i s)
      else if m = ''ret'' then Some (exec_ret i s)
      else if m = ''leave'' then Some (exec_leave s)
      else if m \<in> {''clc'', ''cld'', ''std''} then Some (Go (exec_flag m s))
      else None)"

definition exec_integer :: "insn \<Rightarrow> sym_state \<Rightarrow> sym_state run option" where
  "exec_integer i s =
     (let m = in_mnemonic i in
      if m = ''mov'' then Some (exec_mov i s)
      else if m \<in> {''movzx'', ''movsx''} then Some (exec_extend i s)
      else if m = ''push'' then Some (exec_push i s)
      else if m \<in> {''pushal'', ''pushad''} then Some (exec_pushad s)
      else if m = ''pop'' then Some (exec_pop i s)
      else if m \<in> {''add'', ''sub''} then Some (exec_add_sub i s)
      else if m \<in> {''inc'', ''dec''} then Some (exec_inc_dec i s)
      else if m \<in> {''adc'', ''sbb''} then Some (exec_carry i s)
      else if m = ''imul'' then Some (exec_imul i s)
      else if m = ''mul'' then Some (exec_mul i s)
      else if m = ''div'' then Some (exec_div i s)
      else if m = ''idiv'' then Some (exec_idiv i s)
      else if m = ''cdq'' then Some (exec_cdq i s)
      else if m = ''cwde'' then Some (exec_cwde i s)
      else if m = ''cmp'' then Some (exec_cmp i s)
      else if m \<in> {''xor'', ''and'', ''or''} then Some (exec_logic i s)
      else if m = ''test'' then Some (exec_test i s)
      else if m = ''lea'' then Some (exec_lea i s)
      else if m \<in> {''shl'', ''sal'', ''shr'', ''sar''} then Some (exec_shift i s)
      else if m \<in> {''rol'', ''ror''} then Some (exec_rotate i s)
      else if m = ''rcr'' then Some (exec_rcr i s)
      else if m \<in> {''shld'', ''shrd''} then Some (exec_double_shift i s)
      else if m \<in> {''bsr'', ''tzcnt''} then Some (exec_scan_bits i s)
      else None)"

definition not_modelled :: "string \<Rightarrow> string" where
  "not_modelled m = ''instruction '' @ m @ '' is not modeled by normalized_symbolic_equivalence_v1''"

definition exec_other :: "insn \<Rightarrow> sym_state \<Rightarrow> sym_state run" where
  "exec_other i s =
     (let m = in_mnemonic i in
      if m \<in> {''cmpxchg'', ''lock cmpxchg''} then exec_cmpxchg i s
      else if m = ''wait'' then Go s
      else if m \<in> x87_handled then exec_x87 i s
      else if is_x87_instruction_encoding (in_bytes i) then exec_x87_replay i s
      else if m \<in> {''not'', ''neg''} then exec_unary i s
      else if m = ''bt'' then exec_bt i s
      else if take 3 m = ''set'' then exec_setcc i s
      else if take 4 m = ''cmov'' then exec_cmov i s
      else if m = ''xchg'' then exec_xchg i s
      else unsupported (not_modelled m))"

definition exec_insn :: "block_env \<Rightarrow> insn \<Rightarrow> sym_state \<Rightarrow> sym_state run" where
  "exec_insn en i s =
     (case exec_control en i s of
        Some done_ \<Rightarrow> done_
      | None \<Rightarrow> (case exec_integer i s of
          Some done_ \<Rightarrow> done_
        | None \<Rightarrow> (case map_of string_forms (in_bytes i) of
            Some f \<Rightarrow> exec_string en f s
          | None \<Rightarrow> exec_other i s)))"

section \<open>A block\<close>

definition initial_sym_state :: "side \<Rightarrow> sym_state" where
  "initial_sym_state block = \<lparr>
     ss_registers = map (\<lambda>n. (n, reg_leaf n)) [''eax'', ''ebx'', ''ecx'', ''edx'', ''esi'', ''edi'', ''ebp'', ''esp''],
     ss_flags = map (\<lambda>n. (n, flag_leaf n)) [''cf'', ''zf'', ''sf'', ''of'', ''pf'', ''df''],
     ss_fpu_stack = initial_stack, ss_fpu_control = XNode ''fpu_control'' [], ss_fpu_status = XNode ''fpu_status'' [],
     ss_fpu_touched = False, ss_outcome = Sym_fallthrough (sd_end block), ss_ordered = [], ss_memory_events = [],
     ss_external_events = [], ss_faults = [], ss_rva = 0, ss_writes = [], ss_epoch = None, ss_terminated = False\<rparr>"

fun run_block :: "block_env \<Rightarrow> insn list \<Rightarrow> sym_state \<Rightarrow> (insn \<times> stop) + sym_state" where
  "run_block en [] s = Inr s"
| "run_block en (i # rest) s =
     (let s = s\<lparr>ss_rva := insn_rva (be_image en) i\<rparr> in
      case (if ss_terminated s then unsupported ''bytes after a modeled block terminator are not supported''
            else exec_insn en i s) of
        Halt e \<Rightarrow> Inl (i, e)
      | Go s \<Rightarrow> run_block en rest s)"

fun canonical_outcome :: "sym_outcome \<Rightarrow> sym_outcome" where
  "canonical_outcome (Sym_branch c t f) = Sym_branch (canonical_expr c) t f"
| "canonical_outcome (Sym_return e) = Sym_return (canonical_expr e)"
| "canonical_outcome (Sym_indirect_jump e) = Sym_indirect_jump (canonical_expr e)"
| "canonical_outcome (Sym_jump_table e c) = Sym_jump_table (canonical_expr e) c"
| "canonical_outcome out = out"

record observables =
  ob_registers :: named
  ob_flags :: named
  ob_outcome :: sym_outcome
  ob_memory_events :: "sx list"
  ob_external_events :: "sx list"
  ob_faults :: "sx list"
  ob_fpu :: "(sx list \<times> sx \<times> sx) option"
  ob_ordered :: "(string \<times> int \<times> sx) list"

definition observe :: "sym_state \<Rightarrow> observables" where
  "observe s =
     (let named = (\<lambda>d. map (\<lambda>(k, e). (k, canonical_expr e)) (sort_key fst d)); exprs = map canonical_expr in
      \<lparr>ob_registers = named (ss_registers s), ob_flags = named (ss_flags s),
       ob_outcome = canonical_outcome (ss_outcome s), ob_memory_events = exprs (ss_memory_events s),
       ob_external_events = exprs (ss_external_events s), ob_faults = exprs (ss_faults s),
       ob_fpu = (if ss_fpu_touched s
                 then Some (exprs (ss_fpu_stack s), canonical_expr (ss_fpu_control s), canonical_expr (ss_fpu_status s))
                 else None),
       ob_ordered = ss_ordered s\<rparr>)"

definition symbolic_incomplete :: "string \<Rightarrow> string \<Rightarrow> int \<Rightarrow> string \<Rightarrow> string \<Rightarrow> string \<Rightarrow> json" where
  "symbolic_incomplete binary cat rva mnemonic op_str blocker =
     JObj [(''status'', JStr ''incomplete''), (''category'', JStr cat), (''binary'', JStr binary),
           (''blocker'', JStr (blocker @ '' at RVA 0x'' @ hex_text (nat rva))),
           (''next_action'', JStr ''add instruction semantics, an invariant lemma, or mark this block out of model''),
           (''instruction'', JObj [(''rva'', JInt rva), (''mnemonic'', JStr mnemonic), (''op_str'', JStr op_str)])]"

datatype block_result = Executed observables | Not_executed json | Raised py_error

definition symbolic_execute ::
  "pe_image \<Rightarrow> side \<Rightarrow> int list \<Rightarrow> string \<Rightarrow> members \<Rightarrow> int \<Rightarrow> block_result" where
  "symbolic_execute im block bytes binary src index_base =
     (if im_bitness im \<noteq> 32 then Not_executed (JObj
        [(''status'', JStr ''incomplete''), (''category'', JStr ''unsupported_semantics''),
         (''blocker'', JStr ''static analysis SMT symbolic execution is currently implemented only for x86 PE32 blocks''),
         (''next_action'', JStr ''use a checked generated mapping proof or add x86_64 PE32+ symbolic semantics''),
         (''binary'', JStr binary), (''bitness'', JInt (im_bitness im))])
      else let instructions = im_decode im bytes (im_base im + sd_start block);
               en = \<lparr>be_image = im, be_side = block, be_instructions = instructions, be_source = src,
                     be_index_base = index_base\<rparr>
        in case run_block en instructions (initial_sym_state block) of
             Inr s \<Rightarrow> Executed (observe s)
           | Inl (i, Incomplete cat blocker) \<Rightarrow>
               Not_executed (symbolic_incomplete binary cat (insn_rva im i) (in_mnemonic i) (in_op_str i) blocker)
           | Inl (i, Failed e) \<Rightarrow> Raised e)"

end
