(* ===== verification/Symbolic_Rows.thy ===== *)
theory Symbolic_Rows
  imports Symbolic_Block
begin

text \<open>
  The documents that the static semantics emits for a block (\<open>static_program/semantics/transfer.py\<close>):
  expressions, events and outcomes as JSON, the stack delta, the aggregate effects.
\<close>

section \<open>Expressions\<close>

text \<open>\<open>_expr_json\<close>, and what \<open>json.dumps\<close> makes of a tuple: a tuple is a list.\<close>

fun raw_json :: "sx \<Rightarrow> json" where
  "raw_json (XConst n) = JList [JStr ''const'', JInt n]"
| "raw_json (XNum n) = JInt n"
| "raw_json (XTxt s) = JStr s"
| "raw_json XNone = JNull"
| "raw_json (XAdd xs) = JList (JStr ''add'' # map raw_json xs)"
| "raw_json (XSub a b) = JList [JStr ''sub'', raw_json a, raw_json b]"
| "raw_json (XMul a b) = JList [JStr ''mul'', raw_json a, raw_json b]"
| "raw_json (XXor xs) = JList (JStr ''xor'' # map raw_json xs)"
| "raw_json (XAnd a b) = JList [JStr ''and'', raw_json a, raw_json b]"
| "raw_json (XOr a b) = JList [JStr ''or'', raw_json a, raw_json b]"
| "raw_json (XBvnot a) = JList [JStr ''bvnot'', raw_json a]"
| "raw_json (XNeg a) = JList [JStr ''neg'', raw_json a]"
| "raw_json (XShl a b) = JList [JStr ''shl'', raw_json a, raw_json b]"
| "raw_json (XLshr a b) = JList [JStr ''lshr'', raw_json a, raw_json b]"
| "raw_json (XAshr w a b) = JList [JStr ''ashr'', JInt w, raw_json a, raw_json b]"
| "raw_json (XSext w a) = JList [JStr ''sext'', JInt w, raw_json a]"
| "raw_json (XWriteBits b pos w v) = JList [JStr ''write_bits'', raw_json b, JInt pos, JInt w, raw_json v]"
| "raw_json (XIte p a b) = JList [JStr ''ite'', raw_json p, raw_json a, raw_json b]"
| "raw_json XTrue = JList [JStr ''true'']"
| "raw_json XFalse = JList [JStr ''false'']"
| "raw_json (XNot a) = JList [JStr ''not'', raw_json a]"
| "raw_json (XBoolAnd xs) = JList (JStr ''bool_and'' # map raw_json xs)"
| "raw_json (XBoolOr xs) = JList (JStr ''bool_or'' # map raw_json xs)"
| "raw_json (XBoolXor a b) = JList [JStr ''bool_xor'', raw_json a, raw_json b]"
| "raw_json (XBoolEq a b) = JList [JStr ''bool_eq'', raw_json a, raw_json b]"
| "raw_json (XLeaf t xs) = JList (JStr t # map raw_json xs)"
| "raw_json (XNode t xs) = JList (JStr t # map raw_json xs)"
| "raw_json (XTuple xs) = JList (map raw_json xs)"

definition const_json :: "int \<Rightarrow> json" where
  "const_json n = JObj [(''op'', JStr ''const''), (''width'', JInt 32), (''value'', JInt (n AND 0xFFFFFFFF))]"

definition op_json :: "string \<Rightarrow> json list \<Rightarrow> json" where
  "op_json op args = JObj [(''op'', JStr op), (''args'', JList args)]"

definition load_json :: "json \<Rightarrow> json \<Rightarrow> json" where
  "load_json n a = JObj [(''op'', JStr ''load''), (''width'', n), (''address'', a)]"

text \<open>\<open>op_map\<close>, for the tags that are not constructors of \<open>sx\<close>\<close>

definition node_ops :: "(string \<times> string) list" where
  "node_ops =
     [(''ult'', ''ult32''), (''eq'', ''eq''), (''msb'', ''msb32''), (''msb_w'', ''msb''),
      (''add_overflow'', ''add_overflow32''), (''sub_overflow'', ''sub_overflow32''),
      (''add_overflow_w'', ''add_overflow''), (''sub_overflow_w'', ''sub_overflow''),
      (''shift_cf'', ''shift_cf''), (''shift_of'', ''shift_of''), (''bool_bit'', ''bool_to_bit''),
      (''adc_carry'', ''adc_carry''), (''adc_overflow'', ''adc_overflow''), (''sbb_borrow'', ''sbb_borrow''),
      (''sbb_overflow'', ''sbb_overflow''), (''imul_low'', ''imul_low32''), (''imul_high'', ''imul_high32''),
      (''imul_overflow'', ''imul_overflow''), (''mul_low'', ''mul_low32''), (''mul_high'', ''mul_high32''),
      (''mul_carry'', ''mul_carry''), (''parity'', ''parity''), (''udiv_quot'', ''udiv_quot32''),
      (''udiv_rem'', ''udiv_rem32''), (''udiv_valid'', ''udiv_valid32''), (''bsr_index'', ''bsr_index''),
      (''tzcnt'', ''tzcnt''), (''fpu_bits_lo'', ''fpu_bits_lo32''), (''fpu_bits_hi'', ''fpu_bits_hi32''),
      (''fpu_int32'', ''fpu_int32''), (''fpu_status_word'', ''fpu_status_word''),
      (''fpu_control_word'', ''fpu_control_word'')]"

definition semantic_op :: "string \<Rightarrow> string" where
  "semantic_op t = (case map_of node_ops t of None \<Rightarrow> t | Some op \<Rightarrow> op)"

definition write_bits_json :: "int \<Rightarrow> int \<Rightarrow> json \<Rightarrow> json \<Rightarrow> json" where
  "write_bits_json pos w b v =
     (let field = push_bit (nat pos) (push_bit (nat w) 1 - 1) AND 0xFFFFFFFF; clear = NOT field AND 0xFFFFFFFF;
          v = (if pos \<noteq> 0 then op_json ''shl32'' [v, const_json pos] else v)
      in op_json ''or32'' [op_json ''and32'' [b, const_json clear], op_json ''and32'' [v, const_json field]])"

text \<open>
  The tags with a document of their own. The operands are those that the constructors of the program
  build for the tag; an absent operand would be an \<open>IndexError\<close> and is \<open>JNull\<close> here.
\<close>

definition arg_json :: "json list \<Rightarrow> nat \<Rightarrow> json" where
  "arg_json js k = (if k < length js then js ! k else JNull)"

fun num_of :: "sx \<Rightarrow> int" where
  "num_of (XNum n) = n"
| "num_of _ = 0"

definition bytes_of :: "sx list \<Rightarrow> nat \<Rightarrow> json" where
  "bytes_of xs k = JInt (if k < length xs then num_of (xs ! k) div 8 else 0)"

definition leaf_json :: "string \<Rightarrow> json list \<Rightarrow> json" where
  "leaf_json t js =
     (let op = (''op'', JStr t); width = (''width'', JInt 32); arg = arg_json js in
      if t = ''reg'' then JObj [op, width, (''name'', arg 0)]
      else if t = ''flag'' then JObj [op, (''name'', arg 0)]
      else if t = ''env_response'' then JObj [op, width, (''index'', arg 0)]
      else if t = ''call_response'' then JObj [op, width, (''call_index'', arg 0), (''register'', arg 1)]
      else if t = ''call_flag'' then JObj [op, (''call_index'', arg 0), (''flag'', arg 1)]
      else if t = ''undefined_bv'' then JObj ([op, width, (''reason'', arg 0), (''id'', arg 1)]
         @ (if length js = 3 then [(''defined_value'', arg 2)] else []))
      else if t = ''undefined_flag'' then JObj [op, (''reason'', arg 0), (''id'', arg 1)]
      else op_json (semantic_op t) js)"

definition node_json :: "string \<Rightarrow> sx list \<Rightarrow> json list \<Rightarrow> json" where
  "node_json t xs js =
     (if t = ''fs_base'' then JObj [(''op'', JStr ''fs_base''), (''width'', JInt 32)]
      else if t = ''mem32'' then load_json (JInt 4) (arg_json js 0)
      else if t = ''mem'' then load_json (bytes_of xs 0) (arg_json js 1)
      else if t = ''call_mem'' then JObj [(''op'', JStr ''call_memory_load''), (''width'', bytes_of xs 1),
         (''call_index'', arg_json js 0), (''address'', arg_json js 2)]
      else op_json (semantic_op t) js)"

fun semantic_expr_json :: "sx \<Rightarrow> json" where
  "semantic_expr_json (XConst n) = const_json n"
| "semantic_expr_json (XNum n) = JInt n"
| "semantic_expr_json (XTxt s) = JStr s"
| "semantic_expr_json XNone = JNull"
| "semantic_expr_json (XAdd xs) = op_json ''add32'' (map semantic_expr_json xs)"
| "semantic_expr_json (XSub a b) = op_json ''sub32'' [semantic_expr_json a, semantic_expr_json b]"
| "semantic_expr_json (XMul a b) = op_json ''mul32'' [semantic_expr_json a, semantic_expr_json b]"
| "semantic_expr_json (XXor xs) = op_json ''xor32'' (map semantic_expr_json xs)"
| "semantic_expr_json (XAnd a b) = op_json ''and32'' [semantic_expr_json a, semantic_expr_json b]"
| "semantic_expr_json (XOr a b) = op_json ''or32'' [semantic_expr_json a, semantic_expr_json b]"
| "semantic_expr_json (XBvnot a) = op_json ''not32'' [semantic_expr_json a]"
| "semantic_expr_json (XNeg a) = op_json ''neg32'' [semantic_expr_json a]"
| "semantic_expr_json (XShl a b) = op_json ''shl32'' [semantic_expr_json a, semantic_expr_json b]"
| "semantic_expr_json (XLshr a b) = op_json ''lshr32'' [semantic_expr_json a, semantic_expr_json b]"
| "semantic_expr_json (XAshr w a b) = op_json ''sar'' [JInt w, semantic_expr_json a, semantic_expr_json b]"
| "semantic_expr_json (XSext w a) = op_json ''sign_extend'' [JInt w, semantic_expr_json a]"
| "semantic_expr_json (XWriteBits b pos w v) = write_bits_json pos w (semantic_expr_json b) (semantic_expr_json v)"
| "semantic_expr_json (XIte p a b) = op_json ''ite'' [semantic_expr_json p, semantic_expr_json a, semantic_expr_json b]"
| "semantic_expr_json XTrue = JObj [(''op'', JStr ''true'')]"
| "semantic_expr_json XFalse = JObj [(''op'', JStr ''false'')]"
| "semantic_expr_json (XNot a) = op_json ''not'' [semantic_expr_json a]"
| "semantic_expr_json (XBoolAnd xs) = op_json ''and_bool'' (map semantic_expr_json xs)"
| "semantic_expr_json (XBoolOr xs) = op_json ''or_bool'' (map semantic_expr_json xs)"
| "semantic_expr_json (XBoolXor a b) = op_json ''xor_bool'' [semantic_expr_json a, semantic_expr_json b]"
| "semantic_expr_json (XBoolEq a b) = op_json ''eq_bool'' [semantic_expr_json a, semantic_expr_json b]"
| "semantic_expr_json (XLeaf t xs) = leaf_json t (map semantic_expr_json xs)"
| "semantic_expr_json (XNode t xs) = node_json t xs (map semantic_expr_json xs)"
| "semantic_expr_json (XTuple []) = JList []"
| "semantic_expr_json (XTuple (x # xs)) = op_json (expr_repr x) (map semantic_expr_json xs)"

section \<open>Events\<close>

text \<open>\<open>{**base, **extra}\<close>\<close>

definition overlay :: "members \<Rightarrow> members \<Rightarrow> members" where
  "overlay base extra = foldl (\<lambda>ms (k, v). AList.update k v ms) base extra"

definition memory_access :: "sx \<Rightarrow> members \<times> members" where
  "memory_access mem =
     (case mem of
        XNode t xs \<Rightarrow>
          if t = ''mem32'' \<and> length xs \<ge> 1
          then ([(''width'', JInt 4), (''address'', semantic_expr_json (xs ! 0))], [])
          else if t = ''mem'' \<and> length xs \<ge> 2
          then ([(''width'', bytes_of xs 0), (''address'', semantic_expr_json (xs ! 1))], [])
          else if t = ''call_mem'' \<and> length xs \<ge> 3
          then ([(''width'', bytes_of xs 1), (''address'', semantic_expr_json (xs ! 2))],
                [(''memory_epoch'', JObj [(''kind'', JStr ''internal_call''), (''call_index'', JInt (num_of (xs ! 0)))])])
          else ([(''width'', JInt 4), (''address'', semantic_expr_json mem)], [])
      | _ \<Rightarrow> ([(''width'', JInt 4), (''address'', semantic_expr_json mem)], []))"

definition access_json :: "string \<Rightarrow> sx \<Rightarrow> members \<Rightarrow> members" where
  "access_json what mem stored =
     (let (place, epoch) = memory_access mem in [(''kind'', JStr what)] @ place @ stored @ epoch)"

definition unknown_json :: "string \<Rightarrow> sx \<Rightarrow> members" where
  "unknown_json what e = [(''kind'', JStr what), (''raw'', raw_json e)]"

definition memory_event_json :: "sx \<Rightarrow> members" where
  "memory_event_json e =
     (case e of
        XNode t xs \<Rightarrow>
          if t = ''read'' \<and> length xs \<ge> 1 then access_json ''read'' (xs ! 0) []
          else if t = ''write'' \<and> length xs \<ge> 2
          then access_json ''write'' (xs ! 0) [(''value'', semantic_expr_json (xs ! 1))]
          else unknown_json ''unknown'' e
      | _ \<Rightarrow> unknown_json ''unknown'' e)"

text \<open>A pair is a node with one operand; later pairs replace earlier ones of the same name.\<close>

fun register_inputs_json :: "sx \<Rightarrow> json" where
  "register_inputs_json (XTuple items) =
     JObj (foldl (\<lambda>ms item. case item of XNode name [e] \<Rightarrow> AList.update name (semantic_expr_json e) ms | _ \<Rightarrow> ms) [] items)"
| "register_inputs_json _ = JObj []"

definition stack_input_json :: "sx \<Rightarrow> json option" where
  "stack_input_json item =
     (case item of
        XTuple xs \<Rightarrow> (if length xs = 3
          then Some (JObj [(''offset'', JInt (num_of (xs ! 0))), (''width'', bytes_of xs 1),
                           (''value'', semantic_expr_json (xs ! 2))])
          else None)
      | _ \<Rightarrow> None)"

fun stack_inputs_json :: "sx \<Rightarrow> json" where
  "stack_inputs_json (XTuple items) = JList (List.map_filter stack_input_json items)"
| "stack_inputs_json _ = JList []"

definition captured_inputs :: "sx \<Rightarrow> sx \<Rightarrow> sx \<Rightarrow> members" where
  "captured_inputs regs stack fl =
     [(''register_inputs'', register_inputs_json regs), (''stack_inputs'', stack_inputs_json stack),
      (''flag_inputs'', register_inputs_json fl)]"

fun call_arguments :: "sx \<Rightarrow> json" where
  "call_arguments (XTuple args) = JList (map semantic_expr_json args)"
| "call_arguments _ = JList []"

text \<open>A part of a tuple that may be missing is read as the empty tuple.\<close>

definition tuple_part :: "sx list \<Rightarrow> nat \<Rightarrow> sx" where
  "tuple_part xs k = (if k < length xs then xs ! k else XTuple [])"

definition boundary_json :: "sx list \<Rightarrow> members" where
  "boundary_json rest =
     (case rest of
        XNode t xs # _ \<Rightarrow>
          if t = ''machine_call_boundary''
          then [(''return_rva'', JInt (num_of (tuple_part xs 0))), (''input_model'', JStr ''captured_machine_call_boundary_v1'')]
               @ captured_inputs (tuple_part xs 1) (tuple_part xs 2) (tuple_part xs 3)
          else if t = ''auto_call_inputs''
          then (''input_model'', JStr ''captured_visible_register_and_stack_inputs_v1'')
               # captured_inputs (tuple_part xs 0) (tuple_part xs 1) (tuple_part xs 2)
          else []
      | _ \<Rightarrow> [])"

definition call_event_json :: "string \<Rightarrow> sx list \<Rightarrow> members option" where
  "call_event_json t xs =
     (if t = ''external_call'' \<and> length xs \<ge> 4 then
        Some ([(''kind'', JStr ''external_call''), (''dll'', raw_json (xs ! 0)), (''symbol'', raw_json (xs ! 1)),
               (''ordinal'', raw_json (xs ! 2)), (''arguments'', call_arguments (xs ! 3))] @ boundary_json (drop 4 xs))
      else if t \<in> {''internal_call'', ''indirect_call''} \<and> length xs \<ge> 4 then
        Some ([(''kind'', JStr t),
               (if t = ''internal_call'' then (''target_rva'', raw_json (xs ! 0)) else (''target'', semantic_expr_json (xs ! 0))),
               (''return_rva'', JInt (num_of (xs ! 1)))] @ captured_inputs (xs ! 2) (xs ! 3) (tuple_part xs 4)
              @ [(''effect_model'', JStr (if t = ''internal_call'' then ''uninterpreted_internal_call_response_v1''
                                          else ''uninterpreted_indirect_call_response_v1''))])
      else None)"

definition string_event_json :: "string \<Rightarrow> string \<Rightarrow> sx list \<Rightarrow> members" where
  "string_event_json what source_name xs =
     (let n = (\<lambda>k. JInt (num_of (xs ! k))); e = (\<lambda>k. semantic_expr_json (xs ! k)) in
      [(''kind'', JStr what), (''index'', n 0), (''element_width'', n 1), (''address_size'', n 2), (''destination'', e 3),
       (source_name, e 4), (''count'', e 5), (''direction_flag'', e 6)])"

text \<open>The form of cached summaries of an earlier version\<close>

definition old_string_json :: "string \<Rightarrow> sx list \<Rightarrow> members option" where
  "old_string_json t xs =
     (let e = (\<lambda>k. semantic_expr_json (xs ! k));
          event = (\<lambda>source_name model.
            [(''kind'', JStr t), (''index'', JInt (num_of (xs ! 0))), (''destination'', e 1), (source_name, e 2),
             (''count'', e 3), (''direction_flag'', e 4), (''effect_model'', JStr model)]) in
      if length xs < 5 then None
      else if t = ''rep_movsd'' then Some (event ''source'' ''symbolic_string_copy_v1'')
      else if t = ''rep_stosd'' then Some (event ''value'' ''symbolic_string_fill_v1'')
      else None)"

definition texts :: "string list \<Rightarrow> json" where
  "texts ss = JList (map JStr ss)"

definition string_json :: "string \<Rightarrow> sx list \<Rightarrow> members option" where
  "string_json t xs =
     (let model = (\<lambda>m. [(''effect_model'', JStr m), (''restart_semantics'', JStr ''element_committed_v1'')]) in
      if length xs < 7 then old_string_json t xs
      else if t = ''rep_movs'' then Some (string_event_json t ''source'' xs @ model ''symbolic_string_copy_v2'')
      else if t = ''rep_stos'' then Some (string_event_json t ''value'' xs @ model ''symbolic_string_fill_v2'')
      else if t = ''rep_scas'' then Some (string_event_json t ''accumulator'' xs
        @ [(''repeat_condition'', JStr ''while_not_equal_v1''), (''comparison_model'', JStr ''subtraction_flags_v1''),
           (''segment_model'', JStr ''flat_es_zero_v1'')] @ model ''symbolic_string_scan_v1''
        @ [(''fault_model'', JStr ''read_before_commit_v1''), (''owned_register_outputs'', texts [''edi'', ''ecx'']),
           (''owned_flag_outputs'', texts [''cf'', ''pf'', ''af'', ''zf'', ''sf'', ''of''])])
      else old_string_json t xs)"

fun external_event_json :: "sx \<Rightarrow> members" where
  "external_event_json (XNode t xs) =
     (case call_event_json t xs of
        Some ms \<Rightarrow> ms
      | None \<Rightarrow> (case string_json t xs of Some ms \<Rightarrow> ms | None \<Rightarrow> unknown_json ''unknown_external_event'' (XNode t xs)))"
| "external_event_json e = unknown_json ''unknown_external_event'' e"

definition fault_json :: "sx \<Rightarrow> members" where
  "fault_json e =
     (case e of
        XNode t xs \<Rightarrow> (if length xs = 2
          then [(''kind'', JStr t), (''condition'', semantic_expr_json (xs ! 0)), (''instruction_rva'', JInt (num_of (xs ! 1)))]
          else unknown_json ''unknown'' e)
      | _ \<Rightarrow> unknown_json ''unknown'' e)"

definition ordered_event_json :: "string \<times> int \<times> sx \<Rightarrow> json" where
  "ordered_event_json event =
     (case event of (family, rva, payload) \<Rightarrow>
        JObj (overlay [(''family'', JStr family), (''instruction_rva'', JInt rva)]
          (if family = ''memory'' then memory_event_json payload
             else if family = ''external'' then external_event_json payload
             else if family = ''fault'' then fault_json payload
             else unknown_json ''unknown'' payload)))"

section \<open>Outcomes\<close>

definition target_rvas :: "json \<Rightarrow> (members \<times> int) list" where
  "target_rvas contract =
     (case member_of contract ''case_targets'' of
        JList items \<Rightarrow> List.map_filter (\<lambda>item. case item of
            JObj ms \<Rightarrow> (case jget ms ''target_rva'' of JInt t \<Rightarrow> Some (ms, t) | _ \<Rightarrow> None)
          | _ \<Rightarrow> None) items
      | _ \<Rightarrow> [])"

fun outcome_json :: "sym_outcome \<Rightarrow> members" where
  "outcome_json (Sym_fallthrough t) = [(''kind'', JStr ''fallthrough''), (''target_rva'', JInt t)]"
| "outcome_json (Sym_jump t) = [(''kind'', JStr ''jump''), (''target_rva'', JInt t)]"
| "outcome_json (Sym_branch c t f) =
     [(''kind'', JStr ''branch''), (''condition'', semantic_expr_json c), (''true_target_rva'', JInt t),
      (''false_target_rva'', JInt f)]"
| "outcome_json (Sym_return e) = [(''kind'', JStr ''return''), (''value'', semantic_expr_json e)]"
| "outcome_json (Sym_indirect_jump e) = [(''kind'', JStr ''indirect_jump''), (''target'', semantic_expr_json e)]"
| "outcome_json (Sym_jump_table e c) =
     [(''kind'', JStr ''indirect_jump_table''), (''target'', semantic_expr_json e), (''switch_contract'', c),
      (''target_rvas'', JList (map (JInt \<circ> snd) (target_rvas c)))]"
| "outcome_json (Sym_external_jump imported) =
     [(''kind'', JStr ''external_jump''), (''dll'', JStr (imp_dll imported)), (''symbol'', opt_str (imp_symbol imported)),
      (''ordinal'', opt_int (imp_ordinal imported))]"

definition edge_json :: "json \<Rightarrow> json \<Rightarrow> json" where
  "edge_json target condition = JObj [(''target_rva'', target), (''condition'', condition)]"

definition edge_conditions :: "members \<Rightarrow> json list" where
  "edge_conditions outcome =
     (let what = jget outcome ''kind''; contract = jget outcome ''switch_contract'' in
      if what = JStr ''branch''
      then [edge_json (jget outcome ''true_target_rva'') (jget outcome ''condition''),
            edge_json (jget outcome ''false_target_rva'') (op_json ''not'' [jget outcome ''condition''])]
      else if what \<in> {JStr ''fallthrough'', JStr ''jump''}
      then [edge_json (jget outcome ''target_rva'') (JObj [(''op'', JStr ''true'')])]
      else if what = JStr ''indirect_jump_table''
      then map (\<lambda>(ms, t). edge_json (JInt t) (JObj
             [(''op'', JStr ''jump_table_case''), (''index'', jget ms ''index''),
              (''instruction_rva'', member_of (member_of contract ''instruction'') ''rva'')])) (target_rvas contract)
      else [])"

section \<open>The stack delta\<close>

text \<open>\<open>a * ESP + b\<close>\<close>

fun affine :: "sx \<Rightarrow> (int \<times> int) option" where
  "affine (XConst n) = Some (0, n)"
| "affine (XLeaf t xs) = (if t = ''reg'' \<and> xs = [XTxt ''esp''] then Some (1, 0) else None)"
| "affine (XAdd xs) =
     (if length xs < 2 then None
      else foldr (\<lambda>v acc. case (v, acc) of (Some (a, b), Some (c, d)) \<Rightarrow> Some (a + c, b + d) | _ \<Rightarrow> None)
             (map affine xs) (Some (0, 0)))"
| "affine (XSub l r) = (case (affine l, affine r) of (Some (a, b), Some (c, d)) \<Rightarrow> Some (a - c, b - d) | _ \<Rightarrow> None)"
| "affine _ = None"

definition stack_delta :: "sx \<Rightarrow> int option" where
  "stack_delta e =
     (case affine e of
        Some (a, b) \<Rightarrow> if a = 1 then (let n = b AND 0xFFFFFFFF in Some (if n \<ge> 2 ^ 31 then n - 2 ^ 32 else n)) else None
      | None \<Rightarrow> None)"

definition stack_delta_json :: "sx \<Rightarrow> json" where
  "stack_delta_json esp =
     (case stack_delta esp of
        None \<Rightarrow> JObj [(''status'', JStr ''unknown''), (''expression'', semantic_expr_json esp)]
      | Some n \<Rightarrow> JObj [(''status'', JStr ''derived''), (''net_bytes'', JInt n), (''expression'', semantic_expr_json esp)])"

section \<open>The aggregate effects of a block\<close>

definition changed :: "string \<Rightarrow> named \<Rightarrow> named" where
  "changed t d = filter (\<lambda>(name, e). e \<noteq> XLeaf t [XTxt name]) d"

definition writes_json :: "string \<Rightarrow> named \<Rightarrow> json list" where
  "writes_json what d = map (\<lambda>(name, e). JObj [(what, JStr name), (''value'', semantic_expr_json e)]) d"

definition physical_fields :: "string list" where
  "physical_fields =
     [''stack'', ''tags'', ''control'', ''status'', ''pending_exception'', ''last_opcode'', ''instruction_pointer'',
      ''code_selector'', ''data_pointer'', ''data_selector'']"

definition x87_expression_valid :: "json \<Rightarrow> bool" where
  "x87_expression_valid v =
     (case v of JObj ms \<Rightarrow> (case jget ms ''op'' of JStr _ \<Rightarrow> True | _ \<Rightarrow> False) | _ \<Rightarrow> False)"

definition physical_field_valid :: "string \<Rightarrow> json \<Rightarrow> bool" where
  "physical_field_valid name v =
     (if name \<in> {''stack'', ''tags''}
      then (case v of JList xs \<Rightarrow> length xs = 8 \<and> list_all x87_expression_valid xs | _ \<Rightarrow> False)
      else x87_expression_valid v)"

definition checked_decoder :: string where
  "checked_decoder = ''SpaghettiExtractor.ISA.Formal.decodeInstructionExact''"

definition checked_executor :: string where
  "checked_executor = ''SpaghettiExtractor.ISA.Formal.executeInstruction''"

definition obligation_model :: string where
  "obligation_model = ''native_exact_x87_command_replay_obligation_v1''"

definition fpu_members :: "observables \<Rightarrow> members" where
  "fpu_members ob =
     (case ob_fpu ob of
        None \<Rightarrow> []
      | Some (stack, control, status) \<Rightarrow>
          [(''stack'', JList (map semantic_expr_json stack)), (''control'', semantic_expr_json control),
           (''status'', semantic_expr_json status)])"

definition replay_obligation :: "members \<Rightarrow> string list \<Rightarrow> members option \<Rightarrow> json" where
  "replay_obligation converted missing replay =
     JObj
       [(''model'', JStr obligation_model), (''status'', JStr ''required''),
        (''authoritative_state_type'', JStr ''SpaghettiExtractor.ISA.X87.PhysicalState''),
        (''required_fields'', texts physical_fields), (''missing_or_invalid_fields'', texts missing),
        (''logical_state_guidance'', JObj converted),
        (''replay'', JObj (overlay
           [(''format'', JStr ''spaghetti-extractor-native-exact-x87-command-replay-obligation-v1''),
            (''checked_decoder'', JStr checked_decoder), (''checked_decoder_scope'', JStr ''each_x87_singleton_instruction''),
            (''checked_executor'', JStr checked_executor), (''checked_executor_scope'', JStr ''each_x87_singleton_instruction'')]
           (case replay of None \<Rightarrow> [] | Some ms \<Rightarrow> ms)))]"

definition fpu_state_json :: "observables \<Rightarrow> members option \<Rightarrow> json" where
  "fpu_state_json ob replay =
     (let converted = fpu_members ob in
      if converted = [] \<and> replay = None then JNull
      else case filter (\<lambda>name. \<not> physical_field_valid name (jget converted name)) physical_fields of
        [] \<Rightarrow> JObj ((''model'', JStr ''symbolic_x87_stack_v1'') # converted)
      | missing \<Rightarrow> replay_obligation converted missing replay)"

definition effects_json :: "observables \<Rightarrow> members option \<Rightarrow> members" where
  "effects_json ob replay =
     (let register_writes = writes_json ''register'' (changed ''reg'' (ob_registers ob));
          flag_writes = writes_json ''flag'' (changed ''flag'' (ob_flags ob));
          memory = map (JObj \<circ> memory_event_json) (ob_memory_events ob);
          external = map (JObj \<circ> external_event_json) (ob_external_events ob);
          faults = map (JObj \<circ> fault_json) (ob_faults ob);
          ordered = map ordered_event_json (ob_ordered ob);
          outcome = outcome_json (ob_outcome ob);
          edges = edge_conditions outcome;
          size_of = (\<lambda>js. JInt (int (length js)))
      in [(''register_writes'', JList register_writes), (''flag_writes'', JList flag_writes),
          (''memory_events'', JList memory), (''external_events'', JList external), (''faults'', JList faults),
          (''ordered_events'', JList ordered), (''fpu_state'', fpu_state_json ob replay),
          (''edge_conditions'', JList edges), (''outcome'', JObj outcome),
          (''stack_delta'', stack_delta_json (entry_or (ob_registers ob) ''esp'' XNone)),
          (''counts'', JObj
             [(''register_writes'', size_of register_writes), (''flag_writes'', size_of flag_writes),
              (''memory_events'', size_of memory), (''external_events'', size_of external),
              (''faults'', size_of faults), (''ordered_events'', size_of ordered), (''edge_conditions'', size_of edges)])])"

end
