(* ===== verification/Symbolic_Schedule.thy ===== *)
theory Symbolic_Schedule
  imports Symbolic_Rows
begin

text \<open>
  The instruction schedule and the transfer row of a block (\<open>static_program/semantics/transfer.py\<close>):
  every instruction is executed alone on its exact bytes, its effects are recorded under digests, and
  the row is emitted only when the ledger covers the block.
\<close>

section \<open>Digests\<close>

definition document_digest :: "(int list \<Rightarrow> string) \<Rightarrow> json \<Rightarrow> json" where
  "document_digest sha v = JStr (sha (map of_char (canonical_json v)))"

fun outcome_raw :: "sym_outcome \<Rightarrow> json" where
  "outcome_raw (Sym_fallthrough t) = JList [JStr ''fallthrough'', JInt t]"
| "outcome_raw (Sym_jump t) = JList [JStr ''jump'', JInt t]"
| "outcome_raw (Sym_branch c t f) = JList [JStr ''branch'', raw_json c, JInt t, JInt f]"
| "outcome_raw (Sym_return e) = JList [JStr ''return'', raw_json e]"
| "outcome_raw (Sym_indirect_jump e) = JList [JStr ''indirect_jump'', raw_json e]"
| "outcome_raw (Sym_jump_table e c) = JList [JStr ''indirect_jump_table'', raw_json e, c]"
| "outcome_raw (Sym_external_jump imported) =
     JList [JStr ''external_jump'', JStr (imp_dll imported), opt_str (imp_symbol imported), opt_int (imp_ordinal imported)]"

definition observables_raw :: "observables \<Rightarrow> json" where
  "observables_raw ob =
     (let exprs = (\<lambda>es. JList (map raw_json es)) in
      JObj (map (\<lambda>(name, e). (''reg:'' @ name, raw_json e)) (ob_registers ob)
        @ map (\<lambda>(name, e). (''flag:'' @ name, raw_json e)) (ob_flags ob)
        @ [(''outcome'', outcome_raw (ob_outcome ob)), (''memory_events'', exprs (ob_memory_events ob)),
           (''external_events'', exprs (ob_external_events ob)), (''fault_conditions'', exprs (ob_faults ob))]
        @ (case ob_fpu ob of None \<Rightarrow> [] | Some (stack, control, status) \<Rightarrow>
            [(''fpu_stack'', exprs stack), (''fpu_control'', raw_json control), (''fpu_status'', raw_json status)])))"

definition initial_observables :: "int \<Rightarrow> observables" where
  "initial_observables rva =
     \<lparr>ob_registers = map (\<lambda>n. (n, reg_leaf n)) [''eax'', ''ebx'', ''ecx'', ''edx'', ''esi'', ''edi'', ''ebp'', ''esp''],
      ob_flags = map (\<lambda>n. (n, flag_leaf n)) [''cf'', ''zf'', ''sf'', ''of'', ''pf'', ''df''],
      ob_outcome = Sym_fallthrough rva, ob_memory_events = [], ob_external_events = [], ob_faults = [],
      ob_fpu = None, ob_ordered = []\<rparr>"

section \<open>The effects of one instruction\<close>

fun contains_op :: "string \<Rightarrow> json \<Rightarrow> bool" where
  "contains_op op (JObj ms) = (jget ms ''op'' = JStr op \<or> list_ex (\<lambda>kv. contains_op op (snd kv)) ms)"
| "contains_op op (JList xs) = list_ex (contains_op op) xs"
| "contains_op op v = False"

definition extension :: "'a list \<Rightarrow> 'a list \<Rightarrow> 'a list option" where
  "extension old new = (if take (length old) new = old then Some (drop (length old) new) else None)"

definition differing :: "named \<Rightarrow> named \<Rightarrow> named" where
  "differing previous current = filter (\<lambda>(name, e). map_of previous name \<noteq> Some e) current"

definition counts_of :: "members \<Rightarrow> string list \<Rightarrow> json" where
  "counts_of ms names =
     JObj (map (\<lambda>n. (n, JInt (case jget ms n of JList xs \<Rightarrow> int (length xs) | _ \<Rightarrow> 0))) names)"

definition effect_document ::
  "named \<Rightarrow> named \<Rightarrow> sx list \<Rightarrow> sx list \<Rightarrow> sx list \<Rightarrow> sym_outcome \<Rightarrow> (string \<times> int \<times> sx) list \<Rightarrow> members" where
  "effect_document regs fl memory external faults outcome ordered =
     (let written = map (\<lambda>(name, e). (name, semantic_expr_json e)) fl;
          undefined_writes = filter (contains_op ''undefined_flag'' \<circ> snd) written;
          defined_writes = filter (Not \<circ> contains_op ''undefined_flag'' \<circ> snd) written;
          flag_json = (\<lambda>(name, v). JObj [(''flag'', JStr name), (''value'', v)]);
          ms = [(''register_writes'', JList (writes_json ''register'' regs)),
                (''defined_flag_writes'', JList (map flag_json defined_writes)),
                (''undefined_flags'', texts (map fst undefined_writes)),
                (''undefined_flag_writes'', JList (map flag_json undefined_writes)),
                (''memory_events'', JList (map (JObj \<circ> memory_event_json) memory)),
                (''faults'', JList (map (JObj \<circ> fault_json) faults)),
                (''control'', JObj (outcome_json outcome)),
                (''call_effects'', JList (map (JObj \<circ> external_event_json) external)),
                (''ordered_events'', JList (map ordered_event_json ordered))]
      in ms @ [(''counts'', counts_of ms [''register_writes'', ''defined_flag_writes'', ''undefined_flags'',
                 ''undefined_flag_writes'', ''memory_events'', ''faults'', ''call_effects'', ''ordered_events''])])"

definition effect_delta ::
  "observables \<Rightarrow> observables \<Rightarrow> members option" where
  "effect_delta previous current =
     Option.bind (extension (ob_memory_events previous) (ob_memory_events current)) (\<lambda>memory.
     Option.bind (extension (ob_external_events previous) (ob_external_events current)) (\<lambda>external.
     Option.bind (extension (ob_faults previous) (ob_faults current)) (\<lambda>faults.
     Option.bind (extension (ob_ordered previous) (ob_ordered current)) (\<lambda>ordered.
       Some (effect_document (differing (ob_registers previous) (ob_registers current))
               (differing (ob_flags previous) (ob_flags current)) memory external faults (ob_outcome current) ordered)))))"

section \<open>The schedule\<close>

fun as_int :: "json \<Rightarrow> int option" where
  "as_int (JInt n) = Some n"
| "as_int (JBool b) = Some (of_bool b)"
| "as_int _ = None"

definition or_text :: "json \<Rightarrow> string \<Rightarrow> json" where
  "or_text v fallback = (if py_truthy v then v else JStr fallback)"

definition text_or_empty :: "json \<Rightarrow> string" where
  "text_or_empty v = (if py_truthy v then py_str v else '''')"

definition hex_or_empty :: "json \<Rightarrow> int list" where
  "hex_or_empty v = (case v of JStr s \<Rightarrow> (case py_fromhex s of Some bs \<Rightarrow> bs | None \<Rightarrow> []) | _ \<Rightarrow> [])"

definition incomplete_category :: string where
  "incomplete_category = ''x87_instruction_effect_schedule_incomplete''"

definition effect_blocker :: "(int list \<Rightarrow> string) \<Rightarrow> nat \<Rightarrow> members \<Rightarrow> json \<Rightarrow> json" where
  "effect_blocker sha index instruction symbolic =
     (let rva = jget instruction ''rva''; inner = member_of symbolic ''instruction'';
          rva = (if as_int rva = None then (case inner of JObj ms \<Rightarrow> jget ms ''rva'' | _ \<Rightarrow> rva) else rva);
          exact = hex_or_empty (jget instruction ''bytes'');
          ms = [(''index'', JInt (int index)), (''rva'', rva), (''bytes'', JStr (to_hex exact)),
                (''bytes_sha256'', JStr (sha exact)),
                (''category'', or_text (member_of symbolic ''category'') incomplete_category),
                (''blocker'', or_text (member_of symbolic ''blocker'') ''instruction effects could not be represented''),
                (''next_action'', or_text (member_of symbolic ''next_action'') ''add checked per-instruction semantics'')]
      in JObj (ms @ [(''blocker_sha256'', document_digest sha (JObj ms))]))"

definition inventory_blocker :: "int \<Rightarrow> members \<Rightarrow> string \<Rightarrow> json" where
  "inventory_blocker rva instruction why =
     (let m = py_lower (text_or_empty (jget instruction ''mnemonic'')) in
      symbolic_incomplete ''original'' incomplete_category rva (if m = [] then ''<decode>'' else m)
        (text_or_empty (jget instruction ''op_str'')) why)"

definition effect_record ::
  "pe_image \<Rightarrow> string \<Rightarrow> nat \<Rightarrow> members \<Rightarrow> int \<Rightarrow> int \<Rightarrow> int list \<Rightarrow> observables \<Rightarrow> members \<Rightarrow> json" where
  "effect_record im digest index instruction rva end_rva exact ob effects =
     (let sha = im_sha im; x87 = is_x87_instruction_encoding exact;
          span = [(''rva_start'', JInt rva), (''rva_end'', JInt end_rva), (''bytes'', JStr (to_hex exact)),
                  (''bytes_sha256'', JStr (sha exact))];
          checked_by = [(''checked_decoder'', JStr checked_decoder), (''checked_executor'', JStr checked_executor)];
          ms = [(''index'', JInt (int index))] @ span
             @ [(''transfer_bytes_sha256'', JStr digest),
                (''instruction_class'', JStr (if x87 then ''x87_singleton_checked_replay'' else ''ordinary_symbolic_instruction'')),
                (''classification'', JObj
                   ([(''status'', JStr ''proposal_requires_lean_exact_byte_replay''),
                     (''source'', JStr ''normalized_symbolic_equivalence_v1''), (''proof_authority'', JBool False),
                     (''mnemonic_guidance'', JStr (py_lower (text_or_empty (jget instruction ''mnemonic'')))),
                     (''operand_guidance'', JStr (text_or_empty (jget instruction ''op_str'')))] @ checked_by)),
                (''symbolic_pre_state_sha256'', document_digest sha (observables_raw (initial_observables rva))),
                (''symbolic_post_state_sha256'', document_digest sha (observables_raw ob)),
                (''effects'', JObj effects)]
             @ (if x87 then [(''x87_singleton_replay'', JObj (span @ checked_by
                  @ [(''physical_state_effect'', JStr ''produced_by_checked_executor_not_inferred_by_exporter'')]))] else [])
      in JObj (ms @ [(''record_sha256'', document_digest sha (JObj ms))]))"

text \<open>
  One instruction: the report that blocks it, or its record with the address after it and the number of
  its external events. Reports are read as documents because the code reads them so.
\<close>

definition scheduled_instruction ::
  "pe_image \<Rightarrow> side \<Rightarrow> int list \<Rightarrow> members \<Rightarrow> nat \<Rightarrow> members \<Rightarrow> int \<Rightarrow> int \<Rightarrow> (json + (json \<times> int \<times> int)) res" where
  "scheduled_instruction im block bytes src index instruction expected calls_before =
     (case (as_int (jget instruction ''rva''), as_int (jget instruction ''size''), jget instruction ''bytes'') of
        (Some rva, Some n, JStr encoded) \<Rightarrow>
          (let exact = hex_or_empty (JStr encoded) in
           if n \<le> 0 then Ok (Inl (inventory_blocker rva instruction ''decoded instruction inventory lacks exact RVA, size, or bytes''))
           else if rva \<noteq> expected \<or> int (length exact) \<noteq> n
              \<or> take (nat n) (drop (nat (rva - sd_start block)) bytes) \<noteq> exact
           then Ok (Inl (inventory_blocker rva instruction ''decoded instruction inventory does not reconstruct the exact PE span''))
           else case symbolic_execute im \<lparr>sd_start = rva, sd_end = rva + n\<rparr> exact ''original'' src calls_before of
                  Raised e \<Rightarrow> Raise e
                | Not_executed report \<Rightarrow> Ok (Inl report)
                | Executed ob \<Rightarrow>
                    (case effect_delta (initial_observables rva) ob of
                       None \<Rightarrow> Ok (Inl (inventory_blocker rva instruction
                         ''symbolic prefix effects are not a stable extension of the prior instruction''))
                     | Some effects \<Rightarrow>
                         Ok (Inr (effect_record im (im_sha im bytes) index instruction rva (rva + n) exact ob effects,
                                  rva + n, int (length (ob_external_events ob))))))
      | (rva, _, _) \<Rightarrow>
          Ok (Inl (inventory_blocker (case rva of None \<Rightarrow> expected | Some n \<Rightarrow> n) instruction
            ''decoded instruction inventory lacks exact RVA, size, or bytes'')))"

text \<open>The records before the first instruction that is blocked, the address reached, and what blocked it.\<close>

fun effect_records ::
  "pe_image \<Rightarrow> side \<Rightarrow> int list \<Rightarrow> members \<Rightarrow> nat \<Rightarrow> members list \<Rightarrow> int \<Rightarrow> int
   \<Rightarrow> (json list \<times> int \<times> (nat \<times> members \<times> json) option) res" where
  "effect_records im block bytes src index [] expected calls_before = Ok ([], expected, None)"
| "effect_records im block bytes src index (i # rest) expected calls_before =
     bind (scheduled_instruction im block bytes src index i expected calls_before) (\<lambda>found. case found of
        Inl report \<Rightarrow> Ok ([], expected, Some (index, i, report))
      | Inr (record_, end_rva, k) \<Rightarrow>
          bind (effect_records im block bytes src (Suc index) rest end_rva (calls_before + k)) (\<lambda>(records, reached, blocked).
            Ok (record_ # records, reached, blocked)))"

definition count_class :: "string \<Rightarrow> json list \<Rightarrow> json" where
  "count_class c records = JInt (int (length (filter (\<lambda>r. member_of r ''instruction_class'' = JStr c) records)))"

definition schedule_json :: "pe_image \<Rightarrow> side \<Rightarrow> int list \<Rightarrow> json list \<Rightarrow> json list \<Rightarrow> json" where
  "schedule_json im block bytes records blockers =
     (let ms = [(''format'', JStr ''spaghetti-extractor-static-instruction-effects-v1''),
                (''status'', JStr (if blockers = [] then ''complete'' else ''incomplete'')), (''proof_authority'', JBool False),
                (''ordering'', JStr ''strict_contiguous_rva_order''), (''rva_start'', JInt (sd_start block)),
                (''rva_end'', JInt (sd_end block)), (''transfer_bytes_sha256'', JStr (im_sha im bytes)),
                (''records'', JList records), (''blockers'', JList blockers),
                (''counts'', JObj
                   [(''instructions'', JInt (int (length records))),
                    (''x87_singletons'', count_class ''x87_singleton_checked_replay'' records),
                    (''ordinary_instructions'', count_class ''ordinary_symbolic_instruction'' records),
                    (''blockers'', JInt (int (length blockers)))])]
      in JObj (ms @ [(''schedule_sha256'', document_digest (im_sha im) (JObj ms))]))"

text \<open>The schedule, and the report that blocks the block or its observables.\<close>

definition effect_schedule ::
  "pe_image \<Rightarrow> side \<Rightarrow> int list \<Rightarrow> members list \<Rightarrow> members \<Rightarrow> (json \<times> (json + observables)) res" where
  "effect_schedule im block bytes instructions src =
     bind (effect_records im block bytes src 0 instructions (sd_start block) 0) (\<lambda>(records, reached, blocked).
       let sha = im_sha im; emit = schedule_json im block bytes records in
       case blocked of
         Some (index, i, report) \<Rightarrow> Ok (emit [effect_blocker sha index i report], Inl report)
       | None \<Rightarrow>
           if reached \<noteq> sd_end block
           then (let report = symbolic_incomplete ''original'' incomplete_category reached ''<decode>'' ''''
                       ''decoded instruction inventory does not cover the complete transfer span''
                 in Ok (emit [effect_blocker sha (length records) [] report], Inl report))
           else case symbolic_execute im block bytes ''original'' src 0 of
                  Raised e \<Rightarrow> Raise e
                | Not_executed report \<Rightarrow>
                    Ok (emit [effect_blocker sha (length records) (if instructions = [] then [] else last instructions) report],
                        Inl report)
                | Executed ob \<Rightarrow> Ok (emit [], Inr ob))"

section \<open>The transfer row\<close>

fun safe_part :: "bool \<Rightarrow> string \<Rightarrow> string" where
  "safe_part gap [] = []"
| "safe_part gap (c # cs) =
     (let n = of_char c :: nat;
          safe = (48 \<le> n \<and> n \<le> 57 \<or> 65 \<le> n \<and> n \<le> 90 \<or> 97 \<le> n \<and> n \<le> 122 \<or> c \<in> {CHR ''_'', CHR ''.'', CHR ''-''})
      in if safe then c # safe_part False cs else (if gap then [] else ''-'') @ safe_part True cs)"

definition strip_dashes :: "string \<Rightarrow> string" where
  "strip_dashes s = rev (dropWhile ((=) CHR ''-'') (rev (dropWhile ((=) CHR ''-'') s)))"

definition safe_gap_part :: "string \<Rightarrow> string" where
  "safe_gap_part s = (let t = strip_dashes (safe_part False s) in if t = [] then ''unknown'' else t)"

definition pre_state_json :: "pe_image \<Rightarrow> json" where
  "pre_state_json im =
     (let regs = (if im_bitness im = 32 then [''eax'', ''ebx'', ''ecx'', ''edx'', ''esi'', ''edi'', ''ebp'', ''esp'']
                  else [''rax'', ''rbx'', ''rcx'', ''rdx'', ''rsi'', ''rdi'', ''rbp'', ''rsp'']) in
      JObj [(''registers'', JObj (map (\<lambda>n. (n, semantic_expr_json (reg_leaf n))) regs)),
            (''flags'', JObj (map (\<lambda>n. (n, semantic_expr_json (flag_leaf n))) [''cf'', ''zf'', ''sf'', ''of'', ''pf'', ''df''])),
            (''memory'', JObj [(''op'', JStr ''memory''), (''name'', JStr ''mem0''), (''address_width'', JInt (im_bitness im)),
                               (''value_width'', JInt 8)])])"

definition row_counts :: "string list" where
  "row_counts = [''register_writes'', ''flag_writes'', ''memory_events'', ''external_events'', ''faults'', ''ordered_events'',
     ''edge_conditions'']"

definition base_row :: "pe_image \<Rightarrow> side \<Rightarrow> int list \<Rightarrow> members list \<Rightarrow> string \<Rightarrow> string \<Rightarrow> members" where
  "base_row im block bytes instructions function_name block_id =
     [(''format'', JStr ''spaghetti-extractor-static-transfer-v1''),
      (''id'', JStr (''semantic-transfer:'' @ safe_gap_part block_id)), (''unit_kind'', JStr ''semantic_transfer''),
      (''expression_model'', JStr ''spaghetti-extractor-static-semantic-ir-v1''), (''status'', JStr ''incomplete''),
      (''function'', if function_name = [] then JNull else JStr function_name), (''block_id'', JStr block_id),
      (''span'', range_report block), (''instruction_bytes_sha256'', JStr (im_sha im bytes)),
      (''instructions'', JList (map JObj instructions)), (''pre_state'', pre_state_json im)]
     @ map (\<lambda>n. (n, JList [])) row_counts
     @ [(''outcome'', JObj [(''kind'', JStr ''unknown'')]), (''stack_delta'', JNull), (''fpu_state'', JNull),
        (''counts'', JObj (map (\<lambda>n. (n, JInt 0)) row_counts))]"

definition inventory_contains_x87 :: "members list \<Rightarrow> bool" where
  "inventory_contains_x87 instructions =
     list_ex (\<lambda>ms. case jget ms ''bytes'' of
        JStr s \<Rightarrow> (case py_fromhex s of Some bs \<Rightarrow> is_x87_instruction_encoding bs | None \<Rightarrow> False)
      | _ \<Rightarrow> False) instructions"

definition replay_binding :: "pe_image \<Rightarrow> side \<Rightarrow> int list \<Rightarrow> members list \<Rightarrow> json \<Rightarrow> members" where
  "replay_binding im block bytes instructions ledger =
     [(''architecture'', JStr ''x86''), (''bitness'', JInt (im_bitness im)), (''image_base'', JInt (im_base im)),
      (''rva_start'', JInt (sd_start block)), (''rva_end'', JInt (sd_end block)), (''bytes'', JStr (to_hex bytes)),
      (''bytes_sha256'', JStr (im_sha im bytes)), (''instruction_effect_schedule'', ledger),
      (''instructions'', JList (map (\<lambda>ms. JObj (filter (\<lambda>kv. fst kv \<in> {''rva'', ''size'', ''bytes''}) ms)) instructions))]"

definition blocked_row :: "members \<Rightarrow> json \<Rightarrow> json \<Rightarrow> members" where
  "blocked_row base report ledger =
     overlay base
       [(''blocker_category'', or_text (member_of report ''category'') ''unsupported_semantics''),
        (''blocker'', or_text (member_of report ''blocker'') ''block is outside the current semantic transfer model''),
        (''next_action'', or_text (member_of report ''next_action'') ''add instruction semantics or a checked cluster summary''),
        (''blocking_instruction'', (case member_of report ''instruction'' of JObj ms \<Rightarrow> JObj ms | _ \<Rightarrow> JNull)),
        (''instruction_effect_schedule'', ledger)]"

definition transfer_row :: "members \<Rightarrow> members \<Rightarrow> json \<Rightarrow> members" where
  "transfer_row base effects ledger =
     (if member_of (jget effects ''fpu_state'') ''model'' = JStr obligation_model
      then overlay base
        ([(''blocker_category'', JStr ''x87_physical_state_requires_native_exact_command_replay''),
          (''blocker'', JStr (''legacy symbolic x87 observables do not contain the physical ''
                              @ ''SpaghettiExtractor.ISA.X87.PhysicalState required by the transfer model'')),
          (''next_action'', JStr (''replay each exact x87 singleton with the checked Lean decoder and executor according ''
                                  @ ''to the instruction effect schedule, then export every physical state field'')),
          (''instruction_effect_schedule'', ledger)] @ effects)
      else overlay base
        ([(''status'', JStr ''reimplementable''), (''blocker_category'', JNull), (''blocker'', JNull),
          (''next_action'', JStr ''the transfer contract is complete and ready for downstream lowering'')]
         @ effects @ [(''instruction_effect_schedule'', ledger)]))"

definition semantic_transfer :: "pe_image \<Rightarrow> members \<Rightarrow> string \<Rightarrow> side \<Rightarrow> string \<Rightarrow> members res" where
  "semantic_transfer im src function_name block block_id =
     (let bytes = im_data im (sd_start block) (side_size block);
          instructions = map (\<lambda>i. case instruction_report im i of JObj ms \<Rightarrow> ms | _ \<Rightarrow> [])
                             (im_decode im bytes (im_base im + sd_start block));
          base = base_row im block bytes instructions function_name block_id
      in if int (length bytes) \<noteq> side_size block
         then Ok (overlay base
           [(''blocker_category'', JStr ''unreadable_block_bytes''),
            (''blocker'', JStr (''expected '' @ int_text (side_size block) @ '' block bytes, read '' @ int_text (int (length bytes)))),
            (''next_action'', JStr ''fix block range or PE section mapping before generating a semantic transfer contract'')])
         else bind (effect_schedule im block bytes instructions src) (\<lambda>(ledger, found). case found of
             Inl report \<Rightarrow> Ok (blocked_row base report ledger)
           | Inr ob \<Rightarrow>
               let replay = (if inventory_contains_x87 instructions
                             then Some (replay_binding im block bytes instructions ledger) else None)
               in Ok (transfer_row base (effects_json ob replay) ledger)))"

end
