(* ===== verification/Cut_Points.thy ===== *)
theory Cut_Points
  imports Machine_Code
begin

text \<open>
  Where a block is split before its semantics is derived (\<open>extraction/cutpoints.py\<close>), and the x87
  instructions (\<open>extraction/x87_profile.py\<close>) that always stand alone.
\<close>

section \<open>The x87 profile\<close>

definition instruction_is_x87 :: "insn \<Rightarrow> bool" where
  "instruction_is_x87 i =
     (case dropWhile (\<lambda>b. b \<in> set legacy_prefix_bytes) (in_bytes i) of
        [] \<Rightarrow> False
      | opcode # _ \<Rightarrow> opcode = 0x9B \<or> (0xD8 \<le> opcode \<and> opcode \<le> 0xDF \<and> take 1 (py_lower (in_mnemonic i)) = ''f''))"

definition register_form :: "int \<Rightarrow> int \<Rightarrow> bool" where
  "register_form opcode modrm =
     (opcode = 0xD9 \<and> 0xC0 \<le> modrm \<and> modrm \<le> 0xCF
      \<or> opcode = 0xD9 \<and> modrm \<in> {0xE0, 0xE5, 0xE8, 0xEE}
      \<or> opcode = 0xDD \<and> 0xD0 \<le> modrm \<and> modrm \<le> 0xDF
      \<or> opcode = 0xD8 \<and> 0xC0 \<le> modrm \<and> modrm \<le> 0xCF
      \<or> opcode = 0xD8 \<and> 0xD0 \<le> modrm \<and> modrm \<le> 0xDF
      \<or> opcode = 0xD8 \<and> 0xF0 \<le> modrm \<and> modrm \<le> 0xF7
      \<or> opcode = 0xDC \<and> 0xC8 \<le> modrm \<and> modrm \<le> 0xCF
      \<or> opcode = 0xDE \<and> 0xC0 \<le> modrm \<and> modrm \<le> 0xCF
      \<or> opcode = 0xDE \<and> 0xE0 \<le> modrm \<and> modrm \<le> 0xEF
      \<or> opcode = 0xDD \<and> 0xE0 \<le> modrm \<and> modrm \<le> 0xEF
      \<or> opcode = 0xDB \<and> modrm = 0xE3)"

definition state_only_singleton :: "int list \<Rightarrow> bool" where
  "state_only_singleton encoded =
     (encoded = [0x9B] \<or> (length encoded = 2 \<and> register_form (encoded ! 0) (encoded ! 1)))"

definition qualified_singleton :: "int list \<Rightarrow> bool" where
  "qualified_singleton encoded =
     (if state_only_singleton encoded then True
      else if length encoded < 2 then False
      else let opcode = encoded ! 0; modrm = encoded ! 1;
               group = drop_bit 3 modrm AND 7 in
        if \<not> (0xD8 \<le> opcode \<and> opcode \<le> 0xDF) then False
        else if drop_bit 6 modrm \<noteq> 3
        then opcode \<in> {0xD8, 0xDC} \<and> group \<in> {0, 1, 4, 5, 6, 7}
          \<or> opcode \<in> {0xD9, 0xDB} \<and> group \<in> {0, 2, 3, 5, 7}
          \<or> opcode = 0xDD \<and> group \<in> {0, 2, 3}
        else opcode = 0xD8 \<and> 0xC0 \<le> modrm \<and> modrm \<le> 0xDF
          \<or> opcode = 0xD8 \<and> 0xF0 \<le> modrm \<and> modrm \<le> 0xF7
          \<or> opcode = 0xD9 \<and> 0xC0 \<le> modrm \<and> modrm \<le> 0xCF
          \<or> opcode = 0xD9 \<and> modrm \<in> {0xE0, 0xE5, 0xE8, 0xEE}
          \<or> opcode = 0xDB \<and> (modrm = 0xE3 \<or> 0xE8 \<le> modrm \<and> modrm \<le> 0xF7)
          \<or> opcode = 0xDC \<and> 0xC8 \<le> modrm \<and> modrm \<le> 0xCF
          \<or> opcode = 0xDD \<and> 0xD0 \<le> modrm \<and> modrm \<le> 0xEF
          \<or> opcode = 0xDE \<and> 0xC0 \<le> modrm \<and> modrm \<le> 0xCF
          \<or> opcode = 0xDE \<and> 0xE0 \<le> modrm \<and> modrm \<le> 0xEF
          \<or> opcode = 0xDF \<and> (modrm = 0xE0 \<or> 0xE8 \<le> modrm \<and> modrm \<le> 0xF7))"

section \<open>Cut points\<close>

definition restartable_strings :: "int list set" where
  "restartable_strings =
     {[0xF3, 0xA4], [0xF3, 0xA5], [0xF3, 0x66, 0xA5], [0x66, 0xF3, 0xA5], [0xF3, 0xAA], [0xF3, 0xAB],
      [0xF3, 0x66, 0xAB], [0x66, 0xF3, 0xAB], [0xF2, 0xAE], [0xF3, 0xAE], [0xF2, 0xAF], [0xF3, 0xAF],
      [0xF2, 0x66, 0xAF], [0x66, 0xF2, 0xAF], [0xF3, 0x66, 0xAF], [0x66, 0xF3, 0xAF]}"

definition is_restartable_string :: "insn \<Rightarrow> bool" where
  "is_restartable_string i = (in_bytes i \<in> restartable_strings)"

definition is_semantic_stop :: "insn \<Rightarrow> bool" where
  "is_semantic_stop i =
     (is_restartable_string i \<or> in_mnemonic i \<in> {''movsd'', ''stosd'', ''div'', ''idiv'', ''lock cmpxchg''})"

definition follows_padding :: "insn \<Rightarrow> bool" where
  "follows_padding i = (in_mnemonic i = ''push'' \<and> py_lower (in_op_str i) \<in> {''ebp'', ''ebx'', ''esi'', ''edi''})"

text \<open>The boundaries are kept newest first.\<close>

record cut_state =
  cs_boundaries :: "int list"
  cs_after_nop :: bool
  cs_index :: int

definition cut_when :: "bool \<Rightarrow> int \<Rightarrow> cut_state \<Rightarrow> cut_state" where
  "cut_when p at c = (if p then c\<lparr>cs_boundaries := at # cs_boundaries c\<rparr> else c)"

definition cut_step :: "bool \<Rightarrow> bool \<Rightarrow> int \<Rightarrow> int \<Rightarrow> insn \<Rightarrow> cut_state \<Rightarrow> cut_state" where
  "cut_step periodic split_padding extent start i c =
     (let stop = start + in_size i; index = cs_index c;
          c = cut_when (split_padding \<and> cs_after_nop c \<and> follows_padding i \<and> start > hd (cs_boundaries c)) start c;
          c = c\<lparr>cs_after_nop := in_mnemonic i = ''nop'', cs_index := index + 1\<rparr>
      in if instruction_is_x87 i
         then cut_when (stop < extent) stop (cut_when (start > hd (cs_boundaries c)) start c)
         else let c = cut_when (is_restartable_string i \<and> start > hd (cs_boundaries c)) start c
              in cut_when ((is_semantic_stop i \<or> (periodic \<and> index mod 4 = 0)) \<and> stop < extent \<and> stop \<noteq> hd (cs_boundaries c))
                   stop c)"

definition spans_of :: "int \<Rightarrow> int list \<Rightarrow> side list" where
  "spans_of start boundaries =
     map (\<lambda>(a, b). \<lparr>sd_start = start + a, sd_end = start + b\<rparr>) (zip boundaries (tl boundaries))"

definition cutpoint_boundaries :: "pe_image \<Rightarrow> side \<Rightarrow> bool \<Rightarrow> bool \<Rightarrow> insn list \<Rightarrow> int list" where
  "cutpoint_boundaries im block periodic split_padding decoded =
     rev (side_size block # cs_boundaries (foldl (\<lambda>c i.
        cut_step periodic split_padding (side_size block) (in_address i - im_base im - sd_start block) i c)
        \<lparr>cs_boundaries = [0], cs_after_nop = False, cs_index = 1\<rparr> decoded))"

definition decode_span :: "pe_image \<Rightarrow> side \<Rightarrow> string \<Rightarrow> insn list res" where
  "decode_span im block block_id =
     (let bytes = im_data im (sd_start block) (side_size block);
          decoded = im_decode im bytes (im_base im + sd_start block)
      in if decoded = [] \<or> sum_list (map in_size decoded) \<noteq> int (length bytes)
         then Raise (Input_error (''mapping block '' @ block_id @ '' does not decode exactly for semantic cutpoint projection''))
         else Ok decoded)"

definition cutpoint_spans :: "pe_image \<Rightarrow> side \<Rightarrow> string \<Rightarrow> bool \<Rightarrow> bool \<Rightarrow> side list res" where
  "cutpoint_spans im block block_id periodic split_padding =
     bind (decode_span im block block_id) (\<lambda>decoded.
       Ok (spans_of (sd_start block) (cutpoint_boundaries im block periodic split_padding decoded)))"

text \<open>The cut points of a block and of its counterpart in another image must agree in number.\<close>

definition paired_cutpoint_spans ::
  "pe_image \<Rightarrow> pe_image \<Rightarrow> side \<Rightarrow> side \<Rightarrow> string \<Rightarrow> (side \<times> side) list res" where
  "paired_cutpoint_spans original candidate block block' block_id =
     bind (decode_span original block block_id) (\<lambda>left.
     bind (decode_span candidate block' block_id) (\<lambda>right.
       let periodic = (length left = length right) in
       bind (cutpoint_spans original block block_id periodic False) (\<lambda>spans.
       bind (cutpoint_spans candidate block' block_id periodic False) (\<lambda>spans'.
         if length spans \<noteq> length spans'
         then Raise (Input_error (''mapping block '' @ block_id @ '' has mismatched semantic cutpoint counts: original=''
                @ int_text (int (length spans) - 1) @ '', candidate='' @ int_text (int (length spans') - 1)))
         else Ok (zip spans spans')))))"

end
