(* ===== verification/Static_Transfers.thy ===== *)
theory Static_Transfers
  imports Symbolic_Schedule Cut_Points
begin

text \<open>
  The transfer rows of a program (\<open>semantic_transfers\<close> of \<open>static_program/semantics/transfer.py\<close>): the
  block of every unit of code is cut, and every span of it has a row.
\<close>

record code_unit =
  cu_name :: string
  cu_span :: side
  cu_kind :: string
  cu_source :: members

definition unit_transfers :: "pe_image \<Rightarrow> members \<Rightarrow> string \<Rightarrow> side \<Rightarrow> members list res" where
  "unit_transfers im src unit_name block =
     bind (cutpoint_spans im block unit_name False False) (\<lambda>spans.
       let split = length spans > 1;
           declared = member_of (jget src ''source'') ''function'';
           function_name = (case declared of JStr f \<Rightarrow> if f = [] then unit_name else f | _ \<Rightarrow> unit_name);
           digits = (\<lambda>k. let t = int_text (int k) in replicate (4 - length t) (CHR ''0'') @ t)
       in mapM (\<lambda>(k, span).
            bind (semantic_transfer im src function_name span (if split then unit_name @ ''~semantic-'' @ digits k else unit_name)) (\<lambda>row.
              Ok (if split then overlay row [(''semantic_cutpoint'', JObj
                    [(''index'', JInt (int k)), (''parent_block_id'', JStr unit_name),
                     (''policy'', JStr ''formal_stopping_instruction_v1'')])] else row)))
            (zip [0..<length spans] spans))"

definition row_text :: "string \<Rightarrow> members \<Rightarrow> string" where
  "row_text key row = text_or_empty (jget row key)"

definition semantic_transfers :: "pe_image \<Rightarrow> code_unit list \<Rightarrow> members list res" where
  "semantic_transfers im units =
     bind (mapM (\<lambda>u. unit_transfers im (cu_source u) (cu_name u) (cu_span u)) (filter (\<lambda>u. cu_kind u = ''code'') units)) (\<lambda>rows.
       Ok (sort_key (row_text ''function'') (sort_key (row_text ''block_id'') (concat rows))))"

end
