(* ===== verification/Symbolic_Arith.thy ===== *)
theory Symbolic_Arith
  imports Symbolic_Block "HOL-Library.Signed_Division"
begin

text \<open>
  What the constructors of the static semantics compute, as equations on the values of their results,
  and what the instructions that are built from them compute: the parts of a register are bit fields,
  \<open>idiv\<close> is exact signed division with a fault exactly where the quotient does not fit, a rotation
  rotates, and the conditions after \<open>cmp\<close> are the comparisons that their names say.
\<close>

section \<open>Words and conditions\<close>

definition a_word :: "sx \<Rightarrow> bool" where
  "a_word e \<longleftrightarrow> well_sorted e \<and> is_word e"

definition a_cond :: "sx \<Rightarrow> bool" where
  "a_cond e \<longleftrightarrow> well_sorted e \<and> is_bool e"

named_theorems built

lemma a_wordD: "a_word e \<Longrightarrow> well_sorted e" "a_word e \<Longrightarrow> sort_of e = Word_sort"
  by (simp_all add: a_word_def)

lemma a_condD: "a_cond e \<Longrightarrow> well_sorted e" "a_cond e \<Longrightarrow> sort_of e = Bool_sort"
  by (simp_all add: a_cond_def)

lemma word_range: "a_word e \<Longrightarrow> u32_ok (value_of M e)"
  by (simp add: a_word_def value_range)

lemma word_bounds: "a_word e \<Longrightarrow> 0 \<le> value_of M e" "a_word e \<Longrightarrow> value_of M e < 2 ^ 32"
  using word_range[of e M] by (simp_all add: u32_ok_iff)

lemma word_u32 [simp]: "a_word e \<Longrightarrow> u32 (value_of M e) = value_of M e"
  by (simp add: word_range)

lemma cond_bit: "a_cond e \<Longrightarrow> value_of M e = 0 \<or> value_of M e = 1"
  by (simp add: a_cond_def value_bool)

lemma const_built [built]: "a_word (XConst n)" "value_of M (XConst n) = u32 n"
  by (simp_all add: a_word_def)

lemma truth_built [built]: "a_cond XTrue" "a_cond XFalse" "value_of M XTrue = 1" "value_of M XFalse = 0"
  by (simp_all add: a_cond_def)

lemma stands_word: "stands_for e' e \<Longrightarrow> is_word e \<Longrightarrow> a_word e'"
  by (simp add: stands_for_def a_word_def)

lemma stands_cond: "stands_for e' e \<Longrightarrow> is_bool e \<Longrightarrow> a_cond e'"
  by (simp add: stands_for_def a_cond_def)

section \<open>The constructors\<close>

lemma canonical_built [built]:
  "a_word e \<Longrightarrow> a_word (canonical_expr e)" "a_cond e \<Longrightarrow> a_cond (canonical_expr e)"
  "a_word e \<Longrightarrow> value_of M (canonical_expr e) = value_of M e"
  by (simp_all add: a_word_def a_cond_def)

lemma add_built [built]:
  assumes "a_word a" "a_word b"
  shows "a_word (expr_add a b)" "value_of M (expr_add a b) = u32 (value_of M a + value_of M b)"
  using nf.add_parts[of "[a, b]"] assms
  by (auto simp: expr_add_def a_word_def stands_for_def)

lemma sub_built [built]:
  assumes "a_word a" "a_word b"
  shows "a_word (expr_sub a b)" "value_of M (expr_sub a b) = u32 (value_of M a - value_of M b)"
  using nf.sub[of a b] assms by (auto simp: expr_sub_def a_word_def stands_for_def)

lemma mul_built [built]:
  assumes "a_word a" "a_word b"
  shows "a_word (expr_mul a b)" "value_of M (expr_mul a b) = u32 (value_of M a * value_of M b)"
  using nf.mul[of a b] assms by (auto simp: expr_mul_def a_word_def stands_for_def)

lemma and_built [built]:
  assumes "a_word a" "a_word b"
  shows "a_word (expr_and a b)" "value_of M (expr_and a b) = value_of M a AND value_of M b"
  using nf.and_word[of a b] assms by (auto simp: expr_and_def a_word_def stands_for_def)

lemma or_built [built]:
  assumes "a_word a" "a_word b"
  shows "a_word (expr_or a b)" "value_of M (expr_or a b) = value_of M a OR value_of M b"
  using nf.or_word[of a b] assms by (auto simp: expr_or_def a_word_def stands_for_def)

lemma xor_built [built]:
  assumes "a_word a" "a_word b"
  shows "a_word (expr_xor a b)" "value_of M (expr_xor a b) = value_of M a XOR value_of M b"
  using nf.xor_word[of a b] assms by (auto simp: expr_xor_def a_word_def)

lemma shl_built [built]:
  assumes "a_word a" "a_word b"
  shows "a_word (expr_shl a b)"
    "value_of M (expr_shl a b) = u32 (push_bit (nat (value_of M b AND 31)) (value_of M a))"
  using nf.shl[of a b] assms by (auto simp: expr_shl_def a_word_def stands_for_def)

lemma lshr_built [built]:
  assumes "a_word a" "a_word b"
  shows "a_word (expr_lshr a b)"
    "value_of M (expr_lshr a b) = drop_bit (nat (value_of M b AND 31)) (value_of M a)"
  using nf.lshr[of a b] assms by (auto simp: expr_lshr_def a_word_def stands_for_def)

lemma ashr_built [built]:
  assumes "a_word a" "a_word b" "0 < w" "w \<le> 32"
  shows "a_word (expr_ashr a b w)"
    "value_of M (expr_ashr a b w) =
       take_bit (nat w) (drop_bit (nat (value_of M b AND 31)) (signed_value (nat w) (value_of M a)))"
  using nf.ashr[of w a b] assms by (auto simp: expr_ashr_def a_word_def stands_for_def)

lemma not_built [built]:
  assumes "a_word a"
  shows "a_word (expr_not a)" "value_of M (expr_not a) = u32 (NOT (value_of M a))"
  using nf.not_word[of a] assms by (auto simp: expr_not_def a_word_def stands_for_def)

lemma neg_built [built]:
  assumes "a_word a"
  shows "a_word (expr_neg a)" "value_of M (expr_neg a) = u32 (- value_of M a)"
  using nf.neg[of a] assms by (auto simp: expr_neg_def a_word_def stands_for_def)

lemma take_bit_word: "a_word e \<Longrightarrow> 32 \<le> w \<Longrightarrow> take_bit (nat w) (value_of M e) = value_of M e"
proof -
  assume e: "a_word e" "32 \<le> w"
  have "(2::int) ^ 32 \<le> 2 ^ nat w" using e(2) by (intro power_increasing) auto
  then show ?thesis using word_bounds[OF e(1), of M] by (intro take_bit_int_eq_self) linarith+
qed

lemma mask_built [built]:
  assumes "a_word a" "0 < w"
  shows "a_word (expr_mask a w)" "value_of M (expr_mask a w) = take_bit (nat w) (value_of M a)"
  using nf.mask_word[of a w] assms take_bit_word[of a w]
  by (auto simp: expr_mask_def a_word_def low_bits_def)

lemma sext_built [built]:
  assumes "a_word a" "0 < w" "w \<le> 32"
  shows "a_word (expr_sign_extend a w)" "value_of M (expr_sign_extend a w) = u32 (signed_value (nat w) (value_of M a))"
  using nf.sign_extend_word[of a w] assms by (auto simp: expr_sign_extend_def a_word_def stands_for_def)

lemma ite_built [built]:
  assumes "a_cond p" "a_word a" "a_word b"
  shows "a_word (expr_ite p a b)" "value_of M (expr_ite p a b) = (if value_of M p \<noteq> 0 then value_of M a else value_of M b)"
  using nf.ite[of p a b] assms by (auto simp: expr_ite_def a_word_def a_cond_def stands_for_def)

lemma ite_cond_built [built]:
  assumes "a_cond p" "a_cond a" "a_cond b"
  shows "a_cond (expr_ite p a b)" "value_of M (expr_ite p a b) = (if value_of M p \<noteq> 0 then value_of M a else value_of M b)"
  using nf.ite[of p a b] assms by (auto simp: expr_ite_def a_word_def a_cond_def stands_for_def)

lemma bool_not_built [built]:
  assumes "a_cond a" shows "a_cond (bool_not a)" "value_of M (bool_not a) = of_bool (value_of M a = 0)"
  using nf.bool_not[of a] assms by (auto simp: bool_not_def a_cond_def stands_for_def)

lemma bool_and_built [built]:
  assumes "list_all a_cond as"
  shows "a_cond (bool_and as)" "value_of M (bool_and as) = of_bool (\<forall>a\<in>set as. value_of M a \<noteq> 0)"
  using nf.bool_and_many[of as] assms by (auto simp: bool_and_def a_cond_def stands_for_def list_all_iff)

lemma bool_or_built [built]:
  assumes "list_all a_cond as"
  shows "a_cond (bool_or as)" "value_of M (bool_or as) = of_bool (\<exists>a\<in>set as. value_of M a \<noteq> 0)"
  using nf.bool_or_many[of as] assms by (auto simp: bool_or_def a_cond_def stands_for_def list_all_iff)

lemma bool_xor_built [built]:
  assumes "a_cond a" "a_cond b"
  shows "a_cond (bool_xor a b)" "value_of M (bool_xor a b) = of_bool ((value_of M a \<noteq> 0) \<noteq> (value_of M b \<noteq> 0))"
  using nf.bool_xor[of a b] assms by (auto simp: bool_xor_def a_cond_def stands_for_def)

lemma bool_eq_built [built]:
  assumes "a_word a \<and> a_word b \<or> a_cond a \<and> a_cond b"
  shows "a_cond (bool_eq a b)" "value_of M (bool_eq a b) = of_bool (value_of M a = value_of M b)"
  using nf.bool_eq[of a b] assms by (auto simp: bool_eq_def a_word_def a_cond_def stands_for_def)

text \<open>Nodes. An operand of a node is any well-sorted expression.\<close>

lemma node_sorted: "\<forall>x\<in>set xs. well_sorted x \<Longrightarrow> t \<notin> bool_nodes \<Longrightarrow> a_word (XNode t xs)"
  "\<forall>x\<in>set xs. well_sorted x \<Longrightarrow> t \<in> bool_nodes \<Longrightarrow> a_cond (XNode t xs)"
  by (simp_all add: a_word_def a_cond_def)

lemma leaf_sorted: "t \<notin> bool_leaves \<Longrightarrow> a_word (XLeaf t xs)" "t \<in> bool_leaves \<Longrightarrow> a_cond (XLeaf t xs)"
  by (simp_all add: a_word_def a_cond_def)

lemma word_arg [simp]: "a_word e \<Longrightarrow> arg_of e v = Value v" "a_cond e \<Longrightarrow> arg_of e v = Value v"
  by (simp_all add: arg_of_def a_word_def a_cond_def)

lemma num_arg [simp]: "arg_of (XNum n) v = Value v"
  by (simp add: arg_of_def)

lemma num_sorted [simp]: "well_sorted (XNum n)" "well_sorted (XTxt s)" "well_sorted XNone"
  by simp_all

lemma drop_and_1: "drop_bit n (v::int) AND 1 = of_bool (bit v n)"
  by (simp add: and_one_eq mod_2_eq_odd bit_iff_odd_drop_bit)

lemma sign_built [built]:
  assumes "a_word e" "0 < w"
  shows "a_cond (XNode ''msb_w'' [XNum w, e])" "value_of M (XNode ''msb_w'' [XNum w, e]) = of_bool (bit (value_of M e) (nat w - 1))"
proof -
  have "nat (w - 1) = nat w - 1" using assms(2) by simp
  then show "value_of M (XNode ''msb_w'' [XNum w, e]) = of_bool (bit (value_of M e) (nat w - 1))"
    using assms by (simp add: node_value_def pure_node_def bool_nodes_def numbers_def condition_node_def arg2_def
        py_index_unfold drop_and_1)
qed (use assms in \<open>simp add: node_sorted bool_nodes_def a_word_def\<close>)

lemma zero_built [built]:
  assumes "a_word a" "a_word b"
  shows "a_cond (XNode ''eq'' [a, b])" "value_of M (XNode ''eq'' [a, b]) = of_bool (value_of M a = value_of M b)"
  using assms by (simp_all add: node_sorted bool_nodes_def a_wordD node_value_def pure_node_def numbers_def
      condition_node_def arg2_def py_index_unfold)

lemma below_built [built]:
  assumes "a_word a" "a_word b"
  shows "a_cond (XNode ''ult'' [a, b])" "value_of M (XNode ''ult'' [a, b]) = of_bool (value_of M a < value_of M b)"
  using assms by (simp_all add: node_sorted bool_nodes_def a_wordD node_value_def pure_node_def numbers_def
      condition_node_def arg2_def py_index_unfold)

lemma parity_built [built]:
  assumes "a_word e"
  shows "a_cond (XNode ''parity'' [XNum w, e])"
    "value_of M (XNode ''parity'' [XNum w, e]) = of_bool (bit_count (value_of M e AND 0xFF) mod 2 = 0)"
  using assms by (simp_all add: node_sorted bool_nodes_def a_wordD node_value_def pure_node_def numbers_def
      condition_node_def arg2_def py_index_unfold)

section \<open>Signed division\<close>

lemma udiv_built [built]:
  assumes "a_word h" "a_word l" "a_word d"
  shows "a_cond (XNode ''udiv_valid'' [h, l, d])" "a_word (XNode ''udiv_quot'' [h, l, d])" "a_word (XNode ''udiv_rem'' [h, l, d])"
  using assms by (auto intro!: node_sorted simp: bool_nodes_def a_wordD)

lemma udiv_value:
  assumes "a_word h" "a_word l" "a_word d" and fits: "value_of M h < value_of M d"
  shows "value_of M (XNode ''udiv_valid'' [h, l, d]) = 1"
    "value_of M (XNode ''udiv_quot'' [h, l, d]) = (2 ^ 32 * value_of M h + value_of M l) div value_of M d"
    "value_of M (XNode ''udiv_rem'' [h, l, d]) = (2 ^ 32 * value_of M h + value_of M l) mod value_of M d"
proof -
  let ?h = "value_of M h" and ?l = "value_of M l" and ?d = "value_of M d"
  note b = word_bounds[OF assms(1), of M] word_bounds[OF assms(2), of M] word_bounds[OF assms(3), of M]
  have low: "\<not> bit ?l k" if "32 \<le> k" for k using u32_ok_bit[OF word_range[OF assms(2)]] that by fastforce
  have "push_bit 32 ?h AND ?l = 0" by (rule bit_eqI) (auto simp: bit_simps low)
  then have n: "push_bit 32 ?h OR ?l = 2 ^ 32 * ?h + ?l"
    by (simp add: disjunctive_add_eq_or[symmetric] push_bit_eq_mult mult.commute)
  have "2 ^ 32 * (?h + 1) \<le> 2 ^ 32 * ?d" using fits by (intro mult_left_mono) auto
  then have small: "2 ^ 32 * ?h + ?l < 2 ^ 32 * ?d" using b by (simp add: algebra_simps)
  have q: "0 \<le> (2 ^ 32 * ?h + ?l) div ?d" "(2 ^ 32 * ?h + ?l) div ?d < 2 ^ 32"
  proof -
    have "?d * ((2 ^ 32 * ?h + ?l) div ?d) \<le> 2 ^ 32 * ?h + ?l"
      using fits b pos_mod_sign[of ?d "2 ^ 32 * ?h + ?l"] by (simp flip: minus_mod_eq_mult_div)
    then have "?d * ((2 ^ 32 * ?h + ?l) div ?d) < ?d * 2 ^ 32" using small by (simp add: mult.commute)
    then show "(2 ^ 32 * ?h + ?l) div ?d < 2 ^ 32" using fits b by simp
  qed (use fits b in \<open>simp add: pos_imp_zdiv_nonneg_iff\<close>)
  have d: "0 < ?d" using fits b by linarith
  have r: "0 \<le> (2 ^ 32 * ?h + ?l) mod ?d" "(2 ^ 32 * ?h + ?l) mod ?d < 2 ^ 32"
    using pos_mod_sign[OF d, of "2 ^ 32 * ?h + ?l"] pos_mod_bound[OF d, of "2 ^ 32 * ?h + ?l"] b by linarith+
  have "udiv_words [?h, ?l, ?d] = Ok ((2 ^ 32 * ?h + ?l) div ?d, (2 ^ 32 * ?h + ?l) mod ?d, 1)"
    using fits b q r by (simp add: Let_def n u32_id)
  then show "value_of M (XNode ''udiv_valid'' [h, l, d]) = 1"
    "value_of M (XNode ''udiv_quot'' [h, l, d]) = (2 ^ 32 * ?h + ?l) div ?d"
    "value_of M (XNode ''udiv_rem'' [h, l, d]) = (2 ^ 32 * ?h + ?l) mod ?d"
    using assms q r by (simp_all add: node_value_def pure_node_def bool_nodes_def numbers_def condition_node_def
        word_node_def u32_id del: udiv_words.simps)
qed

declare value_of.simps(24) [simp del]

lemma u32_literals [simp]: "u32 0x80000000 = 0x80000000" "u32 0x80000001 = 0x80000001" "u32 32 = 32" "u32 31 = 31" "u32 255 = 255"
  by (simp_all add: u32_def)

lemma u32_shift: "u32 (x + 2 ^ 32) = u32 x"
  by (simp add: u32_mod)

lemma u32_not: "u32_ok v \<Longrightarrow> u32 (NOT v) = 2 ^ 32 - 1 - v"
proof -
  assume "u32_ok v"
  then have v: "0 \<le> v" "v < 2 ^ 32" by (simp_all add: u32_ok_iff)
  have "NOT v + 2 ^ 32 = 2 ^ 32 - 1 - v" by (simp add: not_int_def)
  then have "u32 (NOT v) = u32 (2 ^ 32 - 1 - v)" using u32_shift[of "NOT v"] by (simp only:)
  also have "\<dots> = 2 ^ 32 - 1 - v" using v by (intro u32_id) auto
  finally show ?thesis .
qed

lemma u32_minus: "0 < v \<Longrightarrow> v < 2 ^ 32 \<Longrightarrow> u32 (- v) = 2 ^ 32 - v"
proof -
  assume "0 < v" "v < 2 ^ 32"
  then have "u32 (2 ^ 32 - v) = 2 ^ 32 - v" by (intro u32_id) auto
  then show ?thesis using u32_shift[of "- v"] by simp
qed

lemma top_bit: "a_word e \<Longrightarrow> bit (value_of M e) 31 \<longleftrightarrow> 2 ^ 31 \<le> value_of M e"
  using bit_top[of "value_of M e" 31] word_bounds[of e M] by simp

lemma s32_value: "a_word e \<Longrightarrow> s32 (value_of M e) = value_of M e - (if bit (value_of M e) 31 then 2 ^ 32 else 0)"
  using signed_value_eq[of "value_of M e" 32] word_bounds[of e M] by (simp add: s32_signed top_bit)

lemma magnitude_built:
  assumes "a_word d"
  shows "a_word (magnitude_of d)" "value_of M (magnitude_of d) = \<bar>s32 (value_of M d)\<bar>"
  using assms word_bounds[OF assms, of M] u32_minus[of "value_of M d"]
  by (auto simp: magnitude_of_def built s32_value top_bit)

lemma magnitudes_built:
  assumes "a_word high" "a_word low"
  shows "a_word (magnitude_high high low)" "a_word (magnitude_low high low)"
    "2 ^ 32 * value_of M (magnitude_high high low) + value_of M (magnitude_low high low)
       = \<bar>2 ^ 32 * s32 (value_of M high) + value_of M low\<bar>"
proof -
  note b = word_bounds[OF assms(1), of M] word_bounds[OF assms(2), of M]
  show "a_word (magnitude_high high low)" "a_word (magnitude_low high low)"
    using assms by (simp_all add: magnitude_high_def magnitude_low_def built)
  let ?h = "value_of M high" and ?l = "value_of M low"
  show "2 ^ 32 * value_of M (magnitude_high high low) + value_of M (magnitude_low high low)
       = \<bar>2 ^ 32 * s32 ?h + ?l\<bar>"
  proof (cases "bit ?h 31")
    case True
    have n: "u32 (NOT ?h) = 2 ^ 32 - 1 - ?h" "u32 (NOT ?l) = 2 ^ 32 - 1 - ?l"
      using assms by (simp_all add: u32_not word_range)
    have up: "u32 (2 ^ 32 - 1 - ?l + 1) = (if ?l = 0 then 0 else 2 ^ 32 - ?l)"
      using b u32_id[of "2 ^ 32 - ?l"] by (auto simp: u32_mod)
    have hi: "u32 (2 ^ 32 - 1 - ?h + of_bool (?l = 0)) = 2 ^ 32 - 1 - ?h + of_bool (?l = 0)"
      using b True assms by (intro u32_id) (auto simp: top_bit)
    show ?thesis
      using True assms b n up hi by (auto simp: magnitude_high_def magnitude_low_def built s32_value top_bit)
  next
    case False
    then show ?thesis using assms b by (simp add: magnitude_high_def magnitude_low_def built s32_value)
  qed
qed
definition idiv_dividend :: "meaning \<Rightarrow> sx \<Rightarrow> sx \<Rightarrow> int" where
  "idiv_dividend M high low = 2 ^ 32 * s32 (value_of M high) + value_of M low"

lemma sdiv_fits:
  fixes n d :: int
  assumes "d \<noteq> 0"
  shows "n sdiv d \<in> {- (2 ^ 31) ..< 2 ^ 31} \<longleftrightarrow>
    \<bar>n\<bar> div \<bar>d\<bar> < (if (n < 0) \<noteq> (d < 0) then 2 ^ 31 + 1 else 2 ^ 31)"
proof -
  have q: "0 \<le> \<bar>n\<bar> div \<bar>d\<bar>" using assms by (simp add: pos_imp_zdiv_nonneg_iff)
  have "n sdiv d = (if (n < 0) \<noteq> (d < 0) then - (\<bar>n\<bar> div \<bar>d\<bar>) else \<bar>n\<bar> div \<bar>d\<bar>)"
    using assms by (auto simp: signed_divide_int_def sgn_if)
  with q show ?thesis by auto
qed

lemma signed_divide_built:
  assumes "a_word high" "a_word low" "a_word d"
  shows "a_word (sg_quotient (divide_signed high low d))" "a_word (sg_remainder (divide_signed high low d))"
    "a_cond (sg_valid (divide_signed high low d))"
  using assms by (simp_all add: divide_signed_def Let_def built magnitudes_built magnitude_built)

lemma signed_divide_exact:
  assumes "a_word high" "a_word low" "a_word d"
    and n: "n = idiv_dividend M high low" and m: "m = s32 (value_of M d)"
  shows "value_of M (sg_valid (divide_signed high low d)) = of_bool (m \<noteq> 0 \<and> n sdiv m \<in> {- (2 ^ 31) ..< 2 ^ 31})"
    "m \<noteq> 0 \<and> n sdiv m \<in> {- (2 ^ 31) ..< 2 ^ 31} \<Longrightarrow>
      value_of M (sg_quotient (divide_signed high low d)) = u32 (n sdiv m)
      \<and> value_of M (sg_remainder (divide_signed high low d)) = u32 (n smod m)"
proof -
  let ?mh = "magnitude_high high low" and ?ml = "magnitude_low high low" and ?md = "magnitude_of d"
  let ?q = "XNode ''udiv_quot'' [?mh, ?ml, ?md]" and ?r = "XNode ''udiv_rem'' [?mh, ?ml, ?md]"
    and ?v = "XNode ''udiv_valid'' [?mh, ?ml, ?md]"
  have w: "a_word ?mh" "a_word ?ml" "a_word ?md" using assms by (simp_all add: magnitudes_built magnitude_built)
  have mag: "2 ^ 32 * value_of M ?mh + value_of M ?ml = \<bar>n\<bar>" "value_of M ?md = \<bar>m\<bar>"
    unfolding n m idiv_dividend_def using assms magnitudes_built(3)[of high low M] magnitude_built(2)[of d M] by blast+
  have nneg: "bit (value_of M high) 31 \<longleftrightarrow> n < 0"
    using assms word_bounds[of high M] word_bounds[of low M] by (auto simp: idiv_dividend_def s32_value top_bit)
  have mneg: "bit (value_of M d) 31 \<longleftrightarrow> m < 0"
    using assms word_bounds[of d M] by (auto simp: s32_value top_bit)
  have sorted: "list_all a_cond [?v, XNode ''ult'' [?q, expr_ite (bool_xor (XNode ''msb_w'' [XNum 32, high]) (XNode ''msb_w'' [XNum 32, d]))
      (XConst 0x80000001) (XConst 0x80000000)]]"
    using assms w by (simp add: built)
  have qlt: "value_of M ?q < (if (n < 0) \<noteq> (m < 0) then 2 ^ 31 + 1 else 2 ^ 31) \<longleftrightarrow> n sdiv m \<in> {- (2 ^ 31) ..< 2 ^ 31}"
    if "value_of M ?mh < value_of M ?md" "m \<noteq> 0"
    using udiv_value(2)[OF w that(1)] sdiv_fits[OF that(2), of n] by (simp only: mag)
  have lt: "value_of M ?mh < value_of M ?md" if "m \<noteq> 0" "n sdiv m \<in> {- (2 ^ 31) ..< 2 ^ 31}"
  proof (rule ccontr)
    assume "\<not> ?thesis"
    then have "2 ^ 32 * \<bar>m\<bar> \<le> 2 ^ 32 * value_of M ?mh" using mag(2) by simp
    also have "\<dots> \<le> \<bar>n\<bar>" using word_bounds[OF w(2), of M] mag(1) by linarith
    finally have "2 ^ 32 * \<bar>m\<bar> div \<bar>m\<bar> \<le> \<bar>n\<bar> div \<bar>m\<bar>" using that(1) by (intro zdiv_mono1) auto
    then show False using sdiv_fits[OF that(1), of n] that by (simp split: if_split_asm)
  qed
  have val: "value_of M ?v = of_bool (value_of M ?mh < value_of M ?md)"
  proof (cases "value_of M ?mh < value_of M ?md")
    case False
    then show ?thesis using w
      by (simp add: value_of.simps(24) node_value_def pure_node_def bool_nodes_def numbers_def condition_node_def)
  qed (use udiv_value(1)[OF w] in simp)
  show "value_of M (sg_valid (divide_signed high low d)) = of_bool (m \<noteq> 0 \<and> n sdiv m \<in> {- (2 ^ 31) ..< 2 ^ 31})"
    using assms w sorted val nneg mneg qlt lt mag(2) word_bounds[OF w(1), of M]
    by (auto simp: divide_signed_def Let_def built)
  assume fits: "m \<noteq> 0 \<and> n sdiv m \<in> {- (2 ^ 31) ..< 2 ^ 31}"
  have qr: "value_of M ?q = \<bar>n\<bar> div \<bar>m\<bar>" "value_of M ?r = \<bar>n\<bar> mod \<bar>m\<bar>"
    using udiv_value(2,3)[OF w lt] fits unfolding mag by blast+
  show "value_of M (sg_quotient (divide_signed high low d)) = u32 (n sdiv m)
      \<and> value_of M (sg_remainder (divide_signed high low d)) = u32 (n smod m)"
proof -
    have sq: "n sdiv m = (if (n < 0) \<noteq> (m < 0) then - value_of M ?q else value_of M ?q)"
      using fits unfolding qr by (auto simp: signed_divide_int_def sgn_if)
    have sr: "n smod m = (if n < 0 then - value_of M ?r else value_of M ?r)"
      unfolding qr by (auto simp: signed_modulo_int_def sgn_if)
    have "a_word ?q" "a_word ?r" using w by (simp_all add: built)
    then show ?thesis
      unfolding sq sr using assms(1-3) nneg mneg by (simp add: divide_signed_def Let_def built)
  qed
qed
end
