(* ===== verification/Symbolic_Compare.thy ===== *)
theory Symbolic_Compare
  imports Symbolic_Arith
begin

text \<open>
  The flags that additions and subtractions leave (\<open>_arithmetic_flags\<close>), at every width, and the
  conditions of \<open>jcc\<close> and \<open>setcc\<close> after a comparison.
\<close>

section \<open>The flags of additions and subtractions\<close>

lemma overflow_built [built]:
  assumes "a_word l" "a_word r" "a_word x"
  shows "a_cond (XNode ''add_overflow_w'' [XNum w, l, r, x])" "a_cond (XNode ''sub_overflow_w'' [XNum w, l, r, x])"
  using assms by (auto intro!: node_sorted simp: bool_nodes_def a_wordD)

lemma overflow_value:
  assumes "a_word l" "a_word r" "a_word x"
  shows "overflow_flag [w, value_of M l, value_of M r, value_of M x] False = Ok (of_bool p) \<Longrightarrow>
      value_of M (XNode ''add_overflow_w'' [XNum w, l, r, x]) = of_bool p"
    "overflow_flag [w, value_of M l, value_of M r, value_of M x] True = Ok (of_bool p) \<Longrightarrow>
      value_of M (XNode ''sub_overflow_w'' [XNum w, l, r, x]) = of_bool p"
  using assms by (simp_all add: value_of.simps(24) node_value_def pure_node_def bool_nodes_def numbers_def
      condition_node_def del: overflow_flag.simps)

lemma take_bit_bounds: "0 \<le> take_bit n (v::int)" "take_bit n (v::int) < 2 ^ n"
  by simp_all

lemma take_bit_u32: "0 < w \<Longrightarrow> w \<le> 32 \<Longrightarrow> take_bit (nat w) (u32 v) = take_bit (nat w) v"
  by (simp add: u32_take_bit min_absorb1)

lemma masked_sub: "take_bit n (u - v) = (take_bit n u - take_bit n v) mod 2 ^ n" for u v :: int
  by (simp add: take_bit_eq_mod mod_simps)

lemma masked_add: "take_bit n (u + v) = (take_bit n u + take_bit n v) mod 2 ^ n" for u v :: int
  by (simp add: take_bit_eq_mod mod_simps)

lemma result_flags_built:
  assumes "a_cond cf" "a_cond ovf" "a_word res" "0 < w"
  shows "list_all (a_cond \<circ> snd) (result_flags cf ovf res w)"
  using assms by (simp add: result_flags_def built)

lemma sub_flags_values:
  fixes M l r w
  assumes "a_word l" "a_word r" "0 < w" "w \<le> 32"
  defines "a \<equiv> take_bit (nat w) (value_of M l)" and "b \<equiv> take_bit (nat w) (value_of M r)"
  defines "fl \<equiv> arithmetic_flags ''sub'' l r (expr_sub l r) w"
  shows "list_all (a_cond \<circ> snd) fl"
    "map (\<lambda>(k, e). (k, value_of M e)) fl =
      [(''cf'', of_bool (a < b)), (''zf'', of_bool (a = b)), (''sf'', of_bool (bit (a - b) (nat w - 1))),
       (''of'', of_bool (signed_value (nat w) a - signed_value (nat w) b \<notin> {- (2 ^ (nat w - 1)) ..< 2 ^ (nat w - 1)})),
       (''pf'', of_bool (bit_count (take_bit (nat w) (a - b) AND 0xFF) mod 2 = 0))]"
proof -
  let ?l = "expr_mask l w" and ?r = "expr_mask r w" and ?x = "expr_mask (expr_sub l r) w"
  have w: "a_word ?l" "a_word ?r" "a_word ?x" using assms by (simp_all add: built)
  have v: "value_of M ?l = a" "value_of M ?r = b" using assms by (simp_all add: built)
  have x: "value_of M ?x = take_bit (nat w) (a - b)"
    using assms(1-4) by (simp add: built take_bit_u32 a_def b_def take_bit_diff)
  have x': "value_of M ?x = (a - b - 0) mod 2 ^ nat w" by (simp add: x take_bit_eq_mod)
  have ab: "0 \<le> a" "a < 2 ^ nat w" "0 \<le> b" "b < 2 ^ nat w" by (simp_all add: a_def b_def)
  show "list_all (a_cond \<circ> snd) fl"
    using w assms(3) unfolding fl_def arithmetic_flags_def Let_def by (auto intro!: result_flags_built simp: built)
  have z: "take_bit (nat w) (a - b) = 0 \<longleftrightarrow> a = b"
  proof
    assume "take_bit (nat w) (a - b) = 0"
    then have "2 ^ nat w dvd a - b" by (simp add: take_bit_eq_0_iff)
    then show "a = b" using ab zdvd_imp_le[of "2 ^ nat w" "a - b"] zdvd_imp_le[of "2 ^ nat w" "b - a"]
      by (cases "a < b"; cases "a = b") (auto simp: dvd_diff_commute)
  qed simp
  have bit: "bit (take_bit (nat w) (a - b)) (nat w - Suc 0) = bit (a - b) (nat w - Suc 0)"
    using assms(3) by (simp add: bit_take_bit_iff)
  have ov: "overflow_flag [w, value_of M ?l, value_of M ?r, value_of M ?x] True =
      Ok (of_bool (signed_value (nat w) a - signed_value (nat w) b \<notin> {- (2 ^ (nat w - 1)) ..< 2 ^ (nat w - 1)}))"
    using sub_overflow_signed[OF assms(3,4) ab(1,2) ab(3,4) _ x'] by (simp add: v del: overflow_flag.simps)
  show "map (\<lambda>(k, e). (k, value_of M e)) fl =
      [(''cf'', of_bool (a < b)), (''zf'', of_bool (a = b)), (''sf'', of_bool (bit (a - b) (nat w - 1))),
       (''of'', of_bool (signed_value (nat w) a - signed_value (nat w) b \<notin> {- (2 ^ (nat w - 1)) ..< 2 ^ (nat w - 1)})),
       (''pf'', of_bool (bit_count (take_bit (nat w) (a - b) AND 0xFF) mod 2 = 0))]"
    unfolding fl_def arithmetic_flags_def Let_def result_flags_def
    using overflow_value(2)[OF w ov] w assms(3) by (simp add: built v x z bit)
qed

lemma add_flags_values:
  fixes M l r w
  assumes "a_word l" "a_word r" "0 < w" "w \<le> 32"
  defines "a \<equiv> take_bit (nat w) (value_of M l)" and "b \<equiv> take_bit (nat w) (value_of M r)"
  defines "fl \<equiv> arithmetic_flags ''add'' l r (expr_add l r) w"
  shows "list_all (a_cond \<circ> snd) fl"
    "map (\<lambda>(k, e). (k, value_of M e)) fl =
      [(''cf'', of_bool (2 ^ nat w \<le> a + b)), (''zf'', of_bool (take_bit (nat w) (a + b) = 0)),
       (''sf'', of_bool (bit (a + b) (nat w - 1))),
       (''of'', of_bool (signed_value (nat w) a + signed_value (nat w) b \<notin> {- (2 ^ (nat w - 1)) ..< 2 ^ (nat w - 1)})),
       (''pf'', of_bool (bit_count (take_bit (nat w) (a + b) AND 0xFF) mod 2 = 0))]"
proof -
  let ?l = "expr_mask l w" and ?r = "expr_mask r w" and ?x = "expr_mask (expr_add l r) w"
  have w: "a_word ?l" "a_word ?r" "a_word ?x" using assms by (simp_all add: built)
  have v: "value_of M ?l = a" "value_of M ?r = b" using assms by (simp_all add: built)
  have x: "value_of M ?x = take_bit (nat w) (a + b)"
    using assms(1-4) by (simp add: built take_bit_u32 a_def b_def take_bit_add)
  have x': "value_of M ?x = (a + b + 0) mod 2 ^ nat w" by (simp add: x take_bit_eq_mod)
  have ab: "0 \<le> a" "a < 2 ^ nat w" "0 \<le> b" "b < 2 ^ nat w" by (simp_all add: a_def b_def)
  show "list_all (a_cond \<circ> snd) fl"
    using w assms(3) unfolding fl_def arithmetic_flags_def Let_def by (auto intro!: result_flags_built simp: built)
  have c: "take_bit (nat w) (a + b) < a \<longleftrightarrow> 2 ^ nat w \<le> a + b"
  proof (cases "2 ^ nat w \<le> a + b")
    case True
    then have "(a + b) mod 2 ^ nat w = a + b - 2 ^ nat w"
      using ab mod_pos_pos_trivial[of "a + b - 2 ^ nat w" "2 ^ nat w"] by simp
    then show ?thesis using True ab by (simp add: take_bit_eq_mod)
  next
    case False
    then show ?thesis using ab by (simp add: take_bit_int_eq_self)
  qed
  have bit: "bit (take_bit (nat w) (a + b)) (nat w - Suc 0) = bit (a + b) (nat w - Suc 0)"
    using assms(3) by (simp add: bit_take_bit_iff)
  have ov: "overflow_flag [w, value_of M ?l, value_of M ?r, value_of M ?x] False =
      Ok (of_bool (signed_value (nat w) a + signed_value (nat w) b \<notin> {- (2 ^ (nat w - 1)) ..< 2 ^ (nat w - 1)}))"
    using add_overflow_signed[OF assms(3,4) ab(1,2) ab(3,4) _ x'] by (simp add: v del: overflow_flag.simps)
  show "map (\<lambda>(k, e). (k, value_of M e)) fl =
      [(''cf'', of_bool (2 ^ nat w \<le> a + b)), (''zf'', of_bool (take_bit (nat w) (a + b) = 0)),
       (''sf'', of_bool (bit (a + b) (nat w - 1))),
       (''of'', of_bool (signed_value (nat w) a + signed_value (nat w) b \<notin> {- (2 ^ (nat w - 1)) ..< 2 ^ (nat w - 1)})),
       (''pf'', of_bool (bit_count (take_bit (nat w) (a + b) AND 0xFF) mod 2 = 0))]"
    unfolding fl_def arithmetic_flags_def Let_def result_flags_def
    using overflow_value(1)[OF w ov] w assms(3) by (simp add: built v x c bit)
qed
section \<open>Conditions after a comparison\<close>

lemma sign_and_overflow:
  assumes "0 < w" and a: "0 \<le> a" "a < 2 ^ nat w" and b: "0 \<le> b" "b < 2 ^ nat w"
  shows "(bit (a - b) (nat w - 1) \<noteq>
      (signed_value (nat w) a - signed_value (nat w) b \<notin> {- (2 ^ (nat w - 1)) ..< 2 ^ (nat w - 1)}))
    \<longleftrightarrow> signed_value (nat w) a < signed_value (nat w) b"
proof -
  obtain n where n: "nat w = Suc n" using assms(1) by (cases "nat w") auto
  define h where "h = (2::int) ^ n"
  have h: "(2::int) ^ nat w = 2 * h" "0 < h" by (simp_all add: n h_def)
  define x where "x = take_bit (nat w) (a - b)"
  have x: "0 \<le> x" "x < 2 * h" by (simp_all add: x_def h(1)[symmetric])
  have x': "x = a - b \<or> x = a - b + 2 * h"
  proof (cases "b \<le> a")
    case True
    then show ?thesis using a b by (simp add: x_def take_bit_int_eq_self)
  next
    case False
    then have "(a - b + 2 * h) mod (2 * h) = a - b + 2 * h" using a b h by (intro mod_pos_pos_trivial) auto
    then show ?thesis by (simp add: x_def take_bit_eq_mod h)
  qed
  have "bit (a - b) n \<longleftrightarrow> bit x n" by (simp add: x_def bit_take_bit_iff n)
  also have "\<dots> \<longleftrightarrow> h \<le> x" using bit_top[of x n] x by (simp add: h_def)
  finally have sf: "bit (a - b) n \<longleftrightarrow> h \<le> x" .
  have sv: "signed_value (nat w) v = (if h \<le> v then v - 2 * h else v)" if "0 \<le> v" "v < 2 ^ nat w" for v
    using signed_value_eq[of v "nat w"] that by (simp add: n h_def)
  have hn: "2 ^ (nat w - 1) = h" by (simp add: n h_def)
  show ?thesis
    unfolding hn sv[OF a] sv[OF b] using sf x x' a b h by (auto simp: n)
qed

lemma signed_eq: "0 < w \<Longrightarrow> 0 \<le> a \<Longrightarrow> a < 2 ^ nat w \<Longrightarrow> 0 \<le> b \<Longrightarrow> b < 2 ^ nat w \<Longrightarrow>
    signed_value (nat w) a = signed_value (nat w) b \<longleftrightarrow> a = b"
  by (auto simp: signed_value_eq split: if_splits)

definition comparisons :: "(string \<times> (nat \<Rightarrow> int \<Rightarrow> int \<Rightarrow> bool)) list" where
  "comparisons =
     [(''a'', \<lambda>w a b. b < a), (''nbe'', \<lambda>w a b. b < a), (''ae'', \<lambda>w a b. b \<le> a), (''nb'', \<lambda>w a b. b \<le> a), (''nc'', \<lambda>w a b. b \<le> a),
      (''b'', \<lambda>w a b. a < b), (''c'', \<lambda>w a b. a < b), (''nae'', \<lambda>w a b. a < b), (''be'', \<lambda>w a b. a \<le> b), (''na'', \<lambda>w a b. a \<le> b),
      (''e'', \<lambda>w a b. a = b), (''z'', \<lambda>w a b. a = b), (''ne'', \<lambda>w a b. a \<noteq> b), (''nz'', \<lambda>w a b. a \<noteq> b),
      (''g'', \<lambda>w a b. signed_value w b < signed_value w a), (''nle'', \<lambda>w a b. signed_value w b < signed_value w a),
      (''ge'', \<lambda>w a b. signed_value w b \<le> signed_value w a), (''nl'', \<lambda>w a b. signed_value w b \<le> signed_value w a),
      (''l'', \<lambda>w a b. signed_value w a < signed_value w b), (''nge'', \<lambda>w a b. signed_value w a < signed_value w b),
      (''le'', \<lambda>w a b. signed_value w a \<le> signed_value w b), (''ng'', \<lambda>w a b. signed_value w a \<le> signed_value w b)]"

lemma updates_entry: "distinct (map fst new) \<Longrightarrow>
    map_of (updates d new) k = (case map_of new k of Some e \<Rightarrow> Some e | None \<Rightarrow> map_of d k)"
proof (induction new arbitrary: d)
  case (Cons kv new)
  have "map_of new (fst kv) = None" using Cons.prems by (simp add: map_of_eq_None_iff)
  then show ?case using Cons by (auto simp: updates_def update_conv' split: prod.split option.split)
qed (simp add: updates_def)

lemma entry_updates: "map_of (updates d new) k = Some e \<Longrightarrow> entry (updates d new) k = Ok e"
  by (simp add: entry_def)

lemma compared:
  fixes M l r w old
  assumes "a_word l" "a_word r" "0 < w" "w \<le> 32" and c: "(sfx, rel) \<in> set comparisons"
  defines "a \<equiv> take_bit (nat w) (value_of M l)" and "b \<equiv> take_bit (nat w) (value_of M r)"
  defines "fl \<equiv> updates old (arithmetic_flags ''sub'' l r (expr_sub l r) w)"
  shows "\<exists>e. branch_condition (''j'' @ sfx) fl = Ok (Some e) \<and> a_cond e \<and> value_of M e = of_bool (rel (nat w) a b)"
    "\<exists>e. setcc_condition (''set'' @ sfx) fl = Ok (Some e) \<and> a_cond e \<and> value_of M e = of_bool (rel (nat w) a b)"
proof -
  obtain cf zf sf ovf pf where f: "arithmetic_flags ''sub'' l r (expr_sub l r) w
      = [(''cf'', cf), (''zf'', zf), (''sf'', sf), (''of'', ovf), (''pf'', pf)]"
    by (simp add: arithmetic_flags_def Let_def result_flags_def)
  have conds: "a_cond cf" "a_cond zf" "a_cond sf" "a_cond ovf" "a_cond pf"
    using sub_flags_values(1)[OF assms(1-4)] by (simp_all add: f)
  have vals: "value_of M cf = of_bool (a < b)" "value_of M zf = of_bool (a = b)"
    "value_of M sf = of_bool (bit (a - b) (nat w - 1))"
    "value_of M ovf = of_bool (signed_value (nat w) a - signed_value (nat w) b \<notin> {- (2 ^ (nat w - 1)) ..< 2 ^ (nat w - 1)})"
    using sub_flags_values(2)[OF assms(1-4), of M] by (simp_all add: f a_def b_def)
  have w: "with_flags fl g = Ok (g cf zf sf ovf pf)" for g :: "sx \<Rightarrow> sx \<Rightarrow> sx \<Rightarrow> sx \<Rightarrow> sx \<Rightarrow> sx option"
    by (simp add: with_flags_def fl_def f entry_def entry_or_def updates_entry)
  have ab: "0 \<le> a" "a < 2 ^ nat w" "0 \<le> b" "b < 2 ^ nat w" by (simp_all add: a_def b_def)
  have less: "(value_of M sf \<noteq> 0) \<noteq> (value_of M ovf \<noteq> 0) \<longleftrightarrow> signed_value (nat w) a < signed_value (nat w) b"
    using sign_and_overflow[OF assms(3) ab] unfolding vals by simp
  have same: "value_of M sf = value_of M ovf \<longleftrightarrow> signed_value (nat w) b \<le> signed_value (nat w) a"
    using less unfolding vals by auto
  have eq: "a = b \<longleftrightarrow> signed_value (nat w) a = signed_value (nat w) b" using signed_eq[OF assms(3) ab] by simp
  obtain lt ge where lt: "bool_xor sf ovf = lt" "a_cond lt" "value_of M lt = of_bool (signed_value (nat w) a < signed_value (nat w) b)"
    and ge: "bool_eq sf ovf = ge" "a_cond ge" "value_of M ge = of_bool (signed_value (nat w) b \<le> signed_value (nat w) a)"
    using conds less same by (simp add: built)
  note known = vals(1,2) lt ge
  show "\<exists>e. branch_condition (''j'' @ sfx) fl = Ok (Some e) \<and> a_cond e \<and> value_of M e = of_bool (rel (nat w) a b)"
    using c unfolding comparisons_def
    by (simp, elim disjE; clarsimp simp: branch_condition_def w branch_conditions_def built conds known)
       (use eq in auto)
  show "\<exists>e. setcc_condition (''set'' @ sfx) fl = Ok (Some e) \<and> a_cond e \<and> value_of M e = of_bool (rel (nat w) a b)"
    using c unfolding comparisons_def
    by (simp, elim disjE; clarsimp simp: setcc_condition_def w setcc_conditions_def setcc_key_def setcc_aliases_def built conds known)
       (use eq in auto)
qed
end
