(* ===== verification/Symbolic_Parts.thy ===== *)
theory Symbolic_Parts
  imports Symbolic_Arith
begin

text \<open>
  The parts of a register are bit fields of its value; a double shift takes its bits from the two operands
  joined.
\<close>

definition set_field :: "int \<Rightarrow> int \<Rightarrow> int \<Rightarrow> int \<Rightarrow> int" where
  "set_field pos w v x = (x AND NOT (field_mask pos w)) OR (push_bit (nat pos) v AND field_mask pos w)"

definition get_field :: "int \<Rightarrow> int \<Rightarrow> int \<Rightarrow> int" where
  "get_field pos w x = take_bit (nat w) (drop_bit (nat pos) x)"

lemma bit_field_mask: "bit (field_mask pos w) n \<longleftrightarrow> nat pos \<le> n \<and> n < nat pos + nat w \<and> n < 32"
  by (auto simp: field_mask_def mask_u32 u32_take_bit low_mask_eq bit_simps)

lemma bit_set_field: "bit (set_field pos w v x) n \<longleftrightarrow>
    (if nat pos \<le> n \<and> n < nat pos + nat w \<and> n < 32 then bit v (n - nat pos) else bit x n)"
  by (auto simp: set_field_def bit_simps bit_field_mask)

lemma get_set_same:
  assumes "0 \<le> pos" "0 < w" "pos + w \<le> 32"
  shows "get_field pos w (set_field pos w v x) = take_bit (nat w) v"
  using assms by (intro bit_eqI) (auto simp: get_field_def bit_simps bit_set_field)

lemma set_set_same: "set_field pos w v (set_field pos w u x) = set_field pos w v x"
  by (rule bit_eqI) (auto simp: bit_set_field)

lemma set_field_mask: "0 < w \<Longrightarrow> set_field pos w (take_bit (nat w) v) x = set_field pos w v x"
  by (rule bit_eqI) (auto simp: bit_set_field bit_simps)

lemma set_field_whole: "u32_ok v \<Longrightarrow> u32_ok x \<Longrightarrow> set_field 0 32 v x = v"
  by (rule bit_eqI) (auto simp: bit_set_field dest: u32_ok_bit)

lemma write_bits_value: "value_of M (XWriteBits b pos w v) = set_field pos w (value_of M v) (value_of M b)"
  by (simp add: set_field_def)

lemma write_bits_built:
  "a_word (XWriteBits b pos w v) \<longleftrightarrow> 0 \<le> pos \<and> 0 < w \<and> a_word b \<and> a_word v"
  by (auto simp: a_word_def)

text \<open>Reading and writing a part.\<close>

lemma shifted_built:
  assumes "a_word e" "0 \<le> pos" "0 < w" "pos < 32"
  shows "a_word (expr_mask (if pos \<noteq> 0 then expr_lshr e (XConst pos) else e) w)"
    "value_of M (expr_mask (if pos \<noteq> 0 then expr_lshr e (XConst pos) else e) w) = get_field pos w (value_of M e)"
proof -
  have "u32 pos AND 31 = pos"
    using assms by (simp add: u32_id) (simp add: mask_simps take_bit_int_eq_self)
  then show "a_word (expr_mask (if pos \<noteq> 0 then expr_lshr e (XConst pos) else e) w)"
    "value_of M (expr_mask (if pos \<noteq> 0 then expr_lshr e (XConst pos) else e) w) = get_field pos w (value_of M e)"
    using assms by (auto simp: built get_field_def)
qed

lemma read_part_built:
  assumes "a_word e" "0 \<le> pos" "0 < w" "pos + w \<le> 32"
  shows "a_word (read_part pos w e)" "value_of M (read_part pos w e) = get_field pos w (value_of M e)"
proof -
  have "a_word (read_part pos w e) \<and> (\<forall>M. value_of M (read_part pos w e) = get_field pos w (value_of M e))"
  proof (cases "\<exists>b v. e = XWriteBits b pos w v")
    case True
    then obtain b v where "e = XWriteBits b pos w v" by blast
    then show ?thesis using assms
      by (simp add: write_bits_built built write_bits_value get_set_same del: value_of.simps(15))
  next
    case False
    then have "read_part pos w e = expr_mask (if pos \<noteq> 0 then expr_lshr e (XConst pos) else e) w"
      by (cases e) auto
    then show ?thesis using shifted_built[OF assms(1-3)] assms(4,3) by simp
  qed
  then show "a_word (read_part pos w e)" "value_of M (read_part pos w e) = get_field pos w (value_of M e)" by auto
qed

lemma write_part_built:
  assumes "a_word e" "a_word v" "0 \<le> pos" "0 < w"
  shows "a_word (write_part pos w v e)" "value_of M (write_part pos w v e) = set_field pos w (value_of M v) (value_of M e)"
proof -
  have "a_word (write_part pos w v e) \<and>
      (\<forall>M. value_of M (write_part pos w v e) = set_field pos w (value_of M v) (value_of M e))"
    using assms by (cases e) (auto simp: write_bits_built write_bits_value set_set_same simp del: value_of.simps(15))
  then show "a_word (write_part pos w v e)" "value_of M (write_part pos w v e) = set_field pos w (value_of M v) (value_of M e)"
    by auto
qed

lemma register_part_range:
  "register_part name = Some (base, pos, w) \<Longrightarrow>
    0 \<le> pos \<and> 0 < w \<and> pos + w \<le> 32 \<and> base \<in> {''eax'', ''ebx'', ''ecx'', ''edx'', ''esi'', ''edi'', ''ebp'', ''esp''}
    \<and> (w = 32 \<longrightarrow> pos = 0)"
  unfolding register_part_def register_parts_def by (drule map_of_SomeD) auto

definition word_registers :: "named \<Rightarrow> bool" where
  "word_registers regs \<longleftrightarrow> (\<forall>e\<in>set (map snd regs). a_word e)"

lemma word_registersD: "word_registers regs \<Longrightarrow> map_of regs k = Some e \<Longrightarrow> a_word e"
  by (force simp: word_registers_def dest: map_of_SomeD)

lemma read_register_built:
  assumes "word_registers regs" "read_register_expr name regs = Some e"
  shows "a_word e"
  using assms read_part_built(1) register_part_range word_registersD
  by (fastforce simp: read_register_expr_def bind_eq_Some_conv)

lemma update_words: "word_registers regs \<Longrightarrow> a_word e \<Longrightarrow> word_registers (AList.update k e regs)"
  by (induction regs) (auto simp: word_registers_def)

lemma write_register_built:
  assumes "word_registers regs" "a_word e" "write_register_expr name e regs = Some regs'"
  shows "word_registers regs'"
proof -
  obtain base pos w where p: "register_part name = Some (base, pos, w)"
    using assms(3) by (auto simp: write_register_expr_def split: option.split_asm prod.split_asm)
  note r = register_part_range[OF p]
  have "a_word (expr_mask e w)" using r assms(2) by (simp add: built)
  then show ?thesis
    using assms r write_part_built(1) word_registersD
    by (auto simp: write_register_expr_def p Let_def split: if_split_asm intro!: update_words) 
qed

text \<open>What a base register holds, and the values of the parts after a write.\<close>

definition base_value :: "meaning \<Rightarrow> named \<Rightarrow> string \<Rightarrow> int" where
  "base_value M regs base = (case map_of regs base of None \<Rightarrow> 0 | Some e \<Rightarrow> value_of M e)"

lemma write_register_holds:
  assumes "word_registers regs" "a_word e" "write_register_expr name e regs = Some regs'"
    "register_part name = Some (base, pos, w)" "map_of regs base \<noteq> None"
  shows "base_value M regs' b = (if b = base then set_field pos w (value_of M e) (base_value M regs b) else base_value M regs b)"
proof -
  note r = register_part_range[OF assms(4)]
  obtain old where old: "map_of regs base = Some old" using assms(5) by blast
  have w: "a_word old" using word_registersD[OF assms(1) old] .
  have m: "a_word (expr_mask e w)" "value_of M (expr_mask e w) = take_bit (nat w) (value_of M e)"
    using r assms(2) by (simp_all add: built)
  show ?thesis
    using assms(3) r old w m write_part_built(2)[OF w m(1), of pos w M] set_field_whole[of "value_of M e" "value_of M old"]
      word_range[OF w, of M] word_range[OF assms(2), of M] take_bit_word[OF assms(2), of 32 M]
    by (auto simp: write_register_expr_def assms(4) Let_def base_value_def update_conv' set_field_mask split: if_split_asm)
qed

lemma read_register_holds:
  assumes "word_registers regs" "register_part name = Some (base, pos, w)" "read_register_expr name regs = Some e"
  shows "value_of M e = get_field pos w (base_value M regs base)"
  using assms register_part_range[OF assms(2)] read_part_built(2) word_registersD[OF assms(1)]
  by (auto simp: read_register_expr_def base_value_def)

section \<open>Double shifts\<close>

lemma low5: "(v :: int) AND 31 = v mod 32"
  using take_bit_eq_mask[of 5 v] by (simp add: take_bit_eq_mod mask_eq_exp_minus_1)

lemma inverse_count:
  fixes m :: int
  assumes "0 \<le> m" "m < 32"
  shows "nat (u32 (32 - m) AND 31) = (if m = 0 then 0 else 32 - nat m)"
proof -
  have u: "u32 (32 - m) = 32 - m" using assms by (intro u32_id) auto
  show ?thesis
  proof (cases "m = 0")
    case False
    have "(32 - m) mod 32 = 32 - m" by (rule mod_pos_pos_trivial) (use assms False in auto)
    then have "u32 (32 - m) AND 31 = 32 - m" unfolding u low5 .
    then show ?thesis using assms False by (simp add: nat_diff_distrib)
  qed (simp add: low5 u32_id)
qed

lemma joined_bits:
  fixes h l :: int
  assumes "u32_ok h" "u32_ok l"
  shows "bit (2 ^ 32 * h + l) n \<longleftrightarrow> (if n < 32 then bit l n else bit h (n - 32))"
proof -
  have "2 ^ 32 * h + l = push_bit 32 h OR l"
  proof -
    have "push_bit 32 h AND l = 0"
      using assms by (intro bit_eqI) (auto simp: bit_simps dest: u32_ok_bit)
    then show ?thesis by (simp add: disjunctive_add_eq_or push_bit_eq_mult mult.commute)
  qed
  then show ?thesis using assms by (auto simp: bit_simps dest: u32_ok_bit)
qed

lemma high_bits: "u32_ok v \<Longrightarrow> 32 \<le> n \<Longrightarrow> \<not> bit v n"
  using u32_ok_bit[of v n] by auto

lemma shifted_left:
  assumes "u32_ok l" "u32_ok r" "0 < k" "k < 32"
  shows "take_bit 32 (u32 (push_bit k l) OR drop_bit (32 - k) r) = take_bit 32 (drop_bit (32 - k) (2 ^ 32 * l + r))"
proof (rule bit_eqI)
  fix n
  define j where "j = 2 ^ 32 * l + r"
  have j: "bit j i \<longleftrightarrow> (if i < 32 then bit r i else bit l (i - 32))" for i
    unfolding j_def by (rule joined_bits[OF assms(1,2)])
  have "bit (take_bit 32 (u32 (push_bit k l) OR drop_bit (32 - k) r)) n \<longleftrightarrow> bit (take_bit 32 (drop_bit (32 - k) j)) n"
  proof (cases "n < k")
    case True
    then have "n + (32 - k) < 32" using assms(4) by linarith
    then show ?thesis using True assms(3,4) by (simp add: bit_simps j u32_take_bit add.commute)
  next
    case False
    have "n + (32 - k) - 32 = n - k" "\<not> n + (32 - k) < 32" using assms(3,4) False by auto
    moreover have "\<not> bit r (n + (32 - k))" using high_bits[OF assms(2)] assms(4) False by simp
    ultimately show ?thesis
      using assms(3,4) False by (simp add: bit_simps j u32_take_bit add.commute)
  qed
  then show "bit (take_bit 32 (u32 (push_bit k l) OR drop_bit (32 - k) r)) n \<longleftrightarrow>
      bit (take_bit 32 (drop_bit (32 - k) (2 ^ 32 * l + r))) n" unfolding j_def .
qed

lemma shifted_right:
  assumes "u32_ok l" "u32_ok r" "0 < k" "k < 32"
  shows "take_bit 32 (drop_bit k l OR u32 (push_bit (32 - k) r)) = take_bit 32 (drop_bit k (2 ^ 32 * r + l))"
  using shifted_left[OF assms(2,1), of "32 - k"] assms(3,4) by (simp add: or.commute)

lemma shift_pair_value:
  fixes M
  assumes "a_word l" "a_word r" "a_word c"
  defines "k \<equiv> nat (value_of M c AND 31)"
  shows "value_of M (expr_shift_pair ''shld'' l r c 32) =
      (if k = 0 then value_of M l OR value_of M r
       else take_bit 32 (drop_bit (32 - k) (2 ^ 32 * value_of M l + value_of M r)))"
    "value_of M (expr_shift_pair ''shrd'' l r c 32) =
      (if k = 0 then value_of M l OR value_of M r
       else take_bit 32 (drop_bit k (2 ^ 32 * value_of M r + value_of M l)))"
proof -
  let ?l = "value_of M l" and ?r = "value_of M r"
  have m: "0 \<le> value_of M c AND 31" "value_of M c AND 31 < 32" by (simp_all add: low5)
  have k: "k < 32" using m unfolding k_def by linarith
  have lr: "u32_ok ?l" "u32_ok ?r" using assms(1,2) word_range by blast+
  have again: "(value_of M c AND 31) AND 31 = value_of M c AND 31" by (simp add: low5)
  have whole: "take_bit 32 v = v" if "u32_ok v" for v using that by (simp add: u32_take_bit[symmetric])
  have le0: "value_of M c AND 31 \<le> 0 \<longleftrightarrow> value_of M c AND 31 = 0" using m(1) by linarith
  note inv = inverse_count[OF m]
  have both: "value_of M (expr_shift_pair ''shld'' l r c 32) =
        take_bit 32 (u32 (push_bit k ?l) OR drop_bit (if k = 0 then 0 else 32 - k) ?r)"
    "value_of M (expr_shift_pair ''shrd'' l r c 32) =
        take_bit 32 (drop_bit k ?l OR u32 (push_bit (if k = 0 then 0 else 32 - k) ?r))"
    using assms(1-3) lr inv le0 by (simp_all add: expr_shift_pair_def Let_def built again whole k_def u32_consts)
  have zero: "k = 0 \<Longrightarrow> take_bit 32 (u32 ?l OR ?r) = ?l OR ?r" "k = 0 \<Longrightarrow> take_bit 32 (?l OR u32 ?r) = ?l OR ?r"
    using lr by (simp_all add: whole)
  show "value_of M (expr_shift_pair ''shld'' l r c 32) =
      (if k = 0 then ?l OR ?r else take_bit 32 (drop_bit (32 - k) (2 ^ 32 * ?l + ?r)))"
    unfolding both using zero k shifted_left[OF lr] shifted_right[OF lr] by auto
  show "value_of M (expr_shift_pair ''shrd'' l r c 32) =
      (if k = 0 then ?l OR ?r else take_bit 32 (drop_bit k (2 ^ 32 * ?r + ?l)))"
    unfolding both using zero k shifted_left[OF lr] shifted_right[OF lr] by auto
qed

end
