(* ===== verification/Symbolic_Invariant.thy ===== *)
theory Symbolic_Invariant
  imports Symbolic_Parts
begin

text \<open>
  Every state that the symbolic execution reaches is well formed: the eight registers and the flags are
  there, hold words and conditions, the x87 stack has eight entries, and every event and every recorded
  write is well sorted, so that the normal form keeps their values. No instruction raises a
  \<open>KeyError\<close> or an \<open>IndexError\<close>.
\<close>

definition gprs :: "string set" where
  "gprs = {''eax'', ''ebx'', ''ecx'', ''edx'', ''esi'', ''edi'', ''ebp'', ''esp''}"

definition flag_keys :: "string set" where
  "flag_keys = {''cf'', ''zf'', ''sf'', ''of'', ''pf'', ''df''}"

fun sym_outcome_ok :: "sym_outcome \<Rightarrow> bool" where
  "sym_outcome_ok (Sym_branch c t f) \<longleftrightarrow> a_cond c"
| "sym_outcome_ok (Sym_return e) \<longleftrightarrow> a_word e"
| "sym_outcome_ok (Sym_indirect_jump e) \<longleftrightarrow> a_word e"
| "sym_outcome_ok (Sym_jump_table e c) \<longleftrightarrow> a_word e"
| "sym_outcome_ok _ \<longleftrightarrow> True"

definition cond_flags :: "named \<Rightarrow> bool" where
  "cond_flags fl \<longleftrightarrow> (\<forall>e\<in>set (map snd fl). a_cond e)"

definition register_keys :: "named \<Rightarrow> bool" where
  "register_keys regs \<longleftrightarrow> fst ` set regs = gprs"

definition flags_there :: "named \<Rightarrow> bool" where
  "flags_there fl \<longleftrightarrow> flag_keys \<subseteq> fst ` set fl"

definition sym_ok :: "sym_state \<Rightarrow> bool" where
  "sym_ok s \<longleftrightarrow>
     word_registers (ss_registers s) \<and> register_keys (ss_registers s)
     \<and> cond_flags (ss_flags s) \<and> flags_there (ss_flags s)
     \<and> length (ss_fpu_stack s) = 8 \<and> list_all a_word (ss_fpu_stack s)
     \<and> a_word (ss_fpu_control s) \<and> a_word (ss_fpu_status s) \<and> sym_outcome_ok (ss_outcome s)
     \<and> list_all well_sorted (ss_memory_events s) \<and> list_all well_sorted (ss_external_events s)
     \<and> list_all well_sorted (ss_faults s)
     \<and> list_all (\<lambda>(a, w, v). a_word a \<and> a_word v) (ss_writes s)"

section \<open>Runs that end well\<close>

definition good :: "('a \<Rightarrow> bool) \<Rightarrow> 'a run \<Rightarrow> bool" where
  "good P r \<longleftrightarrow> (case r of Go a \<Rightarrow> P a | Halt (Incomplete _ _) \<Rightarrow> True | Halt (Failed e) \<Rightarrow> e \<notin> {Key_error, Index_error})"

lemma good_simps [simp]: "good P (Go a) \<longleftrightarrow> P a" "good P (Halt (Incomplete c b))" "good P (unsupported why)"
  by (simp_all add: good_def unsupported_def)

lemma good_andthen: "good P m \<Longrightarrow> (\<And>a. P a \<Longrightarrow> good Q (f a)) \<Longrightarrow> good Q (andthen m f)"
  by (cases m) (auto simp: good_def)

lemma good_mono: "good P m \<Longrightarrow> (\<And>a. P a \<Longrightarrow> Q a) \<Longrightarrow> good Q m"
  by (auto simp: good_def split: run.split stop.split)

lemma andthen_unsupported [simp]: "andthen (unsupported why) f = unsupported why"
  by (simp add: unsupported_def)

lemma good_expect: "(\<And>a. v = Some a \<Longrightarrow> good Q (f a)) \<Longrightarrow> good Q (andthen (expect why v) f)"
  by (cases v) (simp_all add: expect_def)

lemma good_target: "(\<And>a. v = Some a \<Longrightarrow> good Q (f a)) \<Longrightarrow> good Q (andthen (target_expect why v) f)"
  by (cases v) (simp_all add: target_expect_def)

lemma good_checked: "(\<And>a. v = Inr a \<Longrightarrow> good Q (f a)) \<Longrightarrow> (\<And>e. v = Inl e \<Longrightarrow> e \<notin> {Key_error, Index_error}) \<Longrightarrow>
    good Q (andthen (run_of v) f)"
  by (cases v) (simp_all add: run_of_def good_def)

section \<open>Registers and flags\<close>

lemma sym_okD:
  "sym_ok s \<Longrightarrow> word_registers (ss_registers s)" "sym_ok s \<Longrightarrow> cond_flags (ss_flags s)"
  by (simp_all add: sym_ok_def)

lemma register_there: "sym_ok s \<Longrightarrow> name \<in> gprs \<Longrightarrow> \<exists>e. map_of (ss_registers s) name = Some e \<and> a_word e"
  by (metis map_of_eq_None_iff not_None_eq register_keys_def sym_ok_def word_registersD)

lemma flag_there: "sym_ok s \<Longrightarrow> name \<in> flag_keys \<Longrightarrow> \<exists>e. map_of (ss_flags s) name = Some e \<and> a_cond e"
proof -
  assume "sym_ok s" "name \<in> flag_keys"
  then obtain e where "map_of (ss_flags s) name = Some e"
    by (metis map_of_eq_None_iff not_None_eq flags_there_def subsetD sym_ok_def)
  then show ?thesis using \<open>sym_ok s\<close> by (force simp: sym_ok_def cond_flags_def dest: map_of_SomeD)
qed

lemma good_reg: "sym_ok s \<Longrightarrow> name \<in> gprs \<Longrightarrow> (\<And>e. a_word e \<Longrightarrow> good Q (f e)) \<Longrightarrow> good Q (andthen (reg_of name s) f)"
  using register_there[of s name] by (auto simp: reg_of_def entry_def run_of_def)

lemma good_flag: "sym_ok s \<Longrightarrow> name \<in> flag_keys \<Longrightarrow> (\<And>e. a_cond e \<Longrightarrow> good Q (f e)) \<Longrightarrow> good Q (andthen (flag_of name s) f)"
  using flag_there[of s name] by (auto simp: flag_of_def entry_def run_of_def)

lemma keys_update: "fst ` set (AList.update k v al) = insert k (fst ` set al)"
  by (induction al) auto

lemma register_keys_update: "register_keys regs \<Longrightarrow> k \<in> gprs \<Longrightarrow> register_keys (AList.update k e regs)"
  by (simp add: register_keys_def keys_update insert_absorb)

lemma set_reg_ok: "sym_ok s \<Longrightarrow> a_word e \<Longrightarrow> name \<in> gprs \<Longrightarrow> sym_ok (set_reg name e s)"
  by (simp add: sym_ok_def set_reg_def update_words register_keys_update)

lemma cond_update: "cond_flags fl \<Longrightarrow> a_cond e \<Longrightarrow> cond_flags (AList.update k e fl)"
  by (induction fl) (auto simp: cond_flags_def)

lemma updates_ok: "cond_flags fl \<Longrightarrow> flags_there fl \<Longrightarrow> list_all (a_cond \<circ> snd) vs \<Longrightarrow>
    cond_flags (updates fl vs) \<and> flags_there (updates fl vs)"
proof (induction vs arbitrary: fl)
  case (Cons kv vs)
  have "cond_flags (AList.update (fst kv) (snd kv) fl)" using Cons.prems by (simp add: cond_update)
  moreover have "flags_there (AList.update (fst kv) (snd kv) fl)"
    using Cons.prems(2) by (auto simp: flags_there_def keys_update)
  ultimately show ?case using Cons by (cases kv) (simp add: updates_def)
qed (simp add: updates_def)

lemma set_flags_ok: "sym_ok s \<Longrightarrow> list_all (a_cond \<circ> snd) vs \<Longrightarrow> sym_ok (set_flags vs s)"
  using updates_ok[of "ss_flags s" vs] by (simp add: sym_ok_def set_flags_def)

lemma set_flag_ok: "sym_ok s \<Longrightarrow> a_cond e \<Longrightarrow> sym_ok (put_flag name e s)"
  by (simp add: put_flag_def set_flags_ok)

lemma direction_ok: "sym_ok s \<Longrightarrow> a_cond (direction_expr s)"
  using flag_there[of s "''df''"] by (auto simp: direction_expr_def entry_or_def flag_keys_def)

lemma put_reg_ok: "sym_ok s \<Longrightarrow> a_word e \<Longrightarrow> good sym_ok (put_reg why name e s)"
proof -
  assume s: "sym_ok s" "a_word e"
  have "sym_ok (s\<lparr>ss_registers := regs\<rparr>)" if wr: "write_register_expr name e (ss_registers s) = Some regs" for regs
  proof -
    obtain base pos w where p: "register_part name = Some (base, pos, w)"
      using wr by (cases "register_part name") (auto simp: write_register_expr_def)
    have "base \<in> gprs" using register_part_range[OF p] by (simp add: gprs_def)
    moreover obtain x where "regs = AList.update base x (ss_registers s)"
      using wr by (auto simp: write_register_expr_def p Let_def split: if_split_asm)
    ultimately have "register_keys regs" using s(1) by (simp add: register_keys_update sym_ok_def)
    then show ?thesis using s write_register_built[OF sym_okD(1)[OF s(1)] s(2) wr] by (simp add: sym_ok_def)
  qed
  then show ?thesis unfolding put_reg_def by (auto intro!: good_expect)
qed

section \<open>Memory and operands\<close>

lemma memory_expr_word: "well_sorted a \<Longrightarrow> a_word (memory_expr w a)" "well_sorted a \<Longrightarrow> a_word (memory_epoch_expr w a epoch)"
  by (auto simp: memory_expr_def memory_epoch_expr_def a_word_def bool_nodes_def split: option.split)

lemma find_in: "find P xs = Some x \<Longrightarrow> x \<in> set xs"
  by (metis find_Some_iff nth_mem)

lemma memory_read_ok:
  assumes "sym_ok s" "a_word a" "0 < w" "memory_read_expr a w s = (e, s')"
  shows "a_word e" "sym_ok s'"
proof -
  have c: "well_sorted (canonical_expr a)" using assms(2) by (simp add: a_word_def)
  have ev: "well_sorted (memory_epoch_expr w (canonical_expr a) (ss_epoch s))"
    using memory_expr_word(2)[OF c] by (simp add: a_word_def)
  have "a_word v" if "forwarded w (canonical_expr a) (ss_writes s) = Some v" for v
    using that assms(1) by (auto simp: forwarded_def sym_ok_def list_all_iff dest!: find_in)
  then show "a_word e" "sym_ok s'"
    using assms c ev memory_expr_word(2)[OF c]
    by (auto simp: memory_read_expr_def Let_def append_memory_def sym_ok_def built split: option.split_asm)
qed

lemma memory_write_ok: "sym_ok s \<Longrightarrow> a_word a \<Longrightarrow> a_word v \<Longrightarrow> 0 < w \<Longrightarrow> sym_ok (memory_write_expr a w v s)"
  using memory_expr_word(1)[of "canonical_expr a" w]
  by (auto simp: memory_write_expr_def Let_def append_memory_def sym_ok_def built a_wordD)

lemma good_read: "sym_ok s \<Longrightarrow> a_word a \<Longrightarrow> 0 < w \<Longrightarrow> (\<And>e s'. a_word e \<Longrightarrow> sym_ok s' \<Longrightarrow> good Q (f (e, s'))) \<Longrightarrow>
    good Q (f (memory_read_expr a w s))"
  using memory_read_ok[of s a w] by (cases "memory_read_expr a w s") auto

lemma fs_word: "a_word (XNode ''fs_base'' [])"
  by (simp add: a_word_def bool_nodes_def)

lemma sum_words: "a_word e \<Longrightarrow> list_all a_word es \<Longrightarrow> a_word (foldl expr_add e es)"
  by (induction es arbitrary: e) (simp_all add: built)

lemma mem_address_word:
  assumes "word_registers regs" "mem_address_expr m regs = Some a"
  shows "a_word a"
  using assms unfolding mem_address_expr_def Let_def bind_eq_Some_conv
  by (elim exE conjE) (auto simp: fs_word built word_registersD split: option.split_asm if_split_asm)

lemma width_positive: "0 < operand_width_bits p"
  using register_part_range by (cases p) (auto simp: operand_width_bits_def split: option.split)

lemma operand_expr_word: "word_registers regs \<Longrightarrow> 0 < w \<Longrightarrow> operand_expr p w regs = Some e \<Longrightarrow> a_word e"
  by (cases p) (auto simp: operand_expr_def built dest: read_register_built)

lemma width_or_positive: "(\<And>n. w = Some n \<Longrightarrow> 0 \<le> n) \<Longrightarrow> 0 < width_or w p"
  using width_positive[of p] by (force simp: width_or_def split: option.split)

lemma read_operand_ok:
  assumes "sym_ok s" "read_operand_expr p w s = Some (e, s')" "\<And>n. w = Some n \<Longrightarrow> 0 \<le> n"
  shows "a_word e" "sym_ok s'"
proof -
  have w: "0 < width_or w p" using assms(3) by (rule width_or_positive)
  have "a_word e \<and> sym_ok s'"
  proof (cases "operand_expr p (width_or w p) (ss_registers s)")
    case None
    then obtain m n a where "p = Mem_op m n" "mem_address_expr m (ss_registers s) = Some a"
      "memory_read_expr a (width_or w p) s = (e, s')"
      using assms(2) by (cases p) (auto simp: read_operand_expr_def Let_def)
    then show ?thesis
      using memory_read_ok[OF assms(1) _ w] mem_address_word sym_okD(1)[OF assms(1)] by blast
  next
    case (Some v)
    then show ?thesis
      using assms(1,2) operand_expr_word[OF sym_okD(1)[OF assms(1)] w] by (auto simp: read_operand_expr_def Let_def)
  qed
  then show "a_word e" "sym_ok s'" by simp_all
qed

lemma good_operand:
  assumes "sym_ok s" "\<And>n. w = Some n \<Longrightarrow> 0 \<le> n" "\<And>e s'. a_word e \<Longrightarrow> sym_ok s' \<Longrightarrow> good Q (f (e, s'))"
  shows "good Q (andthen (expect why (read_operand_expr p w s)) f)"
    "good Q (andthen (target_expect why (read_operand_expr p w s)) f)"
proof -
  have "good Q (f a)" if "read_operand_expr p w s = Some a" for a
    using that assms(3) read_operand_ok[OF assms(1) _ assms(2)] by (cases a) blast
  then show "good Q (andthen (expect why (read_operand_expr p w s)) f)"
    "good Q (andthen (target_expect why (read_operand_expr p w s)) f)"
    by (simp_all add: good_expect good_target)
qed

lemma good_get: "sym_ok s \<Longrightarrow> 0 < w \<Longrightarrow> (\<And>e s'. a_word e \<Longrightarrow> sym_ok s' \<Longrightarrow> good Q (f (e, s'))) \<Longrightarrow>
    good Q (andthen (get why p w s) f)"
  unfolding get_def by (rule good_operand(1)) auto

lemma good_put: "sym_ok s \<Longrightarrow> a_word v \<Longrightarrow> 0 < w \<Longrightarrow> good sym_ok (put why p v w s)"
proof -
  assume s: "sym_ok s" "a_word v" "0 < w"
  have m: "sym_ok (memory_write_expr a (width_or (Some w) q) v s)" if "mem_address_expr m (ss_registers s) = Some a" for a m q
    using memory_write_ok[OF s(1) mem_address_word[OF sym_okD(1)[OF s(1)] that] s(2)] s(3) by (simp add: width_or_def)
  have r: "sym_ok (s\<lparr>ss_registers := regs\<rparr>)" if "write_register_expr name v (ss_registers s) = Some regs" for name regs
    using put_reg_ok[OF s(1,2), of why name] that by (simp add: put_reg_def expect_def)
  show ?thesis
    using m r by (cases p) (auto simp: put_def write_operand_expr_def expect_def split: option.splits)
qed

lemma good_put_then: "sym_ok s \<Longrightarrow> a_word v \<Longrightarrow> 0 < w \<Longrightarrow> (\<And>s'. sym_ok s' \<Longrightarrow> good Q (f s')) \<Longrightarrow> good Q (andthen (put why p v w s) f)"
  by (rule good_andthen[OF good_put])

lemma good_put_reg_then: "sym_ok s \<Longrightarrow> a_word v \<Longrightarrow> (\<And>s'. sym_ok s' \<Longrightarrow> good Q (f s')) \<Longrightarrow> good Q (andthen (put_reg why name v s) f)"
  by (rule good_andthen[OF put_reg_ok])

lemma good_read_register: "sym_ok s \<Longrightarrow> (\<And>e. a_word e \<Longrightarrow> good Q (f e)) \<Longrightarrow>
    good Q (andthen (expect why (read_register_expr name (ss_registers s))) f)"
  by (rule good_expect) (auto dest: read_register_built[OF sym_okD(1)])

lemma good_address: "sym_ok s \<Longrightarrow> (\<And>a. a_word a \<Longrightarrow> good Q (f a)) \<Longrightarrow>
    good Q (andthen (expect why (mem_address_expr m (ss_registers s))) f)"
  by (rule good_expect) (auto dest: mem_address_word[OF sym_okD(1)])

text \<open>The rules that the lemmas on instructions apply, first the specific ones.\<close>

lemmas run_rules = good_get good_operand good_reg good_flag good_read_register good_address
  good_put_then good_put_reg_then good_put put_reg_ok

lemmas state_rules = set_flags_ok set_flag_ok set_reg_ok memory_write_ok direction_ok width_positive

named_theorems sorted_flags

lemma flag_nodes [sorted_flags]:
  "\<forall>x\<in>set xs. well_sorted x \<Longrightarrow> t \<in> {''adc_carry'', ''adc_overflow'', ''sbb_borrow'', ''sbb_overflow'', ''imul_overflow'', ''mul_carry'',
     ''shift_cf'', ''shift_of'', ''fpu_cmp_cf'', ''fpu_cmp_zf'', ''fpu_cmp_pf''} \<Longrightarrow> a_cond (XNode t xs)"
  by (rule node_sorted(2)) (auto simp: bool_nodes_def)

lemma result_flags_sorted [sorted_flags]:
  "a_cond cf \<Longrightarrow> a_cond ovf \<Longrightarrow> a_word res \<Longrightarrow> 0 < w \<Longrightarrow> list_all (a_cond \<circ> snd) (result_flags cf ovf res w)"
  by (simp add: result_flags_def built)

lemma arithmetic_flags_sorted [sorted_flags]:
  assumes "a_word l" "a_word r" "a_word res" "0 < w"
  shows "list_all (a_cond \<circ> snd) (arithmetic_flags op l r res w)"
proof -
  have "a_word (expr_mask l w)" "a_word (expr_mask r w)" "a_word (expr_mask res w)" using assms by (simp_all add: built)
  moreover from this have "a_cond (XNode ''add_overflow_w'' [XNum w, expr_mask l w, expr_mask r w, expr_mask res w])"
    "a_cond (XNode ''sub_overflow_w'' [XNum w, expr_mask l w, expr_mask r w, expr_mask res w])"
    by (auto intro!: node_sorted(2) simp: bool_nodes_def a_wordD)
  ultimately show ?thesis using assms(4) by (simp add: arithmetic_flags_def Let_def built result_flags_sorted)
qed

lemma logical_flags_sorted [sorted_flags]:
  "a_word res \<Longrightarrow> 0 < w \<Longrightarrow> list_all (a_cond \<circ> snd) (logical_flags res w)"
  unfolding logical_flags_def Let_def by (rule result_flags_sorted) (simp_all add: built)

lemma bool_bit_built [built]:
  assumes "a_cond p" shows "a_word (expr_bool_bit p)" "value_of M (expr_bool_bit p) = value_of M p"
proof -
  have p: "a_cond (canonical_expr p)" using assms by (simp add: built)
  have v: "value_of M (canonical_expr p) = value_of M p" using assms by (simp add: a_cond_def)
  show "a_word (expr_bool_bit p)"
    using p by (auto simp: expr_bool_bit_def bool_bit_with_def Let_def built node_sorted bool_nodes_def a_condD)
  show "value_of M (expr_bool_bit p) = value_of M p"
    using p v cond_bit[OF p, of M]
    by (auto simp: expr_bool_bit_def bool_bit_with_def Let_def value_of.simps(24) node_value_def pure_node_def
        bool_nodes_def numbers_def word_node_def py_index_unfold u32_okI built)
qed

lemma product_sorted: "a_word l \<Longrightarrow> a_word r \<Longrightarrow> t \<notin> bool_nodes \<Longrightarrow> a_word (product_with canonical_expr t f l r)"
proof -
  assume "a_word l" "a_word r" "t \<notin> bool_nodes"
  then have "a_word (XNode t [canonical_expr l, canonical_expr r])" by (auto intro!: node_sorted(1) simp: a_wordD)
  then show ?thesis by (auto simp: product_with_def Let_def built split: option.split)
qed

lemma products_built [built]:
  assumes "a_word l" "a_word r"
  shows "a_word (expr_imul_low l r)" "a_word (expr_imul_high l r)" "a_word (expr_mul_low l r)" "a_word (expr_mul_high l r)"
  unfolding expr_imul_low_def expr_imul_high_def expr_mul_low_def expr_mul_high_def
  using assms by (auto intro!: product_sorted simp: bool_nodes_def)

lemma carry_flags_sorted [sorted_flags]:
  assumes "a_word l" "a_word r" "a_cond c" "a_word res" "0 < w"
  shows "list_all (a_cond \<circ> snd) (carry_arithmetic_flags op l r c res w)"
proof -
  have "a_word (expr_mask l w)" "a_word (expr_mask r w)" "a_word (expr_mask res w)" "a_word (expr_mask (expr_bool_bit c) w)"
    using assms by (simp_all add: built)
  then show ?thesis
    using assms(5) by (auto simp: carry_arithmetic_flags_def Let_def a_wordD intro!: result_flags_sorted flag_nodes)
qed

lemma undefined_sorted [sorted_flags]: "a_cond (undefined_flag reason rva name)"
  "\<forall>e. d = Some e \<longrightarrow> well_sorted e \<Longrightarrow> a_word (undefined_bv reason rva name d)"
  by (auto simp: undefined_flag_def undefined_bv_def a_cond_def a_word_def bool_leaves_def)

lemma entry_or_sorted: "list_all (a_cond \<circ> snd) keep \<Longrightarrow> a_cond e \<Longrightarrow> a_cond (entry_or keep name e)"
  by (force simp: entry_or_def list_all_iff split: option.split dest: map_of_SomeD)

lemma undefined_flags_sorted [sorted_flags]:
  "list_all (a_cond \<circ> snd) keep \<Longrightarrow> list_all (a_cond \<circ> snd) (undefined_arithmetic_flags reason rva keep)"
  by (simp add: undefined_arithmetic_flags_def entry_or_sorted undefined_sorted)

lemma shift_flags_ok:
  assumes "sym_ok s" "a_word l" "a_word k" "a_word res" "0 < w"
    "\<And>vs. list_all (a_cond \<circ> snd) vs \<Longrightarrow> good Q (f vs)"
  shows "good Q (andthen (run_of (shift_flags m l k res (ss_flags s) rva w)) f)"
proof -
  note there = flag_there[OF assms(1)]
  obtain cf where cf: "map_of (ss_flags s) ''cf'' = Some cf" "a_cond cf"
    using there[of "''cf''"] by (auto simp: flag_keys_def)
  obtain zf where zf: "map_of (ss_flags s) ''zf'' = Some zf" "a_cond zf"
    using there[of "''zf''"] by (auto simp: flag_keys_def)
  obtain sf where sf: "map_of (ss_flags s) ''sf'' = Some sf" "a_cond sf"
    using there[of "''sf''"] by (auto simp: flag_keys_def)
  obtain ovf where ovf: "map_of (ss_flags s) ''of'' = Some ovf" "a_cond ovf"
    using there[of "''of''"] by (auto simp: flag_keys_def)
  obtain pf where pf: "map_of (ss_flags s) ''pf'' = Some pf" "a_cond pf"
    using there[of "''pf''"] by (auto simp: flag_keys_def)
  note fl = cf(1) zf(1) sf(1) ovf(1) pf(1) and c = cf(2) zf(2) sf(2) ovf(2) pf(2)
  have w: "a_word (expr_mask l w)" "a_word (expr_mask res w)" "a_word (expr_and k (XConst 0x1F))"
    using assms by (simp_all add: built)
  have n: "a_cond (XNode ''shift_cf'' [XTxt m, XNum w, expr_mask l w, expr_and k (XConst 0x1F)])"
    "a_cond (XNode ''shift_of'' [XTxt m, XNum w, expr_mask l w, expr_and k (XConst 0x1F), expr_mask res w])"
    using w by (auto intro!: flag_nodes simp: a_wordD)
  have z: "a_cond (bool_eq (expr_and k (XConst 0x1F)) (XConst 0))" "a_cond (bool_eq (expr_and k (XConst 0x1F)) (XConst 1))"
    "a_cond (XNode ''ult'' [expr_and k (XConst 0x1F), XConst (w + 1)])"
    using w by (simp_all add: built)
  have p: "a_cond (XNode ''eq'' [expr_mask res w, XConst 0])" "a_cond (XNode ''msb_w'' [XNum w, expr_mask res w])"
    "a_cond (XNode ''parity'' [XNum w, expr_mask res w])"
    using w assms(5) by (simp_all add: built)
  obtain vs where vs: "shift_flags m l k res (ss_flags s) rva w = Ok vs" "list_all (a_cond \<circ> snd) vs"
    by (simp add: shift_flags_def Let_def entry_def fl c n z p ite_cond_built undefined_sorted)
  then show ?thesis by (simp add: run_of_def assms(6))
qed

section \<open>The initial state\<close>

lemma initial_state_ok: "sym_ok (initial_sym_state block)"
  by (simp add: sym_ok_def initial_sym_state_def word_registers_def register_keys_def gprs_def cond_flags_def flags_there_def
      flag_keys_def initial_stack_def a_word_def a_cond_def reg_leaf_def flag_leaf_def bool_leaves_def bool_nodes_def)

end
