(* ===== verification/Code_Ranges.thy ===== *)
theory Code_Ranges
  imports Machine_Code
begin

text \<open>
  Address ranges of executable code (\<open>extraction/executable_classification.py\<close>): the gaps that a set of
  ranges leaves, the check that no two of them overlap, what counts as padding, and the evidence about
  the functions of a linker map.
\<close>

definition span_addresses :: "side \<Rightarrow> int set" where
  "span_addresses r = {sd_start r ..< sd_end r}"

section \<open>Gaps\<close>

fun gap_steps :: "int \<Rightarrow> int \<Rightarrow> int \<Rightarrow> side list \<Rightarrow> side list" where
  "gap_steps lo hi cursor [] = (if cursor < hi then [\<lparr>sd_start = cursor, sd_end = hi\<rparr>] else [])"
| "gap_steps lo hi cursor (r # rs) =
     (if sd_end r \<le> lo \<or> sd_start r \<ge> hi then gap_steps lo hi cursor rs
      else let a = max lo (sd_start r); b = min hi (sd_end r) in
        (if cursor < a then [\<lparr>sd_start = cursor, sd_end = a\<rparr>] else []) @ gap_steps lo hi (max cursor b) rs)"

definition gaps_of :: "int \<Rightarrow> int \<Rightarrow> side list \<Rightarrow> side list" where
  "gaps_of lo hi ranges = gap_steps lo hi lo (sort_key sd_start (sort_key sd_end ranges))"

definition section_identity :: "pe_image \<Rightarrow> pe_section \<Rightarrow> string" where
  "section_identity im s =
     (if length (filter (\<lambda>s'. sec_executable s' \<and> sec_name s' = sec_name s) (im_sections im)) = 1 then sec_name s
      else let t = hex_text (nat (sec_start s)) in sec_name s @ ''@'' @ replicate (8 - length t) (CHR ''0'') @ t)"

definition section_gaps :: "pe_image \<Rightarrow> side list \<Rightarrow> (string \<times> side list) list" where
  "section_gaps im ranges =
     dict_of (map (\<lambda>s. (section_identity im s, gaps_of (sec_start s) (sec_end s) ranges))
                (filter sec_executable (im_sections im)))"

section \<open>Overlaps\<close>

definition failure_record :: "string \<Rightarrow> string \<Rightarrow> string \<Rightarrow> json \<Rightarrow> json \<Rightarrow> json" where
  "failure_record cat obligation blocker original candidate =
     JObj [(''severity'', JStr ''fail''), (''status'', JStr ''fail''), (''category'', JStr cat),
           (''obligation_id'', JStr obligation), (''blocker'', JStr blocker), (''original'', original),
           (''candidate'', candidate), (''details'', JObj [])]"

definition incomplete_record :: "string \<Rightarrow> string \<Rightarrow> string \<Rightarrow> string \<Rightarrow> members \<Rightarrow> json" where
  "incomplete_record cat obligation blocker next_action details =
     JObj [(''severity'', JStr ''incomplete''), (''status'', JStr ''incomplete''), (''category'', JStr cat),
           (''obligation_id'', JStr obligation), (''blocker'', JStr blocker), (''next_action'', JStr next_action),
           (''details'', JObj details)]"

definition named_range :: "string \<times> side \<Rightarrow> json" where
  "named_range r = JObj [(''id'', JStr (fst r)), (''rva_start'', JInt (sd_start (snd r))), (''rva_end'', JInt (sd_end (snd r)))]"

definition overlap_issue :: "string \<Rightarrow> string \<times> side \<Rightarrow> string \<times> side \<Rightarrow> json" where
  "overlap_issue binary l r =
     failure_record ''invalid_mapping'' (''mapping:'' @ binary @ '':overlap:'' @ fst l @ '':'' @ fst r)
       (binary @ '' block mappings overlap'') (named_range l) (named_range r)"

fun adjacent_issues :: "string \<Rightarrow> (string \<times> side) list \<Rightarrow> json list" where
  "adjacent_issues binary (l # r # rest) =
     (if sd_end (snd l) > sd_start (snd r) then [overlap_issue binary l r] else [])
     @ adjacent_issues binary (r # rest)"
| "adjacent_issues binary _ = []"

definition range_overlap_issues :: "string \<Rightarrow> (string \<times> side) list \<Rightarrow> json list" where
  "range_overlap_issues binary ranges =
     adjacent_issues binary (sort_key (sd_start \<circ> snd) (sort_key (sd_end \<circ> snd) (sort_key fst ranges)))"

section \<open>Padding\<close>

definition is_padding_instruction :: "insn \<Rightarrow> bool" where
  "is_padding_instruction i =
     (in_mnemonic i \<in> {''nop'', ''int3''}
      \<or> in_mnemonic i = ''lea'' \<and> (case in_operands i of
           [Reg_op name _, Mem_op m _] \<Rightarrow> mem_base m = Some name \<and> mem_index m = None \<and> mem_disp m = 0
         | _ \<Rightarrow> False))"

definition decode_at :: "pe_image \<Rightarrow> int \<Rightarrow> int list \<Rightarrow> insn list" where
  "decode_at im rva bytes = im_decode im bytes (im_base im + rva)"

definition decoded_bytes :: "insn list \<Rightarrow> int" where
  "decoded_bytes instructions = sum_list (map in_size instructions)"

definition is_padding_bytes :: "pe_image \<Rightarrow> int \<Rightarrow> int list \<Rightarrow> bool" where
  "is_padding_bytes im rva bytes =
     (if bytes = [] \<or> list_all (\<lambda>b. b = 0) bytes \<or> list_all (\<lambda>b. b \<in> {0, 0x90, 0xCC}) bytes then True
      else let instructions = decode_at im rva bytes in
        decoded_bytes instructions = int (length bytes) \<and> list_all is_padding_instruction instructions)"

definition padding_waiver :: "string \<Rightarrow> side \<Rightarrow> json" where
  "padding_waiver binary r =
     JObj [(''id'', JStr (binary @ ''-padding-'' @ hex_text (nat (sd_start r)) @ ''-'' @ hex_text (nat (sd_end r)))),
           (''binary'', JStr binary), (''classification'', JStr ''verified_padding''), (''rva'', JInt (sd_start r)),
           (''size'', JInt (side_size r)),
           (''reason'', JStr ''verified executable section gap is zero-fill or padding instructions''),
           (''source'', JObj [(''kind'', JStr ''verified_padding_byte_pattern'')])]"

section \<open>Functions of a linker map\<close>

definition int_item :: "members \<Rightarrow> string \<Rightarrow> int res" where
  "int_item ms k = bind (jitem ms k) py_int"

definition map_side :: "members \<Rightarrow> side res" where
  "map_side ms =
     bind (int_item ms ''rva_start'') (\<lambda>a. bind (int_item ms ''rva_end'') (\<lambda>b. Ok \<lparr>sd_start = a, sd_end = b\<rparr>))"

definition map_name :: "members \<Rightarrow> string res" where
  "map_name ms = bind (jitem ms ''name'') (\<lambda>v. Ok (py_str v))"

definition duplicate_entry :: "members \<Rightarrow> json res" where
  "duplicate_entry ms =
     bind (jitem ms ''rva_start'') (\<lambda>a. bind (jitem ms ''rva_end'') (\<lambda>b.
       Ok (JObj [(''rva_start'', a), (''rva_end'', b), (''aliases'', jget_default ms ''aliases'' (JList []))])))"

text \<open>The names that several functions have, in the order of their first function.\<close>

definition duplicate_names :: "(string \<times> members) list \<Rightarrow> members res" where
  "duplicate_names named_functions =
     mapM (\<lambda>name. bind (mapM (duplicate_entry \<circ> snd) (filter (\<lambda>p. fst p = name) named_functions)) (\<lambda>es. Ok (name, JList es)))
       (filter (\<lambda>name. length (filter (\<lambda>p. fst p = name) named_functions) > 1) (map fst (dict_of named_functions)))"

definition text_member :: "json \<Rightarrow> string \<Rightarrow> string" where
  "text_member v k = (case member_of v k of JStr s \<Rightarrow> s | _ \<Rightarrow> '''')"

definition linker_function_issues :: "string \<Rightarrow> members list \<Rightarrow> json list res" where
  "linker_function_issues binary functions =
     bind (mapM map_name functions) (\<lambda>names.
     bind (duplicate_names (zip names functions)) (\<lambda>duplicates.
     bind (mapM map_side functions) (\<lambda>sides.
       Ok ((if functions = []
            then [incomplete_record ''missing_linker_map_entries'' (''map:'' @ binary @ '':functions'')
                    (binary @ '' linker map did not expose executable symbols'')
                    ''rebuild with linker map emission and unstripped symbols'' []]
            else [])
         @ (if duplicates \<noteq> []
            then [incomplete_record ''ambiguous_linker_map'' (''map:'' @ binary @ '':duplicate-function-names'')
                    (binary @ '' linker map contains duplicate primary function names'')
                    ''disambiguate duplicate linker-map symbols before accepting generated mappings''
                    [(''functions'', JObj duplicates)]]
            else [])
         @ map (\<lambda>overlap. incomplete_record ''ambiguous_linker_map'' (text_member overlap ''obligation_id'')
                  (text_member overlap ''blocker'')
                  ''fix linker-map function range recovery before generating a static analysis map''
                  (case overlap of JObj ms \<Rightarrow> ms | _ \<Rightarrow> []))
             (range_overlap_issues binary (zip names sides))))))"

definition import_thunk_match_key :: "pe_import \<Rightarrow> string" where
  "import_thunk_match_key x =
     imp_dll x @ ''!'' @ (case imp_symbol x of
        Some s \<Rightarrow> s | None \<Rightarrow> ''ordinal-'' @ (case imp_ordinal x of Some n \<Rightarrow> int_text n | None \<Rightarrow> ''None''))"

record thunk_evidence =
  th_function :: members
  th_block :: side
  th_range :: side
  th_import :: pe_import
  th_key :: string
  th_instruction :: json
  th_padding :: string

definition direct_import_jump :: "pe_image \<Rightarrow> insn \<Rightarrow> pe_import option" where
  "direct_import_jump im i =
     (if is_jump (in_mnemonic i)
      then (case in_operands i of [Mem_op m n] \<Rightarrow> import_for_operand im (Mem_op m n) | _ \<Rightarrow> None)
      else None)"

text \<open>A function that is one jump through the import table, with nothing but padding after it.\<close>

definition import_thunk_evidence :: "pe_image \<Rightarrow> members \<Rightarrow> thunk_evidence option res" where
  "import_thunk_evidence im f =
     bind (map_side f) (\<lambda>block.
       let lo = sd_start block; hi = sd_end block in
       if hi \<le> lo then Ok None
       else case decode_at im lo (im_data im lo (min 16 (hi - lo))) of
         [] \<Rightarrow> Ok None
       | first # _ \<Rightarrow>
           if insn_rva im first \<noteq> lo then Ok None
           else case direct_import_jump im first of
             None \<Rightarrow> Ok None
           | Some imported \<Rightarrow>
               let stop = lo + in_size first; padding = im_data im stop (hi - stop) in
               if stop > hi \<or> int (length padding) \<noteq> hi - stop \<or> \<not> is_padding_bytes im stop padding then Ok None
               else Ok (Some \<lparr>th_function = f, th_block = \<lparr>sd_start = lo, sd_end = stop\<rparr>, th_range = block,
                 th_import = imported, th_key = import_thunk_match_key imported,
                 th_instruction = instruction_report im first, th_padding = im_sha im padding\<rparr>))"

section \<open>What the gaps cover\<close>

definition ordered_sides :: "side list \<Rightarrow> bool" where
  "ordered_sides rs \<longleftrightarrow> sorted_wrt (\<lambda>a b. sd_end a \<le> sd_start b) rs"

lemma gap_steps_skip: "sd_end r \<le> lo \<or> hi \<le> sd_start r \<Longrightarrow> gap_steps lo hi cursor (r # rs) = gap_steps lo hi cursor rs"
  by simp

lemma gap_steps_take:
  "\<not> (sd_end r \<le> lo \<or> hi \<le> sd_start r) \<Longrightarrow> gap_steps lo hi cursor (r # rs) =
     (if cursor < max lo (sd_start r) then [\<lparr>sd_start = cursor, sd_end = max lo (sd_start r)\<rparr>] else [])
     @ gap_steps lo hi (max cursor (min hi (sd_end r))) rs"
  by (simp only: gap_steps.simps Let_def if_False)

lemma gap_steps_bounds:
  "lo \<le> cursor \<Longrightarrow> lo \<le> hi \<Longrightarrow> g \<in> set (gap_steps lo hi cursor rs) \<Longrightarrow>
    cursor \<le> sd_start g \<and> sd_start g < sd_end g \<and> sd_end g \<le> hi"
proof (induction rs arbitrary: cursor)
  case Nil
  then show ?case by (simp split: if_split_asm)
next
  case (Cons r rs)
  show ?case
  proof (cases "sd_end r \<le> lo \<or> hi \<le> sd_start r")
    case True
    then show ?thesis using Cons.IH Cons.prems gap_steps_skip[OF True] by metis
  next
    case False
    let ?c = "max cursor (min hi (sd_end r))"
    consider "g = \<lparr>sd_start = cursor, sd_end = max lo (sd_start r)\<rparr>" "cursor < max lo (sd_start r)"
      | "g \<in> set (gap_steps lo hi ?c rs)"
      using Cons.prems(3) unfolding gap_steps_take[OF False] by (auto split: if_split_asm)
    then show ?thesis
    proof cases
      case 1
      then show ?thesis using False Cons.prems(1,2) by simp
    next
      case 2
      then show ?thesis using Cons.IH[OF _ Cons.prems(2) 2] Cons.prems(1) by linarith
    qed
  qed
qed

lemma gap_steps_ordered:
  "lo \<le> cursor \<Longrightarrow> lo \<le> hi \<Longrightarrow> \<forall>r\<in>set rs. sd_start r \<le> sd_end r \<Longrightarrow> ordered_sides (gap_steps lo hi cursor rs)"
proof (induction rs arbitrary: cursor)
  case (Cons r rs)
  show ?case
  proof (cases "sd_end r \<le> lo \<or> hi \<le> sd_start r")
    case True
    then show ?thesis using Cons gap_steps_skip[OF True] by simp
  next
    case False
    let ?c = "max cursor (min hi (sd_end r))"
    have rest: "ordered_sides (gap_steps lo hi ?c rs)" using Cons by simp
    have "max lo (sd_start r) \<le> sd_start g" if g: "g \<in> set (gap_steps lo hi ?c rs)" for g
    proof -
      have "?c \<le> sd_start g" using gap_steps_bounds[OF _ Cons.prems(2) g] Cons.prems(1) by simp
      then show ?thesis using False Cons.prems(1,3) by auto
    qed
    with rest show ?thesis unfolding gap_steps_take[OF False] by (simp add: ordered_sides_def)
  qed
qed (simp add: ordered_sides_def)

lemma gap_steps_cover:
  assumes "sorted (map sd_start rs)" "\<forall>r\<in>set rs. sd_start r \<le> sd_end r" "lo \<le> cursor"
  shows "(\<exists>g\<in>set (gap_steps lo hi cursor rs). x \<in> span_addresses g) \<longleftrightarrow> cursor \<le> x \<and> x < hi \<and> (\<forall>r\<in>set rs. x \<notin> span_addresses r)"
  using assms
proof (induction rs arbitrary: cursor)
  case (Cons r rs)
  let ?c = "max cursor (min hi (sd_end r))"
  have IH: "(\<exists>g\<in>set (gap_steps lo hi c rs). x \<in> span_addresses g) \<longleftrightarrow> c \<le> x \<and> x < hi \<and> (\<forall>r\<in>set rs. x \<notin> span_addresses r)"
    if "lo \<le> c" for c using Cons.IH[of c] Cons.prems that by simp
  have later: "sd_start r \<le> sd_start q" if "q \<in> set rs" for q using Cons.prems(1) that by auto
  show ?case
  proof (cases "sd_end r \<le> lo \<or> hi \<le> sd_start r")
    case True
    then show ?thesis using IH[OF Cons.prems(3)] Cons.prems(3) by (auto simp: span_addresses_def)
  next
    case False
    have head: "x \<notin> span_addresses q" if "q \<in> set rs" "x < sd_start r" for q
      using later[OF that(1)] that(2) by (simp add: span_addresses_def)
    have step: "(\<exists>g\<in>set (gap_steps lo hi cursor (r # rs)). x \<in> span_addresses g) \<longleftrightarrow>
        (cursor \<le> x \<and> x < max lo (sd_start r)) \<or> (?c \<le> x \<and> x < hi \<and> (\<forall>r\<in>set rs. x \<notin> span_addresses r))"
      unfolding gap_steps_take[OF False] set_append bex_Un IH[OF order_trans[OF Cons.prems(3) max.cobounded1]]
      by (auto simp: span_addresses_def)
    have "x \<in> span_addresses r \<longleftrightarrow> sd_start r \<le> x \<and> x < sd_end r" by (simp add: span_addresses_def)
    then show ?thesis unfolding step using False Cons.prems(2,3) head by auto
  qed
qed (auto simp: span_addresses_def)

lemma sorted_ranges:
  "sorted (map sd_start (sort_key sd_start (sort_key sd_end rs)))" "set (sort_key sd_start (sort_key sd_end rs)) = set rs"
  by simp_all

lemma gaps_cover:
  assumes "\<forall>r\<in>set ranges. sd_start r \<le> sd_end r"
  shows "(\<exists>g\<in>set (gaps_of lo hi ranges). x \<in> span_addresses g) \<longleftrightarrow> lo \<le> x \<and> x < hi \<and> (\<forall>r\<in>set ranges. x \<notin> span_addresses r)"
  using gap_steps_cover[of "sort_key sd_start (sort_key sd_end ranges)" lo lo hi x] assms by (simp add: gaps_of_def)

lemma gaps_ordered:
  assumes "\<forall>r\<in>set ranges. sd_start r \<le> sd_end r" "lo \<le> hi"
  shows "ordered_sides (gaps_of lo hi ranges)"
    "g \<in> set (gaps_of lo hi ranges) \<Longrightarrow> lo \<le> sd_start g \<and> sd_start g < sd_end g \<and> sd_end g \<le> hi"
  using gap_steps_ordered[of lo lo hi "sort_key sd_start (sort_key sd_end ranges)"] assms
    gap_steps_bounds[of lo lo hi g "sort_key sd_start (sort_key sd_end ranges)"]
  by (simp_all add: gaps_of_def)

section \<open>Overlaps are all found\<close>

lemma adjacent_none:
  assumes "adjacent_issues binary rs = []" "\<forall>r\<in>set rs. sd_start (snd r) \<le> sd_end (snd r)"
  shows "ordered_sides (map snd rs)"
  using assms
proof (induction binary rs rule: adjacent_issues.induct)
  case (1 binary l r rest)
  then have o: "ordered_sides (map snd (r # rest))" and lr: "sd_end (snd l) \<le> sd_start (snd r)"
    by (auto split: if_split_asm)
  have "sd_end (snd l) \<le> sd_start q" if "q \<in> set (map snd (r # rest))" for q
  proof (cases "q = snd r")
    case False
    then have "sd_end (snd r) \<le> sd_start q" using that o by (auto simp: ordered_sides_def)
    then show ?thesis using lr "1.prems"(2) by force
  qed (use lr in simp)
  with o show ?case by (simp add: ordered_sides_def)
qed (simp_all add: ordered_sides_def)

lemma adjacent_some:
  assumes "adjacent_issues binary rs \<noteq> []" "sorted (map (sd_start \<circ> snd) rs)" "\<forall>r\<in>set rs. sd_start (snd r) < sd_end (snd r)"
  shows "\<exists>i j. i < j \<and> j < length rs \<and> span_addresses (snd (rs ! i)) \<inter> span_addresses (snd (rs ! j)) \<noteq> {}"
  using assms
proof (induction binary rs rule: adjacent_issues.induct)
  case (1 binary l r rest)
  show ?case
  proof (cases "sd_end (snd l) > sd_start (snd r)")
    case True
    then have "sd_start (snd r) \<in> span_addresses (snd l) \<inter> span_addresses (snd r)" using "1.prems" by (auto simp: span_addresses_def)
    then show ?thesis by (intro exI[of _ 0] exI[of _ 1]) auto
  next
    case False
    then have "adjacent_issues binary (r # rest) \<noteq> []" using "1.prems"(1) by simp
    then have "\<exists>i j. i < j \<and> j < length (r # rest)
        \<and> span_addresses (snd ((r # rest) ! i)) \<inter> span_addresses (snd ((r # rest) ! j)) \<noteq> {}"
      by (rule "1.IH") (use "1.prems"(2,3) in auto)
    then obtain i j where "i < j" "j < length (r # rest)"
      "span_addresses (snd ((r # rest) ! i)) \<inter> span_addresses (snd ((r # rest) ! j)) \<noteq> {}" by blast
    then show ?thesis by (intro exI[of _ "Suc i"] exI[of _ "Suc j"]) simp
  qed
qed simp_all

end
