(* ===== verification/Code_Recovery.thy ===== *)
theory Code_Recovery
  imports Code_Ranges Symbolic_Rows
begin

text \<open>
  Basic blocks of a range and the classification of the gaps between known functions into code and
  padding (\<open>extraction/executable_classification.py\<close>).
\<close>

section \<open>Basic blocks\<close>

record declared_roots =
  dr_entry :: int
  dr_tls :: "int list option"
  dr_exports :: "(int \<times> string) list option"

definition root_rvas :: "declared_roots \<Rightarrow> int list" where
  "root_rvas roots =
     dr_entry roots # (case dr_tls roots of None \<Rightarrow> [] | Some rvas \<Rightarrow> rvas)
     @ (case dr_exports roots of None \<Rightarrow> [] | Some es \<Rightarrow> map fst (filter (\<lambda>e. snd e = ''code'') es))"

definition normalized_import_symbol :: "string option \<Rightarrow> string" where
  "normalized_import_symbol name =
     (case name of None \<Rightarrow> []
      | Some s \<Rightarrow> py_lower (dropWhile ((=) CHR ''_'') (takeWhile ((\<noteq>) CHR ''@'') s)))"

definition noreturn_import_symbols :: "string set" where
  "noreturn_import_symbols = {''abort'', ''amsg_exit'', ''exit'', ''exitprocess'', ''terminateprocess''}"

definition is_noreturn_import_call :: "pe_image \<Rightarrow> insn \<Rightarrow> bool" where
  "is_noreturn_import_call im i =
     (case external_import_call im i of
        None \<Rightarrow> False | Some x \<Rightarrow> normalized_import_symbol (imp_symbol x) \<in> noreturn_import_symbols)"

definition ends_basic_block :: "insn \<Rightarrow> bool" where
  "ends_basic_block i = (in_mnemonic i \<in> {''call'', ''ret'', ''jmp'', ''ljmp''} \<or> is_conditional_jump (in_mnemonic i))"

record recovered =
  rc_block :: side
  rc_digest :: string
  rc_key :: members

definition function_range_block :: "pe_image \<Rightarrow> int \<Rightarrow> int \<Rightarrow> int list \<Rightarrow> insn list \<Rightarrow> recovered" where
  "function_range_block im lo hi bytes instructions =
     \<lparr>rc_block = \<lparr>sd_start = lo, sd_end = hi\<rparr>, rc_digest = im_sha im bytes,
      rc_key = [(''kind'', JStr ''linker_map_function_range''), (''instruction_count'', JInt (int (length instructions))),
                (''decoded_bytes'', JInt (decoded_bytes instructions)), (''range_size'', JInt (int (length bytes)))]\<rparr>"

text \<open>The starts that one instruction declares within the range.\<close>

definition declared_starts :: "pe_image \<Rightarrow> int \<Rightarrow> int \<Rightarrow> insn \<Rightarrow> int list" where
  "declared_starts im lo hi i =
     (let m = in_mnemonic i; after = insn_rva im i + in_size i;
          target = (case resolved_branch_target im i of Some t \<Rightarrow> if lo \<le> t \<and> t < hi then [t] else [] | None \<Rightarrow> []);
          following = (if after < hi then [after] else []) in
      if is_conditional_jump m then target @ following
      else if is_jump m then target
      else if m = ''call'' then target @ following
      else [])"

text \<open>The dictionary of instructions by address, in the order of the addresses.\<close>

definition by_address :: "pe_image \<Rightarrow> insn list \<Rightarrow> (int \<times> insn) list" where
  "by_address im instructions = sort_key fst (dict_of (map (\<lambda>i. (insn_rva im i, i)) instructions))"

definition block_starts :: "pe_image \<Rightarrow> declared_roots \<Rightarrow> int \<Rightarrow> int \<Rightarrow> insn list \<Rightarrow> int list" where
  "block_starts im roots lo hi instructions =
     filter (\<lambda>s. s \<in> fst ` set (by_address im instructions))
       (sort (remdups (lo # filter (\<lambda>r. lo \<le> r \<and> r < hi) (root_rvas roots)
          @ concat (map (declared_starts im lo hi) instructions))))"

text \<open>A block ends after the first instruction from its start that ends one, or at the next start.\<close>

definition block_end :: "pe_image \<Rightarrow> (int \<times> insn) list \<Rightarrow> int \<Rightarrow> int \<Rightarrow> int" where
  "block_end im table start next_start =
     (case find (\<lambda>(rva, i). start \<le> rva \<and> rva < next_start \<and> (ends_basic_block i \<or> is_noreturn_import_call im i)) table of
        Some (rva, i) \<Rightarrow> rva + in_size i
      | None \<Rightarrow> next_start)"

definition recovered_block ::
  "pe_image \<Rightarrow> int \<Rightarrow> int \<Rightarrow> (int \<times> insn) list \<Rightarrow> int \<Rightarrow> int \<Rightarrow> nat \<Rightarrow> recovered option" where
  "recovered_block im lo hi table start next_start index =
     (let stop = block_end im table start next_start; bytes = im_data im start (stop - start) in
      if stop \<le> start \<or> is_padding_bytes im start bytes then None
      else Some \<lparr>rc_block = \<lparr>sd_start = start, sd_end = stop\<rparr>, rc_digest = im_sha im bytes,
        rc_key = [(''kind'', JStr ''recovered_basic_block''), (''function_rva_start'', JInt lo),
                  (''function_rva_end'', JInt hi), (''block_index'', JInt (int index)),
                  (''instruction_count'', JInt (int (length (filter (\<lambda>(rva, _). start \<le> rva \<and> rva < stop) table)))),
                  (''range_size'', JInt (int (length bytes)))]\<rparr>)"

fun recovered_blocks ::
  "pe_image \<Rightarrow> int \<Rightarrow> int \<Rightarrow> (int \<times> insn) list \<Rightarrow> nat \<Rightarrow> int list \<Rightarrow> recovered list" where
  "recovered_blocks im lo hi table index [] = []"
| "recovered_blocks im lo hi table index (start # starts) =
     (case recovered_block im lo hi table start (case starts of [] \<Rightarrow> hi | s # _ \<Rightarrow> s) index of
        None \<Rightarrow> recovered_blocks im lo hi table index starts
      | Some b \<Rightarrow> b # recovered_blocks im lo hi table (Suc index) starts)"

definition recover_basic_blocks :: "pe_image \<Rightarrow> declared_roots \<Rightarrow> int \<Rightarrow> int \<Rightarrow> recovered list" where
  "recover_basic_blocks im roots lo hi =
     (let bytes = im_data im lo (hi - lo); instructions = decode_at im lo bytes;
          whole = [function_range_block im lo hi bytes instructions] in
      if instructions = [] \<or> decoded_bytes instructions \<noteq> int (length bytes) then whole
      else let starts = block_starts im roots lo hi instructions;
               blocks = recovered_blocks im lo hi (by_address im instructions) 0 starts
           in if starts = [] \<or> blocks = [] then whole else blocks)"

section \<open>Gaps\<close>

definition decodable_prefix :: "pe_image \<Rightarrow> side \<Rightarrow> int list \<Rightarrow> side" where
  "decodable_prefix im span bytes =
     (let n = decoded_bytes (decode_at im (sd_start span) bytes); suffix_start = sd_start span + n in
      if n = int (length bytes) \<or> n \<le> 0 then span
      else if \<not> is_padding_bytes im suffix_start (drop (nat n) bytes) then span
      else \<lparr>sd_start = sd_start span, sd_end = suffix_start\<rparr>)"

definition trim_padding_edges :: "pe_image \<Rightarrow> side \<Rightarrow> int list \<Rightarrow> side list \<times> side option \<times> int list" where
  "trim_padding_edges im block bytes =
     (let instructions = decode_at im (sd_start block) bytes in
      if decoded_bytes instructions \<noteq> int (length bytes) then ([], Some block, bytes)
      else case dropWhile is_padding_instruction instructions of
        [] \<Rightarrow> ([block], None, [])
      | first # rest \<Rightarrow>
          let lastcode = last (first # rev (dropWhile is_padding_instruction (rev rest)));
              a = insn_rva im first; b = insn_rva im lastcode + in_size lastcode;
              code = \<lparr>sd_start = a, sd_end = b\<rparr>
          in ((if sd_start block < a then [\<lparr>sd_start = sd_start block, sd_end = a\<rparr>] else [])
              @ (if b < sd_end block then [\<lparr>sd_start = b, sd_end = sd_end block\<rparr>] else []),
              Some code, im_data im a (b - a)))"

record code_fragment =
  cf_gap :: nat
  cf_index :: nat
  cf_block :: side
  cf_bytes :: "int list"
  cf_key :: members

definition fragment_key :: "string \<Rightarrow> side \<Rightarrow> members" where
  "fragment_key what r = [(''kind'', JStr what), (''range_size'', JInt (side_size r))]"

definition unreadable_fragment :: "nat \<Rightarrow> nat \<Rightarrow> side \<Rightarrow> int list \<Rightarrow> code_fragment" where
  "unreadable_fragment gap index r bytes =
     \<lparr>cf_gap = gap, cf_index = index, cf_block = r, cf_bytes = bytes,
      cf_key = fragment_key ''unreadable_section_gap_fragment'' r @ [(''read_bytes'', JInt (int (length bytes)))]\<rparr>"

text \<open>A recovered block: code without its padding, and the padding to be waived.\<close>

definition classify_block :: "pe_image \<Rightarrow> nat \<Rightarrow> nat \<Rightarrow> recovered \<Rightarrow> code_fragment list \<times> side list" where
  "classify_block im gap index item =
     (let block = rc_block item; bytes = im_data im (sd_start block) (side_size block) in
      if int (length bytes) \<noteq> side_size block then ([unreadable_fragment gap index block bytes], [])
      else if is_padding_bytes im (sd_start block) bytes then ([], [block])
      else case trim_padding_edges im block bytes of
        (padding, None, _) \<Rightarrow> ([], padding)
      | (padding, Some code, code_bytes) \<Rightarrow>
          if is_padding_bytes im (sd_start code) code_bytes then ([], padding @ [code])
          else ([\<lparr>cf_gap = gap, cf_index = index, cf_block = code, cf_bytes = code_bytes,
                   cf_key = overlay (rc_key item)
                     [(''trimmed_padding_prefix'', JInt (sd_start code - sd_start block)),
                      (''trimmed_padding_suffix'', JInt (sd_end block - sd_end code))]\<rparr>], padding))"

fun classify_blocks :: "pe_image \<Rightarrow> nat \<Rightarrow> nat \<Rightarrow> recovered list \<Rightarrow> code_fragment list \<times> side list" where
  "classify_blocks im gap index [] = ([], [])"
| "classify_blocks im gap index (item # items) =
     (let (fs, ws) = classify_block im gap index item;
          (fs', ws') = classify_blocks im gap (index + length fs) items
      in (fs @ fs', ws @ ws'))"

definition recovered_within :: "pe_image \<Rightarrow> declared_roots \<Rightarrow> side \<Rightarrow> int list \<Rightarrow> recovered list" where
  "recovered_within im roots span bytes =
     (let prefix = decodable_prefix im span bytes in
      filter (\<lambda>b. sd_start span \<le> sd_start (rc_block b) \<and> sd_start (rc_block b) < sd_end (rc_block b)
                \<and> sd_end (rc_block b) \<le> sd_end span)
        (recover_basic_blocks im roots (sd_start prefix) (sd_end prefix)))"

text \<open>One span of the queue: its fragments, what is waived and what is left to classify.\<close>

definition classify_span ::
  "pe_image \<Rightarrow> declared_roots \<Rightarrow> nat \<Rightarrow> nat \<Rightarrow> side \<Rightarrow> code_fragment list \<times> side list \<times> side list" where
  "classify_span im roots gap index span =
     (let bytes = im_data im (sd_start span) (side_size span) in
      if int (length bytes) \<noteq> side_size span then ([unreadable_fragment gap index span bytes], [], [])
      else if is_padding_bytes im (sd_start span) bytes then ([], [span], [])
      else let items = recovered_within im roots span bytes in
        if items = []
        then ([\<lparr>cf_gap = gap, cf_index = index, cf_block = span, cf_bytes = bytes,
                cf_key = fragment_key ''unrecovered_section_gap_fragment'' span\<rparr>], [], [])
        else let (fs, ws) = classify_blocks im gap index items
          in (fs, ws, filter (\<lambda>r. side_size r > 0) (gaps_of (sd_start span) (sd_end span) (map rc_block items))))"

definition queue_size :: "side list \<Rightarrow> nat" where
  "queue_size queue = sum_list (map (nat \<circ> side_size) queue)"

lemma span_addresses_simps [simp]:
  "span_addresses \<lparr>sd_start = a, sd_end = b\<rparr> = {a ..< b}" "finite (span_addresses r)"
  by (simp_all add: span_addresses_def)

lemma card_span_addresses: "card (span_addresses r) = nat (side_size r)"
  by (simp add: span_addresses_def side_size_def)

lemma ordered_disjoint:
  "ordered_sides rs \<Longrightarrow> \<forall>r\<in>set rs. sd_start r < sd_end r \<Longrightarrow> queue_size rs = card (\<Union> (span_addresses ` set rs))"
proof (induction rs)
  case (Cons r rs)
  have apart: "span_addresses r \<inter> \<Union> (span_addresses ` set rs) = {}"
    using Cons.prems(1) by (fastforce simp: ordered_sides_def span_addresses_def)
  have "queue_size rs = card (\<Union> (span_addresses ` set rs))" using Cons by (simp add: ordered_sides_def)
  then show ?case
    using card_Un_disjoint[OF _ _ apart] by (simp add: queue_size_def card_span_addresses)
qed (simp add: queue_size_def)

text \<open>What is left of a span after some of it was recovered is strictly smaller.\<close>

lemma residue_smaller:
  assumes "items \<noteq> []" "\<forall>b\<in>set items. sd_start span \<le> sd_start b \<and> sd_start b < sd_end b \<and> sd_end b \<le> sd_end span"
  shows "queue_size (gaps_of (sd_start span) (sd_end span) items) < nat (side_size span)"
proof -
  let ?gs = "gaps_of (sd_start span) (sd_end span) items"
  obtain b where b: "b \<in> set items" using assms(1) by (meson last_in_set)
  have le: "\<forall>r\<in>set items. sd_start r \<le> sd_end r" "sd_start span \<le> sd_end span"
    using assms(2) b by force+
  note gs = gaps_ordered[OF le]
  have "\<Union> (span_addresses ` set ?gs) \<subset> span_addresses span"
  proof
    show "\<Union> (span_addresses ` set ?gs) \<subseteq> span_addresses span" using gs(2) by (fastforce simp: span_addresses_def)
    have "sd_start b \<notin> \<Union> (span_addresses ` set ?gs)"
      using gaps_cover[OF le(1), of "sd_start span" "sd_end span" "sd_start b"] b assms(2) by (auto simp: span_addresses_def)
    moreover have "sd_start b \<in> span_addresses span" using assms(2) b by (auto simp: span_addresses_def)
    ultimately show "\<Union> (span_addresses ` set ?gs) \<noteq> span_addresses span" by blast
  qed
  then have "card (\<Union> (span_addresses ` set ?gs)) < card (span_addresses span)" by (simp add: psubset_card_mono)
  then show ?thesis using ordered_disjoint[OF gs(1)] gs(2) by (simp add: card_span_addresses)
qed

lemma queue_size_filter: "queue_size (filter P rs) \<le> queue_size rs"
  by (induction rs) (auto simp: queue_size_def)

lemma classify_span_smaller:
  "classify_span im roots gap index span = (fs, ws, residues) \<Longrightarrow> 0 < side_size span \<Longrightarrow> queue_size residues < nat (side_size span)"
proof -
  assume a: "classify_span im roots gap index span = (fs, ws, residues)" "0 < side_size span"
  let ?bs = "map rc_block (recovered_within im roots span (im_data im (sd_start span) (side_size span)))"
  have "residues = [] \<or> (?bs \<noteq> [] \<and> residues = filter (\<lambda>r. side_size r > 0) (gaps_of (sd_start span) (sd_end span) ?bs))"
    using a(1) by (auto simp: classify_span_def Let_def split: if_split_asm prod.splits)
  then show ?thesis
  proof
    assume "?bs \<noteq> [] \<and> residues = filter (\<lambda>r. side_size r > 0) (gaps_of (sd_start span) (sd_end span) ?bs)"
    moreover have "\<forall>b\<in>set ?bs. sd_start span \<le> sd_start b \<and> sd_start b < sd_end b \<and> sd_end b \<le> sd_end span"
      by (auto simp: recovered_within_def Let_def)
    ultimately show ?thesis
      using residue_smaller[of ?bs span] queue_size_filter[of "\<lambda>r. side_size r > 0"] by (metis order_le_less_trans)
  qed (use a(2) in \<open>simp add: queue_size_def\<close>)
qed

text \<open>The queue of spans of one gap, with the spans already seen.\<close>

function classify_queue ::
  "pe_image \<Rightarrow> declared_roots \<Rightarrow> nat \<Rightarrow> nat \<Rightarrow> (int \<times> int) set \<Rightarrow> side list \<Rightarrow> code_fragment list \<times> side list" where
  "classify_queue im roots gap index seen [] = ([], [])"
| "classify_queue im roots gap index seen (span # queue) =
     (if (sd_start span, sd_end span) \<in> seen \<or> side_size span \<le> 0 then classify_queue im roots gap index seen queue
      else case classify_span im roots gap index span of
        (fs, ws, residues) \<Rightarrow>
          (case classify_queue im roots gap (index + length fs) (insert (sd_start span, sd_end span) seen) (queue @ residues) of
            (fs', ws') \<Rightarrow> (fs @ fs', ws @ ws')))"
  by pat_completeness auto
termination
proof (relation "measures [\<lambda>(_, _, _, _, _, queue). queue_size queue, \<lambda>(_, _, _, _, _, queue). length queue]", goal_cases)
  case (3 im roots gap index seen span queue fs y ws residues)
  then have "queue_size residues < nat (side_size span)"
    using classify_span_smaller[of im roots gap index span fs ws residues] by simp
  then show ?case by (simp add: queue_size_def)
qed (auto simp: queue_size_def)

fun classify_gaps :: "pe_image \<Rightarrow> declared_roots \<Rightarrow> nat \<Rightarrow> side list \<Rightarrow> code_fragment list \<times> side list" where
  "classify_gaps im roots index [] = ([], [])"
| "classify_gaps im roots index (gap # gaps) =
     (let (fs, ws) = classify_queue im roots index 0 {} [gap];
          (fs', ws') = classify_gaps im roots (Suc index) gaps
      in (fs @ fs', ws @ ws'))"

definition section_gap_code_blocks ::
  "string \<Rightarrow> pe_image \<Rightarrow> declared_roots \<Rightarrow> side list \<Rightarrow> code_fragment list \<times> json list" where
  "section_gap_code_blocks binary im roots gaps =
     (let (fs, ws) = classify_gaps im roots 0 gaps in
      (sort_key (sd_start \<circ> cf_block) (sort_key (sd_end \<circ> cf_block) fs), map (padding_waiver binary) ws))"

end
