(* ===== verification/Recovery_Partition.thy ===== *)
theory Recovery_Partition
  imports Code_Recovery
begin

text \<open>
  The classification of the gaps is a partition: every address of a gap is in exactly one code
  fragment or waived range.
\<close>

section \<open>Linear decoding\<close>

text \<open>
  What Capstone documents of \<open>disasm\<close>: the instructions follow each other from the given address and
  stay within the bytes given; and of \<open>get_data\<close>: it returns no more than was asked for.
\<close>

fun back_to_back :: "int \<Rightarrow> insn list \<Rightarrow> bool" where
  "back_to_back a [] = True"
| "back_to_back a (i # is) = (in_address i = a \<and> 0 < in_size i \<and> back_to_back (a + in_size i) is)"

definition linear_decoder :: "pe_image \<Rightarrow> bool" where
  "linear_decoder im \<longleftrightarrow>
     (\<forall>bytes a. back_to_back a (im_decode im bytes a) \<and> decoded_bytes (im_decode im bytes a) \<le> int (length bytes))"

definition bounded_reads :: "pe_image \<Rightarrow> bool" where
  "bounded_reads im \<longleftrightarrow> (\<forall>a n. 0 \<le> n \<longrightarrow> int (length (im_data im a n)) \<le> n)"

lemma decoded_bytes_simps [simp]:
  "decoded_bytes [] = 0" "decoded_bytes (i # is) = in_size i + decoded_bytes is"
  "decoded_bytes (xs @ ys) = decoded_bytes xs + decoded_bytes ys"
  by (simp_all add: decoded_bytes_def)

lemma back_to_back_nonneg: "back_to_back a is \<Longrightarrow> 0 \<le> decoded_bytes is"
  by (induction a "is" rule: back_to_back.induct) auto

lemma back_to_back_append: "back_to_back a (xs @ ys) \<longleftrightarrow> back_to_back a xs \<and> back_to_back (a + decoded_bytes xs) ys"
  by (induction a xs rule: back_to_back.induct) (auto simp: add.assoc)

lemma back_to_back_member:
  "back_to_back a is \<Longrightarrow> i \<in> set is \<Longrightarrow> a \<le> in_address i \<and> 0 < in_size i \<and> in_address i + in_size i \<le> a + decoded_bytes is"
proof (induction a "is" rule: back_to_back.induct)
  case (2 a j js)
  then have "0 \<le> decoded_bytes js" using back_to_back_nonneg by auto
  then show ?case using 2 by force
qed simp

lemma back_to_back_next:
  "back_to_back a is \<Longrightarrow> i \<in> set is \<Longrightarrow> j \<in> set is \<Longrightarrow> in_address i < in_address j \<Longrightarrow> in_address i + in_size i \<le> in_address j"
proof (induction a "is" rule: back_to_back.induct)
  case (2 a k ks)
  have "a + in_size k \<le> in_address x" if "x \<in> set ks" for x using back_to_back_member[of "a + in_size k" ks x] 2(2) that by auto
  then show ?case using 2 by fastforce
qed simp

lemma decode_linear:
  assumes "linear_decoder im"
  shows "back_to_back (im_base im + rva) (decode_at im rva bytes)" "decoded_bytes (decode_at im rva bytes) \<le> int (length bytes)"
  using assms by (simp_all add: linear_decoder_def decode_at_def)

lemma decode_member:
  assumes "linear_decoder im" "i \<in> set (decode_at im rva bytes)"
  shows "rva \<le> insn_rva im i" "0 < in_size i" "insn_rva im i + in_size i \<le> rva + decoded_bytes (decode_at im rva bytes)"
  using back_to_back_member[OF decode_linear(1)[OF assms(1)] assms(2)] by (simp_all add: insn_rva_def)

lemma decode_next:
  assumes "linear_decoder im" "i \<in> set (decode_at im rva bytes)" "j \<in> set (decode_at im rva bytes)" "insn_rva im i < insn_rva im j"
  shows "insn_rva im i + in_size i \<le> insn_rva im j"
  using back_to_back_next[OF decode_linear(1)[OF assms(1)] assms(2,3)] assms(4) by (simp add: insn_rva_def)

section \<open>Counting pieces\<close>

definition pieces_at :: "int \<Rightarrow> side list \<Rightarrow> nat" where
  "pieces_at x rs = length (filter (\<lambda>r. x \<in> span_addresses r) rs)"

lemma pieces_at_simps [simp]:
  "pieces_at x [] = 0" "pieces_at x (r # rs) = of_bool (x \<in> span_addresses r) + pieces_at x rs"
  "pieces_at x (rs @ rs') = pieces_at x rs + pieces_at x rs'"
  by (simp_all add: pieces_at_def)

lemma pieces_at_zero: "pieces_at x rs = 0 \<longleftrightarrow> (\<forall>r\<in>set rs. x \<notin> span_addresses r)"
  by (induction rs) auto

lemma pieces_at_filter: "pieces_at x (filter (\<lambda>r. side_size r > 0) rs) = pieces_at x rs"
  by (induction rs) (auto simp: span_addresses_def side_size_def)

lemma pieces_at_ordered: "ordered_sides rs \<Longrightarrow> \<forall>r\<in>set rs. sd_start r \<le> sd_end r \<Longrightarrow>
    pieces_at x rs = of_bool (\<exists>r\<in>set rs. x \<in> span_addresses r)"
proof (induction rs)
  case (Cons r rs)
  then have IH: "pieces_at x rs = of_bool (\<exists>r\<in>set rs. x \<in> span_addresses r)" by (simp add: ordered_sides_def)
  show ?case
  proof (cases "x \<in> span_addresses r")
    case True
    have "x \<notin> span_addresses q" if "q \<in> set rs" for q
    proof -
      have "sd_end r \<le> sd_start q" using that Cons.prems(1) by (simp add: ordered_sides_def)
      then show ?thesis using True by (auto simp: span_addresses_def)
    qed
    then show ?thesis using True IH by simp
  qed (simp add: IH)
qed simp

lemma pieces_at_perm: "mset rs = mset rs' \<Longrightarrow> pieces_at x rs = pieces_at x rs'"
  unfolding pieces_at_def by (metis mset_filter size_mset)

lemma pieces_at_sorted: "pieces_at x (map f (sort_key k rs)) = pieces_at x (map f rs)"
  by (rule pieces_at_perm) simp

lemma pieces_at_twice: "i < j \<Longrightarrow> j < length rs \<Longrightarrow> x \<in> span_addresses (rs ! i) \<Longrightarrow> x \<in> span_addresses (rs ! j) \<Longrightarrow>
    2 \<le> pieces_at x rs"
proof (induction rs arbitrary: i j)
  case (Cons r rs)
  show ?case
  proof (cases i)
    case 0
    then have "rs ! (j - 1) \<in> set rs" "x \<in> span_addresses (rs ! (j - 1))" using Cons.prems by (cases j; simp)+
    then have "pieces_at x rs \<noteq> 0" using pieces_at_zero by blast
    then show ?thesis using 0 Cons.prems by simp
  next
    case (Suc k)
    then show ?thesis using Cons.IH[of k "j - 1"] Cons.prems by (cases j) auto
  qed
qed simp

section \<open>Recovered blocks are in order\<close>

lemma set_update_subset: "set (AList.update k v d) \<subseteq> insert (k, v) (set d)"
  by (induction d) auto

lemma set_dict_of: "set (dict_of ps) \<subseteq> set ps"
proof -
  have "set (foldl (\<lambda>d p. AList.update (fst p) (snd p) d) d ps) \<subseteq> set d \<union> set ps" for d
  proof (induction ps arbitrary: d)
    case (Cons p ps)
    show ?case using Cons[of "AList.update (fst p) (snd p) d"] set_update_subset[of "fst p" "snd p" d] by auto
  qed simp
  from this[of "[]"] show ?thesis by (simp add: dict_of_def)
qed

lemma by_address_member:
  assumes "(rva, i) \<in> set (by_address im instructions)"
  shows "i \<in> set instructions" "insn_rva im i = rva"
  using assms set_dict_of[of "map (\<lambda>i. (insn_rva im i, i)) instructions"] by (auto simp: by_address_def)

lemma block_end_bound:
  assumes "linear_decoder im" "instructions = decode_at im lo bytes" "lo + decoded_bytes instructions \<le> hi"
    "next_start = hi \<or> next_start \<in> fst ` set (by_address im instructions)"
  shows "block_end im (by_address im instructions) start next_start \<le> next_start"
proof (cases "find (\<lambda>(rva, i). start \<le> rva \<and> rva < next_start \<and> (ends_basic_block i \<or> is_noreturn_import_call im i)) (by_address im instructions)")
  case (Some p)
  obtain rva i where p: "p = (rva, i)" by (cases p)
  then have m: "(rva, i) \<in> set (by_address im instructions)" "rva < next_start"
    using Some by (force simp: find_Some_iff in_set_conv_nth)+
  note i = by_address_member[OF m(1)]
  have "rva + in_size i \<le> next_start"
    using assms(4)
  proof
    assume "next_start = hi"
    then show ?thesis using decode_member(3)[OF assms(1), of i lo bytes] i assms(2,3) by simp
  next
    assume "next_start \<in> fst ` set (by_address im instructions)"
    then obtain j where "(next_start, j) \<in> set (by_address im instructions)" by auto
    note j = by_address_member[OF this]
    show ?thesis using decode_next[OF assms(1), of i lo bytes j] i j assms(2) m(2) by simp
  qed
  then show ?thesis using Some p by (simp add: block_end_def)
qed (simp add: block_end_def)

lemma recovered_block_bounds:
  assumes "recovered_block im lo hi table start next_start index = Some b"
  shows "sd_start (rc_block b) = start" "sd_end (rc_block b) = block_end im table start next_start"
    "start < block_end im table start next_start"
  using assms by (auto simp: recovered_block_def Let_def split: if_split_asm)

lemma recovered_blocks_ordered:
  assumes "linear_decoder im" "instructions = decode_at im lo bytes" "lo + decoded_bytes instructions \<le> hi"
    "set starts \<subseteq> fst ` set (by_address im instructions)" "sorted_wrt (<) starts"
  shows "ordered_sides (map rc_block (recovered_blocks im lo hi (by_address im instructions) index starts))
    \<and> (\<forall>b\<in>set (recovered_blocks im lo hi (by_address im instructions) index starts).
         sd_start (rc_block b) \<in> set starts \<and> sd_start (rc_block b) < sd_end (rc_block b))"
  using assms(4,5)
proof (induction starts arbitrary: index)
  case (Cons start starts)
  let ?n = "case starts of [] \<Rightarrow> hi | s # _ \<Rightarrow> s"
  have IH: "ordered_sides (map rc_block (recovered_blocks im lo hi (by_address im instructions) k starts))
      \<and> (\<forall>b\<in>set (recovered_blocks im lo hi (by_address im instructions) k starts).
           sd_start (rc_block b) \<in> set starts \<and> sd_start (rc_block b) < sd_end (rc_block b))" for k
    using Cons by simp
  show ?case
  proof (cases "recovered_block im lo hi (by_address im instructions) start ?n index")
    case None
    then show ?thesis using IH by auto
  next
    case (Some b)
    have stop: "sd_end (rc_block b) \<le> ?n"
      unfolding recovered_block_bounds(2)[OF Some]
      by (rule block_end_bound[OF assms(1-3)]) (use Cons.prems(1) in \<open>auto split: list.split\<close>)
    have "sd_end (rc_block b) \<le> s" if "s \<in> set starts" for s
      using stop that Cons.prems(2) by (cases starts) auto
    then show ?thesis using Some IH recovered_block_bounds[OF Some] by (auto simp: ordered_sides_def)
  qed
qed (simp add: ordered_sides_def)

lemma recovered_ordered:
  assumes "linear_decoder im" "bounded_reads im" "lo \<le> hi"
  shows "ordered_sides (map rc_block (recover_basic_blocks im roots lo hi))"
proof -
  define bytes where "bytes = im_data im lo (hi - lo)"
  define instructions where "instructions = decode_at im lo bytes"
  define starts where "starts = block_starts im roots lo hi instructions"
  have single: "ordered_sides (map rc_block [function_range_block im lo hi bytes instructions])" by (simp add: ordered_sides_def)
  have bound: "lo + decoded_bytes instructions \<le> hi"
    using decode_linear(2)[OF assms(1), of lo bytes] assms(2,3) unfolding bounded_reads_def instructions_def bytes_def
    by (smt (verit))
  have starts: "set starts \<subseteq> fst ` set (by_address im instructions)" unfolding starts_def block_starts_def by auto
  have strict: "sorted_wrt (<) starts"
    unfolding starts_def block_starts_def
    by (rule sorted_wrt_filter) (simp only: strict_sorted_iff sorted_sort distinct_sort distinct_remdups simp_thms)
  have "ordered_sides (map rc_block (recovered_blocks im lo hi (by_address im instructions) 0 starts))"
    using recovered_blocks_ordered[OF assms(1) instructions_def bound starts strict] by blast
  then show ?thesis using single
    by (simp add: recover_basic_blocks_def Let_def bytes_def[symmetric] instructions_def[symmetric] starts_def[symmetric])
qed

section \<open>One block and one span\<close>

lemma trim_partition:
  assumes "linear_decoder im" "trim_padding_edges im block bytes = (padding, code, code_bytes)"
    "int (length bytes) = side_size block"
  shows "pieces_at x (padding @ (case code of None \<Rightarrow> [] | Some c \<Rightarrow> [c])) = of_bool (x \<in> span_addresses block)"
proof -
  define instructions where "instructions = decode_at im (sd_start block) bytes"
  show ?thesis
  proof (cases "decoded_bytes instructions \<noteq> int (length bytes) \<or> dropWhile is_padding_instruction instructions = []")
    case True
    then have "(padding, code) = ([], Some block) \<or> (padding, code) = ([block], None)"
      using assms(2) unfolding trim_padding_edges_def instructions_def Let_def
      by (elim disjE) (simp_all del: dropWhile_eq_Nil_conv split: if_split_asm)
    then show ?thesis by auto
  next
    case False
    then obtain first rest where first: "dropWhile is_padding_instruction instructions = first # rest"
      by (meson list.exhaust)
    define lastcode where "lastcode = last (first # rev (dropWhile is_padding_instruction (rev rest)))"
    have split: "instructions = takeWhile is_padding_instruction instructions @ first # rest"
      unfolding first[symmetric] by simp
    have tail: "set (rev (dropWhile is_padding_instruction (rev rest))) \<subseteq> set rest" using set_dropWhileD by fastforce
    have lastcode: "lastcode \<in> set (first # rest)"
    proof -
      have "lastcode \<in> set (first # rev (dropWhile is_padding_instruction (rev rest)))"
        unfolding lastcode_def by (rule last_in_set) simp
      then show ?thesis using tail by auto
    qed
    have lin: "back_to_back (im_base im + sd_start block) instructions"
      unfolding instructions_def by (rule decode_linear(1)[OF assms(1)])
    have mem: "first \<in> set instructions" "lastcode \<in> set instructions" using lastcode split by (metis Un_iff set_append list.set_intros(1))+
    have "back_to_back (im_base im + sd_start block) (takeWhile is_padding_instruction instructions @ first # rest)"
      using lin split by simp
    then have suffix: "back_to_back (in_address first) (first # rest)" by (auto simp: back_to_back_append)
    have order: "in_address first \<le> in_address lastcode" using back_to_back_member[OF suffix lastcode] by simp
    note f = decode_member[OF assms(1) mem(1)[unfolded instructions_def], folded instructions_def]
    note l = decode_member[OF assms(1) mem(2)[unfolded instructions_def], folded instructions_def]
    have size: "sd_start block + decoded_bytes instructions = sd_end block" using False assms(3) by (simp add: side_size_def)
    have ab: "sd_start block \<le> insn_rva im first" "insn_rva im first < insn_rva im lastcode + in_size lastcode"
      "insn_rva im lastcode + in_size lastcode \<le> sd_end block"
      using f l size order by (auto simp: insn_rva_def)
    have "trim_padding_edges im block bytes =
       ((if sd_start block < insn_rva im first then [\<lparr>sd_start = sd_start block, sd_end = insn_rva im first\<rparr>] else [])
        @ (if insn_rva im lastcode + in_size lastcode < sd_end block
           then [\<lparr>sd_start = insn_rva im lastcode + in_size lastcode, sd_end = sd_end block\<rparr>] else []),
        Some \<lparr>sd_start = insn_rva im first, sd_end = insn_rva im lastcode + in_size lastcode\<rparr>,
        im_data im (insn_rva im first) (insn_rva im lastcode + in_size lastcode - insn_rva im first))"
      using False unfolding trim_padding_edges_def Let_def instructions_def[symmetric] first list.case lastcode_def by simp
    then have "padding = (if sd_start block < insn_rva im first then [\<lparr>sd_start = sd_start block, sd_end = insn_rva im first\<rparr>] else [])
        @ (if insn_rva im lastcode + in_size lastcode < sd_end block
           then [\<lparr>sd_start = insn_rva im lastcode + in_size lastcode, sd_end = sd_end block\<rparr>] else [])"
      "code = Some \<lparr>sd_start = insn_rva im first, sd_end = insn_rva im lastcode + in_size lastcode\<rparr>"
      using assms(2) by (simp_all only: prod.inject)
    then show ?thesis using ab by (auto simp: span_addresses_def)
  qed
qed

lemma classify_block_partition:
  assumes "linear_decoder im" "classify_block im gap index item = (fs, ws)"
  shows "pieces_at x (map cf_block fs @ ws) = of_bool (x \<in> span_addresses (rc_block item))"
proof -
  obtain padding code code_bytes where t:
    "trim_padding_edges im (rc_block item) (im_data im (sd_start (rc_block item)) (side_size (rc_block item))) = (padding, code, code_bytes)"
    by (metis prod_cases3)
  show ?thesis
  proof (cases "int (length (im_data im (sd_start (rc_block item)) (side_size (rc_block item)))) = side_size (rc_block item)")
    case True
    note p = trim_partition[OF assms(1) t True, of x]
    show ?thesis
      using assms(2) p True
      by (cases code) (auto simp: classify_block_def Let_def t split: if_split_asm)
  qed (use assms(2) in \<open>auto simp: classify_block_def unreadable_fragment_def Let_def\<close>)
qed

lemma classify_blocks_partition:
  assumes "linear_decoder im" "classify_blocks im gap index items = (fs, ws)"
  shows "pieces_at x (map cf_block fs @ ws) = pieces_at x (map rc_block items)"
  using assms(2)
proof (induction items arbitrary: index fs ws)
  case (Cons item items)
  obtain fs1 ws1 where a: "classify_block im gap index item = (fs1, ws1)" by (cases "classify_block im gap index item")
  obtain fs2 ws2 where b: "classify_blocks im gap (index + length fs1) items = (fs2, ws2)"
    by (cases "classify_blocks im gap (index + length fs1) items")
  show ?case using Cons.prems Cons.IH[OF b] classify_block_partition[OF assms(1) a, of x] a b by (auto simp: Let_def)
qed simp

lemma span_partition_prefix:
  assumes "linear_decoder im"
  shows "sd_start (decodable_prefix im span bytes) = sd_start span"
  by (simp add: decodable_prefix_def Let_def)

lemma prefix_nonneg:
  assumes "linear_decoder im" "0 < side_size span"
  shows "sd_start (decodable_prefix im span bytes) \<le> sd_end (decodable_prefix im span bytes)"
  using assms by (auto simp: decodable_prefix_def Let_def side_size_def)

lemma recovered_within_ordered:
  assumes "linear_decoder im" "bounded_reads im" "0 < side_size span"
  shows "ordered_sides (map rc_block (recovered_within im roots span bytes))"
proof -
  have "ordered_sides (map rc_block (recover_basic_blocks im roots (sd_start (decodable_prefix im span bytes))
          (sd_end (decodable_prefix im span bytes))))"
    by (rule recovered_ordered[OF assms(1,2) prefix_nonneg[OF assms(1,3)]])
  then show ?thesis unfolding recovered_within_def Let_def ordered_sides_def sorted_wrt_map by (rule sorted_wrt_filter)
qed

lemma recovered_within_bounds:
  "b \<in> set (map rc_block (recovered_within im roots span bytes)) \<Longrightarrow>
    sd_start span \<le> sd_start b \<and> sd_start b < sd_end b \<and> sd_end b \<le> sd_end span"
  by (auto simp: recovered_within_def Let_def)

lemma blocks_and_gaps:
  assumes "ordered_sides blocks" "sd_start span < sd_end span"
    "\<forall>b\<in>set blocks. sd_start span \<le> sd_start b \<and> sd_start b < sd_end b \<and> sd_end b \<le> sd_end span"
  shows "pieces_at x (blocks @ gaps_of (sd_start span) (sd_end span) blocks) = of_bool (x \<in> span_addresses span)"
proof -
  have le: "\<forall>r\<in>set blocks. sd_start r \<le> sd_end r" "sd_start span \<le> sd_end span" using assms(2,3) by force+
  have gaps: "\<forall>g\<in>set (gaps_of (sd_start span) (sd_end span) blocks). sd_start g \<le> sd_end g" using gaps_ordered(2)[OF le] by force
  show ?thesis
    unfolding pieces_at_simps pieces_at_ordered[OF assms(1) le(1)] pieces_at_ordered[OF gaps_ordered(1)[OF le] gaps]
      gaps_cover[OF le(1)]
    using assms(3) by (fastforce simp: span_addresses_def)
qed

lemma classify_span_partition:
  assumes "linear_decoder im" "bounded_reads im" "0 < side_size span"
    "classify_span im roots gap index span = (fs, ws, residues)"
  shows "pieces_at x (map cf_block fs @ ws @ residues) = of_bool (x \<in> span_addresses span)"
proof -
  define bytes where "bytes = im_data im (sd_start span) (side_size span)"
  define items where "items = recovered_within im roots span bytes"
  show ?thesis
  proof (cases "int (length bytes) \<noteq> side_size span \<or> is_padding_bytes im (sd_start span) bytes \<or> items = []")
    case True
    then show ?thesis using assms(4)
      by (auto simp: classify_span_def bytes_def[symmetric] items_def[symmetric] Let_def unreadable_fragment_def split: if_split_asm)
  next
    case False
    obtain fs' ws' where c: "classify_blocks im gap index items = (fs', ws')" by (cases "classify_blocks im gap index items")
    have r: "fs = fs'" "ws = ws'"
      "residues = filter (\<lambda>r. side_size r > 0) (gaps_of (sd_start span) (sd_end span) (map rc_block items))"
      using assms(4) False c by (auto simp: classify_span_def bytes_def[symmetric] items_def[symmetric] Let_def)
    have "pieces_at x (map rc_block items @ gaps_of (sd_start span) (sd_end span) (map rc_block items))
        = of_bool (x \<in> span_addresses span)"
      by (rule blocks_and_gaps)
        (use recovered_within_ordered[OF assms(1,2,3)] recovered_within_bounds assms(3) in \<open>auto simp: items_def side_size_def\<close>)
    then show ?thesis using classify_blocks_partition[OF assms(1) c, of x] r by (simp add: pieces_at_filter)
  qed
qed

lemma residue_positive:
  "classify_span im roots gap index span = (fs, ws, residues) \<Longrightarrow> r \<in> set residues \<Longrightarrow> 0 < side_size r"
  by (auto simp: classify_span_def Let_def split: if_split_asm prod.splits)

section \<open>The queue\<close>

text \<open>
  Every span of the queue is apart from the spans seen before, or strictly within one: no span is met
  twice, so the set of spans seen never drops one.
\<close>

definition fresh_queue :: "(int \<times> int) set \<Rightarrow> side list \<Rightarrow> bool" where
  "fresh_queue seen queue \<longleftrightarrow>
     (\<forall>q\<in>set queue. 0 < side_size q) \<and> (\<forall>x. pieces_at x queue \<le> 1)
     \<and> (\<forall>q\<in>set queue. \<forall>(a, b)\<in>seen. span_addresses q \<inter> {a ..< b} = {} \<or> span_addresses q \<subset> {a ..< b})"

lemma fresh_apart:
  "fresh_queue seen queue \<Longrightarrow> q \<in> set queue \<Longrightarrow> (a, b) \<in> seen \<Longrightarrow>
    span_addresses q \<inter> {a ..< b} = {} \<or> span_addresses q \<subset> {a ..< b}"
  unfolding fresh_queue_def by (elim conjE) (drule (1) bspec, drule (1) bspec, simp)

lemma fresh_not_seen:
  assumes "fresh_queue seen (span # queue)"
  shows "(sd_start span, sd_end span) \<notin> seen"
proof
  assume "(sd_start span, sd_end span) \<in> seen"
  from fresh_apart[OF assms _ this, of span]
  have "span_addresses span \<inter> span_addresses span = {} \<or> span_addresses span \<subset> span_addresses span"
    unfolding span_addresses_def by simp
  then have "span_addresses span = {}" by blast
  moreover have "0 < side_size span" using assms by (simp add: fresh_queue_def)
  ultimately show False by (simp add: span_addresses_def side_size_def)
qed

lemma residue_within:
  assumes "linear_decoder im" "bounded_reads im" "0 < side_size span"
    "classify_span im roots gap index span = (fs, ws, residues)" "r \<in> set residues"
  shows "span_addresses r \<subset> span_addresses span"
proof
  show "span_addresses r \<subseteq> span_addresses span"
  proof
    fix x assume "x \<in> span_addresses r"
    then have "pieces_at x residues \<noteq> 0" using assms(5) pieces_at_zero by blast
    then show "x \<in> span_addresses span"
      using classify_span_partition[OF assms(1-4), of x] by (cases "x \<in> span_addresses span") simp_all
  qed
  have "nat (side_size r) \<le> queue_size residues" unfolding queue_size_def using assms(5) by (auto intro: member_le_sum_list)
  then have "nat (side_size r) < nat (side_size span)" using classify_span_smaller[OF assms(4,3)] by (rule order_le_less_trans)
  then show "span_addresses r \<noteq> span_addresses span" by (metis card_span_addresses nat_neq_iff)
qed

lemma fresh_queue_step:
  assumes "linear_decoder im" "bounded_reads im" "fresh_queue seen (span # queue)"
    "classify_span im roots gap index span = (fs, ws, residues)"
  shows "fresh_queue (insert (sd_start span, sd_end span) seen) (queue @ residues)"
proof -
  have size: "0 < side_size span" using assms(3) by (simp add: fresh_queue_def)
  note within = residue_within[OF assms(1,2) size assms(4)]
  have once: "of_bool (x \<in> span_addresses span) + pieces_at x queue \<le> (1::nat)" for x
    using assms(3) by (simp add: fresh_queue_def)
  have here: "{sd_start span ..< sd_end span} = span_addresses span" by (simp add: span_addresses_def)
  have unique: "\<forall>x. pieces_at x (queue @ residues) \<le> 1"
  proof
    fix x
    show "pieces_at x (queue @ residues) \<le> 1"
      using once[of x] classify_span_partition[OF assms(1,2) size assms(4), of x] by simp
  qed
  have positive: "\<forall>q\<in>set (queue @ residues). 0 < side_size q"
    using assms(3) residue_positive[OF assms(4)] by (auto simp: fresh_queue_def)
  have old: "span_addresses q \<inter> {a ..< b} = {} \<or> span_addresses q \<subset> {a ..< b}" if "q \<in> set (span # queue)" "(a, b) \<in> seen" for q a b
    using fresh_apart[OF assms(3) that] .
  have apart: "span_addresses q \<inter> span_addresses span = {}" if "q \<in> set queue" for q
  proof -
    have "x \<notin> span_addresses span" if "x \<in> span_addresses q" for x
      using once[of x] that \<open>q \<in> set queue\<close> pieces_at_zero[of x queue] by (auto split: if_split_asm)
    then show ?thesis by blast
  qed
  have "span_addresses q \<inter> {a ..< b} = {} \<or> span_addresses q \<subset> {a ..< b}"
    if q: "q \<in> set (queue @ residues)" and s: "(a, b) \<in> insert (sd_start span, sd_end span) seen" for q a b
  proof (cases "q \<in> set queue")
    case True
    then have "span_addresses q \<inter> {a ..< b} = {} \<or> span_addresses q \<subset> {a ..< b}" if "(a, b) \<in> seen"
      using old[of q a b] that by simp
    then show ?thesis using s apart[OF True] here by blast
  next
    case False
    then have r: "span_addresses q \<subset> span_addresses span" using q within by simp
    show ?thesis
    proof (cases "(a, b) \<in> seen")
      case True
      then have "span_addresses span \<inter> {a ..< b} = {} \<or> span_addresses span \<subset> {a ..< b}" using old[of span a b] by simp
      then show ?thesis using r by blast
    qed (use s r here in simp)
  qed
  then show ?thesis unfolding fresh_queue_def using unique positive by (intro conjI) blast+
qed

lemma classify_queue_step:
  assumes "fresh_queue seen (span # queue)" "classify_span im roots gap index span = (fs, ws, residues)"
  shows "classify_queue im roots gap index seen (span # queue) =
     (case classify_queue im roots gap (index + length fs) (insert (sd_start span, sd_end span) seen) (queue @ residues) of
        (fs', ws') \<Rightarrow> (fs @ fs', ws @ ws'))"
proof -
  have "0 < side_size span" using assms(1) by (simp add: fresh_queue_def)
  then show ?thesis using fresh_not_seen[OF assms(1)] assms(2) by (simp add: split_beta)
qed

lemma classify_queue_partition:
  "linear_decoder im \<Longrightarrow> bounded_reads im \<Longrightarrow> fresh_queue seen queue \<Longrightarrow> classify_queue im roots gap index seen queue = (fs, ws) \<Longrightarrow>
    pieces_at x (map cf_block fs @ ws) = pieces_at x queue"
proof (induction im roots gap index seen queue arbitrary: fs ws rule: classify_queue.induct)
  case (2 im roots gap index seen span queue)
  obtain fs1 ws1 residues where c: "classify_span im roots gap index span = (fs1, ws1, residues)" by (metis prod_cases3)
  obtain fs2 ws2 where q: "classify_queue im roots gap (index + length fs1) (insert (sd_start span, sd_end span) seen)
      (queue @ residues) = (fs2, ws2)" by (metis prod.exhaust)
  have size: "0 < side_size span" using 2(5) by (simp add: fresh_queue_def)
  have go: "\<not> ((sd_start span, sd_end span) \<in> seen \<or> side_size span \<le> 0)" using size fresh_not_seen[OF 2(5)] by simp
  have r: "fs = fs1 @ fs2" "ws = ws1 @ ws2"
    using 2(6) unfolding classify_queue_step[OF 2(5) c] q by simp_all
  have "pieces_at x (map cf_block fs2 @ ws2) = pieces_at x (queue @ residues)"
    using 2(2)[OF go c[symmetric] refl 2(3,4) fresh_queue_step[OF 2(3,4,5) c] q] .
  then show ?case using classify_span_partition[OF 2(3,4) size c, of x] r by simp
qed simp

lemma classify_gaps_partition:
  assumes "linear_decoder im" "bounded_reads im" "classify_gaps im roots index gaps = (fs, ws)"
  shows "pieces_at x (map cf_block fs @ ws) = pieces_at x gaps"
  using assms(3)
proof (induction gaps arbitrary: index fs ws)
  case (Cons gap gaps)
  obtain fs1 ws1 where a: "classify_queue im roots index 0 {} [gap] = (fs1, ws1)" by (metis prod.exhaust)
  obtain fs2 ws2 where b: "classify_gaps im roots (Suc index) gaps = (fs2, ws2)" by (metis prod.exhaust)
  have "pieces_at x (map cf_block fs1 @ ws1) = pieces_at x [gap]"
  proof (cases "0 < side_size gap")
    case True
    then show ?thesis by (intro classify_queue_partition[OF assms(1,2) _ a]) (simp add: fresh_queue_def)
  next
    case False
    then have "fs1 = []" "ws1 = []" using a by simp_all
    then show ?thesis using False by (simp add: span_addresses_def side_size_def)
  qed
  then show ?case using Cons.prems Cons.IH[OF b] a b by (auto simp: Let_def)
qed simp

end
