(* ===== verification/Spec2Isabelle.thy ===== *)
theory Spec2Isabelle
  imports Runtime_Agreement Sample_Rows Transfer_Coverage Transfer_Definedness Compiler_Events Compiler_Denotes
    Static_Transfers Symbolic_Compare Symbolic_Invariant Recovery_Partition
begin

text \<open>
  A verification library for the symbolic execution of machine code and the executable-transfer core
  of Spaghetti Extractor, the Python program under \<open>src/src/spaghetti_extractor\<close>.

  \<^bold>\<open>The program.\<close> Spaghetti Extractor recovers C programs from 32-bit x86 executables. Its front end
  finds the code of an image (\<open>extraction/executable_classification.py\<close>, \<open>extraction/cutpoints.py\<close>)
  and executes each block symbolically (\<open>static_program/semantics/\<close>): the instructions become
  expressions over the registers, flags and memory at entry, in a normal form, with ordered events and an
  outcome, written to a JSON row. Its core is the transfer language (\<open>transfer/\<close>): a recovered code unit is a transfer, a single-assignment
  graph of expression nodes over the registers, flags and memory at entry, and a list of ordered
  actions over those nodes that ends in one outcome. A compiler (\<open>transfer/compiler.py\<close>) makes a
  transfer of each semantic row of the machine IR. A registry (\<open>transfer/operations.py\<close>) fixes the
  operations. Several interpretations read the same transfers: generated C with its arithmetic
  helpers (\<open>transfer/runtime_helpers.py\<close>), a host evaluator used as differential oracle
  (\<open>transfer/evaluator.py\<close>), an analysis of undefined values (\<open>transfer/definedness.py\<close>), and a Z3
  term reconstruction. A plan (\<open>transfer/plan.py\<close>) is the document that carries the transfers of an
  executable, with their jump tables (\<open>transfer/finite_control.py\<close>) and the authority of their atomic
  effects, which rests on the memory actions of the machine IR (\<open>machine_ir/memory_actions.py\<close>).
  Each interpretation declares which operations it covers (\<open>transfer/interpretation.py\<close>).

  \<^bold>\<open>Theories and the code they model.\<close>
  \<^item> \<open>Prelude\<close>: Python's exceptions as the sum type \<open>res\<close>, its indexing and shifts on unbounded
    integers, dictionaries as association lists in insertion order, mask arithmetic.
  \<^item> \<open>Json_Value\<close>: JSON documents, the field readers of \<open>transfer/values.py\<close>, canonical text.
  \<^item> \<open>Transfer_Model\<close>: \<open>transfer/model.py\<close>. An operation name is a constructor of \<open>opname\<close>; the
    primitive functions \<open>op_name\<close>, ... give back the strings of the code.
  \<^item> \<open>Transfer_X87\<close>: \<open>transfer/x87.py\<close> and \<open>isa/x87_encoding.py\<close>; the instruction decoder is a
    parameter.
  \<^item> \<open>Transfer_Operations\<close>: \<open>transfer/operations.py\<close>, tables, native exceptions, runtime providers.
  \<^item> \<open>Transfer_Plan\<close>: the rows of \<open>transfer/plan.py\<close>, written and read, and the control edges.
    \<open>Plan_Codec\<close> shows that they are a round trip, through a locale \<open>row_codec\<close> interpreted on every
    kind of row; \<open>Plan_Safety\<close> that the reader's checks are what evaluation needs.
  \<^item> \<open>Memory_Actions\<close>: \<open>machine_ir/memory_actions.py\<close>, the builder as a fold over instructions and
    then events, the validator and the comparison of signatures; \<open>Action_Properties\<close> shows what a
    built graph conserves.
  \<^item> \<open>Finite_Control\<close>: the validator of \<open>transfer/finite_control.py\<close>; \<open>Control_Safety\<close> relates a
    recognised table load to its value in the evaluator.
  \<^item> \<open>Plan_Atomic\<close>: the atomic authority of \<open>transfer/plan.py\<close>. \<open>Plan_Document\<close>: the units of the
    machine IR, the collection of blockers and the reader of whole plans. \<open>Plan_Accept\<close>: what an
    accepted plan gives its consumers. \<open>Sample_Plans\<close>: the documents of the examples.
  \<^item> \<open>Compiler_Words\<close>, \<open>Transfer_Compiler\<close>, \<open>Compiler_Schedules\<close>, \<open>Compiler_Replay\<close>, \<open>Compile_Row\<close>:
    \<open>transfer/compiler.py\<close> with \<open>transfer/atomics.py\<close> and \<open>transfer/call_boundaries.py\<close>. The mutable
    compiler object is the record \<open>cstate\<close>, a method a computation from a state to a value with the
    next state or an error; expressions, events, instruction schedules, x87 replay and \<open>compile\<close>
    are one theory each.
  \<^item> \<open>Compiler_Logic\<close>: partial-correctness triples over such computations, as a locale for an
    invariant of states that only grow; \<open>Compiler_Graph\<close>, \<open>Compiler_Safety\<close> and \<open>Compiler_Denotes\<close>
    interpret it for the expression graph, for everything the compiler emits, and for its memo
    table. \<open>Compiler_Methods\<close> and \<open>Compiler_Paths\<close> have one lemma per method, \<open>Compiler_Results\<close>
    and \<open>Compiler_Events\<close> what follows for the transfers returned. \<open>Json_Text\<close> shows that
    canonical texts are unambiguous. \<open>Sample_Rows\<close>: the row of the examples.
  \<^item> \<open>Transfer_Arith\<close>: the arithmetic of the evaluator, on \<open>int\<close> with the masks the code writes.
  \<^item> \<open>Runtime_Helpers\<close>: the emitted C helpers, on \<open>32 word\<close> and \<open>64 word\<close>.
  \<^item> \<open>Runtime_Agreement\<close>: which of the two compute the same function.
  \<^item> \<open>Transfer_State\<close>: \<open>EvaluatorStateV1\<close> and \<open>EvaluatorMemoryV1\<close> with their payload readers.
  \<^item> \<open>Transfer_Eval\<close>: \<open>_eval_node\<close>, \<open>_evaluate_transfer\<close>, the string loops and
    \<open>evaluate_transfer_plan_case\<close>. A transfer runs as a fold of \<open>action_step\<close> over its actions;
    a step yields the next configuration, a result, or a Python exception with the configuration
    the code had mutated so far.
  \<^item> \<open>Byte_Store\<close>: the contract of a little-endian store as a locale, interpreted on the
    evaluator's memory.
  \<^item> \<open>Eval_Invariant\<close>, \<open>Eval_Properties\<close>, \<open>String_Loops\<close>, \<open>Eval_Case\<close>: what the evaluator
    guarantees; \<open>Eval_Case\<close> also models \<open>minimize_mismatch_case\<close>.
  \<^item> \<open>Symbolic_Expr\<close>: \<open>static_program/semantics/expressions.py\<close>, the tuples as the datatype \<open>sx\<close>, the
    constructors \<open>_expr_*\<close> and \<open>_canonical_expr\<close>. \<open>Symbolic_Fuel\<close> shows that the fuel of the normal form
    is enough, through a locale for steps that only call smaller expressions; \<open>Symbolic_Value\<close> gives
    expressions sorts and values and shows, through a locale interpreted on \<open>canonical_expr\<close>, that the
    normal form keeps both.
  \<^item> \<open>Machine_Code\<close>: the image, the instructions of the decoder and the evidence on control
    (\<open>pe32/model.py\<close>, \<open>semantics/support.py\<close>, \<open>semantics/instruction.py\<close>, \<open>semantics/control.py\<close>).
    \<open>Code_Ranges\<close>, \<open>Code_Recovery\<close>: \<open>extraction/executable_classification.py\<close>, with the queue of a gap as
    a terminating recursion; \<open>Recovery_Partition\<close> shows that it loses no byte. \<open>Cut_Points\<close>:
    \<open>extraction/cutpoints.py\<close> and \<open>extraction/x87_profile.py\<close>.
  \<^item> \<open>Symbolic_Flags\<close>, \<open>Symbolic_Operands\<close>: \<open>semantics/flags.py\<close> and \<open>semantics/operands.py\<close> over the record
    \<open>sym_state\<close>. \<open>Symbolic_Execute\<close>, \<open>Symbolic_Block\<close>: \<open>_symbolic_execute\<close>, one definition for each group
    of mnemonics, chosen by \<open>exec_insn\<close> and run by \<open>run_block\<close>; a step goes on with a state or halts with
    an incompleteness report or an exception. \<open>Symbolic_Rows\<close>, \<open>Symbolic_Schedule\<close>, \<open>Static_Transfers\<close>: the
    documents of \<open>semantics/transfer.py\<close>.
  \<^item> \<open>Symbolic_Arith\<close>, \<open>Symbolic_Compare\<close>, \<open>Symbolic_Parts\<close>: what arithmetic, comparisons, division,
    register parts and double shifts mean; \<open>Symbolic_Invariant\<close>: states whose registers hold words and
    whose flags hold conditions, and the operands read from them.
  \<^item> \<open>Transfer_Coverage\<close>: \<open>transfer/interpretation.py\<close> and the coverage declarations, with the
    coverage contract as a locale interpreted on the declarations of the code.
  \<^item> \<open>Transfer_Definedness\<close>: \<open>transfer/definedness.py\<close> and its noninterference theorem.

  \<^bold>\<open>What the lemmas show.\<close> Every byte of a section is in a known range, one code fragment or one waived
  padding range. The normal form of symbolic expressions ends and keeps their values; register parts are
  bit fields; a conditional jump after a compare is the comparison it is named for, signed division is
  exact, and double shifts are, except at the count zero. Compiled rows are transfers the plan reader accepts, their words are
  evaluated before they are read, their faults are those of the row, their evaluation ends, and
  sharing of nodes does not change the value of an expression. State and memory stay well formed on every path. Memoised evaluation is
  the denotation of an acyclic graph. Only two exceptions leave a registered node, the shift flags
  apart, whose IndexError leaves the whole case. Runs over an accepted plan stay on its control edges and end; its jump tables lead where
  they say. Memory-action graphs lose no event and keep the read and the
  write of an atomic instruction together. A row of the machine IR that is not compiled has one blocker,
  under its index and for its reason. The string instructions copy, fill and search as the instruction set prescribes. Slots
  the definedness analysis clears cannot influence a run. The evaluator's carry and
  borrow flags are exact, and the generated C computes the same values, except where stated: the
  overflow of subtract-with-borrow for the largest signed subtrahend and a borrow, the sign that an
  arithmetic shift keeps above its width, and the shift flags at count zero.

  \<^bold>\<open>Bounds.\<close> The normal form runs on a fuel computed from the expression (\<open>needs\<close>); \<open>canonical_from_any\<close>
  shows that calls nested deeper do not matter, \<open>canonical_unique\<close> that the recursion of the code, without
  fuel, has this one solution. The queue of a gap ends because what is
  left of a span is smaller than the span. Python recursion in \<open>_evaluate_transfer.word\<close> is the parameter \<open>depth\<close>, the recursion
  limit of the interpreter: exhausting it is the exception \<open>Recursion_error\<close>, and C3 shows that a
  depth above the index of a node is enough. The loops of the string instructions run on the count
  itself, which is a cached and so nonnegative word. \<open>run_case\<close> runs on \<open>max_steps\<close>, as the code
  does. The recursion of \<open>word\<close> in the compiler has the same bound as a parameter; its properties are about
  compilations that succeed, whatever the bound. The loops of the C bit scans have their exact number of iterations as fuel.

  \<^bold>\<open>Not modelled.\<close> Files; the parser of images and the Capstone decoder, which are the parameter record
  \<open>pe_image\<close> (where a property needs it, decoding is assumed to be linear, as documented); SHA-256, which is a parameter \<open>sha\<close> of the definitions that use it, and
  no property needs more of it than that its results are digests; the case id and digests of an
  observation; x87 operations, which the evaluator rejects; \<open>_x87_node\<close> of the compiler, which cannot
  be reached because \<open>x87\<close> always raises; the texts of messages; text of C programs. The closure over
  call sites, provenance and the rest of the repository are listed in the manifest.
\<close>

section \<open>A concrete case\<close>

text \<open>
  A transfer that adds five to \<open>eax\<close>, stores the sum and returns it, with one undefined value that
  nothing reads, and a case that starts it with \<open>eax = 7\<close> over seven mapped bytes.
\<close>

definition sample_transfer :: transfer where
  "sample_transfer =
     \<lparr>identity = ''unit'', contract_sha256 = [], instruction_bytes_sha256 = [], rva_start = 0x1000,
      nodes = [mk_node (Word Op_const) [] 0 5, mk_node (Word Op_reg) [] 0 0, mk_node (Word Op_add32) [0, 1] 0 0,
        (mk_node (Word Op_undefined_bv) [] 0 9)\<lparr>node_identity := Some ''u''\<rparr>],
      x87_nodes = [], actions = [mk_action (Eff Op_eval_word) [2] 0, mk_action (Eff Op_set_reg) [2] 0,
        mk_action (Eff Op_memory_write) [0, 2] 4, mk_action (Term Op_outcome_return) [2] 0],
      calls = [], x87_operations = [], exception_occurrences = []\<rparr>"

definition sample_case :: members where
  "sample_case =
     [(''format'', JStr case_format), (''entry_rva'', JInt 0x1000),
      (''state'', JObj [(''registers'', JObj [(''eax'', JInt 7)])]),
      (''memory'', JList [JObj [(''address'', JInt 4), (''bytes_hex'', JStr ''00112233445566'')]])]"

definition sample_graph :: env where
  "sample_graph = sample_env\<lparr>env_nodes := nodes sample_transfer\<rparr>"

section \<open>The evaluator\<close>

text \<open>
  C1: A case that the evaluator accepts ends in a well-formed state: registers, eflags and fs_base
  are 32-bit values, flags are bits, memory holds bytes, and exactly the addresses mapped by the
  case are mapped at the end, whatever the transfers do, on every error path the evaluator
  catches, provided the call handler returns well-formed states.
\<close>

theorem evaluate_case_invariant:
  assumes "handler_ok h" "evaluate_transfer_plan_case depth trs cs h = Inr ob"
    "memory_from_payload (jget cs ''memory'') = Inr m"
  shows "wf_state (obs_state ob) \<and> wf_memory (obs_memory ob) \<and> map fst (obs_memory ob) = sort (map fst m)"
proof -
  obtain s undef limit entry where
    s: "wf_state s" and run: "run_case (nat limit) (\<lambda>tr s m. evaluate_transfer depth tr s m undef h) (by_rva trs)
       (u32 entry) (mk_result ''unimplemented'' (u32 entry) 0) s m [] = Inr ob"
    using assms(2,3) unfolding evaluate_transfer_plan_case_def
    by (auto simp: bind_eq_Ok split: if_splits json.splits dest!: state_from_payload_wf)
  show ?thesis
    using run_case_ok[OF _ s memory_from_payload_wf[OF assms(3)] run] evaluate_transfer_ok[OF _ _ assms(1)]
    by (simp add: obs_ok_def)
qed

theorem evaluate_case_invariant_witness:
  "\<exists>ob. evaluate_transfer_plan_case 10 [sample_transfer] sample_case None = Inr ob \<and> wf_state (obs_state ob)
     \<and> wf_memory (obs_memory ob) \<and> map fst (obs_memory ob) = [4, 5, 6, 7, 8, 9, 10]"
proof -
  have "is_ok (evaluate_transfer_plan_case 10 [sample_transfer] sample_case None)" by code_simp
  then obtain ob where ob: "evaluate_transfer_plan_case 10 [sample_transfer] sample_case None = Inr ob"
    by (auto simp: is_ok_iff)
  have m: "memory_from_payload (jget sample_case ''memory'')
      = Inr [(4, 0), (5, 17), (6, 34), (7, 51), (8, 68), (9, 85), (10, 102)]" by code_simp
  show ?thesis
    using evaluate_case_invariant[OF _ ob m] ob by (simp add: handler_ok_def)
qed

text \<open>
  C2: A slot that the definedness analysis reports as noninterfering, in a report without numeric
  collisions, cannot influence execution: evaluating any analysed transfer with a different value
  for that slot gives the same result, state and memory.
\<close>

theorem undefined_noninterference:
  assumes "analyze_transfer_definedness_v2 ts = Inr r" "complete r"
    "map_of (slot_rows r) (n, ident) = Some row" "\<not> behavior_relevant row"
    "t \<in> set ts" "act_op (last (actions t)) = Term oper"
  shows "evaluate_transfer depth t s m (AList.update n v u) h = evaluate_transfer depth t s m u h"
proof (rule report_noninterference[OF assms(1,2) map_of_SomeD[OF assms(3)] _ assms(5,6)])
  show "\<not> (\<exists>row'. ((n, ident), row') \<in> set (slot_rows r) \<and> behavior_relevant row')"
    using assms(3,4) map_of_is_SomeI[OF slot_rows_distinct[OF assms(1)]] by fastforce
qed (simp add: update_conv')

theorem undefined_noninterference_witness:
  "evaluate_transfer 10 sample_transfer initial_state [] [(9, 123)] None
     = evaluate_transfer 10 sample_transfer initial_state [] [] None"
proof -
  have "map_sum id (\<lambda>r. (complete r, map_option behavior_relevant (map_of (slot_rows r) (9, ''u''))))
      (analyze_transfer_definedness_v2 [sample_transfer]) = Inr (True, Some False)"
    by code_simp
  then obtain r row where r: "analyze_transfer_definedness_v2 [sample_transfer] = Inr r" "complete r"
    "map_of (slot_rows r) (9, ''u'') = Some row" "\<not> behavior_relevant row"
    by (cases "analyze_transfer_definedness_v2 [sample_transfer]") auto
  show ?thesis
    using undefined_noninterference[OF r, of sample_transfer Op_outcome_return 10 initial_state "[]" 123 "[]" None]
    by (simp add: sample_transfer_def mk_action_def)
qed

text \<open>
  C3: Memoised evaluation of an acyclic expression graph, with as much nesting as the index of the
  node, equals the plain recursive reading of the graph, faults included, for every memo table
  that holds values of this graph; and it never exhausts the recursion limit.
\<close>

theorem memoised_graph_value:
  assumes "acyclic_nodes (env_nodes e)" "consistent e ws" "nat i < depth"
  shows "map_sum id fst (eval_word depth e i ws) = graph_value e i \<and> eval_word depth e i ws \<noteq> Inl Recursion_error"
  using eval_word_value[OF assms] graph_value_no_rec[OF assms(1)]
  by (auto split: sum.splits)

theorem memoised_graph_value_witness:
  "map_sum id fst (eval_word 3 sample_graph 2 [(0, 5)]) = graph_value sample_graph 2 \<and> graph_value sample_graph 2 = Inr 5"
proof -
  have c: "consistent sample_graph [(0, 5)]"
    by (auto simp: consistent_def sample_graph_def sample_transfer_def graph_value_def sample_env_def eval_node_def
        mk_node_def u32_def)
  have a: "acyclic_nodes (env_nodes sample_graph)"
    by (auto simp: acyclic_nodes_def sample_graph_def sample_transfer_def mk_node_def nth_Cons split: nat.splits)
  have "graph_value sample_graph 2 = Inr 5" by code_simp
  with memoised_graph_value[OF a c, of 2 3] show ?thesis by simp
qed

text \<open>
  C4: A node that the operation registry accepts, whose auxiliary field names a register or flag
  and whose msb width is positive, raises only the two faults the evaluator catches, for every
  operation but the two shift flags.
\<close>

theorem registered_node_faults:
  assumes "expression_operation_v2 n = Inr row" "length vs = length (node_args n)" "aux_ok n"
    "node_op n \<notin> {Pred Op_shift_cf, Pred Op_shift_of}"
    "node_op n = Word Op_msb \<and> length vs = 2 \<longrightarrow> 0 < hd vs"
    "eval_node e n vs = Inl x"
  shows "x = Semantic_fault \<or> x = Memory_fault"
  using eval_node_errors[OF assms] by (simp add: caught_def)

theorem registered_node_faults_witness:
  "eval_node sample_env (mk_node (Word Op_load) [0] 4 0) [100] = Inl Memory_fault
   \<and> (Memory_fault = Semantic_fault \<or> Memory_fault = Memory_fault)"
proof -
  let ?n = "mk_node (Word Op_load) [0] 4 0"
  have "is_ok (expression_operation_v2 ?n)" by code_simp
  then obtain row where row: "expression_operation_v2 ?n = Inr row" by (auto simp: is_ok_iff)
  have e: "eval_node sample_env ?n [100] = Inl Memory_fault"
    by (simp add: eval_node_def mk_node_def sample_env_def memory_read_def upt_rec u32_def)
  show ?thesis
    using registered_node_faults[OF row _ _ _ _ e] e by (simp add: mk_node_def aux_ok_def)
qed

text \<open>A transfer that evaluates the carry of \<open>1 << 32\<close>, whose masked count is zero.\<close>

definition shift_transfer :: transfer where
  "shift_transfer =
     \<lparr>identity = ''shift'', contract_sha256 = [], instruction_bytes_sha256 = [], rva_start = 0x1000,
      nodes = [mk_node (Word Op_const) [] 0 1, mk_node (Word Op_const) [] 0 32, mk_node (Pred Op_shift_cf) [0, 1] 32 0],
      x87_nodes = [], actions = [mk_action (Eff Op_eval_word) [0] 0, mk_action (Eff Op_eval_word) [2] 0,
        mk_action (Term Op_outcome_return) [2] 0],
      calls = [], x87_operations = [], exception_occurrences = []\<rparr>"

text \<open>
  C5: An exception escapes the evaluator: a transfer in which a run without fault or return
  reaches the effect that evaluates a carry flag node of width 1 to 32, not evaluated before,
  whose two operands evaluate and whose count is zero modulo 32, leaves with an IndexError, and so
  does every case that enters it. The registry admits two operands for that node and the evaluator
  reads a third one.
\<close>

theorem shift_carry_unhandled:
  assumes "nodes t ! nat i = n" "0 \<le> i" "i < int (length (nodes t))"
    "node_op n = Pred Op_shift_cf" "expression_operation_v2 n = Inr row"
    "0 < node_aux n AND 0xFF" "node_aux n AND 0xFF \<le> 32"
    "actions t = before @ a # after" "act_op a = Eff Op_eval_word" "act_args a = [i]"
    "run_prefix (start_context (Suc d) t s u h) before (start_cfg t s m) = Some c"
    "map_of (cfg_words c) i = None"
    "thread (eval_word d (word_env (start_context (Suc d) t s u h) c)) (node_args n) (cfg_words c) = Inr ([v, k], ws)"
    "k AND 31 = 0"
  shows "evaluate_transfer (Suc d) t s m u h = Inl Index_error
    \<and> (map_of table current = Some t \<longrightarrow>
       run_case (Suc limit) (\<lambda>t s m. evaluate_transfer (Suc d) t s m u h) table current r s m trace = Inl Index_error)"
proof -
  let ?e = "word_env (start_context (Suc d) t s u h) c"
  have e: "env_nodes ?e = nodes t" by (simp add: word_env_def start_context_def)
  have "length [v, k] = length (node_args n)" using thread_lengths[OF assms(13)] by simp
  from shift_node_raises[OF assms(5,4) this assms(6,7), of ?e] assms(14)
  have "eval_node ?e n [v, k] = Inl Index_error" by simp
  then have "eval_word (Suc d) ?e i (cfg_words c) = Inl Index_error"
    using eval_word_raises[OF assms(12,2), of ?e d "[v, k]" ws Index_error] assms(1,3,13) e by simp
  from uncaught_word_escapes[OF assms(8-11) this] 
  have "evaluate_transfer (Suc d) t s m u h = Inl Index_error" by (simp add: caught_def)
  then show ?thesis using run_case_raises[of table current t "\<lambda>t s m. evaluate_transfer (Suc d) t s m u h" s m Index_error limit r trace]
    by simp
qed

theorem shift_carry_unhandled_witness:
  "run_case (Suc 4) (\<lambda>t s m. evaluate_transfer (Suc 2) t s m [] None) [(0x1000, shift_transfer)] 0x1000
     (mk_result ''unimplemented'' 0x1000 0) initial_state [] [] = Inl Index_error"
proof -
  let ?n = "mk_node (Pred Op_shift_cf) [0, 1] 32 0"
  let ?x = "start_context (Suc 2) shift_transfer initial_state [] None"
  have "is_ok (expression_operation_v2 ?n)" by code_simp
  then obtain row where row: "expression_operation_v2 ?n = Inr row" by (auto simp: is_ok_iff)
  define c where "c = start_cfg shift_transfer initial_state []\<lparr>cfg_words := [(0, 1)]\<rparr>"
  have p: "run_prefix ?x [mk_action (Eff Op_eval_word) [0] 0] (start_cfg shift_transfer initial_state []) = Some c"
    by (simp add: c_def start_context_def start_cfg_def action_step_def catch_def mk_action_def word_env_def shift_transfer_def mk_node_def eval_node_def u32_def numeral_2_eq_2 numeral_3_eq_3)
  have th: "thread (eval_word 2 (word_env ?x c)) (node_args ?n) (cfg_words c) = Inr ([1, 32], [(0, 1), (1, 32)])"
    by (simp add: c_def start_context_def start_cfg_def word_env_def shift_transfer_def mk_node_def eval_node_def u32_def numeral_2_eq_2 numeral_3_eq_3)
  have nd: "nodes shift_transfer ! nat 2 = ?n" "(0::int) \<le> 2" "2 < int (length (nodes shift_transfer))"
    by (simp_all add: shift_transfer_def)
  have n: "node_op ?n = Pred Op_shift_cf" "0 < node_aux ?n AND 0xFF" "node_aux ?n AND 0xFF \<le> 32"
    by (simp_all add: mk_node_def)
  have acts: "actions shift_transfer = [mk_action (Eff Op_eval_word) [0] 0] @ mk_action (Eff Op_eval_word) [2] 0
      # [mk_action (Term Op_outcome_return) [2] 0]"
    "act_op (mk_action (Eff Op_eval_word) [2] 0) = Eff Op_eval_word" "act_args (mk_action (Eff Op_eval_word) [2] 0) = [2]"
    by (simp_all add: shift_transfer_def mk_action_def)
  have "map_of (cfg_words c) 2 = None" "(32::int) AND 31 = 0" by (simp_all add: c_def)
  from shift_carry_unhandled[OF nd n(1) row n(2,3) acts p this(1) th this(2), of "[(0x1000, shift_transfer)]" "0x1000" 4]
  show ?thesis by simp
qed

text \<open>
  C6: The trace of a case is the chain of its control flow: every entry is the transfer of the
  address the previous result continued to, at most max_steps entries are made, the observation's
  result is that of the last entry, and evaluation stops early only at a result that does not
  continue or at an address without a transfer.
\<close>

theorem case_trace_is_chain:
  assumes "run_case limit ev table current r s m [] = Inr ob"
  shows "chain table current (obs_trace ob) \<and> length (obs_trace ob) \<le> limit
    \<and> obs_result ob = (if obs_trace ob = [] then r else entry_result (last (obs_trace ob)))
    \<and> (length (obs_trace ob) = limit \<or> (obs_trace ob \<noteq> [] \<and> \<not> continues (obs_result ob))
       \<or> map_of table (if obs_trace ob = [] then current else target_rva (obs_result ob)) = None)"
  using run_case_trace[OF assms] by auto

theorem case_trace_is_chain_witness:
  "\<exists>ob. run_case 5 (\<lambda>tr s m. evaluate_transfer 10 tr s m [] None) [(0x1000, sample_transfer)] 0x1000
       (mk_result ''unimplemented'' 0x1000 0) initial_state [] [] = Inr ob
     \<and> chain [(0x1000, sample_transfer)] 0x1000 (obs_trace ob) \<and> length (obs_trace ob) \<le> 5"
proof -
  have "is_ok (run_case 5 (\<lambda>tr s m. evaluate_transfer 10 tr s m [] None) [(0x1000, sample_transfer)] 0x1000
       (mk_result ''unimplemented'' 0x1000 0) initial_state [] [])" by code_simp
  then obtain ob where ob: "run_case 5 (\<lambda>tr s m. evaluate_transfer 10 tr s m [] None) [(0x1000, sample_transfer)] 0x1000
       (mk_result ''unimplemented'' 0x1000 0) initial_state [] [] = Inr ob" by (auto simp: is_ok_iff)
  from case_trace_is_chain[OF ob] ob show ?thesis by blast
qed

text \<open>
  C7: A successful store of one, two or four bytes is read back modulo its width, leaves every
  disjoint cell unchanged, and keeps the memory well formed; a store faults exactly where a load
  does.
\<close>

theorem memory_read_after_write:
  assumes "wf_memory m"
  shows "(case memory_write m a w v of
      Inr m' \<Rightarrow> memory_read m' a w = Inr (take_bit (nat (8 * w)) v) \<and> wf_memory m'
        \<and> (memory_cells a w \<inter> memory_cells b u = {} \<longrightarrow> memory_read m' b u = memory_read m b u)
    | Inl e \<Rightarrow> memory_read m a w = Inl e)"
proof (cases "memory_write m a w v")
  case (Inl e)
  then show ?thesis using mem.write_ok_iff[OF assms, of a w v] mem.write_error[OF assms, of a w _ v]
    by (cases "memory_read m a w") auto
next
  case (Inr m')
  then show ?thesis
    using mem.read_same[OF assms Inr] mem.write_valid[OF assms Inr] mem.read_other[OF assms Inr] by simp
qed

theorem memory_read_after_write_witness:
  "memory_write [(8, 0), (9, 0), (10, 7)] 8 2 0x12345 = Inr [(8, 0x45), (9, 0x23), (10, 7)]
   \<and> memory_read [(8, 0x45), (9, 0x23), (10, 7)] 8 2 = Inr 0x2345"
proof -
  have w: "memory_write [(8, 0), (9, 0), (10, 7)] 8 2 0x12345 = Inr [(8, 0x45), (9, 0x23), (10, 7)]" by code_simp
  have "wf_memory [(8, 0), (9, 0), (10, 7)]" by (simp add: wf_memory_def)
  from memory_read_after_write[where m = "[(8, 0), (9, 0), (10, 7)]" and a = 8 and w = 2 and v = "0x12345" and b = 10 and u = 1, OF this] w
  show ?thesis by (simp add: take_bit_eq_mod)
qed

text \<open>
  C8: A compare-and-exchange on a mapped cell always completes: it records the old value under the
  node of its last operand and stores the desired value exactly when the old value equals the
  expected one modulo the width.
\<close>

theorem compare_exchange_step:
  assumes "wf_memory (cfg_memory c)" "memory_read (cfg_memory c) addr w = Inr old"
    "act_args a = [i, j, d, t]" "act_aux a = w"
    "map_of (cfg_words c) i = Some addr" "map_of (cfg_words c) j = Some expected" "map_of (cfg_words c) d = Some desired"
  shows "\<exists>m'. exchange_step c a True = Next (c\<lparr>cfg_memory := m', cfg_words := AList.update t old (cfg_words c)\<rparr>)
    \<and> wf_memory m' \<and> memory_read m' addr w
        = Inr (if old = take_bit (nat (8 * w)) expected then take_bit (nat (8 * w)) desired else old)"
  by (rule exchange_next[OF assms])

definition exchange_cfg :: cfg where
  "exchange_cfg = \<lparr>cfg_state = initial_state, cfg_memory = [(3, 9)], cfg_words = [(0, 3), (1, 9), (2, 5)],
     cfg_call = initial_state\<rparr>"

theorem compare_exchange_step_witness:
  "\<exists>m'. exchange_step exchange_cfg (mk_action (Eff Op_atomic_compare_exchange) [0, 1, 2, 7] 1) True
     = Next (exchange_cfg\<lparr>cfg_memory := m', cfg_words := [(0, 3), (1, 9), (2, 5), (7, 9)]\<rparr>) \<and> memory_read m' 3 1 = Inr 5"
proof -
  let ?a = "mk_action (Eff Op_atomic_compare_exchange) [0, 1, 2, 7] 1"
  have "wf_memory (cfg_memory exchange_cfg)" "memory_read (cfg_memory exchange_cfg) 3 1 = Inr 9"
    "act_args ?a = [0, 1, 2, 7]" "act_aux ?a = 1" "map_of (cfg_words exchange_cfg) 0 = Some 3"
    "map_of (cfg_words exchange_cfg) 1 = Some 9" "map_of (cfg_words exchange_cfg) 2 = Some 5"
    by (simp_all add: exchange_cfg_def wf_memory_def memory_read_def mk_action_def upt_rec u32_def)
  from compare_exchange_step[OF this] show ?thesis
    by (simp add: exchange_cfg_def take_bit_eq_mod) blast
qed

text \<open>
  C9: A rep movs that completes, between element ranges that do not overlap, has copied every
  element, in either direction and with addresses wrapping at 32 bits, and leaves esi, edi and ecx
  as the instruction set prescribes.
\<close>

theorem string_move_copies:
  assumes "wf_memory m" "repeat_move s m [src, dst, int k, direction] w = (None, s', m')"
    "in32 src" "in32 dst"
    "\<And>i j. i < k \<Longrightarrow> j < k \<Longrightarrow> memory_cells (dst + int i * direction_step direction w) w
       \<inter> memory_cells (src + int j * direction_step direction w) w = {}"
  shows "(\<forall>i<k. memory_read m' (dst + int i * direction_step direction w) w
                = memory_read m (src + int i * direction_step direction w) w)
    \<and> registers s' ESI = u32 (src + int k * direction_step direction w)
    \<and> registers s' EDI = u32 (dst + int k * direction_step direction w) \<and> registers s' ECX = 0"
proof -
  define stp where "stp = direction_step direction w"
  have w: "access_width w" and loop: "move_loop k src dst stp w (set_esi_edi_ecx src dst (int k) s) m = (None, s', m')"
    using assms(2) by (auto simp: stp_def split: if_splits)
  have "\<bar>stp\<bar> = w" using access_width_le[OF w] by (auto simp: stp_def direction_step_def)
  note copy = move_copies[OF assms(1) loop this _ assms(5)[folded stp_def]]
  have "u32 src = src" "u32 dst = dst" using assms(3,4) by (simp_all add: in32_def u32_id)
  then show ?thesis
    using copy move_registers[OF loop] by (simp add: register_simps flip: stp_def)
qed

theorem string_move_copies_witness:
  "\<exists>s' m'. repeat_move initial_state [(0, 1), (1, 2), (2, 0), (3, 0)] [0, 2, 2, 0] 1 = (None, s', m')
     \<and> memory_read m' 3 1 = memory_read [(0, 1), (1, 2), (2, 0), (3, 0)] 1 1 \<and> registers s' EDI = 4"
proof -
  have "fst (repeat_move initial_state [(0, 1), (1, 2), (2, 0), (3, 0)] [0, 2, 2, 0] 1) = None" by code_simp
  then obtain s' m' where r: "repeat_move initial_state [(0, 1), (1, 2), (2, 0), (3, 0)] [0, 2, int 2, 0] 1 = (None, s', m')"
    by (cases "repeat_move initial_state [(0, 1), (1, 2), (2, 0), (3, 0)] [0, 2, 2, 0] 1") auto
  have "memory_cells (2 + int i * direction_step 0 1) 1 \<inter> memory_cells (0 + int j * direction_step 0 1) 1 = {}"
    if "i < 2" "j < 2" for i j
    using that by (auto simp: memory_cells_def addresses_def direction_step_def u32_def mask_simps less_2_cases_iff)
  from string_move_copies[OF _ r _ _ this]
  have "memory_read m' (2 + int 1 * direction_step 0 1) 1
      = memory_read [(0, 1), (1, 2), (2, 0), (3, 0)] (0 + int 1 * direction_step 0 1) 1 \<and> registers s' EDI = u32 (2 + int 2 * direction_step 0 1)"
    by (auto simp: wf_memory_def in32_def simp del: of_nat_numeral dest: spec[where x = "1::nat"])
  then show ?thesis using r by (simp add: direction_step_def u32_id)
qed

text \<open>
  C10: A rep stos that completes has stored the low bits of the value in every element, for any
  count, in either direction and with addresses wrapping at 32 bits, and leaves edi and ecx as the
  instruction set prescribes.
\<close>

theorem string_store_fills:
  assumes "wf_memory m" "repeat_store s m [dst, v, int k, direction] w = (None, s', m')" "in32 dst"
  shows "(\<forall>i<k. memory_read m' (dst + int i * direction_step direction w) w = Inr (take_bit (nat (8 * w)) v))
    \<and> registers s' EDI = u32 (dst + int k * direction_step direction w) \<and> registers s' ECX = 0"
proof -
  define stp where "stp = direction_step direction w"
  have w: "access_width w" and loop: "store_loop k dst v stp w (set_register ECX (int k) (set_register EDI dst s)) m = (None, s', m')"
    using assms(2) by (auto simp: stp_def split: if_splits)
  have "\<bar>stp\<bar> = w" using access_width_le[OF w] by (auto simp: stp_def direction_step_def)
  note fill = store_fills[OF assms(1) loop this]
  have "u32 dst = dst" using assms(3) by (simp add: in32_def u32_id)
  then show ?thesis
    using fill store_registers[OF loop] by (simp add: register_simps flip: stp_def)
qed

theorem string_store_fills_witness:
  "\<exists>s' m'. repeat_store initial_state [(0, 1), (1, 2), (2, 0), (3, 0)] [2, 0x1FF, 2, 1] 1 = (None, s', m')
     \<and> memory_read m' 1 1 = Inr 0xFF \<and> registers s' EDI = 0"
proof -
  have "fst (repeat_store initial_state [(0, 1), (1, 2), (2, 0), (3, 0)] [2, 0x1FF, 2, 1] 1) = None" by code_simp
  then obtain s' m' where r: "repeat_store initial_state [(0, 1), (1, 2), (2, 0), (3, 0)] [2, 0x1FF, int 2, 1] 1 = (None, s', m')"
    by (cases "repeat_store initial_state [(0, 1), (1, 2), (2, 0), (3, 0)] [2, 0x1FF, 2, 1] 1") auto
  from string_store_fills[OF _ r]
  have "memory_read m' (2 + int 1 * direction_step 1 1) 1 = Inr (take_bit (nat (8 * 1)) 0x1FF)
      \<and> registers s' EDI = u32 (2 + int 2 * direction_step 1 1)"
    by (auto simp: wf_memory_def in32_def simp del: of_nat_numeral dest: spec[where x = "1::nat"])
  then show ?thesis using r by (simp add: direction_step_def u32_id take_bit_eq_mod)
qed

text \<open>
  C11: A repne scas that completes over at least one element leaves memory alone and stops after
  the first byte equal to al, or after the last element: edi is one past the element inspected
  last, ecx is what remains, zf says whether that element matched, and no earlier element matched.
\<close>

theorem string_scan_first_match:
  assumes "wf_memory m" "repeat_scan s m [acc, dst, int k, direction] = (None, s', m')" "0 < k"
  shows "m' = m \<and> (\<exists>n<k. registers s' EDI = u32 (dst + int (Suc n) * direction_step direction 1)
    \<and> registers s' ECX = int (k - Suc n)
    \<and> (\<forall>i<n. memory_read m (dst + int i * direction_step direction 1) 1 \<noteq> Inr (acc AND 0xFF))
    \<and> flags s' ZF = of_bool (memory_read m (dst + int n * direction_step direction 1) 1 = Inr (acc AND 0xFF))
    \<and> (Suc n < k \<longrightarrow> flags s' ZF = 1))"
  using assms by (intro scan_loop_spec) (simp_all add: mask_simps)

theorem string_scan_first_match_witness:
  "\<exists>s' m'. repeat_scan initial_state [(0, 1), (1, 2), (2, 3)] [2, 0, 3, 0] = (None, s', m') \<and> m' = [(0, 1), (1, 2), (2, 3)]"
proof -
  have "fst (repeat_scan initial_state [(0, 1), (1, 2), (2, 3)] [2, 0, 3, 0]) = None" by code_simp
  then obtain s' m' where r: "repeat_scan initial_state [(0, 1), (1, 2), (2, 3)] [2, 0, int 3, 0] = (None, s', m')"
    by (cases "repeat_scan initial_state [(0, 1), (1, 2), (2, 3)] [2, 0, 3, 0]") auto
  from string_scan_first_match[OF _ r] have "m' = [(0, 1), (1, 2), (2, 3)]" by (simp add: wf_memory_def)
  then show ?thesis using r by simp
qed

section \<open>Symbolic execution of machine code\<close>

text \<open>The registers, the image and the instructions of the examples.\<close>

definition sample_registers :: named where
  "sample_registers = [(''eax'', XConst 0x11223344), (''ecx'', XConst 7)]"

lemma sample_registers_there: "word_registers sample_registers"
  unfolding word_registers_def sample_registers_def by (simp add: a_word_def)

fun sample_decode :: "int list \<Rightarrow> int \<Rightarrow> insn list" where
  "sample_decode [] a = []"
| "sample_decode (b # bytes) a =
     \<lparr>in_address = a, in_size = 1,
      in_mnemonic = (if b = 0x90 then ''nop'' else if b = 0xC3 then ''ret'' else ''inc''), in_op_str = [],
      in_bytes = [b], in_operands = []\<rparr> # sample_decode bytes (a + 1)"

definition sample_image :: pe_image where
  "sample_image =
     \<lparr>im_bitness = 32, im_base = 0x400000, im_size = 0x2000,
      im_sections = [\<lparr>sec_name = ''.text'', sec_start = 0x1000, sec_end = 0x1008, sec_readable = True,
        sec_writable = False, sec_executable = True\<rparr>],
      im_imports = [],
      im_data = (\<lambda>a n. if a < 0x1000 then []
        else take (nat n) (drop (nat (a - 0x1000)) [0x40, 0xC3, 0x90, 0x90, 0x40, 0xC3, 0, 0])),
      im_decode = sample_decode, im_sha = (\<lambda>bytes. [])\<rparr>"

definition sample_insn :: "string \<Rightarrow> int \<Rightarrow> operand list \<Rightarrow> insn" where
  "sample_insn mnemonic a ops =
     \<lparr>in_address = a, in_size = 2, in_mnemonic = mnemonic, in_op_str = [], in_bytes = [], in_operands = ops\<rparr>"

text \<open>
  C12: The normal form of a symbolic expression means what the expression means: for every well-
  sorted expression, of any of the constructors, the normal form is well sorted, has the same sort
  and the same value under every interpretation of registers, flags, memory and undefined values.
\<close>

theorem canonical_expr_meaning:
  assumes "well_sorted e"
  shows "well_sorted (canonical_expr e) \<and> sort_of (canonical_expr e) = sort_of e
    \<and> value_of M (canonical_expr e) = value_of M e"
  using nf.sound[OF assms] by (simp add: stands_for_def)

theorem canonical_expr_meaning_witness:
  "\<forall>M. value_of M (canonical_expr (XSub (XAnd (XConst 12) (XConst 10)) (XConst 3))) = 5"
proof
  fix M
  have "well_sorted (XSub (XAnd (XConst 12) (XConst 10)) (XConst 3))" by code_simp
  from canonical_expr_meaning[OF this, of M]
  show "value_of M (canonical_expr (XSub (XAnd (XConst 12) (XConst 10)) (XConst 3))) = 5" by (simp add: u32_def)
qed

text \<open>
  C13: Normalisation ends: nested as deep as the fuel computed from an expression, the recursive
  calls of _canonical_expr give the normal form, whatever the calls beyond that depth would
  return; the recursive equation of the code has the normal form as its only solution; and the
  normal form needs no more nesting than the expression.
\<close>

theorem canonical_recursion_ends:
  assumes "needs e \<le> n"
  shows "(canonical_step ^^ n) g e = canonical_expr e \<and> needs (canonical_expr e) \<le> needs e
    \<and> (f = canonical_step f \<longleftrightarrow> f = canonical_expr)"
  using canonical_from_any[OF assms] canonical_needs canonical_unique canonical_expr_step by blast

theorem canonical_recursion_ends_witness:
  "(canonical_step ^^ 9) (\<lambda>_. XConst 99) (XSub (XAnd (XConst 12) (XConst 10)) (XConst 3)) = XConst 5"
proof -
  have "canonical_expr (XSub (XAnd (XConst 12) (XConst 10)) (XConst 3)) = XConst 5" by code_simp
  moreover have "needs (XSub (XAnd (XConst 12) (XConst 10)) (XConst 3)) \<le> 9" by simp
  ultimately show ?thesis
    using canonical_recursion_ends[of "XSub (XAnd (XConst 12) (XConst 10)) (XConst 3)" 9 "\<lambda>_. XConst 99" canonical_expr]
    by simp
qed

text \<open>
  C14: Registers are bit fields of eight words: after a write of any register name, a read of any
  other or the same name yields the bits of that name, with the written field replaced in its base
  register and every other base register unchanged.
\<close>

theorem register_write_read:
  assumes "word_registers regs" "a_word e" "register_part name = Some (base, pos, w)" "map_of regs base \<noteq> None"
    "write_register_expr name e regs = Some regs'"
    "register_part other = Some (base', pos', w')" "read_register_expr other regs' = Some r"
  shows "value_of M r = get_field pos' w'
    (if base' = base then set_field pos w (value_of M e) (base_value M regs base) else base_value M regs base')"
  using read_register_holds[OF write_register_built[OF assms(1,2,5)] assms(6,7)]
    write_register_holds[OF assms(1,2,5,3,4)] by simp

theorem register_write_read_witness:
  "\<exists>regs' r. write_register_expr ''ah'' (XConst 0xAB) sample_registers = Some regs'
     \<and> read_register_expr ''ax'' regs' = Some r \<and> (\<forall>M. value_of M r = 0xAB44)"
proof -
  have part: "register_part ''ah'' = Some (''eax'', 8, 8)" "register_part ''ax'' = Some (''eax'', 0, 16)" by code_simp+
  have old: "map_of sample_registers ''eax'' \<noteq> None" by (simp add: sample_registers_def)
  obtain regs' where w: "write_register_expr ''ah'' (XConst 0xAB) sample_registers = Some regs'"
    by (auto simp: write_register_expr_def part sample_registers_def)
  then have "map_of regs' ''eax'' \<noteq> None"
    by (auto simp: write_register_expr_def part sample_registers_def Let_def split: if_split_asm)
  then obtain r where r: "read_register_expr ''ax'' regs' = Some r"
    by (auto simp: read_register_expr_def part)
  have "value_of M r = 0xAB44" for M
  proof -
    have "value_of M r = get_field 0 16 (set_field 8 8 0xAB 0x11223344)"
      using register_write_read[OF sample_registers_there _ part(1) old w part(2) r, of M]
      by (simp add: base_value_def sample_registers_def a_word_def u32_def)
    also have "\<dots> = 0xAB44" by code_simp
    finally show ?thesis .
  qed
  with w r show ?thesis by blast
qed

text \<open>
  C15: A conditional jump after a cmp is the comparison it is named for: for every signed,
  unsigned and equality condition with its synonyms and every operand width up to 32, the branch
  condition is true exactly when the operands, truncated to the width, compare that way, and the
  outcome of the block is the branch on it.
\<close>

theorem compare_then_branch:
  assumes "sym_ok s" "in_operands i = [p, q]" "operand_width_bits p = w" "w \<le> 32"
    "read_operand_expr p (Some w) s = Some (l, s1)" "read_operand_expr q (Some w) s1 = Some (r, s2)"
    "(condition, holds) \<in> set comparisons" "in_mnemonic j = ''j'' @ condition"
    "resolved_branch_target (be_image en) j = Some t"
  shows "\<exists>s3 c. exec_cmp i s = Go s3
    \<and> exec_branch en j s3 = Go (finish_with (Sym_branch c t (next_rva j s3)) s3)
    \<and> (\<forall>M. value_of M c = of_bool (holds (nat w) (take_bit (nat w) (value_of M l)) (take_bit (nat w) (value_of M r))))"
proof -
  have w: "0 < w" using assms(3) width_positive by blast
  have l: "a_word l" "sym_ok s1" using read_operand_ok[OF assms(1,5)] w by simp_all
  have r: "a_word r" using read_operand_ok(1)[OF l(2) assms(6)] w by simp
  let ?s3 = "set_flags (arithmetic_flags ''sub'' l r (expr_sub l r) w) s2"
  have cmp: "exec_cmp i s = Go ?s3" using assms(2,3,5,6) by (simp add: exec_cmp_def get_def expect_def)
  note c = compared(1)[OF l(1) r w assms(4,7), of "ss_flags s2"]
  obtain c where c: "branch_condition (''j'' @ condition) (ss_flags ?s3) = Ok (Some c)"
    using compared(1)[OF l(1) r w assms(4,7), of "ss_flags s2"] by (auto simp: set_flags_def)
  have "value_of M c = of_bool (holds (nat w) (take_bit (nat w) (value_of M l)) (take_bit (nat w) (value_of M r)))" for M
    using compared(1)[OF l(1) r w assms(4,7), of "ss_flags s2" M] c by (auto simp: set_flags_def)
  moreover have "exec_branch en j ?s3 = Go (finish_with (Sym_branch c t (next_rva j ?s3)) ?s3)"
    using c assms(8,9) by (simp add: exec_branch_def target_expect_def expect_def run_of_def)
  ultimately show ?thesis using cmp by blast
qed

theorem compare_then_branch_witness:
  "\<exists>s3 c. exec_cmp (sample_insn ''cmp'' 0x401000 [Reg_op ''eax'' 4, Reg_op ''ebx'' 4])
       (initial_sym_state \<lparr>sd_start = 0x1000, sd_end = 0x1008\<rparr>) = Go s3
     \<and> exec_branch \<lparr>be_image = sample_image, be_side = \<lparr>sd_start = 0x1000, sd_end = 0x1008\<rparr>, be_instructions = [],
           be_source = [], be_index_base = 0\<rparr> (sample_insn ''jl'' 0x401002 [Imm_op 0x401006 4]) s3
         = Go (finish_with (Sym_branch c 0x1006 (next_rva (sample_insn ''jl'' 0x401002 [Imm_op 0x401006 4]) s3)) s3)
     \<and> (\<forall>M. value_of M c = of_bool (signed_value 32 (take_bit 32 (value_of M (reg_leaf ''eax'')))
         < signed_value 32 (take_bit 32 (value_of M (reg_leaf ''ebx'')))))"
proof -
  let ?s = "initial_sym_state \<lparr>sd_start = 0x1000, sd_end = 0x1008\<rparr>"
  have reads: "read_operand_expr (Reg_op ''eax'' 4) (Some 32) ?s = Some (reg_leaf ''eax'', ?s)"
    "read_operand_expr (Reg_op ''ebx'' 4) (Some 32) ?s = Some (reg_leaf ''ebx'', ?s)" by code_simp+
  have width: "operand_width_bits (Reg_op ''eax'' 4) = 32" by code_simp
  have "(''l'', \<lambda>w a b. signed_value w a < signed_value w b) \<in> set comparisons" by (simp add: comparisons_def)
  note branch = compare_then_branch[OF initial_state_ok _ width _ reads this]
  show ?thesis
    using branch[where i = "sample_insn ''cmp'' 0x401000 [Reg_op ''eax'' 4, Reg_op ''ebx'' 4]"
        and j = "sample_insn ''jl'' 0x401002 [Imm_op 0x401006 4]" and t = "0x1006"
        and en = "\<lparr>be_image = sample_image, be_side = \<lparr>sd_start = 0x1000, sd_end = 0x1008\<rparr>, be_instructions = [],
           be_source = [], be_index_base = 0\<rparr>"]
    by (simp add: sample_insn_def resolved_branch_target_def direct_branch_target_def sample_image_def)
qed

text \<open>
  C16: The symbolic idiv is exact: the recorded divide fault is taken exactly when the divisor is
  zero or the quotient of the 64-bit dividend does not fit a signed word, and otherwise eax and
  edx hold the quotient and remainder truncated toward zero.
\<close>

theorem signed_division_exact:
  assumes "sym_ok s" "in_operands i = [p]" "operand_width_bits p = 32" "read_operand_expr p (Some 32) s = Some (d, s1)"
    "map_of (ss_registers s1) ''edx'' = Some high" "map_of (ss_registers s1) ''eax'' = Some low"
  shows "\<exists>s' ok quot rest. exec_idiv i s = Go s'
    \<and> ss_faults s' = ss_faults s1 @ [XNode ''divide_error'' [bool_not ok, XNum (ss_rva s1)]]
    \<and> map_of (ss_registers s') ''eax'' = Some quot \<and> map_of (ss_registers s') ''edx'' = Some rest
    \<and> (\<forall>M. let n = 2 ^ 32 * s32 (value_of M high) + value_of M low; m = s32 (value_of M d);
             fits = (m \<noteq> 0 \<and> - (2 ^ 31) \<le> n sdiv m \<and> n sdiv m < 2 ^ 31) in
         value_of M ok = of_bool fits
         \<and> (fits \<longrightarrow> value_of M quot = u32 (n sdiv m) \<and> value_of M rest = u32 (n smod m)))"
proof -
  have d: "a_word d" "sym_ok s1" using read_operand_ok[OF assms(1,4)] by simp_all
  have hl: "a_word high" "a_word low" using word_registersD[OF sym_okD(1)[OF d(2)]] assms(5,6) by blast+
  let ?g = "divide_signed high low d"
  let ?junk = "\<lambda>name. XLeaf ''undefined_bv'' [XTxt ''idiv_fault'', XTxt (''0x'' @ undefined_id (ss_rva s1) name)]"
  let ?quot = "expr_ite (sg_valid ?g) (sg_quotient ?g) (?junk ''eax'')"
  let ?rest = "expr_ite (sg_valid ?g) (sg_remainder ?g) (?junk ''edx'')"
  let ?s = "divide_fault (sg_valid ?g) (set_flags (undefined_arithmetic_flags ''idiv'' (ss_rva s1) [])
     (set_quotient ''idiv_fault'' (sg_valid ?g) (sg_quotient ?g) (sg_remainder ?g) s1))"
  have run: "exec_idiv i s = Go ?s"
    using assms(2-6) by (simp add: exec_idiv_def get_def expect_def reg_of_def entry_def run_of_def Let_def)
  have junk: "a_word (?junk name)" for name by (simp add: a_word_def bool_leaves_def)
  have regs: "map_of (ss_registers ?s) ''eax'' = Some ?quot" "map_of (ss_registers ?s) ''edx'' = Some ?rest"
    by (simp_all add: divide_fault_def append_fault_def set_flags_def set_quotient_def set_reg_def Let_def update_conv')
  have faults: "ss_faults ?s = ss_faults s1 @ [XNode ''divide_error'' [bool_not (sg_valid ?g), XNum (ss_rva s1)]]"
    by (simp add: divide_fault_def append_fault_def set_flags_def set_quotient_def set_reg_def Let_def)
  note built_g = signed_divide_built[OF hl d(1)]
  have exact: "let n = 2 ^ 32 * s32 (value_of M high) + value_of M low; m = s32 (value_of M d);
             fits = (m \<noteq> 0 \<and> - (2 ^ 31) \<le> n sdiv m \<and> n sdiv m < 2 ^ 31) in
         value_of M (sg_valid ?g) = of_bool fits
         \<and> (fits \<longrightarrow> value_of M ?quot = u32 (n sdiv m) \<and> value_of M ?rest = u32 (n smod m))" for M
    using signed_divide_exact[OF hl d(1) refl refl, of M] built_g junk
    by (simp add: Let_def idiv_dividend_def built)
  show ?thesis using run faults regs exact by blast
qed

theorem signed_division_exact_witness:
  "\<exists>s' quot rest. exec_idiv (sample_insn ''idiv'' 0x401000 [Reg_op ''ecx'' 4])
       (set_reg ''edx'' (XConst 0xFFFFFFFF) (set_reg ''eax'' (XConst 0xFFFFFFF9) (set_reg ''ecx'' (XConst 2)
         (initial_sym_state \<lparr>sd_start = 0x1000, sd_end = 0x1008\<rparr>)))) = Go s'
     \<and> map_of (ss_registers s') ''eax'' = Some quot \<and> map_of (ss_registers s') ''edx'' = Some rest
     \<and> (\<forall>M. value_of M quot = 0xFFFFFFFD \<and> value_of M rest = 0xFFFFFFFF)"
proof -
  let ?s = "set_reg ''edx'' (XConst 0xFFFFFFFF) (set_reg ''eax'' (XConst 0xFFFFFFF9) (set_reg ''ecx'' (XConst 2)
         (initial_sym_state \<lparr>sd_start = 0x1000, sd_end = 0x1008\<rparr>)))"
  have ok: "sym_ok ?s" by (intro set_reg_ok initial_state_ok) (simp_all add: a_word_def gprs_def)
  have read: "read_operand_expr (Reg_op ''ecx'' 4) (Some 32) ?s = Some (XConst 2, ?s)" by code_simp
  have width: "operand_width_bits (Reg_op ''ecx'' 4) = 32" by code_simp
  have regs: "map_of (ss_registers ?s) ''edx'' = Some (XConst 0xFFFFFFFF)"
    "map_of (ss_registers ?s) ''eax'' = Some (XConst 0xFFFFFFF9)" by code_simp+
  have v: "s32 0xFFFFFFFF = - 1" "s32 2 = 2" "u32 0xFFFFFFFF = 0xFFFFFFFF" "u32 0xFFFFFFF9 = 0xFFFFFFF9" "u32 2 = 2"
    "(2 ^ 32 * - 1 + 0xFFFFFFF9 :: int) sdiv 2 = - 3" "(2 ^ 32 * - 1 + 0xFFFFFFF9 :: int) smod 2 = - 1"
    "u32 (- 3) = 0xFFFFFFFD" "u32 (- 1) = 0xFFFFFFFF" by code_simp+
  obtain s' ok quot rest where r: "exec_idiv (sample_insn ''idiv'' 0x401000 [Reg_op ''ecx'' 4]) ?s = Go s'"
    "map_of (ss_registers s') ''eax'' = Some quot" "map_of (ss_registers s') ''edx'' = Some rest"
    and e: "\<forall>M. let n = 2 ^ 32 * s32 (value_of M (XConst 0xFFFFFFFF)) + value_of M (XConst 0xFFFFFFF9); m = s32 (value_of M (XConst 2));
             fits = (m \<noteq> 0 \<and> - (2 ^ 31) \<le> n sdiv m \<and> n sdiv m < 2 ^ 31) in
         value_of M ok = of_bool fits
         \<and> (fits \<longrightarrow> value_of M quot = u32 (n sdiv m) \<and> value_of M rest = u32 (n smod m))"
    using signed_division_exact[OF ok _ width read regs, of "sample_insn ''idiv'' 0x401000 [Reg_op ''ecx'' 4]"]
    by (auto simp: sample_insn_def)
  have "value_of M quot = 0xFFFFFFFD \<and> value_of M rest = 0xFFFFFFFF" for M
    using e[rule_format, of M] by (simp only: value_of.simps v Let_def) simp
  with r show ?thesis by blast
qed

text \<open>
  C17: Double shifts of 32-bit operands: for a count from 1 to 31, modulo 32, shld and shrd give
  the bits of the two operands joined to 64 bits, as the instruction set prescribes; for the count
  zero, where the instruction leaves its destination unchanged, both give the disjunction of the
  operands.
\<close>

theorem double_shift_value:
  assumes "a_word l" "a_word r" "a_word c" "value_of M c AND 31 = k"
  shows "value_of M (expr_shift_pair ''shld'' l r c 32) =
      (if k = 0 then value_of M l OR value_of M r
       else take_bit 32 (drop_bit (32 - nat k) (2 ^ 32 * value_of M l + value_of M r)))
    \<and> value_of M (expr_shift_pair ''shrd'' l r c 32) =
      (if k = 0 then value_of M l OR value_of M r
       else take_bit 32 (drop_bit (nat k) (2 ^ 32 * value_of M r + value_of M l)))"
proof -
  have "0 \<le> k" using assms(4) low5[of "value_of M c"] by auto
  then have "nat k = 0 \<longleftrightarrow> k = 0" by auto
  then show ?thesis using shift_pair_value[OF assms(1-3), of M] unfolding assms(4) by simp
qed

theorem double_shift_value_witness:
  "\<forall>M. value_of M (expr_shift_pair ''shld'' (XConst 0x12345678) (XConst 0x9ABCDEF0) (XConst 8) 32) = 0x3456789A
     \<and> value_of M (expr_shift_pair ''shld'' (XConst 1) (XConst 2) (XConst 32) 32) = 3"
proof
  fix M
  have w: "a_word (XConst 0x12345678)" "a_word (XConst 0x9ABCDEF0)" "a_word (XConst 8)" "a_word (XConst 1)" "a_word (XConst 2)"
    "a_word (XConst 32)" by (simp_all add: a_word_def)
  have v: "value_of M (XConst 8) AND 31 = 8" "value_of M (XConst 32) AND 31 = 0" by (simp_all add: u32_def)
  have n: "u32 0x12345678 = 0x12345678" "u32 0x9ABCDEF0 = 0x9ABCDEF0" "u32 1 = 1" "u32 2 = 2"
    "take_bit 32 (drop_bit (32 - nat 8) (2 ^ 32 * 0x12345678 + 0x9ABCDEF0)) = (0x3456789A :: int)" "(1 :: int) OR 2 = 3"
    by code_simp+
  show "value_of M (expr_shift_pair ''shld'' (XConst 0x12345678) (XConst 0x9ABCDEF0) (XConst 8) 32) = 0x3456789A
     \<and> value_of M (expr_shift_pair ''shld'' (XConst 1) (XConst 2) (XConst 32) 32) = 3"
    unfolding conjunct1[OF double_shift_value[OF w(1-3) v(1)]] conjunct1[OF double_shift_value[OF w(4-6) v(2)]] value_of.simps n
    by simp
qed

section \<open>Executable bytes\<close>

text \<open>
  C18: No byte of a section is lost or counted twice: every address between the bounds is in one
  of the known ranges, or in exactly one code fragment or waived padding range, and nothing else
  is, when instructions are decoded one after the other; the fragments are in the order of their
  addresses.
\<close>

theorem section_bytes_accounted:
  assumes "linear_decoder im" "bounded_reads im" "\<forall>r\<in>set ranges. sd_start r \<le> sd_end r" "lo \<le> hi"
    "section_gap_code_blocks binary im roots (gaps_of lo hi ranges) = (fragments, waivers)"
  shows "\<exists>waived. waivers = map (padding_waiver binary) waived
    \<and> (\<forall>x. pieces_at x (map cf_block fragments @ waived)
            = of_bool (lo \<le> x \<and> x < hi \<and> (\<forall>r\<in>set ranges. x \<notin> span_addresses r)))
    \<and> sorted (map (sd_start \<circ> cf_block) fragments)"
proof -
  obtain fs ws where c: "classify_gaps im roots 0 (gaps_of lo hi ranges) = (fs, ws)" by (metis prod.exhaust)
  have f: "fragments = sort_key (sd_start \<circ> cf_block) (sort_key (sd_end \<circ> cf_block) fs)" "waivers = map (padding_waiver binary) ws"
    using assms(5) by (simp_all add: section_gap_code_blocks_def c)
  note gaps = gaps_ordered[OF assms(3,4)]
  have le: "\<forall>g\<in>set (gaps_of lo hi ranges). sd_start g \<le> sd_end g" using gaps(2) by force
  have "pieces_at x (map cf_block fragments @ ws) = of_bool (lo \<le> x \<and> x < hi \<and> (\<forall>r\<in>set ranges. x \<notin> span_addresses r))" for x
    using classify_gaps_partition[OF assms(1,2) c, of x] pieces_at_ordered[OF gaps(1) le, of x]
      gaps_cover[OF assms(3), of lo hi x] by (simp add: f(1) pieces_at_sorted)
  moreover have "sorted (map (sd_start \<circ> cf_block) fragments)" unfolding f(1) by (rule sorted_sort_key)
  ultimately show ?thesis using f(2) by blast
qed

lemma sample_decode_linear: "back_to_back a (sample_decode bytes a) \<and> decoded_bytes (sample_decode bytes a) = int (length bytes)"
  by (induction bytes a rule: sample_decode.induct) simp_all

theorem section_bytes_accounted_witness:
  "\<exists>fragments waived. section_gap_code_blocks ''original'' sample_image \<lparr>dr_entry = 0x1000, dr_tls = None, dr_exports = None\<rparr>
       (gaps_of 0x1000 0x1008 [\<lparr>sd_start = 0x1000, sd_end = 0x1002\<rparr>]) = (fragments, map (padding_waiver ''original'') waived)
     \<and> pieces_at 0x1001 (map cf_block fragments @ waived) = 0 \<and> pieces_at 0x1003 (map cf_block fragments @ waived) = 1
     \<and> pieces_at 0x1007 (map cf_block fragments @ waived) = 1"
proof -
  have linear: "linear_decoder sample_image" using sample_decode_linear by (simp add: linear_decoder_def sample_image_def)
  have "int (length (take (nat n) bytes)) \<le> n" if "0 \<le> n" for n and bytes :: "int list"
  proof -
    have "length (take (nat n) bytes) \<le> nat n" by simp
    with that show ?thesis by linarith
  qed
  then have reads: "bounded_reads sample_image" unfolding bounded_reads_def sample_image_def by (simp del: length_take)
  let ?r = "[\<lparr>sd_start = 0x1000, sd_end = 0x1002\<rparr>]"
  have le: "\<forall>r\<in>set ?r. sd_start r \<le> sd_end r" "(0x1000::int) \<le> 0x1008" by simp_all
  obtain fragments waivers where c: "section_gap_code_blocks ''original'' sample_image
      \<lparr>dr_entry = 0x1000, dr_tls = None, dr_exports = None\<rparr> (gaps_of 0x1000 0x1008 ?r) = (fragments, waivers)" by (metis prod.exhaust)
  obtain waived where w: "waivers = map (padding_waiver ''original'') waived"
    and p: "\<And>x. pieces_at x (map cf_block fragments @ waived)
            = of_bool (0x1000 \<le> x \<and> x < 0x1008 \<and> (\<forall>r\<in>set ?r. x \<notin> span_addresses r))"
    using section_bytes_accounted[OF linear reads le c] by blast
  have "pieces_at 0x1001 (map cf_block fragments @ waived) = 0 \<and> pieces_at 0x1003 (map cf_block fragments @ waived) = 1
      \<and> pieces_at 0x1007 (map cf_block fragments @ waived) = 1" unfolding p by simp
  with c w show ?thesis by blast
qed

text \<open>
  C19: The overlap check is complete although it compares neighbours only: over nonempty ranges no
  issue is reported exactly when no address lies in two of them.
\<close>

theorem overlaps_all_reported:
  assumes "\<forall>r\<in>set ranges. sd_start (snd r) < sd_end (snd r)"
  shows "range_overlap_issues binary ranges = [] \<longleftrightarrow> (\<forall>x. pieces_at x (map snd ranges) \<le> 1)"
proof -
  let ?ss = "sort_key (sd_start \<circ> snd) (sort_key (sd_end \<circ> snd) (sort_key fst ranges))"
  have same: "pieces_at x (map snd ?ss) = pieces_at x (map snd ranges)" for x by (simp only: pieces_at_sorted)
  have pos: "\<forall>r\<in>set ?ss. sd_start (snd r) < sd_end (snd r)" using assms by simp
  then have le: "\<forall>r\<in>set ?ss. sd_start (snd r) \<le> sd_end (snd r)" by force
  show ?thesis
  proof
    assume "range_overlap_issues binary ranges = []"
    then have "ordered_sides (map snd ?ss)" by (intro adjacent_none[OF _ le]) (simp add: range_overlap_issues_def)
    then have "pieces_at x (map snd ?ss) \<le> 1" for x using pieces_at_ordered[of "map snd ?ss" x] le by simp
    then show "\<forall>x. pieces_at x (map snd ranges) \<le> 1" unfolding same by blast
  next
    assume once: "\<forall>x. pieces_at x (map snd ranges) \<le> 1"
    show "range_overlap_issues binary ranges = []"
    proof (rule ccontr)
      assume "range_overlap_issues binary ranges \<noteq> []"
      then obtain i j where ij: "i < j" "j < length ?ss" "span_addresses (snd (?ss ! i)) \<inter> span_addresses (snd (?ss ! j)) \<noteq> {}"
        using adjacent_some[of binary ?ss] pos unfolding range_overlap_issues_def by (auto simp: comp_def)
      then obtain x where "x \<in> span_addresses (map snd ?ss ! i)" "x \<in> span_addresses (map snd ?ss ! j)" by auto
      then have "2 \<le> pieces_at x (map snd ?ss)" using pieces_at_twice[of i j "map snd ?ss" x] ij by simp
      then show False using once same by (metis (no_types) numeral_2_eq_2 not_less_eq_eq One_nat_def)
    qed
  qed
qed

theorem overlaps_all_reported_witness:
  "range_overlap_issues ''original'' [(''b'', \<lparr>sd_start = 4, sd_end = 9\<rparr>), (''a'', \<lparr>sd_start = 0, sd_end = 5\<rparr>)] \<noteq> []"
proof
  assume none: "range_overlap_issues ''original'' [(''b'', \<lparr>sd_start = 4, sd_end = 9\<rparr>), (''a'', \<lparr>sd_start = 0, sd_end = 5\<rparr>)] = []"
  have "\<forall>r\<in>set [(''b'', \<lparr>sd_start = 4, sd_end = 9\<rparr>), (''a'', \<lparr>sd_start = 0, sd_end = 5\<rparr>)]. sd_start (snd r) < sd_end (snd r)" by simp
  from overlaps_all_reported[OF this, of "''original''"] none
  have "pieces_at 4 (map snd [(''b'', \<lparr>sd_start = 4, sd_end = 9\<rparr>), (''a'', \<lparr>sd_start = 0, sd_end = 5\<rparr>)]) \<le> 1" by blast
  then show False by simp
qed

section \<open>Accepted plans\<close>

text \<open>
  C20: A run over an accepted plan stays on the control edges the plan lists: each transfer of the
  trace is reached from the one before it through a control edge of the document, and the table
  the evaluator runs on is the document's.
\<close>

theorem accepted_run_linked:
  assumes "parse_executable_transfer_plan sha depth v req = Inr (payload, ts)"
    "evaluate_transfer_plan_case d ts cs h = Inr ob"
  shows "linked (direct_edges ts) (obs_trace ob)
    \<and> py_eq (jget payload ''direct_control_edges'') (JList (map edge_payload (direct_edges ts)))"
proof -
  obtain k u cur r s m where run: "run_case k (\<lambda>t s m. evaluate_transfer d t s m u h) (by_rva ts) cur r s m [] = Inr ob"
    using assms(2) unfolding evaluate_transfer_plan_case_def
    by (auto elim!: bind_OkE split: if_split_asm json.split_asm prod.split_asm)
  have wf: "\<forall>t\<in>set ts. transfer_wf t" by (rule accepted_plan[OF assms(1)])
  have "\<exists>new. obs_trace ob = [] @ new \<and> linked (direct_edges ts) new \<and> (new \<noteq> [] \<longrightarrow> entry_rva (hd new) = cur)"
  proof (rule run_case_linked[OF run])
    fix cur t s m r s' m'
    assume t: "map_of (by_rva ts) cur = Some t" and e: "evaluate_transfer d t s m u h = Inr (r, s', m')" "continues r"
    note t' = accepted_table[OF assms(1) t]
    from evaluation_follows_edges[OF t'(1) _ e] wf t'
    show "\<exists>target. (cur, ''control'', target) \<in> set (direct_edges ts) \<and> target_rva r = u32 target" by auto
  qed
  moreover have "py_eq (jget payload ''direct_control_edges'') (JList (map edge_payload (direct_edges ts)))"
    by (rule accepted_plan[OF assms(1)])
  ultimately show ?thesis by auto
qed

theorem accepted_run_linked_witness:
  "\<exists>ob. evaluate_transfer_plan_case 4 [branch_transfer] branch_case None = Inr ob \<and> map entry_rva (obs_trace ob) = [0x1000, 0x1000]
     \<and> linked (direct_edges [branch_transfer]) (obs_trace ob)"
proof -
  have "map_sum id (map entry_rva \<circ> obs_trace) (evaluate_transfer_plan_case 4 [branch_transfer] branch_case None)
      = Inr [0x1000, 0x1000]" by code_simp
  then obtain ob where "evaluate_transfer_plan_case 4 [branch_transfer] branch_case None = Inr ob"
    "map entry_rva (obs_trace ob) = [0x1000, 0x1000]"
    by (cases "evaluate_transfer_plan_case 4 [branch_transfer] branch_case None") auto
  with accepted_run_linked[OF branch_plan_read this(1)] show ?thesis by auto
qed

text \<open>
  C21: Over an accepted plan the evaluator ends every case it can read: a case document that is
  accepted on the empty plan yields an observation on any accepted plan, and no exception escapes
  a run, when the recursion limit reaches the number of expressions, the call handler returns, and
  no transfer of the plan holds what the reader lets through and the evaluator cannot handle: a
  shift flag node (shift_cf or shift_of), a reg, flag, call_response or call_flag node or a
  set_reg or set_flag effect whose auxiliary field names no register or flag, an effect with a
  negative auxiliary field, a two-operand msb whose width is not a positive constant, or an atomic
  effect that records what it observes under a positive constant.
\<close>

theorem accepted_case_ends:
  assumes "parse_executable_transfer_plan sha depth v req = Inr (payload, ts)"
    "\<forall>t\<in>set ts. lowered t \<and> length (nodes t) \<le> d" "handler_total h"
    "is_ok (evaluate_transfer_plan_case d [] cs h)"
  shows "is_ok (evaluate_transfer_plan_case d ts cs h)"
proof -
  obtain k cur r s m u where run: "\<forall>ts. evaluate_transfer_plan_case d ts cs h
      = run_case k (\<lambda>t s m. evaluate_transfer d t s m u h) (by_rva ts) cur r s m []"
    using read_case[OF assms(4)] by metis
  show ?thesis unfolding run[rule_format] by (rule accepted_run_total[OF assms(1-3)])
qed

theorem accepted_case_ends_witness: "is_ok (evaluate_transfer_plan_case 4 [branch_transfer] branch_case None)"
proof (rule accepted_case_ends[OF branch_plan_read])
  show "\<forall>t\<in>set [branch_transfer]. lowered t \<and> length (nodes t) \<le> 4"
    using branch_lowered by (simp add: branch_transfer_def)
  show "is_ok (evaluate_transfer_plan_case 4 [] branch_case None)" by code_simp
qed (simp add: handler_total_def)

text \<open>A memory in which the first entry of the table holds the target.\<close>

definition jump_env :: env where
  "jump_env = sample_env\<lparr>env_nodes := nodes jump_transfer, env_memory := [(8, 16), (9, 0), (10, 0), (11, 0)]\<rparr>"

text \<open>
  C22: A validated jump-table row is right about the transfer it names. The transfer ends in an
  indirect jump; the jump and index expressions are those whose digests the row carries; in every
  environment the jump expression is the word that memory holds at the table address plus four
  times the value of the index expression, with the faults of both; every listed entry is at that
  address for its selector, and its bytes are the image base plus the listed target, which is the
  address of a transfer; so when the index has the value of a listed selector and memory the
  listed bytes, the jump goes to the listed target. The selectors are distinct and there is one.
\<close>

theorem routes_lead_to_targets:
  assumes "check_control_row sha depth transfers inventory pe raw = Inr key" "\<forall>t\<in>snd ` set transfers. transfer_wf t"
  shows "\<exists>row t root ix. map_of transfers (snd key) = Some t \<and> rva_start t = fst key
    \<and> act_op (last (actions t)) = Term Op_outcome_indirect \<and> act_args (last (actions t)) = [root]
    \<and> read_control_row pe (case raw of JObj ms \<Rightarrow> ms | _ \<Rightarrow> []) = Inr row
    \<and> distinct (map rt_selector (cr_routes row)) \<and> cr_routes row \<noteq> []
    \<and> table_load t = Inr (Some (cr_table_address row, ix))
    \<and> tree_digest sha depth (nodes t) root = Inr (cr_outcome_sha256 row)
    \<and> tree_digest sha depth (nodes t) ix = Inr (cr_index_sha256 row)
    \<and> (\<forall>e. env_nodes e = nodes t \<longrightarrow> graph_value e root = bind (graph_value e ix) (\<lambda>sel.
         bind (memory_read (env_memory e) (u32 (cr_table_address row + sel * 4)) 4) (\<lambda>v. Inr (u32 v))))
    \<and> (\<forall>r\<in>set (cr_routes row). rt_target_rva r \<in> rva_start ` snd ` set transfers
        \<and> rt_entry_address r = u32 (cr_table_address row + rt_selector r * 4)
        \<and> le_value (rt_bytes r) = cr_image_base row + rt_target_rva r
        \<and> (\<forall>e. env_nodes e = nodes t \<longrightarrow> graph_value e ix = Inr (rt_selector r)
             \<longrightarrow> memory_read (env_memory e) (rt_entry_address r) 4 = Inr (le_value (rt_bytes r))
             \<longrightarrow> graph_value e root = Inr (cr_image_base row + rt_target_rva r)))"
proof -
  obtain ms row t ix where c: "raw = JObj ms" "read_control_row pe ms = Inr row" "map_of transfers (cr_unit_id row) = Some t"
    "table_load t = Inr (Some (cr_table_address row, ix))" "list_all (route_bound row) (cr_routes row)"
    "\<forall>r\<in>set (cr_routes row). rt_target_rva r \<in> rva_start ` snd ` set transfers" "rva_start t = cr_source_rva row"
    "tree_digest sha depth (nodes t) (hd (act_args (last (actions t)))) = Inr (cr_outcome_sha256 row)"
    "tree_digest sha depth (nodes t) ix = Inr (cr_index_sha256 row)"
    "distinct (map rt_selector (cr_routes row))" "cr_routes row \<noteq> []" "key = (cr_source_rva row, cr_unit_id row)"
    by (rule checked_row[OF assms(1)])
  have wf: "transfer_wf t" using c(3) assms(2) by (force dest: map_of_SomeD)
  obtain root where root: "act_op (last (actions t)) = Term Op_outcome_indirect" "act_args (last (actions t)) = [root]" "0 \<le> root"
    by (rule indirect_root[OF wf c(4)])
  have jump: "graph_value e root = bind (graph_value e ix) (\<lambda>sel.
      bind (memory_read (env_memory e) (u32 (cr_table_address row + sel * 4)) 4) (\<lambda>v. Inr (u32 v)))"
    if "env_nodes e = nodes t" for e
    using table_load_value[OF _ that c(4) root(2,3)] wf_registered[OF wf] that by simp
  have route: "rt_entry_address r = u32 (cr_table_address row + rt_selector r * 4)
      \<and> le_value (rt_bytes r) = cr_image_base row + rt_target_rva r \<and> u32 (cr_image_base row + rt_target_rva r) = cr_image_base row + rt_target_rva r"
    if "r \<in> set (cr_routes row)" for r
  proof -
    have "u32 (rt_target_address r) = rt_target_address r"
      using read_control_row_routes[OF c(2) that] by (simp add: in32_def u32_id)
    then show ?thesis using c(5) that by (simp add: list_all_iff route_bound_def flip: u32_def)
  qed
  show ?thesis
    by (rule exI[of _ row], rule exI[of _ t], rule exI[of _ root], rule exI[of _ ix]) (use c root jump route in auto)
qed

theorem routes_lead_to_targets_witness:
  "graph_value jump_env 5 = Inr 16 \<and> tree_digest fixed_digest 6 (nodes jump_transfer) 0 = Inr digest_text"
proof -
  have load: "table_load jump_transfer = Inr (Some (8, 0))" by code_simp
  have ix: "graph_value jump_env 0 = Inr 0" by code_simp
  have m: "memory_read (env_memory jump_env) 8 4 = Inr 16" by code_simp
  have "map_sum id cr_index_sha256 (read_control_row None jump_row) = Inr digest_text" by code_simp
  then have row: "cr_index_sha256 row = digest_text" if "read_control_row None jump_row = Inr row" for row using that by simp
  have "act_args (last (actions jump_transfer)) = [5]" "env_nodes jump_env = nodes jump_transfer"
    by (simp_all add: jump_transfer_def mk_action_def jump_env_def)
  with routes_lead_to_targets[OF jump_row_checked] jump_wf load row
  have "tree_digest fixed_digest 6 (nodes jump_transfer) 0 = Inr digest_text"
    "graph_value jump_env 5 = bind (graph_value jump_env 0) (\<lambda>sel.
       bind (memory_read (env_memory jump_env) (u32 (8 + sel * 4)) 4) (\<lambda>v. Inr (u32 v)))"
    by (auto simp del: bind_def)
  then show ?thesis using ix m by (simp add: u32_id)
qed

text \<open>
  C23: A validated atomic authority covers the atomic effects of the plan exactly: its rows are in
  strict order, one for each atomic effect of a transfer and no other, with the operation and the
  width of the effect, and no two rows name the same machine action.
\<close>

theorem validated_authority:
  assumes "validate_atomic_effect_authority sha rows transfers = Inr ()"
  shows "\<exists>seen. mapM (read_authority_row sha) rows = Inr seen \<and> authority_of (expected_atomics transfers) seen
    \<and> set (map ar_key seen) = set (map fst (expected_atomics transfers))"
proof -
  let ?e = "expected_atomics transfers"
  obtain seen where f: "foldM (check_authority_row sha ?e) [] rows = Inr seen" "set (map ar_key seen) = set (map fst ?e)"
    using assms by (auto simp: validate_atomic_effect_authority_def bad_authority_def Let_def elim!: bind_OkE split: if_split_asm)
  have "authority_of ?e seen"
    by (rule foldM_invariant[OF f(1), of "authority_of ?e"])
      (auto simp: authority_of_def[of _ "[]"] intro: check_authority_row_keeps)
  with f foldM_rows[OF f(1)] show ?thesis by auto
qed

theorem validated_authority_witness:
  "set (map fst (expected_atomics [(''swap'', exchange_transfer)])) = {(''swap'', 1)}
     \<and> (\<exists>seen. mapM (read_authority_row fixed_digest) [exchange_authority] = Inr seen \<and> map ar_key seen = [(''swap'', 1)]
          \<and> authority_of (expected_atomics [(''swap'', exchange_transfer)]) seen)"
proof -
  have e: "set (map fst (expected_atomics [(''swap'', exchange_transfer)])) = {(''swap'', 1)}" by code_simp
  have "map_sum id ar_key (read_authority_row fixed_digest exchange_authority) = Inr (''swap'', 1)" by code_simp
  then obtain r where "read_authority_row fixed_digest exchange_authority = Inr r" "ar_key r = (''swap'', 1)"
    by (cases "read_authority_row fixed_digest exchange_authority") auto
  with validated_authority[OF exchange_validated] e show ?thesis by auto
qed

text \<open>
  C24: Collecting blockers accounts for every row of the machine IR: the transfers are those of
  the accepted rows, a row is accepted exactly when it is not incomplete, the compiler gives its
  transfer and no earlier accepted row has that name or address, and every other row has exactly
  one blocker, which carries its index, its identity and the code, message, next action and phase
  of what blocked it. The transfers have strictly increasing addresses and distinct names, and
  compilation without collection succeeds, with the same transfers, exactly when there is no
  blocker.
\<close>

theorem compiled_rows_account:
  assumes "compile_transfer_rows compiler True rows = Inr (ts, bs)"
  shows "length ts + length bs = length rows \<and> sorted (map rva_start ts) \<and> distinct (map rva_start ts)
    \<and> distinct (map identity ts) \<and> distinct (map bl_index bs) \<and> (\<forall>b\<in>set bs. 0 \<le> bl_index b \<and> bl_index b < int (length rows))
    \<and> (\<exists>accepted found. ts = sort_key rva_start (map snd accepted) \<and> bs = sort_key transfer_blocker_sort_key found
       \<and> sorted_wrt (<) (map fst accepted)
       \<and> (\<forall>(i, t)\<in>set accepted. i < length rows \<and> compiler (rows ! i) = Inr (Inr t)
            \<and> block_cause compiler accepted i (rows ! i) = None)
       \<and> map bl_index found = map int (filter (\<lambda>i. i \<notin> fst ` set accepted) [0..<length rows])
       \<and> (\<forall>b\<in>set found. explained compiler rows accepted b))
    \<and> (if bs = [] then compile_transfer_rows compiler False rows = Inr (ts, [])
       else \<not> is_ok (compile_transfer_rows compiler False rows))"
proof -
  let ?start = "\<lparr>cs_transfers = [], cs_blockers = []\<rparr>"
  obtain s where s: "foldM (compile_row compiler True) ?start (enumerate 0 rows) = Inr s"
    "ts = sort_key rva_start (cs_transfers s)" "bs = sort_key transfer_blocker_sort_key (cs_blockers s)"
    using assms by (auto simp: compile_transfer_rows_def elim!: bind_OkE)
  have c: "collected (length rows) s" using compile_rows_collect[OF s(1) compile_start] by simp
  have e: "bs = [] \<longleftrightarrow> cs_blockers s = []" by (metis s(3) length_0_conv length_sort)
  have d: "distinct (map rva_start ts)" "distinct (map identity ts)" "distinct (map bl_index bs)"
    using c unfolding s(2,3) collected_def distinct_map by simp_all
  obtain accepted where "accounted compiler rows (length rows) accepted (cs_blockers s)" "cs_transfers s = map snd accepted"
    using compile_rows_account[OF s(1), of rows "[]" "[]"] accounted_start by auto
  then have "\<exists>accepted found. ts = sort_key rva_start (map snd accepted) \<and> bs = sort_key transfer_blocker_sort_key found
       \<and> sorted_wrt (<) (map fst accepted)
       \<and> (\<forall>(i, t)\<in>set accepted. i < length rows \<and> compiler (rows ! i) = Inr (Inr t)
            \<and> block_cause compiler accepted i (rows ! i) = None)
       \<and> map bl_index found = map int (filter (\<lambda>i. i \<notin> fst ` set accepted) [0..<length rows])
       \<and> (\<forall>b\<in>set found. explained compiler rows accepted b)"
    using s(2,3) unfolding accounted_def by (intro exI[of _ accepted] exI[of _ "cs_blockers s"]) simp
  moreover have "foldM (compile_row compiler False) ?start (enumerate 0 rows) = Inr s" if "bs = []"
    using compile_rows_strict[of compiler ?start] s(1) that e by simp
  then have "compile_transfer_rows compiler False rows = Inr (ts, [])" if "bs = []"
    using that s(2,3) by (simp add: compile_transfer_rows_def)
  moreover have "bs = []" if "is_ok (compile_transfer_rows compiler False rows)"
    using that compile_rows_strict[of compiler ?start] s(1)
    by (auto simp: e is_ok_iff compile_transfer_rows_def elim!: bind_OkE)
  moreover have "length ts + length bs = length rows" "sorted (map rva_start ts)"
    "\<forall>b\<in>set bs. 0 \<le> bl_index b \<and> bl_index b < int (length rows)"
    using c unfolding s(2,3) by (simp_all add: collected_def)
  ultimately show ?thesis unfolding if_bool_eq_conj using d by (intro conjI) blast+
qed

theorem compiled_rows_account_witness:
  "\<exists>ts bs accepted. compile_transfer_rows (\<lambda>_. Inr (Inr branch_transfer)) True [[], [], [(''status'', JStr ''incomplete'')]] = Inr (ts, bs)
     \<and> length ts = 1 \<and> length bs = 2 \<and> ts = map snd accepted
     \<and> (\<forall>b\<in>set bs. explained (\<lambda>_. Inr (Inr branch_transfer)) [[], [], [(''status'', JStr ''incomplete'')]] accepted b)"
proof -
  let ?rows = "[[], [], [(''status'', JStr ''incomplete'')]]"
  have "map_sum id (length \<circ> fst) (compile_transfer_rows (\<lambda>_. Inr (Inr branch_transfer)) True ?rows) = Inr 1" by code_simp
  then obtain ts bs where r: "compile_transfer_rows (\<lambda>_. Inr (Inr branch_transfer)) True ?rows = Inr (ts, bs)" "length ts = 1"
    by (cases "compile_transfer_rows (\<lambda>_. Inr (Inr branch_transfer)) True ?rows") auto
  have len: "length ts + length bs = 3" using compiled_rows_account[OF r(1)] by simp
  from compiled_rows_account[OF r(1)]
  have "\<exists>accepted found. ts = sort_key rva_start (map snd accepted) \<and> bs = sort_key transfer_blocker_sort_key found
      \<and> (\<forall>b\<in>set found. explained (\<lambda>_. Inr (Inr branch_transfer)) ?rows accepted b)"
    by (elim conjE exE) (intro exI conjI)
  then obtain accepted found where a: "ts = sort_key rva_start (map snd accepted)"
    "bs = sort_key transfer_blocker_sort_key found" "\<forall>b\<in>set found. explained (\<lambda>_. Inr (Inr branch_transfer)) ?rows accepted b"
    by (elim exE conjE)
  have "length (map snd accepted) = 1" using a(1) r(2) by (metis length_sort)
  then have "ts = map snd accepted" unfolding a(1) by (auto simp: length_Suc_conv)
  moreover have "set bs = set found" by (simp add: a(2))
  ultimately show ?thesis using r len a(3) by (intro exI[of _ ts] exI[of _ bs] exI[of _ accepted]) simp
qed

section \<open>Serialized transfers\<close>

text \<open>
  C25: Every document the plan reader accepts denotes one transfer: written again under its own
  source binding, that transfer is accepted by the writer and reads back identical, rows of every
  kind included.
\<close>

theorem transfer_document_roundtrip:
  assumes "transfer_from_payload sha row = Inr t" "jget row ''source'' = JObj source"
  shows "\<exists>row'. transfer_payload t source = Inr row' \<and> transfer_from_payload sha row' = Inr t"
  by (rule transfer_reread[OF assms])

theorem transfer_document_roundtrip_witness:
  "\<exists>row'. transfer_payload branch_transfer branch_source = Inr row' \<and> transfer_from_payload id row' = Inr branch_transfer"
proof -
  have "jget branch_row ''source'' = JObj branch_source" by code_simp
  from transfer_document_roundtrip[OF branch_row_read this] show ?thesis .
qed

text \<open>
  C26: A transfer the reader accepts is well formed: its expressions form an acyclic graph of
  registered nodes, its actions are registered effects followed by exactly one registered
  terminator, every reference of an action or call names an existing row, and call frames hold
  every register and flag.
\<close>

theorem accepted_transfer_shape:
  assumes "transfer_from_payload sha row = Inr t"
  shows "transfer_wf t"
  by (rule accepted_transfer_wf[OF assms])

theorem accepted_transfer_shape_witness: "transfer_wf branch_transfer"
  by (rule accepted_transfer_shape[OF branch_row_read])

text \<open>
  The reader accepts a set_reg effect whose auxiliary field names no register, and the evaluator
  leaves such an effect with an IndexError that nothing catches.
\<close>

theorem register_index_unchecked:
  assumes "8 \<le> k" "0 < expression_count" "map_of (cfg_words c) 0 = Some v"
  shows "effect_from_payload expression_count call_count x87_count 0
      (JObj [(''id'', JInt 0), (''op'', JStr ''set_reg''), (''operands'', JList [JInt 0]),
        (''parameters'', JObj [(''aux'', JInt k)])]) = Inr (mk_action (Eff Op_set_reg) [0] k)
    \<and> effect_step Op_set_reg x c (mk_action (Eff Op_set_reg) [0] k) = Fault Index_error c"
proof -
  have name: "op_of_name ''set_reg'' = Eff Op_set_reg" by code_simp
  have "is_ok (action_operation_v2 (mk_action (Eff Op_set_reg) [0] 0) False)" by code_simp
  then have "is_ok (action_operation_v2 (mk_action (Eff Op_set_reg) [0] k) False)"
    by (cases "map_of effect_operations_v2 (Eff Op_set_reg)") (simp_all add: action_operation_v2_def mk_action_def)
  then obtain row where reg: "action_operation_v2 (mk_action (Eff Op_set_reg) [0] k) False = Inr row"
    by (auto simp: is_ok_iff)
  have "effect_from_payload expression_count call_count x87_count 0
      (JObj [(''id'', JInt 0), (''op'', JStr ''set_reg''), (''operands'', JList [JInt 0]),
        (''parameters'', JObj [(''aux'', JInt k)])]) = Inr (mk_action (Eff Op_set_reg) [0] k)"
    using assms(1,2) reg
    by (simp add: effect_from_payload_def has_fields_def jget_def read_action_def parameters_def
        int_tuple_def name mk_action_def insert_commute)
  moreover have "effect_step Op_set_reg x c (mk_action (Eff Op_set_reg) [0] k) = Fault Index_error c"
    using assms by (simp add: arg_value_def mk_action_def catch_def cached_def reg_at_def py_index_unfold registers_table_def)
  ultimately show ?thesis by blast
qed

theorem register_index_unchecked_witness:
  "\<forall>x. effect_step Op_set_reg x exchange_cfg (mk_action (Eff Op_set_reg) [0] 8) = Fault Index_error exchange_cfg"
  using register_index_unchecked[of 8 1 exchange_cfg 3 0 0] by (simp add: exchange_cfg_def)

section \<open>The transfer compiler\<close>

definition call_binding :: members where
  "call_binding = [(''rva_start'', JInt 16), (''rva_end'', JInt 32), (''unit_ir_sha256'', JStr digest_text),
     (''contract_sha256'', JStr digest_text), (''instruction_bytes_sha256'', JStr digest_text)]"

lemma fixed_digests: "digests fixed_digest"
  unfolding digests_def by (rule allI) code_simp

text \<open>
  C27: Sharing of nodes is sound: from a memo table whose entries represent their expressions (an
  empty one, for instance), the nodes the compiler returns for a list of expressions have, in
  every environment of the evaluator, the values of those expressions evaluated without any graph,
  and the table keeps representing its expressions. The expressions carry no list or object as the
  label of an undefined value.
\<close>

theorem compiled_words_denote:
  assumes "graph_ok s" "memo_represents s" "mapC (word c) raws s = Inr (is, s')"
    "\<forall>raw\<in>set raws. plain_labels raw \<and> json_height raw < depth" "env_nodes e = cn_nodes s'"
  shows "map (graph_value e) is = map (expression_value depth (cn_local s') (cn_available s') e) raws \<and> memo_represents s'"
proof -
  have nodes: "list_all2 (\<lambda>raw i. node_of s' raw i) raws is" and memo: "memo_represents s'"
    using memo.holdsD[OF words_represent assms(2) TrueI assms(3)] assms(4) by blast+
  have graph: "graph_ok s'" by (rule words_graph[OF assms(3,1)])
  have "expression_value depth (cn_local s') (cn_available s') e raw = graph_value e i"
    if "node_of s' raw i" "raw \<in> set raws" for raw i
    using node_of_value[OF that(1) graph assms(5)] that(2) assms(4) by (simp add: height_sorted)
  then have "map (graph_value e) is = map (expression_value depth (cn_local s') (cn_available s') e) raws"
    using nodes by (auto simp: list_all2_conv_all_nth intro!: nth_equalityI)
  then show ?thesis using memo by blast
qed

definition sample_words :: "json list" where
  "sample_words = [JInt 5, JObj [(''op'', JStr ''add32''), (''args'', JList [JInt 5, JInt 5])], JBool True]"

definition sample_compiler :: compiler where
  "sample_compiler = \<lparr>cp_row = [], cp_sha = fixed_digest, cp_decoder = no_decoder, cp_depth = 4\<rparr>"

theorem compiled_words_denote_witness:
  "\<exists>is s'. mapC (word sample_compiler) sample_words initial_cstate = Inr (is, s')
     \<and> map (graph_value (sample_env\<lparr>env_nodes := cn_nodes s'\<rparr>)) is
       = map (expression_value 3 (cn_local s') (cn_available s') (sample_env\<lparr>env_nodes := cn_nodes s'\<rparr>)) sample_words"
proof -
  have "is_ok (mapC (word sample_compiler) sample_words initial_cstate)" by code_simp
  then obtain "is" s' where w: "mapC (word sample_compiler) sample_words initial_cstate = Inr (is, s')"
    by (auto simp: is_ok_iff)
  have start: "graph_ok initial_cstate" "memo_represents initial_cstate"
    by (simp_all add: graph_ok_def memo_represents_def initial_cstate_def)
  have plain: "\<forall>raw\<in>set sample_words. plain_labels raw \<and> json_height raw < 3"
    by (simp add: sample_words_def plain_labels.simps)
  show ?thesis
    using compiled_words_denote[OF start w plain, of "sample_env\<lparr>env_nodes := cn_nodes s'\<rparr>"] w by auto
qed



text \<open>
  C29: No effect of a compiled transfer reads a value before it exists: every word that an effect,
  the frame of a call or the outcome reads was evaluated by an earlier effect, or observed by an
  earlier atomic action, on every path of the compiler.
\<close>

theorem compiled_reads_evaluated:
  assumes "compile_semantic_row sha decoder depth row = Inr t" "k < length (actions t)"
    "r \<in> set (words_read (calls t) (actions t ! k))"
  shows "\<exists>j < k. act_op (actions t ! j) = Eff Op_eval_word \<and> act_args (actions t ! j) = [r]
    \<or> act_op (actions t ! j) \<in> {Eff Op_atomic_compare_exchange, Eff Op_atomic_exchange} \<and> last (act_args (actions t ! j)) = r"
proof -
  have "evaluated (take k (actions t)) r"
    using compiled_in_order[OF assms(1)] assms(2,3) by (simp add: in_order_def)
  then obtain a where a: "a \<in> set (take k (actions t))" "act_op a = Eff Op_eval_word \<and> act_args a = [r]
      \<or> act_op a \<in> {Eff Op_atomic_compare_exchange, Eff Op_atomic_exchange} \<and> last (act_args a) = r"
    unfolding evaluated_def by blast
  from a(1) obtain j where "j < k" "a = actions t ! j" using assms(2) by (auto simp: in_set_conv_nth)
  with a(2) show ?thesis by blast
qed

theorem compiled_reads_evaluated_witness:
  "\<exists>j < 4. act_args (actions (call_transfer ''f'') ! j) = [2]"
proof -
  have k: "4 < length (actions (call_transfer ''f''))" "2 \<in> set (words_read (calls (call_transfer ''f'')) (actions (call_transfer ''f'') ! 4))"
    by code_simp+
  obtain j where j: "j < 4" "act_op (actions (call_transfer ''f'') ! j) = Eff Op_eval_word \<and> act_args (actions (call_transfer ''f'') ! j) = [2]
    \<or> act_op (actions (call_transfer ''f'') ! j) \<in> {Eff Op_atomic_compare_exchange, Eff Op_atomic_exchange}
      \<and> last (act_args (actions (call_transfer ''f'') ! j)) = 2"
    using compiled_reads_evaluated[OF call_row_compiled[of "''f''"] k] by blast
  then have "j = 0 \<or> j = 1 \<or> j = 2 \<or> j = 3" by auto
  with j show ?thesis by (auto simp: call_transfer_def)
qed

text \<open>
  C30: What the compiler accepts the plan carries: a transfer compiled from any row is written by
  the plan writer under a matching source binding, and the strict reader gives it back unchanged,
  provided digests are digests and no call of the row names a library or a symbol by the empty
  string.
\<close>

theorem compiled_row_readable:
  assumes "compile_semantic_row sha decoder depth row = Inr t" "digests sha" "calls_named t"
    "read_source source = Inr (rva_start t)" "jget source ''contract_sha256'' = JStr (contract_sha256 t)"
    "jget source ''instruction_bytes_sha256'' = JStr (instruction_bytes_sha256 t)"
  shows "\<exists>row'. transfer_payload t source = Inr row' \<and> transfer_from_payload sha row' = Inr t"
  using transfer_written[OF conjunct1[OF compiled_transfer_good[OF assms(1-3)]] assms(4-6)] .

theorem compiled_row_readable_witness:
  "\<exists>row'. transfer_payload (call_transfer ''f'') call_binding = Inr row'
     \<and> transfer_from_payload fixed_digest row' = Inr (call_transfer ''f'')"
proof -
  have "read_source call_binding = Inr (rva_start (call_transfer ''f''))" by code_simp
  then show ?thesis
    by (intro compiled_row_readable[OF call_row_compiled fixed_digests])
      (simp_all add: calls_named_def call_transfer_def call_binding_def jget_def)
qed

text \<open>
  The compiler and the plan reader disagree on one field: a call whose symbol is the empty string
  is compiled and written with the empty symbol, and the reader then rejects the transfer.
\<close>

theorem nameless_call_unreadable:
  "\<exists>row'. compile_semantic_row fixed_digest no_decoder 3 (call_row []) = Inr (call_transfer [])
     \<and> transfer_payload (call_transfer []) call_binding = Inr row' \<and> \<not> is_ok (transfer_from_payload fixed_digest row')"
proof -
  have "is_ok (transfer_payload (call_transfer []) call_binding)" by code_simp
  moreover have "\<not> is_ok (bind (transfer_payload (call_transfer []) call_binding) (transfer_from_payload fixed_digest))"
    by code_simp
  ultimately show ?thesis using call_row_compiled by (auto simp: is_ok_iff)
qed

text \<open>
  C31: Every fault of a row has its effect and its record: the effects that can fault carry the
  numbers 0, 1, ... of the row's faults in order, calls and x87 operations are numbered likewise
  by their own effects, and the i-th exception occurrence carries the digest of the i-th fault and
  points at an effect with that number.
\<close>

theorem compiled_faults_accounted:
  assumes "compile_semantic_row sha decoder depth row = Inr t"
  shows "map act_aux (filter fault_effect (butlast (actions t))) = map int [0..<listed row ''faults'']
    \<and> map act_args (filter (\<lambda>a. act_op a = Eff Op_call) (butlast (actions t))) = map (\<lambda>k. [int k]) [0..<length (calls t)]
    \<and> map act_args (filter (\<lambda>a. act_op a = Eff Op_typed_x87) (butlast (actions t)))
        = map (\<lambda>k. [int k]) [0..<length (x87_operations t)]
    \<and> (\<forall>i < listed row ''faults''. i < length (exception_occurrences t)
        \<and> fault_occurrence sha (actions t) i (optional_list (jget row ''faults'') ! i) (exception_occurrences t ! i))"
  using compiled_numbers[OF assms] compiled_fault_occurrences[OF assms] by blast

theorem compiled_faults_accounted_witness:
  "map act_aux (filter fault_effect (butlast (actions (call_transfer ''f'')))) = [0]
   \<and> fault_occurrence fixed_digest (actions (call_transfer ''f'')) 0 fault_row_event (exception_occurrences (call_transfer ''f'') ! 0)"
proof -
  have "listed (call_row ''f'') ''faults'' = 1" "optional_list (jget (call_row ''f'') ''faults'') ! 0 = fault_row_event"
    by (simp_all add: listed_def call_row_def jget_def)
  with compiled_faults_accounted[OF call_row_compiled[of "''f''"]] show ?thesis by auto
qed

text \<open>
  C32: The evaluation of a compiled transfer always ends in a result: no exception escapes it,
  from any state and memory, when the recursion limit reaches the number of expressions, the call
  handler returns, and the row used neither shift flags nor a sign bit of a width that is not a
  positive constant, nor observes an atomic value by a constant.
\<close>

theorem compiled_transfer_evaluates:
  assumes "compile_semantic_row sha decoder depth row = Inr t" "evaluable t" "handler_total h" "length (nodes t) \<le> limit"
  shows "is_ok (evaluate_transfer limit t s m u h)"
  by (rule compiled_evaluates[OF assms])

theorem compiled_transfer_evaluates_witness:
  "is_ok (evaluate_transfer 3 (call_transfer ''f'') initial_state [] [] None)"
proof -
  have "evaluable (call_transfer ''f'')" by code_simp
  from compiled_transfer_evaluates[OF call_row_compiled this, of None 3] show ?thesis
    by (simp add: handler_total_def call_transfer_def)
qed

text \<open>
  C33: The canonical text of a document, of which the digests of plans, units, graphs and
  signatures are taken, identifies it up to the order of keys: two documents have the same text
  exactly when they are equal after sorting the keys of every object.
\<close>

theorem canonical_text_identifies: "canonical_json v = canonical_json w \<longleftrightarrow> sort_keys v = sort_keys w"
  by (rule canonical_json_eq_iff)

section \<open>Typed x87 operations\<close>

definition sample_fadd :: members where
  "sample_fadd = [(''format'', JStr ''spaghetti-extractor-x87-micro-op-v1''), (''mnemonic'', JStr ''FADD''),
     (''operands'', JList [JObj [(''kind'', JStr ''memory''), (''width_bits'', JInt 64), (''scale'', JInt 4),
        (''displacement'', JInt 8), (''base'', JStr ''EBX''), (''index'', JStr ''esi'')]]), (''size'', JInt 3)]"

definition fadd_operation :: x87_operation where
  "fadd_operation = mk_operation id ''fadd'' \<lparr>xo_kind = ''memory'', xo_width = 8, xo_registers = [], xo_base = Some ''ebx'',
     xo_index = Some ''esi'', xo_scale = 4, xo_displacement = 8, xo_image_rva = None\<rparr> 3"

text \<open>
  C34: A typed x87 operation extracted from instruction bytes, or projected from a micro
  operation, is stored in a form the strict reader accepts and reads back as the same operation,
  its identity included, for every operand kind, width and addressing form.
\<close>

theorem x87_operation_roundtrip:
  assumes "extract_typed_x87_operation sha decoder encoded instr ib = Inr x
      \<or> typed_x87_operation_from_micro_op sha mop ib = Inr x"
  shows "typed_x87_operation_from_payload sha (x87_operation_payload x) ib = Inr x"
  by (rule x87_operation_stored[OF assms])

theorem x87_operation_roundtrip_witness:
  "typed_x87_operation_from_payload id (x87_operation_payload fadd_operation) 0x400000 = Inr fadd_operation"
proof -
  have "typed_x87_operation_from_micro_op id sample_fadd 0x400000 = Inr fadd_operation" by code_simp
  from x87_operation_roundtrip[OF disjI2[OF this]] show ?thesis .
qed

text \<open>
  The strict reader of stored operations accepts an operand-free operation of any mnemonic, also
  of one that no x87 instruction has and that the reader of micro operations refuses.
\<close>

theorem x87_reader_any_mnemonic:
  assumes "m \<noteq> []" "0 < sz" "py_lower m \<notin> set x87_no_operand_mnemonics"
  shows "is_ok (typed_x87_operation_from_payload sha (x87_operation_payload (mk_operation sha (py_lower m) (mk_operand ''none'' 0 []) sz)) ib)
    \<and> \<not> is_ok (typed_x87_operation_from_micro_op sha [(''format'', JStr ''spaghetti-extractor-x87-micro-op-v1''),
          (''mnemonic'', JStr m), (''operands'', JList []), (''size'', JInt sz)] ib)"
proof -
  have "py_lower m \<noteq> []" using assms(1) by (simp add: py_lower_def)
  from stored_operation[OF canonical_none[OF this] assms(2), of sha ib]
  show ?thesis
    using assms by (simp add: typed_x87_operation_from_micro_op_def jget_def micro_operand_def input_error_def)
qed

theorem x87_reader_any_mnemonic_witness:
  "is_ok (typed_x87_operation_from_payload id (x87_operation_payload (mk_operation id (py_lower ''call'') (mk_operand ''none'' 0 []) 1)) 0)"
proof -
  have "py_lower ''call'' \<notin> set x87_no_operand_mnemonics" by code_simp
  from x87_reader_any_mnemonic[OF _ _ this, of 1 id 0] show ?thesis by simp
qed

section \<open>Memory actions\<close>



text \<open>
  C36: Builder and validator agree: a built graph whose action identities are distinct passes the
  validator, and passes as authoritative exactly when it was built from a v3 unit without issues.
\<close>

theorem built_graph_validates:
  assumes "build_memory_action_graph sha instrs evs ordered legacy = Inr graph"
    "distinct (map identity_of (objects (optional_list (jget graph ''actions''))))"
  shows "validate_memory_action_graph graph req =
    (if req \<and> (legacy \<or> jget graph ''issues'' \<noteq> JList []) then Inl Action_error else Inr ())"
proof -
  obtain s edges events where b: "order_edges (map snd (sort_key fst (bs_placed s))) = Inr edges"
    "jget graph ''actions'' = JList (map JObj (map snd (sort_key fst (bs_placed s))))"
    "jget graph ''issues'' = JList (bs_issues s)" "jget graph ''edges'' = JList edges"
    "jget graph ''format'' = JStr action_graph_format" "jget graph ''profile_id'' = JStr tso_profile"
    "jget graph ''status'' = JStr (if bs_issues s = [] then ''complete'' else ''incomplete'')"
    "jget graph ''authority'' = authority_payload legacy (bs_issues s = [])"
    "\<exists>ms. run_builder sha ms events ordered = Inr s"
    by (rule built_parts[OF assms(1)])
  define acts where "acts = map snd (sort_key fst (bs_placed s))"
  have valid: "\<forall>a\<in>set acts. valid_action a"
    using b(9) run_builder_valid by (fastforce simp: acts_def all_valid_def)
  have acts: "jget graph ''actions'' = JList (map JObj acts)" by (simp only: b(2) acts_def)
  have d: "distinct (map identity_of acts)" using assms(2) by (simp only: acts optional_list.simps objects_map)
  have ids: "foldM check_action [] (map JObj acts) = Inr (rev (map identity_of acts))"
    using check_actions[OF valid d, of "[]"] by simp
  have "foldM (\<lambda>_ e. check_edge (rev (map identity_of acts)) e) () edges = Inr ()"
    by (rule check_edges[OF valid b(1)[folded acts_def]]) simp
  then show ?thesis
    by (auto simp: validate_memory_action_graph_def b(3-8) acts ids authority_payload_def member_of_def jget_def[of "(_, _) # _"])
qed

theorem built_graph_validates_witness:
  "\<exists>g. build_memory_action_graph fixed_digest [locked_add] (tl counter_events) [] False = Inr g
     \<and> validate_memory_action_graph g True = Inr ()"
proof -
  obtain g where g: "build_memory_action_graph fixed_digest [locked_add] (tl counter_events) [] False = Inr g"
    "jget g ''issues'' = JList []" "objects (optional_list (jget g ''actions'')) = built_actions (tl counter_events)"
    by (rule addition_built)
  have "distinct (map identity_of (built_actions (tl counter_events)))" by code_simp
  then show ?thesis using built_graph_validates[OF g(1), of True] g by simp
qed

text \<open>
  An instruction whose mnemonic is blank makes the builder raise IndexError instead of a memory-
  action error or an issue: the mnemonic is split into words and the first one is taken without a
  check.
\<close>

theorem blank_mnemonic:
  assumes "jget instr ''mnemonic'' = JStr m" "\<forall>c\<in>set m. is_space c"
  shows "build_memory_action_graph sha [JObj instr] [] [] legacy = Inl Index_error"
proof -
  obtain ms where ms: "copy_mapping (JObj instr) = Inr ms" by (simp add: copy_mapping_def)
  have "strip m = []" using assms(2) by (auto simp: strip_def dest: set_dropWhileD)
  then have "base_mnemonic ms = Inl Index_error"
    using copied_string[OF assms(1) ms] by (simp add: base_mnemonic_def py_lower_def py_index_def py_position_def)
  then show ?thesis
    using ms by (simp add: build_memory_action_graph_def run_builder_def instruction_step_def Let_def)
qed

theorem blank_mnemonic_witness: "build_memory_action_graph id [JObj [(''mnemonic'', JStr '' '')]] [] [] False = Inl Index_error"
  by (rule blank_mnemonic[of _ "'' ''"]) (simp_all add: jget_def is_space_def)

text \<open>
  C37: Concurrency signatures are compared up to the names of their actions: an injective renaming
  of action identities, in actions and edges alike, leaves the normal form unchanged, errors
  included.
\<close>

theorem normal_form_rename:
  assumes "inj f" "named_signature sg"
  shows "signature_normal_form (rename_signature f sg) = signature_normal_form sg"
proof -
  obtain actions edges where sg: "jget sg ''actions'' = JList (map JObj actions)" "jget sg ''edges'' = JList (map JObj edges)"
    "\<forall>a\<in>set actions. is_string (jget a ''id'')" "\<forall>e\<in>set edges. is_string (jget e ''before'') \<and> is_string (jget e ''after'')"
    using assms(2) by (auto simp: named_signature_def)
  have r: "jget (rename_signature f sg) ''actions'' = JList (map JObj (map (rename_at [''id''] f) actions))"
    "jget (rename_signature f sg) ''edges'' = JList (map JObj (map (rename_at [''before'', ''after''] f) edges))"
    "jget (rename_signature f sg) ''format'' = jget sg ''format''"
    by (simp_all add: rename_signature_def sg(1,2) jget_def[of "(_, _) # _"])
  let ?ls = "signature_labels actions"
  have es: "map (label_edge (map (apfst f) ?ls)) (map (rename_at [''before'', ''after''] f) edges) = map (label_edge ?ls) edges"
    using label_edge_rename[OF assms(1)] sg(4) by simp
  have ls: "map snd (map (apfst f) ?ls) = map snd ?ls" by simp
  show ?thesis
    unfolding signature_normal_form_def r sg(1,2) json.case objects_map labels_rename[OF assms(1) sg(3)] prod.case Let_def
      es ls length_map ..
qed

definition pair_signature :: members where
  "pair_signature =
     [(''format'', JStr signature_format),
      (''actions'', JList (map JObj [[(''id'', JStr ''a''), (''kind'', JStr ''read'')], [(''id'', JStr ''b''), (''kind'', JStr ''write'')]])),
      (''edges'', JList (map JObj [[(''kind'', JStr ''program_order''), (''before'', JStr ''a''), (''after'', JStr ''b'')]]))]"

theorem normal_form_rename_witness:
  "signature_normal_form (rename_signature (Cons (CHR ''x'')) pair_signature) = signature_normal_form pair_signature
     \<and> is_ok (signature_normal_form pair_signature)"
proof -
  have "named_signature pair_signature"
    unfolding named_signature_def pair_signature_def
    by (intro exI[of _ "[[(''id'', JStr ''a''), (''kind'', JStr ''read'')], [(''id'', JStr ''b''), (''kind'', JStr ''write'')]]"]
        exI[of _ "[[(''kind'', JStr ''program_order''), (''before'', JStr ''a''), (''after'', JStr ''b'')]]"])
      (simp add: jget_def is_string_def)
  from normal_form_rename[OF _ this, of "Cons (CHR ''x'')"]
  have "signature_normal_form (rename_signature (Cons (CHR ''x'')) pair_signature) = signature_normal_form pair_signature"
    by (simp add: inj_def)
  moreover have "is_ok (signature_normal_form pair_signature)" by code_simp
  ultimately show ?thesis by blast
qed

text \<open>
  The comparison of signatures is weaker than the isomorphism it declares: program order is kept
  only as pairs of neighbouring labels, so two threads that perform different stores in opposite
  orders, with the same read before, between and after them, are judged equivalent.
\<close>

theorem store_order_ignored:
  assumes "\<forall>a\<in>{r1, w1, r2, w2, r3}. named_action a" "distinct (map identity_of [r1, w1, r2, w2, r3])"
    "label_of r1 = label_of r2" "label_of r2 = label_of r3"
  shows "bind (chain_signature [r1, w1, r2, w2, r3]) (\<lambda>l. bind (chain_signature [r1, w2, r2, w1, r3])
    (signatures_equivalent l)) = Inr True"
  using assms by (intro chain_equivalent) auto

theorem store_order_ignored_witness:
  "bind (chain_signature [sample_action ''read'' ''a'', sample_action ''write'' ''b'', sample_action ''read'' ''c'', sample_action ''rmw'' ''d'', sample_action ''read'' ''e'']) (\<lambda>l.
     bind (chain_signature [sample_action ''read'' ''a'', sample_action ''rmw'' ''d'', sample_action ''read'' ''c'', sample_action ''write'' ''b'', sample_action ''read'' ''e''])
       (signatures_equivalent l)) = Inr True"
  using store_order_ignored[of "sample_action ''read'' ''a''" "sample_action ''write'' ''b''" "sample_action ''read'' ''c''"
      "sample_action ''rmw'' ''d''" "sample_action ''read'' ''e''"]
  by (simp add: named_action_def identity_of_def label_of_def sample_action_def jget_def jitem_def)

section \<open>Flags and arithmetic\<close>

text \<open>
  C38: For every width from 1 to 32, the add-with-carry flags of the evaluator, given the
  truncated sum it checks, are exact: the carry says that the unsigned sum does not fit the width
  and the overflow that the signed sum does not.
\<close>

theorem adc_flags_exact:
  assumes "0 < w" "w \<le> 32" "0 \<le> l" "l < 2 ^ nat w" "0 \<le> r" "r < 2 ^ nat w" "c = 0 \<or> c = 1"
  shows "adc_flag [w, l, r, c, (l + r + c) mod 2 ^ nat w] False = Inr (of_bool (2 ^ nat w \<le> l + r + c))
    \<and> adc_flag [w, l, r, c, (l + r + c) mod 2 ^ nat w] True = Inr (of_bool
        (signed_value (nat w) l + signed_value (nat w) r + c \<notin> {- (2 ^ (nat w - 1)) ..< 2 ^ (nat w - 1)}))"
  using adc_flag_spec[OF assms] by blast

theorem adc_flags_exact_witness:
  "adc_flag [8, 0x7F, 0, 1, 0x80] False = Inr 0 \<and> adc_flag [8, 0x7F, 0, 1, 0x80] True = Inr 1"
  using adc_flags_exact[of 8 "0x7F" 0 1] by (simp add: signed_value_def signed_take_bit_eq_if_positive bit_iff_odd_drop_bit)

text \<open>
  C39: The arithmetic helpers of the generated programs against the evaluator, for all operands
  and widths from 1 to 32. The two agree on the 32-step division with its validity bit, sign
  extension, both high products, bit scans, parity, the overflow of addition and subtraction, the
  checked carry, the borrow wherever the evaluator's checks of borrow and result pass (elsewhere
  it faults), and the shift carry for a count between one and the width. The arithmetic shift
  agrees on the bits of the width: the evaluator keeps the sign above them, the helper clears
  them, so the words are equal exactly when the width is 32 or the operand is not negative.
\<close>

theorem runtime_helpers_agree:
  assumes "0 < n" "n \<le> 32" "0 < unat (c AND 31)" "unat (c AND 31) \<le> n" "k \<le> 2"
  shows "udiv_words [uint h, uint l, uint d] = Inr (uint (spx_udiv_quot h l d), uint (spx_udiv_rem h l d), uint (spx_udiv_valid h l d))
    \<and> sign_extend (uint v) (int n) = Inr (uint (spx_sign_extend (word_of_nat n) v))
    \<and> (\<exists>e. e = u32 (drop_bit (unat (q AND 31)) (signed_value n (uint v))) \<and> sar_word (uint v) (uint q) (int n) = Inr e
         \<and> uint (spx_sar (word_of_nat n) v q) = take_bit n e
         \<and> (uint (spx_sar (word_of_nat n) v q) = e \<longleftrightarrow> n = 32 \<or> 0 \<le> signed_value n (uint v)))
    \<and> uint (spx_mul_high l r) = drop_bit 32 (uint l * uint r) AND 0xFFFFFFFF
    \<and> uint (spx_imul_high l r) = drop_bit 32 (s32 (uint l) * s32 (uint r)) AND 0xFFFFFFFF
    \<and> uint (spx_bsr v) = (if uint v = 0 then 0 else bit_length (uint v) - 1)
    \<and> uint (spx_tzcnt v) = (if uint v = 0 then 32 else bit_length (uint v AND - uint v) - 1)
    \<and> uint (spx_parity v) = of_bool (bit_count (uint v AND 0xFF) mod 2 = 0)
    \<and> overflow_flag [int n, uint l, uint r, uint x] False = Inr (uint (spx_add_overflow (word_of_nat n) l r x))
    \<and> overflow_flag [int n, uint l, uint r, uint x] True = Inr (uint (spx_sub_overflow (word_of_nat n) l r x))
    \<and> sbb_flag [int n, uint l, uint r, uint b, uint x] False =
        (if uint b \<le> 1 \<and> take_bit n (uint l - uint r - uint b) = take_bit n (uint x)
         then Inr (uint (spx_sbb_borrow (word_of_nat n) l r b x)) else Inl Semantic_fault)
    \<and> adc_flag [uint w, uint l, uint r, uint b, uint x] False = checked (spx_adc_carry_checked w l r b x)
    \<and> shift_flag True (256 * int k + int n) [uint v, uint c] = Inr (uint (spx_shift_cf (word_of_nat k) (word_of_nat n) v c))"
proof (intro conjI)
  show "uint (spx_tzcnt v) = (if uint v = 0 then 32 else bit_length (uint v AND - uint v) - 1)"
    using tzcnt_agrees by (simp add: lowest_bit_def)
  show "\<exists>e. e = u32 (drop_bit (unat (q AND 31)) (signed_value n (uint v))) \<and> sar_word (uint v) (uint q) (int n) = Inr e
      \<and> uint (spx_sar (word_of_nat n) v q) = take_bit n e
      \<and> (uint (spx_sar (word_of_nat n) v q) = e \<longleftrightarrow> n = 32 \<or> 0 \<le> signed_value n (uint v))"
    using sar_agrees_on_width[OF assms(1,2), of v q] sar_helper_exact[OF assms(1,2) refl, of v q] assms(1,2)
    by (auto simp: sar_word_signed uint_and_31)
qed (use udiv_agrees sign_extend_agrees[OF assms(1,2)] mul_high_agrees imul_high_agrees
    bsr_agrees parity_agrees add_overflow_agrees[OF assms(1,2)] sub_overflow_agrees[OF assms(1,2)]
    sbb_borrow_complete[OF assms(1,2)] adc_carry_agrees shift_cf_agrees[OF assms] in \<open>simp_all add: lowest_bit_def del: sbb_flag.simps\<close>)

theorem runtime_helpers_agree_witness:
  "sign_extend (uint (6 :: 32 word)) (int 8) = Inr (uint (spx_sign_extend (word_of_nat 8) 6))
   \<and> shift_flag True (256 * int 1 + int 8) [uint (6 :: 32 word), uint (2 :: 32 word)]
      = Inr (uint (spx_shift_cf (word_of_nat 1) (word_of_nat 8) 6 2))"
proof -
  have "0 < (8 :: nat)" "(8 :: nat) \<le> 32" "0 < unat ((2 :: 32 word) AND 31)" "unat ((2 :: 32 word) AND 31) \<le> 8"
    "(1 :: nat) \<le> 2" by simp_all
  from runtime_helpers_agree[OF this, of 0 0 0 6 0 0 0 0 0] show ?thesis by blast
qed

text \<open>
  C40: The overflow of subtract-with-borrow, for every width from 1 to 32, all operands of that
  width, both borrows and the truncated difference. The generated program is exact: it reports an
  overflow when the signed difference does not fit the width. The evaluator adds the borrow to the
  subtrahend first, and reports the opposite exactly when the borrow is one and the subtrahend is
  the largest signed number, whatever the minuend.
\<close>

theorem subtract_borrow_overflow:
  assumes "0 < n" "n \<le> 32" "uint b \<le> 1" "uint l < 2 ^ n" "uint r < 2 ^ n"
    "uint x = (uint l - uint r - uint b) mod 2 ^ n"
  shows "(let overflows = signed_value n (uint l) - signed_value n (uint r) - uint b \<notin> {- (2 ^ (n - 1)) ..< 2 ^ (n - 1)}
    in uint (spx_sbb_overflow (word_of_nat n) l r b x) = of_bool overflows
      \<and> sbb_flag [int n, uint l, uint r, uint b, uint x] True
          = Inr (of_bool (overflows \<noteq> (uint b = 1 \<and> uint r = 2 ^ (n - 1) - 1))))"
proof -
  have b: "uint b = 0 \<or> uint b = 1" using assms(3) uint_nonnegative[of b] by linarith
  have "take_bit n (uint x) = (uint l - uint r - uint b) mod 2 ^ n"
    unfolding assms(6) by (simp add: take_bit_eq_mod)
  from spx_sbb_overflow_exact[OF assms(1,2,3) this] sbb_overflow_value[OF assms(1,2) _ assms(4) _ assms(5) b]
  show ?thesis unfolding Let_def assms(6) by simp
qed

theorem subtract_borrow_overflow_witness:
  "sbb_flag [int 32, uint (0 :: 32 word), uint (0x7fffffff :: 32 word), uint (1 :: 32 word), uint (0x80000000 :: 32 word)] True = Inr 1
   \<and> uint (spx_sbb_overflow (word_of_nat 32) 0 0x7fffffff 1 0x80000000) = 0"
proof -
  have v: "signed_value 32 0x7fffffff = 0x7fffffff" "signed_value 32 0 = 0" by (simp_all add: signed_value_eq)
  show ?thesis using subtract_borrow_overflow[of 32 1 0 "0x7fffffff" "0x80000000"] by (simp add: v Let_def del: sbb_flag.simps)
qed

section \<open>Coverage, providers, minimisation\<close>

text \<open>
  The evaluator's coverage declaration is true: an expression operation of the registry is
  declared as handled exactly when some node of it, with an arity the registry accepts, evaluates.
\<close>

theorem evaluator_coverage_true:
  assumes "oper \<in> expression_registry"
  shows "oper \<notin> concrete_rejected_expressions_v2 \<longleftrightarrow>
    (\<exists>n row e vs. node_op n = oper \<and> expression_operation_v2 n = Inr row \<and> length vs = length (node_args n)
       \<and> is_ok (eval_node e n vs))"
  by (rule declared_truthfully[OF assms])

theorem evaluator_coverage_true_witness:
  "\<exists>n row e vs. node_op n = Word Op_load \<and> expression_operation_v2 n = Inr row \<and> length vs = length (node_args n)
     \<and> is_ok (eval_node e n vs)"
proof -
  have "Word Op_load \<in> expression_registry" by code_simp
  from evaluator_coverage_true[OF this] show ?thesis by (simp add: concrete_rejected_expressions_v2_def)
qed

text \<open>
  Minimisation is refused for a matching case; otherwise the case it returns still shows a
  mismatch, and its memory segments are a subsequence of the original ones.
\<close>

theorem minimised_case_still_differs:
  assumes "minimize_mismatch_case c ex obs = Inr c'"
  shows "differs ex obs c \<and> differs ex obs c' \<and> subseq (segments c') (segments c)"
  using minimize_differs[OF assms] minimize_segments[OF assms] by blast

theorem minimised_case_still_differs_witness:
  "\<exists>c'. minimize_mismatch_case [(''memory'', JList [JNull, JNull])] (\<lambda>c. [(''result'', JNull)]) (\<lambda>c. [(''result'', JInt 1)]) = Inr c'
     \<and> subseq (segments c') [JNull, JNull]"
proof -
  have "is_ok (minimize_mismatch_case [(''memory'', JList [JNull, JNull])] (\<lambda>c. [(''result'', JNull)]) (\<lambda>c. [(''result'', JInt 1)]))"
    by code_simp
  then obtain c' where c': "minimize_mismatch_case [(''memory'', JList [JNull, JNull])] (\<lambda>c. [(''result'', JNull)])
      (\<lambda>c. [(''result'', JInt 1)]) = Inr c'" by (auto simp: is_ok_iff)
  from minimised_case_still_differs[OF c'] c' show ?thesis by (auto simp: segments_def jget_def)
qed

end
